(* ===== verification/Prelude.thy ===== *)
theory Prelude
  imports Main "HOL-Library.Word" "HOL-Library.Monad_Syntax"
begin

unbundle bit_operations_syntax

text \<open>
  Shared vocabulary of the development: machine integers, ASCII and UTF-8 byte predicates,
  decimal numerals, errors as sums, and the interface of an incremental (byte-at-a-time)
  protocol parser with its chunking laws.

  Rust integers are \<^typ>\<open>'a word\<close>s of their width; \<open>usize\<close> is 64 bits wide.
  A byte of text is a \<^typ>\<open>char\<close> (an Isabelle \<^typ>\<open>char\<close> is exactly 8 bits), so a
  \<open>&[u8]\<close> or a UTF-8 \<open>&str\<close> is a \<^typ>\<open>string\<close> of its bytes.
\<close>

section \<open>Types\<close>

type_synonym u8 = "8 word"
type_synonym u16 = "16 word"
type_synonym u32 = "32 word"
type_synonym u64 = "64 word"
type_synonym usize = "64 word"

named_theorems wire_simps \<open>equations that evaluate the enum tables of the wire formats\<close>
named_theorems step_simps \<open>equations that unfold one step of a byte-driven state machine\<close>

section \<open>ASCII\<close>

abbreviation code :: "char \<Rightarrow> nat" where
  "code c \<equiv> of_char c"

definition is_ascii_digit :: "char \<Rightarrow> bool" where
  "is_ascii_digit c \<longleftrightarrow> 48 \<le> code c \<and> code c \<le> 57"

definition is_ascii_lowercase :: "char \<Rightarrow> bool" where
  "is_ascii_lowercase c \<longleftrightarrow> 97 \<le> code c \<and> code c \<le> 122"

definition is_ascii_uppercase :: "char \<Rightarrow> bool" where
  "is_ascii_uppercase c \<longleftrightarrow> 65 \<le> code c \<and> code c \<le> 90"

definition is_ascii_alphanumeric :: "char \<Rightarrow> bool" where
  "is_ascii_alphanumeric c \<longleftrightarrow> is_ascii_lowercase c \<or> is_ascii_uppercase c \<or> is_ascii_digit c"

text \<open>Rust's \<open>is_ascii_whitespace\<close>: space, tab, line feed, form feed, carriage return.\<close>

definition is_ascii_whitespace :: "char \<Rightarrow> bool" where
  "is_ascii_whitespace c \<longleftrightarrow> code c \<in> {32, 9, 10, 12, 13}"

definition to_ascii_lowercase :: "char \<Rightarrow> char" where
  "to_ascii_lowercase c = (if is_ascii_uppercase c then char_of (code c + 32) else c)"

definition to_ascii_uppercase :: "char \<Rightarrow> char" where
  "to_ascii_uppercase c = (if is_ascii_lowercase c then char_of (code c - 32) else c)"

definition eq_ignore_ascii_case :: "string \<Rightarrow> string \<Rightarrow> bool" where
  "eq_ignore_ascii_case s t \<longleftrightarrow> map to_ascii_lowercase s = map to_ascii_lowercase t"

abbreviation LF :: char where "LF \<equiv> CHR 0x0A"
abbreviation CR :: char where "CR \<equiv> CHR 0x0D"
abbreviation TAB :: char where "TAB \<equiv> CHR 0x09"
abbreviation SP :: char where "SP \<equiv> CHR 0x20"
abbreviation NUL :: char where "NUL \<equiv> CHR 0x00"
abbreviation DQUOTE :: char where "DQUOTE \<equiv> CHR 0x22"
abbreviation BACKSLASH :: char where "BACKSLASH \<equiv> CHR 0x5C"

lemma code_less [simp]: "code c < 256"
  by (metis nat_of_char_less_256)

lemma code_inject [simp]: "code c = code d \<longleftrightarrow> c = d"
  by (rule of_char_eq_iff)

lemma eq_ignore_ascii_case_refl [simp]: "eq_ignore_ascii_case s s"
  by (simp add: eq_ignore_ascii_case_def)

lemma to_ascii_lowercase_idem [simp]:
  "to_ascii_lowercase (to_ascii_lowercase c) = to_ascii_lowercase c"
  by (simp add: to_ascii_lowercase_def is_ascii_uppercase_def of_char_of)

section \<open>UTF-8\<close>

text \<open>
  \<open>std::str::from_utf8\<close> accepts exactly the well-formed sequences of the Unicode
  standard: no overlong forms, no surrogates, nothing above U+10FFFF.
\<close>

definition is_continuation :: "char \<Rightarrow> bool" where
  "is_continuation c \<longleftrightarrow> 128 \<le> code c \<and> code c < 192"

fun utf8_valid :: "string \<Rightarrow> bool" where
  "utf8_valid [] = True"
| "utf8_valid (a # s) =
     (if code a < 128 then utf8_valid s
      else if 194 \<le> code a \<and> code a < 224 then
        (case s of b # s' \<Rightarrow> is_continuation b \<and> utf8_valid s' | _ \<Rightarrow> False)
      else if 224 \<le> code a \<and> code a < 240 then
        (case s of b # c # s' \<Rightarrow>
           is_continuation b \<and> is_continuation c
           \<and> (code a = 224 \<longrightarrow> 160 \<le> code b) \<and> (code a = 237 \<longrightarrow> code b < 160)
           \<and> utf8_valid s'
         | _ \<Rightarrow> False)
      else if 240 \<le> code a \<and> code a < 245 then
        (case s of b # c # d # s' \<Rightarrow>
           is_continuation b \<and> is_continuation c \<and> is_continuation d
           \<and> (code a = 240 \<longrightarrow> 144 \<le> code b) \<and> (code a = 244 \<longrightarrow> code b < 144)
           \<and> utf8_valid s'
         | _ \<Rightarrow> False)
      else False)"

text \<open>
  \<open>String::from_utf8_lossy\<close>: every maximal prefix of a sequence that is not valid becomes
  one replacement character.
\<close>

abbreviation REPLACEMENT :: string where
  "REPLACEMENT \<equiv> [CHR 0xEF, CHR 0xBF, CHR 0xBD]"

definition second_ok :: "char \<Rightarrow> char \<Rightarrow> bool" where
  "second_ok a b \<longleftrightarrow> is_continuation b
     \<and> (code a = 224 \<longrightarrow> 160 \<le> code b) \<and> (code a = 237 \<longrightarrow> code b < 160)
     \<and> (code a = 240 \<longrightarrow> 144 \<le> code b) \<and> (code a = 244 \<longrightarrow> code b < 144)"

fun utf8_lossy :: "string \<Rightarrow> string" where
  "utf8_lossy [] = []"
| "utf8_lossy (a # s) =
     (if code a < 128 then a # utf8_lossy s
      else if 194 \<le> code a \<and> code a < 245 then
        (case s of
           [] \<Rightarrow> REPLACEMENT
         | b # s' \<Rightarrow>
             if \<not> second_ok a b then REPLACEMENT @ utf8_lossy s
             else if code a < 224 then a # b # utf8_lossy s'
             else (case s' of
                     [] \<Rightarrow> REPLACEMENT
                   | c # s'' \<Rightarrow>
                       if \<not> is_continuation c then REPLACEMENT @ utf8_lossy s'
                       else if code a < 240 then a # b # c # utf8_lossy s''
                       else (case s'' of
                               [] \<Rightarrow> REPLACEMENT
                             | d # s''' \<Rightarrow>
                                 if \<not> is_continuation d then REPLACEMENT @ utf8_lossy s''
                                 else a # b # c # d # utf8_lossy s''')))
      else REPLACEMENT @ utf8_lossy s)"

declare utf8_lossy.simps(2) [simp del]

text \<open>
  \<open>chars().take(n)\<close> on the bytes of a string: a scalar value is one byte that is not a
  continuation byte followed by its continuation bytes.
\<close>

fun take_chars :: "nat \<Rightarrow> string \<Rightarrow> string" where
  "take_chars n [] = []"
| "take_chars n (b # s) =
     (if is_continuation b then b # take_chars n s
      else case n of 0 \<Rightarrow> [] | Suc m \<Rightarrow> b # take_chars m s)"

definition count_chars :: "string \<Rightarrow> nat" where
  "count_chars s = length (filter (\<lambda>b. \<not> is_continuation b) s)"

lemma count_take_chars: "count_chars (take_chars n s) = min n (count_chars s)"
  by (induction n s rule: take_chars.induct) (auto simp: count_chars_def split: nat.splits)

lemma take_chars_all: "count_chars s \<le> n \<Longrightarrow> take_chars n s = s"
  by (induction n s rule: take_chars.induct)
    (auto simp: count_chars_def split: nat.splits if_splits)

lemma take_chars_idem: "take_chars n (take_chars n s) = take_chars n s"
  by (simp add: take_chars_all count_take_chars)

lemma count_chars_le_length: "count_chars s \<le> length s"
  by (simp add: count_chars_def)

section \<open>Decimal numerals\<close>

fun nat_to_string :: "nat \<Rightarrow> string" where
  "nat_to_string n =
     (if n < 10 then [char_of (48 + n)]
      else nat_to_string (n div 10) @ [char_of (48 + n mod 10)])"

declare nat_to_string.simps [simp del]

definition digit_value :: "char \<Rightarrow> nat" where
  "digit_value c = code c - 48"

definition decimal_value :: "string \<Rightarrow> nat" where
  "decimal_value s = foldl (\<lambda>n c. 10 * n + digit_value c) 0 s"

text \<open>
  \<open>str::parse::<uN>()\<close> for an unsigned type of \<open>limit\<close> values: an optional plus
  sign, at least one digit, nothing else, and no overflow.
\<close>

definition parse_unsigned :: "nat \<Rightarrow> string \<Rightarrow> nat option" where
  "parse_unsigned limit s =
     (let ds = (case s of c # cs \<Rightarrow> if c = CHR ''+'' then cs else s | [] \<Rightarrow> [])
      in if ds \<noteq> [] \<and> list_all is_ascii_digit ds \<and> decimal_value ds < limit
         then Some (decimal_value ds) else None)"

lemma is_ascii_digit_char_of: "(n::nat) < 10 \<Longrightarrow> is_ascii_digit (char_of (48 + n))"
  by (simp add: is_ascii_digit_def of_char_of)

lemma digit_value_char_of: "(n::nat) < 10 \<Longrightarrow> digit_value (char_of (48 + n)) = n"
  by (simp add: digit_value_def of_char_of)

lemma nat_to_string_digits: "list_all is_ascii_digit (nat_to_string n)"
proof (induction n rule: nat_to_string.induct)
  case (1 n)
  then show ?case
    by (subst nat_to_string.simps) (auto intro!: is_ascii_digit_char_of)
qed

lemma decimal_value_snoc: "decimal_value (s @ [c]) = 10 * decimal_value s + digit_value c"
  by (simp add: decimal_value_def)

lemma decimal_value_nat_to_string: "decimal_value (nat_to_string n) = n"
proof (induction n rule: nat_to_string.induct)
  case (1 n)
  show ?case
  proof (cases "n < 10")
    case True
    then show ?thesis
      by (subst nat_to_string.simps) (simp add: decimal_value_def digit_value_char_of)
  next
    case False
    with 1 have "decimal_value (nat_to_string (n div 10)) = n div 10" by simp
    with False show ?thesis
      by (subst nat_to_string.simps) (simp add: decimal_value_snoc digit_value_char_of)
  qed
qed

lemma nat_to_string_not_Nil [simp]: "nat_to_string n \<noteq> []"
  by (subst nat_to_string.simps) simp

lemma parse_unsigned_nat_to_string:
  assumes "n < limit"
  shows "parse_unsigned limit (nat_to_string n) = Some n"
proof -
  obtain c cs where s: "nat_to_string n = c # cs"
    by (cases "nat_to_string n") auto
  with nat_to_string_digits [of n] have "is_ascii_digit c" by simp
  then have "c \<noteq> CHR ''+''" by (auto simp: is_ascii_digit_def)
  with s nat_to_string_digits [of n] decimal_value_nat_to_string [of n] assms
  show ?thesis by (simp add: parse_unsigned_def)
qed

section \<open>Counters\<close>

lemma unat_inc:
  fixes a b :: "'a::len word"
  assumes "unat a < unat b"
  shows "unat (a + 1) = Suc (unat a)"
proof -
  have "unat b < 2 ^ LENGTH('a)" by (rule unsigned_less)
  with assms have "unat a + 1 < 2 ^ LENGTH('a)" by linarith
  then show ?thesis by (simp add: unat_word_ariths)
qed

section \<open>Leading zeros and single-bit masks\<close>

text \<open>\<open>u64::leading_zeros\<close> and its relatives: zeros counted from the top bit down.\<close>

fun zeros_from :: "nat \<Rightarrow> 'a::len word \<Rightarrow> nat" where
  "zeros_from 0 w = 0"
| "zeros_from (Suc n) w = (if bit w n then 0 else Suc (zeros_from n w))"

definition leading_zeros :: "'a::len word \<Rightarrow> nat" where
  "leading_zeros w = zeros_from LENGTH('a) w"

text \<open>
  \<open>1 << n\<close> on \<open>u64\<close>: the shift amount is masked to six bits, as in a release build
  (a debug build panics on 64 and above, which no caller reaches).
\<close>

definition bit_mask :: "u64 \<Rightarrow> u64" where
  "bit_mask n = push_bit (unat n mod 64) 1"

lemma bit_bit_mask [simp]: "bit (bit_mask n) i \<longleftrightarrow> i = unat n mod 64"
  by (auto simp: bit_mask_def bit_exp_iff possible_bit_word)

lemma word_nonzero_bit: "w \<noteq> 0 \<Longrightarrow> \<exists>i. bit (w :: 'a::len word) i"
  by (auto simp: bit_eq_iff)

lemma finite_word_bits [simp]: "finite {i. bit (w :: 'a::len word) i}"
  by (rule finite_subset [of _ "{..<LENGTH('a)}"]) (auto dest: bit_imp_le_length)

lemma bit_less_exp:
  assumes "unat (w :: 'a::len word) < 2 ^ n" and "bit w i"
  shows "i < n"
proof -
  from assms(1) have "take_bit n (unat w) = unat w" by (simp add: take_bit_nat_eq_self)
  moreover from assms(2) have "bit (unat w) i" by (simp add: bit_unsigned_iff bit_imp_le_length)
  ultimately show ?thesis by (metis bit_take_bit_iff)
qed

lemma unat_drop_bit_div: "unat (drop_bit n w) = unat (w :: 'a::len word) div 2 ^ n"
  by (simp add: unat_drop_bit_eq drop_bit_nat_def)

lemma zeros_from_le: "zeros_from n w \<le> n"
  by (induction n) auto

lemma zeros_from_above: "n - zeros_from n w \<le> i \<Longrightarrow> i < n \<Longrightarrow> \<not> bit w i"
  by (induction n) (auto simp: less_Suc_eq split: if_splits)

lemma zeros_from_bit: "zeros_from n w < n \<Longrightarrow> bit w (n - 1 - zeros_from n w)"
  by (induction n) (auto split: if_splits)

lemma zeros_from_all: "zeros_from n w = n \<Longrightarrow> i < n \<Longrightarrow> \<not> bit w i"
  using zeros_from_above [of n w i] by simp

lemma leading_zeros_less: "w \<noteq> 0 \<Longrightarrow> leading_zeros (w :: 'a::len word) < LENGTH('a)"
proof (rule ccontr)
  assume w: "w \<noteq> 0" and "\<not> leading_zeros w < LENGTH('a)"
  then have "zeros_from LENGTH('a) w = LENGTH('a)"
    using zeros_from_le [of "LENGTH('a)" w] by (simp add: leading_zeros_def)
  then have "\<not> bit w i" for i
    using zeros_from_all [of "LENGTH('a)" w i] bit_imp_le_length [of w i] by force
  with word_nonzero_bit [OF w] show False by blast
qed

lemma leading_zeros_bit:
  "w \<noteq> 0 \<Longrightarrow> bit (w :: 'a::len word) (LENGTH('a) - 1 - leading_zeros w)"
  using zeros_from_bit [of "LENGTH('a)" w] leading_zeros_less [of w]
  by (simp add: leading_zeros_def)

lemma leading_zeros_above:
  "LENGTH('a) - leading_zeros w \<le> i \<Longrightarrow> \<not> bit (w :: 'a::len word) i"
  using zeros_from_above [of "LENGTH('a)" w i] bit_imp_le_length [of w i]
  by (force simp: leading_zeros_def)

lemma unat_less_leading_zeros: "unat (w :: 'a::len word) < 2 ^ (LENGTH('a) - leading_zeros w)"
proof -
  let ?n = "LENGTH('a) - leading_zeros w"
  have "w = take_bit ?n w"
    using leading_zeros_above [of w] by (intro bit_word_eqI) (auto simp: bit_simps, meson not_le)
  then have "unat w = take_bit ?n (unat w)" by (metis unsigned_take_bit_eq)
  then show ?thesis using take_bit_nat_less_exp [of ?n "unat w"] by simp
qed

lemma or_eq_add: "(a :: 'a::len word) AND b = 0 \<Longrightarrow> a OR b = a + b"
  by (simp add: disjunctive_add_eq_or)

lemma push_bit_or_add:
  assumes "unat (b :: 'a::len word) < 2 ^ n"
  shows "push_bit n a OR b = a * 2 ^ n + b"
proof -
  have "push_bit n a AND b = 0"
    by (rule bit_word_eqI) (auto simp: bit_simps dest: bit_less_exp [OF assms])
  then show ?thesis by (simp add: or_eq_add push_bit_eq_mult)
qed

section \<open>Incremental parsers\<close>

text \<open>
  The POP3 request parser and the IMAP receiver have the same shape: a state, and a
  \<open>parse\<close> operation that consumes bytes of a network buffer until it has a result
  (a request or an error) or the buffer is used up; the caller calls it again with the rest.
  \<open>parse\<close> returns the result (\<^term>\<open>None\<close> for "needs more data"), the new state and
  the unread bytes. The laws say that \<open>parse\<close> is the iteration of a one-byte
  \<open>step\<close>; the client's facts are that how the network cuts the byte stream into buffers
  does not matter, and that what a step keeps every run keeps.
\<close>

locale byte_parser =
  fixes step :: "'s \<Rightarrow> char \<Rightarrow> 's \<times> 'r option"
    and parse :: "'s \<Rightarrow> string \<Rightarrow> 'r option \<times> 's \<times> string"
  assumes parse_Nil: "parse s [] = (None, s, [])"
    and parse_Cons: "parse s (b # bs) =
      (case step s b of (s', None) \<Rightarrow> parse s' bs | (s', Some r) \<Rightarrow> (Some r, s', bs))"
begin

text \<open>\<open>feed\<close> is the caller's loop: all results of one buffer, and the final state.\<close>

fun feed :: "'s \<Rightarrow> string \<Rightarrow> 'r list \<times> 's" where
  "feed s [] = ([], s)"
| "feed s (b # bs) =
     (case step s b of (s', r) \<Rightarrow>
        (case feed s' bs of (rs, s'') \<Rightarrow> (case r of None \<Rightarrow> rs | Some x \<Rightarrow> x # rs, s'')))"

lemma parse_consumes:
  "parse s bs = (r, s', rest) \<Longrightarrow> (r = None \<longrightarrow> rest = []) \<and> length rest \<le> length bs
     \<and> (r \<noteq> None \<longrightarrow> length rest < length bs)"
proof (induction bs arbitrary: s)
  case Nil
  then show ?case by (simp add: parse_Nil)
next
  case (Cons b bs)
  show ?case
  proof (cases "step s b")
    case (Pair t o')
    show ?thesis
    proof (cases o')
      case None
      with Pair Cons.prems have "parse t bs = (r, s', rest)" by (simp add: parse_Cons)
      from Cons.IH [OF this] show ?thesis by fastforce
    next
      case (Some x)
      with Pair Cons.prems show ?thesis by (auto simp: parse_Cons)
    qed
  qed
qed

lemma feed_parse:
  "feed s bs = (case parse s bs of
     (None, s', _) \<Rightarrow> ([], s')
   | (Some x, s', rest) \<Rightarrow> (case feed s' rest of (rs, s'') \<Rightarrow> (x # rs, s'')))"
  by (induction bs arbitrary: s)
    (auto simp: parse_Nil parse_Cons split: prod.splits option.splits)

lemma feed_append:
  "feed s (xs @ ys) = (case feed s xs of (rs, s') \<Rightarrow>
     (case feed s' ys of (rs', s'') \<Rightarrow> (rs @ rs', s'')))"
  by (induction xs arbitrary: s) (auto split: prod.splits option.splits)

text \<open>\<open>feed_bufs\<close> hands the buffers over one after the other.\<close>

fun feed_bufs :: "'s \<Rightarrow> string list \<Rightarrow> 'r list \<times> 's" where
  "feed_bufs s [] = ([], s)"
| "feed_bufs s (b # bufs) =
     (case feed s b of (rs, s') \<Rightarrow> (case feed_bufs s' bufs of (rs', s'') \<Rightarrow> (rs @ rs', s'')))"

lemma feed_concat: "feed s (concat bufs) = feed_bufs s bufs"
  by (induction bufs arbitrary: s) (auto simp: feed_append split: prod.splits)

lemma feed_inv:
  assumes step: "\<And>s b. I s \<Longrightarrow> I (fst (step s b))" and start: "I s"
  shows "I (snd (feed s bs))"
  using start
proof (induction bs arbitrary: s)
  case Nil
  then show ?case by simp
next
  case (Cons b bs)
  from step [OF Cons.prems] have "I (fst (step s b))" .
  from Cons.IH [OF this] show ?case by (auto split: prod.splits)
qed

lemma feed_all_results:
  assumes step: "\<And>s b. I s \<Longrightarrow> I (fst (step s b)) \<and> (\<forall>x. snd (step s b) = Some x \<longrightarrow> P x)"
  shows "I s \<Longrightarrow> list_all P (fst (feed s bs))"
proof (induction bs arbitrary: s)
  case (Cons b bs)
  obtain s' r where s': "step s b = (s', r)" by fastforce
  with step [OF Cons.prems, of b] Cons.IH [of s'] show ?case
    by (auto split: prod.split option.split)
qed simp

end

end
