(* ===== verification/Vec_Map.thy ===== *)
theory Vec_Map
  imports Prelude
begin

text \<open>
  \<^verbatim>\<open>crates/utils/src/map/vec_map.rs\<close>: a map kept as a vector of key/value pairs, in
  insertion order, used for small data sets and for JSON objects. \<open>append\<close> and the
  collecting constructors do not look for duplicates; \<open>set\<close> and
  \<open>get_mut_or_insert\<close> do. A \<open>&mut V\<close> that the code hands out is a function
  applied to the value in place; a \<open>Vec\<close> operation that panics out of range returns
  \<^term>\<open>None\<close>.
\<close>

type_synonym ('k, 'v) vec_map = "('k \<times> 'v) list"

definition vm_new :: "('k, 'v) vec_map" where
  "vm_new = []"

fun vm_set :: "('k, 'v) vec_map \<Rightarrow> 'k \<Rightarrow> 'v \<Rightarrow> bool \<times> ('k, 'v) vec_map" where
  "vm_set [] key val = (True, [(key, val)])"
| "vm_set ((k, v) # m) key val =
     (if k = key then (False, (k, val) # m)
      else (case vm_set m key val of (fresh, m') \<Rightarrow> (fresh, (k, v) # m')))"

definition vm_append :: "('k, 'v) vec_map \<Rightarrow> 'k \<Rightarrow> 'v \<Rightarrow> ('k, 'v) vec_map" where
  "vm_append m key val = m @ [(key, val)]"

definition vm_insert :: "('k, 'v) vec_map \<Rightarrow> nat \<Rightarrow> 'k \<Rightarrow> 'v \<Rightarrow> ('k, 'v) vec_map option" where
  "vm_insert m idx key val =
     (if idx \<le> length m then Some (take idx m @ (key, val) # drop idx m) else None)"

fun vm_get :: "('k, 'v) vec_map \<Rightarrow> 'k \<Rightarrow> 'v option" where
  "vm_get [] key = None"
| "vm_get ((k, v) # m) key = (if k = key then Some v else vm_get m key)"

fun vm_get_mut :: "('k, 'v) vec_map \<Rightarrow> 'k \<Rightarrow> ('v \<Rightarrow> 'v) \<Rightarrow> ('k, 'v) vec_map option" where
  "vm_get_mut [] key f = None"
| "vm_get_mut ((k, v) # m) key f =
     (if k = key then Some ((k, f v) # m) else map_option ((#) (k, v)) (vm_get_mut m key f))"

definition vm_contains_key :: "('k, 'v) vec_map \<Rightarrow> 'k \<Rightarrow> bool" where
  "vm_contains_key m key = list_ex (\<lambda>(k, _). k = key) m"

fun vm_position :: "('k, 'v) vec_map \<Rightarrow> 'k \<Rightarrow> nat option" where
  "vm_position [] key = None"
| "vm_position ((k, _) # m) key = (if k = key then Some 0 else map_option Suc (vm_position m key))"

text \<open>\<open>Vec::remove\<close>: the element at \<open>pos\<close> and the vector with the rest shifted down.\<close>

definition vec_remove :: "'a list \<Rightarrow> nat \<Rightarrow> 'a list" where
  "vec_remove xs pos = take pos xs @ drop (Suc pos) xs"

definition vm_remove :: "('k, 'v) vec_map \<Rightarrow> 'k \<Rightarrow> 'v option \<times> ('k, 'v) vec_map" where
  "vm_remove m key =
     (case vm_position m key of
        None \<Rightarrow> (None, m)
      | Some pos \<Rightarrow> (Some (snd (m ! pos)), vec_remove m pos))"

definition vm_remove_all :: "('k, 'v) vec_map \<Rightarrow> 'k \<Rightarrow> ('k, 'v) vec_map" where
  "vm_remove_all m key = filter (\<lambda>(k, _). k \<noteq> key) m"

definition vm_remove_entry :: "('k, 'v) vec_map \<Rightarrow> 'k \<Rightarrow> ('k \<times> 'v) option \<times> ('k, 'v) vec_map" where
  "vm_remove_entry m key =
     (case vm_position m key of
        None \<Rightarrow> (None, m)
      | Some pos \<Rightarrow> (Some (m ! pos), vec_remove m pos))"

text \<open>\<open>Vec::swap_remove\<close>: the last element takes the place of the removed one.\<close>

definition vm_swap_remove :: "('k, 'v) vec_map \<Rightarrow> nat \<Rightarrow> ('v \<times> ('k, 'v) vec_map) option" where
  "vm_swap_remove m index =
     (if index < length m then Some (snd (m ! index), butlast (m[index := last m])) else None)"

definition vm_is_empty :: "('k, 'v) vec_map \<Rightarrow> bool" where
  "vm_is_empty m \<longleftrightarrow> m = []"

definition vm_len :: "('k, 'v) vec_map \<Rightarrow> nat" where
  "vm_len m = length m"

definition vm_clear :: "('k, 'v) vec_map \<Rightarrow> ('k, 'v) vec_map" where
  "vm_clear m = []"

definition vm_iter_by_key :: "('k, 'v) vec_map \<Rightarrow> 'k \<Rightarrow> 'v list" where
  "vm_iter_by_key m key = map snd (filter (\<lambda>(k, _). k = key) m)"

definition vm_keys :: "('k, 'v) vec_map \<Rightarrow> 'k list" where
  "vm_keys m = map fst m"

definition vm_values :: "('k, 'v) vec_map \<Rightarrow> 'v list" where
  "vm_values m = map snd m"

definition vm_last :: "('k, 'v) vec_map \<Rightarrow> ('k \<times> 'v) option" where
  "vm_last m = (if m = [] then None else Some (last m))"

text \<open>
  \<open>get_mut_or_insert_with\<close> (and \<open>get_mut_or_insert\<close>, whose \<open>fnc\<close> is
  \<open>V::default\<close>): the entry is created when it is missing, and the caller's change
  \<open>f\<close> is applied to it.
\<close>

definition vm_get_mut_or_insert_with ::
  "('k, 'v) vec_map \<Rightarrow> 'k \<Rightarrow> 'v \<Rightarrow> ('v \<Rightarrow> 'v) \<Rightarrow> ('k, 'v) vec_map" where
  "vm_get_mut_or_insert_with m key dflt f =
     (case vm_position m key of
        Some pos \<Rightarrow> m[pos := (fst (m ! pos), f (snd (m ! pos)))]
      | None \<Rightarrow> m @ [(key, f dflt)])"

fun vm_extend :: "('k, 'v) vec_map \<Rightarrow> ('k \<times> 'v) list \<Rightarrow> ('k, 'v) vec_map" where
  "vm_extend m [] = m"
| "vm_extend m ((k, v) # kvs) = vm_extend (vm_append m k v) kvs"

definition vm_from_iter :: "('k \<times> 'v) list \<Rightarrow> ('k, 'v) vec_map" where
  "vm_from_iter kvs = vm_extend vm_new kvs"

section \<open>The map behind the vector\<close>

text \<open>A vector without duplicate keys is a finite map; looking up is \<^const>\<open>map_of\<close>.\<close>

definition vm_distinct :: "('k, 'v) vec_map \<Rightarrow> bool" where
  "vm_distinct m \<longleftrightarrow> distinct (map fst m)"

lemma vm_get_map_of [simp]: "vm_get m = map_of m"
proof (rule ext)
  show "vm_get m k = map_of m k" for k
    by (induction m k rule: vm_get.induct) auto
qed

lemma vm_contains_key_iff: "vm_contains_key m k \<longleftrightarrow> map_of m k \<noteq> None"
  by (induction m) (auto simp: vm_contains_key_def)

lemma vm_set_map_of: "map_of (snd (vm_set m k v)) = (map_of m)(k \<mapsto> v)"
  by (induction m k v rule: vm_set.induct) (auto split: prod.splits)

lemma vm_set_keys:
  "map fst (snd (vm_set m k v)) = (if k \<in> fst ` set m then map fst m else map fst m @ [k])"
  by (induction m k v rule: vm_set.induct) (force split: prod.splits)+

lemma vm_set_fresh: "fst (vm_set m k v) \<longleftrightarrow> map_of m k = None"
  by (induction m k v rule: vm_set.induct) (auto split: prod.splits)

lemma vm_distinct_set: "vm_distinct m \<Longrightarrow> vm_distinct (snd (vm_set m k v))"
  by (auto simp: vm_distinct_def vm_set_keys)

lemma vm_position_None: "vm_position m k = None \<longleftrightarrow> map_of m k = None"
  by (induction m k rule: vm_position.induct) auto

lemma vm_position_Some:
  "vm_position m k = Some pos \<Longrightarrow>
     \<exists>pre v post. m = pre @ (k, v) # post \<and> length pre = pos \<and> k \<notin> fst ` set pre"
proof (induction m k arbitrary: pos rule: vm_position.induct)
  case (1 key)
  then show ?case by simp
next
  case (2 k v m key)
  show ?case
  proof (cases "k = key")
    case True
    with 2 show ?thesis by (intro exI [of _ "[]"]) auto
  next
    case False
    with 2 obtain p pre w post where "pos = Suc p"
      "m = pre @ (key, w) # post \<and> length pre = p \<and> key \<notin> fst ` set pre"
      by auto
    with False show ?thesis by (intro exI [of _ "(k, v) # pre"]) auto
  qed
qed

lemma map_of_split:
  "k \<notin> fst ` set pre \<Longrightarrow> map_of (pre @ (k, v) # post) = (map_of (pre @ post))(k \<mapsto> v)"
  by (induction pre) (auto simp: fun_eq_iff)

lemma vm_remove_map_of:
  assumes "vm_distinct m"
  shows "fst (vm_remove m k) = map_of m k" and "map_of (snd (vm_remove m k)) = (map_of m)(k := None)"
    and "vm_distinct (snd (vm_remove m k))"
proof -
  have "fst (vm_remove m k) = map_of m k \<and> map_of (snd (vm_remove m k)) = (map_of m)(k := None)
    \<and> vm_distinct (snd (vm_remove m k))"
  proof (cases "vm_position m k")
    case None
    moreover from None have "map_of m k = None" by (simp add: vm_position_None)
    ultimately show ?thesis using assms by (auto simp: vm_remove_def fun_upd_idem)
  next
    case (Some pos)
    then obtain pre v post where m: "m = pre @ (k, v) # post" "length pre = pos" "k \<notin> fst ` set pre"
      using vm_position_Some by metis
    with assms have post: "k \<notin> fst ` set post" by (auto simp: vm_distinct_def)
    have rm: "vm_remove m k = (Some v, pre @ post)"
      using Some m(1,2) by (auto simp: vm_remove_def vec_remove_def nth_append)
    have "map_of (pre @ post) k = None"
      using m(3) post by (auto simp: map_of_eq_None_iff)
    then have "map_of (pre @ post) = (map_of m)(k := None)"
      unfolding m(1) map_of_split [OF m(3)] by (auto simp: fun_eq_iff)
    moreover have "map_of m k = Some v" unfolding m(1) map_of_split [OF m(3)] by simp
    ultimately show ?thesis using rm assms m(1) by (auto simp: vm_distinct_def)
  qed
  then show "fst (vm_remove m k) = map_of m k" and "map_of (snd (vm_remove m k)) = (map_of m)(k := None)"
    and "vm_distinct (snd (vm_remove m k))" by auto
qed

lemma vm_get_mut_or_insert_eq:
  "vm_get_mut_or_insert_with m k d f =
     snd (vm_set m k (f (case map_of m k of None \<Rightarrow> d | Some v \<Rightarrow> v)))"
proof (induction m)
  case Nil
  then show ?case by (simp add: vm_get_mut_or_insert_with_def)
next
  case (Cons kv m)
  then show ?case
    by (cases kv) (auto simp: vm_get_mut_or_insert_with_def split: option.splits prod.splits)
qed

lemma vm_extend_append: "vm_extend m kvs = m @ kvs"
  by (induction m kvs rule: vm_extend.induct) (auto simp: vm_append_def)

section \<open>The upsert interface\<close>

text \<open>
  What the change-log builder relies on: an entry is looked up by key, and a change to a
  possibly missing entry affects this key only. A sequence of changes then acts on each
  key by itself.
\<close>

locale upsert_map =
  fixes lookup :: "'m \<Rightarrow> 'k \<Rightarrow> 'v option"
    and upsert :: "'m \<Rightarrow> 'k \<Rightarrow> 'v \<Rightarrow> ('v \<Rightarrow> 'v) \<Rightarrow> 'm"
  assumes lookup_upsert: "lookup (upsert m k d f) k' =
    (if k' = k then Some (f (case lookup m k of None \<Rightarrow> d | Some v \<Rightarrow> v)) else lookup m k')"
begin

definition get_or :: "'m \<Rightarrow> 'k \<Rightarrow> 'v \<Rightarrow> 'v" where
  "get_or m k d = (case lookup m k of None \<Rightarrow> d | Some v \<Rightarrow> v)"

fun upserts :: "'v \<Rightarrow> 'm \<Rightarrow> ('k \<times> ('v \<Rightarrow> 'v)) list \<Rightarrow> 'm" where
  "upserts d m [] = m"
| "upserts d m ((k, f) # kfs) = upserts d (upsert m k d f) kfs"

lemma get_or_upsert: "get_or (upsert m k d f) k' d = (if k' = k then f (get_or m k d) else get_or m k' d)"
  by (simp add: get_or_def lookup_upsert)

lemma get_or_upserts:
  "get_or (upserts d m kfs) k d = foldl (\<lambda>v f. f v) (get_or m k d) (map snd (filter (\<lambda>(k', _). k' = k) kfs))"
  by (induction d m kfs rule: upserts.induct) (auto simp: get_or_upsert)

lemma upserts_inv:
  assumes "P d" and "\<And>k v. lookup m k = Some v \<Longrightarrow> P v"
    and "\<And>k f v. (k, f) \<in> set kfs \<Longrightarrow> P v \<Longrightarrow> P (f v)"
    and "lookup (upserts d m kfs) k = Some v"
  shows "P v"
  using assms
proof (induction d m kfs rule: upserts.induct)
  case (1 d m)
  then show ?case by simp
next
  case (2 d m k' f kfs)
  have "P w" if "lookup (upsert m k' d f) k'' = Some w" for k'' w
    using that 2(2) 2(3) [of k' ] 2(3) [of k''] 2(4) [of k' f]
    by (auto simp: lookup_upsert split: if_splits option.splits)
  moreover have "P (g w)" if "(k'', g) \<in> set kfs" "P w" for k'' g w
    using 2(4) that by auto
  ultimately show ?case using 2(1) 2(2,5) by (metis upserts.simps(2))
qed

end

interpretation vm: upsert_map vm_get vm_get_mut_or_insert_with
  by unfold_locales (auto simp: vm_get_mut_or_insert_eq vm_set_map_of)

section \<open>Properties\<close>

text \<open>
  C33: VecMap refines a finite map. On a vector without duplicate keys, \<open>set\<close> is map
  update and reports whether the key is new, \<open>remove\<close> returns the old value and
  deletes the key, \<open>get_mut_or_insert_with\<close> changes the entry of its key only, and all
  three keep the keys distinct.
\<close>

theorem vec_map_refines_map:
  assumes "vm_distinct m"
  shows "vm_get (snd (vm_set m k v)) = (vm_get m)(k \<mapsto> v)
    \<and> (fst (vm_set m k v) \<longleftrightarrow> vm_get m k = None)
    \<and> fst (vm_remove m k) = vm_get m k
    \<and> vm_get (snd (vm_remove m k)) = (vm_get m)(k := None)
    \<and> vm_get (vm_get_mut_or_insert_with m k d f)
        = (vm_get m)(k \<mapsto> f (case vm_get m k of None \<Rightarrow> d | Some w \<Rightarrow> w))
    \<and> vm_distinct (snd (vm_set m k v)) \<and> vm_distinct (snd (vm_remove m k))
    \<and> vm_distinct (vm_get_mut_or_insert_with m k d f)"
  using vm_remove_map_of [OF assms, of k] assms
  by (simp add: vm_set_map_of vm_set_fresh vm_get_mut_or_insert_eq vm_distinct_set)

theorem vec_map_refines_map_witness:
  "vm_get (snd (vm_remove [(1::nat, ''a''), (2, ''b'')] 1)) = (vm_get [(1, ''a''), (2, ''b'')])(1 := None)"
proof -
  have "vm_distinct [(1::nat, ''a''), (2, ''b'')]" by (simp add: vm_distinct_def)
  from vec_map_refines_map [OF this] show ?thesis by blast
qed

end
