(* ===== verification/Leb128.thy ===== *)
theory Leb128
  imports Prelude
begin

text \<open>
  \<^verbatim>\<open>crates/utils/src/codec/leb128.rs\<close>: variable-length integers, seven bits per byte,
  low bits first, the high bit of a byte saying that more follow. One macro gives the code
  for \<open>u8\<close>, \<open>u16\<close>, \<open>u32\<close>, \<open>u64\<close> and \<open>usize\<close>; the instances
  differ in the width of the result and in the list of shifts the decoder may use.
\<close>

section \<open>Encoder\<close>

lemma drop_bit_7_less: "\<not> w < 0x80 \<Longrightarrow> unat (drop_bit 7 (w :: u64)) < unat w"
  by (simp only: unat_drop_bit_div) (simp add: word_less_nat_alt)

text \<open>
  The macro's loop, on the value widened to 64 bits (each step compares, masks and shifts
  right, so the width does not matter).
\<close>

function leb128_bytes :: "u64 \<Rightarrow> u8 list" where
  "leb128_bytes val =
     (if val < 0x80 then [ucast val]
      else ucast ((val AND 0x7F) OR 0x80) # leb128_bytes (drop_bit 7 val))"
  by pat_completeness auto

termination by (relation "measure unat") (auto intro: drop_bit_7_less)

declare leb128_bytes.simps [simp del]

definition to_leb128_bytes :: "'a::len word \<Rightarrow> u8 list" where
  "to_leb128_bytes val = leb128_bytes (ucast val)"

text \<open>\<open>push_leb128\<close> and \<open>to_leb128_writer\<close> (which also returns the number of bytes).\<close>

definition push_leb128 :: "u8 list \<Rightarrow> 'a::len word \<Rightarrow> u8 list" where
  "push_leb128 out val = out @ to_leb128_bytes val"

definition to_leb128_writer :: "'a::len word \<Rightarrow> u8 list \<Rightarrow> nat \<times> u8 list" where
  "to_leb128_writer val out = (length (to_leb128_bytes val), out @ to_leb128_bytes val)"

section \<open>Decoders\<close>

definition shifts_u8 :: "nat list" where "shifts_u8 = [0]"
definition shifts_u16 :: "nat list" where "shifts_u16 = [0, 7, 14]"
definition shifts_u32 :: "nat list" where "shifts_u32 = [0, 7, 14, 21, 28]"
definition shifts_u64 :: "nat list" where "shifts_u64 = [0, 7, 14, 21, 28, 35, 42, 49, 56, 63]"

fun leb128_pos_loop :: "nat list \<Rightarrow> u8 list \<Rightarrow> nat \<Rightarrow> 'a::len word \<Rightarrow> ('a word \<times> nat) option" where
  "leb128_pos_loop (shift # shifts) (byte # bytes) pos result =
     (if byte AND 0x80 = 0 then Some (result OR push_bit shift (ucast byte), pos + 1)
      else leb128_pos_loop shifts bytes (pos + 1)
             (result OR push_bit shift (ucast (byte AND 0x7F))))"
| "leb128_pos_loop _ _ pos result = None"

definition from_leb128_bytes_pos :: "nat list \<Rightarrow> u8 list \<Rightarrow> ('a::len word \<times> nat) option" where
  "from_leb128_bytes_pos shifts bytes = leb128_pos_loop shifts bytes 0 0"

fun leb128_bytes_loop :: "nat list \<Rightarrow> u8 list \<Rightarrow> 'a::len word \<Rightarrow> 'a word option" where
  "leb128_bytes_loop (shift # shifts) (byte # bytes) result =
     (if byte AND 0x80 = 0 then Some (result OR push_bit shift (ucast byte))
      else leb128_bytes_loop shifts bytes (result OR push_bit shift (ucast (byte AND 0x7F))))"
| "leb128_bytes_loop _ _ result = None"

definition from_leb128_bytes :: "nat list \<Rightarrow> u8 list \<Rightarrow> 'a::len word option" where
  "from_leb128_bytes shifts bytes = leb128_bytes_loop shifts bytes 0"

text \<open>
  \<open>from_leb128_it\<close> reads from an iterator and leaves it after the last byte it took:
  the shifts come first in the \<open>zip\<close>, so when they run out no further byte is taken.
\<close>

fun leb128_it_loop :: "nat list \<Rightarrow> u8 list \<Rightarrow> 'a::len word \<Rightarrow> 'a word option \<times> u8 list" where
  "leb128_it_loop (shift # shifts) (byte # it) result =
     (if byte AND 0x80 = 0 then (Some (result OR push_bit shift (ucast byte)), it)
      else leb128_it_loop shifts it (result OR push_bit shift (ucast (byte AND 0x7F))))"
| "leb128_it_loop _ it result = (None, it)"

definition from_leb128_it :: "nat list \<Rightarrow> u8 list \<Rightarrow> 'a::len word option \<times> u8 list" where
  "from_leb128_it shifts it = leb128_it_loop shifts it 0"

definition next_leb128 :: "u8 list \<Rightarrow> u64 option \<times> u8 list" where
  "next_leb128 it = from_leb128_it shifts_u64 it"

fun skip_leb128_it :: "u8 list \<Rightarrow> bool \<times> u8 list" where
  "skip_leb128_it [] = (False, [])"
| "skip_leb128_it (byte # it) = (if byte AND 0x80 = 0 then (True, it) else skip_leb128_it it)"

fun skip_leb128_loop :: "nat \<Rightarrow> u8 list \<Rightarrow> nat option" where
  "skip_leb128_loop pos [] = None"
| "skip_leb128_loop pos (byte # bytes) =
     (if byte AND 0x80 = 0 then Some (pos + 1) else skip_leb128_loop (pos + 1) bytes)"

definition skip_leb128 :: "u8 list \<Rightarrow> nat option" where
  "skip_leb128 bytes = skip_leb128_loop 0 bytes"

section \<open>The three decoders agree\<close>

lemma leb128_loops_agree:
  "leb128_bytes_loop shifts bs r = fst (leb128_it_loop shifts bs r)"
  "map_option fst (leb128_pos_loop shifts bs p r) = fst (leb128_it_loop shifts bs r)"
  "leb128_pos_loop shifts bs p r = Some (v, q) \<Longrightarrow>
     p \<le> q \<and> snd (leb128_it_loop shifts bs r) = drop (q - p) bs"
proof -
  show "leb128_bytes_loop shifts bs r = fst (leb128_it_loop shifts bs r)"
    by (induction shifts bs r rule: leb128_it_loop.induct) auto
  show "map_option fst (leb128_pos_loop shifts bs p r) = fst (leb128_it_loop shifts bs r)"
    by (induction shifts bs p r rule: leb128_pos_loop.induct) auto
  show "leb128_pos_loop shifts bs p r = Some (v, q) \<Longrightarrow>
     p \<le> q \<and> snd (leb128_it_loop shifts bs r) = drop (q - p) bs"
  proof (induction shifts bs p r rule: leb128_pos_loop.induct)
    case (1 shift shifts byte bytes pos result)
    then show ?case
      by (cases "byte AND 0x80 = 0") (auto simp: drop_Cons' dest: Suc_leD)
  qed auto
qed

section \<open>Round trip\<close>

lemma bit_less_0x80: "w < (0x80 :: u64) \<Longrightarrow> bit w i \<Longrightarrow> i < 7"
  using bit_less_exp [of w 7 i] by (simp add: word_less_nat_alt)

lemma bit_0x7F: "bit (0x7F :: int) i \<longleftrightarrow> i < 7"
proof -
  have eq: "(0x7F :: int) = mask 7" by (simp add: mask_eq_exp_minus_1)
  show ?thesis unfolding eq by (auto simp: bit_mask_iff)
qed

lemma bit_0x80: "bit (0x80 :: int) i \<longleftrightarrow> i = 7"
proof -
  have eq: "(0x80 :: int) = 2 ^ 7" by simp
  show ?thesis unfolding eq by (auto simp only: bit_exp_iff) (simp_all add: possible_bit_def)
qed

lemma low_byte: "w < 0x80 \<Longrightarrow> (ucast (w :: u64) :: u8) AND 0x80 = 0"
  by (rule bit_eqI) (auto simp: bit_simps bit_0x80 dest: bit_less_0x80)

lemma high_byte: "(ucast ((w AND 0x7F) OR 0x80 :: u64) :: u8) AND 0x80 \<noteq> 0"
proof -
  have "bit ((ucast ((w AND 0x7F) OR 0x80 :: u64) :: u8) AND 0x80) 7"
    by (simp add: bit_simps bit_0x80)
  then show ?thesis by auto
qed

lemma payload:
  "(ucast ((ucast ((w AND 0x7F) OR 0x80 :: u64) :: u8) AND 0x7F) :: 'a::len word)
    = take_bit 7 (ucast w)"
  by (rule bit_eqI) (auto simp: bit_simps bit_0x7F bit_0x80)

lemma payload_split:
  "push_bit s (take_bit 7 (ucast w)) OR push_bit (s + 7) (ucast (drop_bit 7 w))
    = (push_bit s (ucast (w :: u64)) :: 'a::len word)"
proof (rule bit_word_eqI)
  fix i
  have "7 + (i - (s + 7)) = i - s" if "s + 7 \<le> i" using that by simp
  moreover have "i - s < 7 \<longleftrightarrow> \<not> s + 7 \<le> i" if "s \<le> i" using that by auto
  ultimately show "bit (push_bit s (take_bit 7 (ucast w)) OR push_bit (s + 7) (ucast (drop_bit 7 w)) :: 'a word) i
      = bit (push_bit s (ucast w) :: 'a word) i"
    by (auto simp: bit_simps)
qed

lemma leb128_it_loop_bytes:
  assumes "unat w < 2 ^ (7 * n)" and "0 < n"
  shows "leb128_it_loop (map (\<lambda>i. s + 7 * i) [0..<n]) (leb128_bytes w @ rest) (r :: 'a::len word)
    = (Some (r OR push_bit s (ucast w)), rest)"
  using assms
proof (induction w arbitrary: n s r rule: leb128_bytes.induct)
  case (1 w)
  have "map (\<lambda>i. s + 7 * i) [0..<n] = s # map (\<lambda>i. s + 7 + 7 * i) [0..<n - 1]"
    using "1.prems"(2)
    by (cases n) (simp_all add: upt_conv_Cons map_Suc_upt [symmetric] del: upt_Suc)
  note shifts = this
  show ?case
  proof (cases "w < 0x80")
    case True
    have "(ucast (ucast w :: u8) :: 'a word) = ucast w"
      by (rule bit_eqI) (auto simp: bit_simps dest: bit_less_0x80 [OF True])
    with True low_byte [OF True] shifts show ?thesis
      by (subst leb128_bytes.simps) simp
  next
    case False
    have "unat (drop_bit 7 w) < 2 ^ (7 * (n - 1))"
    proof -
      have "7 * n = 7 + 7 * (n - 1)" using "1.prems"(2) by (cases n) auto
      then have "(2::nat) ^ (7 * n) = 128 * 2 ^ (7 * (n - 1))" by (simp add: power_add)
      with "1.prems"(1) show ?thesis
        by (simp only: unat_drop_bit_div) (simp add: less_mult_imp_div_less mult.commute)
    qed
    moreover have "0 < n - 1"
    proof (rule ccontr)
      assume "\<not> 0 < n - 1"
      with "1.prems" have "n = 1" by simp
      with "1.prems"(1) False show False by (simp add: word_less_nat_alt)
    qed
    ultimately have "leb128_it_loop (map (\<lambda>i. s + 7 + 7 * i) [0..<n - 1])
        (leb128_bytes (drop_bit 7 w) @ rest) (q :: 'a word)
      = (Some (q OR push_bit (s + 7) (ucast (drop_bit 7 w))), rest)" for q
      using "1.IH" [OF False] by blast
    then show ?thesis
      using False high_byte [of w] payload [of w, where 'a = 'a] payload_split [of s w, where 'a = 'a] shifts
      by (subst leb128_bytes.simps) (simp add: or.assoc)
  qed
qed

lemma leb128_bytes_length:
  assumes "unat w < 2 ^ (7 * n)" and "0 < n"
  shows "0 < length (leb128_bytes w)" and "length (leb128_bytes w) \<le> n"
proof -
  have "snd (leb128_it_loop (map (\<lambda>i. 0 + 7 * i) [0..<n]) (leb128_bytes w @ []) (0 :: u64)) = []"
    by (simp only: leb128_it_loop_bytes [OF assms] snd_conv)
  moreover have "length bs \<le> length shifts + length (snd (leb128_it_loop shifts bs r))"
    for shifts bs and r :: u64
    by (induction shifts bs r rule: leb128_it_loop.induct) auto
  ultimately show "length (leb128_bytes w) \<le> n"
    by (metis append_Nil2 add.right_neutral length_map length_upt list.size(3) minus_nat.diff_0)
  show "0 < length (leb128_bytes w)" by (subst leb128_bytes.simps) simp
qed

lemma unat_less_exp: "LENGTH('a) \<le> m \<Longrightarrow> unat (v :: 'a::len word) < 2 ^ m"
  using unsigned_less [of v] by (metis less_le_trans one_le_numeral power_increasing)

lemma unat_ucast_u64: "LENGTH('a) \<le> 64 \<Longrightarrow> unat (ucast (v :: 'a::len word) :: u64) = unat v"
  using unat_less_exp [of 64 v] by (simp add: unsigned_ucast_eq take_bit_nat_eq_self)

lemma ucast_ucast_u64: "LENGTH('a) \<le> 64 \<Longrightarrow> ucast (ucast (v :: 'a::len word) :: u64) = v"
  by (rule bit_word_eqI) (auto simp: bit_simps)

lemma from_leb128_it_to_leb128:
  assumes "LENGTH('a) \<le> 64" and "LENGTH('a) \<le> 7 * n" and "0 < n"
  shows "from_leb128_it (map ((*) 7) [0..<n]) (to_leb128_bytes (v :: 'a::len word) @ rest)
    = (Some (ucast v :: 'b::len word) , rest)" (is "?lhs = _")
proof -
  have "unat (ucast v :: u64) < 2 ^ (7 * n)"
    using assms(1,2) unat_less_exp [of "7 * n" v] by (simp add: unat_ucast_u64)
  from leb128_it_loop_bytes [OF this assms(3), of 0 rest "0 :: 'b word"]
  have "?lhs = (Some (ucast (ucast v :: u64)), rest)"
    by (simp add: from_leb128_it_def to_leb128_bytes_def)
  moreover have "(ucast (ucast v :: u64) :: 'b word) = ucast v"
    using assms(1) by (intro bit_word_eqI) (auto simp: bit_simps dest: bit_imp_le_length)
  ultimately show ?thesis by simp
qed

lemma shifts_eq:
  "shifts_u16 = map ((*) 7) [0..<3]" "shifts_u32 = map ((*) 7) [0..<5]"
  "shifts_u64 = map ((*) 7) [0..<10]"
  by (simp_all add: shifts_u16_def shifts_u32_def shifts_u64_def upt_rec)

section \<open>Streams of integers\<close>

text \<open>
  \<open>for _ in 0..n { let id = it.next_leb128()?; ... }\<close>: read \<open>n\<close> values and act on each;
  \<^term>\<open>None\<close> when the input ends early.
\<close>

fun for_each :: "(u8 list \<Rightarrow> 'b option \<times> u8 list) \<Rightarrow> nat \<Rightarrow> u8 list \<Rightarrow> ('s \<Rightarrow> 'b \<Rightarrow> 's) \<Rightarrow> 's
    \<Rightarrow> ('s \<times> u8 list) option" where
  "for_each next 0 it f s = Some (s, it)"
| "for_each next (Suc n) it f s =
     (case next it of (None, _) \<Rightarrow> None | (Some v, it') \<Rightarrow> for_each next n it' f (f s v))"

text \<open>
  The contract between a writer and a reader of a byte stream: whatever follows, the
  reader takes exactly the bytes the writer wrote for one value and returns the value (as
  the reader's type shows it).
\<close>

locale prefix_codec =
  fixes enc :: "'a \<Rightarrow> u8 list"
    and dec :: "u8 list \<Rightarrow> 'b option \<times> u8 list"
    and view :: "'a \<Rightarrow> 'b"
  assumes dec_enc: "dec (enc v @ rest) = (Some (view v), rest)"
begin

lemma for_each_enc:
  "for_each dec (length vs) (concat (map enc vs) @ rest) f s = Some (foldl f s (map view vs), rest)"
  by (induction vs arbitrary: s) (simp_all add: dec_enc)

lemma enc_not_prefix: "enc v @ r = enc w @ r' \<Longrightarrow> view v = view w \<and> r = r'"
  by (metis Pair_inject dec_enc option.inject)

end

interpretation leb_u16: prefix_codec "to_leb128_bytes :: u16 \<Rightarrow> u8 list" "from_leb128_it shifts_u16" id
  by unfold_locales (simp add: shifts_eq from_leb128_it_to_leb128)

interpretation leb_u32: prefix_codec "to_leb128_bytes :: u32 \<Rightarrow> u8 list" "from_leb128_it shifts_u32" id
  by unfold_locales (simp add: shifts_eq from_leb128_it_to_leb128)

interpretation leb_u64: prefix_codec "to_leb128_bytes :: u64 \<Rightarrow> u8 list" next_leb128 id
  by unfold_locales (simp add: next_leb128_def shifts_eq from_leb128_it_to_leb128)

text \<open>A 32-bit value written as such and read as a 64-bit one: the change log does this.\<close>

interpretation leb_u32_u64: prefix_codec "to_leb128_bytes :: u32 \<Rightarrow> u8 list" next_leb128 ucast
  by unfold_locales (simp add: next_leb128_def shifts_eq from_leb128_it_to_leb128)

lemma from_leb128_bytes_pos_to_leb128:
  assumes it: "from_leb128_it shifts (to_leb128_bytes v @ rest) = (Some w, rest)"
  shows "from_leb128_bytes_pos shifts (to_leb128_bytes v @ rest) = Some (w, length (to_leb128_bytes v))"
    (is "?l = _")
proof -
  from it have "map_option fst ?l = Some w"
    unfolding from_leb128_bytes_pos_def from_leb128_it_def leb128_loops_agree(2) by simp
  then obtain q where q: "?l = Some (w, q)" by auto
  from leb128_loops_agree(3) [OF q [unfolded from_leb128_bytes_pos_def]] it
  have "drop q (to_leb128_bytes v @ rest) = rest" by (simp add: from_leb128_it_def)
  moreover have "q \<le> length (to_leb128_bytes v @ rest)"
  proof -
    have "leb128_pos_loop sh bs p r = Some (u, q) \<Longrightarrow> q \<le> p + length bs" for sh bs p r u
      by (induction sh bs p r rule: leb128_pos_loop.induct) (auto split: if_splits)
    from this [OF q [unfolded from_leb128_bytes_pos_def]] show ?thesis by simp
  qed
  ultimately have "q = length (to_leb128_bytes v)"
    by (metis add_diff_cancel_right' diff_diff_cancel length_append length_drop)
  with q show ?thesis by simp
qed

lemma skip_leb128_bytes:
  "skip_leb128_loop p (leb128_bytes w @ rest) = Some (p + length (leb128_bytes w))"
proof (induction w arbitrary: p rule: leb128_bytes.induct)
  case (1 w)
  show ?case
  proof (cases "w < 0x80")
    case True
    then show ?thesis
      by (simp add: leb128_bytes.simps [of w] low_byte)
  next
    case False
    then show ?thesis
      using "1.IH" [OF False, of "p + 1"] high_byte [of w]
      by (simp add: leb128_bytes.simps [of w])
  qed
qed

section \<open>Properties\<close>

text \<open>
  C34: LEB128 round trip. For \<open>u16\<close>, \<open>u32\<close> and \<open>u64\<close> (and \<open>usize\<close>), decoding the
  encoding of a value followed by any bytes returns the value and the number of bytes
  written; the iterator form leaves exactly the bytes that follow.
\<close>

theorem leb128_roundtrip:
  "from_leb128_bytes_pos shifts_u16 (to_leb128_bytes (a :: u16) @ rest)
     = Some (a, length (to_leb128_bytes a))
   \<and> from_leb128_bytes_pos shifts_u32 (to_leb128_bytes (b :: u32) @ rest)
     = Some (b, length (to_leb128_bytes b))
   \<and> from_leb128_bytes_pos shifts_u64 (to_leb128_bytes (c :: u64) @ rest)
     = Some (c, length (to_leb128_bytes c))
   \<and> next_leb128 (push_leb128 [] c @ rest) = (Some c, rest)
   \<and> from_leb128_bytes shifts_u64 (to_leb128_bytes c @ rest) = Some c"
  using leb_u16.dec_enc [of a rest] leb_u32.dec_enc [of b rest] leb_u64.dec_enc [of c rest]
  by (auto simp: from_leb128_bytes_pos_to_leb128 push_leb128_def next_leb128_def
      from_leb128_bytes_def leb128_loops_agree(1) from_leb128_it_def)

text \<open>
  The \<open>u8\<close> instance. Its decoder is given the single shift 0, so it reads one byte;
  its encoder writes two bytes for 128 and above. Such a value does not decode.
\<close>

theorem leb128_u8_decodes_below_128:
  "from_leb128_bytes_pos shifts_u8 (to_leb128_bytes (v :: u8)) = (if v < 0x80 then Some (v, 1) else None)"
proof (cases "v < 0x80")
  case True
  then have "(ucast v :: u64) < 0x80"
    by (simp add: word_less_nat_alt unat_ucast_u64)
  with True low_byte [OF this] show ?thesis
    by (simp add: to_leb128_bytes_def leb128_bytes.simps [of "ucast v"] from_leb128_bytes_pos_def
        shifts_u8_def ucast_ucast_u64)
next
  case False
  then have "\<not> (ucast v :: u64) < 0x80"
    by (simp add: word_less_nat_alt unat_ucast_u64)
  with False high_byte [of "ucast v"] show ?thesis
    by (simp add: to_leb128_bytes_def leb128_bytes.simps [of "ucast v"] from_leb128_bytes_pos_def
        shifts_u8_def)
qed

text \<open>
  LEB128 sizes. An encoding is never empty, has at most 3, 5 and 10 bytes for 16, 32 and
  64 bits, and \<open>skip_leb128\<close> skips exactly it.
\<close>

theorem leb128_sizes:
  "length (to_leb128_bytes (a :: u16)) \<in> {1..3} \<and> length (to_leb128_bytes (b :: u32)) \<in> {1..5}
   \<and> length (to_leb128_bytes (c :: u64)) \<in> {1..10}
   \<and> skip_leb128 (to_leb128_bytes c @ rest) = Some (length (to_leb128_bytes c))
   \<and> fst (to_leb128_writer c out) = length (snd (to_leb128_writer c out)) - length out"
proof -
  have "unat (ucast a :: u64) < 2 ^ (7 * 3)" "unat (ucast b :: u64) < 2 ^ (7 * 5)"
    "unat c < 2 ^ (7 * 10)"
    using unat_less_exp [of 21 a] unat_less_exp [of 35 b] unat_less_exp [of 70 c]
    by (simp_all add: unat_ucast_u64)
  note bounds = this [THEN leb128_bytes_length(1)] this [THEN leb128_bytes_length(2)]
  show ?thesis
    using bounds skip_leb128_bytes [of 0 c rest]
    by (simp add: to_leb128_bytes_def to_leb128_writer_def skip_leb128_def Suc_le_eq)
qed

end
