(* ===== verification/Store_Keys.thy ===== *)
theory Store_Keys
  imports Prelude
begin

text \<open>
  \<^verbatim>\<open>crates/store/src/write/key.rs\<close>: the serializer of store keys, its reader, and the
  keys of the change log and of an index prefix. Numbers are written in big-endian order so
  that the byte order of keys, in which the stores iterate, is the numeric order.
\<close>

section \<open>Big-endian bytes\<close>

text \<open>\<open>to_be_bytes\<close> and \<open>from_be_bytes\<close> of an integer of \<open>n\<close> bytes.\<close>

fun be_bytes :: "nat \<Rightarrow> nat \<Rightarrow> u8 list" where
  "be_bytes 0 v = []"
| "be_bytes (Suc n) v = of_nat (v div 256 ^ n) # be_bytes n (v mod 256 ^ n)"

fun be_value :: "u8 list \<Rightarrow> nat" where
  "be_value [] = 0"
| "be_value (b # bs) = unat b * 256 ^ length bs + be_value bs"

section \<open>Serializer and reader\<close>

type_synonym key_serializer = "u8 list"

definition key_new :: key_serializer where
  "key_new = []"

definition key_write_u8 :: "key_serializer \<Rightarrow> u8 \<Rightarrow> key_serializer" where
  "key_write_u8 buf v = buf @ [v]"

definition key_write_bytes :: "key_serializer \<Rightarrow> u8 list \<Rightarrow> key_serializer" where
  "key_write_bytes buf v = buf @ v"

definition key_write_u16 :: "key_serializer \<Rightarrow> u16 \<Rightarrow> key_serializer" where
  "key_write_u16 buf v = buf @ be_bytes 2 (unat v)"

definition key_write_u32 :: "key_serializer \<Rightarrow> u32 \<Rightarrow> key_serializer" where
  "key_write_u32 buf v = buf @ be_bytes 4 (unat v)"

definition key_write_u64 :: "key_serializer \<Rightarrow> u64 \<Rightarrow> key_serializer" where
  "key_write_u64 buf v = buf @ be_bytes 8 (unat v)"

definition key_finalize :: "key_serializer \<Rightarrow> u8 list" where
  "key_finalize buf = buf"

text \<open>
  \<open>slice.get(index..index + n)\<close>: \<^term>\<open>None\<close> stands for the data-corruption error. An
  \<open>index\<close> computed by a subtraction that went below zero wraps to a huge number, which is
  out of range as well.
\<close>

definition be_at :: "nat \<Rightarrow> u8 list \<Rightarrow> nat \<Rightarrow> nat option" where
  "be_at n bs index =
     (if index + n \<le> length bs then Some (be_value (take n (drop index bs))) else None)"

definition deserialize_be_u16 :: "u8 list \<Rightarrow> nat \<Rightarrow> u16 option" where
  "deserialize_be_u16 bs index = map_option of_nat (be_at 2 bs index)"

definition deserialize_be_u32 :: "u8 list \<Rightarrow> nat \<Rightarrow> u32 option" where
  "deserialize_be_u32 bs index = map_option of_nat (be_at 4 bs index)"

definition deserialize_be_u64 :: "u8 list \<Rightarrow> nat \<Rightarrow> u64 option" where
  "deserialize_be_u64 bs index = map_option of_nat (be_at 8 bs index)"

section \<open>Keys\<close>

definition WITH_SUBSPACE :: u32 where "WITH_SUBSPACE = 1"
definition SUBSPACE_LOGS :: u8 where "SUBSPACE_LOGS = of_char (CHR ''l'')"
definition SUBSPACE_INDEXES :: u8 where "SUBSPACE_INDEXES = of_char (CHR ''i'')"

record log_key =
  lk_account_id :: u32
  lk_collection :: u8
  lk_change_id :: u64

record index_key_prefix =
  ik_account_id :: u32
  ik_collection :: u8
  ik_field :: u8

definition log_key_serialize :: "log_key \<Rightarrow> u32 \<Rightarrow> u8 list" where
  "log_key_serialize k flags =
     (let ks = (if flags AND WITH_SUBSPACE \<noteq> 0 then key_write_u8 key_new SUBSPACE_LOGS else key_new);
          ks = key_write_u32 ks (lk_account_id k);
          ks = key_write_u8 ks (lk_collection k);
          ks = key_write_u64 ks (lk_change_id k)
      in key_finalize ks)"

definition index_prefix_serialize :: "index_key_prefix \<Rightarrow> u32 \<Rightarrow> u8 list" where
  "index_prefix_serialize k flags =
     (let ks = (if flags AND WITH_SUBSPACE \<noteq> 0 then key_write_u8 key_new SUBSPACE_INDEXES else key_new);
          ks = key_write_u32 ks (ik_account_id k);
          ks = key_write_u8 ks (ik_collection k);
          ks = key_write_u8 ks (ik_field k)
      in key_finalize ks)"

section \<open>The order of keys\<close>

text \<open>The order in which a store keeps its keys: byte-wise, a prefix first.\<close>

fun key_less :: "u8 list \<Rightarrow> u8 list \<Rightarrow> bool" where
  "key_less bs [] \<longleftrightarrow> False"
| "key_less [] (c # cs) \<longleftrightarrow> True"
| "key_less (b # bs) (c # cs) \<longleftrightarrow> b < c \<or> b = c \<and> key_less bs cs"

definition key_le :: "u8 list \<Rightarrow> u8 list \<Rightarrow> bool" where
  "key_le bs cs \<longleftrightarrow> key_less bs cs \<or> bs = cs"

lemma length_be_bytes [simp]: "length (be_bytes n v) = n"
  by (induction n arbitrary: v) auto

lemma be_value_append: "be_value (bs @ cs) = be_value bs * 256 ^ length cs + be_value cs"
  by (induction bs) (simp_all add: power_add algebra_simps)

lemma u8_less: "unat (b :: u8) < 256"
  using unsigned_less [of b] by simp

lemma be_value_less: "be_value bs < 256 ^ length bs"
proof (induction bs)
  case Nil
  then show ?case by simp
next
  case (Cons b bs)
  have "Suc (unat b) * 256 ^ length bs \<le> 256 * 256 ^ length bs"
    using u8_less [of b] by (intro mult_le_mono1) (simp only: Suc_le_eq)
  then have "unat b * 256 ^ length bs + 256 ^ length bs \<le> 256 * 256 ^ length bs"
    by (simp only: mult_Suc add.commute)
  with Cons show ?case by (simp only: be_value.simps length_Cons power_Suc)
qed

lemma be_value_be_bytes: "v < 256 ^ n \<Longrightarrow> be_value (be_bytes n v) = v"
proof (induction n arbitrary: v)
  case 0
  then show ?case by simp
next
  case (Suc n)
  then have "v div 256 ^ n < 256" by (simp add: less_mult_imp_div_less)
  then have "unat (of_nat (v div 256 ^ n) :: u8) = v div 256 ^ n" by (simp add: unat_of_nat)
  moreover have "be_value (be_bytes n (v mod 256 ^ n)) = v mod 256 ^ n" by (rule Suc.IH) simp
  ultimately show ?case by (simp only: be_bytes.simps be_value.simps length_be_bytes div_mult_mod_eq)
qed

lemma key_less_be_value:
  "length bs = length cs \<Longrightarrow> key_less bs cs \<longleftrightarrow> be_value bs < be_value cs"
proof (induction bs cs rule: key_less.induct)
  case (3 b bs c cs)
  then have len: "length bs = length cs" by simp
  let ?p = "256 ^ length cs :: nat"
  have bound: "be_value bs < ?p" "be_value cs < ?p"
    using be_value_less [of bs] be_value_less [of cs] len by auto
  show ?case
  proof (cases "unat b" "unat c" rule: linorder_cases)
    case less
    then have "Suc (unat b) * ?p \<le> unat c * ?p" by (intro mult_le_mono1) simp
    with less bound show ?thesis by (simp add: len word_less_nat_alt)
  next
    case equal
    then have "b = c" by (simp add: word_unat_eq_iff)
    with "3.IH" len show ?thesis by simp
  next
    case greater
    then have "Suc (unat c) * ?p \<le> unat b * ?p" by (intro mult_le_mono1) simp
    with greater bound have "\<not> be_value (b # bs) < be_value (c # cs)" by (simp add: len)
    moreover have "\<not> b < c" "b \<noteq> c" using greater by (auto simp: word_less_nat_alt)
    ultimately show ?thesis by simp
  qed
qed auto

lemma radix_inject:
  assumes "x < p" "y < (p :: nat)"
  shows "a * p + x = b * p + y \<longleftrightarrow> a = b \<and> x = y"
proof
  assume eq: "a * p + x = b * p + y"
  have "(a * p + x) div p = a" "(b * p + y) div p = b" using assms by simp_all
  with eq have "a = b" by metis
  with eq show "a = b \<and> x = y" by simp
qed simp

lemma be_value_inject: "length bs = length cs \<Longrightarrow> be_value bs = be_value cs \<longleftrightarrow> bs = cs"
proof (induction bs cs rule: list_induct2)
  case (Cons b bs c cs)
  have bound: "be_value bs < 256 ^ length cs" "be_value cs < 256 ^ length cs"
    using be_value_less [of bs] be_value_less [of cs] Cons.hyps by auto
  show ?case
    unfolding be_value.simps Cons.hyps radix_inject [OF bound] using Cons.IH
    by (simp add: word_unat_eq_iff)
qed simp

lemma unat_less_bytes: "unat (a :: u32) < 256 ^ 4" "unat (c :: u64) < 256 ^ 8" "unat (d :: u16) < 256 ^ 2"
  using unsigned_less [of a] unsigned_less [of c] unsigned_less [of d] by simp_all

text \<open>A log key without the subspace byte is a 13-digit number in base 256.\<close>

lemma log_key_length: "length (log_key_serialize k 0) = 13"
  by (simp add: log_key_serialize_def key_new_def key_write_u32_def key_write_u8_def key_write_u64_def
      key_finalize_def)

lemma log_key_value:
  "be_value (log_key_serialize k 0) =
     (unat (lk_account_id k) * 256 + unat (lk_collection k)) * 256 ^ 8 + unat (lk_change_id k)"
proof -
  have "log_key_serialize k 0
      = (be_bytes 4 (unat (lk_account_id k)) @ [lk_collection k]) @ be_bytes 8 (unat (lk_change_id k))"
    by (simp add: log_key_serialize_def key_new_def key_write_u32_def key_write_u8_def key_write_u64_def
        key_finalize_def)
  then show ?thesis
    by (simp only: be_value_append be_value_be_bytes [OF unat_less_bytes(1)]
        be_value_be_bytes [OF unat_less_bytes(2)] length_be_bytes be_value.simps) simp
qed

lemma log_key_less:
  "key_less (log_key_serialize k 0) (log_key_serialize k' 0) \<longleftrightarrow>
     be_value (log_key_serialize k 0) < be_value (log_key_serialize k' 0)"
  by (rule key_less_be_value) (simp add: log_key_length)

lemma log_key_change_id:
  "deserialize_be_u64 (log_key_serialize k 0) (length (log_key_serialize k 0) - 8) = Some (lk_change_id k)"
proof -
  have "drop 5 (log_key_serialize k 0) = be_bytes 8 (unat (lk_change_id k))"
    by (simp add: log_key_serialize_def key_new_def key_write_u32_def key_write_u8_def key_write_u64_def
        key_finalize_def)
  then show ?thesis
    by (simp add: deserialize_be_u64_def be_at_def log_key_length
        be_value_be_bytes [OF unat_less_bytes(2), simplified])
qed

text \<open>Keys of one account and collection are in the order of their change ids.\<close>

lemma log_key_le_same:
  "key_le (log_key_serialize \<lparr>lk_account_id = a, lk_collection = c, lk_change_id = i\<rparr> 0)
      (log_key_serialize \<lparr>lk_account_id = a, lk_collection = c, lk_change_id = j\<rparr> 0) \<longleftrightarrow> i \<le> j"
  unfolding key_le_def log_key_less
  by (subst be_value_inject [symmetric])
    (auto simp: log_key_value log_key_length word_less_nat_alt word_le_nat_alt)

section \<open>Properties\<close>

text \<open>
  Log keys keep the log in order: byte order of two serialized keys is the
  lexicographic order of account, collection and change id, so two keys are equal only if all
  three agree, and the change id is read back from the last eight bytes.
\<close>

theorem log_key_order:
  "(key_less (log_key_serialize k 0) (log_key_serialize k' 0) \<longleftrightarrow>
      lk_account_id k < lk_account_id k'
      \<or> lk_account_id k = lk_account_id k' \<and> lk_collection k < lk_collection k'
      \<or> lk_account_id k = lk_account_id k' \<and> lk_collection k = lk_collection k' \<and> lk_change_id k < lk_change_id k')
   \<and> (log_key_serialize k 0 = log_key_serialize k' 0 \<longleftrightarrow>
      lk_account_id k = lk_account_id k' \<and> lk_collection k = lk_collection k' \<and> lk_change_id k = lk_change_id k')
   \<and> deserialize_be_u64 (log_key_serialize k 0) (length (log_key_serialize k 0) - 8) = Some (lk_change_id k)"
proof -
  have bounds: "unat (lk_collection k) < 256" "unat (lk_collection k') < 256"
    "unat (lk_change_id k) < 256 ^ 8" "unat (lk_change_id k') < 256 ^ 8"
    by (rule u8_less unat_less_bytes)+
  have "log_key_serialize k 0 = log_key_serialize k' 0 \<longleftrightarrow>
      be_value (log_key_serialize k 0) = be_value (log_key_serialize k' 0)"
    by (simp add: be_value_inject log_key_length)
  also have "\<dots> \<longleftrightarrow> unat (lk_account_id k) = unat (lk_account_id k')
      \<and> unat (lk_collection k) = unat (lk_collection k') \<and> unat (lk_change_id k) = unat (lk_change_id k')"
    unfolding log_key_value radix_inject [OF bounds(3,4)] radix_inject [OF bounds(1,2)] by blast
  finally have eq: "log_key_serialize k 0 = log_key_serialize k' 0 \<longleftrightarrow>
      lk_account_id k = lk_account_id k' \<and> lk_collection k = lk_collection k' \<and> lk_change_id k = lk_change_id k'"
    by (simp only: word_unat_eq_iff)
  have "be_value (log_key_serialize k 0) < be_value (log_key_serialize k' 0) \<longleftrightarrow>
      unat (lk_account_id k) < unat (lk_account_id k')
      \<or> unat (lk_account_id k) = unat (lk_account_id k') \<and> unat (lk_collection k) < unat (lk_collection k')
      \<or> unat (lk_account_id k) = unat (lk_account_id k') \<and> unat (lk_collection k) = unat (lk_collection k')
        \<and> unat (lk_change_id k) < unat (lk_change_id k')"
    unfolding log_key_value using bounds by auto
  then show ?thesis
    by (simp only: log_key_less eq log_key_change_id word_less_nat_alt word_unat_eq_iff)
qed

end
