(* ===== verification/Bitmaps.thy ===== *)
theory Bitmaps
  imports Prelude
begin

text \<open>
  \<^verbatim>\<open>crates/utils/src/map/bitmap.rs\<close>: sets of small enums as the bits of one \<open>u64\<close>.

  The trait \<open>BitmapItem\<close> is the record \<open>bitmap_item\<close> (a dictionary the operations take
  as their first argument); what its implementors promise is the locale \<open>bitmap_items\<close>,
  interpreted in Data_Types for the access-control rights, the collections and the
  data types.
\<close>

section \<open>The item trait and the bitmap\<close>

record 'a bitmap_item =
  item_max :: u64
  item_valid :: "'a \<Rightarrow> bool"
  item_into :: "'a \<Rightarrow> u64"
  item_from :: "u64 \<Rightarrow> 'a"

text \<open>\<open>Bitmap<T>\<close> is a transparent wrapper of its \<open>u64\<close>; the item type is a phantom.\<close>

type_synonym 'a bitmap = u64

definition bitmap_new :: "'a bitmap" where
  "bitmap_new = 0"

definition bitmap_all :: "'a bitmap_item \<Rightarrow> 'a bitmap" where
  "bitmap_all T = drop_bit (unat (64 - item_max T)) (- 1)"

definition bitmap_union :: "'a bitmap \<Rightarrow> 'a bitmap \<Rightarrow> 'a bitmap" where
  "bitmap_union b items = b OR items"

definition bitmap_union_raw :: "'a bitmap \<Rightarrow> u64 \<Rightarrow> 'a bitmap" where
  "bitmap_union_raw b items = b OR items"

definition bitmap_intersection :: "'a bitmap \<Rightarrow> 'a bitmap \<Rightarrow> 'a bitmap" where
  "bitmap_intersection b items = b AND items"

definition bitmap_insert :: "'a bitmap_item \<Rightarrow> 'a bitmap \<Rightarrow> 'a \<Rightarrow> 'a bitmap" where
  "bitmap_insert T b item = b OR bit_mask (item_into T item)"

fun bitmap_insert_many :: "'a bitmap_item \<Rightarrow> 'a bitmap \<Rightarrow> 'a list \<Rightarrow> 'a bitmap" where
  "bitmap_insert_many T b [] = b"
| "bitmap_insert_many T b (item # items) = bitmap_insert_many T (bitmap_insert T b item) items"

fun bitmap_remove_many :: "'a bitmap_item \<Rightarrow> 'a bitmap \<Rightarrow> 'a list \<Rightarrow> 'a bitmap" where
  "bitmap_remove_many T b [] = b"
| "bitmap_remove_many T b (item # items) =
     bitmap_remove_many T (b AND NOT (bit_mask (item_into T item))) items"

definition bitmap_with_item :: "'a bitmap_item \<Rightarrow> 'a bitmap \<Rightarrow> 'a \<Rightarrow> 'a bitmap" where
  "bitmap_with_item T b item = bitmap_insert T b item"

definition bitmap_remove :: "'a bitmap_item \<Rightarrow> 'a bitmap \<Rightarrow> 'a \<Rightarrow> 'a bitmap" where
  "bitmap_remove T b item = b XOR bit_mask (item_into T item)"

definition bitmap_pop :: "'a bitmap_item \<Rightarrow> 'a bitmap \<Rightarrow> 'a option \<times> 'a bitmap" where
  "bitmap_pop T b =
     (if b \<noteq> 0 then
        (let item = 63 - leading_zeros b
         in (Some (item_from T (of_nat item)), b XOR bit_mask (of_nat item)))
      else (None, b))"

definition bitmap_contains :: "'a bitmap_item \<Rightarrow> 'a bitmap \<Rightarrow> 'a \<Rightarrow> bool" where
  "bitmap_contains T b item \<longleftrightarrow> b AND bit_mask (item_into T item) \<noteq> 0"

fun bitmap_contains_any :: "'a bitmap_item \<Rightarrow> 'a bitmap \<Rightarrow> 'a list \<Rightarrow> bool" where
  "bitmap_contains_any T b [] = False"
| "bitmap_contains_any T b (item # items) =
     (if b AND bit_mask (item_into T item) \<noteq> 0 then True else bitmap_contains_any T b items)"

fun bitmap_all_set :: "'a bitmap_item \<Rightarrow> 'a bitmap \<Rightarrow> 'a list \<Rightarrow> bool" where
  "bitmap_all_set T b [] = True"
| "bitmap_all_set T b (item # items) =
     (if b AND bit_mask (item_into T item) = 0 then False else bitmap_all_set T b items)"

definition bitmap_contains_all :: "'a bitmap_item \<Rightarrow> 'a bitmap \<Rightarrow> 'a list \<Rightarrow> bool" where
  "bitmap_contains_all T b items = (if b \<noteq> 0 then bitmap_all_set T b items else False)"

definition bitmap_is_empty :: "'a bitmap \<Rightarrow> bool" where
  "bitmap_is_empty b \<longleftrightarrow> b = 0"

text \<open>\<open>clear\<close> returns the old bitmap and leaves the empty one.\<close>

definition bitmap_clear :: "'a bitmap \<Rightarrow> 'a bitmap \<times> 'a bitmap" where
  "bitmap_clear b = (b, 0)"

fun bitmap_from_vec_loop :: "'a bitmap_item \<Rightarrow> 'a bitmap \<Rightarrow> 'a list \<Rightarrow> 'a bitmap" where
  "bitmap_from_vec_loop T b [] = b"
| "bitmap_from_vec_loop T b (v # vs) =
     bitmap_from_vec_loop T (if item_valid T v then bitmap_insert T b v else b) vs"

definition bitmap_from_vec :: "'a bitmap_item \<Rightarrow> 'a list \<Rightarrow> 'a bitmap" where
  "bitmap_from_vec T vs = bitmap_from_vec_loop T bitmap_new vs"

definition bitmap_from_item :: "'a bitmap_item \<Rightarrow> 'a \<Rightarrow> 'a bitmap" where
  "bitmap_from_item T v = bitmap_insert T bitmap_new v"

section \<open>Bit-level facts\<close>

lemma and_bit_mask_iff [simp]: "b AND bit_mask n \<noteq> 0 \<longleftrightarrow> bit b (unat n mod 64)"
proof
  assume "b AND bit_mask n \<noteq> 0"
  from word_nonzero_bit [OF this] show "bit b (unat n mod 64)" by (auto simp: bit_and_iff)
next
  assume "bit b (unat n mod 64)"
  then have "bit (b AND bit_mask n) (unat n mod 64)" by (simp add: bit_and_iff)
  then show "b AND bit_mask n \<noteq> 0" by auto
qed

lemma and_bit_mask_eq_0 [simp]: "b AND bit_mask n = 0 \<longleftrightarrow> \<not> bit b (unat n mod 64)"
  using and_bit_mask_iff by blast

lemma bit_less_64: "bit (b :: u64) i \<Longrightarrow> i < 64"
  using bit_imp_le_length [of b i] by simp

lemma highest_bit: "b \<noteq> 0 \<Longrightarrow> bit (b :: u64) (63 - leading_zeros b)"
  using leading_zeros_bit [of b] by simp

lemma highest_bit_above: "63 - leading_zeros b < i \<Longrightarrow> \<not> bit (b :: u64) i"
  using leading_zeros_above [of b i] by simp

lemma bits_clear:
  assumes "i < 64" and "bit (b :: u64) i"
  shows "{j. bit (b XOR bit_mask (of_nat i)) j} = {j. bit b j} - {i}"
  using assms by (auto simp: bit_xor_iff unat_of_nat)

lemma bits_pop:
  assumes "b \<noteq> 0"
  shows "card {j. bit (b XOR bit_mask (of_nat (63 - leading_zeros b))) j} < card {j. bit (b :: u64) j}"
proof (rule psubset_card_mono)
  show "{j. bit (b XOR bit_mask (of_nat (63 - leading_zeros b))) j} \<subset> {j. bit b j}"
    using highest_bit [OF assms] bits_clear [OF bit_less_64 [OF highest_bit [OF assms]] highest_bit [OF assms]]
    by blast
qed simp

section \<open>Draining a bitmap\<close>

text \<open>\<open>Vec::from(bitmap)\<close>: pop until the bitmap is empty. It ends because each pop
  clears a bit.\<close>

function bitmap_into_vec :: "'a bitmap_item \<Rightarrow> 'a bitmap \<Rightarrow> 'a list" where
  "bitmap_into_vec T b =
     (case bitmap_pop T b of (None, _) \<Rightarrow> [] | (Some item, b') \<Rightarrow> item # bitmap_into_vec T b')"
  by pat_completeness auto
termination
  by (relation "measure (\<lambda>(T, b). card {i. bit b i})")
    (auto simp: bitmap_pop_def Let_def bits_pop split: if_splits)

declare bitmap_into_vec.simps [simp del]

text \<open>The positions of the set bits, highest first.\<close>

definition set_bits_desc :: "u64 \<Rightarrow> nat list" where
  "set_bits_desc b = filter (bit b) (rev [0..<64])"

lemma set_bits_desc_0: "set_bits_desc 0 = []"
  by (simp add: set_bits_desc_def)

lemma set_set_bits_desc: "set (set_bits_desc b) = {i. bit b i}"
  by (auto simp: set_bits_desc_def dest: bit_less_64)

lemma sorted_set_bits_desc: "sorted_wrt (>) (set_bits_desc b)"
  unfolding set_bits_desc_def
  by (rule sorted_wrt_filter) (simp add: sorted_wrt_rev strict_sorted_iff)

lemma set_bits_desc_pop:
  assumes "b \<noteq> 0"
  defines "h \<equiv> 63 - leading_zeros b"
  shows "set_bits_desc b = h # set_bits_desc (b XOR bit_mask (of_nat h))"
proof -
  have h: "bit b h" "h < 64" "\<And>i. h < i \<Longrightarrow> \<not> bit b i"
    unfolding h_def using highest_bit [OF assms(1)] highest_bit_above [of b]
    by (auto dest: bit_less_64)
  have bits: "bit (b XOR bit_mask (of_nat h)) i \<longleftrightarrow> bit b i \<and> i \<noteq> h" for i
    using bits_clear [OF h(2,1)] by blast
  have "[0..<64] = [0..<h] @ h # [Suc h..<64]"
    using h(2) upt_add_eq_append [of 0 h "64 - h"] by (simp add: upt_conv_Cons)
  then have split: "rev [0..<64] = rev [Suc h..<64] @ h # rev [0..<h]" by simp
  have hi: "filter (bit b) (rev [Suc h..<64]) = []"
    and hi': "filter (bit (b XOR bit_mask (of_nat h))) (rev [Suc h..<64]) = []"
    using h(3) by (auto simp: filter_empty_conv bits)
  have lo: "filter (bit (b XOR bit_mask (of_nat h))) (rev [0..<h]) = filter (bit b) (rev [0..<h])"
    by (rule filter_cong) (auto simp: bits)
  show ?thesis
    unfolding set_bits_desc_def split filter_append hi hi' using h(1) lo
    by (simp add: bits)
qed

lemma bitmap_into_vec_eq: "bitmap_into_vec T b = map (\<lambda>i. item_from T (of_nat i)) (set_bits_desc b)"
proof (induction T b rule: bitmap_into_vec.induct)
  case (1 T b)
  show ?case
  proof (cases "b = 0")
    case True
    then show ?thesis
      by (subst bitmap_into_vec.simps) (simp add: bitmap_pop_def set_bits_desc_0)
  next
    case False
    then have pop: "bitmap_pop T b = (Some (item_from T (of_nat (63 - leading_zeros b))),
        b XOR bit_mask (of_nat (63 - leading_zeros b)))"
      by (simp add: bitmap_pop_def Let_def)
    show ?thesis
      by (subst bitmap_into_vec.simps, subst set_bits_desc_pop [OF False])
        (simp add: pop "1.IH" [OF pop [symmetric] refl])
  qed
qed

section \<open>What an item type promises\<close>

text \<open>
  The contract of \<open>BitmapItem\<close>: items convert to distinct numbers below 64, the valid
  ones are those below \<open>max()\<close>, and the conversions are inverse to each other there.
\<close>

locale bitmap_items =
  fixes T :: "'a bitmap_item"
  assumes max_le: "unat (item_max T) \<le> 63"
    and into_less: "unat (item_into T x) < 64"
    and from_into: "item_from T (item_into T x) = x"
    and into_from: "i < unat (item_max T) \<Longrightarrow> item_into T (item_from T (of_nat i)) = of_nat i"
    and valid_iff: "item_valid T x \<longleftrightarrow> unat (item_into T x) < unat (item_max T)"
begin

abbreviation ix :: "'a \<Rightarrow> nat" where "ix x \<equiv> unat (item_into T x)"

lemma ix_inject: "ix x = ix y \<longleftrightarrow> x = y"
  by (metis from_into word_unat_eq_iff)

lemma contains_iff: "bitmap_contains T b x \<longleftrightarrow> bit b (ix x)"
  by (simp add: bitmap_contains_def into_less)

lemma contains_insert:
  "bitmap_contains T (bitmap_insert T b x) y \<longleftrightarrow> y = x \<or> bitmap_contains T b y"
  by (auto simp: contains_iff bitmap_insert_def bit_or_iff into_less ix_inject)

lemma contains_remove:
  "bitmap_contains T (bitmap_remove T b x) y \<longleftrightarrow>
     (if y = x then \<not> bitmap_contains T b x else bitmap_contains T b y)"
  by (auto simp: contains_iff bitmap_remove_def bit_xor_iff into_less ix_inject)

lemma contains_remove_many:
  "bitmap_contains T (bitmap_remove_many T b xs) y \<longleftrightarrow> bitmap_contains T b y \<and> y \<notin> set xs"
  by (induction xs arbitrary: b)
    (auto simp: contains_iff bit_and_iff bit_not_iff into_less ix_inject possible_bit_word)

lemma contains_insert_many:
  "bitmap_contains T (bitmap_insert_many T b xs) y \<longleftrightarrow> bitmap_contains T b y \<or> y \<in> set xs"
  by (induction xs arbitrary: b) (auto simp: contains_insert)

lemma contains_any_iff: "bitmap_contains_any T b xs \<longleftrightarrow> (\<exists>x \<in> set xs. bitmap_contains T b x)"
  by (induction xs) (auto simp: contains_iff into_less)

lemma contains_all_iff:
  "bitmap_contains_all T b xs \<longleftrightarrow> b \<noteq> 0 \<and> (\<forall>x \<in> set xs. bitmap_contains T b x)"
proof -
  have "bitmap_all_set T b xs \<longleftrightarrow> (\<forall>x \<in> set xs. bitmap_contains T b x)"
    by (induction xs) (auto simp: contains_iff into_less)
  then show ?thesis by (simp add: bitmap_contains_all_def)
qed

lemma contains_all: "bitmap_contains T (bitmap_all T) x \<longleftrightarrow> item_valid T x"
proof -
  have "unat (64 - item_max T) = 64 - unat (item_max T)"
    using max_le by (subst unat_sub) (auto simp: word_le_nat_alt)
  with max_le show ?thesis
    by (auto simp: contains_iff bitmap_all_def bit_drop_bit_eq valid_iff bit_mask_iff)
qed

lemma contains_from_vec_loop:
  "bitmap_contains T (bitmap_from_vec_loop T b xs) y \<longleftrightarrow>
     bitmap_contains T b y \<or> (y \<in> set xs \<and> item_valid T y)"
  by (induction xs arbitrary: b) (auto simp: contains_insert)

lemma from_vec_loop_bits:
  "bit (bitmap_from_vec_loop T b xs) i \<Longrightarrow> bit b i \<or> (\<exists>x \<in> set xs. item_valid T x \<and> ix x = i)"
  by (induction xs arbitrary: b)
    (fastforce simp: bitmap_insert_def bit_or_iff into_less split: if_splits)+

lemma from_vec_bits: "bit (bitmap_from_vec T xs) i \<longleftrightarrow> (\<exists>x \<in> set xs. item_valid T x \<and> ix x = i)"
  using from_vec_loop_bits [of bitmap_new xs i] contains_from_vec_loop [of bitmap_new xs]
  by (auto simp: bitmap_from_vec_def bitmap_new_def contains_iff)

text \<open>The round trip: collecting and draining gives the valid items, once each, highest first.\<close>

lemma set_into_vec_from_vec:
  "set (bitmap_into_vec T (bitmap_from_vec T xs)) = {x \<in> set xs. item_valid T x}"
  by (auto simp: bitmap_into_vec_eq set_set_bits_desc from_vec_bits image_iff) (auto simp: from_into)

lemma sorted_into_vec_from_vec:
  "sorted_wrt (\<lambda>x y. ix x > ix y) (bitmap_into_vec T (bitmap_from_vec T xs))"
proof -
  have "ix (item_from T (of_nat i)) = i" if "bit (bitmap_from_vec T xs) i" for i
    using that by (auto simp: from_vec_bits from_into)
  then have "sorted_wrt (\<lambda>i j. ix (item_from T (of_nat i)) > ix (item_from T (of_nat j)))
      (set_bits_desc (bitmap_from_vec T xs))"
    by (intro sorted_wrt_mono_rel [OF _ sorted_set_bits_desc]) (auto simp: set_set_bits_desc)
  then show ?thesis by (simp add: bitmap_into_vec_eq sorted_wrt_map)
qed

end

end
