(* ===== verification/Data_Types.thy ===== *)
theory Data_Types
  imports Bitmaps
begin

text \<open>
  The small enums of \<^verbatim>\<open>crates/types/src\<close>: access-control rights (\<^verbatim>\<open>acl.rs\<close>),
  collections (\<^verbatim>\<open>collection.rs\<close>), JMAP data types (\<^verbatim>\<open>type_state.rs\<close>), special
  uses of mailboxes (\<^verbatim>\<open>special_use.rs\<close>) and field numbers (\<^verbatim>\<open>field.rs\<close>), with
  their conversions to numbers and names. These numbers are store keys and wire values:
  two that collide, or that do not convert back, mix up stored objects.

  A \<open>match\<close> on consecutive numbers from 0 is a table indexed by the number; a perfect-hash
  map is an association list. \<open>None\<close> of an enum is \<open>None'\<close> here.
\<close>

section \<open>Number and name codecs\<close>

definition from_number :: "'a list \<Rightarrow> 'a \<Rightarrow> nat \<Rightarrow> 'a" where
  "from_number tbl dflt n = (if n < length tbl then tbl ! n else dflt)"

text \<open>
  An enum whose last constructor stands for "none": the constructors before it are listed
  in the order of their discriminants.
\<close>

locale enum_table =
  fixes tbl :: "'a list" and dflt :: 'a and number :: "'a \<Rightarrow> nat"
  assumes number_nth: "list_all (\<lambda>n. number (tbl ! n) = n) [0..<length tbl]"
    and number_dflt: "number dflt = length tbl"
    and exhaustive: "x = dflt \<or> x \<in> set tbl"
begin

lemma number_from: "number (from_number tbl dflt n) = min n (length tbl)"
  using number_nth by (auto simp: from_number_def number_dflt list_all_iff)

lemma number_le: "number x \<le> length tbl"
  using exhaustive [of x] number_nth
  by (auto simp: number_dflt list_all_iff in_set_conv_nth)

lemma from_number_number: "from_number tbl dflt (number x) = x"
  using exhaustive [of x] number_nth
  by (auto simp: from_number_def number_dflt list_all_iff in_set_conv_nth)

lemma number_inject: "number x = number y \<longleftrightarrow> x = y"
  by (metis from_number_number)

lemma dflt_iff: "x = dflt \<longleftrightarrow> \<not> number x < length tbl"
  using number_le [of x] by (metis number_dflt number_inject le_neq_implies_less less_irrefl)

lemma bitmap_itemsI:
  assumes len: "length tbl \<le> 63"
    and max: "item_max T = of_nat (number dflt)"
    and valid: "\<And>x. item_valid T x \<longleftrightarrow> x \<noteq> dflt"
    and into: "\<And>x. item_into T x = of_nat (number x)"
    and "from": "\<And>v. item_from T v = from_number tbl dflt (unat v)"
  shows "bitmap_items T"
proof
  have small: "unat (of_nat n :: u64) = n" if "n \<le> 63" for n
    using that by (simp add: unat_of_nat)
  have number: "unat (of_nat (number x) :: u64) = number x" for x
    using number_le [of x] len by (intro small) simp
  show "unat (item_max T) \<le> 63" using len by (simp only: max number_dflt small)
  show "unat (item_into T x) < 64" for x
    using number_le [of x] len by (simp only: into number)
  show "item_from T (item_into T x) = x" for x
    by (simp only: into "from" number from_number_number)
  show "item_into T (item_from T (of_nat i)) = of_nat i" if "i < unat (item_max T)" for i
  proof -
    from that len have i: "i < length tbl" by (simp only: max number_dflt small)
    with len have "unat (of_nat i :: u64) = i" by (intro small) simp
    with i show ?thesis by (simp only: into "from" number_from) simp
  qed
  show "item_valid T x \<longleftrightarrow> unat (item_into T x) < unat (item_max T)" for x
    using len by (simp only: valid into max number number_dflt small dflt_iff) simp
qed

end

text \<open>Names: a table read by the parser, and the printer's text for each constructor.\<close>

locale name_codec =
  fixes names :: "(string \<times> 'a) list" and as_str :: "'a \<Rightarrow> string" and nameless :: "'a \<Rightarrow> bool"
  assumes names_as_str: "list_all (\<lambda>(s, x). as_str x = s \<and> \<not> nameless x) names"
    and named: "nameless x \<or> (as_str x, x) \<in> set names"
    and distinct_names: "distinct (map fst names)"
begin

lemma lookup_iff: "map_of names s = Some x \<longleftrightarrow> \<not> nameless x \<and> as_str x = s"
  using names_as_str named [of x]
  by (auto simp: map_of_eq_Some_iff [OF distinct_names] list_all_iff)

lemma as_str_inject: "\<not> nameless x \<Longrightarrow> \<not> nameless y \<Longrightarrow> as_str x = as_str y \<Longrightarrow> x = y"
  by (metis lookup_iff option.inject)

end

section \<open>Access-control rights\<close>

datatype acl =
    Read | Modify | Delete | ReadItems | AddItems | ModifyItems | RemoveItems | CreateChild
    | Share | Submit | SchedulingReadFreeBusy | SchedulingInvite | SchedulingReply
    | ModifyItemsOwn | ModifyPrivateProperties | ModifyRSVP | None'

text \<open>The discriminants of \<open>#[repr(u8)]\<close>, which \<open>as u64\<close> reads.\<close>

fun acl_number :: "acl \<Rightarrow> nat" where
  "acl_number acl.Read = 0"
| "acl_number acl.Modify = 1"
| "acl_number acl.Delete = 2"
| "acl_number acl.ReadItems = 3"
| "acl_number acl.AddItems = 4"
| "acl_number acl.ModifyItems = 5"
| "acl_number acl.RemoveItems = 6"
| "acl_number acl.CreateChild = 7"
| "acl_number acl.Share = 8"
| "acl_number acl.Submit = 9"
| "acl_number acl.SchedulingReadFreeBusy = 10"
| "acl_number acl.SchedulingInvite = 11"
| "acl_number acl.SchedulingReply = 12"
| "acl_number acl.ModifyItemsOwn = 13"
| "acl_number acl.ModifyPrivateProperties = 14"
| "acl_number acl.ModifyRSVP = 15"
| "acl_number acl.None' = 16"

fun acl_as_str :: "acl \<Rightarrow> string" where
  "acl_as_str acl.Read = ''read''"
| "acl_as_str acl.Modify = ''modify''"
| "acl_as_str acl.Delete = ''delete''"
| "acl_as_str acl.ReadItems = ''readItems''"
| "acl_as_str acl.AddItems = ''addItems''"
| "acl_as_str acl.ModifyItems = ''modifyItems''"
| "acl_as_str acl.RemoveItems = ''removeItems''"
| "acl_as_str acl.CreateChild = ''createChild''"
| "acl_as_str acl.Share = ''share''"
| "acl_as_str acl.Submit = ''submit''"
| "acl_as_str acl.ModifyItemsOwn = ''modifyItemsOwn''"
| "acl_as_str acl.ModifyPrivateProperties = ''modifyPrivateProperties''"
| "acl_as_str acl.None' = ''''"
| "acl_as_str acl.SchedulingReadFreeBusy = ''schedulingReadFreeBusy''"
| "acl_as_str acl.SchedulingInvite = ''schedulingInvite''"
| "acl_as_str acl.SchedulingReply = ''schedulingReply''"
| "acl_as_str acl.ModifyRSVP = ''modifyRSVP''"

definition acl_is_valid :: "acl \<Rightarrow> bool" where
  "acl_is_valid a \<longleftrightarrow> a \<noteq> acl.None'"

definition acl_max :: u64 where
  "acl_max = of_nat (acl_number acl.None')"

definition acl_into_u64 :: "acl \<Rightarrow> u64" where
  "acl_into_u64 a = of_nat (acl_number a)"

definition acl_table :: "acl list" where
  "acl_table = [
     acl.Read, acl.Modify, acl.Delete, acl.ReadItems, acl.AddItems, acl.ModifyItems,
     acl.RemoveItems, acl.CreateChild, acl.Share, acl.Submit, acl.SchedulingReadFreeBusy,
     acl.SchedulingInvite, acl.SchedulingReply, acl.ModifyItemsOwn,
     acl.ModifyPrivateProperties, acl.ModifyRSVP]"

definition acl_from_u64 :: "u64 \<Rightarrow> acl" where
  "acl_from_u64 value = from_number acl_table acl.None' (unat value)"

definition acl_item :: "acl bitmap_item" where
  "acl_item = \<lparr>item_max = acl_max, item_valid = acl_is_valid, item_into = acl_into_u64,
     item_from = acl_from_u64\<rparr>"

record acl_grant =
  account_id :: u32
  grants :: "acl bitmap"

section \<open>Collections\<close>

datatype collection =
    Email | Mailbox | Thread | Identity | EmailSubmission | SieveScript | PushSubscription
    | Principal | Calendar | CalendarEvent | AddressBook | ContactCard | FileNode
    | CalendarEventNotification | None'

datatype sync_collection =
    Email | Thread | Calendar | AddressBook | FileNode | Identity | EmailSubmission
    | SieveScript | CalendarEventNotification | ShareNotification | None'

datatype vanished_collection =
    Email | Calendar | AddressBook | FileNode

fun collection_number :: "collection \<Rightarrow> nat" where
  "collection_number collection.Email = 0"
| "collection_number collection.Mailbox = 1"
| "collection_number collection.Thread = 2"
| "collection_number collection.Identity = 3"
| "collection_number collection.EmailSubmission = 4"
| "collection_number collection.SieveScript = 5"
| "collection_number collection.PushSubscription = 6"
| "collection_number collection.Principal = 7"
| "collection_number collection.Calendar = 8"
| "collection_number collection.CalendarEvent = 9"
| "collection_number collection.AddressBook = 10"
| "collection_number collection.ContactCard = 11"
| "collection_number collection.FileNode = 12"
| "collection_number collection.CalendarEventNotification = 13"
| "collection_number collection.None' = 14"

fun sync_number :: "sync_collection \<Rightarrow> nat" where
  "sync_number sync_collection.Email = 0"
| "sync_number sync_collection.Thread = 1"
| "sync_number sync_collection.Calendar = 2"
| "sync_number sync_collection.AddressBook = 3"
| "sync_number sync_collection.FileNode = 4"
| "sync_number sync_collection.Identity = 5"
| "sync_number sync_collection.EmailSubmission = 6"
| "sync_number sync_collection.SieveScript = 7"
| "sync_number sync_collection.CalendarEventNotification = 8"
| "sync_number sync_collection.ShareNotification = 9"
| "sync_number sync_collection.None' = 10"

fun vanished_number :: "vanished_collection \<Rightarrow> nat" where
  "vanished_number vanished_collection.Email = 251"
| "vanished_number vanished_collection.Calendar = 252"
| "vanished_number vanished_collection.AddressBook = 253"
| "vanished_number vanished_collection.FileNode = 254"

fun main_collection :: "collection \<Rightarrow> collection" where
  "main_collection collection.Email = collection.Mailbox"
| "main_collection collection.CalendarEvent = collection.Calendar"
| "main_collection collection.ContactCard = collection.AddressBook"
| "main_collection c = c"

fun parent_collection :: "collection \<Rightarrow> collection option" where
  "parent_collection collection.Email = Some collection.Mailbox"
| "parent_collection collection.CalendarEvent = Some collection.Calendar"
| "parent_collection collection.ContactCard = Some collection.AddressBook"
| "parent_collection collection.FileNode = Some collection.FileNode"
| "parent_collection collection.CalendarEventNotification = Some collection.CalendarEventNotification"
| "parent_collection _ = None"

fun child_collection :: "collection \<Rightarrow> collection option" where
  "child_collection collection.Mailbox = Some collection.Email"
| "child_collection collection.Calendar = Some collection.CalendarEvent"
| "child_collection collection.AddressBook = Some collection.ContactCard"
| "child_collection collection.FileNode = Some collection.FileNode"
| "child_collection collection.CalendarEventNotification = Some collection.CalendarEventNotification"
| "child_collection _ = None"

fun sync_to_collection :: "sync_collection \<Rightarrow> bool \<Rightarrow> collection" where
  "sync_to_collection sync_collection.Email is_container =
     (if is_container then collection.Mailbox else collection.Email)"
| "sync_to_collection sync_collection.Thread _ = collection.Thread"
| "sync_to_collection sync_collection.Calendar is_container =
     (if is_container then collection.Calendar else collection.CalendarEvent)"
| "sync_to_collection sync_collection.AddressBook is_container =
     (if is_container then collection.AddressBook else collection.ContactCard)"
| "sync_to_collection sync_collection.FileNode _ = collection.FileNode"
| "sync_to_collection sync_collection.Identity _ = collection.Identity"
| "sync_to_collection sync_collection.EmailSubmission _ = collection.EmailSubmission"
| "sync_to_collection sync_collection.SieveScript _ = collection.SieveScript"
| "sync_to_collection sync_collection.CalendarEventNotification _ = collection.CalendarEventNotification"
| "sync_to_collection sync_collection.ShareNotification _ = collection.None'"
| "sync_to_collection sync_collection.None' _ = collection.None'"

fun sync_vanished_collection :: "sync_collection \<Rightarrow> vanished_collection option" where
  "sync_vanished_collection sync_collection.Email = Some vanished_collection.Email"
| "sync_vanished_collection sync_collection.Calendar = Some vanished_collection.Calendar"
| "sync_vanished_collection sync_collection.AddressBook = Some vanished_collection.AddressBook"
| "sync_vanished_collection sync_collection.FileNode = Some vanished_collection.FileNode"
| "sync_vanished_collection _ = None"

fun sync_from_collection :: "collection \<Rightarrow> sync_collection" where
  "sync_from_collection collection.Email = sync_collection.Email"
| "sync_from_collection collection.Mailbox = sync_collection.Email"
| "sync_from_collection collection.Thread = sync_collection.Thread"
| "sync_from_collection collection.Identity = sync_collection.Identity"
| "sync_from_collection collection.EmailSubmission = sync_collection.EmailSubmission"
| "sync_from_collection collection.SieveScript = sync_collection.SieveScript"
| "sync_from_collection collection.PushSubscription = sync_collection.None'"
| "sync_from_collection collection.Principal = sync_collection.None'"
| "sync_from_collection collection.Calendar = sync_collection.Calendar"
| "sync_from_collection collection.CalendarEvent = sync_collection.Calendar"
| "sync_from_collection collection.CalendarEventNotification = sync_collection.CalendarEventNotification"
| "sync_from_collection collection.AddressBook = sync_collection.AddressBook"
| "sync_from_collection collection.ContactCard = sync_collection.AddressBook"
| "sync_from_collection collection.FileNode = sync_collection.FileNode"
| "sync_from_collection _ = sync_collection.None'"

definition collection_table :: "collection list" where
  "collection_table = [
     collection.Email, collection.Mailbox, collection.Thread, collection.Identity,
     collection.EmailSubmission, collection.SieveScript, collection.PushSubscription,
     collection.Principal, collection.Calendar, collection.CalendarEvent,
     collection.AddressBook, collection.ContactCard, collection.FileNode,
     collection.CalendarEventNotification]"

definition sync_table :: "sync_collection list" where
  "sync_table = [
     sync_collection.Email, sync_collection.Thread, sync_collection.Calendar,
     sync_collection.AddressBook, sync_collection.FileNode, sync_collection.Identity,
     sync_collection.EmailSubmission, sync_collection.SieveScript,
     sync_collection.CalendarEventNotification, sync_collection.ShareNotification]"

definition collection_from_u8 :: "u8 \<Rightarrow> collection" where
  "collection_from_u8 v = from_number collection_table collection.None' (unat v)"

definition collection_from_u64 :: "u64 \<Rightarrow> collection" where
  "collection_from_u64 v = from_number collection_table collection.None' (unat v)"

definition sync_from_u8 :: "u8 \<Rightarrow> sync_collection" where
  "sync_from_u8 v = from_number sync_table sync_collection.None' (unat v)"

definition sync_from_u64 :: "u64 \<Rightarrow> sync_collection" where
  "sync_from_u64 v = from_number sync_table sync_collection.None' (unat v)"

definition collection_into_u8 :: "collection \<Rightarrow> u8" where
  "collection_into_u8 v = of_nat (collection_number v)"

definition collection_into_u64 :: "collection \<Rightarrow> u64" where
  "collection_into_u64 v = of_nat (collection_number v)"

definition sync_into_u8 :: "sync_collection \<Rightarrow> u8" where
  "sync_into_u8 v = of_nat (sync_number v)"

definition sync_into_u64 :: "sync_collection \<Rightarrow> u64" where
  "sync_into_u64 v = of_nat (sync_number v)"

definition vanished_into_u8 :: "vanished_collection \<Rightarrow> u8" where
  "vanished_into_u8 v = of_nat (vanished_number v)"

fun collection_as_str :: "collection \<Rightarrow> string" where
  "collection_as_str collection.PushSubscription = ''pushSubscription''"
| "collection_as_str collection.Email = ''email''"
| "collection_as_str collection.Mailbox = ''mailbox''"
| "collection_as_str collection.Thread = ''thread''"
| "collection_as_str collection.Identity = ''identity''"
| "collection_as_str collection.EmailSubmission = ''emailSubmission''"
| "collection_as_str collection.SieveScript = ''sieveScript''"
| "collection_as_str collection.Principal = ''principal''"
| "collection_as_str collection.Calendar = ''calendar''"
| "collection_as_str collection.CalendarEvent = ''calendarEvent''"
| "collection_as_str collection.AddressBook = ''addressBook''"
| "collection_as_str collection.ContactCard = ''contactCard''"
| "collection_as_str collection.FileNode = ''fileNode''"
| "collection_as_str collection.CalendarEventNotification = ''calendarEventNotification''"
| "collection_as_str collection.None' = ''''"

fun collection_as_config_case :: "collection \<Rightarrow> string" where
  "collection_as_config_case collection.PushSubscription = ''push-subscription''"
| "collection_as_config_case collection.Email = ''email''"
| "collection_as_config_case collection.Mailbox = ''mailbox''"
| "collection_as_config_case collection.Thread = ''thread''"
| "collection_as_config_case collection.Identity = ''identity''"
| "collection_as_config_case collection.EmailSubmission = ''email-submission''"
| "collection_as_config_case collection.SieveScript = ''sieve-script''"
| "collection_as_config_case collection.Principal = ''principal''"
| "collection_as_config_case collection.Calendar = ''calendar''"
| "collection_as_config_case collection.CalendarEvent = ''calendar-event''"
| "collection_as_config_case collection.AddressBook = ''address-book''"
| "collection_as_config_case collection.ContactCard = ''contact-card''"
| "collection_as_config_case collection.FileNode = ''file-node''"
| "collection_as_config_case collection.CalendarEventNotification = ''calendar-event-notification''"
| "collection_as_config_case collection.None' = ''''"

fun sync_as_str :: "sync_collection \<Rightarrow> string" where
  "sync_as_str sync_collection.Email = ''email''"
| "sync_as_str sync_collection.Thread = ''thread''"
| "sync_as_str sync_collection.Calendar = ''calendar''"
| "sync_as_str sync_collection.AddressBook = ''addressBook''"
| "sync_as_str sync_collection.FileNode = ''fileNode''"
| "sync_as_str sync_collection.Identity = ''identity''"
| "sync_as_str sync_collection.EmailSubmission = ''emailSubmission''"
| "sync_as_str sync_collection.SieveScript = ''sieveScript''"
| "sync_as_str sync_collection.CalendarEventNotification = ''calendarEventNotification''"
| "sync_as_str sync_collection.ShareNotification = ''shareNotification''"
| "sync_as_str sync_collection.None' = ''''"

definition collection_names :: "(string \<times> collection) list" where
  "collection_names = [
     (''pushSubscription'', collection.PushSubscription), (''email'', collection.Email),
     (''mailbox'', collection.Mailbox), (''thread'', collection.Thread),
     (''identity'', collection.Identity), (''emailSubmission'', collection.EmailSubmission),
     (''sieveScript'', collection.SieveScript), (''principal'', collection.Principal),
     (''calendar'', collection.Calendar), (''calendarEvent'', collection.CalendarEvent),
     (''addressBook'', collection.AddressBook), (''contactCard'', collection.ContactCard),
     (''fileNode'', collection.FileNode),
     (''calendarEventNotification'', collection.CalendarEventNotification)]"

definition collection_from_str :: "string \<Rightarrow> collection option" where
  "collection_from_str s = map_of collection_names s"

definition collection_item :: "collection bitmap_item" where
  "collection_item = \<lparr>item_max = of_nat (collection_number collection.None'),
     item_valid = (\<lambda>c. c \<noteq> collection.None'),
     item_into = collection_into_u64, item_from = collection_from_u64\<rparr>"

definition sync_item :: "sync_collection bitmap_item" where
  "sync_item = \<lparr>item_max = of_nat (sync_number sync_collection.None'),
     item_valid = (\<lambda>c. c \<noteq> sync_collection.None'),
     item_into = sync_into_u64, item_from = sync_from_u64\<rparr>"

section \<open>JMAP data types\<close>

datatype data_type =
    Email | EmailDelivery | EmailSubmission | Mailbox | Thread | Identity | Core
    | PushSubscription | SearchSnippet | VacationResponse | Mdn | Quota | SieveScript
    | Calendar | CalendarEvent | CalendarEventNotification | AddressBook | ContactCard
    | FileNode | Principal | ShareNotification | ParticipantIdentity | CalendarAlert | None'

fun data_type_number :: "data_type \<Rightarrow> nat" where
  "data_type_number data_type.Email = 0"
| "data_type_number data_type.EmailDelivery = 1"
| "data_type_number data_type.EmailSubmission = 2"
| "data_type_number data_type.Mailbox = 3"
| "data_type_number data_type.Thread = 4"
| "data_type_number data_type.Identity = 5"
| "data_type_number data_type.Core = 6"
| "data_type_number data_type.PushSubscription = 7"
| "data_type_number data_type.SearchSnippet = 8"
| "data_type_number data_type.VacationResponse = 9"
| "data_type_number data_type.Mdn = 10"
| "data_type_number data_type.Quota = 11"
| "data_type_number data_type.SieveScript = 12"
| "data_type_number data_type.Calendar = 13"
| "data_type_number data_type.CalendarEvent = 14"
| "data_type_number data_type.CalendarEventNotification = 15"
| "data_type_number data_type.AddressBook = 16"
| "data_type_number data_type.ContactCard = 17"
| "data_type_number data_type.FileNode = 18"
| "data_type_number data_type.Principal = 19"
| "data_type_number data_type.ShareNotification = 20"
| "data_type_number data_type.ParticipantIdentity = 21"
| "data_type_number data_type.CalendarAlert = 22"
| "data_type_number data_type.None' = 23"

definition data_type_table :: "data_type list" where
  "data_type_table = [
     data_type.Email, data_type.EmailDelivery, data_type.EmailSubmission, data_type.Mailbox,
     data_type.Thread, data_type.Identity, data_type.Core, data_type.PushSubscription,
     data_type.SearchSnippet, data_type.VacationResponse, data_type.Mdn, data_type.Quota,
     data_type.SieveScript, data_type.Calendar, data_type.CalendarEvent,
     data_type.CalendarEventNotification, data_type.AddressBook, data_type.ContactCard,
     data_type.FileNode, data_type.Principal, data_type.ShareNotification,
     data_type.ParticipantIdentity, data_type.CalendarAlert]"

text \<open>A number above the last data type fails a \<open>debug_assert\<close> in a debug build; this is
  the release build.\<close>

definition data_type_from_u64 :: "u64 \<Rightarrow> data_type" where
  "data_type_from_u64 value = from_number data_type_table data_type.None' (unat value)"

definition data_type_into_u64 :: "data_type \<Rightarrow> u64" where
  "data_type_into_u64 t = of_nat (data_type_number t)"

definition data_type_item :: "data_type bitmap_item" where
  "data_type_item = \<lparr>item_max = of_nat (data_type_number data_type.None'),
     item_valid = (\<lambda>t. t \<noteq> data_type.None'),
     item_into = data_type_into_u64, item_from = data_type_from_u64\<rparr>"

fun try_from_sync :: "sync_collection \<Rightarrow> bool \<Rightarrow> data_type option" where
  "try_from_sync sync_collection.Email False = Some data_type.Email"
| "try_from_sync sync_collection.Email True = Some data_type.Mailbox"
| "try_from_sync sync_collection.Thread _ = Some data_type.Thread"
| "try_from_sync sync_collection.Calendar True = Some data_type.Calendar"
| "try_from_sync sync_collection.Calendar False = Some data_type.CalendarEvent"
| "try_from_sync sync_collection.AddressBook True = Some data_type.AddressBook"
| "try_from_sync sync_collection.AddressBook False = Some data_type.ContactCard"
| "try_from_sync sync_collection.FileNode _ = Some data_type.FileNode"
| "try_from_sync sync_collection.Identity _ = Some data_type.Identity"
| "try_from_sync sync_collection.EmailSubmission _ = Some data_type.EmailSubmission"
| "try_from_sync sync_collection.SieveScript _ = Some data_type.SieveScript"
| "try_from_sync _ _ = None"

definition data_type_names :: "(string \<times> data_type) list" where
  "data_type_names = [
     (''Email'', data_type.Email), (''EmailDelivery'', data_type.EmailDelivery),
     (''EmailSubmission'', data_type.EmailSubmission), (''Mailbox'', data_type.Mailbox),
     (''Thread'', data_type.Thread), (''Identity'', data_type.Identity),
     (''Core'', data_type.Core), (''PushSubscription'', data_type.PushSubscription),
     (''SearchSnippet'', data_type.SearchSnippet),
     (''VacationResponse'', data_type.VacationResponse), (''MDN'', data_type.Mdn),
     (''Quota'', data_type.Quota), (''SieveScript'', data_type.SieveScript),
     (''Calendar'', data_type.Calendar), (''CalendarEvent'', data_type.CalendarEvent),
     (''CalendarEventNotification'', data_type.CalendarEventNotification),
     (''AddressBook'', data_type.AddressBook), (''ContactCard'', data_type.ContactCard),
     (''FileNode'', data_type.FileNode), (''Principal'', data_type.Principal),
     (''ShareNotification'', data_type.ShareNotification),
     (''ParticipantIdentity'', data_type.ParticipantIdentity),
     (''CalendarAlert'', data_type.CalendarAlert)]"

definition data_type_parse :: "string \<Rightarrow> data_type option" where
  "data_type_parse value = map_of data_type_names value"

fun data_type_as_str :: "data_type \<Rightarrow> string" where
  "data_type_as_str data_type.Email = ''Email''"
| "data_type_as_str data_type.EmailDelivery = ''EmailDelivery''"
| "data_type_as_str data_type.EmailSubmission = ''EmailSubmission''"
| "data_type_as_str data_type.Mailbox = ''Mailbox''"
| "data_type_as_str data_type.Thread = ''Thread''"
| "data_type_as_str data_type.Identity = ''Identity''"
| "data_type_as_str data_type.Core = ''Core''"
| "data_type_as_str data_type.PushSubscription = ''PushSubscription''"
| "data_type_as_str data_type.SearchSnippet = ''SearchSnippet''"
| "data_type_as_str data_type.VacationResponse = ''VacationResponse''"
| "data_type_as_str data_type.Mdn = ''MDN''"
| "data_type_as_str data_type.Quota = ''Quota''"
| "data_type_as_str data_type.SieveScript = ''SieveScript''"
| "data_type_as_str data_type.Calendar = ''Calendar''"
| "data_type_as_str data_type.CalendarEvent = ''CalendarEvent''"
| "data_type_as_str data_type.CalendarEventNotification = ''CalendarEventNotification''"
| "data_type_as_str data_type.AddressBook = ''AddressBook''"
| "data_type_as_str data_type.ContactCard = ''ContactCard''"
| "data_type_as_str data_type.FileNode = ''FileNode''"
| "data_type_as_str data_type.Principal = ''Principal''"
| "data_type_as_str data_type.ShareNotification = ''ShareNotification''"
| "data_type_as_str data_type.ParticipantIdentity = ''ParticipantIdentity''"
| "data_type_as_str data_type.CalendarAlert = ''CalendarAlert''"
| "data_type_as_str data_type.None' = ''''"

fun data_type_try_from :: "collection \<Rightarrow> data_type option" where
  "data_type_try_from collection.Email = Some data_type.Email"
| "data_type_try_from collection.Mailbox = Some data_type.Mailbox"
| "data_type_try_from collection.Thread = Some data_type.Thread"
| "data_type_try_from collection.Identity = Some data_type.Identity"
| "data_type_try_from collection.EmailSubmission = Some data_type.EmailSubmission"
| "data_type_try_from collection.SieveScript = Some data_type.SieveScript"
| "data_type_try_from collection.PushSubscription = Some data_type.PushSubscription"
| "data_type_try_from collection.Principal = Some data_type.Principal"
| "data_type_try_from collection.Calendar = Some data_type.Calendar"
| "data_type_try_from collection.CalendarEvent = Some data_type.CalendarEvent"
| "data_type_try_from collection.AddressBook = Some data_type.AddressBook"
| "data_type_try_from collection.ContactCard = Some data_type.ContactCard"
| "data_type_try_from collection.FileNode = Some data_type.FileNode"
| "data_type_try_from collection.CalendarEventNotification = Some data_type.CalendarEventNotification"
| "data_type_try_from _ = None"

fun collection_try_from :: "data_type \<Rightarrow> collection option" where
  "collection_try_from data_type.Email = Some collection.Email"
| "collection_try_from data_type.Mailbox = Some collection.Mailbox"
| "collection_try_from data_type.Thread = Some collection.Thread"
| "collection_try_from data_type.Identity = Some collection.Identity"
| "collection_try_from data_type.EmailSubmission = Some collection.EmailSubmission"
| "collection_try_from data_type.SieveScript = Some collection.SieveScript"
| "collection_try_from data_type.PushSubscription = Some collection.PushSubscription"
| "collection_try_from data_type.Principal = Some collection.Principal"
| "collection_try_from data_type.Calendar = Some collection.Calendar"
| "collection_try_from data_type.CalendarEvent = Some collection.CalendarEvent"
| "collection_try_from data_type.AddressBook = Some collection.AddressBook"
| "collection_try_from data_type.ContactCard = Some collection.ContactCard"
| "collection_try_from data_type.FileNode = Some collection.FileNode"
| "collection_try_from data_type.CalendarEventNotification = Some collection.CalendarEventNotification"
| "collection_try_from _ = None"

record state_change =
  sc_account_id :: u32
  sc_change_id :: u64
  sc_types :: "data_type bitmap"

definition state_change_new :: "u32 \<Rightarrow> state_change" where
  "state_change_new account = \<lparr>sc_account_id = account, sc_change_id = 0, sc_types = bitmap_new\<rparr>"

definition set_change :: "state_change \<Rightarrow> data_type \<Rightarrow> state_change" where
  "set_change s t = s\<lparr>sc_types := bitmap_insert data_type_item (sc_types s) t\<rparr>"

definition with_change :: "state_change \<Rightarrow> data_type \<Rightarrow> state_change" where
  "with_change s t = set_change s t"

definition with_change_id :: "state_change \<Rightarrow> u64 \<Rightarrow> state_change" where
  "with_change_id s change = s\<lparr>sc_change_id := change\<rparr>"

definition has_changes :: "state_change \<Rightarrow> bool" where
  "has_changes s \<longleftrightarrow> \<not> bitmap_is_empty (sc_types s)"

section \<open>Special uses of mailboxes\<close>

datatype special_use =
    Inbox | Trash | Junk | Drafts | Archive | Sent | Shared | Important | None' | Memos
    | Scheduled | Snoozed

text \<open>The mirror type that the archive library derives for zero-copy access.\<close>

datatype archived_special_use =
    Inbox | Trash | Junk | Drafts | Archive | Sent | Shared | Important | None' | Memos
    | Scheduled | Snoozed

definition special_use_names :: "(string \<times> special_use) list" where
  "special_use_names = [
     (''inbox'', special_use.Inbox), (''trash'', special_use.Trash),
     (''junk'', special_use.Junk), (''drafts'', special_use.Drafts),
     (''archive'', special_use.Archive), (''sent'', special_use.Sent),
     (''shared'', special_use.Shared), (''important'', special_use.Important),
     (''memos'', special_use.Memos), (''scheduled'', special_use.Scheduled),
     (''snoozed'', special_use.Snoozed)]"

definition special_use_parse :: "string \<Rightarrow> special_use option" where
  "special_use_parse s = map_of special_use_names (map to_ascii_lowercase s)"

fun special_use_as_str :: "special_use \<Rightarrow> string option" where
  "special_use_as_str special_use.Inbox = Some ''inbox''"
| "special_use_as_str special_use.Trash = Some ''trash''"
| "special_use_as_str special_use.Junk = Some ''junk''"
| "special_use_as_str special_use.Drafts = Some ''drafts''"
| "special_use_as_str special_use.Archive = Some ''archive''"
| "special_use_as_str special_use.Sent = Some ''sent''"
| "special_use_as_str special_use.Shared = Some ''shared''"
| "special_use_as_str special_use.Important = Some ''important''"
| "special_use_as_str special_use.Memos = Some ''memos''"
| "special_use_as_str special_use.Scheduled = Some ''scheduled''"
| "special_use_as_str special_use.Snoozed = Some ''snoozed''"
| "special_use_as_str special_use.None' = None"

fun archived_special_use_as_str :: "archived_special_use \<Rightarrow> string option" where
  "archived_special_use_as_str archived_special_use.Inbox = Some ''inbox''"
| "archived_special_use_as_str archived_special_use.Trash = Some ''trash''"
| "archived_special_use_as_str archived_special_use.Junk = Some ''junk''"
| "archived_special_use_as_str archived_special_use.Drafts = Some ''drafts''"
| "archived_special_use_as_str archived_special_use.Archive = Some ''archive''"
| "archived_special_use_as_str archived_special_use.Sent = Some ''sent''"
| "archived_special_use_as_str archived_special_use.Shared = Some ''shared''"
| "archived_special_use_as_str archived_special_use.Important = Some ''important''"
| "archived_special_use_as_str archived_special_use.Memos = Some ''memos''"
| "archived_special_use_as_str archived_special_use.Scheduled = Some ''scheduled''"
| "archived_special_use_as_str archived_special_use.Snoozed = Some ''snoozed''"
| "archived_special_use_as_str archived_special_use.None' = None"

fun special_use_from_archived :: "archived_special_use \<Rightarrow> special_use" where
  "special_use_from_archived archived_special_use.Inbox = special_use.Inbox"
| "special_use_from_archived archived_special_use.Trash = special_use.Trash"
| "special_use_from_archived archived_special_use.Junk = special_use.Junk"
| "special_use_from_archived archived_special_use.Drafts = special_use.Drafts"
| "special_use_from_archived archived_special_use.Archive = special_use.Archive"
| "special_use_from_archived archived_special_use.Sent = special_use.Sent"
| "special_use_from_archived archived_special_use.Shared = special_use.Shared"
| "special_use_from_archived archived_special_use.Important = special_use.Important"
| "special_use_from_archived archived_special_use.Memos = special_use.Memos"
| "special_use_from_archived archived_special_use.Scheduled = special_use.Scheduled"
| "special_use_from_archived archived_special_use.Snoozed = special_use.Snoozed"
| "special_use_from_archived archived_special_use.None' = special_use.None'"

section \<open>Field numbers\<close>

text \<open>The property keys of the stored objects; each enum belongs to one collection.\<close>

definition ARCHIVE_FIELD :: u8 where
  "ARCHIVE_FIELD = 50"

datatype contact_field =
    Uid | Email | Archive | CreatedToUpdated

datatype calendar_event_field =
    Uid | Archive

datatype calendar_notification_field =
    CreatedToId | Archive

datatype email_field =
    Archive | Metadata | Threading | DeletedAt

datatype mailbox_field =
    UidCounter | Archive

datatype sieve_field =
    Name | Ids | Archive

datatype email_submission_field =
    Archive | Metadata

datatype identity_field =
    Archive | DocumentId

datatype principal_field =
    Archive | ParticipantIdentities | DefaultCalendarId | DefaultAddressBookId | ActiveScriptId
    | PushSubscriptions

fun contact_field_u8 :: "contact_field \<Rightarrow> u8" where
  "contact_field_u8 contact_field.Uid = 0"
| "contact_field_u8 contact_field.Email = 1"
| "contact_field_u8 contact_field.CreatedToUpdated = 2"
| "contact_field_u8 contact_field.Archive = ARCHIVE_FIELD"

fun calendar_event_field_u8 :: "calendar_event_field \<Rightarrow> u8" where
  "calendar_event_field_u8 calendar_event_field.Uid = 0"
| "calendar_event_field_u8 calendar_event_field.Archive = ARCHIVE_FIELD"

fun calendar_notification_field_u8 :: "calendar_notification_field \<Rightarrow> u8" where
  "calendar_notification_field_u8 calendar_notification_field.CreatedToId = 0"
| "calendar_notification_field_u8 calendar_notification_field.Archive = ARCHIVE_FIELD"

fun email_field_u8 :: "email_field \<Rightarrow> u8" where
  "email_field_u8 email_field.Metadata = 71"
| "email_field_u8 email_field.Threading = 90"
| "email_field_u8 email_field.DeletedAt = 91"
| "email_field_u8 email_field.Archive = ARCHIVE_FIELD"

fun mailbox_field_u8 :: "mailbox_field \<Rightarrow> u8" where
  "mailbox_field_u8 mailbox_field.UidCounter = 84"
| "mailbox_field_u8 mailbox_field.Archive = ARCHIVE_FIELD"

fun sieve_field_u8 :: "sieve_field \<Rightarrow> u8" where
  "sieve_field_u8 sieve_field.Name = 13"
| "sieve_field_u8 sieve_field.Ids = 84"
| "sieve_field_u8 sieve_field.Archive = ARCHIVE_FIELD"

fun email_submission_field_u8 :: "email_submission_field \<Rightarrow> u8" where
  "email_submission_field_u8 email_submission_field.Metadata = 49"
| "email_submission_field_u8 email_submission_field.Archive = ARCHIVE_FIELD"

fun identity_field_u8 :: "identity_field \<Rightarrow> u8" where
  "identity_field_u8 identity_field.Archive = ARCHIVE_FIELD"
| "identity_field_u8 identity_field.DocumentId = 51"

fun principal_field_u8 :: "principal_field \<Rightarrow> u8" where
  "principal_field_u8 principal_field.ParticipantIdentities = 45"
| "principal_field_u8 principal_field.DefaultCalendarId = 47"
| "principal_field_u8 principal_field.DefaultAddressBookId = 48"
| "principal_field_u8 principal_field.ActiveScriptId = 49"
| "principal_field_u8 principal_field.PushSubscriptions = 44"
| "principal_field_u8 principal_field.Archive = ARCHIVE_FIELD"


section \<open>Interpretations\<close>

lemmas acl_item_simps = acl_item_def acl_max_def acl_is_valid_def acl_into_u64_def acl_from_u64_def

interpretation acl_tab: enum_table acl_table acl.None' acl_number
proof
  show "x = acl.None' \<or> x \<in> set acl_table" for x by (cases x) (simp_all add: acl_table_def)
qed (simp_all add: acl_table_def upt_rec)

interpretation collection_tab: enum_table collection_table collection.None' collection_number
proof
  show "x = collection.None' \<or> x \<in> set collection_table" for x
    by (cases x) (simp_all add: collection_table_def)
qed (simp_all add: collection_table_def upt_rec)

interpretation sync_tab: enum_table sync_table sync_collection.None' sync_number
proof
  show "x = sync_collection.None' \<or> x \<in> set sync_table" for x
    by (cases x) (simp_all add: sync_table_def)
qed (simp_all add: sync_table_def upt_rec)

interpretation data_type_tab: enum_table data_type_table data_type.None' data_type_number
proof
  show "x = data_type.None' \<or> x \<in> set data_type_table" for x
    by (cases x) (simp_all add: data_type_table_def)
qed (simp_all add: data_type_table_def upt_rec)

interpretation acl_bits: bitmap_items acl_item
  by (rule acl_tab.bitmap_itemsI) (simp_all add: acl_item_simps acl_table_def)

interpretation collection_bits: bitmap_items collection_item
  by (rule collection_tab.bitmap_itemsI)
    (simp_all add: collection_item_def collection_into_u64_def collection_from_u64_def collection_table_def)

interpretation sync_bits: bitmap_items sync_item
  by (rule sync_tab.bitmap_itemsI)
    (simp_all add: sync_item_def sync_into_u64_def sync_from_u64_def sync_table_def)

interpretation data_type_bits: bitmap_items data_type_item
  by (rule data_type_tab.bitmap_itemsI)
    (simp_all add: data_type_item_def data_type_into_u64_def data_type_from_u64_def data_type_table_def)

interpretation collection_codec: name_codec collection_names collection_as_str "\<lambda>c. c = collection.None'"
proof
  show "x = collection.None' \<or> (collection_as_str x, x) \<in> set collection_names" for x
    by (cases x) (simp_all add: collection_names_def)
qed (simp_all add: collection_names_def)

interpretation data_type_codec: name_codec data_type_names data_type_as_str "\<lambda>t. t = data_type.None'"
proof
  show "x = data_type.None' \<or> (data_type_as_str x, x) \<in> set data_type_names" for x
    by (cases x) (simp_all add: data_type_names_def)
qed (simp_all add: data_type_names_def)

interpretation special_use_codec: name_codec special_use_names "\<lambda>u. the (special_use_as_str u)"
  "\<lambda>u. special_use_as_str u = None"
proof
  show "special_use_as_str x = None \<or> (the (special_use_as_str x), x) \<in> set special_use_names" for x
    by (cases x) (simp_all add: special_use_names_def)
qed (simp_all add: special_use_names_def)

section \<open>Properties\<close>

lemma number_u8: "n < 256 \<Longrightarrow> unat (of_nat n :: u8) = n" and number_u64: "m < 256 \<Longrightarrow> unat (of_nat m :: u64) = m"
  by (simp_all add: unat_of_nat)

lemma collection_number_less: "collection_number c < 256" and sync_number_less: "sync_number s < 256"
  and data_type_number_less: "data_type_number t < 256" and acl_number_less: "acl_number a < 256"
  using collection_tab.number_le [of c] sync_tab.number_le [of s] data_type_tab.number_le [of t]
    acl_tab.number_le [of a]
  by (simp_all add: collection_table_def sync_table_def data_type_table_def acl_table_def)

lemmas number_codec_defs = collection_from_u8_def collection_into_u8_def collection_from_u64_def
  collection_into_u64_def sync_from_u8_def sync_into_u8_def sync_from_u64_def sync_into_u64_def
  data_type_from_u64_def data_type_into_u64_def acl_from_u64_def acl_into_u64_def

lemmas number_codec_facts = number_u8 number_u64 collection_number_less sync_number_less
  data_type_number_less acl_number_less collection_tab.from_number_number sync_tab.from_number_number
  data_type_tab.from_number_number acl_tab.from_number_number

text \<open>
  Enum numbers are faithful store keys: every conversion to a number is undone by the
  conversion back, at both widths, and in the one-byte key space that sync collections and
  vanished collections share no number stands for two of them.
\<close>

theorem enum_numbers_roundtrip:
  "collection_from_u8 (collection_into_u8 c) = c \<and> collection_from_u64 (collection_into_u64 c) = c
   \<and> sync_from_u8 (sync_into_u8 s) = s \<and> sync_from_u64 (sync_into_u64 s) = s
   \<and> data_type_from_u64 (data_type_into_u64 t) = t \<and> acl_from_u64 (acl_into_u64 a) = a
   \<and> sync_into_u8 s \<noteq> vanished_into_u8 v
   \<and> (vanished_into_u8 v = vanished_into_u8 v' \<longleftrightarrow> v = v')"
proof -
  have "sync_into_u8 s \<noteq> vanished_into_u8 v"
    by (cases s; cases v; simp add: sync_into_u8_def vanished_into_u8_def)
  moreover have "vanished_into_u8 v = vanished_into_u8 v' \<longleftrightarrow> v = v'"
    by (cases v; cases v'; simp add: vanished_into_u8_def)
  ultimately show ?thesis by (simp only: number_codec_defs number_codec_facts) simp
qed

text \<open>
  Names are faithful: parsing a name gives the collection, data type or special use that
  prints it, and only these names parse; special uses are parsed without regard to case.
\<close>

theorem enum_names_roundtrip:
  "(collection_from_str s = Some c \<longleftrightarrow> c \<noteq> collection.None' \<and> collection_as_str c = s)
   \<and> (data_type_parse s = Some t \<longleftrightarrow> t \<noteq> data_type.None' \<and> data_type_as_str t = s)
   \<and> (special_use_parse s = Some u \<longleftrightarrow> special_use_as_str u = Some (map to_ascii_lowercase s))"
proof -
  have "special_use_as_str u \<noteq> None \<and> the (special_use_as_str u) = map to_ascii_lowercase s
      \<longleftrightarrow> special_use_as_str u = Some (map to_ascii_lowercase s)" by (cases "special_use_as_str u") auto
  then show ?thesis
    by (simp add: collection_from_str_def collection_codec.lookup_iff data_type_parse_def
        data_type_codec.lookup_iff special_use_parse_def special_use_codec.lookup_iff)
qed

text \<open>
  The tables that relate collections agree with each other: parent and child are
  inverse, the collection of a sync collection belongs to it, and the data type of a state
  change is the data type of the collection it reports, except that
  \<open>try_from_sync\<close> knows no data type for calendar event notifications.
\<close>

theorem collection_tables_agree:
  "(parent_collection c = Some p \<longleftrightarrow> child_collection p = Some c)
   \<and> (sync_to_collection s b \<noteq> collection.None' \<longrightarrow> sync_from_collection (sync_to_collection s b) = s)
   \<and> (s \<noteq> sync_collection.CalendarEventNotification \<longrightarrow>
        try_from_sync s b = data_type_try_from (sync_to_collection s b))
   \<and> try_from_sync sync_collection.CalendarEventNotification b = None
   \<and> data_type_try_from (sync_to_collection sync_collection.CalendarEventNotification b)
       = Some data_type.CalendarEventNotification
   \<and> (data_type_try_from c = Some t \<longleftrightarrow> collection_try_from t = Some c)"
proof -
  have "parent_collection c = Some p \<longleftrightarrow> child_collection p = Some c"
    by (cases c; cases p; simp)
  moreover have "sync_to_collection s b \<noteq> collection.None' \<longrightarrow> sync_from_collection (sync_to_collection s b) = s"
    and "s \<noteq> sync_collection.CalendarEventNotification \<longrightarrow>
        try_from_sync s b = data_type_try_from (sync_to_collection s b)"
    by (cases s; cases b; simp)+
  moreover have "data_type_try_from c = Some t \<longleftrightarrow> collection_try_from t = Some c"
    by (cases t; cases c; simp)
  ultimately show ?thesis by simp
qed

text \<open>Its two implications at a mailbox change.\<close>

theorem collection_tables_agree_witness:
  "try_from_sync sync_collection.Email True = Some data_type.Mailbox
   \<and> sync_from_collection collection.Mailbox = sync_collection.Email"
  using collection_tables_agree [of collection.Email collection.Mailbox sync_collection.Email True data_type.Email]
  by simp

text \<open>
  A set of rights kept as a bitmap is the set: collecting a list and draining the bitmap
  gives its valid rights, each once, in decreasing order of their numbers; membership after
  \<open>insert\<close>, \<open>remove_many\<close> and in \<open>all\<close> is as for sets.
  \<open>remove\<close> is symmetric difference: it deletes a member and adds a non-member.
\<close>

theorem acl_bitmap_is_set:
  "set (bitmap_into_vec acl_item (bitmap_from_vec acl_item xs)) = {x \<in> set xs. x \<noteq> acl.None'}
   \<and> sorted_wrt (\<lambda>x y. acl_number x > acl_number y) (bitmap_into_vec acl_item (bitmap_from_vec acl_item xs))
   \<and> (bitmap_contains acl_item (bitmap_insert acl_item b x) y \<longleftrightarrow> y = x \<or> bitmap_contains acl_item b y)
   \<and> (bitmap_contains acl_item (bitmap_remove_many acl_item b xs) y
        \<longleftrightarrow> bitmap_contains acl_item b y \<and> y \<notin> set xs)
   \<and> (bitmap_contains acl_item (bitmap_all acl_item) x \<longleftrightarrow> x \<noteq> acl.None')
   \<and> (bitmap_contains acl_item (bitmap_remove acl_item b x) y
        \<longleftrightarrow> (if y = x then \<not> bitmap_contains acl_item b x else bitmap_contains acl_item b y))"
proof -
  have valid: "item_valid acl_item x \<longleftrightarrow> x \<noteq> acl.None'" for x by (simp add: acl_item_simps)
  have ix: "unat (item_into acl_item x) = acl_number x" for x
    by (simp add: acl_item_simps number_u64 acl_number_less)
  show ?thesis
    using acl_bits.set_into_vec_from_vec [of xs] acl_bits.sorted_into_vec_from_vec [of xs]
    by (simp add: valid ix acl_bits.contains_insert acl_bits.contains_remove_many
        acl_bits.contains_all acl_bits.contains_remove)
qed

text \<open>
  The state change sent to clients reports exactly the data types that were set on it.
\<close>

theorem state_change_reports:
  "(bitmap_contains data_type_item (sc_types (foldl with_change (state_change_new account) ts)) t
      \<longleftrightarrow> t \<in> set ts)
   \<and> (has_changes (foldl with_change (state_change_new account) ts) \<longleftrightarrow> ts \<noteq> [])"
proof -
  have contains: "bitmap_contains data_type_item (sc_types (foldl with_change s ts)) t
      \<longleftrightarrow> bitmap_contains data_type_item (sc_types s) t \<or> t \<in> set ts" for s t ts
    by (induction ts arbitrary: s) (auto simp: with_change_def set_change_def data_type_bits.contains_insert)
  have "\<not> bitmap_contains data_type_item (sc_types (state_change_new account)) t" for t
    by (simp add: state_change_new_def bitmap_new_def bitmap_contains_def)
  with contains have members: "bitmap_contains data_type_item
      (sc_types (foldl with_change (state_change_new account) ts)) t \<longleftrightarrow> t \<in> set ts" for t
    by blast
  have "has_changes (foldl with_change (state_change_new account) ts) \<longleftrightarrow> ts \<noteq> []"
  proof (cases ts)
    case Nil
    then show ?thesis by (simp add: has_changes_def bitmap_is_empty_def state_change_new_def bitmap_new_def)
  next
    case (Cons t us)
    then have "bitmap_contains data_type_item (sc_types (foldl with_change (state_change_new account) ts)) t"
      unfolding members by simp
    then have "sc_types (foldl with_change (state_change_new account) ts) \<noteq> 0"
      by (auto simp: bitmap_contains_def)
    with Cons show ?thesis by (simp add: has_changes_def bitmap_is_empty_def)
  qed
  with members show ?thesis by blast
qed

end
