(* ===== verification/Base32.thy ===== *)
theory Base32
  imports Prelude
begin

text \<open>
  \<^verbatim>\<open>crates/utils/src/codec/base32_custom.rs\<close>: the base-32 text form of blob and document
  identifiers, as a writer that is fed bytes and a reader that is an iterator of bytes.
  Both keep the last byte they handled and the position in the five-byte cycle.
\<close>

section \<open>Alphabet\<close>

definition base32_alphabet :: string where
  "base32_alphabet = ''abcdefghijklmnopqrstuvwxyz792013''"

definition base32_inverse :: "u8 list" where
  "base32_inverse = [
   255, 255, 255, 255, 255, 255, 255, 255, 255, 255, 255, 255, 255, 255, 255, 255,
   255, 255, 255, 255, 255, 255, 255, 255, 255, 255, 255, 255, 255, 255, 255, 255,
   255, 255, 255, 255, 255, 255, 255, 255, 255, 255, 255, 255, 255, 255, 255, 255,
   29, 30, 28, 31, 255, 255, 255, 26, 255, 27, 255, 255, 255, 255, 255, 255,
   255, 255, 255, 255, 255, 255, 255, 255, 255, 255, 255, 10, 11, 12, 13, 14,
   15, 16, 17, 18, 19, 20, 21, 22, 23, 24, 25, 255, 255, 255, 255, 255,
   255, 0, 1, 2, 3, 4, 5, 6, 7, 8, 9, 10, 11, 12, 13, 14,
   15, 16, 17, 18, 19, 20, 21, 22, 23, 24, 25, 255, 255, 255, 255, 255,
   255, 255, 255, 255, 255, 255, 255, 255, 255, 255, 255, 255, 255, 255, 255, 255,
   255, 255, 255, 255, 255, 255, 255, 255, 255, 255, 255, 255, 255, 255, 255, 255,
   255, 255, 255, 255, 255, 255, 255, 255, 255, 255, 255, 255, 255, 255, 255, 255,
   255, 255, 255, 255, 255, 255, 255, 255, 255, 255, 255, 255, 255, 255, 255, 255,
   255, 255, 255, 255, 255, 255, 255, 255, 255, 255, 255, 255, 255, 255, 255, 255,
   255, 255, 255, 255, 255, 255, 255, 255, 255, 255, 255, 255, 255, 255, 255, 255,
   255, 255, 255, 255, 255, 255, 255, 255, 255, 255, 255, 255, 255, 255, 255, 255,
   255, 255, 255, 255, 255, 255, 255, 255, 255, 255, 255, 255, 255, 255, 255, 255]"

text \<open>Indexing the tables; an index into the alphabet is always below 32 (see \<open>char_idx_less\<close>).\<close>

definition base32_char :: "u8 \<Rightarrow> char" where
  "base32_char i = base32_alphabet ! unat i"

definition base32_value :: "char \<Rightarrow> u8" where
  "base32_value ch = base32_inverse ! code ch"

section \<open>Writer\<close>

record base32_writer =
  wr_last_byte :: u8
  wr_pos :: nat
  wr_result :: string

definition base32_writer_new :: base32_writer where
  "base32_writer_new = \<lparr>wr_last_byte = 0, wr_pos = 0, wr_result = []\<rparr>"

definition push_char :: "base32_writer \<Rightarrow> char \<Rightarrow> base32_writer" where
  "push_char w ch = w\<lparr>wr_result := wr_result w @ [ch]\<rparr>"

definition push_string :: "base32_writer \<Rightarrow> string \<Rightarrow> base32_writer" where
  "push_string w s = w\<lparr>wr_result := wr_result w @ s\<rparr>"

definition push_chars_of :: "nat \<Rightarrow> u8 \<Rightarrow> u8 \<Rightarrow> u8 \<times> u8" where
  "push_chars_of pos last_byte byte =
     (let p = pos mod 5 in
      if p = 0 then (drop_bit 3 (byte AND 0xF8), - 1)
      else if p = 1 then
        (push_bit 2 (last_byte AND 0x07) OR drop_bit 6 (byte AND 0xC0), drop_bit 1 (byte AND 0x3E))
      else if p = 2 then
        (push_bit 4 (last_byte AND 0x01) OR drop_bit 4 (byte AND 0xF0), - 1)
      else if p = 3 then
        (push_bit 1 (last_byte AND 0x0F) OR drop_bit 7 byte, drop_bit 2 (byte AND 0x7C))
      else
        (push_bit 3 (last_byte AND 0x03) OR drop_bit 5 (byte AND 0xE0), byte AND 0x1F))"

definition push_byte :: "base32_writer \<Rightarrow> u8 \<Rightarrow> bool \<Rightarrow> base32_writer" where
  "push_byte w byte is_remainder =
     (case push_chars_of (wr_pos w) (wr_last_byte w) byte of (ch1, ch2) \<Rightarrow>
        let w1 = push_char w (base32_char ch1) in
        if \<not> is_remainder then
          (let w2 = (if ch2 \<noteq> - 1 then push_char w1 (base32_char ch2) else w1)
           in w2\<lparr>wr_last_byte := byte, wr_pos := wr_pos w2 + 1\<rparr>)
        else w1)"

definition finalize :: "base32_writer \<Rightarrow> string" where
  "finalize w = wr_result (if wr_pos w mod 5 \<noteq> 0 then push_byte w 0 True else w)"

text \<open>\<open>io::Write::write\<close>: all bytes are taken; the number of them is returned.\<close>

fun write_loop :: "base32_writer \<Rightarrow> u8 list \<Rightarrow> base32_writer" where
  "write_loop w [] = w"
| "write_loop w (byte # bytes) = write_loop (push_byte w byte False) bytes"

definition writer_write :: "base32_writer \<Rightarrow> u8 list \<Rightarrow> nat \<times> base32_writer" where
  "writer_write w bytes = (let w' = write_loop w bytes in (wr_pos w' - wr_pos w, w'))"

definition from_bytes :: "u8 list \<Rightarrow> base32_writer" where
  "from_bytes bytes = snd (writer_write base32_writer_new bytes)"

section \<open>Reader\<close>

record base32_reader =
  rd_bytes :: string
  rd_last_byte :: u8
  rd_pos :: nat

definition base32_reader_new :: "string \<Rightarrow> base32_reader" where
  "base32_reader_new bytes = \<lparr>rd_bytes = bytes, rd_last_byte = 0, rd_pos = 0\<rparr>"

definition map_byte :: "base32_reader \<Rightarrow> u8 option \<times> base32_reader" where
  "map_byte r =
     (case rd_bytes r of
        ch # rest \<Rightarrow>
          (let byte = base32_value ch; r' = r\<lparr>rd_bytes := rest\<rparr>
           in if byte \<noteq> - 1 then (Some byte, r'\<lparr>rd_last_byte := byte\<rparr>) else (None, r'))
      | [] \<Rightarrow> (None, r))"

definition map_byte_or_0 :: "base32_reader \<Rightarrow> u8 \<times> base32_reader" where
  "map_byte_or_0 r = (case map_byte r of (b, r') \<Rightarrow> (case b of Some v \<Rightarrow> v | None \<Rightarrow> 0, r'))"

definition next_byte :: "base32_reader \<Rightarrow> u8 option \<times> base32_reader" where
  "next_byte r =
     (let pos = rd_pos r mod 5; last_byte = rd_last_byte r in
      case map_byte r of
        (None, r1) \<Rightarrow> (None, r1)
      | (Some byte, r1) \<Rightarrow>
          (let r2 = r1\<lparr>rd_pos := rd_pos r1 + 1\<rparr> in
           if pos = 0 then
             (case map_byte_or_0 r2 of (v, r3) \<Rightarrow> (Some (push_bit 3 byte OR drop_bit 2 v), r3))
           else if pos = 1 then
             (case map_byte_or_0 r2 of (v, r3) \<Rightarrow>
                (Some (push_bit 6 last_byte OR push_bit 1 byte OR drop_bit 4 v), r3))
           else if pos = 2 then (Some (push_bit 4 last_byte OR drop_bit 1 byte), r2)
           else if pos = 3 then
             (case map_byte_or_0 r2 of (v, r3) \<Rightarrow>
                (Some (push_bit 7 last_byte OR push_bit 2 byte OR drop_bit 3 v), r3))
           else (Some (push_bit 5 last_byte OR byte), r2)))"

lemma map_byte_length:
  "length (rd_bytes (snd (map_byte r))) \<le> length (rd_bytes r)"
  "map_byte r = (Some v, r') \<Longrightarrow> length (rd_bytes r') < length (rd_bytes r)"
  by (auto simp: map_byte_def Let_def split: list.splits if_splits)

lemma map_byte_or_0_length: "map_byte_or_0 r = (v, r') \<Longrightarrow> length (rd_bytes r') \<le> length (rd_bytes r)"
  using map_byte_length(1) [of r] by (auto simp: map_byte_or_0_def split: prod.splits)

lemma next_byte_length:
  assumes "next_byte r = (Some v, r')"
  shows "length (rd_bytes r') < length (rd_bytes r)"
proof -
  obtain o1 r1 where m: "map_byte r = (o1, r1)" by (cases "map_byte r")
  then obtain byte where o1: "o1 = Some byte" using assms by (cases o1) (auto simp: next_byte_def)
  define r2 where "r2 = r1\<lparr>rd_pos := rd_pos r1 + 1\<rparr>"
  have "length (rd_bytes r2) < length (rd_bytes r)"
    using map_byte_length(2) [of r byte r1] m o1 by (simp add: r2_def)
  moreover have "length (rd_bytes r') \<le> length (rd_bytes r2)"
    using assms m o1 map_byte_or_0_length [of r2]
    by (auto simp: next_byte_def Let_def r2_def split: if_splits prod.splits)
  ultimately show ?thesis by simp
qed

text \<open>Collecting the iterator.\<close>

function read_all :: "base32_reader \<Rightarrow> u8 list" where
  "read_all r = (case next_byte r of (None, _) \<Rightarrow> [] | (Some v, r') \<Rightarrow> v # read_all r')"
  by pat_completeness auto
termination
  by (relation "measure (\<lambda>r. length (rd_bytes r))") (auto dest: next_byte_length [OF sym])

declare read_all.simps [simp del]

section \<open>The text of a byte sequence\<close>

text \<open>
  The five-bit groups the writer emits for \<open>bytes\<close> at a position of the cycle, where
  \<open>last_byte\<close> still has unwritten low bits, with the final remainder.
\<close>

fun base32_groups :: "nat \<Rightarrow> u8 \<Rightarrow> u8 list \<Rightarrow> u8 list" where
  "base32_groups p l [] = (if p mod 5 = 0 then [] else [fst (push_chars_of p l 0)])"
| "base32_groups p l (b # bs) =
     (case push_chars_of p l b of (c1, c2) \<Rightarrow>
        c1 # (if c2 \<noteq> - 1 then [c2] else []) @ base32_groups (p + 1) b bs)"

lemma finalize_write_loop:
  "finalize (write_loop w bs) = wr_result w @ map base32_char (base32_groups (wr_pos w) (wr_last_byte w) bs)"
  by (induction w bs rule: write_loop.induct)
    (auto simp: finalize_def push_byte_def push_char_def Let_def split: prod.splits)

lemma word_less_32I:
  assumes "\<not> bit w 5" "\<not> bit w 6" "\<not> bit (w :: u8) 7"
  shows "unat w < 32"
proof -
  have "w = take_bit 5 w"
    using assms by (intro bit_word_eqI) (auto simp: bit_simps less_Suc_eq numeral_eq_Suc)
  then have "unat w = take_bit 5 (unat w)" by (metis unsigned_take_bit_eq)
  then show ?thesis using take_bit_nat_less_exp [of 5 "unat w"] by simp
qed

lemma mod_5_cases: "(p::nat) mod 5 \<in> {0, 1, 2, 3, 4}"
proof -
  have "p mod 5 < 5" by simp
  then show ?thesis by auto
qed

text \<open>The first and second five-bit group at each position of the cycle.\<close>

lemma push_chars_of_cases:
  "p mod 5 = 0 \<Longrightarrow> push_chars_of p l b = (drop_bit 3 (b AND 0xF8), - 1)"
  "p mod 5 = 1 \<Longrightarrow> push_chars_of p l b
     = (push_bit 2 (l AND 0x07) OR drop_bit 6 (b AND 0xC0), drop_bit 1 (b AND 0x3E))"
  "p mod 5 = 2 \<Longrightarrow> push_chars_of p l b = (push_bit 4 (l AND 0x01) OR drop_bit 4 (b AND 0xF0), - 1)"
  "p mod 5 = 3 \<Longrightarrow> push_chars_of p l b
     = (push_bit 1 (l AND 0x0F) OR drop_bit 7 b, drop_bit 2 (b AND 0x7C))"
  "p mod 5 = 4 \<Longrightarrow> push_chars_of p l b
     = (push_bit 3 (l AND 0x03) OR drop_bit 5 (b AND 0xE0), b AND 0x1F)"
  by (simp_all add: push_chars_of_def)

lemma bit_double_word: "bit ((a :: 'a::len word) * 2) n \<longleftrightarrow> 0 < n \<and> n < LENGTH('a) \<and> bit a (n - 1)"
  using bit_double_iff [of a n] by (auto simp: mult.commute possible_bit_word)

lemma group_less_32:
  fixes l b :: u8
  shows "unat (drop_bit 3 (b AND 0xF8)) < 32"
    "unat (push_bit 2 (l AND 0x07) OR drop_bit 6 (b AND 0xC0)) < 32"
    "unat (drop_bit 1 (b AND 0x3E)) < 32"
    "unat (push_bit 4 (l AND 0x01) OR drop_bit 4 (b AND 0xF0)) < 32"
    "unat (push_bit 1 (l AND 0x0F) OR drop_bit 7 b) < 32"
    "unat (drop_bit 2 (b AND 0x7C)) < 32"
    "unat (push_bit 3 (l AND 0x03) OR drop_bit 5 (b AND 0xE0)) < 32"
    "unat (b AND 0x1F) < 32"
  by (rule word_less_32I; auto simp: bit_simps bit_double_word dest: bit_imp_le_length)+

lemma less_32_neq_max: "unat (v :: u8) < 32 \<Longrightarrow> v \<noteq> - 1"
proof
  assume "unat v < 32" and v: "v = - 1"
  moreover have "unat (- 1 :: u8) = 255" by code_simp
  ultimately show False by simp
qed

lemma char_idx_less:
  "unat (fst (push_chars_of p l b)) < 32"
  "snd (push_chars_of p l b) \<noteq> - 1 \<Longrightarrow> unat (snd (push_chars_of p l b)) < 32"
  using mod_5_cases [of p] group_less_32 by (auto simp: push_chars_of_cases)

lemma base32_groups_less: "v \<in> set (base32_groups p l bs) \<Longrightarrow> unat v < 32"
proof (induction p l bs rule: base32_groups.induct)
  case (1 p l)
  then show ?case using char_idx_less(1) [of p l 0] by (auto split: if_splits)
next
  case (2 p l b bs)
  obtain c1 c2 where c: "push_chars_of p l b = (c1, c2)" by (cases "push_chars_of p l b")
  with 2 char_idx_less [of p l b] show ?case by (auto split: if_splits)
qed

lemma base32_inverse_alphabet:
  "list_all (\<lambda>i. base32_inverse ! code (base32_alphabet ! i) = of_nat i) [0..<32]"
  by code_simp

lemma base32_value_char: "unat v < 32 \<Longrightarrow> base32_value (base32_char v) = v"
  using base32_inverse_alphabet
  by (simp add: list_all_iff base32_value_def base32_char_def)

lemma base32_value_char_neq: "unat v < 32 \<Longrightarrow> base32_value (base32_char v) \<noteq> - 1"
  using less_32_neq_max by (simp add: base32_value_char)

section \<open>Reading back\<close>

text \<open>The bytes reassembled at each position from the groups around them.\<close>

lemma reassemble:
  fixes l b n :: u8
  shows "push_bit 3 (drop_bit 3 (b AND 0xF8)) OR
      drop_bit 2 (push_bit 2 (b AND 0x07) OR drop_bit 6 (n AND 0xC0)) = b"
    "push_bit 6 (push_bit 2 (l AND 0x07) OR drop_bit 6 (b AND 0xC0)) OR
      push_bit 1 (drop_bit 1 (b AND 0x3E)) OR
      drop_bit 4 (push_bit 4 (b AND 0x01) OR drop_bit 4 (n AND 0xF0)) = b"
    "push_bit 4 (push_bit 4 (l AND 0x01) OR drop_bit 4 (b AND 0xF0)) OR
      drop_bit 1 (push_bit 1 (b AND 0x0F) OR drop_bit 7 n) = b"
    "push_bit 7 (push_bit 1 (l AND 0x0F) OR drop_bit 7 b) OR push_bit 2 (drop_bit 2 (b AND 0x7C)) OR
      drop_bit 3 (push_bit 3 (b AND 0x03) OR drop_bit 5 (n AND 0xE0)) = b"
    "push_bit 5 (push_bit 3 (l AND 0x03) OR drop_bit 5 (b AND 0xE0)) OR (b AND 0x1F) = b"
  by (rule bit_word_eqI; simp add: bit_simps;
      auto simp: less_Suc_eq numeral_eq_Suc bit_double_word bit_drop_bit_eq bit_simps)+

text \<open>
  A reader in the middle of a cycle has already taken the first group of the byte it will
  return next; it holds it in \<open>last_byte\<close>.
\<close>

definition reader_at :: "nat \<Rightarrow> u8 list \<Rightarrow> u8 \<Rightarrow> base32_reader" where
  "reader_at p gs v = \<lparr>rd_bytes = map base32_char gs, rd_last_byte = v, rd_pos = p\<rparr>"

lemma map_byte_reader_at:
  "unat g < 32 \<Longrightarrow> map_byte (reader_at p (g # gs) v) = (Some g, reader_at p gs g)"
  by (simp add: map_byte_def reader_at_def base32_value_char less_32_neq_max)

lemma map_byte_reader_at_Nil: "map_byte (reader_at p [] v) = (None, reader_at p [] v)"
  by (simp add: map_byte_def reader_at_def)

lemma reader_at_pos: "(reader_at p gs v)\<lparr>rd_pos := Suc (rd_pos (reader_at p gs v))\<rparr> = reader_at (Suc p) gs v"
  by (simp add: reader_at_def)

lemma rd_sel [simp]: "rd_pos (reader_at p gs v) = p" "rd_last_byte (reader_at p gs v) = v"
  by (simp_all add: reader_at_def)

lemma mod_Suc_5: "(p::nat) mod 5 = 0 \<Longrightarrow> Suc p mod 5 = 1" "p mod 5 = 1 \<Longrightarrow> Suc p mod 5 = 2"
  "p mod 5 = 2 \<Longrightarrow> Suc p mod 5 = 3" "p mod 5 = 3 \<Longrightarrow> Suc p mod 5 = 4" "p mod 5 = 4 \<Longrightarrow> Suc p mod 5 = 0"
  by (simp_all add: mod_Suc)

text \<open>The groups after a byte at a position that is not the last of the cycle.\<close>

lemma base32_groups_ne:
  assumes "p mod 5 \<noteq> 0"
  obtains n gs where "base32_groups p l bs = fst (push_chars_of p l n) # gs"
proof (cases bs)
  case Nil
  with assms that [of 0 "[]"] show thesis by simp
next
  case (Cons b bs')
  show thesis
    by (rule that [of b]) (simp add: Cons prod.case_eq_if)
qed

text \<open>One step of the reader, for each position of the cycle.\<close>

lemma next_byte_reader_at:
  assumes "unat c < 32" and "unat d < 32"
  shows "p mod 5 = 0 \<Longrightarrow> next_byte (reader_at p (c # d # gs) l)
      = (Some (push_bit 3 c OR drop_bit 2 d), reader_at (Suc p) gs d)"
    "p mod 5 = 1 \<Longrightarrow> next_byte (reader_at p (c # d # gs) l)
      = (Some (push_bit 6 l OR push_bit 1 c OR drop_bit 4 d), reader_at (Suc p) gs d)"
    "p mod 5 = 2 \<Longrightarrow> next_byte (reader_at p (c # gs) l)
      = (Some (push_bit 4 l OR drop_bit 1 c), reader_at (Suc p) gs c)"
    "p mod 5 = 3 \<Longrightarrow> next_byte (reader_at p (c # d # gs) l)
      = (Some (push_bit 7 l OR push_bit 2 c OR drop_bit 3 d), reader_at (Suc p) gs d)"
    "p mod 5 = 4 \<Longrightarrow> next_byte (reader_at p (c # gs) l)
      = (Some (push_bit 5 l OR c), reader_at (Suc p) gs c)"
  using assms map_byte_reader_at reader_at_pos
  by (simp_all add: next_byte_def map_byte_or_0_def)

lemmas group_eval = if_True if_False Pair_inject fst_conv list.sel append_Cons append_Nil
  simp_thms zero_neq_one one_neq_zero numeral_neq_zero

lemma next_byte_groups:
  assumes eq: "base32_groups p l (b # bs) = g # gs"
  shows "next_byte (if p mod 5 = 0 then reader_at p (g # gs) v else reader_at p gs g)
    = (Some b, if Suc p mod 5 = 0 then reader_at (Suc p) (base32_groups (Suc p) b bs) (b AND 0x1F)
        else reader_at (Suc p) (tl (base32_groups (Suc p) b bs)) (hd (base32_groups (Suc p) b bs)))"
proof -
  let ?G = "base32_groups (Suc p) b bs"
  obtain c1 c2 where c: "push_chars_of p l b = (c1, c2)" by (cases "push_chars_of p l b")
  with eq have g: "g = c1" "gs = (if c2 \<noteq> - 1 then [c2] else []) @ ?G" by auto
  have small: "unat c1 < 32" "c2 \<noteq> - 1 \<Longrightarrow> unat c2 < 32"
    using char_idx_less [of p l b] c by auto
  have more: "\<exists>n hs. ?G = fst (push_chars_of (Suc p) b n) # hs" if "Suc p mod 5 \<noteq> 0"
    using base32_groups_ne [OF that, of b bs] by metis
  note step = next_byte_reader_at [OF small(1) char_idx_less(1)] next_byte_reader_at [OF small(2) char_idx_less(1)]
  from mod_5_cases [of p] consider "p mod 5 = 0" | "p mod 5 = 1" | "p mod 5 = 2" | "p mod 5 = 3"
    | "p mod 5 = 4" by auto
  then show ?thesis
  proof cases
    case 1
    with more mod_Suc_5(1) obtain n hs where G: "?G = fst (push_chars_of (Suc p) b n) # hs" by force
    note c' = c [unfolded push_chars_of_cases(1) [OF 1]] and n = push_chars_of_cases(2) [OF mod_Suc_5(1) [OF 1], of b n]
    show ?thesis
      using step(1) [OF 1, of "Suc p" b n hs v] 1 c' reassemble(1) [of b n]
      unfolding g G n by (auto simp only: mod_Suc_5 group_eval)
  next
    case 2
    with more mod_Suc_5(2) obtain n hs where G: "?G = fst (push_chars_of (Suc p) b n) # hs" by force
    note c' = c [unfolded push_chars_of_cases(2) [OF 2]] and n = push_chars_of_cases(3) [OF mod_Suc_5(2) [OF 2], of b n]
    have ne: "c2 \<noteq> - 1" using less_32_neq_max [OF group_less_32(3) [of b]] c' by (auto simp only: Pair_inject)
    show ?thesis
      using step(7) [OF ne 2, of "Suc p" b n hs c1] 2 ne c' reassemble(2) [of l b n] mod_Suc_5(2) [OF 2]
      unfolding g G n by (auto simp only: group_eval)
  next
    case 3
    with more mod_Suc_5(3) obtain n hs where G: "?G = fst (push_chars_of (Suc p) b n) # hs" by force
    note c' = c [unfolded push_chars_of_cases(3) [OF 3]] and n = push_chars_of_cases(4) [OF mod_Suc_5(3) [OF 3], of b n]
    show ?thesis
      using next_byte_reader_at(3) [OF char_idx_less(1) char_idx_less(1) 3, of "Suc p" b n hs c1] 3 c' reassemble(3) [of l b n] mod_Suc_5(3) [OF 3]
      unfolding g G n by (auto simp only: group_eval)
  next
    case 4
    with more mod_Suc_5(4) obtain n hs where G: "?G = fst (push_chars_of (Suc p) b n) # hs" by force
    note c' = c [unfolded push_chars_of_cases(4) [OF 4]] and n = push_chars_of_cases(5) [OF mod_Suc_5(4) [OF 4], of b n]
    have ne: "c2 \<noteq> - 1" using less_32_neq_max [OF group_less_32(6) [of b]] c' by (auto simp only: Pair_inject)
    show ?thesis
      using step(9) [OF ne 4, of "Suc p" b n hs c1] 4 ne c' reassemble(4) [of l b n] mod_Suc_5(4) [OF 4]
      unfolding g G n by (auto simp only: group_eval)
  next
    case 5
    note c' = c [unfolded push_chars_of_cases(5) [OF 5]]
    have ne: "c2 \<noteq> - 1" using less_32_neq_max [OF group_less_32(8) [of b]] c' by (auto simp only: Pair_inject)
    show ?thesis
      using next_byte_reader_at(5) [OF small(2) [OF ne] small(2) [OF ne] 5, of ?G c1] 5 ne c' reassemble(5) [of l b] mod_Suc_5(5) [OF 5]
      unfolding g by (auto simp only: group_eval)
  qed
qed

lemma read_all_groups:
  assumes "base32_groups p l bs = gs"
  shows "read_all (if p mod 5 = 0 then reader_at p gs v else reader_at p (tl gs) (hd gs)) = bs"
  using assms
proof (induction bs arbitrary: p l gs v)
  case Nil
  then show ?case
    by (subst read_all.simps) (auto simp: next_byte_def map_byte_reader_at_Nil)
next
  case (Cons b bs)
  obtain g gs' where gs: "gs = g # gs'" using Cons.prems by (cases "push_chars_of p l b") auto
  note nb = next_byte_groups [OF Cons.prems [unfolded gs], of v]
  have "next_byte (if p mod 5 = 0 then reader_at p gs v else reader_at p (tl gs) (hd gs))
    = (Some b, if Suc p mod 5 = 0 then reader_at (Suc p) (base32_groups (Suc p) b bs) (b AND 0x1F)
        else reader_at (Suc p) (tl (base32_groups (Suc p) b bs)) (hd (base32_groups (Suc p) b bs)))"
    unfolding gs list.sel by (rule nb)
  then show ?case
    using Cons.IH [of "Suc p" b "base32_groups (Suc p) b bs" "b AND 0x1F"]
    by (subst read_all.simps) simp
qed

section \<open>Properties\<close>

text \<open>
  C35: base-32 round trip. Reading the text the writer produces for any bytes gives the
  bytes back, and every character of it is in the alphabet (no table access is out of range).
\<close>

theorem base32_roundtrip:
  "read_all (base32_reader_new (finalize (from_bytes bytes))) = bytes
   \<and> set (finalize (from_bytes bytes)) \<subseteq> set base32_alphabet"
proof -
  have fin: "finalize (from_bytes bytes) = map base32_char (base32_groups 0 0 bytes)"
    by (simp add: from_bytes_def writer_write_def Let_def finalize_write_loop base32_writer_new_def)
  then have "base32_reader_new (finalize (from_bytes bytes)) = reader_at 0 (base32_groups 0 0 bytes) 0"
    by (simp add: base32_reader_new_def reader_at_def)
  moreover have "base32_char v \<in> set base32_alphabet" if "unat v < 32" for v
    unfolding base32_char_def using that by (intro nth_mem) (simp add: base32_alphabet_def)
  ultimately show ?thesis
    using read_all_groups [of 0 0 bytes _ 0] base32_groups_less fin by auto
qed

end
