(* ===== verification/Ids.thy ===== *)
theory Ids
  imports Base32
begin

text \<open>
  \<^verbatim>\<open>crates/types/src/id.rs\<close> and \<^verbatim>\<open>crates/types/src/semver.rs\<close>: JMAP object
  identifiers (a \<open>u64\<close>, printed in base 32; two \<open>u32\<close> halves for objects with a
  prefix) and version numbers packed in a \<open>u64\<close>.
\<close>

section \<open>Identifiers\<close>

type_synonym jmap_id = u64

definition id_default :: jmap_id where
  "id_default = - 1"

fun id_from_str_loop :: "u64 \<Rightarrow> string \<Rightarrow> jmap_id option" where
  "id_from_str_loop acc [] = Some acc"
| "id_from_str_loop acc (ch # s) =
     (let i = base32_value ch
      in if i \<noteq> - 1 then id_from_str_loop (push_bit 5 acc OR ucast i) s else None)"

definition id_from_str :: "string \<Rightarrow> jmap_id option" where
  "id_from_str s = id_from_str_loop 0 s"

definition id_singleton :: jmap_id where
  "id_singleton = 20080258862541"

definition STOP_BIT :: u64 where
  "STOP_BIT = push_bit 60 1"

text \<open>
  \<open>as_string\<close>: a stop bit is appended below the number, leading zero groups are
  shifted out, and groups of five bits are taken from the top until only the stop bit is
  left. The \<open>while\<close> has no bound of its own: not reaching \<open>STOP_BIT\<close> is
  \<^term>\<open>None\<close> here, and \<open>id_string_roundtrip\<close> says this does not happen.
\<close>

partial_function (option) id_digits_loop :: "u64 \<Rightarrow> string \<Rightarrow> string option" where
  "id_digits_loop n buf =
     (if n = STOP_BIT then Some buf
      else id_digits_loop (push_bit 5 n) (buf @ [base32_alphabet ! unat (drop_bit 59 n)]))"

definition id_as_string :: "jmap_id \<Rightarrow> string option" where
  "id_as_string n =
     (if n = 0 then Some ''a''
      else if drop_bit 60 n = 0 then
        (let n1 = push_bit 4 n OR 1
         in id_digits_loop (push_bit (leading_zeros n1 div 5 * 5) n1) [])
      else id_digits_loop (push_bit 4 n OR 1) [base32_alphabet ! unat (drop_bit 60 n)])"

definition id_from_parts :: "u32 \<Rightarrow> u32 \<Rightarrow> jmap_id" where
  "id_from_parts prefix_id doc_id = push_bit 32 (ucast prefix_id) OR ucast doc_id"

definition id_document_id :: "jmap_id \<Rightarrow> u32" where
  "id_document_id i = ucast i"

definition id_prefix_id :: "jmap_id \<Rightarrow> u32" where
  "id_prefix_id i = ucast (drop_bit 32 i)"

definition id_is_singleton :: "jmap_id \<Rightarrow> bool" where
  "id_is_singleton i \<longleftrightarrow> i = 20080258862541"

definition id_is_valid :: "jmap_id \<Rightarrow> bool" where
  "id_is_valid i \<longleftrightarrow> i \<noteq> - 1"

section \<open>Digits\<close>

text \<open>The \<open>j\<close> base-32 digits of \<open>d\<close>, most significant first.\<close>

fun b32_digits :: "nat \<Rightarrow> nat \<Rightarrow> string" where
  "b32_digits 0 d = []"
| "b32_digits (Suc j) d = base32_char (of_nat (d div 32 ^ j)) # b32_digits j (d mod 32 ^ j)"

lemma unat_of_nat_u8: "n < 32 \<Longrightarrow> unat (of_nat n :: u8) = n"
  by (simp add: unat_of_nat)

lemma ucast_of_nat_u8: "n < 32 \<Longrightarrow> (ucast (of_nat n :: u8) :: u64) = of_nat n"
  by (simp add: word_eq_iff_unsigned unsigned_ucast_eq unat_of_nat take_bit_nat_def
      word_unat_eq_iff unsigned_of_nat)

lemma digit_step: "p * h + l = d \<Longrightarrow> (a * 32 + h) * p + l = a * (32 * p) + (d :: 'a::comm_ring_1)"
  by (auto simp: algebra_simps)

lemma shift_step: "(d * p + q) * 32 = d div m * (m * (32 * p)) + (d mod m * (32 * p) + 32 * q)"
  for d m p q :: nat
proof -
  have "d div m * (m * (32 * p)) + d mod m * (32 * p) = (d div m * m + d mod m) * (32 * p)"
    by (simp only: distrib_right mult.assoc)
  then show ?thesis by (simp add: algebra_simps)
qed

lemma split_step: "x * c = x div m * (m * c) + x mod m * c" for x c m :: nat
  by (simp only: mult.assoc [symmetric] distrib_right [symmetric] div_mult_mod_eq)

lemma of_nat_high: "(of_nat (a * 2 ^ 64 + b) :: u64) = of_nat b"
proof -
  have "(of_nat (a * 2 ^ 64) :: u64) = 0" by (simp only: word_of_nat_eq_0_iff) simp
  then show ?thesis by (simp only: of_nat_add add_0)
qed

lemma power_60_16: "(2::nat) ^ 60 * 16 = 2 ^ 64"
  by simp

lemma id_from_str_digits:
  "d < 32 ^ j \<Longrightarrow> id_from_str_loop acc (b32_digits j d @ s) = id_from_str_loop (acc * 32 ^ j + of_nat d) s"
proof (induction j arbitrary: d acc)
  case 0
  then show ?case by simp
next
  case (Suc j)
  have hi: "d div 32 ^ j < 32" using Suc.prems by (simp add: less_mult_imp_div_less)
  have val: "base32_value (base32_char (of_nat (d div 32 ^ j))) = of_nat (d div 32 ^ j)"
    using hi by (simp add: base32_value_char unat_of_nat_u8)
  have "(of_nat (d div 32 ^ j) :: u8) \<noteq> - 1"
    using hi by (intro less_32_neq_max) (simp add: unat_of_nat_u8)
  moreover have "push_bit 5 acc OR of_nat (d div 32 ^ j) = acc * 32 + of_nat (d div 32 ^ j)"
    using hi push_bit_or_add [of "of_nat (d div 32 ^ j)" 5 acc] by (simp add: unat_of_nat)
  ultimately have "id_from_str_loop acc (b32_digits (Suc j) d @ s)
    = id_from_str_loop ((acc * 32 + of_nat (d div 32 ^ j)) * 32 ^ j + of_nat (d mod 32 ^ j)) s"
    using hi Suc.IH [of "d mod 32 ^ j"] by (simp add: val ucast_of_nat_u8 Let_def)
  moreover have "32 ^ j * of_nat (d div 32 ^ j) + of_nat (d mod 32 ^ j) = (of_nat d :: u64)"
    by (metis mult_div_mod_eq of_nat_add of_nat_mult of_nat_numeral of_nat_power)
  then have "(acc * 32 + of_nat (d div 32 ^ j)) * 32 ^ j + of_nat (d mod 32 ^ j)
      = acc * 32 ^ Suc j + (of_nat d :: u64)"
    by (simp only: power_Suc digit_step)
  ultimately show ?case by (simp only:)
qed

text \<open>The loop's argument when \<open>j\<close> digits are left: the digits on top, then the stop bit.\<close>

definition loop_word :: "nat \<Rightarrow> nat \<Rightarrow> nat" where
  "loop_word j d = d * 2 ^ (64 - 5 * j) + 2 ^ (60 - 5 * j)"

lemma loop_word_0: "(of_nat (loop_word 0 0) :: u64) = STOP_BIT"
  by (simp add: loop_word_def STOP_BIT_def push_bit_eq_mult)

lemma pow_32: "(32::nat) ^ j = 2 ^ (5 * j)"
  by (simp add: power_mult)

lemma loop_word_less:
  assumes "j \<le> 12" and "d < 32 ^ j"
  shows "loop_word j d < 2 ^ 64"
proof -
  have "(2::nat) ^ 64 = 2 ^ (64 - 5 * j + 5 * j)" using assms(1) by (simp only: le_add_diff_inverse2)
  then have top: "(2::nat) ^ 64 = 32 ^ j * 2 ^ (64 - 5 * j)"
    by (simp only: power_add pow_32 mult.commute)
  have "Suc d * 2 ^ (64 - 5 * j) \<le> 32 ^ j * 2 ^ (64 - 5 * j)"
    using assms(2) by (intro mult_le_mono1) simp
  moreover have "(2::nat) ^ (60 - 5 * j) < 2 ^ (64 - 5 * j)"
    using assms(1) by (intro power_strict_increasing) auto
  then have "loop_word j d < Suc d * 2 ^ (64 - 5 * j)"
    by (simp only: loop_word_def mult_Suc)
  ultimately show ?thesis unfolding top by (meson less_le_trans)
qed

lemma unat_loop_word: "j \<le> 12 \<Longrightarrow> d < 32 ^ j \<Longrightarrow> unat (of_nat (loop_word j d) :: u64) = loop_word j d"
  using loop_word_less [of j d] by (simp add: unat_of_nat)

lemma loop_word_div:
  assumes "j \<le> 11"
  shows "loop_word (Suc j) d div 2 ^ 59 = d div 32 ^ j"
proof -
  have e: "64 - 5 * Suc j = 59 - 5 * j" "60 - 5 * Suc j = 55 - 5 * j" by simp_all
  have "(2::nat) ^ (55 - 5 * j) < 2 ^ (59 - 5 * j)"
    using assms by (intro power_strict_increasing) auto
  then have "loop_word (Suc j) d div 2 ^ (59 - 5 * j) = d"
    by (simp add: loop_word_def e del: mult_Suc_right)
  moreover have "(2::nat) ^ 59 = 2 ^ (59 - 5 * j) * 32 ^ j"
  proof -
    have "(2::nat) ^ 59 = 2 ^ (59 - 5 * j + 5 * j)" using assms by (simp only: le_add_diff_inverse2)
    then show ?thesis by (simp only: power_add pow_32)
  qed
  ultimately show ?thesis by (simp only: div_mult2_eq)
qed

lemma loop_word_shift:
  assumes "j \<le> 11"
  shows "(push_bit 5 (of_nat (loop_word (Suc j) d)) :: u64) = of_nat (loop_word j (d mod 32 ^ j))"
proof -
  have e: "64 - 5 * Suc j = 59 - 5 * j" "60 - 5 * Suc j = 55 - 5 * j" by simp_all
  have p: "(2::nat) ^ (64 - 5 * j) = 32 * 2 ^ (59 - 5 * j)" "(2::nat) ^ (60 - 5 * j) = 32 * 2 ^ (55 - 5 * j)"
    using assms power_add [of "2::nat" 5 "59 - 5 * j"] power_add [of "2::nat" 5 "55 - 5 * j"]
    by (simp_all del: power_add)
  have "(2::nat) ^ 64 = 32 ^ j * 2 ^ (64 - 5 * j)" using assms
    by (simp only: pow_32 power_add [symmetric] le_add_diff_inverse)
  then have "loop_word (Suc j) d * 32 = d div 32 ^ j * 2 ^ 64 + loop_word j (d mod 32 ^ j)"
    unfolding loop_word_def e p by (simp only: shift_step [of d _ _ "32 ^ j"])
  then have "(of_nat (loop_word (Suc j) d * 32) :: u64) = of_nat (loop_word j (d mod 32 ^ j))"
    by (simp only: of_nat_high)
  then show ?thesis by (simp add: push_bit_eq_mult)
qed

lemma loop_word_not_stop: 
  assumes "j \<le> 11" and "d < 32 ^ Suc j"
  shows "(of_nat (loop_word (Suc j) d) :: u64) \<noteq> STOP_BIT"
proof
  assume "of_nat (loop_word (Suc j) d) = STOP_BIT"
  then have "loop_word (Suc j) d = unat STOP_BIT"
    using unat_loop_word [of "Suc j" d] assms by simp
  also have "unat STOP_BIT = 2 ^ 60" by (simp add: STOP_BIT_def)
  finally have eq: "d * 2 ^ (59 - 5 * j) + 2 ^ (55 - 5 * j) = 2 ^ 60"
    by (simp add: loop_word_def)
  have "59 - 5 * j + (1 + 5 * j) = 60" using assms(1) by simp
  then have "(2::nat) ^ 60 = 2 ^ (59 - 5 * j) * 2 ^ (1 + 5 * j)"
    by (metis power_add)
  then have "(d * 2 ^ (59 - 5 * j) + 2 ^ (55 - 5 * j)) mod 2 ^ (59 - 5 * j) = 0"
    by (simp only: eq mod_mult_self1_is_0)
  moreover have "(2::nat) ^ (55 - 5 * j) < 2 ^ (59 - 5 * j)"
    using assms(1) by (intro power_strict_increasing) auto
  ultimately show False by simp
qed

lemma id_digits_loop_digits:
  "j \<le> 12 \<Longrightarrow> d < 32 ^ j \<Longrightarrow>
     id_digits_loop (of_nat (loop_word j d)) buf = Some (buf @ b32_digits j d)"
proof (induction j arbitrary: d buf)
  case 0
  then show ?case using loop_word_0 by (subst id_digits_loop.simps) simp
next
  case (Suc j)
  then have j: "j \<le> 11" by simp
  have "unat (drop_bit 59 (of_nat (loop_word (Suc j) d)) :: u64) = d div 32 ^ j"
    by (simp only: unat_drop_bit_div unat_loop_word [OF Suc.prems] loop_word_div [OF j])
  moreover have "d div 32 ^ j < 32" using Suc.prems(2) by (simp add: less_mult_imp_div_less)
  ultimately have "base32_alphabet ! unat (drop_bit 59 (of_nat (loop_word (Suc j) d)) :: u64)
      = base32_char (of_nat (d div 32 ^ j))"
    by (simp only: base32_char_def unat_of_nat_u8)
  moreover have "d mod 32 ^ j < 32 ^ j" by simp
  ultimately show ?case
    using Suc.IH [of "d mod 32 ^ j"] j
    by (subst id_digits_loop.simps)
      (simp add: loop_word_not_stop [OF j Suc.prems(2)] loop_word_shift [OF j])
qed

section \<open>Properties of identifiers\<close>

lemma first_word:
  "(push_bit 4 n OR 1 :: u64) = of_nat (loop_word 12 (unat n mod 2 ^ 60))"
proof -
  have split: "unat n * 16 = unat n div 2 ^ 60 * 2 ^ 64 + unat n mod 2 ^ 60 * 16"
    using split_step [of "unat n" 16 "2 ^ 60"] by (simp only: power_60_16)
  have "push_bit 4 n OR 1 = n * 2 ^ 4 + 1" using push_bit_or_add [of 1 4 n] by simp
  also have "\<dots> = of_nat (unat n * 16 + 1)" by simp
  also have "unat n * 16 + 1 = unat n div 2 ^ 60 * 2 ^ 64 + loop_word 12 (unat n mod 2 ^ 60)"
    unfolding split by (simp add: loop_word_def)
  also have "of_nat \<dots> = (of_nat (loop_word 12 (unat n mod 2 ^ 60)) :: u64)"
    by (rule of_nat_high)
  finally show ?thesis .
qed

lemma u64_less: "unat (w :: u64) < 2 ^ 64" and u32_less: "unat (v :: u32) < 2 ^ 32"
  using unsigned_less [of w] unsigned_less [of v] by simp_all

lemma ucast_as_of_nat: "ucast w = of_nat (unat w)"
  by simp

lemma id_from_b32_digits: "unat n < 32 ^ j \<Longrightarrow> id_from_str (b32_digits j (unat n)) = Some n"
  using id_from_str_digits [of "unat n" j 0 "[]"] by (simp add: id_from_str_def)

lemma small_id_bound:
  assumes "drop_bit 60 n = 0" and "n \<noteq> (0 :: u64)"
  defines "m \<equiv> leading_zeros (push_bit 4 n OR 1) div 5"
  shows "unat n < 32 ^ (12 - m)" and "m \<le> 11"
proof -
  let ?n1 = "push_bit 4 n OR 1 :: u64"
  have n60: "unat n < 2 ^ 60" using assms(1) unat_drop_bit_div [of 60 n] by simp
  then have "unat n mod 2 ^ 60 = unat n" by simp
  then have n1: "unat ?n1 = unat n * 16 + 1"
    using first_word [of n] unat_loop_word [of 12 "unat n"] n60 by (simp add: loop_word_def)
  have pos: "unat n > 0" using assms(2) by (simp add: unat_gt_0)
  have lt: "unat n * 16 + 1 < 2 ^ (64 - leading_zeros ?n1)"
    using unat_less_leading_zeros [of ?n1] by (simp add: n1)
  show "m \<le> 11"
  proof (rule ccontr)
    assume "\<not> m \<le> 11"
    then have "64 - leading_zeros ?n1 \<le> 4" by (simp add: m_def)
    then have "(2::nat) ^ (64 - leading_zeros ?n1) \<le> 2 ^ 4" by (intro power_increasing) auto
    with lt pos show False by simp
  qed
  moreover have "leading_zeros ?n1 div 5 * 5 \<le> leading_zeros ?n1" by simp
  ultimately have le: "64 - leading_zeros ?n1 \<le> 4 + 5 * (12 - m)" by (simp add: m_def)
  then have "(2::nat) ^ (64 - leading_zeros ?n1) \<le> 2 ^ (4 + 5 * (12 - m))"
    by (intro power_increasing) auto
  with lt have "unat n * 16 + 1 < 2 ^ (4 + 5 * (12 - m))" by linarith
  then have "unat n * 16 + 1 < 16 * 32 ^ (12 - m)" by (simp only: power_add pow_32) simp
  then show "unat n < 32 ^ (12 - m)" by linarith
qed

lemma small_id_word:
  assumes "m \<le> 11" and "drop_bit 60 n = 0"
  shows "(push_bit (m * 5) (push_bit 4 n OR 1) :: u64) = of_nat (loop_word (12 - m) (unat n))"
proof -
  have e: "64 - 5 * (12 - m) = 4 + m * 5" "60 - 5 * (12 - m) = m * 5" using assms(1) by simp_all
  have "push_bit 4 n OR 1 = n * 2 ^ 4 + 1" using push_bit_or_add [of 1 4 n] by simp
  moreover have "loop_word (12 - m) (unat n) = (unat n * 2 ^ 4 + 1) * 2 ^ (m * 5)"
    unfolding loop_word_def e by (simp add: power_add algebra_simps)
  ultimately show ?thesis by (simp add: push_bit_eq_mult algebra_simps)
qed

lemma id_as_string_digits:
  assumes "n \<noteq> 0"
  shows "\<exists>j. unat n < 32 ^ j \<and> id_as_string n = Some (b32_digits j (unat n))"
proof (cases "drop_bit 60 n = 0")
  case True
  let ?m = "leading_zeros (push_bit 4 n OR 1 :: u64) div 5"
  note small = small_id_bound [OF True assms]
  have "id_as_string n = Some (b32_digits (12 - ?m) (unat n))"
    using True assms id_digits_loop_digits [of "12 - ?m" "unat n" "[]"] small
    by (simp add: id_as_string_def small_id_word Let_def del: push_bit_or)
  with small show ?thesis by blast
next
  case False
  have hi: "unat (drop_bit 60 n) = unat n div 32 ^ 12"
    unfolding unat_drop_bit_div by simp
  have "unat n div 32 ^ 12 < 32" using u64_less [of n] by (intro less_mult_imp_div_less) simp
  then have c: "base32_alphabet ! unat (drop_bit 60 n) = base32_char (of_nat (unat n div 32 ^ 12))"
    by (simp only: hi base32_char_def unat_of_nat_u8)
  have p: "(2::nat) ^ 60 = 32 ^ 12" by simp
  have "id_as_string n = Some (base32_char (of_nat (unat n div 32 ^ 12)) # b32_digits 12 (unat n mod 32 ^ 12))"
    using False assms id_digits_loop_digits [of 12 "unat n mod 32 ^ 12" "[base32_char (of_nat (unat n div 32 ^ 12))]"]
    by (simp only: id_as_string_def c first_word p) simp
  moreover have "unat n < 32 ^ Suc 12" using u64_less [of n] by simp
  ultimately show ?thesis by (intro exI [of _ "Suc 12"]) (simp only: b32_digits.simps(2))
qed

text \<open>
  C31: an object identifier survives its textual form: for every \<open>u64\<close> the printing loop
  reaches its stop bit (so \<open>as_string\<close> returns), and \<open>from_str\<close> reads the same number back.
\<close>

theorem id_string_roundtrip:
  "case id_as_string n of Some s \<Rightarrow> id_from_str s = Some n | None \<Rightarrow> False"
proof (cases "n = 0")
  case True
  have "b32_digits 1 0 = [base32_char 0]" by simp
  moreover have "base32_char 0 = CHR ''a''" by (simp add: base32_char_def base32_alphabet_def)
  moreover have "id_from_str (b32_digits 1 0) = Some 0"
    using id_from_b32_digits [of 0 1] by (simp only: unsigned_0) simp
  ultimately have "id_from_str ''a'' = Some 0" by (simp only:)
  with True show ?thesis by (simp add: id_as_string_def)
next
  case False
  from id_as_string_digits [OF this] id_from_b32_digits show ?thesis by fastforce
qed

lemma unat_id_from_parts: "unat (id_from_parts p d) = unat p * 2 ^ 32 + unat d"
proof -
  have b: "unat (ucast d :: u64) < 2 ^ 32" using u32_less [of d] by (simp add: unsigned_ucast_eq take_bit_nat_eq_self)
  have "unat p < 2 ^ 32" "unat d < 2 ^ 32" using u32_less [of p] u32_less [of d] by auto
  then have "unat p * 2 ^ 32 + unat d < 2 ^ 64" by simp
  moreover have "id_from_parts p d = of_nat (unat p * 2 ^ 32 + unat d)"
    unfolding id_from_parts_def using push_bit_or_add [OF b, of "ucast p"]
    by (simp only: ucast_as_of_nat of_nat_add of_nat_mult of_nat_power of_nat_numeral)
  ultimately show ?thesis by (simp only: unat_of_nat) simp
qed

text \<open>
  The prefix and the document number of an identifier are recovered from it, every
  identifier is built from its two halves, and identifiers are ordered by prefix, then document.
\<close>

theorem id_parts_roundtrip:
  "id_prefix_id (id_from_parts p d) = p \<and> id_document_id (id_from_parts p d) = d
   \<and> id_from_parts (id_prefix_id i) (id_document_id i) = i
   \<and> (id_from_parts p d < id_from_parts p' d' \<longleftrightarrow> p < p' \<or> p = p' \<and> d < d')"
proof -
  have lt: "unat d < 2 ^ 32" "unat d' < 2 ^ 32" using u32_less by auto
  have "id_from_parts p d < id_from_parts p' d' \<longleftrightarrow> unat p < unat p' \<or> unat p = unat p' \<and> unat d < unat d'"
    unfolding word_less_nat_alt unat_id_from_parts using lt by auto
  then have "id_from_parts p d < id_from_parts p' d' \<longleftrightarrow> p < p' \<or> p = p' \<and> d < d'"
    by (simp only: word_less_nat_alt word_unat_eq_iff)
  moreover have "id_prefix_id (id_from_parts p d) = p" "id_document_id (id_from_parts p d) = d"
    "id_from_parts (id_prefix_id i) (id_document_id i) = i"
    unfolding id_prefix_id_def id_from_parts_def id_document_id_def
    by (rule bit_word_eqI; auto simp: bit_simps dest: bit_imp_le_length)+
  ultimately show ?thesis by simp
qed

end
