(* ===== verification/Change_Log.thy ===== *)
theory Change_Log
  imports Vec_Map Leb128 Store_Keys Data_Types Ids
begin

text \<open>
  The change log: \<^verbatim>\<open>crates/store/src/write/log.rs\<close> collects the changes of a batch and
  serializes one entry per collection; \<^verbatim>\<open>crates/store/src/query/log.rs\<close> reads a range
  of entries and folds them into the list of changes that JMAP, IMAP and DAV clients are
  told about.

  A hash set is a set; the entry lists its elements in the iteration order of the hash
  table, which is the record \<open>change_order\<close>, related to the sets by \<open>lists_changes\<close>.
\<close>

section \<open>Collecting the changes of a batch\<close>

record write_changes =
  item_inserts :: "u64 set"
  item_updates :: "u64 set"
  item_deletes :: "u64 set"
  container_inserts :: "u32 set"
  container_updates :: "u32 set"
  container_deletes :: "u32 set"
  container_property_changes :: "u32 set"

datatype vanished_item =
    VName string
  | VId u64
  | VIdPair u32 u32

record change_log_builder =
  cl_changes :: "(sync_collection, write_changes) vec_map"
  cl_vanished :: "(vanished_collection, vanished_item list) vec_map"

definition write_changes_default :: write_changes where
  "write_changes_default =
     \<lparr>item_inserts = {}, item_updates = {}, item_deletes = {}, container_inserts = {},
      container_updates = {}, container_deletes = {}, container_property_changes = {}\<rparr>"

definition change_log_builder_default :: change_log_builder where
  "change_log_builder_default = \<lparr>cl_changes = vm_new, cl_vanished = vm_new\<rparr>"

definition build_id :: "u32 option \<Rightarrow> u32 \<Rightarrow> u64" where
  "build_id prefix document_id =
     (case prefix of
        Some p \<Rightarrow> push_bit 32 (ucast p) OR ucast document_id
      | None \<Rightarrow> ucast document_id)"

definition get_changes :: "change_log_builder \<Rightarrow> sync_collection \<Rightarrow> (write_changes \<Rightarrow> write_changes) \<Rightarrow> change_log_builder" where
  "get_changes b coll f =
     b\<lparr>cl_changes := vm_get_mut_or_insert_with (cl_changes b) coll write_changes_default f\<rparr>"

definition log_container_insert :: "change_log_builder \<Rightarrow> sync_collection \<Rightarrow> u32 \<Rightarrow> change_log_builder" where
  "log_container_insert b coll i =
     get_changes b coll (\<lambda>c.
       if i \<in> container_deletes c
       then c\<lparr>container_deletes := container_deletes c - {i}, container_updates := insert i (container_updates c)\<rparr>
       else c\<lparr>container_inserts := insert i (container_inserts c)\<rparr>)"

definition log_item_insert :: "change_log_builder \<Rightarrow> sync_collection \<Rightarrow> u32 option \<Rightarrow> u32 \<Rightarrow> change_log_builder" where
  "log_item_insert b coll prefix document_id =
     (let i = build_id prefix document_id
      in get_changes b coll (\<lambda>c.
           if i \<in> item_deletes c
           then c\<lparr>item_deletes := item_deletes c - {i}, item_updates := insert i (item_updates c)\<rparr>
           else c\<lparr>item_inserts := insert i (item_inserts c)\<rparr>))"

definition log_container_update :: "change_log_builder \<Rightarrow> sync_collection \<Rightarrow> u32 \<Rightarrow> change_log_builder" where
  "log_container_update b coll i =
     get_changes b coll (\<lambda>c. c\<lparr>container_updates := insert i (container_updates c)\<rparr>)"

definition log_container_property_update :: "change_log_builder \<Rightarrow> sync_collection \<Rightarrow> u32 \<Rightarrow> change_log_builder" where
  "log_container_property_update b coll i =
     get_changes b coll (\<lambda>c. c\<lparr>container_property_changes := insert i (container_property_changes c)\<rparr>)"

definition log_item_update :: "change_log_builder \<Rightarrow> sync_collection \<Rightarrow> u32 option \<Rightarrow> u32 \<Rightarrow> change_log_builder" where
  "log_item_update b coll prefix document_id =
     get_changes b coll (\<lambda>c. c\<lparr>item_updates := insert (build_id prefix document_id) (item_updates c)\<rparr>)"

definition log_container_delete :: "change_log_builder \<Rightarrow> sync_collection \<Rightarrow> u32 \<Rightarrow> change_log_builder" where
  "log_container_delete b coll i =
     get_changes b coll (\<lambda>c.
       c\<lparr>container_updates := container_updates c - {i},
         container_property_changes := container_property_changes c - {i},
         container_deletes := insert i (container_deletes c)\<rparr>)"

definition log_item_delete :: "change_log_builder \<Rightarrow> sync_collection \<Rightarrow> u32 option \<Rightarrow> u32 \<Rightarrow> change_log_builder" where
  "log_item_delete b coll prefix document_id =
     (let i = build_id prefix document_id
      in get_changes b coll (\<lambda>c.
           c\<lparr>item_updates := item_updates c - {i}, item_deletes := insert i (item_deletes c)\<rparr>))"

definition log_vanished_item :: "change_log_builder \<Rightarrow> vanished_collection \<Rightarrow> vanished_item \<Rightarrow> change_log_builder" where
  "log_vanished_item b coll item =
     b\<lparr>cl_vanished := vm_get_mut_or_insert_with (cl_vanished b) coll [] (\<lambda>items. items @ [item])\<rparr>"

definition has_container_changes :: "write_changes \<Rightarrow> bool" where
  "has_container_changes c \<longleftrightarrow>
     container_inserts c \<noteq> {} \<or> container_updates c \<noteq> {} \<or> container_property_changes c \<noteq> {}
     \<or> container_deletes c \<noteq> {}"

definition has_item_changes :: "write_changes \<Rightarrow> bool" where
  "has_item_changes c \<longleftrightarrow> item_inserts c \<noteq> {} \<or> item_updates c \<noteq> {} \<or> item_deletes c \<noteq> {}"

section \<open>Serializing an entry\<close>

record change_order =
  ci_list :: "u32 list"
  cu_list :: "u32 list"
  cp_list :: "u32 list"
  cd_list :: "u32 list"
  ii_list :: "u64 list"
  iu_list :: "u64 list"
  id_list :: "u64 list"

definition enumerates :: "'a list \<Rightarrow> 'a set \<Rightarrow> bool" where
  "enumerates xs S \<longleftrightarrow> distinct xs \<and> set xs = S"

definition lists_changes :: "change_order \<Rightarrow> write_changes \<Rightarrow> bool" where
  "lists_changes L c \<longleftrightarrow>
     enumerates (ci_list L) (container_inserts c) \<and> enumerates (cu_list L) (container_updates c)
     \<and> enumerates (cp_list L) (container_property_changes c) \<and> enumerates (cd_list L) (container_deletes c)
     \<and> enumerates (ii_list L) (item_inserts c) \<and> enumerates (iu_list L) (item_updates c)
     \<and> enumerates (id_list L) (item_deletes c)"

definition push_len :: "u8 list \<Rightarrow> 'a list \<Rightarrow> u8 list" where
  "push_len buf xs = push_leb128 buf (of_nat (length xs) :: usize)"

definition push_all :: "u8 list \<Rightarrow> 'a::len word list \<Rightarrow> u8 list" where
  "push_all buf ids = foldl push_leb128 buf ids"

definition changes_serialize :: "change_order \<Rightarrow> u8 list" where
  "changes_serialize L =
     (let buf = push_len [] (ci_list L);
          buf = push_len buf (cu_list L);
          buf = push_len buf (cp_list L);
          buf = push_len buf (cd_list L);
          buf = push_len buf (ii_list L);
          buf = push_len buf (iu_list L);
          buf = push_len buf (id_list L);
          buf = foldl push_all buf [ci_list L, cu_list L, cp_list L, cd_list L]
      in foldl push_all buf [ii_list L, iu_list L, id_list L])"

section \<open>Vanished items\<close>

definition vanished_from_string :: "string \<Rightarrow> vanished_item" where
  "vanished_from_string value = VName value"

definition vanished_from_u64 :: "u64 \<Rightarrow> vanished_item" where
  "vanished_from_u64 value = VId value"

definition vanished_from_pair :: "u32 \<times> u32 \<Rightarrow> vanished_item" where
  "vanished_from_pair value = VId (push_bit 32 (ucast (fst value)) OR ucast (snd value))"

fun vanished_serialized_size :: "vanished_item \<Rightarrow> nat" where
  "vanished_serialized_size (VName name) = length name + 1"
| "vanished_serialized_size (VId _) = 8"
| "vanished_serialized_size (VIdPair _ _) = 8"

abbreviation byte_of :: "char \<Rightarrow> u8" where
  "byte_of c \<equiv> of_nat (code c)"

fun vanished_write :: "key_serializer \<Rightarrow> vanished_item \<Rightarrow> key_serializer" where
  "vanished_write buf (VName name) = key_write_u8 (key_write_bytes buf (map byte_of name)) 0"
| "vanished_write buf (VId i) = key_write_bytes buf (be_bytes 8 (unat i))"
| "vanished_write buf (VIdPair a b) =
     key_write_bytes (key_write_bytes buf (be_bytes 4 (unat a))) (be_bytes 4 (unat b))"

definition vanished_serialize :: "vanished_item list \<Rightarrow> u8 list" where
  "vanished_serialize items = key_finalize (foldl vanished_write key_new items)"

section \<open>Reading the log\<close>

datatype change =
    InsertContainer u64
  | UpdateContainer u64
  | UpdateContainerProperty u64
  | DeleteContainer u64
  | InsertItem u64
  | UpdateItem u64
  | DeleteItem u64

record read_changes =
  changes :: "change list"
  from_change_id :: u64
  to_change_id :: u64
  container_change_id :: "u64 option"
  item_change_id :: "u64 option"
  is_truncated :: bool

definition read_changes_default :: read_changes where
  "read_changes_default =
     \<lparr>changes = [], from_change_id = 0, to_change_id = 0, container_change_id = None,
      item_change_id = None, is_truncated = False\<rparr>"

datatype log_query =
    All
  | Since u64
  | SinceInclusive u64
  | RangeInclusive u64 u64

text \<open>The first change in the list that the \<open>match\<close> of a scan accepts, with its position.\<close>

fun scan :: "(change \<Rightarrow> bool) \<Rightarrow> change list \<Rightarrow> nat \<Rightarrow> (nat \<times> change) option" where
  "scan accept [] idx = None"
| "scan accept (ch # chs) idx = (if accept ch then Some (idx, ch) else scan accept chs (Suc idx))"

text \<open>The bodies of the seven loops of \<open>deserialize\<close>.\<close>

definition insert_container :: "change list \<Rightarrow> u64 \<Rightarrow> change list" where
  "insert_container chs i = chs @ [InsertContainer i]"

definition update_container :: "usize \<Rightarrow> nat \<times> change list \<Rightarrow> u64 \<Rightarrow> nat \<times> change list" where
  "update_container updates = (\<lambda>(change_pos, chs) i.
     (Suc change_pos,
      let is_property_change = (change_pos \<ge> unat updates)
      in case scan (\<lambda>ch. ch \<in> {InsertContainer i, UpdateContainer i, UpdateContainerProperty i}) chs 0 of
           Some (_, InsertContainer _) \<Rightarrow> chs
         | Some (idx, UpdateContainer _) \<Rightarrow> vec_remove chs idx @ [UpdateContainer i]
         | Some (idx, UpdateContainerProperty _) \<Rightarrow>
             vec_remove chs idx @ [if \<not> is_property_change then UpdateContainer i else UpdateContainerProperty i]
         | _ \<Rightarrow> chs @ [if \<not> is_property_change then UpdateContainer i else UpdateContainerProperty i]))"

definition delete_container :: "change list \<Rightarrow> u64 \<Rightarrow> change list" where
  "delete_container chs i =
     (case scan (\<lambda>ch. ch \<in> {InsertContainer i, UpdateContainer i}) chs 0 of
        Some (idx, InsertContainer _) \<Rightarrow> vec_remove chs idx
      | Some (idx, UpdateContainer _) \<Rightarrow> vec_remove chs idx @ [DeleteContainer i]
      | _ \<Rightarrow> chs @ [DeleteContainer i])"

definition insert_item :: "change list \<Rightarrow> u64 \<Rightarrow> change list" where
  "insert_item chs i = chs @ [InsertItem i]"

definition update_item :: "change list \<Rightarrow> u64 \<Rightarrow> change list" where
  "update_item chs i =
     (case scan (\<lambda>ch. ch \<in> {InsertItem i, UpdateItem i}) chs 0 of
        Some (_, InsertItem _) \<Rightarrow> chs
      | Some (idx, UpdateItem _) \<Rightarrow> vec_remove chs idx @ [UpdateItem i]
      | _ \<Rightarrow> chs @ [UpdateItem i])"

definition delete_item :: "change list \<Rightarrow> u64 \<Rightarrow> change list" where
  "delete_item chs i =
     (case scan (\<lambda>ch. ch \<in> {InsertItem i, UpdateItem i}) chs 0 of
        Some (idx, InsertItem _) \<Rightarrow> vec_remove chs idx
      | Some (idx, UpdateItem _) \<Rightarrow> vec_remove chs idx @ [DeleteItem i]
      | _ \<Rightarrow> chs @ [DeleteItem i])"

text \<open>\<open>bytes_it.next_leb128()?\<close>\<close>

definition take_leb128 :: "u8 list \<Rightarrow> (u64 \<times> u8 list) option" where
  "take_leb128 it = (case next_leb128 it of (Some v, it') \<Rightarrow> Some (v, it') | (None, _) \<Rightarrow> None)"

text \<open>
  \<open>deserialize\<close>. The counts are \<open>usize\<close>s and their sums wrap, as in a release build
  (a debug build panics on a corrupted entry whose counts overflow). Each pass of a loop
  reads at least one byte, so a count larger than the entry ends in \<^term>\<open>None\<close>. Where
  the code tests a count for zero before its loop, the loop of length zero does nothing. What the
  iterator has left at the end, which the code drops, is returned too.
\<close>

definition deserialize_entry :: "change list \<Rightarrow> u8 list \<Rightarrow> ((change list \<times> bool \<times> bool) \<times> u8 list) option" where
  "deserialize_entry chs bytes = do {
     (container_ins, it) \<leftarrow> take_leb128 bytes;
     (container_upd, it) \<leftarrow> take_leb128 it;
     (container_prop, it) \<leftarrow> take_leb128 it;
     (container_del, it) \<leftarrow> take_leb128 it;
     (item_ins, it) \<leftarrow> take_leb128 it;
     (item_upd, it) \<leftarrow> take_leb128 it;
     (item_del, it) \<leftarrow> take_leb128 it;
     (chs, it) \<leftarrow> for_each next_leb128 (unat container_ins) it insert_container chs;
     ((_, chs), it) \<leftarrow>
       (if container_upd > 0 \<or> container_prop > 0
        then for_each next_leb128 (unat (container_upd + container_prop)) it
               (update_container container_upd) (0, chs)
        else Some ((0, chs), it));
     (chs, it) \<leftarrow> for_each next_leb128 (unat container_del) it delete_container chs;
     (chs, it) \<leftarrow> for_each next_leb128 (unat item_ins) it insert_item chs;
     (chs, it) \<leftarrow> for_each next_leb128 (unat item_upd) it update_item chs;
     (chs, it) \<leftarrow> for_each next_leb128 (unat item_del) it delete_item chs;
     Some ((chs, container_ins + container_upd + container_prop + container_del > 0,
           item_ins + item_upd + item_del > 0), it)
   }"

definition changes_deserialize :: "change list \<Rightarrow> u8 list \<Rightarrow> (change list \<times> bool \<times> bool) option" where
  "changes_deserialize chs bytes = map_option fst (deserialize_entry chs bytes)"

section \<open>Reading a range of entries\<close>

datatype log_collection =
    Sync sync_collection
  | Vanished vanished_collection

fun log_collection_u8 :: "log_collection \<Rightarrow> u8" where
  "log_collection_u8 (Sync col) = of_nat (sync_number col)"
| "log_collection_u8 (Vanished col) = of_nat (vanished_number col)"

fun query_range :: "log_query \<Rightarrow> bool \<times> u64 \<times> u64" where
  "query_range All = (True, 0, - 1)"
| "query_range (Since change_id) = (False, change_id, - 1)"
| "query_range (SinceInclusive change_id) = (True, change_id, - 1)"
| "query_range (RangeInclusive from_id to_id) = (True, from_id, to_id)"

text \<open>
  A store is the list of its log entries in the order of their keys. \<open>iterate\<close> hands the
  entries between two keys, both included, to a callback; the first error ends it.
\<close>

type_synonym log_store = "(u8 list \<times> u8 list) list"

definition log_range :: "log_store \<Rightarrow> u32 \<Rightarrow> u8 \<Rightarrow> u64 \<Rightarrow> u64 \<Rightarrow> (u8 list \<times> u8 list) list" where
  "log_range store account coll from_id to_id =
     filter (\<lambda>(key, _).
         key_le (log_key_serialize \<lparr>lk_account_id = account, lk_collection = coll, lk_change_id = from_id\<rparr> 0) key
       \<and> key_le key (log_key_serialize \<lparr>lk_account_id = account, lk_collection = coll, lk_change_id = to_id\<rparr> 0))
       store"

fun iterate :: "('s \<Rightarrow> u8 list \<times> u8 list \<Rightarrow> 's option) \<Rightarrow> 's \<Rightarrow> (u8 list \<times> u8 list) list \<Rightarrow> 's option" where
  "iterate f s [] = Some s"
| "iterate f s (e # es) = (case f s e of None \<Rightarrow> None | Some s' \<Rightarrow> iterate f s' es)"

text \<open>The callback of \<open>Store::changes\<close>.\<close>

definition changes_entry :: "bool \<Rightarrow> bool \<Rightarrow> u64 \<Rightarrow> read_changes \<Rightarrow> u8 list \<times> u8 list \<Rightarrow> read_changes option" where
  "changes_entry is_share_log is_inclusive from_id log = (\<lambda>(key, value). do {
     change_id \<leftarrow> deserialize_be_u64 key (length key - 8);
     (if is_inclusive \<or> change_id \<noteq> from_id then
        (if value = [] then Some (log\<lparr>is_truncated := True\<rparr>)
         else
           (let log = (if changes log = [] then log\<lparr>from_change_id := change_id\<rparr> else log);
                log = log\<lparr>to_change_id := change_id\<rparr>
            in if \<not> is_share_log then
                 (case changes_deserialize (changes log) value of
                    None \<Rightarrow> None
                  | Some (chs, has_container, has_item) \<Rightarrow>
                      Some (log\<lparr>changes := chs,
                        container_change_id := (if has_container then Some change_id else container_change_id log),
                        item_change_id := (if has_item then Some change_id else item_change_id log)\<rparr>))
               else Some (log\<lparr>changes := changes log @ [InsertItem change_id]\<rparr>)))
      else Some (log\<lparr>from_change_id := change_id, to_change_id := change_id\<rparr>))
   })"

definition store_changes :: "log_store \<Rightarrow> u32 \<Rightarrow> log_collection \<Rightarrow> log_query \<Rightarrow> read_changes option" where
  "store_changes store account coll query =
     (case query_range query of
        (is_inclusive, from_id, to_id) \<Rightarrow>
          iterate (changes_entry (coll = Sync sync_collection.ShareNotification) is_inclusive from_id)
            read_changes_default (log_range store account (log_collection_u8 coll) from_id to_id))"

text \<open>
  \<open>vanished\<close>, for each of the three item types. The names are read as bytes and must be
  valid UTF-8.
\<close>

fun next_bytes :: "nat \<Rightarrow> u8 list \<Rightarrow> (u8 list \<times> u8 list) option" where
  "next_bytes 0 it = Some ([], it)"
| "next_bytes (Suc n) [] = None"
| "next_bytes (Suc n) (b # it) = map_option (\<lambda>(bs, it'). (b # bs, it')) (next_bytes n it)"

definition vanished_u64 :: "u8 list \<Rightarrow> (u64 \<times> u8 list) option" where
  "vanished_u64 it = map_option (\<lambda>(bs, it'). (of_nat (be_value bs), it')) (next_bytes 8 it)"

definition vanished_pair :: "u8 list \<Rightarrow> ((u32 \<times> u32) \<times> u8 list) option" where
  "vanished_pair it = do {
     (num1, it) \<leftarrow> next_bytes 4 it;
     (num2, it) \<leftarrow> next_bytes 4 it;
     Some ((of_nat (be_value num1), of_nat (be_value num2)), it)
   }"

fun vanished_name_loop :: "string \<Rightarrow> u8 list \<Rightarrow> (string \<times> u8 list) option" where
  "vanished_name_loop name [] = None"
| "vanished_name_loop name (b # it) =
     (if b \<noteq> 0 then vanished_name_loop (name @ [char_of (unat b)]) it else Some (name, it))"

definition vanished_string :: "u8 list \<Rightarrow> (string \<times> u8 list) option" where
  "vanished_string it =
     Option.bind (vanished_name_loop [] it) (\<lambda>(name, it). if utf8_valid name then Some (name, it) else None)"

text \<open>The \<open>while iter.peek().is_some()\<close> loop over one entry; a reader that takes no byte
  would not end, and is \<^term>\<open>None\<close> by the fuel (the length of the entry).\<close>

fun vanished_items :: "(u8 list \<Rightarrow> ('a \<times> u8 list) option) \<Rightarrow> nat \<Rightarrow> u8 list \<Rightarrow> 'a list \<Rightarrow> 'a list option" where
  "vanished_items read fuel [] acc = Some acc"
| "vanished_items read 0 (b # it) acc = None"
| "vanished_items read (Suc fuel) (b # it) acc =
     (case read (b # it) of
        None \<Rightarrow> None
      | Some (item, it') \<Rightarrow> vanished_items read fuel it' (acc @ [item]))"

definition store_vanished ::
  "(u8 list \<Rightarrow> ('a \<times> u8 list) option) \<Rightarrow> log_store \<Rightarrow> u32 \<Rightarrow> log_collection \<Rightarrow> log_query \<Rightarrow> 'a list option" where
  "store_vanished read store account coll query =
     (case query_range query of
        (is_inclusive, from_id, to_id) \<Rightarrow>
          iterate (\<lambda>acc (key, value). do {
              change_id \<leftarrow> deserialize_be_u64 key (length key - 8);
              (if is_inclusive \<or> change_id \<noteq> from_id
               then vanished_items read (length value) value acc else Some acc)
            })
            [] (log_range store account (log_collection_u8 coll) from_id to_id))"

text \<open>\<open>get_last_change_id\<close>: a descending iteration that stops at its first key.\<close>

definition get_last_change_id :: "log_store \<Rightarrow> u32 \<Rightarrow> log_collection \<Rightarrow> u64 option option" where
  "get_last_change_id store account coll =
     (case rev (log_range store account (log_collection_u8 coll) 0 (- 1)) of
        [] \<Rightarrow> Some None
      | (key, _) # _ \<Rightarrow> map_option Some (deserialize_be_u64 key (length key - 8)))"

section \<open>Accessors of changes\<close>

fun item_id :: "change \<Rightarrow> u64 option" where
  "item_id (InsertItem i) = Some i"
| "item_id (UpdateItem i) = Some i"
| "item_id (DeleteItem i) = Some i"
| "item_id _ = None"

fun container_id :: "change \<Rightarrow> u64 option" where
  "container_id (InsertContainer i) = Some i"
| "container_id (UpdateContainer i) = Some i"
| "container_id (UpdateContainerProperty i) = Some i"
| "container_id (DeleteContainer i) = Some i"
| "container_id _ = None"

fun try_unwrap_item_id :: "change \<Rightarrow> u64 option" where
  "try_unwrap_item_id (InsertItem i) = Some i"
| "try_unwrap_item_id (UpdateItem i) = Some i"
| "try_unwrap_item_id (DeleteItem i) = Some i"
| "try_unwrap_item_id _ = None"

fun try_unwrap_container_id :: "change \<Rightarrow> u64 option" where
  "try_unwrap_container_id (InsertContainer i) = Some i"
| "try_unwrap_container_id (UpdateContainer i) = Some i"
| "try_unwrap_container_id (UpdateContainerProperty i) = Some i"
| "try_unwrap_container_id (DeleteContainer i) = Some i"
| "try_unwrap_container_id _ = None"

fun is_container_change :: "change \<Rightarrow> bool" where
  "is_container_change (InsertContainer _) = True"
| "is_container_change (UpdateContainer _) = True"
| "is_container_change (UpdateContainerProperty _) = True"
| "is_container_change (DeleteContainer _) = True"
| "is_container_change _ = False"

fun is_item_change :: "change \<Rightarrow> bool" where
  "is_item_change (InsertItem _) = True"
| "is_item_change (UpdateItem _) = True"
| "is_item_change (DeleteItem _) = True"
| "is_item_change _ = False"

definition total_container_changes :: "read_changes \<Rightarrow> nat" where
  "total_container_changes log = length (filter is_container_change (changes log))"

definition total_item_changes :: "read_changes \<Rightarrow> nat" where
  "total_item_changes log = length (filter is_item_change (changes log))"

section \<open>Decoding an entry\<close>

text \<open>
  What reading a serialized entry does to the list of changes, with the byte layer gone:
  the updates carry their position, which tells property changes from other updates.
\<close>

definition apply_entry :: "change_order \<Rightarrow> change list \<Rightarrow> change list" where
  "apply_entry L chs =
     (let chs = foldl insert_container chs (map ucast (ci_list L));
          chs = snd (foldl (update_container (of_nat (length (cu_list L)))) (0, chs) (map ucast (cu_list L @ cp_list L)));
          chs = foldl delete_container chs (map ucast (cd_list L));
          chs = foldl insert_item chs (ii_list L);
          chs = foldl update_item chs (iu_list L)
      in foldl delete_item chs (id_list L))"

definition entry_bounded :: "change_order \<Rightarrow> bool" where
  "entry_bounded L \<longleftrightarrow>
     length (ci_list L) + length (cu_list L) + length (cp_list L) + length (cd_list L) < 2 ^ 64
     \<and> length (ii_list L) + length (iu_list L) + length (id_list L) < 2 ^ 64"

lemma push_all_eq: "push_all buf ids = buf @ concat (map to_leb128_bytes ids)"
  by (induction ids arbitrary: buf) (simp_all add: push_all_def push_leb128_def)

abbreviation len_bytes :: "'a list \<Rightarrow> u8 list" where
  "len_bytes xs \<equiv> to_leb128_bytes (of_nat (length xs) :: usize)"

lemma changes_serialize_eq:
  "changes_serialize L =
     len_bytes (ci_list L) @ len_bytes (cu_list L) @ len_bytes (cp_list L) @ len_bytes (cd_list L)
     @ len_bytes (ii_list L) @ len_bytes (iu_list L) @ len_bytes (id_list L)
     @ concat (map to_leb128_bytes (ci_list L)) @ concat (map to_leb128_bytes (cu_list L @ cp_list L))
     @ concat (map to_leb128_bytes (cd_list L)) @ concat (map to_leb128_bytes (ii_list L))
     @ concat (map to_leb128_bytes (iu_list L)) @ concat (map to_leb128_bytes (id_list L))"
  by (simp add: changes_serialize_def push_len_def push_leb128_def push_all_eq)

lemma take_leb128_len: "take_leb128 (len_bytes xs @ rest) = Some (of_nat (length xs), rest)"
  by (simp add: take_leb128_def leb_u64.dec_enc)

lemma unat_len: "n < 2 ^ 64 \<Longrightarrow> unat (of_nat n :: u64) = n"
  by (simp only: unat_of_nat) simp

lemma of_nat_pos_iff: "n < 2 ^ 64 \<Longrightarrow> (of_nat n :: u64) > 0 \<longleftrightarrow> n > 0"
  by (simp only: word_less_nat_alt unat_len unsigned_0)

lemma deserialize_entry_serialize:
  assumes "entry_bounded L"
  shows "deserialize_entry chs (changes_serialize L @ rest) = Some ((apply_entry L chs,
     ci_list L \<noteq> [] \<or> cu_list L \<noteq> [] \<or> cp_list L \<noteq> [] \<or> cd_list L \<noteq> [],
     ii_list L \<noteq> [] \<or> iu_list L \<noteq> [] \<or> id_list L \<noteq> []), rest)"
proof -
  have len: "unat (of_nat (length (ci_list L)) :: u64) = length (ci_list L)"
    "unat (of_nat (length (cd_list L)) :: u64) = length (cd_list L)"
    "unat (of_nat (length (ii_list L)) :: u64) = length (ii_list L)"
    "unat (of_nat (length (iu_list L)) :: u64) = length (iu_list L)"
    "unat (of_nat (length (id_list L)) :: u64) = length (id_list L)"
    "unat (of_nat (length (cu_list L @ cp_list L)) :: u64) = length (cu_list L @ cp_list L)"
    using assms by (auto simp only: entry_bounded_def length_append intro!: unat_len)
  have sum: "(of_nat (length (cu_list L)) + of_nat (length (cp_list L)) :: u64) = of_nat (length (cu_list L @ cp_list L))"
    by simp
  have guard: "(of_nat (length (cu_list L)) > (0::u64) \<or> of_nat (length (cp_list L)) > (0::u64)) \<longleftrightarrow> cu_list L @ cp_list L \<noteq> []"
    using assms by (auto simp only: entry_bounded_def of_nat_pos_iff append_is_Nil_conv length_greater_0_conv)
  have upd: "(if of_nat (length (cu_list L)) > (0::u64) \<or> of_nat (length (cp_list L)) > (0::u64)
      then Some (foldl f s (map ucast (cu_list L @ cp_list L)), rest)
      else Some (s, concat (map to_leb128_bytes (cu_list L @ cp_list L)) @ rest))
    = Some (foldl f s (map ucast (cu_list L @ cp_list L)), rest)" for f s rest
    unfolding guard by (cases "cu_list L @ cp_list L") auto
  have flags: "of_nat (length (ci_list L)) + of_nat (length (cu_list L)) + of_nat (length (cp_list L)) + of_nat (length (cd_list L)) > (0::u64)
       \<longleftrightarrow> ci_list L \<noteq> [] \<or> cu_list L \<noteq> [] \<or> cp_list L \<noteq> [] \<or> cd_list L \<noteq> []"
    "of_nat (length (ii_list L)) + of_nat (length (iu_list L)) + of_nat (length (id_list L)) > (0::u64)
       \<longleftrightarrow> ii_list L \<noteq> [] \<or> iu_list L \<noteq> [] \<or> id_list L \<noteq> []"
    using assms by (simp_all only: entry_bounded_def of_nat_add [symmetric] of_nat_pos_iff) auto
  show ?thesis
    unfolding deserialize_entry_def changes_serialize_eq append_assoc
    by (simp only: take_leb128_len bind.bind_lunit prod.case len sum upd leb_u32_u64.for_each_enc
        leb_u64.for_each_enc flags list.map_id apply_entry_def Let_def split_beta fst_conv snd_conv)
qed

lemma changes_deserialize_serialize:
  "entry_bounded L \<Longrightarrow> changes_deserialize chs (changes_serialize L) = Some (apply_entry L chs,
     ci_list L \<noteq> [] \<or> cu_list L \<noteq> [] \<or> cp_list L \<noteq> [] \<or> cd_list L \<noteq> [],
     ii_list L \<noteq> [] \<or> iu_list L \<noteq> [] \<or> id_list L \<noteq> [])"
  using deserialize_entry_serialize [of L chs "[]"] by (simp add: changes_deserialize_def)

section \<open>Each identifier by itself\<close>

text \<open>The scans in terms of the list library.\<close>

lemma scan_find:
  "scan accept chs k = None \<longleftrightarrow> find accept chs = None"
  "scan accept chs k = Some (idx, c) \<Longrightarrow>
     find accept chs = Some c \<and> k \<le> idx \<and> vec_remove chs (idx - k) = remove1 c chs"
proof -
  show "scan accept chs k = None \<longleftrightarrow> find accept chs = None"
    by (induction accept chs k rule: scan.induct) auto
  show "scan accept chs k = Some (idx, c) \<Longrightarrow>
     find accept chs = Some c \<and> k \<le> idx \<and> vec_remove chs (idx - k) = remove1 c chs"
  proof (induction accept chs k rule: scan.induct)
    case (2 accept ch chs k)
    show ?case
    proof (cases "accept ch")
      case True
      with 2 show ?thesis by (simp add: vec_remove_def)
    next
      case False
      with 2 have IH: "find accept chs = Some c" "Suc k \<le> idx" "vec_remove chs (idx - Suc k) = remove1 c chs" by auto
      then have "accept c" by (simp add: find_Some_iff) blast
      with False have "c \<noteq> ch" by blast
      moreover have "idx - k = Suc (idx - Suc k)" using IH(2) by simp
      ultimately show ?thesis using False IH by (simp add: vec_remove_def)
    qed
  qed simp
qed

text \<open>The first insertion or update of an item in the list.\<close>

definition touched :: "u64 \<Rightarrow> change list \<Rightarrow> change option" where
  "touched i chs = find (\<lambda>ch. ch \<in> {InsertItem i, UpdateItem i}) chs"

lemma touched_cases:
  obtains (none) "touched i chs = None" | (ins) "touched i chs = Some (InsertItem i)"
    | (upd) "touched i chs = Some (UpdateItem i)"
proof (cases "touched i chs")
  case (Some c)
  then have "c \<in> {InsertItem i, UpdateItem i}" by (simp add: touched_def find_Some_iff) blast
  with Some ins upd show ?thesis by blast
qed (rule none)

lemma scan_eqs:
  "find accept chs = None \<Longrightarrow> scan accept chs 0 = None"
  "find accept chs = Some c \<Longrightarrow> \<exists>idx. scan accept chs 0 = Some (idx, c) \<and> vec_remove chs idx = remove1 c chs"
proof -
  show "find accept chs = None \<Longrightarrow> scan accept chs 0 = None" by (simp only: scan_find(1))
  assume found: "find accept chs = Some c"
  then obtain idx c' where p: "scan accept chs 0 = Some (idx, c')"
    by (cases "scan accept chs 0") (simp_all only: scan_find(1), auto)
  from scan_find(2) [OF p] found p
  show "\<exists>idx. scan accept chs 0 = Some (idx, c) \<and> vec_remove chs idx = remove1 c chs" by simp
qed

lemmas scan_touched = scan_eqs [of "\<lambda>ch. ch \<in> {InsertItem i, UpdateItem i}" for i, folded touched_def]

lemma update_item_eqs:
  "touched i chs = None \<Longrightarrow> update_item chs i = chs @ [UpdateItem i]"
  "touched i chs = Some (InsertItem i) \<Longrightarrow> update_item chs i = chs"
  "touched i chs = Some (UpdateItem i) \<Longrightarrow> update_item chs i = remove1 (UpdateItem i) chs @ [UpdateItem i]"
  by (auto simp: update_item_def dest!: scan_touched)

lemma delete_item_eqs:
  "touched i chs = None \<Longrightarrow> delete_item chs i = chs @ [DeleteItem i]"
  "touched i chs = Some (InsertItem i) \<Longrightarrow> delete_item chs i = remove1 (InsertItem i) chs"
  "touched i chs = Some (UpdateItem i) \<Longrightarrow> delete_item chs i = remove1 (UpdateItem i) chs @ [DeleteItem i]"
  by (auto simp: delete_item_def dest!: scan_touched)

definition item_view :: "u64 \<Rightarrow> change list \<Rightarrow> change list" where
  "item_view i chs = filter (\<lambda>c. item_id c = Some i) chs"

lemma item_view_append: "item_view i (xs @ ys) = item_view i xs @ item_view i ys"
  by (simp add: item_view_def)

lemma item_view_remove1: "item_view i (remove1 c chs) = (if item_id c = Some i then remove1 c (item_view i chs) else item_view i chs)"
  by (auto simp: item_view_def filter_remove1 intro: remove1_idem)

lemma touched_view: "touched i (item_view i chs) = touched i chs"
  unfolding touched_def by (induction chs) (auto simp: item_view_def)

lemma item_view_simps [simp]:
  "item_view i [InsertItem j] = (if j = i then [InsertItem j] else [])"
  "item_view i [UpdateItem j] = (if j = i then [UpdateItem j] else [])"
  "item_view i [DeleteItem j] = (if j = i then [DeleteItem j] else [])"
  by (simp_all add: item_view_def)

text \<open>An operation on an item acts on the item's own changes and on no other.\<close>

lemma item_view_insert: "item_view i (insert_item chs j) = (if j = i then insert_item (item_view i chs) i else item_view i chs)"
  by (simp add: insert_item_def item_view_append)

lemma item_view_update: "item_view i (update_item chs j) = (if j = i then update_item (item_view i chs) i else item_view i chs)"
  by (cases j chs rule: touched_cases)
    (auto simp: update_item_eqs item_view_append item_view_remove1 touched_view)

lemma item_view_delete: "item_view i (delete_item chs j) = (if j = i then delete_item (item_view i chs) i else item_view i chs)"
  by (cases j chs rule: touched_cases)
    (auto simp: delete_item_eqs item_view_append item_view_remove1 touched_view)

lemma foldl_view:
  assumes step: "\<And>chs j. view (f chs j) = (if j = i then g (view chs) else view chs)" and "distinct js"
  shows "view (foldl f chs js) = (if i \<in> set js then g (view chs) else view chs)"
  using assms(2)
proof (induction js arbitrary: chs)
  case (Cons j js)
  then show ?case by (cases "j = i") (auto simp: step)
qed simp

text \<open>Container operations leave the items alone.\<close>

lemma item_view_container:
  "item_view i (insert_container chs j) = item_view i chs"
  "item_view i (delete_container chs j) = item_view i chs"
  "item_view i (snd (update_container n (pos, chs) j)) = item_view i chs"
proof -
  show "item_view i (insert_container chs j) = item_view i chs"
    by (simp add: insert_container_def item_view_append) (simp add: item_view_def)
  have app: "item_view i (chs @ [c]) = item_view i chs" if "item_id c = None" for c chs
    using that by (simp add: item_view_def)
  have rem: "item_view i (remove1 c chs) = item_view i chs" if "item_id c = None" for c chs
    using that by (simp add: item_view_remove1)
  show "item_view i (delete_container chs j) = item_view i chs"
  proof (cases "find (\<lambda>ch. ch \<in> {InsertContainer j, UpdateContainer j}) chs")
    case None
    from scan_eqs(1) [OF this] show ?thesis by (simp add: delete_container_def app)
  next
    case (Some c)
    then have "c \<in> {InsertContainer j, UpdateContainer j}" by (simp add: find_Some_iff) blast
    with scan_eqs(2) [OF Some] show ?thesis by (auto simp: delete_container_def app rem)
  qed
  show "item_view i (snd (update_container n (pos, chs) j)) = item_view i chs"
  proof (cases "find (\<lambda>ch. ch \<in> {InsertContainer j, UpdateContainer j, UpdateContainerProperty j}) chs")
    case None
    from scan_eqs(1) [OF this] show ?thesis by (simp add: update_container_def app)
  next
    case (Some c)
    then have "c \<in> {InsertContainer j, UpdateContainer j, UpdateContainerProperty j}"
      by (simp add: find_Some_iff) blast
    with scan_eqs(2) [OF Some] show ?thesis by (auto simp: update_container_def app rem)
  qed
qed

lemma item_view_containers:
  "item_view i (foldl insert_container chs js) = item_view i chs"
  "item_view i (foldl delete_container chs js) = item_view i chs"
  "item_view i (snd (foldl (update_container n) (pos, chs) js)) = item_view i chs"
proof -
  show "item_view i (foldl insert_container chs js) = item_view i chs"
    "item_view i (foldl delete_container chs js) = item_view i chs"
    by (induction js arbitrary: chs) (auto simp: item_view_container)
  show "item_view i (snd (foldl (update_container n) (pos, chs) js)) = item_view i chs"
  proof (induction js arbitrary: pos chs)
    case (Cons j js)
    obtain p c where u: "update_container n (pos, chs) j = (p, c)" by fastforce
    with item_view_container(3) [of i n pos chs j] Cons [of p c] show ?case by simp
  qed simp
qed

text \<open>The bits an entry holds for an item, and what reading it does to the item's changes.\<close>

definition entry_bits :: "u64 \<Rightarrow> change_order \<Rightarrow> bool \<times> bool \<times> bool" where
  "entry_bits i L = (i \<in> set (ii_list L), i \<in> set (iu_list L), i \<in> set (id_list L))"

definition apply_bits :: "u64 \<Rightarrow> change list \<Rightarrow> bool \<times> bool \<times> bool \<Rightarrow> change list" where
  "apply_bits i v = (\<lambda>(ins, upd, del).
     (let v = (if ins then insert_item v i else v);
          v = (if upd then update_item v i else v)
      in if del then delete_item v i else v))"

lemma item_view_apply_entry:
  assumes "distinct (ii_list L)" "distinct (iu_list L)" "distinct (id_list L)"
  shows "item_view i (apply_entry L chs) = apply_bits i (item_view i chs) (entry_bits i L)"
  using foldl_view [of "item_view i" insert_item i "\<lambda>v. insert_item v i", OF item_view_insert assms(1)]
    foldl_view [of "item_view i" update_item i "\<lambda>v. update_item v i", OF item_view_update assms(2)]
    foldl_view [of "item_view i" delete_item i "\<lambda>v. delete_item v i", OF item_view_delete assms(3)]
  by (simp add: apply_entry_def apply_bits_def entry_bits_def item_view_containers Let_def
      del: map_append foldl_append)

section \<open>Histories of an item\<close>

datatype item_op = ItemInsert | ItemUpdate | ItemDelete

text \<open>Whether an item exists, through a history of operations that make sense.\<close>

fun run_item :: "bool \<Rightarrow> item_op list \<Rightarrow> bool option" where
  "run_item e [] = Some e"
| "run_item e (ItemInsert # ops) = (if e then None else run_item True ops)"
| "run_item e (ItemUpdate # ops) = (if e then run_item True ops else None)"
| "run_item e (ItemDelete # ops) = (if e then run_item False ops else None)"

lemma run_item_append: "run_item e (xs @ ys) = Option.bind (run_item e xs) (\<lambda>e. run_item e ys)"
  by (induction e xs rule: run_item.induct) auto

fun bit_step :: "bool \<times> bool \<times> bool \<Rightarrow> item_op \<Rightarrow> bool \<times> bool \<times> bool" where
  "bit_step (ins, upd, del) ItemInsert = (if del then (ins, True, False) else (True, upd, del))"
| "bit_step (ins, upd, del) ItemUpdate = (ins, True, del)"
| "bit_step (ins, upd, del) ItemDelete = (ins, False, True)"

text \<open>What the bits of a batch can be, by the item's existence before and after it.\<close>

fun bits_ok :: "bool \<Rightarrow> bool \<times> bool \<times> bool \<Rightarrow> bool \<Rightarrow> bool" where
  "bits_ok True (ins, upd, del) e \<longleftrightarrow> \<not> ins \<and> del = (\<not> e) \<and> \<not> (upd \<and> del)"
| "bits_ok False (ins, upd, del) e \<longleftrightarrow> (e \<longrightarrow> ins \<and> \<not> del) \<and> (\<not> e \<longrightarrow> ins = del \<and> \<not> upd)"

lemma bits_ok_step:
  "bits_ok e0 bits e \<Longrightarrow> run_item e [op] = Some e' \<Longrightarrow> bits_ok e0 (bit_step bits op) e'"
  by (cases e0; cases bits; cases op; auto split: if_splits)

lemma bits_ok_run:
  "bits_ok e0 bits e \<Longrightarrow> run_item e ops = Some e' \<Longrightarrow> bits_ok e0 (foldl bit_step bits ops) e'"
proof (induction ops arbitrary: bits e)
  case (Cons op ops)
  then obtain e1 where "run_item e [op] = Some e1" "run_item e1 ops = Some e'"
    using run_item_append [of e "[op]" ops] by (auto split: Option.bind_splits)
  with Cons bits_ok_step show ?case by (metis foldl_Cons)
qed simp

text \<open>
  What a reader has of an item, by its existence when the reading began and now, and by
  whether anything happened to it in between.
\<close>

fun view_ok :: "u64 \<Rightarrow> bool \<Rightarrow> bool \<Rightarrow> bool \<Rightarrow> change list \<Rightarrow> bool" where
  "view_ok i True True t v \<longleftrightarrow> (if t then v = [UpdateItem i] \<or> v = [DeleteItem i, InsertItem i] else v = [])"
| "view_ok i True False t v \<longleftrightarrow> t \<and> v = [DeleteItem i]"
| "view_ok i False True t v \<longleftrightarrow> t \<and> v = [InsertItem i]"
| "view_ok i False False t v \<longleftrightarrow> v = []"

lemma touched_simps:
  "touched i [] = None" "touched i [UpdateItem i] = Some (UpdateItem i)"
  "touched i [InsertItem i] = Some (InsertItem i)" "touched i [DeleteItem i] = None"
  "touched i [DeleteItem i, InsertItem i] = Some (InsertItem i)"
  by (simp_all add: touched_def)

lemma view_ok_step:
  assumes "view_ok i e0 e t v" and "bits_ok e bits e'"
  shows "view_ok i e0 e' (t \<or> bits \<noteq> (False, False, False)) (apply_bits i v bits)"
  using assms
  by (cases e0; cases e; cases e'; cases bits; cases t)
    (auto simp: apply_bits_def insert_item_def update_item_eqs delete_item_eqs touched_simps Let_def)

lemma bits_zero: "foldl bit_step (False, False, False) ops = (False, False, False) \<longleftrightarrow> ops = []"
proof (cases ops rule: rev_cases)
  case (snoc ops' op)
  obtain ins upd del where "foldl bit_step (False, False, False) ops' = (ins, upd, del)"
    by (cases "foldl bit_step (False, False, False) ops'")
  with snoc show ?thesis by (cases op) auto
qed simp

section \<open>From a batch of operations to the client\<close>

text \<open>An item operation as a batch logs it: collection, kind, prefix and document.\<close>

type_synonym logged_op = "sync_collection \<times> item_op \<times> u32 option \<times> u32"

fun log_op :: "change_log_builder \<Rightarrow> logged_op \<Rightarrow> change_log_builder" where
  "log_op b (coll, ItemInsert, prefix, doc) = log_item_insert b coll prefix doc"
| "log_op b (coll, ItemUpdate, prefix, doc) = log_item_update b coll prefix doc"
| "log_op b (coll, ItemDelete, prefix, doc) = log_item_delete b coll prefix doc"

definition log_batch :: "logged_op list \<Rightarrow> change_log_builder" where
  "log_batch ops = foldl log_op change_log_builder_default ops"

text \<open>The operations of a batch that concern one item of one collection.\<close>

definition ops_of :: "sync_collection \<Rightarrow> u64 \<Rightarrow> logged_op list \<Rightarrow> item_op list" where
  "ops_of coll i ops =
     map (\<lambda>(_, op, _, _). op) (filter (\<lambda>(c, _, prefix, doc). c = coll \<and> build_id prefix doc = i) ops)"

definition batch_changes :: "logged_op list \<Rightarrow> sync_collection \<Rightarrow> write_changes" where
  "batch_changes ops coll = vm.get_or (cl_changes (log_batch ops)) coll write_changes_default"

definition item_bits :: "u64 \<Rightarrow> write_changes \<Rightarrow> bool \<times> bool \<times> bool" where
  "item_bits i c = (i \<in> item_inserts c, i \<in> item_updates c, i \<in> item_deletes c)"

lemma batch_bits: "item_bits i (batch_changes ops coll) = foldl bit_step (False, False, False) (ops_of coll i ops)"
proof (induction ops rule: rev_induct)
  case Nil
  then show ?case
    by (simp add: batch_changes_def log_batch_def change_log_builder_default_def vm_new_def vm.get_or_def
        item_bits_def write_changes_default_def ops_of_def)
next
  case (snoc x ops)
  obtain c op prefix doc where x: "x = (c, op, prefix, doc)" by (cases x)
  have step: "item_bits i (batch_changes (ops @ [x]) coll) =
     (if c = coll \<and> build_id prefix doc = i then bit_step (item_bits i (batch_changes ops coll)) op
      else item_bits i (batch_changes ops coll))"
    by (cases op)
      (auto simp: x batch_changes_def log_batch_def log_item_insert_def log_item_update_def log_item_delete_def
        get_changes_def vm.get_or_upsert item_bits_def Let_def)
  show ?case unfolding step snoc.IH by (simp add: ops_of_def x)
qed

lemma entry_bits_lists: "lists_changes L c \<Longrightarrow> entry_bits i L = item_bits i c"
  by (simp add: lists_changes_def enumerates_def entry_bits_def item_bits_def)

text \<open>Reading the entries of some batches, one after the other.\<close>

lemma view_of_batches:
  assumes "list_all2 (\<lambda>ops L. lists_changes L (batch_changes ops coll)) batches entries"
    and "view_ok i e0 e t (item_view i chs)" and "run_item e (concat (map (ops_of coll i) batches)) = Some e'"
  shows "view_ok i e0 e' (t \<or> concat (map (ops_of coll i) batches) \<noteq> [])
     (item_view i (foldl (\<lambda>chs L. apply_entry L chs) chs entries))"
  using assms
proof (induction batches entries arbitrary: e t chs rule: list_all2_induct)
  case Nil
  then show ?case by simp
next
  case (Cons ops batches L entries)
  obtain e1 where e1: "run_item e (ops_of coll i ops) = Some e1"
    "run_item e1 (concat (map (ops_of coll i) batches)) = Some e'"
    using Cons.prems(2) by (auto simp: run_item_append split: Option.bind_splits)
  have "bits_ok e (False, False, False) e" by (cases e) auto
  moreover have bits: "entry_bits i L = foldl bit_step (False, False, False) (ops_of coll i ops)"
    using entry_bits_lists [OF Cons.hyps(1)] batch_bits by simp
  ultimately have "bits_ok e (entry_bits i L) e1" using bits_ok_run e1(1) by simp
  from view_ok_step [OF Cons.prems(1) this]
  have "view_ok i e0 e1 (t \<or> ops_of coll i ops \<noteq> []) (item_view i (apply_entry L chs))"
    using Cons.hyps(1) by (simp add: item_view_apply_entry lists_changes_def enumerates_def bits bits_zero)
  from Cons.IH [OF this e1(2)] show ?case by (simp add: disj_assoc)
qed

text \<open>The store after the batches: an entry per batch, under increasing change ids.\<close>

definition log_entry :: "u32 \<Rightarrow> sync_collection \<Rightarrow> u64 \<times> change_order \<Rightarrow> u8 list \<times> u8 list" where
  "log_entry account coll = (\<lambda>(change_id, L).
     (log_key_serialize \<lparr>lk_account_id = account, lk_collection = log_collection_u8 (Sync coll),
        lk_change_id = change_id\<rparr> 0, changes_serialize L))"

lemma changes_serialize_not_Nil: "changes_serialize L \<noteq> []"
proof -
  have "leb128_bytes w \<noteq> []" for w by (subst leb128_bytes.simps) simp
  then show ?thesis by (simp add: changes_serialize_eq to_leb128_bytes_def)
qed

lemma log_range_entries:
  "log_range (map (log_entry account coll) es) account (log_collection_u8 (Sync coll)) i (- 1)
     = map (log_entry account coll) (filter (\<lambda>(change_id, _). i \<le> change_id) es)"
  by (induction es) (auto simp: log_range_def log_entry_def log_key_le_same)

lemma iterate_entries:
  assumes "\<forall>(change_id, L) \<in> set es. entry_bounded L \<and> change_id \<noteq> i"
  shows "\<exists>log'. iterate (changes_entry False inclusive i) log (map (log_entry account coll) es) = Some log'
     \<and> changes log' = foldl (\<lambda>chs (_, L). apply_entry L chs) (changes log) es
     \<and> is_truncated log' = is_truncated log
     \<and> to_change_id log' = (if es = [] then to_change_id log else fst (last es))"
  using assms
proof (induction es arbitrary: log)
  case Nil
  then show ?case by simp
next
  case (Cons x es)
  obtain change_id L where x: "x = (change_id, L)" by (cases x)
  with Cons.prems have L: "entry_bounded L" "change_id \<noteq> i" by auto
  obtain log1 where log1: "changes_entry False inclusive i log (log_entry account coll x) = Some log1"
    "changes log1 = apply_entry L (changes log)" "is_truncated log1 = is_truncated log" "to_change_id log1 = change_id"
    using L by (auto simp: x changes_entry_def log_entry_def log_key_change_id changes_serialize_not_Nil
        changes_deserialize_serialize Let_def)
  have "\<forall>(change_id, L) \<in> set es. entry_bounded L \<and> change_id \<noteq> i" using Cons.prems by simp
  from Cons.IH [OF this, of log1] log1 show ?case by (auto simp: x)
qed

lemma iterate_append: "iterate f s (xs @ ys) = Option.bind (iterate f s xs) (\<lambda>s. iterate f s ys)"
  by (induction xs arbitrary: s) (auto split: option.split)

text \<open>The entry of the client's own state is met first, and only moves the change ids.\<close>

lemma iterate_known:
  assumes "\<forall>(change_id, L) \<in> set es. change_id = i"
  shows "\<exists>log'. iterate (changes_entry False False i) log (map (log_entry account coll) es) = Some log'
     \<and> changes log' = changes log \<and> is_truncated log' = is_truncated log"
  using assms
proof (induction es arbitrary: log)
  case (Cons x es)
  then obtain L where x: "x = (i, L)" by (cases x) auto
  have "changes_entry False False i log (log_entry account coll x) = Some (log\<lparr>from_change_id := i, to_change_id := i\<rparr>)"
    by (simp add: x changes_entry_def log_entry_def log_key_change_id)
  moreover have "\<forall>(change_id, L) \<in> set es. change_id = i" using Cons.prems by simp
  ultimately show ?case using Cons.IH [of "log\<lparr>from_change_id := i, to_change_id := i\<rparr>"] by simp
qed simp

section \<open>Properties\<close>

text \<open>
  C28: an entry survives serialization: reading it, with any bytes behind it, applies exactly
  the listed changes, in the order inserts, updates, deletes, to the changes read so far, stops
  after the last byte of the entry (what is behind it is what the iterator has left), and the two
  flags say whether it has container and item changes.
\<close>

theorem change_entry_roundtrip:
  assumes "lists_changes L c" and "entry_bounded L"
  shows "deserialize_entry chs (changes_serialize L @ rest)
      = Some ((apply_entry L chs, has_container_changes c, has_item_changes c), rest)
    \<and> changes_deserialize chs (changes_serialize L)
      = Some (apply_entry L chs, has_container_changes c, has_item_changes c)"
proof -
  have "has_container_changes c \<longleftrightarrow> ci_list L \<noteq> [] \<or> cu_list L \<noteq> [] \<or> cp_list L \<noteq> [] \<or> cd_list L \<noteq> []"
    "has_item_changes c \<longleftrightarrow> ii_list L \<noteq> [] \<or> iu_list L \<noteq> [] \<or> id_list L \<noteq> []"
    using assms(1) by (auto simp: lists_changes_def enumerates_def has_container_changes_def has_item_changes_def)
  with changes_deserialize_serialize [OF assms(2)] deserialize_entry_serialize [OF assms(2)] show ?thesis by simp
qed

text \<open>
  C27: the change log is sound for its readers. Let batches of item operations be logged (of any
  collection but share notifications, which log no item operations), one entry each, under change ids above the client's state \<open>since\<close>, the hash sets being listed
  in any order; let an item's operations make sense from its existence \<open>e0\<close> at that
  state to its existence \<open>e1\<close> now. Then reading since that state succeeds and reports
  for the item: nothing if nothing happened to it or if it came and went, an insertion if it is
  new, a deletion if it is gone, an update, or a deletion and an insertion, if it still exists.
\<close>

theorem change_log_sound:
  assumes "coll \<noteq> sync_collection.ShareNotification"
    and "list_all2 (\<lambda>ops L. lists_changes L (batch_changes ops coll)) batches (map snd es)"
    and "\<forall>(change_id, L) \<in> set es. entry_bounded L \<and> since < change_id"
    and "\<forall>(change_id, L) \<in> set old. change_id \<le> since"
    and "run_item e0 (concat (map (ops_of coll i) batches)) = Some e1"
  shows "\<exists>r. store_changes (map (log_entry account coll) (old @ es)) account (Sync coll) (Since since) = Some r
     \<and> \<not> is_truncated r
     \<and> view_ok i e0 e1 (concat (map (ops_of coll i) batches) \<noteq> []) (item_view i (changes r))"
proof -
  let ?known = "filter (\<lambda>(change_id, _). since \<le> change_id) old"
  have range: "log_range (map (log_entry account coll) (old @ es)) account (log_collection_u8 (Sync coll)) since (- 1)
      = map (log_entry account coll) ?known @ map (log_entry account coll) es"
  proof -
    have "filter (\<lambda>(change_id, _). since \<le> change_id) es = es"
      using assms(3) by (intro filter_True) auto
    then show ?thesis unfolding log_range_entries by (simp only: filter_append map_append)
  qed
  have "\<forall>(change_id, L) \<in> set ?known. change_id = since" using assms(4) by force
  from iterate_known [OF this, of read_changes_default account coll] obtain log1 where
    log1: "iterate (changes_entry False False since) read_changes_default (map (log_entry account coll) ?known) = Some log1"
      "changes log1 = []" "\<not> is_truncated log1" by (auto simp: read_changes_default_def)
  have "\<forall>(change_id, L) \<in> set es. entry_bounded L \<and> change_id \<noteq> since" using assms(3) by auto
  from iterate_entries [OF this, of False log1 account coll] obtain log2 where
    log2: "iterate (changes_entry False False since) log1 (map (log_entry account coll) es) = Some log2"
      "changes log2 = foldl (\<lambda>chs (_, L). apply_entry L chs) [] es" "\<not> is_truncated log2"
    using log1 by auto
  have "foldl (\<lambda>chs (_, L). apply_entry L chs) [] es = foldl (\<lambda>chs L. apply_entry L chs) [] (map snd es)"
    by (simp add: foldl_map case_prod_unfold)
  moreover have "view_ok i e0 e0 False (item_view i [])" by (cases e0) (simp_all add: item_view_def)
  from view_of_batches [OF assms(2) this assms(5)]
  have "view_ok i e0 e1 (concat (map (ops_of coll i) batches) \<noteq> [])
      (item_view i (foldl (\<lambda>chs L. apply_entry L chs) [] (map snd es)))" by simp
  ultimately have "view_ok i e0 e1 (concat (map (ops_of coll i) batches) \<noteq> []) (item_view i (changes log2))"
    using log2(2) by simp
  moreover have "store_changes (map (log_entry account coll) (old @ es)) account (Sync coll) (Since since) = Some log2"
    using assms(1) log1(1) log2(1) range by (simp add: store_changes_def iterate_append del: log_collection_u8.simps map_append)
  ultimately show ?thesis using log2(3) by blast
qed

text \<open>One message arrives in one batch and is read and filed away in the next.\<close>

definition no_lists :: change_order where
  "no_lists = \<lparr>ci_list = [], cu_list = [], cp_list = [], cd_list = [], ii_list = [], iu_list = [], id_list = []\<rparr>"

lemma change_entry_roundtrip_witness:
  "changes_deserialize [] (changes_serialize (no_lists\<lparr>ii_list := [7]\<rparr>)) = Some ([InsertItem 7], False, True)"
proof -
  have "lists_changes (no_lists\<lparr>ii_list := [7]\<rparr>) (write_changes_default\<lparr>item_inserts := {7}\<rparr>)"
    by (simp add: lists_changes_def enumerates_def no_lists_def write_changes_default_def)
  moreover have "entry_bounded (no_lists\<lparr>ii_list := [7]\<rparr>)" by (simp add: entry_bounded_def no_lists_def)
  ultimately show ?thesis
    using change_entry_roundtrip [of "no_lists\<lparr>ii_list := [7]\<rparr>" "write_changes_default\<lparr>item_inserts := {7}\<rparr>" "[]"]
    by (simp add: no_lists_def write_changes_default_def has_container_changes_def has_item_changes_def
        apply_entry_def insert_item_def)
qed

theorem change_log_sound_witness:
  "\<exists>r. store_changes (map (log_entry 1 sync_collection.Email)
         ([(3, no_lists)] @ [(5, no_lists\<lparr>ii_list := [7]\<rparr>), (6, no_lists\<lparr>iu_list := [7]\<rparr>)]))
         1 (Sync sync_collection.Email) (Since 3) = Some r
     \<and> item_view 7 (changes r) = [InsertItem 7]"
proof -
  let ?batches = "[[(sync_collection.Email, ItemInsert, None, 7)], [(sync_collection.Email, ItemUpdate, None, 7)]]"
  let ?es = "[(5, no_lists\<lparr>ii_list := [7]\<rparr>), (6, no_lists\<lparr>iu_list := [7]\<rparr>)]"
  have "list_all2 (\<lambda>ops L. lists_changes L (batch_changes ops sync_collection.Email)) ?batches (map snd ?es)"
    by (simp add: lists_changes_def enumerates_def no_lists_def batch_changes_def log_batch_def
        change_log_builder_default_def vm_new_def log_item_insert_def log_item_update_def get_changes_def
        vm.get_or_upsert Let_def build_id_def) (simp add: vm.get_or_def write_changes_default_def)
  moreover have "\<forall>(change_id, L) \<in> set ?es. entry_bounded L \<and> (3 :: u64) < change_id"
    by (simp add: entry_bounded_def no_lists_def)
  moreover have "run_item False (concat (map (ops_of sync_collection.Email 7) ?batches)) = Some True"
    by (simp add: ops_of_def build_id_def)
  ultimately show ?thesis
    using change_log_sound [of sync_collection.Email ?batches ?es 3 "[(3, no_lists)]" False 7 True 1] by auto
qed

text \<open>
  Deleting a container does not take back a property change that an earlier entry
  reported: the client is told of a property change of a container that is gone. An item, or an
  ordinary container update, is taken back.
\<close>

theorem container_delete_keeps_property_change:
  assumes "entry_bounded L" and "cd_list L = [i]" and "ci_list L = []" and "cu_list L = []" and "cp_list L = []"
    and "ii_list L = []" and "iu_list L = []" and "id_list L = []"
  shows "changes_deserialize [UpdateContainerProperty (ucast i)] (changes_serialize L)
       = Some ([UpdateContainerProperty (ucast i), DeleteContainer (ucast i)], True, False)
   \<and> changes_deserialize [UpdateContainer (ucast i)] (changes_serialize L)
       = Some ([DeleteContainer (ucast i)], True, False)"
  unfolding changes_deserialize_serialize [OF assms(1)] using assms
  by (simp add: apply_entry_def delete_container_def vec_remove_def)

theorem container_delete_keeps_property_change_witness:
  "changes_deserialize [UpdateContainerProperty 9] (changes_serialize (no_lists\<lparr>cd_list := [9]\<rparr>))
     = Some ([UpdateContainerProperty 9, DeleteContainer 9], True, False)"
  using container_delete_keeps_property_change [of "no_lists\<lparr>cd_list := [9]\<rparr>" 9]
  by (simp add: entry_bounded_def no_lists_def)

section \<open>Vanished items round trip\<close>

lemma vanished_items_enc:
  assumes "\<And>v rest. v \<in> set vs \<Longrightarrow> read (enc v @ rest) = Some (v, rest)" and "\<And>v. v \<in> set vs \<Longrightarrow> enc v \<noteq> []"
    and "length (concat (map enc vs)) \<le> fuel"
  shows "vanished_items read fuel (concat (map enc vs)) acc = Some (acc @ vs)"
  using assms
proof (induction vs arbitrary: fuel acc)
  case (Cons v vs)
  obtain b bs where enc: "enc v = b # bs" using Cons.prems(2) [of v] by (cases "enc v") auto
  obtain fuel' where fuel: "fuel = Suc fuel'" using Cons.prems(3) enc by (cases fuel) auto
  have "vanished_items read fuel' (concat (map enc vs)) (acc @ [v]) = Some ((acc @ [v]) @ vs)"
    using Cons.prems fuel enc by (intro Cons.IH) auto
  moreover have "read (b # bs @ concat (map enc vs)) = Some (v, concat (map enc vs))"
    using Cons.prems(1) [of v "concat (map enc vs)"] enc by simp
  ultimately show ?case by (simp add: enc fuel)
qed simp

lemma vanished_serialize_concat:
  "vanished_serialize items = concat (map (\<lambda>item. vanished_write [] item) items)"
proof -
  have written: "vanished_write buf item = buf @ vanished_write [] item" for buf item
    by (cases item) (simp_all add: key_write_bytes_def key_write_u8_def)
  have "foldl vanished_write buf items = buf @ concat (map (\<lambda>item. vanished_write [] item) items)" for buf
  proof (induction items arbitrary: buf)
    case (Cons item items)
    then show ?case using written [of buf item] by simp
  qed simp
  then show ?thesis by (simp add: vanished_serialize_def key_finalize_def key_new_def)
qed

lemma next_bytes_append: "next_bytes (length bs) (bs @ rest) = Some (bs, rest)"
  by (induction bs) auto

lemma next_bytes_be: "next_bytes n (be_bytes n v @ rest) = Some (be_bytes n v, rest)"
  using next_bytes_append [of "be_bytes n v" rest] by simp

lemma byte_of_nonzero: "c \<noteq> NUL \<Longrightarrow> (byte_of c \<noteq> 0)"
proof -
  assume c: "c \<noteq> NUL"
  have "code NUL = 0" by simp
  with c have "code c \<noteq> 0" by (metis code_inject)
  then show ?thesis by (simp add: word_unat_eq_iff unat_of_nat)
qed

lemma char_of_byte_of: "char_of (unat (byte_of c)) = c"
  by (simp add: unat_of_nat)

lemma be_bytes_pair:
  "be_bytes 8 (unat (push_bit 32 (ucast (a :: u32)) OR ucast (b :: u32) :: u64)) = be_bytes 4 (unat a) @ be_bytes 4 (unat b)"
proof -
  have "unat (push_bit 32 (ucast a) OR ucast b :: u64) = unat a * 2 ^ 32 + unat b"
    using unat_id_from_parts [of a b] by (simp only: id_from_parts_def)
  moreover have "be_value (be_bytes 4 (unat a) @ be_bytes 4 (unat b)) = unat a * 256 ^ 4 + unat b"
    by (simp only: be_value_append be_value_be_bytes [OF unat_less_bytes(1)] length_be_bytes)
  ultimately have "be_value (be_bytes 8 (unat (push_bit 32 (ucast a) OR ucast b :: u64)))
      = be_value (be_bytes 4 (unat a) @ be_bytes 4 (unat b))"
    using be_value_be_bytes [OF unat_less_bytes(2), of "push_bit 32 (ucast a) OR ucast b"] by simp
  then show ?thesis by (subst (asm) be_value_inject) simp_all
qed

lemma vanished_name_loop_write:
  "NUL \<notin> set s \<Longrightarrow> vanished_name_loop acc (map byte_of s @ 0 # rest) = Some (acc @ s, rest)"
proof (induction s arbitrary: acc)
  case (Cons c s)
  then have "byte_of c \<noteq> 0" by (intro byte_of_nonzero) auto
  with Cons show ?case by (simp add: char_of_byte_of)
qed simp

text \<open>
  Vanished items survive the log: names without a zero byte, numbers and pairs of numbers
  are read back by the reader of their type, also when a pair is stored as one number.
\<close>

theorem vanished_roundtrip:
  assumes "\<forall>s \<in> set names. NUL \<notin> set s \<and> utf8_valid s"
  shows "vanished_items vanished_string (length (vanished_serialize (map vanished_from_string names)))
           (vanished_serialize (map vanished_from_string names)) [] = Some names
   \<and> vanished_items vanished_u64 (length (vanished_serialize (map vanished_from_u64 ids)))
           (vanished_serialize (map vanished_from_u64 ids)) [] = Some ids
   \<and> vanished_items vanished_pair (length (vanished_serialize (map vanished_from_pair pairs)))
           (vanished_serialize (map vanished_from_pair pairs)) [] = Some pairs"
proof -
  have app: "length (vanished_serialize (map mk vs)) = length (concat (map (\<lambda>v. vanished_write [] (mk v)) vs))"
    "vanished_serialize (map mk vs) = concat (map (\<lambda>v. vanished_write [] (mk v)) vs)" for mk :: "'x \<Rightarrow> vanished_item" and vs
    by (simp_all add: vanished_serialize_concat o_def)
  have "vanished_items vanished_string (length (concat (map (\<lambda>v. vanished_write [] (vanished_from_string v)) names)))
      (concat (map (\<lambda>v. vanished_write [] (vanished_from_string v)) names)) [] = Some ([] @ names)"
    using assms
    by (intro vanished_items_enc)
      (auto simp: vanished_string_def vanished_from_string_def key_write_bytes_def key_write_u8_def vanished_name_loop_write)
  moreover have "vanished_items vanished_u64 (length (concat (map (\<lambda>v. vanished_write [] (vanished_from_u64 v)) ids)))
      (concat (map (\<lambda>v. vanished_write [] (vanished_from_u64 v)) ids)) [] = Some ([] @ ids)"
  proof (rule vanished_items_enc)
    fix v :: u64 and rest
    show "vanished_u64 (vanished_write [] (vanished_from_u64 v) @ rest) = Some (v, rest)"
      by (simp add: vanished_u64_def vanished_from_u64_def key_write_bytes_def next_bytes_be
          be_value_be_bytes [OF unat_less_bytes(2)])
    show "vanished_write [] (vanished_from_u64 v) \<noteq> []"
      by (simp add: vanished_from_u64_def key_write_bytes_def flip: length_0_conv)
  qed simp
  moreover have "vanished_items vanished_pair (length (concat (map (\<lambda>v. vanished_write [] (vanished_from_pair v)) pairs)))
      (concat (map (\<lambda>v. vanished_write [] (vanished_from_pair v)) pairs)) [] = Some ([] @ pairs)"
  proof (rule vanished_items_enc)
    fix v :: "u32 \<times> u32" and rest
    obtain a b where v: "v = (a, b)" by (cases v)
    show "vanished_pair (vanished_write [] (vanished_from_pair v) @ rest) = Some (v, rest)"
      by (simp add: v vanished_pair_def vanished_from_pair_def key_write_bytes_def be_bytes_pair next_bytes_be
          be_value_be_bytes [OF unat_less_bytes(1)])
    show "vanished_write [] (vanished_from_pair v) \<noteq> []"
      by (simp add: vanished_from_pair_def key_write_bytes_def flip: length_0_conv)
  qed simp
  ultimately show ?thesis by (simp add: app)
qed

theorem vanished_roundtrip_witness:
  "vanished_items vanished_string (length (vanished_serialize (map vanished_from_string [''a'', ''bc''])))
     (vanished_serialize (map vanished_from_string [''a'', ''bc''])) [] = Some [''a'', ''bc'']"
proof -
  have "\<forall>s \<in> set [''a'', ''bc'']. NUL \<notin> set s \<and> utf8_valid s" by simp
  from vanished_roundtrip [OF this] show ?thesis by blast
qed

end
