(* ===== verification/Keywords.thy ===== *)
theory Keywords
  imports Data_Types
begin

text \<open>
  \<^verbatim>\<open>crates/types/src/keyword.rs\<close>: message keywords (IMAP flags). The known ones have a
  number and a name; any other text is kept as \<open>Other\<close>, cut to 128 characters. The archive
  library's mirror type has its own copies of the tables.
\<close>

section \<open>Data\<close>

abbreviation SEEN :: nat where "SEEN \<equiv> 0"
abbreviation DRAFT :: nat where "DRAFT \<equiv> 1"
abbreviation FLAGGED :: nat where "FLAGGED \<equiv> 2"
abbreviation ANSWERED :: nat where "ANSWERED \<equiv> 3"
abbreviation RECENT :: nat where "RECENT \<equiv> 4"
abbreviation IMPORTANT :: nat where "IMPORTANT \<equiv> 5"
abbreviation PHISHING :: nat where "PHISHING \<equiv> 6"
abbreviation JUNK :: nat where "JUNK \<equiv> 7"
abbreviation NOTJUNK :: nat where "NOTJUNK \<equiv> 8"
abbreviation DELETED :: nat where "DELETED \<equiv> 9"
abbreviation FORWARDED :: nat where "FORWARDED \<equiv> 10"
abbreviation MDN_SENT :: nat where "MDN_SENT \<equiv> 11"
abbreviation AUTOSENT :: nat where "AUTOSENT \<equiv> 12"
abbreviation CANUNSUBSCRIBE :: nat where "CANUNSUBSCRIBE \<equiv> 13"
abbreviation FOLLOWED :: nat where "FOLLOWED \<equiv> 14"
abbreviation HASATTACHMENT :: nat where "HASATTACHMENT \<equiv> 15"
abbreviation HASMEMO :: nat where "HASMEMO \<equiv> 16"
abbreviation HASNOATTACHMENT :: nat where "HASNOATTACHMENT \<equiv> 17"
abbreviation IMPORTED :: nat where "IMPORTED \<equiv> 18"
abbreviation ISTRUSTED :: nat where "ISTRUSTED \<equiv> 19"
abbreviation MAILFLAGBIT0 :: nat where "MAILFLAGBIT0 \<equiv> 20"
abbreviation MAILFLAGBIT1 :: nat where "MAILFLAGBIT1 \<equiv> 21"
abbreviation MAILFLAGBIT2 :: nat where "MAILFLAGBIT2 \<equiv> 22"
abbreviation MASKEDEMAIL :: nat where "MASKEDEMAIL \<equiv> 23"
abbreviation MEMO :: nat where "MEMO \<equiv> 24"
abbreviation MUTED :: nat where "MUTED \<equiv> 25"
abbreviation NEW :: nat where "NEW \<equiv> 26"
abbreviation NOTIFY :: nat where "NOTIFY \<equiv> 27"
abbreviation UNSUBSCRIBED :: nat where "UNSUBSCRIBED \<equiv> 28"
abbreviation OTHER :: nat where "OTHER \<equiv> 29"
abbreviation MAX_LENGTH :: nat where "MAX_LENGTH \<equiv> 128"

datatype keyword =
    Other string | Seen | Draft | Flagged | Answered | Recent | Important | Phishing | Junk
    | NotJunk | Deleted | Forwarded | MdnSent | Autosent | CanUnsubscribe | Followed
    | HasAttachment | HasMemo | HasNoAttachment | Imported | IsTrusted | MailFlagBit0
    | MailFlagBit1 | MailFlagBit2 | MaskedEmail | Memo | Muted | New | Notify | Unsubscribed

datatype archived_keyword =
    Other string | Seen | Draft | Flagged | Answered | Recent | Important | Phishing | Junk
    | NotJunk | Deleted | Forwarded | MdnSent | Autosent | CanUnsubscribe | Followed
    | HasAttachment | HasMemo | HasNoAttachment | Imported | IsTrusted | MailFlagBit0
    | MailFlagBit1 | MailFlagBit2 | MaskedEmail | Memo | Muted | New | Notify | Unsubscribed

section \<open>Operations\<close>

definition keyword_names :: "(string \<times> keyword) list" where
  "keyword_names = [
     (''seen'', keyword.Seen), (''draft'', keyword.Draft), (''flagged'', keyword.Flagged),
     (''answered'', keyword.Answered), (''recent'', keyword.Recent),
     (''important'', keyword.Important), (''phishing'', keyword.Phishing),
     (''junk'', keyword.Junk), (''notjunk'', keyword.NotJunk), (''deleted'', keyword.Deleted),
     (''forwarded'', keyword.Forwarded), (''mdnsent'', keyword.MdnSent),
     (''autosent'', keyword.Autosent), (''canunsubscribe'', keyword.CanUnsubscribe),
     (''followed'', keyword.Followed), (''hasattachment'', keyword.HasAttachment),
     (''hasmemo'', keyword.HasMemo), (''hasnoattachment'', keyword.HasNoAttachment),
     (''imported'', keyword.Imported), (''istrusted'', keyword.IsTrusted),
     (''mailflagbit0'', keyword.MailFlagBit0), (''mailflagbit1'', keyword.MailFlagBit1),
     (''mailflagbit2'', keyword.MailFlagBit2), (''maskedemail'', keyword.MaskedEmail),
     (''memo'', keyword.Memo), (''muted'', keyword.Muted), (''new'', keyword.New),
     (''notify'', keyword.Notify), (''unsubscribed'', keyword.Unsubscribed)]"

text \<open>
  \<open>split_at_checked(1)\<close> fails on the empty string and inside a character; a first byte
  that is a dollar sign or a backslash is a character of its own.
\<close>

definition keyword_try_parse :: "string \<Rightarrow> keyword option" where
  "keyword_try_parse value =
     (case value of
        [] \<Rightarrow> None
      | prefix # rest \<Rightarrow>
          if prefix = CHR ''$'' \<or> prefix = BACKSLASH
          then map_of keyword_names (map to_ascii_lowercase rest) else None)"

definition keyword_parse :: "string \<Rightarrow> keyword" where
  "keyword_parse value =
     (case keyword_try_parse value of
        Some k \<Rightarrow> k | None \<Rightarrow> keyword.Other (take_chars MAX_LENGTH value))"

definition keyword_from_other :: "string \<Rightarrow> keyword" where
  "keyword_from_other value =
     (if length value \<le> MAX_LENGTH then keyword.Other value
      else keyword.Other (take_chars MAX_LENGTH value))"

definition keyword_from_boxed_other :: "string \<Rightarrow> keyword" where
  "keyword_from_boxed_other value =
     (if length value \<le> MAX_LENGTH then keyword.Other value
      else keyword.Other (take_chars MAX_LENGTH value))"

definition keyword_from_string :: "string \<Rightarrow> keyword" where
  "keyword_from_string value =
     (case keyword_try_parse value of Some k \<Rightarrow> k | None \<Rightarrow> keyword_from_other value)"

definition keyword_from_str :: "string \<Rightarrow> keyword option" where
  "keyword_from_str s = Some (keyword_parse s)"

text \<open>\<open>id\<close> and \<open>into_id\<close>: \<open>Err\<close>, here \<open>Inl\<close>, carries the text of an \<open>Other\<close>.\<close>

fun keyword_id :: "keyword \<Rightarrow> string + u32" where
  "keyword_id keyword.Seen = Inr (of_nat SEEN)"
| "keyword_id keyword.Draft = Inr (of_nat DRAFT)"
| "keyword_id keyword.Flagged = Inr (of_nat FLAGGED)"
| "keyword_id keyword.Answered = Inr (of_nat ANSWERED)"
| "keyword_id keyword.Recent = Inr (of_nat RECENT)"
| "keyword_id keyword.Important = Inr (of_nat IMPORTANT)"
| "keyword_id keyword.Phishing = Inr (of_nat PHISHING)"
| "keyword_id keyword.Junk = Inr (of_nat JUNK)"
| "keyword_id keyword.NotJunk = Inr (of_nat NOTJUNK)"
| "keyword_id keyword.Deleted = Inr (of_nat DELETED)"
| "keyword_id keyword.Forwarded = Inr (of_nat FORWARDED)"
| "keyword_id keyword.MdnSent = Inr (of_nat MDN_SENT)"
| "keyword_id keyword.Autosent = Inr (of_nat AUTOSENT)"
| "keyword_id keyword.CanUnsubscribe = Inr (of_nat CANUNSUBSCRIBE)"
| "keyword_id keyword.Followed = Inr (of_nat FOLLOWED)"
| "keyword_id keyword.HasAttachment = Inr (of_nat HASATTACHMENT)"
| "keyword_id keyword.HasMemo = Inr (of_nat HASMEMO)"
| "keyword_id keyword.HasNoAttachment = Inr (of_nat HASNOATTACHMENT)"
| "keyword_id keyword.Imported = Inr (of_nat IMPORTED)"
| "keyword_id keyword.IsTrusted = Inr (of_nat ISTRUSTED)"
| "keyword_id keyword.MailFlagBit0 = Inr (of_nat MAILFLAGBIT0)"
| "keyword_id keyword.MailFlagBit1 = Inr (of_nat MAILFLAGBIT1)"
| "keyword_id keyword.MailFlagBit2 = Inr (of_nat MAILFLAGBIT2)"
| "keyword_id keyword.MaskedEmail = Inr (of_nat MASKEDEMAIL)"
| "keyword_id keyword.Memo = Inr (of_nat MEMO)"
| "keyword_id keyword.Muted = Inr (of_nat MUTED)"
| "keyword_id keyword.New = Inr (of_nat NEW)"
| "keyword_id keyword.Notify = Inr (of_nat NOTIFY)"
| "keyword_id keyword.Unsubscribed = Inr (of_nat UNSUBSCRIBED)"
| "keyword_id (keyword.Other string) = Inl string"

fun keyword_into_id :: "keyword \<Rightarrow> string + u32" where
  "keyword_into_id keyword.Seen = Inr (of_nat SEEN)"
| "keyword_into_id keyword.Draft = Inr (of_nat DRAFT)"
| "keyword_into_id keyword.Flagged = Inr (of_nat FLAGGED)"
| "keyword_into_id keyword.Answered = Inr (of_nat ANSWERED)"
| "keyword_into_id keyword.Recent = Inr (of_nat RECENT)"
| "keyword_into_id keyword.Important = Inr (of_nat IMPORTANT)"
| "keyword_into_id keyword.Phishing = Inr (of_nat PHISHING)"
| "keyword_into_id keyword.Junk = Inr (of_nat JUNK)"
| "keyword_into_id keyword.NotJunk = Inr (of_nat NOTJUNK)"
| "keyword_into_id keyword.Deleted = Inr (of_nat DELETED)"
| "keyword_into_id keyword.Forwarded = Inr (of_nat FORWARDED)"
| "keyword_into_id keyword.MdnSent = Inr (of_nat MDN_SENT)"
| "keyword_into_id keyword.Autosent = Inr (of_nat AUTOSENT)"
| "keyword_into_id keyword.CanUnsubscribe = Inr (of_nat CANUNSUBSCRIBE)"
| "keyword_into_id keyword.Followed = Inr (of_nat FOLLOWED)"
| "keyword_into_id keyword.HasAttachment = Inr (of_nat HASATTACHMENT)"
| "keyword_into_id keyword.HasMemo = Inr (of_nat HASMEMO)"
| "keyword_into_id keyword.HasNoAttachment = Inr (of_nat HASNOATTACHMENT)"
| "keyword_into_id keyword.Imported = Inr (of_nat IMPORTED)"
| "keyword_into_id keyword.IsTrusted = Inr (of_nat ISTRUSTED)"
| "keyword_into_id keyword.MailFlagBit0 = Inr (of_nat MAILFLAGBIT0)"
| "keyword_into_id keyword.MailFlagBit1 = Inr (of_nat MAILFLAGBIT1)"
| "keyword_into_id keyword.MailFlagBit2 = Inr (of_nat MAILFLAGBIT2)"
| "keyword_into_id keyword.MaskedEmail = Inr (of_nat MASKEDEMAIL)"
| "keyword_into_id keyword.Memo = Inr (of_nat MEMO)"
| "keyword_into_id keyword.Muted = Inr (of_nat MUTED)"
| "keyword_into_id keyword.New = Inr (of_nat NEW)"
| "keyword_into_id keyword.Notify = Inr (of_nat NOTIFY)"
| "keyword_into_id keyword.Unsubscribed = Inr (of_nat UNSUBSCRIBED)"
| "keyword_into_id (keyword.Other string) = Inl string"

definition keyword_ids :: "(nat \<times> keyword) list" where
  "keyword_ids = [
     (SEEN, keyword.Seen), (DRAFT, keyword.Draft), (FLAGGED, keyword.Flagged),
     (ANSWERED, keyword.Answered), (RECENT, keyword.Recent), (IMPORTANT, keyword.Important),
     (PHISHING, keyword.Phishing), (JUNK, keyword.Junk), (NOTJUNK, keyword.NotJunk),
     (DELETED, keyword.Deleted), (FORWARDED, keyword.Forwarded), (MDN_SENT, keyword.MdnSent),
     (AUTOSENT, keyword.Autosent), (CANUNSUBSCRIBE, keyword.CanUnsubscribe),
     (FOLLOWED, keyword.Followed), (HASATTACHMENT, keyword.HasAttachment),
     (HASMEMO, keyword.HasMemo), (HASNOATTACHMENT, keyword.HasNoAttachment),
     (IMPORTED, keyword.Imported), (ISTRUSTED, keyword.IsTrusted),
     (MAILFLAGBIT0, keyword.MailFlagBit0), (MAILFLAGBIT1, keyword.MailFlagBit1),
     (MAILFLAGBIT2, keyword.MailFlagBit2), (MASKEDEMAIL, keyword.MaskedEmail),
     (MEMO, keyword.Memo), (MUTED, keyword.Muted), (NEW, keyword.New),
     (NOTIFY, keyword.Notify), (UNSUBSCRIBED, keyword.Unsubscribed)]"

definition keyword_try_from_id :: "usize \<Rightarrow> usize + keyword" where
  "keyword_try_from_id i =
     (case map_of keyword_ids (unat i) of Some k \<Rightarrow> Inr k | None \<Rightarrow> Inl i)"

fun keyword_fmt :: "keyword \<Rightarrow> string" where
  "keyword_fmt keyword.Seen = ''$seen''"
| "keyword_fmt keyword.Draft = ''$draft''"
| "keyword_fmt keyword.Flagged = ''$flagged''"
| "keyword_fmt keyword.Answered = ''$answered''"
| "keyword_fmt keyword.Recent = ''$recent''"
| "keyword_fmt keyword.Important = ''$important''"
| "keyword_fmt keyword.Phishing = ''$phishing''"
| "keyword_fmt keyword.Junk = ''$junk''"
| "keyword_fmt keyword.NotJunk = ''$notjunk''"
| "keyword_fmt keyword.Deleted = ''$deleted''"
| "keyword_fmt keyword.Forwarded = ''$forwarded''"
| "keyword_fmt keyword.MdnSent = ''$mdnsent''"
| "keyword_fmt keyword.Autosent = ''$autosent''"
| "keyword_fmt keyword.CanUnsubscribe = ''$canunsubscribe''"
| "keyword_fmt keyword.Followed = ''$followed''"
| "keyword_fmt keyword.HasAttachment = ''$hasattachment''"
| "keyword_fmt keyword.HasMemo = ''$hasmemo''"
| "keyword_fmt keyword.HasNoAttachment = ''$hasnoattachment''"
| "keyword_fmt keyword.Imported = ''$imported''"
| "keyword_fmt keyword.IsTrusted = ''$istrusted''"
| "keyword_fmt keyword.MailFlagBit0 = ''$MailFlagBit0''"
| "keyword_fmt keyword.MailFlagBit1 = ''$MailFlagBit1''"
| "keyword_fmt keyword.MailFlagBit2 = ''$MailFlagBit2''"
| "keyword_fmt keyword.MaskedEmail = ''$maskedemail''"
| "keyword_fmt keyword.Memo = ''$memo''"
| "keyword_fmt keyword.Muted = ''$muted''"
| "keyword_fmt keyword.New = ''$new''"
| "keyword_fmt keyword.Notify = ''$notify''"
| "keyword_fmt keyword.Unsubscribed = ''$unsubscribed''"
| "keyword_fmt (keyword.Other s) = s"

fun keyword_into_bytes :: "keyword \<Rightarrow> string" where
  "keyword_into_bytes keyword.Seen = [char_of SEEN]"
| "keyword_into_bytes keyword.Draft = [char_of DRAFT]"
| "keyword_into_bytes keyword.Flagged = [char_of FLAGGED]"
| "keyword_into_bytes keyword.Answered = [char_of ANSWERED]"
| "keyword_into_bytes keyword.Recent = [char_of RECENT]"
| "keyword_into_bytes keyword.Important = [char_of IMPORTANT]"
| "keyword_into_bytes keyword.Phishing = [char_of PHISHING]"
| "keyword_into_bytes keyword.Junk = [char_of JUNK]"
| "keyword_into_bytes keyword.NotJunk = [char_of NOTJUNK]"
| "keyword_into_bytes keyword.Deleted = [char_of DELETED]"
| "keyword_into_bytes keyword.Forwarded = [char_of FORWARDED]"
| "keyword_into_bytes keyword.MdnSent = [char_of MDN_SENT]"
| "keyword_into_bytes keyword.Autosent = [char_of AUTOSENT]"
| "keyword_into_bytes keyword.CanUnsubscribe = [char_of CANUNSUBSCRIBE]"
| "keyword_into_bytes keyword.Followed = [char_of FOLLOWED]"
| "keyword_into_bytes keyword.HasAttachment = [char_of HASATTACHMENT]"
| "keyword_into_bytes keyword.HasMemo = [char_of HASMEMO]"
| "keyword_into_bytes keyword.HasNoAttachment = [char_of HASNOATTACHMENT]"
| "keyword_into_bytes keyword.Imported = [char_of IMPORTED]"
| "keyword_into_bytes keyword.IsTrusted = [char_of ISTRUSTED]"
| "keyword_into_bytes keyword.MailFlagBit0 = [char_of MAILFLAGBIT0]"
| "keyword_into_bytes keyword.MailFlagBit1 = [char_of MAILFLAGBIT1]"
| "keyword_into_bytes keyword.MailFlagBit2 = [char_of MAILFLAGBIT2]"
| "keyword_into_bytes keyword.MaskedEmail = [char_of MASKEDEMAIL]"
| "keyword_into_bytes keyword.Memo = [char_of MEMO]"
| "keyword_into_bytes keyword.Muted = [char_of MUTED]"
| "keyword_into_bytes keyword.New = [char_of NEW]"
| "keyword_into_bytes keyword.Notify = [char_of NOTIFY]"
| "keyword_into_bytes keyword.Unsubscribed = [char_of UNSUBSCRIBED]"
| "keyword_into_bytes (keyword.Other string) = string"

section \<open>The archived mirror\<close>

fun archived_keyword_fmt :: "archived_keyword \<Rightarrow> string" where
  "archived_keyword_fmt archived_keyword.Seen = ''$seen''"
| "archived_keyword_fmt archived_keyword.Draft = ''$draft''"
| "archived_keyword_fmt archived_keyword.Flagged = ''$flagged''"
| "archived_keyword_fmt archived_keyword.Answered = ''$answered''"
| "archived_keyword_fmt archived_keyword.Recent = ''$recent''"
| "archived_keyword_fmt archived_keyword.Important = ''$important''"
| "archived_keyword_fmt archived_keyword.Phishing = ''$phishing''"
| "archived_keyword_fmt archived_keyword.Junk = ''$junk''"
| "archived_keyword_fmt archived_keyword.NotJunk = ''$notjunk''"
| "archived_keyword_fmt archived_keyword.Deleted = ''$deleted''"
| "archived_keyword_fmt archived_keyword.Forwarded = ''$forwarded''"
| "archived_keyword_fmt archived_keyword.MdnSent = ''$mdnsent''"
| "archived_keyword_fmt archived_keyword.Autosent = ''$autosent''"
| "archived_keyword_fmt archived_keyword.CanUnsubscribe = ''$canunsubscribe''"
| "archived_keyword_fmt archived_keyword.Followed = ''$followed''"
| "archived_keyword_fmt archived_keyword.HasAttachment = ''$hasattachment''"
| "archived_keyword_fmt archived_keyword.HasMemo = ''$hasmemo''"
| "archived_keyword_fmt archived_keyword.HasNoAttachment = ''$hasnoattachment''"
| "archived_keyword_fmt archived_keyword.Imported = ''$imported''"
| "archived_keyword_fmt archived_keyword.IsTrusted = ''$istrusted''"
| "archived_keyword_fmt archived_keyword.MailFlagBit0 = ''$MailFlagBit0''"
| "archived_keyword_fmt archived_keyword.MailFlagBit1 = ''$MailFlagBit1''"
| "archived_keyword_fmt archived_keyword.MailFlagBit2 = ''$MailFlagBit2''"
| "archived_keyword_fmt archived_keyword.MaskedEmail = ''$maskedemail''"
| "archived_keyword_fmt archived_keyword.Memo = ''$memo''"
| "archived_keyword_fmt archived_keyword.Muted = ''$muted''"
| "archived_keyword_fmt archived_keyword.New = ''$new''"
| "archived_keyword_fmt archived_keyword.Notify = ''$notify''"
| "archived_keyword_fmt archived_keyword.Unsubscribed = ''$unsubscribed''"
| "archived_keyword_fmt (archived_keyword.Other s) = s"

fun archived_keyword_id :: "archived_keyword \<Rightarrow> string + u32" where
  "archived_keyword_id archived_keyword.Seen = Inr (of_nat SEEN)"
| "archived_keyword_id archived_keyword.Draft = Inr (of_nat DRAFT)"
| "archived_keyword_id archived_keyword.Flagged = Inr (of_nat FLAGGED)"
| "archived_keyword_id archived_keyword.Answered = Inr (of_nat ANSWERED)"
| "archived_keyword_id archived_keyword.Recent = Inr (of_nat RECENT)"
| "archived_keyword_id archived_keyword.Important = Inr (of_nat IMPORTANT)"
| "archived_keyword_id archived_keyword.Phishing = Inr (of_nat PHISHING)"
| "archived_keyword_id archived_keyword.Junk = Inr (of_nat JUNK)"
| "archived_keyword_id archived_keyword.NotJunk = Inr (of_nat NOTJUNK)"
| "archived_keyword_id archived_keyword.Deleted = Inr (of_nat DELETED)"
| "archived_keyword_id archived_keyword.Forwarded = Inr (of_nat FORWARDED)"
| "archived_keyword_id archived_keyword.MdnSent = Inr (of_nat MDN_SENT)"
| "archived_keyword_id archived_keyword.Autosent = Inr (of_nat AUTOSENT)"
| "archived_keyword_id archived_keyword.CanUnsubscribe = Inr (of_nat CANUNSUBSCRIBE)"
| "archived_keyword_id archived_keyword.Followed = Inr (of_nat FOLLOWED)"
| "archived_keyword_id archived_keyword.HasAttachment = Inr (of_nat HASATTACHMENT)"
| "archived_keyword_id archived_keyword.HasMemo = Inr (of_nat HASMEMO)"
| "archived_keyword_id archived_keyword.HasNoAttachment = Inr (of_nat HASNOATTACHMENT)"
| "archived_keyword_id archived_keyword.Imported = Inr (of_nat IMPORTED)"
| "archived_keyword_id archived_keyword.IsTrusted = Inr (of_nat ISTRUSTED)"
| "archived_keyword_id archived_keyword.MailFlagBit0 = Inr (of_nat MAILFLAGBIT0)"
| "archived_keyword_id archived_keyword.MailFlagBit1 = Inr (of_nat MAILFLAGBIT1)"
| "archived_keyword_id archived_keyword.MailFlagBit2 = Inr (of_nat MAILFLAGBIT2)"
| "archived_keyword_id archived_keyword.MaskedEmail = Inr (of_nat MASKEDEMAIL)"
| "archived_keyword_id archived_keyword.Memo = Inr (of_nat MEMO)"
| "archived_keyword_id archived_keyword.Muted = Inr (of_nat MUTED)"
| "archived_keyword_id archived_keyword.New = Inr (of_nat NEW)"
| "archived_keyword_id archived_keyword.Notify = Inr (of_nat NOTIFY)"
| "archived_keyword_id archived_keyword.Unsubscribed = Inr (of_nat UNSUBSCRIBED)"
| "archived_keyword_id (archived_keyword.Other string) = Inl string"

fun keyword_to_native :: "archived_keyword \<Rightarrow> keyword" where
  "keyword_to_native archived_keyword.Seen = keyword.Seen"
| "keyword_to_native archived_keyword.Draft = keyword.Draft"
| "keyword_to_native archived_keyword.Flagged = keyword.Flagged"
| "keyword_to_native archived_keyword.Answered = keyword.Answered"
| "keyword_to_native archived_keyword.Recent = keyword.Recent"
| "keyword_to_native archived_keyword.Important = keyword.Important"
| "keyword_to_native archived_keyword.Phishing = keyword.Phishing"
| "keyword_to_native archived_keyword.Junk = keyword.Junk"
| "keyword_to_native archived_keyword.NotJunk = keyword.NotJunk"
| "keyword_to_native archived_keyword.Deleted = keyword.Deleted"
| "keyword_to_native archived_keyword.Forwarded = keyword.Forwarded"
| "keyword_to_native archived_keyword.MdnSent = keyword.MdnSent"
| "keyword_to_native archived_keyword.Autosent = keyword.Autosent"
| "keyword_to_native archived_keyword.CanUnsubscribe = keyword.CanUnsubscribe"
| "keyword_to_native archived_keyword.Followed = keyword.Followed"
| "keyword_to_native archived_keyword.HasAttachment = keyword.HasAttachment"
| "keyword_to_native archived_keyword.HasMemo = keyword.HasMemo"
| "keyword_to_native archived_keyword.HasNoAttachment = keyword.HasNoAttachment"
| "keyword_to_native archived_keyword.Imported = keyword.Imported"
| "keyword_to_native archived_keyword.IsTrusted = keyword.IsTrusted"
| "keyword_to_native archived_keyword.MailFlagBit0 = keyword.MailFlagBit0"
| "keyword_to_native archived_keyword.MailFlagBit1 = keyword.MailFlagBit1"
| "keyword_to_native archived_keyword.MailFlagBit2 = keyword.MailFlagBit2"
| "keyword_to_native archived_keyword.MaskedEmail = keyword.MaskedEmail"
| "keyword_to_native archived_keyword.Memo = keyword.Memo"
| "keyword_to_native archived_keyword.Muted = keyword.Muted"
| "keyword_to_native archived_keyword.New = keyword.New"
| "keyword_to_native archived_keyword.Notify = keyword.Notify"
| "keyword_to_native archived_keyword.Unsubscribed = keyword.Unsubscribed"
| "keyword_to_native (archived_keyword.Other other) = keyword.Other other"

fun keyword_from_archived :: "archived_keyword \<Rightarrow> keyword" where
  "keyword_from_archived archived_keyword.Seen = keyword.Seen"
| "keyword_from_archived archived_keyword.Draft = keyword.Draft"
| "keyword_from_archived archived_keyword.Flagged = keyword.Flagged"
| "keyword_from_archived archived_keyword.Answered = keyword.Answered"
| "keyword_from_archived archived_keyword.Recent = keyword.Recent"
| "keyword_from_archived archived_keyword.Important = keyword.Important"
| "keyword_from_archived archived_keyword.Phishing = keyword.Phishing"
| "keyword_from_archived archived_keyword.Junk = keyword.Junk"
| "keyword_from_archived archived_keyword.NotJunk = keyword.NotJunk"
| "keyword_from_archived archived_keyword.Deleted = keyword.Deleted"
| "keyword_from_archived archived_keyword.Forwarded = keyword.Forwarded"
| "keyword_from_archived archived_keyword.MdnSent = keyword.MdnSent"
| "keyword_from_archived archived_keyword.Autosent = keyword.Autosent"
| "keyword_from_archived archived_keyword.CanUnsubscribe = keyword.CanUnsubscribe"
| "keyword_from_archived archived_keyword.Followed = keyword.Followed"
| "keyword_from_archived archived_keyword.HasAttachment = keyword.HasAttachment"
| "keyword_from_archived archived_keyword.HasMemo = keyword.HasMemo"
| "keyword_from_archived archived_keyword.HasNoAttachment = keyword.HasNoAttachment"
| "keyword_from_archived archived_keyword.Imported = keyword.Imported"
| "keyword_from_archived archived_keyword.IsTrusted = keyword.IsTrusted"
| "keyword_from_archived archived_keyword.MailFlagBit0 = keyword.MailFlagBit0"
| "keyword_from_archived archived_keyword.MailFlagBit1 = keyword.MailFlagBit1"
| "keyword_from_archived archived_keyword.MailFlagBit2 = keyword.MailFlagBit2"
| "keyword_from_archived archived_keyword.MaskedEmail = keyword.MaskedEmail"
| "keyword_from_archived archived_keyword.Memo = keyword.Memo"
| "keyword_from_archived archived_keyword.Muted = keyword.Muted"
| "keyword_from_archived archived_keyword.New = keyword.New"
| "keyword_from_archived archived_keyword.Notify = keyword.Notify"
| "keyword_from_archived archived_keyword.Unsubscribed = keyword.Unsubscribed"
| "keyword_from_archived (archived_keyword.Other string) = keyword.Other string"

section \<open>Lemmas\<close>

definition is_other :: "keyword \<Rightarrow> bool" where
  "is_other k \<longleftrightarrow> (\<exists>s. k = keyword.Other s)"

text \<open>The key of a known keyword in the parser's table.\<close>

definition keyword_key :: "keyword \<Rightarrow> string" where
  "keyword_key k = map to_ascii_lowercase (tl (keyword_fmt k))"

lemma mail_flag_lower:
  "char_of (109 :: nat) = CHR ''m''" "char_of (102 :: nat) = CHR ''f''" "char_of (98 :: nat) = CHR ''b''"
  by (code_simp, code_simp, code_simp)

interpretation keyword_codec: name_codec keyword_names keyword_key is_other
proof
  show "is_other x \<or> (keyword_key x, x) \<in> set keyword_names" for x
    by (cases x) (simp_all add: keyword_names_def is_other_def keyword_key_def
        mail_flag_lower to_ascii_lowercase_def is_ascii_uppercase_def)
  show "list_all (\<lambda>(s, x). keyword_key x = s \<and> \<not> is_other x) keyword_names"
    by (simp add: keyword_names_def is_other_def keyword_key_def
        mail_flag_lower to_ascii_lowercase_def is_ascii_uppercase_def)
  show "distinct (map fst keyword_names)" by (simp add: keyword_names_def)
qed

lemma keyword_fmt_prefix:
  "\<not> is_other k \<Longrightarrow> \<exists>rest. keyword_fmt k = CHR ''$'' # rest"
  by (cases k) (auto simp: is_other_def)

lemma keyword_try_parse_iff:
  "keyword_try_parse s = Some k \<longleftrightarrow>
     (\<exists>c rest. s = c # rest \<and> (c = CHR ''$'' \<or> c = BACKSLASH) \<and> \<not> is_other k
        \<and> keyword_key k = map to_ascii_lowercase rest)"
  by (cases s) (auto simp: keyword_try_parse_def keyword_codec.lookup_iff)

lemma keyword_try_parse_fmt: "\<not> is_other k \<Longrightarrow> keyword_try_parse (keyword_fmt k) = Some k"
  using keyword_fmt_prefix [of k] by (auto simp: keyword_try_parse_iff keyword_key_def)

lemma keyword_key_length: "\<not> is_other k \<Longrightarrow> length (keyword_key k) < 127"
  by (cases k) (auto simp: keyword_key_def is_other_def)

text \<open>A text that is not a known keyword is not one after cutting either: the cut is too long.\<close>

lemma try_parse_take:
  assumes "keyword_try_parse s = None"
  shows "keyword_try_parse (take_chars MAX_LENGTH s) = None"
proof (cases "count_chars s \<le> MAX_LENGTH")
  case True
  with assms show ?thesis by (simp add: take_chars_all)
next
  case False
  then have "count_chars (take_chars MAX_LENGTH s) = 128" by (simp add: count_take_chars)
  then have len: "128 \<le> length (take_chars MAX_LENGTH s)"
    using count_chars_le_length [of "take_chars MAX_LENGTH s"] by simp
  show ?thesis
  proof (rule ccontr)
    assume "keyword_try_parse (take_chars MAX_LENGTH s) \<noteq> None"
    then obtain k where "keyword_try_parse (take_chars MAX_LENGTH s) = Some k" by auto
    then obtain c rest where "take_chars MAX_LENGTH s = c # rest" "\<not> is_other k"
      "keyword_key k = map to_ascii_lowercase rest"
      unfolding keyword_try_parse_iff by auto
    with len keyword_key_length [of k] show False
      by (metis Suc_le_mono length_Cons length_map not_less eval_nat_numeral(2) numeral_nat)
  qed
qed

section \<open>Properties\<close>

text \<open>
  A known keyword is parsed from exactly its name, with a dollar sign or a backslash in
  front and in any case; its printed form is such a name, and no keyword in \<open>Other\<close> is
  returned by \<open>try_parse\<close>.
\<close>

theorem keyword_names_roundtrip:
  "(keyword_try_parse s = Some k \<longleftrightarrow>
      (\<exists>c rest. s = c # rest \<and> (c = CHR ''$'' \<or> c = BACKSLASH) \<and> \<not> is_other k
        \<and> eq_ignore_ascii_case (tl (keyword_fmt k)) rest))
   \<and> (case k of keyword.Other t \<Rightarrow> keyword_fmt k = t | _ \<Rightarrow> keyword_try_parse (keyword_fmt k) = Some k)"
proof -
  have "case k of keyword.Other t \<Rightarrow> keyword_fmt k = t | _ \<Rightarrow> keyword_try_parse (keyword_fmt k) = Some k"
    using keyword_try_parse_fmt [of k] by (cases "is_other k") (auto simp: is_other_def split: keyword.splits)
  then show ?thesis by (simp add: keyword_try_parse_iff keyword_key_def eq_ignore_ascii_case_def)
qed

text \<open>
  Parsing a keyword is total and stable: the result holds at most 128 characters of
  free text, printing and parsing it again changes nothing, and converting an owned string
  gives the same keyword as parsing it.
\<close>

theorem keyword_parse_stable:
  "keyword_parse (keyword_fmt (keyword_parse s)) = keyword_parse s
   \<and> keyword_from_string s = keyword_parse s
   \<and> (case keyword_parse s of keyword.Other t \<Rightarrow> count_chars t \<le> MAX_LENGTH | _ \<Rightarrow> True)"
proof (cases "keyword_try_parse s")
  case None
  then have "keyword_parse s = keyword.Other (take_chars MAX_LENGTH s)" by (simp add: keyword_parse_def)
  moreover from None have "keyword_from_string s = keyword.Other (take_chars MAX_LENGTH s)"
    using count_chars_le_length [of s] by (simp add: keyword_from_string_def keyword_from_other_def take_chars_all)
  ultimately show ?thesis
    using try_parse_take [OF None]
    by (simp add: keyword_parse_def [of "take_chars MAX_LENGTH s"] take_chars_idem count_take_chars)
next
  case (Some k)
  then have k: "keyword_parse s = k" "keyword_from_string s = k"
    by (simp_all add: keyword_parse_def keyword_from_string_def)
  from Some have "\<not> is_other k" by (auto simp: keyword_try_parse_iff)
  with k have k: "keyword_parse s = k" "keyword_from_string s = k" "\<not> is_other k" by auto
  then show ?thesis
    using keyword_try_parse_fmt [of k]
    by (auto simp: keyword_parse_def [of "keyword_fmt k"] is_other_def split: keyword.splits)
qed

text \<open>
  The number of a known keyword gives the keyword back and other keywords have none; a
  number that is not one of the 29 is returned as the error. The archived mirror and its two
  conversions agree with the native tables.
\<close>

theorem keyword_ids_roundtrip:
  "(case keyword_id k of Inr i \<Rightarrow> keyword_try_from_id (ucast i) = Inr k | Inl t \<Rightarrow> k = keyword.Other t)
   \<and> (case keyword_try_from_id n of Inr k' \<Rightarrow> keyword_id k' = Inr (ucast n) \<and> n < 29 | Inl m \<Rightarrow> m = n \<and> 29 \<le> n)
   \<and> keyword_into_id k = keyword_id k
   \<and> archived_keyword_id a = keyword_id (keyword_to_native a)
   \<and> archived_keyword_fmt a = keyword_fmt (keyword_to_native a)
   \<and> keyword_from_archived a = keyword_to_native a"
proof -
  have "case keyword_id k of Inr i \<Rightarrow> keyword_try_from_id (ucast i) = Inr k | Inl t \<Rightarrow> k = keyword.Other t"
    by (cases k) (simp_all add: keyword_try_from_id_def keyword_ids_def)
  moreover have "case keyword_try_from_id n of Inr k' \<Rightarrow> keyword_id k' = Inr (ucast n) \<and> n < 29 | Inl m \<Rightarrow> m = n \<and> 29 \<le> n"
  proof (cases "map_of keyword_ids (unat n)")
    case None
    then have "unat n \<notin> set (map fst keyword_ids)" by (simp add: map_of_eq_None_iff)
    then have "29 \<le> unat n" unfolding keyword_ids_def by simp presburger
    with None show ?thesis by (simp add: keyword_try_from_id_def word_le_nat_alt)
  next
    case (Some k')
    then have mem: "(unat n, k') \<in> set keyword_ids" by (rule map_of_SomeD)
    have "list_all (\<lambda>(i, k'). keyword_id k' = Inr (of_nat i) \<and> i < 29) keyword_ids"
      by (simp add: keyword_ids_def)
    with mem have "keyword_id k' = Inr (of_nat (unat n))" "unat n < 29" by (auto simp: list_all_iff)
    with Some show ?thesis by (simp add: keyword_try_from_id_def word_less_nat_alt)
  qed
  moreover have "keyword_into_id k = keyword_id k" by (cases k) simp_all
  moreover have "archived_keyword_id a = keyword_id (keyword_to_native a)"
    "archived_keyword_fmt a = keyword_fmt (keyword_to_native a)"
    "keyword_from_archived a = keyword_to_native a" by (cases a; simp)+
  ultimately show ?thesis by blast
qed

lemma keyword_known:
  "\<not> is_other k \<Longrightarrow> \<exists>i < 29. keyword_into_bytes k = [char_of i] \<and> keyword_id k = Inr (of_nat i)
     \<and> keyword_try_from_id (of_nat i) = Inr k"
proof -
  assume "\<not> is_other k"
  then have "k \<in> snd ` set keyword_ids" by (cases k) (simp_all add: is_other_def keyword_ids_def)
  then obtain i where "(i, k) \<in> set keyword_ids" by auto
  moreover have "list_all (\<lambda>(i, k). i < 29 \<and> keyword_into_bytes k = [char_of i] \<and> keyword_id k = Inr (of_nat i)
      \<and> keyword_try_from_id (of_nat i) = Inr k) keyword_ids"
    by (simp add: keyword_ids_def keyword_try_from_id_def)
  ultimately show ?thesis unfolding list_all_iff by (intro exI [of _ i]) blast
qed

lemma keyword_known_cases:
  obtains (known) i where "keyword_into_bytes k = [char_of i]" "keyword_id k = Inr (of_nat i)" "i < 29"
      "keyword_try_from_id (of_nat i) = Inr k"
    | (other) t where "k = keyword.Other t"
  using keyword_known [of k] by (auto simp: is_other_def)

lemma char_of_inject_less: "i < 256 \<Longrightarrow> j < 256 \<Longrightarrow> (char_of (i :: nat) :: char) = char_of j \<longleftrightarrow> i = j"
  by (metis of_char_of mod_less)

text \<open>
  The byte form of a keyword determines it among the known keywords and among the others,
  but not across: an \<open>Other\<close> holding one byte below 29 has the bytes of a known keyword.
\<close>

theorem keyword_bytes_injective:
  "keyword_into_bytes k = keyword_into_bytes k' \<longleftrightarrow> k = k'
      \<or> (\<exists>c. code c < 29 \<and> (k = keyword.Other [c] \<and> keyword_id k' = Inr (of_nat (code c))
                          \<or> k' = keyword.Other [c] \<and> keyword_id k = Inr (of_nat (code c))))"
proof -
  have other: "keyword_id k = Inl t \<longleftrightarrow> k = keyword.Other t" for k t by (cases k) auto
  have small: "(of_nat i :: u32) = of_nat j \<longleftrightarrow> i = j" if "i < 29" "j < 29" for i j :: nat
    using that by (simp add: word_unat_eq_iff unat_of_nat)
  show ?thesis
  proof (cases k rule: keyword_known_cases; cases k' rule: keyword_known_cases)
    fix i j
    assume "keyword_into_bytes k = [char_of i]" "keyword_id k = Inr (of_nat i)" "i < 29"
      "keyword_try_from_id (of_nat i) = Inr k"
      "keyword_into_bytes k' = [char_of j]" "keyword_id k' = Inr (of_nat j)" "j < 29"
      "keyword_try_from_id (of_nat j) = Inr k'"
    then show ?thesis using other [of k] other [of k'] by (auto simp: char_of_inject_less)
  next
    fix i t
    assume "keyword_into_bytes k = [char_of i]" "keyword_id k = Inr (of_nat i)" "i < 29" "k' = keyword.Other t"
    then show ?thesis by (auto simp: small of_char_of)
  next
    fix i t
    assume "keyword_into_bytes k' = [char_of i]" "keyword_id k' = Inr (of_nat i)" "i < 29" "k = keyword.Other t"
    then show ?thesis by (auto simp: small of_char_of)
  qed auto
qed

end
