(* ===== verification/Semver.thy ===== *)
theory Semver
  imports Prelude
begin

text \<open>
  \<^verbatim>\<open>crates/types/src/semver.rs\<close>: version numbers packed in a \<open>u64\<close>, sixteen bits per
  component. \<open>current()\<close> reads the package version from the build environment and is not
  modelled.
\<close>

section \<open>Packing\<close>

type_synonym semver = u64

definition semver_new :: "u16 \<Rightarrow> u16 \<Rightarrow> u16 \<Rightarrow> semver" where
  "semver_new major minor patch =
     0 OR push_bit 32 (ucast major) OR push_bit 16 (ucast minor) OR ucast patch"

definition semver_unpack :: "semver \<Rightarrow> u16 \<times> u16 \<times> u16" where
  "semver_unpack v =
     (ucast (drop_bit 32 v AND 0xFFFF), ucast (drop_bit 16 v AND 0xFFFF), ucast (v AND 0xFFFF))"

definition semver_major :: "semver \<Rightarrow> u16" where
  "semver_major v = ucast (drop_bit 32 v)"

definition semver_minor :: "semver \<Rightarrow> u16" where
  "semver_minor v = ucast (drop_bit 16 v)"

definition semver_patch :: "semver \<Rightarrow> u16" where
  "semver_patch v = ucast v"

definition semver_is_valid :: "semver \<Rightarrow> bool" where
  "semver_is_valid v \<longleftrightarrow> v > 0"

section \<open>Text form\<close>

text \<open>\<open>str::splitn\<close> on a one-byte separator.\<close>

fun split_first :: "char \<Rightarrow> string \<Rightarrow> string \<times> string option" where
  "split_first sep [] = ([], None)"
| "split_first sep (c # s) =
     (if c = sep then ([], Some s)
      else (case split_first sep s of (a, r) \<Rightarrow> (c # a, r)))"

fun splitn :: "nat \<Rightarrow> char \<Rightarrow> string \<Rightarrow> string list" where
  "splitn 0 sep s = []"
| "splitn (Suc 0) sep s = [s]"
| "splitn (Suc n) sep s =
     (case split_first sep s of (a, None) \<Rightarrow> [a] | (a, Some r) \<Rightarrow> a # splitn n sep r)"

fun next_u16 :: "string list \<Rightarrow> (u16 \<times> string list) option" where
  "next_u16 [] = None"
| "next_u16 (p # parts) = map_option (\<lambda>n. (of_nat n, parts)) (parse_unsigned (2 ^ 16) p)"

definition semver_try_from :: "string \<Rightarrow> semver option" where
  "semver_try_from s = do {
     (major, parts) \<leftarrow> next_u16 (splitn 3 (CHR ''.'') s);
     (minor, parts) \<leftarrow> next_u16 parts;
     (patch, parts) \<leftarrow> next_u16 parts;
     Some (semver_new major minor patch)
   }"

definition semver_fmt :: "semver \<Rightarrow> string" where
  "semver_fmt v =
     (case semver_unpack v of (major, minor, patch) \<Rightarrow>
        nat_to_string (unat major) @ ''.'' @ nat_to_string (unat minor) @ ''.'' @ nat_to_string (unat patch))"

section \<open>Lemmas\<close>

lemma bit_0xFFFF: "bit (0xFFFF :: int) i \<longleftrightarrow> i < 16"
proof -
  have eq: "(0xFFFF :: int) = mask 16" by (simp add: mask_eq_exp_minus_1)
  show ?thesis unfolding eq by (auto simp: bit_mask_iff)
qed

lemmas semver_defs = semver_new_def semver_unpack_def semver_major_def semver_minor_def semver_patch_def

lemma semver_unpack_new: "semver_unpack (semver_new a b c) = (a, b, c)"
  unfolding semver_defs prod.inject
  by (intro conjI; rule bit_word_eqI) (auto simp: bit_simps bit_0xFFFF dest: bit_imp_le_length)

lemma semver_unpack_fields: "semver_unpack v = (semver_major v, semver_minor v, semver_patch v)"
  unfolding semver_defs prod.inject
  by (intro conjI; rule bit_word_eqI) (auto simp: bit_simps bit_0xFFFF dest: bit_imp_le_length)

lemma u16_less: "unat (w :: u16) < 2 ^ 16"
  using unsigned_less [of w] by simp

lemma unat_ucast_u16: "unat (ucast (w :: u16) :: u64) = unat w"
  using u16_less [of w] by (simp add: unsigned_ucast_eq take_bit_nat_eq_self)

lemma u16_as_of_nat: "(ucast (w :: u16) :: u64) = of_nat (unat w)"
  by simp

lemma unat_semver_new: "unat (semver_new a b c) = unat a * 2 ^ 32 + unat b * 2 ^ 16 + unat c"
proof -
  have less: "unat a < 2 ^ 16" "unat b < 2 ^ 16" "unat c < 2 ^ 16" by (rule u16_less)+
  have p: "(push_bit 16 (ucast a) OR ucast b :: u64) = ucast a * 2 ^ 16 + ucast b"
    by (rule push_bit_or_add) (simp only: unat_ucast_u16 u16_less)
  have q: "(push_bit 16 (ucast a * 2 ^ 16 + ucast b) OR ucast c :: u64)
      = (ucast a * 2 ^ 16 + ucast b) * 2 ^ 16 + ucast c"
    by (rule push_bit_or_add) (simp only: unat_ucast_u16 u16_less)
  have "semver_new a b c = push_bit 16 (push_bit 16 (ucast a) OR ucast b) OR ucast c"
    unfolding semver_new_def by (rule bit_word_eqI) (auto simp: bit_simps)
  also have "\<dots> = of_nat (unat a * 2 ^ 32 + unat b * 2 ^ 16 + unat c)"
    unfolding p q unfolding u16_as_of_nat by (simp add: algebra_simps del: of_nat_unat)
  finally have "semver_new a b c = of_nat (unat a * 2 ^ 32 + unat b * 2 ^ 16 + unat c)" .
  moreover have "unat a * 2 ^ 32 + unat b * 2 ^ 16 + unat c < 2 ^ 64" using less by simp
  ultimately show ?thesis by (simp only: unat_of_nat) simp
qed

lemma split_first_digits:
  "list_all is_ascii_digit s \<Longrightarrow> split_first (CHR ''.'') (s @ CHR ''.'' # t) = (s, Some t)"
  by (induction s) (auto simp: is_ascii_digit_def)

lemma next_u16_print: "next_u16 (nat_to_string (unat (w :: u16)) # parts) = Some (w, parts)"
  using u16_less [of w] by (simp add: parse_unsigned_nat_to_string)

section \<open>Properties\<close>

text \<open>
  Packing is faithful: the accessors and \<open>unpack\<close> give back the components, and
  comparing two packed versions compares major, minor and patch lexicographically.
\<close>

theorem semver_pack:
  "semver_unpack (semver_new a b c) = (a, b, c)
   \<and> semver_unpack v = (semver_major v, semver_minor v, semver_patch v)
   \<and> (semver_new a b c < semver_new a' b' c' \<longleftrightarrow>
        a < a' \<or> a = a' \<and> b < b' \<or> a = a' \<and> b = b' \<and> c < c')"
proof -
  have less: "unat b < 2 ^ 16" "unat c < 2 ^ 16" "unat b' < 2 ^ 16" "unat c' < 2 ^ 16"
    by (rule u16_less)+
  have "semver_new a b c < semver_new a' b' c' \<longleftrightarrow>
      unat a < unat a' \<or> unat a = unat a' \<and> unat b < unat b'
      \<or> unat a = unat a' \<and> unat b = unat b' \<and> unat c < unat c'"
    unfolding word_less_nat_alt unat_semver_new using less by auto
  then show ?thesis
    by (simp only: semver_unpack_new semver_unpack_fields word_less_nat_alt word_unat_eq_iff)
      (metis semver_unpack_fields semver_unpack_new)
qed

text \<open>
  The text form of a version reads back as the version of its three components, which
  is the version itself when nothing is stored above bit 47.
\<close>

theorem semver_text_roundtrip:
  "semver_try_from (semver_fmt v) = Some (semver_new (semver_major v) (semver_minor v) (semver_patch v))
   \<and> (semver_new (semver_major v) (semver_minor v) (semver_patch v) = v \<longleftrightarrow> unat v < 2 ^ 48)"
proof
  let ?m = "semver_major v" and ?n = "semver_minor v" and ?p = "semver_patch v"
  have "splitn 3 (CHR ''.'') (semver_fmt v)
      = [nat_to_string (unat ?m), nat_to_string (unat ?n), nat_to_string (unat ?p)]"
    by (simp add: semver_fmt_def semver_unpack_fields numeral_3_eq_3 split_first_digits nat_to_string_digits)
  then show "semver_try_from (semver_fmt v) = Some (semver_new ?m ?n ?p)"
    by (simp add: semver_try_from_def next_u16_print del: next_u16.simps)
  show "semver_new ?m ?n ?p = v \<longleftrightarrow> unat v < 2 ^ 48"
  proof
    assume eq: "semver_new ?m ?n ?p = v"
    have "unat (semver_new ?m ?n ?p) < 2 ^ 48"
      using u16_less [of ?m] u16_less [of ?n] u16_less [of ?p] unfolding unat_semver_new by simp
    with eq show "unat v < 2 ^ 48" by simp
  next
    assume "unat v < 2 ^ 48"
    then have top: "i < 48" if "bit v i" for i using bit_less_exp that by blast
    have "bit (semver_new ?m ?n ?p) i = bit v i" if "i < 64" for i
    proof (cases "i < 32")
      case True
      then show ?thesis unfolding semver_defs by (auto simp: bit_simps)
    next
      case False
      then show ?thesis using top [of i] that unfolding semver_defs by (auto simp: bit_simps)
    qed
    then show "semver_new ?m ?n ?p = v" by (intro bit_word_eqI) simp
  qed
qed

end
