(* ===== verification/Glob.thy ===== *)
theory Glob
  imports Prelude
begin

text \<open>
  \<^verbatim>\<open>crates/utils/src/glob.rs\<close>: wildcard patterns, sets and maps of them, and the match
  types of the configuration. Patterns work on Unicode scalar values, so a \<open>&str\<close> is the
  list of its code points here. The case tables of Unicode are a parameter, the record
  \<open>unicode\<close>; what the theorems need of them is a hypothesis where it is needed.

  The matcher is an index loop that remembers one backtracking point, the last star. It is
  modelled as that loop, and \<open>glob_loop_correct\<close> shows that it always returns and agrees
  with the declarative meaning of the pattern.
\<close>

section \<open>Patterns\<close>

type_synonym scalar = nat
type_synonym ustring = "scalar list"

record unicode =
  is_uppercase :: "scalar \<Rightarrow> bool"
  char_to_lowercase :: "scalar \<Rightarrow> ustring"
  str_to_lowercase :: "ustring \<Rightarrow> ustring"

text \<open>The case tables restricted to ASCII, a concrete instance.\<close>

definition ascii :: unicode where
  "ascii =
     \<lparr>is_uppercase = (\<lambda>c. 65 \<le> c \<and> c \<le> 90),
      char_to_lowercase = (\<lambda>c. [if 65 \<le> c \<and> c \<le> 90 then c + 32 else c]),
      str_to_lowercase = map (\<lambda>c. if 65 \<le> c \<and> c \<le> 90 then c + 32 else c)\<rparr>"

abbreviation STAR :: scalar where "STAR \<equiv> 42"
abbreviation QMARK :: scalar where "QMARK \<equiv> 63"
abbreviation BSLASH :: scalar where "BSLASH \<equiv> 92"

text \<open>The fields \<open>match_pos\<close> are always 0 and never read; they are kept.\<close>

datatype pattern_char =
    WildcardMany nat nat
  | WildcardSingle nat
  | PChar scalar nat

record glob_pattern =
  pattern :: "pattern_char list"
  to_lower :: bool

section \<open>Compiling\<close>

text \<open>\<open>is_escaped\<close> is the state of the scanner; a star takes the stars that follow it.\<close>

function compile_loop :: "unicode \<Rightarrow> bool \<Rightarrow> bool \<Rightarrow> ustring \<Rightarrow> pattern_char list" where
  "compile_loop U lower is_escaped [] = []"
| "compile_loop U lower is_escaped (ch # str) =
     (if ch = STAR \<and> \<not> is_escaped then
        WildcardMany (1 + length (takeWhile (\<lambda>c. c = STAR) str)) 0
          # compile_loop U lower is_escaped (dropWhile (\<lambda>c. c = STAR) str)
      else if ch = QMARK \<and> \<not> is_escaped then
        WildcardSingle 0 # compile_loop U lower is_escaped str
      else if ch = BSLASH \<and> \<not> is_escaped then
        compile_loop U lower True str
      else
        (if lower \<and> is_uppercase U ch
         then map (\<lambda>c. PChar c 0) (char_to_lowercase U ch) else [PChar ch 0])
          @ compile_loop U lower False str)"
  by pat_completeness auto
termination
  by (relation "measure (\<lambda>(U, lower, esc, str). length str)")
    (auto simp: le_imp_less_Suc length_dropWhile_le)

definition glob_compile :: "unicode \<Rightarrow> ustring \<Rightarrow> bool \<Rightarrow> glob_pattern" where
  "glob_compile U pat lower = \<lparr>pattern = compile_loop U lower False pat, to_lower = lower\<rparr>"

text \<open>The detection loop of \<open>try_compile\<close>: \<open>(has_escape, is_glob)\<close> after the whole pattern.\<close>

fun detect_glob :: "ustring \<Rightarrow> scalar \<Rightarrow> bool \<Rightarrow> bool \<Rightarrow> bool \<times> bool" where
  "detect_glob [] last_ch has_escape is_glob = (has_escape, is_glob)"
| "detect_glob (ch # str) last_ch has_escape is_glob =
     (if ch = BSLASH then detect_glob str ch True is_glob
      else if (ch = STAR \<or> ch = QMARK) \<and> last_ch \<noteq> BSLASH
      then detect_glob str ch has_escape True
      else detect_glob str ch has_escape is_glob)"

definition glob_try_compile :: "unicode \<Rightarrow> ustring \<Rightarrow> bool \<Rightarrow> ustring + glob_pattern" where
  "glob_try_compile U pat lower =
     (case detect_glob pat 0 False False of
        (has_escape, is_glob) \<Rightarrow>
          if is_glob then Inr (glob_compile U pat lower)
          else Inl (if has_escape then filter (\<lambda>c. c \<noteq> BSLASH) pat else pat))"

section \<open>Matching\<close>

partial_function (option) glob_loop ::
  "pattern_char list \<Rightarrow> ustring \<Rightarrow> nat \<Rightarrow> nat \<Rightarrow> nat \<Rightarrow> nat \<Rightarrow> bool option" where
  "glob_loop pat val px nx next_px next_nx =
     (if px < length pat \<or> nx < length val then
        (case (if px < length pat then Some (pat ! px) else None) of
           Some (PChar ch _) \<Rightarrow>
             if nx < length val \<and> val ! nx = ch
             then glob_loop pat val (px + 1) (nx + 1) next_px next_nx
             else if 0 < next_nx \<and> next_nx \<le> length val
             then glob_loop pat val next_px next_nx next_px next_nx
             else Some False
         | Some (WildcardSingle _) \<Rightarrow>
             if nx < length val
             then glob_loop pat val (px + 1) (nx + 1) next_px next_nx
             else if 0 < next_nx \<and> next_nx \<le> length val
             then glob_loop pat val next_px next_nx next_px next_nx
             else Some False
         | Some (WildcardMany _ _) \<Rightarrow> glob_loop pat val (px + 1) nx px (nx + 1)
         | None \<Rightarrow>
             if 0 < next_nx \<and> next_nx \<le> length val
             then glob_loop pat val next_px next_nx next_px next_nx
             else Some False)
      else Some True)"

text \<open>\<^term>\<open>None\<close> is a loop that does not end; \<open>glob_matches_semantics\<close> says there is none.\<close>

definition glob_matches :: "unicode \<Rightarrow> glob_pattern \<Rightarrow> ustring \<Rightarrow> bool option" where
  "glob_matches U g value =
     glob_loop (pattern g) (if to_lower g then str_to_lowercase U value else value) 0 0 0 0"

section \<open>Glob sets and maps\<close>

record glob_set =
  set_entries :: "ustring set"
  set_patterns :: "glob_pattern list"

definition glob_set_new :: glob_set where
  "glob_set_new = \<lparr>set_entries = {}, set_patterns = []\<rparr>"

definition glob_set_insert_entry :: "glob_set \<Rightarrow> ustring \<Rightarrow> glob_set" where
  "glob_set_insert_entry s entry = s\<lparr>set_entries := insert entry (set_entries s)\<rparr>"

definition glob_set_insert_pattern :: "unicode \<Rightarrow> glob_set \<Rightarrow> ustring \<Rightarrow> glob_set" where
  "glob_set_insert_pattern U s pat =
     (case glob_try_compile U pat False of
        Inr glob \<Rightarrow> s\<lparr>set_patterns := set_patterns s @ [glob]\<rparr>
      | Inl entry \<Rightarrow> s\<lparr>set_entries := insert entry (set_entries s)\<rparr>)"

definition glob_set_contains :: "unicode \<Rightarrow> glob_set \<Rightarrow> ustring \<Rightarrow> bool" where
  "glob_set_contains U s key \<longleftrightarrow>
     key \<in> set_entries s \<or> list_ex (\<lambda>p. glob_matches U p key = Some True) (set_patterns s)"

record 'v glob_map =
  map_entries :: "ustring \<rightharpoonup> 'v"
  map_patterns :: "(glob_pattern \<times> 'v) list"

definition glob_map_new :: "'v glob_map" where
  "glob_map_new = \<lparr>map_entries = Map.empty, map_patterns = []\<rparr>"

definition glob_map_insert_entry :: "'v glob_map \<Rightarrow> ustring \<Rightarrow> 'v \<Rightarrow> 'v glob_map" where
  "glob_map_insert_entry m entry value = m\<lparr>map_entries := (map_entries m)(entry \<mapsto> value)\<rparr>"

definition glob_map_insert_pattern :: "unicode \<Rightarrow> 'v glob_map \<Rightarrow> ustring \<Rightarrow> 'v \<Rightarrow> 'v glob_map" where
  "glob_map_insert_pattern U m pat value =
     (case glob_try_compile U pat False of
        Inr glob \<Rightarrow> m\<lparr>map_patterns := map_patterns m @ [(glob, value)]\<rparr>
      | Inl entry \<Rightarrow> m\<lparr>map_entries := (map_entries m)(entry \<mapsto> value)\<rparr>)"

fun find_matching :: "unicode \<Rightarrow> (glob_pattern \<times> 'v) list \<Rightarrow> ustring \<Rightarrow> 'v option" where
  "find_matching U [] key = None"
| "find_matching U ((p, value) # ps) key =
     (if glob_matches U p key = Some True then Some value else find_matching U ps key)"

definition glob_map_get :: "unicode \<Rightarrow> 'v glob_map \<Rightarrow> ustring \<Rightarrow> 'v option" where
  "glob_map_get U m key =
     (case map_entries m key of Some v \<Rightarrow> Some v | None \<Rightarrow> find_matching U (map_patterns m) key)"

section \<open>Match types\<close>

datatype match_type =
    Equal ustring
  | StartsWith ustring
  | EndsWith ustring
  | Matches glob_pattern
  | All

definition match_type_parse :: "unicode \<Rightarrow> ustring \<Rightarrow> match_type" where
  "match_type_parse U value =
     (if value = [STAR] then All
      else if value \<noteq> [] \<and> last value = STAR then StartsWith (butlast value)
      else if value \<noteq> [] \<and> hd value = STAR then EndsWith (tl value)
      else if STAR \<in> set value then Matches (glob_compile U value False)
      else Equal value)"

fun match_type_matches :: "unicode \<Rightarrow> match_type \<Rightarrow> ustring \<Rightarrow> bool option" where
  "match_type_matches U (Equal pat) value = Some (value = pat)"
| "match_type_matches U (StartsWith pat) value = Some (take (length pat) value = pat)"
| "match_type_matches U (EndsWith pat) value =
     Some (length pat \<le> length value \<and> drop (length value - length pat) value = pat)"
| "match_type_matches U (Matches pat) value = glob_matches U pat value"
| "match_type_matches U All value = Some True"

section \<open>The meaning of a pattern\<close>

text \<open>The specification: a star stands for any text, a question mark for any one character.\<close>

fun glob_sem :: "pattern_char list \<Rightarrow> ustring \<Rightarrow> bool" where
  "glob_sem [] vs \<longleftrightarrow> vs = []"
| "glob_sem (PChar ch _ # p) vs \<longleftrightarrow> (case vs of [] \<Rightarrow> False | v # vs' \<Rightarrow> v = ch \<and> glob_sem p vs')"
| "glob_sem (WildcardSingle _ # p) vs \<longleftrightarrow> (case vs of [] \<Rightarrow> False | v # vs' \<Rightarrow> glob_sem p vs')"
| "glob_sem (WildcardMany _ _ # p) vs \<longleftrightarrow> (\<exists>k \<le> length vs. glob_sem p (drop k vs))"

definition is_many :: "pattern_char \<Rightarrow> bool" where
  "is_many c \<longleftrightarrow> (case c of WildcardMany _ _ \<Rightarrow> True | _ \<Rightarrow> False)"

lemma is_many_simps [simp]:
  "is_many (WildcardMany n m)" "\<not> is_many (WildcardSingle m)" "\<not> is_many (PChar c m)"
  by (simp_all add: is_many_def)

lemma glob_sem_many_drop:
  "glob_sem (WildcardMany n m # p) (drop d vs) \<Longrightarrow> glob_sem (WildcardMany n m # p) vs"
proof -
  assume "glob_sem (WildcardMany n m # p) (drop d vs)"
  then obtain k where "k \<le> length vs - d" "glob_sem p (drop (k + d) vs)" by auto
  then show ?thesis
    by (cases "d \<le> length vs") (auto intro: exI [of _ "k + d"] exI [of _ "length vs"])
qed

lemma glob_sem_many_unfold:
  "glob_sem (WildcardMany n m # p) vs \<longleftrightarrow>
     glob_sem p vs \<or> (vs \<noteq> [] \<and> glob_sem (WildcardMany n m # p) (tl vs))"
proof
  assume "glob_sem (WildcardMany n m # p) vs"
  then obtain k where k: "k \<le> length vs" "glob_sem p (drop k vs)" by auto
  show "glob_sem p vs \<or> (vs \<noteq> [] \<and> glob_sem (WildcardMany n m # p) (tl vs))"
  proof (cases k)
    case 0
    with k show ?thesis by simp
  next
    case (Suc j)
    with k have "vs \<noteq> []" "j \<le> length (tl vs)" "glob_sem p (drop j (tl vs))"
      by (auto simp: drop_Suc)
    then show ?thesis by auto
  qed
next
  assume "glob_sem p vs \<or> (vs \<noteq> [] \<and> glob_sem (WildcardMany n m # p) (tl vs))"
  then show "glob_sem (WildcardMany n m # p) vs"
    using glob_sem_many_drop [of n m p 1 vs] by (auto simp: drop_Suc)
qed

lemma glob_sem_segment:
  "\<forall>c \<in> set seg. \<not> is_many c \<Longrightarrow> glob_sem (seg @ q) vs \<Longrightarrow>
     length seg \<le> length vs \<and> glob_sem q (drop (length seg) vs)"
  by (induction "seg @ q" vs arbitrary: seg rule: glob_sem.induct)
    (auto simp: Cons_eq_append_conv split: list.splits)

section \<open>The loop computes the meaning\<close>

text \<open>
  Between the last star and the current position the pattern has no star, and as many
  characters were read as pattern positions passed; right after a backtrack the position is
  the star itself.
\<close>

definition glob_inv :: "pattern_char list \<Rightarrow> ustring \<Rightarrow> nat \<Rightarrow> nat \<Rightarrow> nat \<Rightarrow> nat \<Rightarrow> bool" where
  "glob_inv pat val px nx npx nnx \<longleftrightarrow>
     px \<le> length pat \<and> nx \<le> length val
     \<and> (0 < nnx \<longrightarrow> npx < length pat \<and> is_many (pat ! npx) \<and> nnx \<le> length val + 1
          \<and> (px = npx \<and> nx = nnx
             \<or> npx < px \<and> nx + npx + 2 = nnx + px \<and> (\<forall>i. npx < i \<and> i < px \<longrightarrow> \<not> is_many (pat ! i))))
     \<and> (glob_sem pat val \<longleftrightarrow> glob_sem (drop px pat) (drop nx val)
          \<or> 0 < nnx \<and> nnx \<le> length val \<and> glob_sem (drop npx pat) (drop nnx val))"

lemma glob_inv_init: "glob_inv pat val 0 0 0 0"
  by (simp add: glob_inv_def)

lemma pattern_char_cases:
  obtains (char) c m where "p = PChar c m" | (single) m where "p = WildcardSingle m"
    | (many) n m where "p = WildcardMany n m"
  by (cases p) auto

lemma drop_nth_Cons: "i < length xs \<Longrightarrow> drop i xs = xs ! i # drop (Suc i) xs"
  by (rule Cons_nth_drop_Suc [symmetric])

text \<open>A step that reads one character under a character or a question mark.\<close>

lemma glob_inv_advance:
  assumes inv: "glob_inv pat val px nx npx nnx" and px: "px < length pat" and nx: "nx < length val"
    and one: "\<not> is_many (pat ! px)"
    and sem: "glob_sem (drop px pat) (drop nx val) = glob_sem (drop (px + 1) pat) (drop (nx + 1) val)"
  shows "glob_inv pat val (px + 1) (nx + 1) npx nnx"
proof -
  have "px = npx \<longrightarrow> nnx = 0" using inv one by (auto simp: glob_inv_def)
  then show ?thesis
    using inv px nx one unfolding glob_inv_def sem by (auto simp: less_Suc_eq)
qed

text \<open>A step over a star, which becomes the new backtracking point.\<close>

lemma old_point_covered:
  assumes inv: "glob_inv pat val px nx npx nnx" and px: "px < length pat" and many: "is_many (pat ! px)"
    and alt: "0 < nnx" "nnx \<le> length val" "glob_sem (drop npx pat) (drop nnx val)"
  shows "glob_sem (drop px pat) (drop nx val)"
proof (cases "px = npx \<and> nx = nnx")
  case True
  with alt show ?thesis by simp
next
  case False
  with inv alt have pos: "npx < px" "nx + npx + 2 = nnx + px" "is_many (pat ! npx)"
    and seg: "\<And>i. npx < i \<Longrightarrow> i < px \<Longrightarrow> \<not> is_many (pat ! i)"
    by (auto simp: glob_inv_def)
  define mid where "mid = take (px - npx - 1) (drop (npx + 1) pat)"
  have len: "length mid = px - npx - 1" using px pos by (simp add: mid_def)
  have split: "drop npx pat = pat ! npx # mid @ drop px pat"
    using px pos append_take_drop_id [of "px - npx - 1" "drop (npx + 1) pat"]
    by (simp add: mid_def drop_nth_Cons [of npx])
  have "\<forall>c \<in> set mid. \<not> is_many c"
    using px seg by (auto simp: mid_def in_set_conv_nth)
  note segment = glob_sem_segment [OF this, of "drop px pat"]
  obtain n m where "pat ! npx = WildcardMany n m"
    using pos(3) by (cases "pat ! npx" rule: pattern_char_cases) auto
  with alt(3) obtain k where "glob_sem (mid @ drop px pat) (drop (k + nnx) val)"
    unfolding split by auto
  with segment [of "drop (k + nnx) val"]
  have rest: "glob_sem (drop px pat) (drop (length mid + (k + nnx)) val)" by simp
  have "length mid + (k + nnx) = nx + (k + 1)" using pos by (simp add: len)
  then have "drop (length mid + (k + nnx)) val = drop (k + 1) (drop nx val)"
    by (simp only: drop_drop add.commute)
  moreover obtain n m where "drop px pat = WildcardMany n m # drop (Suc px) pat"
    using px many by (cases "pat ! px" rule: pattern_char_cases) (auto simp: drop_nth_Cons)
  ultimately show ?thesis using rest glob_sem_many_drop by metis
qed

lemma glob_inv_star:
  assumes inv: "glob_inv pat val px nx npx nnx" and px: "px < length pat" and many: "is_many (pat ! px)"
  shows "glob_inv pat val (px + 1) nx px (nx + 1)"
proof -
  obtain n m where d: "drop px pat = WildcardMany n m # drop (px + 1) pat"
    using px many by (cases "pat ! px" rule: pattern_char_cases) (auto simp: drop_nth_Cons)
  have nx: "nx \<le> length val" using inv by (simp add: glob_inv_def)
  have "glob_sem pat val \<longleftrightarrow> glob_sem (drop px pat) (drop nx val)"
    using inv old_point_covered [OF inv px many] by (auto simp: glob_inv_def)
  also have "\<dots> \<longleftrightarrow> glob_sem (drop (px + 1) pat) (drop nx val)
      \<or> 0 < nx + 1 \<and> nx + 1 \<le> length val \<and> glob_sem (drop px pat) (drop (nx + 1) val)"
    using nx unfolding d by (subst glob_sem_many_unfold) (auto simp: tl_drop drop_Suc)
  finally show ?thesis using px many nx by (auto simp: glob_inv_def)
qed

text \<open>When the current position fails, only the backtracking point is left.\<close>

lemma glob_inv_backtrack:
  assumes inv: "glob_inv pat val px nx npx nnx" and fail: "\<not> glob_sem (drop px pat) (drop nx val)"
    and "0 < nnx" "nnx \<le> length val"
  shows "glob_inv pat val npx nnx npx nnx"
  using assms by (auto simp: glob_inv_def)

lemma glob_inv_fail:
  assumes "glob_inv pat val px nx npx nnx" and "\<not> glob_sem (drop px pat) (drop nx val)"
    and "\<not> (0 < nnx \<and> nnx \<le> length val)"
  shows "\<not> glob_sem pat val"
  using assms by (auto simp: glob_inv_def)

definition glob_measure :: "pattern_char list \<Rightarrow> ustring \<Rightarrow> ((nat \<times> nat \<times> nat \<times> nat) \<times> (nat \<times> nat \<times> nat \<times> nat)) set" where
  "glob_measure pat val = measures
     [\<lambda>(px, nx, npx, nnx). length val + 1 - nnx,
      \<lambda>(px, nx, npx, nnx). length pat - npx,
      \<lambda>(px, nx, npx, nnx). if 0 < nnx \<and> px = npx then 0 else 1 + length pat - px]"

lemma wf_glob_measure: "wf (glob_measure pat val)"
  by (simp add: glob_measure_def)

text \<open>The last character that fails, and the end of the pattern with text left, do not match.\<close>

lemma glob_fail_cases:
  assumes "px < length pat \<or> nx < length val" and "nx \<le> length val"
    and "px < length pat \<Longrightarrow> \<not> is_many (pat ! px)"
    and "px < length pat \<Longrightarrow> nx < length val \<Longrightarrow> \<exists>c m. pat ! px = PChar c m \<and> val ! nx \<noteq> c"
  shows "\<not> glob_sem (drop px pat) (drop nx val)"
proof (cases "px < length pat")
  case False
  with assms(1,2) show ?thesis by simp
next
  case True
  show ?thesis
  proof (cases "nx < length val")
    case True
    with \<open>px < length pat\<close> assms(4) show ?thesis by (auto simp: drop_nth_Cons)
  next
    case False
    with \<open>px < length pat\<close> assms(3) show ?thesis
      by (cases "pat ! px" rule: pattern_char_cases) (auto simp: drop_nth_Cons)
  qed
qed

lemma glob_loop_correct:
  "glob_inv pat val px nx npx nnx \<Longrightarrow> glob_loop pat val px nx npx nnx = Some (glob_sem pat val)"
proof (induction "(px, nx, npx, nnx)" arbitrary: px nx npx nnx rule: wf_induct_rule [OF wf_glob_measure [of pat val]])
  case 1
  note inv = "1.prems"
  have bounds: "px \<le> length pat" "nx \<le> length val" using inv by (simp_all add: glob_inv_def)
  show ?case
  proof (cases "px < length pat \<or> nx < length val")
    case False
    with bounds inv have "glob_sem pat val" by (simp add: glob_inv_def)
    with False show ?thesis by (subst glob_loop.simps) simp
  next
    case more: True
    have backtrack: "(if 0 < nnx \<and> nnx \<le> length val then glob_loop pat val npx nnx npx nnx else Some False)
        = Some (glob_sem pat val)" if fail: "\<not> glob_sem (drop px pat) (drop nx val)"
        and one: "px < length pat \<longrightarrow> \<not> is_many (pat ! px)"
    proof (cases "0 < nnx \<and> nnx \<le> length val")
      case True
      then have "\<not> (px = npx \<and> nx = nnx)" using inv one by (auto simp: glob_inv_def)
      then have "((npx, nnx, npx, nnx), (px, nx, npx, nnx)) \<in> glob_measure pat val"
        using inv True by (auto simp: glob_measure_def glob_inv_def)
      from "1.hyps" [OF this glob_inv_backtrack [OF inv fail]] True show ?thesis by simp
    next
      case False
      with glob_inv_fail [OF inv fail False] show ?thesis by auto
    qed
    show ?thesis
    proof (cases "px < length pat")
      case False
      with more bounds have "\<not> glob_sem (drop px pat) (drop nx val)" by simp
      from backtrack [OF this] False more show ?thesis by (subst glob_loop.simps) simp
    next
      case px: True
      show ?thesis
      proof (cases "is_many (pat ! px)")
        case True
        have "((px + 1, nx, px, nx + 1), (px, nx, npx, nnx)) \<in> glob_measure pat val"
          using inv px by (auto simp: glob_measure_def glob_inv_def)
        from "1.hyps" [OF this glob_inv_star [OF inv px True]] px True show ?thesis
          by (subst glob_loop.simps) (auto simp: is_many_def split: pattern_char.splits)
      next
        case one: False
        show ?thesis
        proof (cases "nx < length val \<and> (\<forall>c m. pat ! px = PChar c m \<longrightarrow> val ! nx = c)")
          case True
          have "glob_sem (drop px pat) (drop nx val) = glob_sem (drop (px + 1) pat) (drop (nx + 1) val)"
            using True px one by (cases "pat ! px" rule: pattern_char_cases) (auto simp: drop_nth_Cons)
          from glob_inv_advance [OF inv px _ one this] True
          have inv': "glob_inv pat val (px + 1) (nx + 1) npx nnx" by blast
          have "((px + 1, nx + 1, npx, nnx), (px, nx, npx, nnx)) \<in> glob_measure pat val"
            using inv px one by (auto simp: glob_measure_def glob_inv_def)
          from "1.hyps" [OF this inv'] px True one show ?thesis
            by (subst glob_loop.simps) (auto simp: is_many_def split: pattern_char.splits)
        next
          case False
          then have "\<not> glob_sem (drop px pat) (drop nx val)"
            using more bounds one by (intro glob_fail_cases) auto
          from backtrack [OF this] px one False show ?thesis
            by (subst glob_loop.simps) (auto simp: is_many_def split: pattern_char.splits)
        qed
      qed
    qed
  qed
qed

lemmas glob_matches_eq = glob_matches_def glob_loop_correct [OF glob_inv_init]

section \<open>Properties\<close>

text \<open>
  C29: matching a pattern always returns, and returns whether the text has the meaning of
  the pattern: a star matches any text, a question mark any one character, a character itself.
\<close>

theorem glob_matches_semantics:
  "glob_matches U g value =
     Some (glob_sem (pattern g) (if to_lower g then str_to_lowercase U value else value))"
  unfolding glob_matches_def by (rule glob_loop_correct [OF glob_inv_init])

text \<open>Quoting a text for use inside a pattern: a backslash before each special character.\<close>

definition special :: "scalar \<Rightarrow> bool" where
  "special c \<longleftrightarrow> c = STAR \<or> c = QMARK \<or> c = BSLASH"

fun glob_quote :: "ustring \<Rightarrow> ustring" where
  "glob_quote [] = []"
| "glob_quote (c # s) = (if special c then BSLASH # c # glob_quote s else c # glob_quote s)"

lemma compile_quote:
  "compile_loop U False False (glob_quote s @ t) = map (\<lambda>c. PChar c 0) s @ compile_loop U False False t"
  by (induction s) (auto simp: special_def)

lemma glob_sem_chars: "glob_sem (map (\<lambda>c. PChar c 0) s @ p) vs \<longleftrightarrow> (\<exists>ws. vs = s @ ws \<and> glob_sem p ws)"
proof (induction s arbitrary: vs)
  case Nil
  then show ?case by simp
next
  case (Cons c s)
  then show ?case by (cases vs) auto
qed

lemma glob_sem_star: "glob_sem [WildcardMany n m] vs"
  by auto

text \<open>
  Compiled patterns mean what they say: a quoted text matches itself only, and a quoted
  text with a star before or after it matches the texts that end or start with it.
\<close>

theorem glob_compile_literals:
  "glob_matches U (glob_compile U (glob_quote s) False) v = Some (v = s)
   \<and> glob_matches U (glob_compile U (glob_quote s @ [STAR]) False) v = Some (take (length s) v = s)
   \<and> glob_matches U (glob_compile U (STAR # glob_quote s) False) v
       = Some (length s \<le> length v \<and> drop (length v - length s) v = s)"
proof -
  have star: "compile_loop U False False (STAR # glob_quote s) = WildcardMany n 0 # map (\<lambda>c. PChar c 0) s"
    if "n = 1 + length (takeWhile (\<lambda>c. c = STAR) (glob_quote s))" for n
  proof -
    have "takeWhile (\<lambda>c. c = STAR) (glob_quote s) = []" "dropWhile (\<lambda>c. c = STAR) (glob_quote s) = glob_quote s"
      by (cases s; simp add: special_def)+
    with that compile_quote [of U s "[]"] show ?thesis by simp
  qed
  have literal: "glob_sem (map (\<lambda>c. PChar c 0) s) v \<longleftrightarrow> v = s" for v
    using glob_sem_chars [of s "[]" v] by auto
  have prefix: "glob_sem (map (\<lambda>c. PChar c 0) s @ [WildcardMany n 0]) v \<longleftrightarrow> take (length s) v = s" for n v
    unfolding glob_sem_chars using glob_sem_star [of n 0]
    by (auto simp del: glob_sem.simps) (metis append_take_drop_id)
  have suffix: "glob_sem (WildcardMany n 0 # map (\<lambda>c. PChar c 0) s) v
      \<longleftrightarrow> length s \<le> length v \<and> drop (length v - length s) v = s" for n v
    by (auto simp: literal intro: exI [of _ "length v - length s"])
  show ?thesis
    using compile_quote [of U s "[]"] compile_quote [of U s "[STAR]"]
    by (simp only: glob_matches_eq glob_compile_def star [OF refl] prefix suffix literal
        glob_pattern.select_convs if_False append_Nil2) (simp add: prefix literal)
qed

text \<open>
  A match type decides what its notation says: without a star, equality; with one star
  at the end or at the start, prefix or suffix; with a star inside, the pattern.
\<close>

theorem match_type_semantics:
  assumes "STAR \<notin> set s"
  shows "match_type_matches U (match_type_parse U s) v = Some (v = s)
   \<and> match_type_matches U (match_type_parse U (s @ [STAR])) v = Some (take (length s) v = s)
   \<and> match_type_matches U (match_type_parse U (STAR # s)) v
       = Some (length s \<le> length v \<and> drop (length v - length s) v = s)"
proof -
  have "s \<noteq> [] \<Longrightarrow> last s \<noteq> STAR \<and> hd s \<noteq> STAR" using assms last_in_set hd_in_set by metis
  then show ?thesis using assms by (cases "s = []") (auto simp: match_type_parse_def)
qed

theorem match_type_semantics_witness:
  "match_type_matches ascii (match_type_parse ascii ([97, 98] @ [STAR])) [97, 98, 99] = Some True"
proof -
  have "STAR \<notin> set [97, 98]" by simp
  from match_type_semantics [OF this, of ascii "[97, 98, 99]"] show ?thesis by simp
qed

text \<open>
  A star at both ends is not a substring search: the last star is taken as "starts with"
  and the first one stays a literal star, so only a value that starts with a star matches.
  The same notation compiled as a pattern matches every value that contains the text.
\<close>

theorem match_type_two_stars:
  "match_type_matches U (match_type_parse U (STAR # s @ [STAR])) v = Some (take (Suc (length s)) v = STAR # s)
   \<and> glob_matches U (glob_compile U (STAR # glob_quote s @ [STAR]) False) (t @ s @ t') = Some True"
proof
  show "match_type_matches U (match_type_parse U (STAR # s @ [STAR])) v = Some (take (Suc (length s)) v = STAR # s)"
    by (simp add: match_type_parse_def butlast_append)
  have many: "glob_sem [WildcardMany n m] vs" for n m vs by (rule glob_sem_star)
  have "glob_sem (compile_loop U False False (STAR # glob_quote s @ [STAR])) (t @ s @ t')"
  proof (cases s)
    case Nil
    then show ?thesis by (simp add: many del: glob_sem.simps)
  next
    case (Cons c s')
    then have "takeWhile (\<lambda>c. c = STAR) (glob_quote s @ [STAR]) = []"
      "dropWhile (\<lambda>c. c = STAR) (glob_quote s @ [STAR]) = glob_quote s @ [STAR]"
      by (simp_all add: special_def)
    then have "compile_loop U False False (STAR # glob_quote s @ [STAR])
        = WildcardMany 1 0 # map (\<lambda>c. PChar c 0) s @ [WildcardMany 1 0]"
      using compile_quote [of U s "[STAR]"] by simp
    moreover have "glob_sem (map (\<lambda>c. PChar c 0) s @ [WildcardMany 1 0]) (drop (length t) (t @ s @ t'))"
      unfolding glob_sem_chars using many by auto
    ultimately show ?thesis
      by (simp only: glob_sem.simps(4)) (intro exI [of _ "length t"], simp)
  qed
  then show "glob_matches U (glob_compile U (STAR # glob_quote s @ [STAR]) False) (t @ s @ t') = Some True"
    by (simp only: glob_matches_eq glob_compile_def glob_pattern.select_convs if_False)
qed

lemma detect_plain:
  "BSLASH \<notin> set p \<Longrightarrow> last_ch \<noteq> BSLASH \<Longrightarrow>
     detect_glob p last_ch False is_glob = (False, is_glob \<or> STAR \<in> set p \<or> QMARK \<in> set p)"
  by (induction p arbitrary: last_ch is_glob) auto

lemma try_compile_plain:
  "BSLASH \<notin> set p \<Longrightarrow> glob_try_compile U p lower =
     (if STAR \<in> set p \<or> QMARK \<in> set p then Inr (glob_compile U p lower) else Inl p)"
  by (simp add: glob_try_compile_def detect_plain)

lemma compile_plain_literal:
  "set p \<inter> {BSLASH, STAR, QMARK} = {} \<Longrightarrow> glob_sem (pattern (glob_compile U p False)) v \<longleftrightarrow> v = p"
proof -
  assume "set p \<inter> {BSLASH, STAR, QMARK} = {}"
  then have "glob_quote p = p" by (induction p) (auto simp: special_def)
  then show ?thesis
    using compile_quote [of U p "[]"] glob_sem_chars [of p "[]" v] by (simp add: glob_compile_def)
qed

text \<open>The keys a pattern stands for, whichever of its two representations is stored.\<close>

lemma glob_set_contains_insert:
  assumes "BSLASH \<notin> set p"
  shows "glob_set_contains U (glob_set_insert_pattern U s p) key \<longleftrightarrow>
     glob_set_contains U s key \<or> glob_sem (pattern (glob_compile U p False)) key"
proof (cases "STAR \<in> set p \<or> QMARK \<in> set p")
  case True
  have "glob_matches U (glob_compile U p False) key = Some (glob_sem (pattern (glob_compile U p False)) key)"
    by (simp add: glob_matches_eq glob_compile_def)
  with True show ?thesis
    by (auto simp: glob_set_insert_pattern_def try_compile_plain [OF assms] glob_set_contains_def)
next
  case False
  with assms have "glob_sem (pattern (glob_compile U p False)) key \<longleftrightarrow> key = p"
    by (intro compile_plain_literal) auto
  with False show ?thesis
    by (auto simp: glob_set_insert_pattern_def try_compile_plain [OF assms] glob_set_contains_def)
qed

lemma find_matching_None:
  "find_matching U ps key = None \<longleftrightarrow> (\<forall>(g, v) \<in> set ps. glob_matches U g key \<noteq> Some True)"
  by (induction U ps key rule: find_matching.induct) auto

lemma glob_map_get_insert:
  assumes "BSLASH \<notin> set p"
  shows "glob_map_get U (glob_map_insert_pattern U m p v) key = None \<longleftrightarrow>
     glob_map_get U m key = None \<and> \<not> glob_sem (pattern (glob_compile U p False)) key"
proof (cases "STAR \<in> set p \<or> QMARK \<in> set p")
  case True
  have "glob_matches U (glob_compile U p False) key = Some (glob_sem (pattern (glob_compile U p False)) key)"
    by (simp add: glob_matches_eq glob_compile_def)
  with True show ?thesis
    by (auto simp: glob_map_insert_pattern_def try_compile_plain [OF assms] glob_map_get_def
        find_matching_None split: option.splits)
next
  case False
  with assms have "glob_sem (pattern (glob_compile U p False)) key \<longleftrightarrow> key = p"
    by (intro compile_plain_literal) auto
  with False show ?thesis
    by (auto simp: glob_map_insert_pattern_def try_compile_plain [OF assms] glob_map_get_def
        find_matching_None split: option.splits)
qed

text \<open>
  C36: a glob set or map built by inserting patterns without backslashes covers exactly the
  keys that have the meaning of one of the patterns, whether a pattern was stored as a literal
  entry or compiled.
\<close>

theorem glob_containers_cover:
  assumes "\<forall>p \<in> set pats. BSLASH \<notin> set p"
  shows "(glob_set_contains U (foldl (glob_set_insert_pattern U) glob_set_new pats) key
      \<longleftrightarrow> (\<exists>p \<in> set pats. glob_sem (pattern (glob_compile U p False)) key))
   \<and> (glob_map_get U (foldl (\<lambda>m p. glob_map_insert_pattern U m p (value p)) glob_map_new pats) key \<noteq> None
      \<longleftrightarrow> (\<exists>p \<in> set pats. glob_sem (pattern (glob_compile U p False)) key))"
proof -
  have "glob_set_contains U (foldl (glob_set_insert_pattern U) s pats) key
      \<longleftrightarrow> glob_set_contains U s key \<or> (\<exists>p \<in> set pats. glob_sem (pattern (glob_compile U p False)) key)" for s
    using assms by (induction pats arbitrary: s) (auto simp: glob_set_contains_insert)
  moreover have "glob_map_get U (foldl (\<lambda>m p. glob_map_insert_pattern U m p (value p)) m pats) key = None
      \<longleftrightarrow> glob_map_get U m key = None \<and> \<not> (\<exists>p \<in> set pats. glob_sem (pattern (glob_compile U p False)) key)" for m
    using assms by (induction pats arbitrary: m) (auto simp: glob_map_get_insert)
  ultimately show ?thesis
    by (simp add: glob_set_contains_def glob_set_new_def glob_map_get_def glob_map_new_def)
qed

theorem glob_containers_cover_witness:
  "glob_set_contains ascii (foldl (glob_set_insert_pattern ascii) glob_set_new [[97], [STAR, 98]]) [97]"
proof -
  have "\<forall>p \<in> set [[97], [STAR, 98]]. BSLASH \<notin> set p" by simp
  from glob_containers_cover [OF this, of ascii "[97]" id]
  show ?thesis by (simp add: glob_compile_def is_many_def)
qed

text \<open>
  The literal test of \<open>try_compile\<close> and the compiler agree on patterns without a
  backslash; with one they do not: two backslashes and a star are a literal star to
  \<open>try_compile\<close> and a backslash followed by anything to the compiler.
\<close>

theorem try_compile_agrees:
  "(BSLASH \<notin> set pat \<longrightarrow>
      (case glob_try_compile U pat False of
         Inr g \<Rightarrow> g = glob_compile U pat False
       | Inl e \<Rightarrow> glob_matches U (glob_compile U pat False) v = Some (v = e)))
   \<and> glob_try_compile U [BSLASH, BSLASH, STAR] lower = Inl [STAR]
   \<and> glob_matches U (glob_compile U [BSLASH, BSLASH, STAR] False) (BSLASH # v) = Some True"
proof -
  have matches: "glob_matches U (glob_compile U p False) w = Some (glob_sem (pattern (glob_compile U p False)) w)" for p w
    by (simp add: glob_matches_eq glob_compile_def)
  have "BSLASH \<notin> set pat \<longrightarrow> (case glob_try_compile U pat False of
      Inr g \<Rightarrow> g = glob_compile U pat False
    | Inl e \<Rightarrow> glob_matches U (glob_compile U pat False) v = Some (v = e))"
    unfolding matches by (auto simp: try_compile_plain compile_plain_literal)
  moreover have "glob_compile U [BSLASH, BSLASH, STAR] False = \<lparr>pattern = [PChar BSLASH 0, WildcardMany 1 0], to_lower = False\<rparr>"
    by (simp add: glob_compile_def)
  then have "glob_matches U (glob_compile U [BSLASH, BSLASH, STAR] False) (BSLASH # v) = Some True"
    unfolding matches using glob_sem_star [of 1 0 v] by (simp del: glob_sem.simps(4))
  ultimately show ?thesis by (simp add: glob_try_compile_def)
qed

theorem try_compile_agrees_witness:
  "glob_matches ascii (glob_compile ascii [97, 98] False) [97, 98] = Some True"
  using try_compile_agrees [of "[97, 98]" ascii "[97, 98]" False] by (simp add: glob_try_compile_def)

end
