(* ===== verification/Snowflake.thy ===== *)
theory Snowflake
  imports Prelude
begin

text \<open>
  \<^verbatim>\<open>crates/utils/src/snowflake.rs\<close>: identifiers made of a millisecond clock (43 bits), a
  sequence number (12 bits) and a node number (9 bits), used for change ids and object ids.

  System times and durations are nanoseconds since the Unix epoch (\<^typ>\<open>nat\<close>); each
  reading of the clock is an argument, in the order the code reads it. The process-wide node
  number and sequence are the record \<open>sf_globals\<close>; a \<open>fetch_add\<close> returns the old
  value and leaves the increment, wrapping at 64 bits.
\<close>

section \<open>State\<close>

record generator =
  epoch :: nat
  sequence :: u64

record sf_globals =
  NODE_ID :: u64
  SEQUENCE_ID :: u64

definition SEQUENCE_LEN :: nat where "SEQUENCE_LEN = 12"
definition NODE_ID_LEN :: nat where "NODE_ID_LEN = 9"
definition SEQUENCE_MASK :: u64 where "SEQUENCE_MASK = push_bit SEQUENCE_LEN 1 - 1"
definition NODE_ID_MASK :: u64 where "NODE_ID_MASK = push_bit NODE_ID_LEN 1 - 1"
definition DEFAULT_EPOCH :: nat where "DEFAULT_EPOCH = 1632280000"

abbreviation ns_per_sec :: nat where "ns_per_sec \<equiv> 1000000000"
abbreviation ns_per_ms :: nat where "ns_per_ms \<equiv> 1000000"

definition globals_init :: sf_globals where
  "globals_init = \<lparr>NODE_ID = 1, SEQUENCE_ID = 0\<rparr>"

section \<open>Operations\<close>

definition generator_new :: generator where
  "generator_new = \<lparr>epoch = DEFAULT_EPOCH * ns_per_sec, sequence = 0\<rparr>"

definition generator_clone :: "generator \<Rightarrow> generator" where
  "generator_clone g = \<lparr>epoch = epoch g, sequence = 0\<rparr>"

definition set_node_id :: "u64 \<Rightarrow> sf_globals \<Rightarrow> sf_globals" where
  "set_node_id node G =
     (let node' = node AND NODE_ID_MASK
      in if node' \<noteq> NODE_ID G then G\<lparr>NODE_ID := node'\<rparr> else G)"

text \<open>\<open>SystemTime::elapsed\<close> fails when the clock is before the epoch.\<close>

definition elapsed :: "nat \<Rightarrow> nat \<Rightarrow> nat option" where
  "elapsed start now = (if start \<le> now then Some (now - start) else None)"

definition checked_sub :: "nat \<Rightarrow> nat \<Rightarrow> nat option" where
  "checked_sub a b = (if b \<le> a then Some (a - b) else None)"

text \<open>\<open>as_millis() as u64\<close>: the high bits of the \<open>u128\<close> are dropped.\<close>

definition as_millis :: "nat \<Rightarrow> u64" where
  "as_millis d = of_nat (d div ns_per_ms)"

definition from_duration :: "nat \<Rightarrow> nat \<Rightarrow> u64 option" where
  "from_duration now period =
     map_option (\<lambda>e. push_bit (SEQUENCE_LEN + NODE_ID_LEN) (as_millis e))
       (Option.bind (elapsed (DEFAULT_EPOCH * ns_per_sec) now) (\<lambda>e. checked_sub e period))"

definition from_timestamp :: "nat \<Rightarrow> nat \<Rightarrow> u64 \<Rightarrow> u64 option" where
  "from_timestamp now now' timestamp =
     Option.bind (checked_sub (now div ns_per_sec) (unat timestamp))
       (\<lambda>diff. from_duration now' (diff * ns_per_sec))"

definition global_id_from_timestamp :: "nat \<Rightarrow> nat \<Rightarrow> u64 \<Rightarrow> sf_globals \<Rightarrow> u64 option \<times> sf_globals" where
  "global_id_from_timestamp now now' timestamp G =
     (let seq = SEQUENCE_ID G AND SEQUENCE_MASK;
          G' = G\<lparr>SEQUENCE_ID := SEQUENCE_ID G + 1\<rparr>
      in (map_option (\<lambda>i. i OR push_bit NODE_ID_LEN seq OR NODE_ID G') (from_timestamp now now' timestamp), G'))"

definition global_id :: "nat \<Rightarrow> sf_globals \<Rightarrow> u64 option \<times> sf_globals" where
  "global_id now G =
     (let seq = SEQUENCE_ID G AND SEQUENCE_MASK;
          G' = G\<lparr>SEQUENCE_ID := SEQUENCE_ID G + 1\<rparr>
      in (map_option (\<lambda>e. push_bit (SEQUENCE_LEN + NODE_ID_LEN) (as_millis e)
            OR push_bit NODE_ID_LEN seq OR NODE_ID G') (elapsed (DEFAULT_EPOCH * ns_per_sec) now), G'))"

definition to_timestamp :: "u64 \<Rightarrow> u64" where
  "to_timestamp i = drop_bit (SEQUENCE_LEN + NODE_ID_LEN) i div 1000 + of_nat DEFAULT_EPOCH"

definition past_id :: "generator \<Rightarrow> nat \<Rightarrow> nat \<Rightarrow> u64 option" where
  "past_id g now period =
     map_option (\<lambda>e. push_bit (SEQUENCE_LEN + NODE_ID_LEN) (as_millis e))
       (Option.bind (elapsed (epoch g) now) (\<lambda>e. checked_sub e period))"

definition generator_is_valid :: "generator \<Rightarrow> nat \<Rightarrow> bool" where
  "generator_is_valid g now \<longleftrightarrow> elapsed (epoch g) now \<noteq> None"

text \<open>\<open>generate\<close>: a clock before the epoch counts as no time elapsed.\<close>

definition generate :: "sf_globals \<Rightarrow> nat \<Rightarrow> generator \<Rightarrow> u64 \<times> generator" where
  "generate G now g =
     (let e = (case elapsed (epoch g) now of Some d \<Rightarrow> as_millis d | None \<Rightarrow> 0);
          seq = sequence g AND SEQUENCE_MASK;
          g' = g\<lparr>sequence := sequence g + 1\<rparr>
      in (push_bit (SEQUENCE_LEN + NODE_ID_LEN) e OR push_bit NODE_ID_LEN seq OR NODE_ID G, g'))"

section \<open>The three fields of an identifier\<close>

definition node_ok :: "sf_globals \<Rightarrow> bool" where
  "node_ok G \<longleftrightarrow> unat (NODE_ID G) < 512"

lemma masks: "SEQUENCE_MASK = mask 12" "NODE_ID_MASK = mask 9"
  by (simp_all add: SEQUENCE_MASK_def NODE_ID_MASK_def SEQUENCE_LEN_def NODE_ID_LEN_def
      mask_eq_exp_minus_1 push_bit_eq_mult)

lemmas lens = SEQUENCE_LEN_def NODE_ID_LEN_def

lemma len_sum: "SEQUENCE_LEN + NODE_ID_LEN = 21"
  by (simp add: lens)

definition sf_pack :: "u64 \<Rightarrow> u64 \<Rightarrow> u64 \<Rightarrow> u64" where
  "sf_pack e seq node = push_bit 21 e OR push_bit 9 (seq AND mask 12) OR node"

lemma sf_pack_fields:
  assumes "unat node < 512"
  shows "drop_bit 21 (sf_pack e seq node) = take_bit 43 e"
    and "take_bit 12 (drop_bit 9 (sf_pack e seq node)) = take_bit 12 seq"
    and "take_bit 9 (sf_pack e seq node) = node"
proof -
  have node: "bit node i \<Longrightarrow> i < 9" for i using bit_less_exp [of node 9 i] assms by simp
  show "drop_bit 21 (sf_pack e seq node) = take_bit 43 e"
    by (rule bit_word_eqI) (auto simp: sf_pack_def bit_simps dest: node)
  show "take_bit 12 (drop_bit 9 (sf_pack e seq node)) = take_bit 12 seq"
    by (rule bit_word_eqI) (auto simp: sf_pack_def bit_simps dest: node)
  show "take_bit 9 (sf_pack e seq node) = node"
    by (rule bit_word_eqI) (auto simp: sf_pack_def bit_simps dest: node)
qed

lemma sf_pack_eq_iff:
  assumes "unat node < 512" "unat node' < 512"
  shows "sf_pack e seq node = sf_pack e' seq' node' \<longleftrightarrow>
    take_bit 43 e = take_bit 43 e' \<and> take_bit 12 seq = take_bit 12 seq' \<and> node = node'"
proof
  assume "sf_pack e seq node = sf_pack e' seq' node'"
  then show "take_bit 43 e = take_bit 43 e' \<and> take_bit 12 seq = take_bit 12 seq' \<and> node = node'"
    using sf_pack_fields [OF assms(1), of e seq] sf_pack_fields [OF assms(2), of e' seq'] by metis
next
  assume eq: "take_bit 43 e = take_bit 43 e' \<and> take_bit 12 seq = take_bit 12 seq' \<and> node = node'"
  have "push_bit 21 w = push_bit 21 (take_bit 43 w)" for w :: u64
    by (rule bit_word_eqI) (auto simp: bit_simps)
  with eq show "sf_pack e seq node = sf_pack e' seq' node'"
    unfolding sf_pack_def by (metis take_bit_eq_mask)
qed

lemma generate_pack:
  "fst (generate G now g) =
     sf_pack (case elapsed (epoch g) now of Some d \<Rightarrow> as_millis d | None \<Rightarrow> 0) (sequence g) (NODE_ID G)"
  by (simp add: generate_def Let_def sf_pack_def lens masks)

lemma generate_state: "snd (generate G now g) = g\<lparr>sequence := sequence g + 1\<rparr>"
  by (simp add: generate_def Let_def)

text \<open>A generator that is asked for one identifier per clock reading.\<close>

fun generate_many :: "sf_globals \<Rightarrow> nat list \<Rightarrow> generator \<Rightarrow> u64 list" where
  "generate_many G [] g = []"
| "generate_many G (now # nows) g =
     (case generate G now g of (i, g') \<Rightarrow> i # generate_many G nows g')"

definition ms_at :: "generator \<Rightarrow> nat \<Rightarrow> u64" where
  "ms_at g now = (case elapsed (epoch g) now of Some d \<Rightarrow> as_millis d | None \<Rightarrow> 0)"

lemma generate_many_nth:
  "i < length nows \<Longrightarrow>
     generate_many G nows g ! i = sf_pack (ms_at g (nows ! i)) (sequence g + of_nat i) (NODE_ID G)"
proof (induction nows arbitrary: g i)
  case Nil
  then show ?case by simp
next
  case (Cons now nows)
  show ?case
  proof (cases i)
    case 0
    then show ?thesis by (simp add: ms_at_def split: prod.split flip: generate_pack)
  next
    case (Suc j)
    with Cons.prems Cons.IH [of j "snd (generate G now g)"] show ?thesis
      by (simp add: split_beta generate_state ms_at_def algebra_simps)
  qed
qed

lemma length_generate_many: "length (generate_many G nows g) = length nows"
  by (induction G nows g rule: generate_many.induct) (auto split: prod.split)

lemma mod_add_cancel: "(a + i) mod m = (a + j) mod m \<longleftrightarrow> i mod m = j mod m" for a i j m :: nat
proof -
  have "(int (a + i)) mod int m = (int (a + j)) mod int m \<longleftrightarrow> int i mod int m = int j mod int m"
    by (simp add: mod_eq_dvd_iff)
  then show ?thesis by (simp only: zmod_int [symmetric] of_nat_eq_iff)
qed

lemma low_sequence: "unat (take_bit 12 (s + of_nat i :: u64)) = (unat s + i) mod 4096"
proof -
  have "s + of_nat i = of_nat (unat s + i)" by simp
  then have "unat (s + of_nat i) = (unat s + i) mod 2 ^ 64" by (simp only: unat_of_nat) simp
  moreover have "(2 :: nat) ^ 12 dvd 2 ^ 64" by (rule le_imp_power_dvd) simp
  ultimately have "take_bit 12 (unat (s + of_nat i)) = (unat s + i) mod 2 ^ 12"
    by (simp only: take_bit_nat_def mod_mod_cancel)
  then show ?thesis by (simp only: unsigned_take_bit_eq) simp
qed

section \<open>Properties\<close>

text \<open>
  C32: two identifiers of one generator are equal exactly when they were made in the same
  millisecond and a multiple of 4096 calls apart: up to 4096 identifiers per millisecond are
  distinct, and the code does not stop a caller from asking for more.
\<close>

theorem generate_unique:
  assumes "node_ok G" and "i < length nows" and "j < length nows"
  shows "generate_many G nows g ! i = generate_many G nows g ! j \<longleftrightarrow>
     take_bit 43 (ms_at g (nows ! i)) = take_bit 43 (ms_at g (nows ! j)) \<and> i mod 4096 = j mod 4096"
proof -
  have "take_bit 12 (sequence g + of_nat i) = take_bit 12 (sequence g + of_nat j) \<longleftrightarrow> i mod 4096 = j mod 4096"
    by (simp only: word_unat_eq_iff low_sequence mod_add_cancel)
  then show ?thesis
    using assms by (simp add: generate_many_nth sf_pack_eq_iff node_ok_def)
qed

theorem generate_unique_witness:
  "generate_many globals_init [1632280000000000000, 1632280000000000001] generator_new ! 0
     \<noteq> generate_many globals_init [1632280000000000000, 1632280000000000001] generator_new ! 1"
proof -
  have "node_ok globals_init" by (simp add: node_ok_def globals_init_def)
  from generate_unique [OF this, of 0 "[1632280000000000000, 1632280000000000001]" 1 generator_new]
  show ?thesis by simp
qed

lemma take_bit_43: "unat w < 2 ^ 43 \<Longrightarrow> take_bit 43 (w :: u64) = w"
  by (simp add: word_unat_eq_iff unsigned_take_bit_eq take_bit_nat_eq_self)

text \<open>
  Identifiers are ordered by time: of two identifiers of generators with any sequence
  and node numbers, the one made in the earlier millisecond is the smaller, until the clock
  leaves its 43 bits.
\<close>

theorem generate_time_ordered:
  assumes "node_ok G" and "node_ok G'" and "ms_at g now < ms_at g' now'" and "unat (ms_at g' now') < 2 ^ 43"
  shows "fst (generate G now g) < fst (generate G' now' g')"
proof -
  have small: "unat (ms_at g now) < 2 ^ 43" using assms(3,4) by (simp add: word_less_nat_alt)
  have eq: "fst (generate G now g) = sf_pack (ms_at g now) (sequence g) (NODE_ID G)"
    "fst (generate G' now' g') = sf_pack (ms_at g' now') (sequence g') (NODE_ID G')"
    by (simp_all add: generate_pack ms_at_def)
  have "unat (fst (generate G now g)) div 2 ^ 21 = unat (ms_at g now)"
    "unat (fst (generate G' now' g')) div 2 ^ 21 = unat (ms_at g' now')"
    using assms(1,2) small assms(4) unfolding eq unat_drop_bit_div [symmetric] node_ok_def
    by (simp_all only: sf_pack_fields take_bit_43)
  with assms(3) show ?thesis
    unfolding word_less_nat_alt by (metis div_le_mono not_less)
qed

theorem generate_time_ordered_witness:
  "fst (generate globals_init 1632280000000000000 generator_new)
     < fst (generate globals_init 1632280000001000000 generator_new)"
proof -
  have "node_ok globals_init" by (simp add: node_ok_def globals_init_def)
  moreover have "ms_at generator_new 1632280000000000000 < ms_at generator_new 1632280000001000000"
    "unat (ms_at generator_new 1632280000001000000) < 2 ^ 43"
    by (simp_all add: ms_at_def elapsed_def generator_new_def DEFAULT_EPOCH_def as_millis_def)
  ultimately show ?thesis by (intro generate_time_ordered)
qed

text \<open>
  The identifier made for a timestamp between the epoch and now reads back as that
  timestamp, off by the seconds that pass between the two clock readings.
\<close>

theorem timestamp_roundtrip:
  assumes "now \<le> now'" and "DEFAULT_EPOCH \<le> unat ts" and "unat ts \<le> now div ns_per_sec"
    and "now' div ns_per_ms < 2 ^ 43"
  shows "\<exists>i. from_timestamp now now' ts = Some i
     \<and> unat (to_timestamp i) = unat ts + (now' div ns_per_sec - now div ns_per_sec)"
proof -
  define diff where "diff = now div ns_per_sec - unat ts"
  have secs: "now div ns_per_sec \<le> now' div ns_per_sec" using assms(1) by (rule div_le_mono)
  then have "DEFAULT_EPOCH + diff \<le> now' div ns_per_sec" using assms(2,3) by (simp add: diff_def)
  then have "(DEFAULT_EPOCH + diff) * ns_per_sec \<le> now' div ns_per_sec * ns_per_sec" by (rule mult_le_mono1)
  also have "\<dots> \<le> now'" by simp
  finally obtain M where M: "now' = (DEFAULT_EPOCH + diff) * ns_per_sec + M"
    using le_Suc_ex by blast
  then have "elapsed (DEFAULT_EPOCH * ns_per_sec) now' = Some (diff * ns_per_sec + M)"
    by (simp add: elapsed_def algebra_simps)
  then have id: "from_timestamp now now' ts = Some (push_bit 21 (as_millis M))"
    using assms(3) by (simp add: from_timestamp_def from_duration_def checked_sub_def lens diff_def)
  have millis: "M div ns_per_ms < 2 ^ 43"
  proof -
    have "M div ns_per_ms \<le> now' div ns_per_ms" using M by (intro div_le_mono) simp
    with assms(4) show ?thesis by simp
  qed
  then have u: "unat (as_millis M) = M div ns_per_ms" by (simp add: as_millis_def unat_of_nat)
  have "drop_bit 21 (push_bit 21 (as_millis M)) = take_bit 43 (as_millis M)"
    by (rule bit_word_eqI) (auto simp: bit_simps)
  then have shifted: "drop_bit 21 (push_bit 21 (as_millis M)) = as_millis M"
    using millis by (simp add: take_bit_43 u)
  have sec: "unat (as_millis M div 1000) = M div ns_per_sec"
    by (simp add: unat_div u flip: div_mult2_eq)
  have "unat (as_millis M div 1000) \<le> M div ns_per_ms" by (simp add: sec div_le_mono2)
  then have "unat (as_millis M div 1000 + of_nat DEFAULT_EPOCH) = M div ns_per_sec + DEFAULT_EPOCH"
    using millis by (subst unat_add_lem [THEN iffD1]) (simp_all add: DEFAULT_EPOCH_def sec)
  then have "unat (to_timestamp (push_bit 21 (as_millis M))) = M div ns_per_sec + DEFAULT_EPOCH"
    by (simp only: to_timestamp_def len_sum shifted)
  moreover have "now' div ns_per_sec = DEFAULT_EPOCH + diff + M div ns_per_sec"
    unfolding M by simp
  ultimately have "unat (to_timestamp (push_bit 21 (as_millis M)))
      = unat ts + (now' div ns_per_sec - now div ns_per_sec)"
    using secs assms(3) unfolding diff_def by linarith
  with id show ?thesis by (intro exI conjI)
qed

theorem timestamp_roundtrip_witness:
  "\<exists>i. from_timestamp 1700000000000000000 1700000000000000000 1650000000 = Some i
     \<and> unat (to_timestamp i) = 1650000000"
  using timestamp_roundtrip [of 1700000000000000000 1700000000000000000 1650000000]
  by (simp add: DEFAULT_EPOCH_def)

end
