(* ===== verification/Topological.thy ===== *)
theory Topological
  imports Prelude
begin

text \<open>
  \<^verbatim>\<open>crates/utils/src/topological.rs\<close>: topological sorting, used to order the objects
  a request creates. The two hash maps are maps; \<open>retain\<close> visits the keys of a hash map in
  an unspecified order, which is the argument \<open>order\<close> of \<open>into_iterator\<close>. The deque
  is a list whose head is its front.
\<close>

section \<open>State and operations\<close>

record 'a topo_sort =
  ts_edges :: "'a \<rightharpoonup> 'a list"
  ts_count :: "'a \<rightharpoonup> nat"

record 'a topo_iterator =
  it_edges :: "'a \<rightharpoonup> 'a list"
  it_count :: "'a \<rightharpoonup> nat"
  no_edges :: "'a list"

definition topo_new :: "'a topo_sort" where
  "topo_new = \<lparr>ts_edges = Map.empty, ts_count = Map.empty\<rparr>"

definition or_insert :: "('a \<rightharpoonup> 'b) \<Rightarrow> 'a \<Rightarrow> 'b \<Rightarrow> 'a \<rightharpoonup> 'b" where
  "or_insert m k d = (case m k of None \<Rightarrow> m(k \<mapsto> d) | Some _ \<Rightarrow> m)"

definition topo_insert :: "'a topo_sort \<Rightarrow> 'a \<Rightarrow> 'a \<Rightarrow> 'a topo_sort" where
  "topo_insert s u v =
     (let count = or_insert (ts_count s) u 0;
          edges = or_insert (ts_edges s) u [];
          edges = edges(u := map_option (\<lambda>vs. vs @ [v]) (edges u));
          count = or_insert count v 0;
          count = count(v := map_option Suc (count v))
      in s\<lparr>ts_edges := edges, ts_count := count\<rparr>)"

definition topo_into_iterator :: "'a topo_sort \<Rightarrow> 'a list \<Rightarrow> 'a topo_iterator" where
  "topo_into_iterator s order =
     \<lparr>it_edges = ts_edges s,
      it_count = (\<lambda>v. if ts_count s v = Some 0 then None else ts_count s v),
      no_edges = filter (\<lambda>v. ts_count s v = Some 0) order\<rparr>"

text \<open>The body of the loop over the neighbours.\<close>

definition topo_neighbor :: "'a topo_iterator \<Rightarrow> 'a \<Rightarrow> 'a topo_iterator" where
  "topo_neighbor it v =
     (case it_count it v of
        None \<Rightarrow> it
      | Some c \<Rightarrow>
          if c - 1 = 0
          then it\<lparr>it_count := (it_count it)(v := None), no_edges := v # no_edges it\<rparr>
          else it\<lparr>it_count := (it_count it)(v \<mapsto> c - 1)\<rparr>)"

definition topo_next :: "'a topo_iterator \<Rightarrow> 'a option \<times> 'a topo_iterator" where
  "topo_next it =
     (if no_edges it = [] then (None, it)
      else
        (let u = last (no_edges it);
             it = it\<lparr>no_edges := butlast (no_edges it)\<rparr>
         in (Some u,
             case it_edges it u of None \<Rightarrow> it | Some vs \<Rightarrow> foldl topo_neighbor it vs)))"

definition topo_is_valid :: "'a topo_iterator \<Rightarrow> bool" where
  "topo_is_valid it \<longleftrightarrow> it_count it = Map.empty"

text \<open>The caller's loop: take items until there are none, then look at \<open>is_valid\<close>.\<close>

partial_function (option) topo_drain :: "'a list \<Rightarrow> 'a topo_iterator \<Rightarrow> ('a list \<times> 'a topo_iterator) option" where
  "topo_drain out it =
     (case topo_next it of
        (None, it') \<Rightarrow> Some (out, it')
      | (Some u, it') \<Rightarrow> topo_drain (out @ [u]) it')"

section \<open>What the builder holds\<close>

definition topo_build :: "('a \<times> 'a) list \<Rightarrow> 'a topo_sort" where
  "topo_build es = foldl (\<lambda>s (u, v). topo_insert s u v) topo_new es"

definition nodes :: "('a \<times> 'a) list \<Rightarrow> 'a set" where
  "nodes es = fst ` set es \<union> snd ` set es"

text \<open>In-edges of \<open>v\<close> that do not come from \<open>done\<close>, and successors of \<open>u\<close>.\<close>

definition pending :: "('a \<times> 'a) list \<Rightarrow> 'a set \<Rightarrow> 'a \<Rightarrow> nat" where
  "pending es from v = length (filter (\<lambda>(u, w). w = v \<and> u \<notin> from) es)"

definition succs :: "('a \<times> 'a) list \<Rightarrow> 'a \<Rightarrow> 'a list" where
  "succs es u = map snd (filter (\<lambda>(w, _). w = u) es)"

lemma topo_build_snoc: "topo_build (es @ [(u, v)]) = topo_insert (topo_build es) u v"
  by (simp add: topo_build_def)

lemma topo_build_holds:
  "ts_count (topo_build es) v = (if v \<in> nodes es then Some (pending es {} v) else None)"
  "ts_edges (topo_build es) u = (if succs es u = [] then None else Some (succs es u))"
proof (induction es arbitrary: u v rule: rev_induct)
  case Nil
  {
    case 1
    then show ?case by (simp add: topo_build_def topo_new_def nodes_def)
  next
    case 2
    then show ?case by (simp add: topo_build_def topo_new_def succs_def)
  }
next
  case (snoc e es)
  obtain a b where e: "e = (a, b)" by (cases e)
  {
    case 1
    then show ?case using snoc.IH(1)
      by (auto simp: e topo_build_snoc topo_insert_def Let_def or_insert_def nodes_def pending_def split: option.splits)
        (force simp: filter_empty_conv)+
  next
    case 2
    then show ?case using snoc.IH(2)
      by (auto simp: e topo_build_snoc topo_insert_def Let_def or_insert_def succs_def split: option.splits)
  }
qed

lemma pending_empty_iff: "pending es from v = 0 \<longleftrightarrow> (\<forall>u. (u, v) \<in> set es \<longrightarrow> u \<in> from)"
  by (auto simp: pending_def filter_empty_conv)

lemma pending_insert:
  "x \<notin> from \<Longrightarrow> pending es from v = pending es (insert x from) v + count_list (succs es x) v"
  by (induction es) (auto simp: pending_def succs_def)

section \<open>The invariant of the iteration\<close>

text \<open>
  Nodes are taken or queued once; a node leaves the count when all its predecessors have been
  taken; the remaining counts are the in-edges from nodes not yet taken.
\<close>

definition topo_inv :: "('a \<times> 'a) list \<Rightarrow> 'a list \<Rightarrow> 'a topo_iterator \<Rightarrow> bool" where
  "topo_inv es out it \<longleftrightarrow>
     it_edges it = ts_edges (topo_build es)
     \<and> distinct (out @ no_edges it)
     \<and> set out \<union> set (no_edges it) \<union> dom (it_count it) = nodes es
     \<and> (set out \<union> set (no_edges it)) \<inter> dom (it_count it) = {}
     \<and> (\<forall>v. it_count it v = None \<longrightarrow> pending es (set out) v = 0)
     \<and> (\<forall>v c. it_count it v = Some c \<longrightarrow> c = pending es (set out) v \<and> 0 < c)
     \<and> (\<forall>xs v ys. out = xs @ v # ys \<longrightarrow> (\<forall>u. (u, v) \<in> set es \<longrightarrow> u \<in> set xs))"

text \<open>The same while the neighbours \<open>vs\<close> of the last taken node are still to be visited.\<close>

definition neighbor_inv :: "('a \<times> 'a) list \<Rightarrow> 'a set \<Rightarrow> 'a list \<Rightarrow> 'a topo_iterator \<Rightarrow> bool" where
  "neighbor_inv es taken vs it \<longleftrightarrow>
     it_edges it = ts_edges (topo_build es)
     \<and> distinct (no_edges it) \<and> set (no_edges it) \<inter> taken = {}
     \<and> taken \<union> set (no_edges it) \<union> dom (it_count it) = nodes es
     \<and> (taken \<union> set (no_edges it)) \<inter> dom (it_count it) = {}
     \<and> (\<forall>v. it_count it v = None \<longrightarrow> pending es taken v = 0 \<and> v \<notin> set vs)
     \<and> (\<forall>v c. it_count it v = Some c \<longrightarrow> c = pending es taken v + count_list vs v \<and> 0 < c)"

lemma neighbor_invD:
  assumes "neighbor_inv es taken vs it"
  shows "it_edges it = ts_edges (topo_build es)" "distinct (no_edges it)"
    "set (no_edges it) \<inter> taken = {}"
    "taken \<union> set (no_edges it) \<union> dom (it_count it) = nodes es"
    "(taken \<union> set (no_edges it)) \<inter> dom (it_count it) = {}"
    "it_count it v = None \<Longrightarrow> pending es taken v = 0 \<and> v \<notin> set vs"
    "it_count it v = Some c \<Longrightarrow> c = pending es taken v + count_list vs v \<and> 0 < c"
  using assms unfolding neighbor_inv_def by blast+

lemma topo_iterator_upd:
  "it_edges (it\<lparr>it_count := m\<rparr>) = it_edges it" "no_edges (it\<lparr>it_count := m\<rparr>) = no_edges it"
  "it_count (it\<lparr>it_count := m\<rparr>) = m"
  by simp_all

lemma neighbor_step:
  assumes inv: "neighbor_inv es taken (v # vs) it"
  shows "neighbor_inv es taken vs (topo_neighbor it v)"
proof -
  note D = neighbor_invD [OF inv]
  obtain c where c: "it_count it v = Some c" "c = pending es taken v + Suc (count_list vs v)"
    using D(6,7) [of v] by (cases "it_count it v") auto
  then have dom: "v \<in> dom (it_count it)" by blast
  then have fresh: "v \<notin> taken" "v \<notin> set (no_edges it)" using D(5) by auto
  show ?thesis
  proof (cases "c = 1")
    case True
    with c have zero: "pending es taken v = 0" "v \<notin> set vs" by (auto simp: count_list_0_iff)
    have eq: "topo_neighbor it v = it\<lparr>it_count := (it_count it)(v := None), no_edges := v # no_edges it\<rparr>"
      using True c by (simp add: topo_neighbor_def)
    have dom': "dom ((it_count it)(v := None)) = dom (it_count it) - {v}" by auto
    have none: "pending es taken w = 0 \<and> w \<notin> set vs" if "w \<noteq> v \<longrightarrow> it_count it w = None" for w
      using that zero D(6) [of w] by (cases "w = v") auto
    have some: "c' = pending es taken w + count_list vs w \<and> 0 < c'"
      if "w \<noteq> v" "it_count it w = Some c'" for w c'
      using that D(7) [of w c'] by (metis count_list.simps(2))
    have "neighbor_inv es taken vs (it\<lparr>it_count := (it_count it)(v := None), no_edges := v # no_edges it\<rparr>)"
      using D(1-5) fresh dom none some unfolding neighbor_inv_def by (simp add: dom') blast
    then show ?thesis by (simp only: eq)
  next
    case False
    have eq: "topo_neighbor it v = it\<lparr>it_count := (it_count it)(v \<mapsto> c - 1)\<rparr>"
      using False c by (auto simp: topo_neighbor_def)
    have dom': "dom ((it_count it)(v \<mapsto> c - 1)) = dom (it_count it)" using dom by auto
    have none: "pending es taken w = 0 \<and> w \<notin> set vs" if "((it_count it)(v \<mapsto> c - 1)) w = None" for w
      using that D(6) [of w] by (cases "w = v") auto
    have some: "c' = pending es taken w + count_list vs w \<and> 0 < c'"
      if "((it_count it)(v \<mapsto> c - 1)) w = Some c'" for w c'
      using that c False D(7) [of w c'] by (cases "w = v") (auto simp del: neq0_conv)
    have "neighbor_inv es taken vs (it\<lparr>it_count := (it_count it)(v \<mapsto> c - 1)\<rparr>)"
      using D(1-5) none some unfolding neighbor_inv_def topo_iterator_upd dom' by blast
    then show ?thesis by (simp only: eq)
  qed
qed

lemma neighbor_fold:
  "neighbor_inv es taken vs it \<Longrightarrow> neighbor_inv es taken [] (foldl topo_neighbor it vs)"
  by (induction vs arbitrary: it) (auto dest: neighbor_step)

lemma topo_next_inv:
  assumes inv: "topo_inv es out it" and step: "topo_next it = (Some u, it')"
  shows "topo_inv es (out @ [u]) it'"
proof -
  define it1 where "it1 = it\<lparr>no_edges := butlast (no_edges it)\<rparr>"
  have u: "no_edges it = butlast (no_edges it) @ [u]"
    and it': "it' = foldl topo_neighbor it1 (succs es u)"
    using inv step topo_build_holds(2) [of es u]
    by (auto simp: topo_next_def topo_inv_def it1_def Let_def split: if_splits)
  have it1: "it_edges it1 = it_edges it" "it_count it1 = it_count it"
    "no_edges it1 = butlast (no_edges it)" by (simp_all add: it1_def)
  have taken: "set out \<union> set (no_edges it) = insert u (set out) \<union> set (butlast (no_edges it))"
    by (subst u) auto
  have dist: "distinct (out @ butlast (no_edges it) @ [u])" using inv u by (simp add: topo_inv_def)
  then have "u \<notin> set out" by simp
  note pend = pending_insert [OF this]
  have "it_count it u = None"
    using inv taken unfolding topo_inv_def by blast
  then have "pending es (set out) u = 0" using inv by (simp add: topo_inv_def)
  then have preds: "\<forall>w. (w, u) \<in> set es \<longrightarrow> w \<in> set out" by (simp add: pending_empty_iff)
  have "neighbor_inv es (insert u (set out)) (succs es u) it1"
    unfolding neighbor_inv_def it1
  proof (intro conjI allI impI)
    show "insert u (set out) \<union> set (butlast (no_edges it)) \<union> dom (it_count it) = nodes es"
      "(insert u (set out) \<union> set (butlast (no_edges it))) \<inter> dom (it_count it) = {}"
      using inv unfolding topo_inv_def taken by blast+
    show "distinct (butlast (no_edges it))" "set (butlast (no_edges it)) \<inter> insert u (set out) = {}"
      using dist by auto
    fix v
    {
      assume "it_count it v = None"
      then have "pending es (set out) v = 0" using inv by (simp add: topo_inv_def)
      then show "pending es (insert u (set out)) v = 0" "v \<notin> set (succs es u)"
        by (auto simp: pend count_list_0_iff)
    }
    fix c
    assume "it_count it v = Some c"
    then have c: "c = pending es (set out) v" "0 < c" using inv unfolding topo_inv_def by blast+
    show "c = pending es (insert u (set out)) v + count_list (succs es u) v"
      using c(1) unfolding pend .
    show "0 < c" by (rule c(2))
  qed (use inv in \<open>simp add: topo_inv_def\<close>)
  from neighbor_fold [OF this] have "neighbor_inv es (insert u (set out)) [] it'" by (simp add: it')
  note D = neighbor_invD [OF this]
  show ?thesis
    unfolding topo_inv_def
  proof (intro conjI allI impI)
    show "distinct ((out @ [u]) @ no_edges it')" using dist D(2,3) by auto
    show "set (out @ [u]) \<union> set (no_edges it') \<union> dom (it_count it') = nodes es"
      "(set (out @ [u]) \<union> set (no_edges it')) \<inter> dom (it_count it') = {}"
      using D(4,5) by auto
    fix xs v ys w
    assume "out @ [u] = xs @ v # ys" "(w, v) \<in> set es"
    then show "w \<in> set xs"
      using preds inv by (cases ys rule: rev_cases) (auto simp: topo_inv_def)
  qed (use D in auto)
qed

lemma topo_next_None: "topo_next it = (None, it') \<Longrightarrow> it' = it \<and> no_edges it = []"
  by (auto simp: topo_next_def Let_def split: if_splits)

lemma topo_init_inv:
  assumes "distinct order" and "set order = nodes es"
  shows "topo_inv es [] (topo_into_iterator (topo_build es) order)"
proof -
  let ?it = "topo_into_iterator (topo_build es) order"
  have it: "it_edges ?it = ts_edges (topo_build es)"
    "no_edges ?it = filter (\<lambda>v. v \<in> nodes es \<and> pending es {} v = 0) order"
    "it_count ?it v = (if v \<in> nodes es \<and> pending es {} v \<noteq> 0 then Some (pending es {} v) else None)" for v
    by (auto simp: topo_into_iterator_def topo_build_holds(1) intro: filter_cong)
  have outside: "v \<notin> nodes es \<Longrightarrow> pending es {} v = 0" for v
    by (force simp: pending_def nodes_def filter_empty_conv)
  have dom: "dom (it_count ?it) = {v \<in> nodes es. pending es {} v \<noteq> 0}"
    by (auto simp: it split: if_splits)
  show ?thesis
    unfolding topo_inv_def dom
    using assms outside by (auto simp: it(1,2)) (auto simp: it(3) split: if_splits)
qed

lemma finite_nodes: "finite (nodes es)"
  by (simp add: nodes_def)

text \<open>Every item taken is a new node, so draining ends.\<close>

lemma topo_drain_returns:
  "topo_inv es out it \<Longrightarrow>
     \<exists>out' it'. topo_drain out it = Some (out', it') \<and> topo_inv es out' it' \<and> no_edges it' = []"
proof (induction "card (nodes es) - length out" arbitrary: out it rule: less_induct)
  case less
  show ?case
  proof (cases "topo_next it")
    case (Pair r it')
    show ?thesis
    proof (cases r)
      case None
      with Pair topo_next_None have "it' = it" "no_edges it = []" by metis+
      with Pair None less.prems show ?thesis by (subst topo_drain.simps) simp
    next
      case (Some u)
      have inv: "topo_inv es (out @ [u]) it'" using topo_next_inv less.prems Pair Some by metis
      then have "distinct (out @ [u])" "set (out @ [u]) \<subseteq> nodes es" by (auto simp: topo_inv_def)
      then have "length (out @ [u]) \<le> card (nodes es)"
        using distinct_card card_mono [OF finite_nodes] by metis
      then have "card (nodes es) - length (out @ [u]) < card (nodes es) - length out" by simp
      from less.hyps [OF this inv] Pair Some show ?thesis by (subst topo_drain.simps) simp
    qed
  qed
qed

section \<open>The sorted nodes\<close>

text \<open>Only a cycle can keep every remaining node waiting for another remaining node.\<close>

lemma stuck_has_cycle:
  assumes "finite E" and "D \<noteq> {}" and "\<And>v. v \<in> D \<Longrightarrow> \<exists>u \<in> D. (u, v) \<in> E"
  shows "\<not> acyclic E"
proof
  assume "acyclic E"
  with assms(1) have "wf E" by (rule finite_acyclic_wf)
  then obtain v where "v \<in> D" "\<And>u. (u, v) \<in> E \<Longrightarrow> u \<notin> D"
    using assms(2) by (metis ex_in_conv wfE_min)
  with assms(3) show False by blast
qed

lemma ordered_acyclic:
  assumes "distinct out" and "\<And>xs v ys u. out = xs @ v # ys \<Longrightarrow> (u, v) \<in> E \<Longrightarrow> u \<in> set xs"
    and "\<And>u v. (u, v) \<in> E \<Longrightarrow> v \<in> set out"
  shows "acyclic E"
proof -
  define pos where "pos x = length (takeWhile (\<lambda>y. y \<noteq> x) out)" for x
  have "pos u < pos v" if uv: "(u, v) \<in> E" for u v
  proof -
    obtain xs ys where out: "out = xs @ v # ys" using assms(3) [OF uv] by (metis split_list)
    then have u: "u \<in> set xs" by (rule assms(2)) (rule uv)
    from out assms(1) have "v \<notin> set xs" by simp
    then have v: "takeWhile (\<lambda>y. y \<noteq> v) out = xs" unfolding out by (subst takeWhile_append2) auto
    obtain as bs where xs: "xs = as @ u # bs" "u \<notin> set as" using split_list_first [OF u] by blast
    from xs(2) have "takeWhile (\<lambda>y. y \<noteq> u) (as @ u # bs @ v # ys) = as" by (subst takeWhile_append2) auto
    then have "takeWhile (\<lambda>y. y \<noteq> u) out = as" by (simp add: out xs(1))
    with v xs show ?thesis by (simp add: pos_def)
  qed
  then have "E \<subseteq> measure pos" by auto
  then show ?thesis by (meson wf_acyclic wf_measure wf_subset)
qed

text \<open>
  C30: draining the sorter always ends, whatever order the hash map yields its keys in. The
  items are distinct nodes, each after all its predecessors; \<open>is_valid\<close> holds
  at the end exactly when the edges have no cycle, and then every node was returned.
\<close>

theorem topological_sort_correct:
  assumes "distinct order" and "set order = nodes es"
  shows "\<exists>out it. topo_drain [] (topo_into_iterator (topo_build es) order) = Some (out, it)
     \<and> distinct out \<and> set out \<subseteq> nodes es
     \<and> (\<forall>xs v ys u. out = xs @ v # ys \<longrightarrow> (u, v) \<in> set es \<longrightarrow> u \<in> set xs)
     \<and> (topo_is_valid it \<longleftrightarrow> acyclic (set es))
     \<and> (topo_is_valid it \<longleftrightarrow> set out = nodes es)"
proof -
  from topo_drain_returns [OF topo_init_inv [OF assms]] obtain out it where
    drain: "topo_drain [] (topo_into_iterator (topo_build es) order) = Some (out, it)"
    and inv: "topo_inv es out it" and fin: "no_edges it = []" by blast
  have part: "distinct out" "set out \<union> dom (it_count it) = nodes es" "set out \<inter> dom (it_count it) = {}"
    using inv fin by (auto simp: topo_inv_def)
  have ordered: "\<And>xs v ys u. out = xs @ v # ys \<Longrightarrow> (u, v) \<in> set es \<Longrightarrow> u \<in> set xs"
    using inv unfolding topo_inv_def by blast
  have valid: "topo_is_valid it \<longleftrightarrow> set out = nodes es"
    using part(2,3) by (auto simp: topo_is_valid_def)
  have "topo_is_valid it \<longleftrightarrow> acyclic (set es)"
  proof
    assume "topo_is_valid it"
    with valid have "set out = nodes es" by blast
    then have "v \<in> set out" if "(u, v) \<in> set es" for u v using that by (force simp: nodes_def)
    with ordered show "acyclic (set es)" by (intro ordered_acyclic [OF part(1)])
  next
    assume acyclic: "acyclic (set es)"
    show "topo_is_valid it"
    proof (rule ccontr)
      assume "\<not> topo_is_valid it"
      then have "dom (it_count it) \<noteq> {}" by (simp add: topo_is_valid_def)
      moreover have "\<exists>u \<in> dom (it_count it). (u, v) \<in> set es" if v: "v \<in> dom (it_count it)" for v
      proof -
        from v obtain c where "it_count it v = Some c" by blast
        with inv have "pending es (set out) v \<noteq> 0" by (auto simp: topo_inv_def)
        then obtain u where u: "(u, v) \<in> set es" "u \<notin> set out" by (auto simp: pending_empty_iff)
        then have "u \<in> nodes es" by (force simp: nodes_def)
        with u(2) have "u \<in> dom (it_count it)" using part(2) by (metis UnE)
        with u(1) show ?thesis by (rule bexI)
      qed
      ultimately have "\<not> acyclic (set es)" by (intro stuck_has_cycle [of "set es"]) (rule finite_set)
      with acyclic show False by simp
    qed
  qed
  note acyclic = this
  show ?thesis
  proof (intro exI conjI allI impI)
    show "topo_drain [] (topo_into_iterator (topo_build es) order) = Some (out, it)" by (rule drain)
    show "set out \<subseteq> nodes es" using part(2) by blast
  qed (fact part(1) acyclic valid | erule ordered, assumption)+
qed

theorem topological_sort_correct_witness:
  "\<exists>out it. topo_drain [] (topo_into_iterator (topo_build [(1::nat, 2), (2, 1)]) [2, 1]) = Some (out, it)
     \<and> \<not> topo_is_valid it"
proof -
  have "\<not> acyclic (set [(1::nat, 2), (2, 1)])"
    by (rule stuck_has_cycle [of _ "{1, 2}"]) auto
  moreover have order: "distinct [2, 1::nat]" "set [2, 1::nat] = nodes [(1, 2), (2, 1)]"
    by (auto simp: nodes_def)
  note sorted = topological_sort_correct [OF order]
  ultimately obtain out it where
    "topo_drain [] (topo_into_iterator (topo_build [(1::nat, 2), (2, 1)]) [2, 1]) = Some (out, it)"
    "\<not> topo_is_valid it"
    by (meson sorted)
  then show ?thesis by (intro exI conjI)
qed

end
