(* ===== verification/Pop3_Parser.thy ===== *)
theory Pop3_Parser
  imports Prelude
begin

text \<open>
  \<^verbatim>\<open>crates/pop3/src/protocol/mod.rs\<close> and \<^verbatim>\<open>protocol/request.rs\<close>: the POP3 request
  parser, a state machine that takes one byte at a time and keeps its state between network
  reads. A result is \<open>Inr\<close> a command or \<open>Inl\<close> a reason.
\<close>

section \<open>Commands\<close>

datatype ('t, 'm) command =
    User 't
  | Pass 't
  | Apop 't 't
  | Quit
  | Stat
  | Listing "u32 option"
  | Retr u32
  | Dele u32
  | DeleMany "u32 list"
  | Noop
  | Rset
  | Top u32 u32
  | Uidl "u32 option"
  | Capa
  | Stls
  | Utf8
  | Auth 'm "'t list"

datatype mechanism =
    Plain | CramMd5 | DigestMd5 | ScramSha1 | ScramSha256 | ApopMechanism | Ntlm | Gssapi
  | Anonymous | External | OAuthBearer | XOauth2

text \<open>
  The reason of a parse error is a text; for an unknown mechanism it quotes the client's bytes
  (through \<open>from_utf8_lossy\<close>), which are kept here as they are.
\<close>

datatype reason =
    Reason string
  | UnsupportedMechanism string

type_synonym raw_command = "(string, string) command"
type_synonym pop3_command = "(string, mechanism) command"

datatype parser_state =
    Init
  | Cmd string nat
  | Argument raw_command nat bool
  | Error reason

definition MAX_ARG_LEN :: nat where
  "MAX_ARG_LEN = 256"

section \<open>The pieces of a command\<close>

text \<open>\<open>Command::parse\<close>: the four bytes of the command buffer, padded with zeros.\<close>

definition command_table :: "(string \<times> raw_command) list" where
  "command_table = [
     (''user'', User []), (''uidl'', Uidl None), (''utf8'', Utf8), (''pass'', Pass []),
     (''apop'', Apop [] []), (''auth'', Auth [] []), (''quit'', Quit), (''list'', Listing None),
     (''retr'', Retr 0), (''rset'', Rset), (''dele'', Dele 0), (''noop'', Noop),
     (''top'' @ [NUL], Top 0 0), (''capa'', Capa), (''stls'', Stls), (''stat'', Stat)]"

definition command_parse :: "string \<Rightarrow> reason + raw_command" where
  "command_parse buf =
     (case map_of command_table buf of
        Some c \<Rightarrow> Inr c | None \<Rightarrow> Inl (Reason ''Invalid command''))"

definition add_digit :: "u32 \<Rightarrow> char \<Rightarrow> reason + u32" where
  "add_digit num byte =
     (if is_ascii_digit byte then
        (let n = unat num * 10 + digit_value byte
         in if unat num * 10 < 2 ^ 32 \<and> n < 2 ^ 32 then Inr (of_nat n)
            else Inl (Reason ''Numeric argument out of range''))
      else Inl (Reason ''Invalid digit''))"

abbreviation on_digit :: "(u32 \<Rightarrow> raw_command) \<Rightarrow> u32 \<Rightarrow> char \<Rightarrow> reason + raw_command" where
  "on_digit mk num byte \<equiv> (case add_digit num byte of Inl e \<Rightarrow> Inl e | Inr n \<Rightarrow> Inr (mk n))"

definition too_many :: "reason + raw_command" where
  "too_many = Inl (Reason ''Too many arguments'')"

definition get_or_0 :: "u32 option \<Rightarrow> u32" where
  "get_or_0 msg = (case msg of None \<Rightarrow> 0 | Some n \<Rightarrow> n)"

text \<open>\<open>params.last_mut().unwrap().push(byte)\<close>; the parameter exists whenever this is reached.\<close>

definition push_last :: "string list \<Rightarrow> char \<Rightarrow> string list" where
  "push_last params byte = butlast params @ [last params @ [byte]]"

fun update_argument :: "raw_command \<Rightarrow> nat \<Rightarrow> char \<Rightarrow> reason + raw_command" where
  "update_argument (User name) arg_num byte =
     (if arg_num = 1 \<and> length name < MAX_ARG_LEN then Inr (User (name @ [byte])) else too_many)"
| "update_argument (Pass str) arg_num byte =
     (if arg_num = 1 \<and> length str < MAX_ARG_LEN then Inr (Pass (str @ [byte])) else too_many)"
| "update_argument (Apop name digest) arg_num byte =
     (if arg_num \<le> 2 \<and> length name < MAX_ARG_LEN \<and> length digest < MAX_ARG_LEN
      then Inr (if arg_num = 1 then Apop (name @ [byte]) digest else Apop name (digest @ [byte]))
      else too_many)"
| "update_argument (Listing msg) arg_num byte =
     (if arg_num = 1 then on_digit (\<lambda>n. Listing (Some n)) (get_or_0 msg) byte else too_many)"
| "update_argument (Retr msg) arg_num byte =
     (if arg_num = 1 then on_digit Retr msg byte else too_many)"
| "update_argument (Dele msg) arg_num byte =
     (if arg_num = 1 then on_digit Dele msg byte else too_many)"
| "update_argument (Top msg n) arg_num byte =
     (if arg_num \<le> 2
      then (if arg_num = 1 then on_digit (\<lambda>m. Top m n) msg byte else on_digit (Top msg) n byte)
      else too_many)"
| "update_argument (Uidl msg) arg_num byte =
     (if arg_num = 1 then on_digit (\<lambda>n. Uidl (Some n)) (get_or_0 msg) byte else too_many)"
| "update_argument (Auth mech params) arg_num byte =
     (if arg_num \<le> 4 \<and> length mech < 64 \<and> sum_list (map length params) < MAX_ARG_LEN * 4
      then Inr (if arg_num = 1 then Auth (mech @ [byte]) params
                else Auth mech (push_last (if length params < arg_num - 1 then params @ [[]] else params) byte))
      else too_many)"
| "update_argument _ arg_num byte = too_many"

definition mechanism_table :: "(string \<times> mechanism) list" where
  "mechanism_table = [
     (''PLAIN'', Plain), (''CRAM-MD5'', CramMd5), (''DIGEST-MD5'', DigestMd5),
     (''SCRAM-SHA-1'', ScramSha1), (''SCRAM-SHA-256'', ScramSha256), (''APOP'', ApopMechanism),
     (''NTLM'', Ntlm), (''GSSAPI'', Gssapi), (''ANONYMOUS'', Anonymous), (''EXTERNAL'', External),
     (''OAUTHBEARER'', OAuthBearer), (''XOAUTH2'', XOauth2)]"

definition mechanism_parse :: "string \<Rightarrow> reason + mechanism" where
  "mechanism_parse value =
     (case find (\<lambda>(name, _). eq_ignore_ascii_case value name) mechanism_table of
        Some (_, m) \<Rightarrow> Inr m
      | None \<Rightarrow> Inl (UnsupportedMechanism value))"

definition into_string :: "string \<Rightarrow> reason + string" where
  "into_string bytes = (if utf8_valid bytes then Inr bytes else Inl (Reason ''Invalid UTF-8''))"

fun into_strings :: "string list \<Rightarrow> reason + string list" where
  "into_strings [] = Inr []"
| "into_strings (p # ps) =
     (case into_string p of Inl e \<Rightarrow> Inl e
      | Inr s \<Rightarrow> (case into_strings ps of Inl e \<Rightarrow> Inl e | Inr ss \<Rightarrow> Inr (s # ss)))"

definition missing :: "reason + pop3_command" where
  "missing = Inl (Reason ''Missing arguments'')"

fun finalize :: "raw_command \<Rightarrow> nat \<Rightarrow> reason + pop3_command" where
  "finalize (User name) num_args =
     (if num_args = 1 then (case into_string name of Inl e \<Rightarrow> Inl e | Inr s \<Rightarrow> Inr (User s)) else missing)"
| "finalize (Pass str) num_args =
     (if num_args = 1 then (case into_string str of Inl e \<Rightarrow> Inl e | Inr s \<Rightarrow> Inr (Pass s)) else missing)"
| "finalize (Apop name digest) num_args =
     (if num_args = 2 then
        (case into_string name of Inl e \<Rightarrow> Inl e
         | Inr s \<Rightarrow> (case into_string digest of Inl e \<Rightarrow> Inl e | Inr d \<Rightarrow> Inr (Apop s d)))
      else missing)"
| "finalize Quit num_args = Inr Quit"
| "finalize Stat num_args = Inr Stat"
| "finalize (Listing msg) num_args = Inr (Listing msg)"
| "finalize (Retr msg) num_args = (if num_args = 1 then Inr (Retr msg) else missing)"
| "finalize (Dele msg) num_args = (if num_args = 1 then Inr (Dele msg) else missing)"
| "finalize Noop num_args = Inr Noop"
| "finalize Rset num_args = Inr Rset"
| "finalize (Top msg n) num_args = (if num_args = 2 then Inr (Top msg n) else missing)"
| "finalize (Uidl msg) num_args = Inr (Uidl msg)"
| "finalize Capa num_args = Inr Capa"
| "finalize Stls num_args = Inr Stls"
| "finalize Utf8 num_args = Inr Utf8"
| "finalize (Auth mech params) num_args =
     (if num_args \<ge> 1 then
        (case mechanism_parse mech of Inl e \<Rightarrow> Inl e
         | Inr m \<Rightarrow> (case into_strings params of Inl e \<Rightarrow> Inl e | Inr ps \<Rightarrow> Inr (Auth m ps)))
      else missing)"
| "finalize (DeleMany msgs) num_args = missing"

section \<open>The state machine\<close>

text \<open>A letter of the command, in lower case: the code sets the bit \<open>0x20\<close> of a capital.\<close>

definition is_letter :: "char \<Rightarrow> bool" where
  "is_letter c \<longleftrightarrow> is_ascii_lowercase c \<or> is_ascii_uppercase c"

definition invalid_command :: parser_state where
  "invalid_command = Error (Reason ''Invalid command'')"

text \<open>One byte of \<open>Parser::parse\<close>: the new state, and the result that ends the call.\<close>

fun parser_step :: "parser_state \<Rightarrow> char \<Rightarrow> parser_state \<times> (reason + pop3_command) option" where
  "parser_step Init byte =
     (if byte = SP \<or> byte = TAB \<or> byte = CR \<or> byte = LF then (Init, None)
      else if is_letter byte then (Cmd [to_ascii_lowercase byte, NUL, NUL, NUL] 1, None)
      else (invalid_command, None))"
| "parser_step (Cmd buf len) byte =
     (if (is_letter byte \<or> byte = CHR ''8'') \<and> len < 4
      then (Cmd (buf[len := to_ascii_lowercase byte]) (len + 1), None)
      else if (byte = SP \<or> byte = TAB) \<and> (len = 4 \<or> len = 3) then
        (case command_parse buf of
           Inr request \<Rightarrow> (Argument request 0 True, None)
         | Inl err \<Rightarrow> (Error err, None))
      else if byte = CR then (Cmd buf len, None)
      else if byte = LF \<and> (len = 4 \<or> len = 3) then
        (case command_parse buf of
           Inr request \<Rightarrow> (Init, Some (finalize request 0))
         | Inl err \<Rightarrow> (Init, Some (Inl err)))
      else (invalid_command, None))"
| "parser_step (Argument request num last_is_space) byte =
     (if byte = SP \<or> byte = TAB then (Argument request num True, None)
      else if byte = CR then (Argument request num last_is_space, None)
      else if byte = LF then (Init, Some (finalize request num))
      else
        (let num' = (if last_is_space then num + 1 else num)
         in case update_argument request num' byte of
              Inr request' \<Rightarrow> (Argument request' num' False, None)
            | Inl err \<Rightarrow> (Error err, None)))"
| "parser_step (Error reason) byte =
     (if byte = LF then (Init, Some (Inl reason)) else (Error reason, None))"

text \<open>\<open>Parser::parse\<close>; \<^term>\<open>None\<close> is \<open>NeedsMoreData\<close>.\<close>

fun parser_parse :: "parser_state \<Rightarrow> string \<Rightarrow> (reason + pop3_command) option \<times> parser_state \<times> string" where
  "parser_parse s [] = (None, s, [])"
| "parser_parse s (b # bs) =
     (case parser_step s b of
        (s', None) \<Rightarrow> parser_parse s' bs
      | (s', Some r) \<Rightarrow> (Some r, s', bs))"

interpretation pop3: byte_parser parser_step parser_parse
  by unfold_locales simp_all

text \<open>The loop of \<open>ingest\<close>: results are collected until the buffer is used up.\<close>

function parse_all :: "parser_state \<Rightarrow> string \<Rightarrow> (reason + pop3_command) list \<times> parser_state" where
  "parse_all s bs =
     (case parser_parse s bs of
        (None, s', _) \<Rightarrow> ([], s')
      | (Some r, s', rest) \<Rightarrow> (case parse_all s' rest of (rs, s'') \<Rightarrow> (r # rs, s'')))"
  by pat_completeness auto
termination
  by (relation "measure (\<lambda>(s, bs). length bs)")
    (auto dest: pop3.parse_consumes [OF sym])

declare parse_all.simps [simp del]

lemma parse_all_feed: "parse_all s bs = pop3.feed s bs"
proof (induction s bs rule: parse_all.induct)
  case (1 s bs)
  show ?case
    by (subst parse_all.simps, subst pop3.feed_parse)
      (use 1 in \<open>force split: prod.splits option.splits\<close>)
qed

section \<open>The invariant of the parser\<close>

text \<open>
  The indexings and the \<open>unwrap\<close> of the code are in range: the command buffer has four
  bytes, of which \<open>len\<close> are used; a parameter exists when one is extended.
\<close>

fun raw_ok :: "raw_command \<Rightarrow> bool" where
  "raw_ok (User name) \<longleftrightarrow> length name \<le> MAX_ARG_LEN"
| "raw_ok (Pass str) \<longleftrightarrow> length str \<le> MAX_ARG_LEN"
| "raw_ok (Apop name digest) \<longleftrightarrow> length name \<le> MAX_ARG_LEN \<and> length digest \<le> MAX_ARG_LEN"
| "raw_ok (Auth mech params) \<longleftrightarrow> length mech \<le> 64 \<and> length params \<le> 3 \<and> sum_list (map length params) \<le> MAX_ARG_LEN * 4"
| "raw_ok (DeleMany msgs) \<longleftrightarrow> False"
| "raw_ok _ \<longleftrightarrow> True"

fun parser_ok :: "parser_state \<Rightarrow> bool" where
  "parser_ok Init \<longleftrightarrow> True"
| "parser_ok (Cmd buf len) \<longleftrightarrow> length buf = 4 \<and> 1 \<le> len \<and> len \<le> 4"
| "parser_ok (Argument request num last_is_space) \<longleftrightarrow> raw_ok request \<and> (last_is_space \<or> 1 \<le> num)"
| "parser_ok (Error reason) \<longleftrightarrow> True"

lemma sum_push_last:
  assumes "ps \<noteq> []"
  shows "sum_list (map length (push_last ps b)) = Suc (sum_list (map length ps))"
proof -
  have "sum_list (map length (butlast ps @ [last ps])) = sum_list (map length (butlast ps)) + length (last ps)"
    by simp
  then show ?thesis unfolding append_butlast_last_id [OF assms] by (simp add: push_last_def)
qed

lemma on_digit_cases:
  "on_digit mk num byte = Inr r \<Longrightarrow> \<exists>n. add_digit num byte = Inr n \<and> r = mk n"
  by (auto split: sum.splits)

lemma update_argument_ok:
  assumes "raw_ok c" and "1 \<le> num" and "update_argument c num byte = Inr c'"
  shows "raw_ok c'"
proof (cases c)
  case (Auth mech params)
  let ?ps = "if length params < num - 1 then params @ [[]] else params"
  have "num \<noteq> 1 \<longrightarrow> ?ps \<noteq> []" using assms(2) by (cases params) auto
  then have "num \<noteq> 1 \<longrightarrow> sum_list (map length (push_last ?ps byte)) = Suc (sum_list (map length ?ps))"
    using sum_push_last by blast
  moreover have "length (push_last ?ps byte) = max 1 (length ?ps)"
    by (auto simp: push_last_def max_def Suc_le_eq)
  ultimately show ?thesis using assms Auth
    by (auto simp: too_many_def MAX_ARG_LEN_def max_def split: if_splits)
qed (use assms in \<open>auto simp: too_many_def split: if_splits sum.splits\<close>)

lemma command_parse_ok: "command_parse buf = Inr c \<Longrightarrow> raw_ok c"
proof -
  assume "command_parse buf = Inr c"
  then have "(buf, c) \<in> set command_table"
    by (auto simp: command_parse_def split: option.splits dest: map_of_SomeD)
  moreover have "list_all (\<lambda>(_, c). raw_ok c) command_table" by (simp add: command_table_def MAX_ARG_LEN_def)
  ultimately show ?thesis by (auto simp: list_all_iff)
qed

lemma parser_step_ok: "parser_ok s \<Longrightarrow> parser_ok (fst (parser_step s b))"
proof (cases s)
  case (Argument request num last_is_space)
  assume ok: "parser_ok s"
  let ?num = "if last_is_space then num + 1 else num"
  show ?thesis
  proof (cases "update_argument request ?num b")
    case (Inr request')
    with ok Argument update_argument_ok [of request ?num b request'] show ?thesis by auto
  next
    case (Inl e)
    with ok Argument show ?thesis by auto
  qed
qed (auto simp: invalid_command_def dest: command_parse_ok split: sum.splits)

section \<open>Digits\<close>

text \<open>Feeding the digits of an argument, the first error winning.\<close>

fun add_digits :: "u32 \<Rightarrow> string \<Rightarrow> reason + u32" where
  "add_digits num [] = Inr num"
| "add_digits num (c # cs) = (case add_digit num c of Inl e \<Rightarrow> Inl e | Inr n \<Rightarrow> add_digits n cs)"

lemma add_digit_cases:
  "is_ascii_digit c \<Longrightarrow> unat n * 10 + digit_value c < 2 ^ 32 \<Longrightarrow> add_digit n c = Inr (of_nat (unat n * 10 + digit_value c))"
  "\<not> (is_ascii_digit c \<and> unat n * 10 + digit_value c < 2 ^ 32) \<Longrightarrow> \<exists>e. add_digit n c = Inl e"
  by (simp_all add: add_digit_def Let_def)

lemma unat_of_nat_u32: "n < 2 ^ 32 \<Longrightarrow> unat (of_nat n :: u32) = n"
  by (simp only: unat_of_nat) simp

lemma foldl_digits_mono: "n \<le> foldl (\<lambda>n c. 10 * n + digit_value c) n cs"
proof (induction cs arbitrary: n)
  case (Cons c cs)
  have "n \<le> 10 * n + digit_value c" by simp
  also have "\<dots> \<le> foldl (\<lambda>n c. 10 * n + digit_value c) (10 * n + digit_value c) cs" by (rule Cons)
  finally show ?case by simp
qed simp

lemma add_digits_value:
  "(\<exists>m. add_digits n cs = Inr m) \<longleftrightarrow>
     list_all is_ascii_digit cs \<and> foldl (\<lambda>n c. 10 * n + digit_value c) (unat n) cs < 2 ^ 32"
  "add_digits n cs = Inr m \<Longrightarrow> unat m = foldl (\<lambda>n c. 10 * n + digit_value c) (unat n) cs"
proof -
  have "((\<exists>m. add_digits n cs = Inr m) \<longleftrightarrow>
     list_all is_ascii_digit cs \<and> foldl (\<lambda>n c. 10 * n + digit_value c) (unat n) cs < 2 ^ 32)
    \<and> (\<forall>m. add_digits n cs = Inr m \<longrightarrow> unat m = foldl (\<lambda>n c. 10 * n + digit_value c) (unat n) cs)"
  proof (induction cs arbitrary: n)
    case Nil
    then show ?case using unsigned_less [of n] by simp
  next
    case (Cons c cs)
    let ?d = "10 * unat n + digit_value c"
    show ?case
    proof (cases "is_ascii_digit c \<and> ?d < 2 ^ 32")
      case True
      then have "add_digit n c = Inr (of_nat ?d)" using add_digit_cases(1) [of c n] by (simp add: mult.commute)
      moreover have "unat (of_nat ?d :: u32) = ?d" using True unat_of_nat_u32 by blast
      ultimately show ?thesis using Cons.IH [of "of_nat ?d"] True by simp
    next
      case False
      then obtain e where "add_digit n c = Inl e" using add_digit_cases(2) [of c n] by (auto simp: mult.commute)
      moreover have "\<not> (list_all is_ascii_digit (c # cs) \<and> foldl (\<lambda>n c. 10 * n + digit_value c) (unat n) (c # cs) < 2 ^ 32)"
        using False foldl_digits_mono [of ?d cs] by auto
      ultimately show ?thesis by simp
    qed
  qed
  then show "(\<exists>m. add_digits n cs = Inr m) \<longleftrightarrow>
     list_all is_ascii_digit cs \<and> foldl (\<lambda>n c. 10 * n + digit_value c) (unat n) cs < 2 ^ 32"
    and "add_digits n cs = Inr m \<Longrightarrow> unat m = foldl (\<lambda>n c. 10 * n + digit_value c) (unat n) cs" by blast+
qed

section \<open>Lines\<close>

fun mechanism_as_str :: "mechanism \<Rightarrow> string" where
  "mechanism_as_str Plain = ''PLAIN''"
| "mechanism_as_str CramMd5 = ''CRAM-MD5''"
| "mechanism_as_str DigestMd5 = ''DIGEST-MD5''"
| "mechanism_as_str ScramSha1 = ''SCRAM-SHA-1''"
| "mechanism_as_str ScramSha256 = ''SCRAM-SHA-256''"
| "mechanism_as_str ApopMechanism = ''APOP''"
| "mechanism_as_str Ntlm = ''NTLM''"
| "mechanism_as_str Gssapi = ''GSSAPI''"
| "mechanism_as_str Anonymous = ''ANONYMOUS''"
| "mechanism_as_str External = ''EXTERNAL''"
| "mechanism_as_str OAuthBearer = ''OAUTHBEARER''"
| "mechanism_as_str XOauth2 = ''XOAUTH2''"

lemma code_to_lower:
  "code (to_ascii_lowercase c) = (if is_ascii_uppercase c then code c + 32 else code c)"
  by (simp add: to_ascii_lowercase_def is_ascii_uppercase_def of_char_of)

lemma to_lower_inject:
  "\<not> is_ascii_lowercase c \<Longrightarrow> \<not> is_ascii_lowercase d \<Longrightarrow>
     to_ascii_lowercase c = to_ascii_lowercase d \<longleftrightarrow> c = d"
proof
  assume *: "\<not> is_ascii_lowercase c" "\<not> is_ascii_lowercase d" "to_ascii_lowercase c = to_ascii_lowercase d"
  then have "code (to_ascii_lowercase c) = code (to_ascii_lowercase d)" by simp
  with *(1,2) have "code c = code d"
    by (auto simp: code_to_lower is_ascii_uppercase_def is_ascii_lowercase_def split: if_splits)
  then show "c = d" by simp
qed simp

lemma eq_ignore_case_upper:
  "list_all (\<lambda>c. \<not> is_ascii_lowercase c) s \<Longrightarrow> list_all (\<lambda>c. \<not> is_ascii_lowercase c) t \<Longrightarrow>
     eq_ignore_ascii_case s t \<longleftrightarrow> s = t"
  unfolding eq_ignore_ascii_case_def
  by (induction s t rule: list_induct2') (auto simp: to_lower_inject)

lemma mechanism_parse_as_str: "mechanism_parse (mechanism_as_str m) = Inr m"
proof -
  have upper: "list_all (\<lambda>c. \<not> is_ascii_lowercase c) (mechanism_as_str m)" for m
    by (cases m) (simp_all add: is_ascii_lowercase_def)
  then have "eq_ignore_ascii_case (mechanism_as_str m) (mechanism_as_str n) \<longleftrightarrow> m = n" for m n
    by (simp only: eq_ignore_case_upper) (cases m; cases n; simp)
  then have "find (\<lambda>n. eq_ignore_ascii_case (mechanism_as_str m) (mechanism_as_str n))
      [Plain, CramMd5, DigestMd5, ScramSha1, ScramSha256, ApopMechanism, Ntlm, Gssapi, Anonymous, External, OAuthBearer, XOauth2]
    = Some m"
    by (simp only:) (cases m; simp)
  moreover have table: "mechanism_table = map (\<lambda>n. (mechanism_as_str n, n))
      [Plain, CramMd5, DigestMd5, ScramSha1, ScramSha256, ApopMechanism, Ntlm, Gssapi, Anonymous, External, OAuthBearer, XOauth2]"
    by (simp add: mechanism_table_def)
  moreover have find_map: "find P (map f xs) = map_option f (find (\<lambda>x. P (f x)) xs)" for P and f :: "mechanism \<Rightarrow> string \<times> mechanism" and xs
    by (induction xs) auto
  ultimately show ?thesis
    unfolding mechanism_parse_def table find_map by (simp only: prod.case) simp
qed

lemma feed_None: "parser_step s b = (s', None) \<Longrightarrow> pop3.feed s (b # bs) = pop3.feed s' bs"
  by (simp split: prod.split)

lemma feed_Some: "parser_step s b = (s', Some r) \<Longrightarrow> pop3.feed s (b # bs) = (case pop3.feed s' bs of (rs, t) \<Rightarrow> (r # rs, t))"
  by simp

definition keyword_char :: "char \<Rightarrow> bool" where
  "keyword_char c \<longleftrightarrow> is_letter c \<or> c = CHR ''8''"

lemma separators_not_letters:
  "\<not> is_letter SP" "\<not> is_letter TAB" "\<not> is_letter CR" "\<not> is_letter LF"
  by (simp_all add: is_letter_def is_ascii_lowercase_def is_ascii_uppercase_def)

lemma letter_not_separator: "is_letter c \<Longrightarrow> c \<noteq> SP \<and> c \<noteq> TAB \<and> c \<noteq> CR \<and> c \<noteq> LF"
  using separators_not_letters by metis

text \<open>A keyword of four bytes, and the end of the line or a blank after it.\<close>

lemma feed_keyword:
  assumes "is_letter a" "keyword_char b" "keyword_char c" "keyword_char d"
  shows "pop3.feed Init (a # b # c # d # bs) = pop3.feed (Cmd (map to_ascii_lowercase [a, b, c, d]) 4) bs"
  using assms letter_not_separator [of a]
  by (simp add: keyword_char_def eval_nat_numeral split: prod.split)

lemma feed_keyword3:
  assumes "is_letter a" "keyword_char b" "keyword_char c"
  shows "pop3.feed Init (a # b # c # bs) = pop3.feed (Cmd (map to_ascii_lowercase [a, b, c] @ [NUL]) 3) bs"
  using assms letter_not_separator [of a]
  by (simp add: keyword_char_def eval_nat_numeral split: prod.split)

lemma feed_blank:
  assumes "command_parse buf = Inr request" and "len = 4 \<or> len = 3"
  shows "pop3.feed (Cmd buf len) (SP # bs) = pop3.feed (Argument request 0 True) bs"
  using assms separators_not_letters by (intro feed_None) auto

lemma feed_CRLF_cmd:
  assumes "command_parse buf = Inr request" and "len = 4 \<or> len = 3"
  shows "pop3.feed (Cmd buf len) [CR, LF] = ([finalize request 0], Init)"
  using assms separators_not_letters by auto

lemma feed_CRLF_arg: "pop3.feed (Argument request num sp) [CR, LF] = ([finalize request num], Init)"
  by simp

definition separator :: "char \<Rightarrow> bool" where
  "separator c \<longleftrightarrow> c = SP \<or> c = TAB \<or> c = CR \<or> c = LF"

fun update_arguments :: "raw_command \<Rightarrow> nat \<Rightarrow> string \<Rightarrow> reason + raw_command" where
  "update_arguments request num [] = Inr request"
| "update_arguments request num (b # bs) =
     (case update_argument request num b of Inl e \<Rightarrow> Inl e | Inr request' \<Rightarrow> update_arguments request' num bs)"

lemma feed_word_rest:
  "list_all (\<lambda>c. \<not> separator c) w \<Longrightarrow> update_arguments request num w = Inr request' \<Longrightarrow>
     pop3.feed (Argument request num False) (w @ bs) = pop3.feed (Argument request' num False) bs"
proof (induction request num w rule: update_arguments.induct)
  case (2 request num b w)
  then obtain r where r: "update_argument request num b = Inr r" by (auto split: sum.splits)
  have "parser_step (Argument request num False) b = (Argument r num False, None)"
    using 2(2) r by (simp add: separator_def)
  from feed_None [OF this] 2 r show ?case by simp
qed simp

lemma feed_word:
  assumes "list_all (\<lambda>c. \<not> separator c) w" and "w \<noteq> []" and "update_arguments request (num + 1) w = Inr request'"
  shows "pop3.feed (Argument request num True) (w @ bs) = pop3.feed (Argument request' (num + 1) False) bs"
proof -
  obtain b v where w: "w = b # v" using assms(2) by (cases w) auto
  then obtain r where r: "update_argument request (num + 1) b = Inr r" using assms(3) by (auto split: sum.splits)
  have "parser_step (Argument request num True) b = (Argument r (num + 1) False, None)"
    using assms(1) w r by (simp add: separator_def)
  from feed_None [OF this] show ?thesis
    using feed_word_rest [of v r "num + 1" request' bs] assms(1,3) w r by simp
qed

lemma feed_space: "pop3.feed (Argument request num sp) (SP # bs) = pop3.feed (Argument request num True) bs"
  by (intro feed_None) simp

text \<open>How the arguments accumulate.\<close>

lemma update_arguments_text:
  "length acc + length w \<le> MAX_ARG_LEN \<Longrightarrow> update_arguments (User acc) 1 w = Inr (User (acc @ w))"
  "length acc + length w \<le> MAX_ARG_LEN \<Longrightarrow> update_arguments (Pass acc) 1 w = Inr (Pass (acc @ w))"
  "length acc + length w \<le> MAX_ARG_LEN \<Longrightarrow> length d < MAX_ARG_LEN \<Longrightarrow>
     update_arguments (Apop acc d) 1 w = Inr (Apop (acc @ w) d)"
  "length acc + length w \<le> MAX_ARG_LEN \<Longrightarrow> length n < MAX_ARG_LEN \<Longrightarrow>
     update_arguments (Apop n acc) 2 w = Inr (Apop n (acc @ w))"
  by (induction w arbitrary: acc) auto

lemma update_arguments_digits:
  "update_arguments (Retr n) 1 w = (case add_digits n w of Inl e \<Rightarrow> Inl e | Inr m \<Rightarrow> Inr (Retr m))"
  "update_arguments (Dele n) 1 w = (case add_digits n w of Inl e \<Rightarrow> Inl e | Inr m \<Rightarrow> Inr (Dele m))"
  "update_arguments (Top n k) 1 w = (case add_digits n w of Inl e \<Rightarrow> Inl e | Inr m \<Rightarrow> Inr (Top m k))"
  "update_arguments (Top k n) 2 w = (case add_digits n w of Inl e \<Rightarrow> Inl e | Inr m \<Rightarrow> Inr (Top k m))"
  by (induction w arbitrary: n) (auto split: sum.splits)

lemma update_arguments_optional:
  "update_arguments (Listing (Some n)) 1 w = (case add_digits n w of Inl e \<Rightarrow> Inl e | Inr m \<Rightarrow> Inr (Listing (Some m)))"
  "update_arguments (Uidl (Some n)) 1 w = (case add_digits n w of Inl e \<Rightarrow> Inl e | Inr m \<Rightarrow> Inr (Uidl (Some m)))"
  by (induction w arbitrary: n) (auto simp: get_or_0_def split: sum.splits)

lemma update_arguments_option:
  assumes "w \<noteq> []"
  shows "update_arguments (Listing None) 1 w = (case add_digits 0 w of Inl e \<Rightarrow> Inl e | Inr m \<Rightarrow> Inr (Listing (Some m)))"
    and "update_arguments (Uidl None) 1 w = (case add_digits 0 w of Inl e \<Rightarrow> Inl e | Inr m \<Rightarrow> Inr (Uidl (Some m)))"
proof -
  obtain b v where w: "w = b # v" using assms by (cases w) auto
  show "update_arguments (Listing None) 1 w = (case add_digits 0 w of Inl e \<Rightarrow> Inl e | Inr m \<Rightarrow> Inr (Listing (Some m)))"
    using update_arguments_optional(1) [of _ v] by (cases "add_digit 0 b") (simp_all add: w get_or_0_def)
  show "update_arguments (Uidl None) 1 w = (case add_digits 0 w of Inl e \<Rightarrow> Inl e | Inr m \<Rightarrow> Inr (Uidl (Some m)))"
    using update_arguments_optional(2) [of _ v] by (cases "add_digit 0 b") (simp_all add: w get_or_0_def)
qed

end
