(* ===== verification/Pop3_Client.thy ===== *)
theory Pop3_Client
  imports Pop3_Parser
begin

text \<open>
  What a client gets from the request parser of \<^verbatim>\<open>crates/pop3/src/protocol/request.rs\<close>: the
  lines a client sends for a command, the facts that carry a line through the parser, and the
  properties of the parser as a whole (pipelined commands, buffering, errors, bounds).
\<close>

section \<open>Arguments of AUTH\<close>

lemma update_arguments_mech:
  "length acc + length w \<le> 64 \<Longrightarrow> update_arguments (Auth acc []) 1 w = Inr (Auth (acc @ w) [])"
  by (induction w arbitrary: acc) (auto simp: MAX_ARG_LEN_def)

lemma update_arguments_param:
  "length mech < 64 \<Longrightarrow> length ps \<le> 2 \<Longrightarrow> sum_list (map length ps) + length v + length w \<le> 1024 \<Longrightarrow>
     update_arguments (Auth mech (ps @ [v])) (length ps + 2) w = Inr (Auth mech (ps @ [v @ w]))"
proof (induction w arbitrary: v)
  case (Cons c w)
  then have "update_arguments (Auth mech (ps @ [v @ [c]])) (length ps + 2) w = Inr (Auth mech (ps @ [(v @ [c]) @ w]))"
    by (intro Cons.IH) auto
  then show ?case using Cons.prems by (simp add: MAX_ARG_LEN_def push_last_def)
qed simp

lemma update_arguments_new_param:
  assumes "length mech < 64" and "length ps \<le> 2" and "sum_list (map length ps) + length w \<le> 1024" and "w \<noteq> []"
  shows "update_arguments (Auth mech ps) (length ps + 2) w = Inr (Auth mech (ps @ [w]))"
proof -
  obtain c v where w: "w = c # v" using assms(4) by (cases w) auto
  have "update_arguments (Auth mech (ps @ [[c]])) (length ps + 2) v = Inr (Auth mech (ps @ [[c] @ v]))"
    using assms w by (intro update_arguments_param) auto
  then show ?thesis using assms w by (simp add: MAX_ARG_LEN_def push_last_def)
qed

definition word :: "string \<Rightarrow> bool" where
  "word w \<longleftrightarrow> w \<noteq> [] \<and> list_all (\<lambda>c. \<not> separator c) w \<and> utf8_valid w"

lemma feed_params:
  assumes "length mech < 64" and "list_all word ws" and "length ps + length ws \<le> 3"
    and "sum_list (map length (ps @ ws)) \<le> 1024"
  shows "pop3.feed (Argument (Auth mech ps) (length ps + 1) sp) (concat (map (\<lambda>w. SP # w) ws) @ [CR, LF])
    = ([finalize (Auth mech (ps @ ws)) (length ps + length ws + 1)], Init)"
  using assms
proof (induction ws arbitrary: ps sp)
  case Nil
  then show ?case by simp
next
  case (Cons w ws)
  have upd: "update_arguments (Auth mech ps) (length ps + 1 + 1) w = Inr (Auth mech (ps @ [w]))"
    using update_arguments_new_param [of mech ps w] Cons.prems by (simp add: word_def)
  have "pop3.feed (Argument (Auth mech ps) (length ps + 1) sp) (concat (map (\<lambda>w. SP # w) (w # ws)) @ [CR, LF])
      = pop3.feed (Argument (Auth mech ps) (length ps + 1) True) (w @ concat (map (\<lambda>w. SP # w) ws) @ [CR, LF])"
    by (simp only: concat.simps list.map append_Cons append_assoc feed_space)
  also have "\<dots> = pop3.feed (Argument (Auth mech (ps @ [w])) (length (ps @ [w]) + 1) False) (concat (map (\<lambda>w. SP # w) ws) @ [CR, LF])"
    using Cons.prems feed_word [OF _ _ upd] by (simp add: word_def)
  also have "\<dots> = ([finalize (Auth mech ((ps @ [w]) @ ws)) (length (ps @ [w]) + length ws + 1)], Init)"
    using Cons.prems by (intro Cons.IH) auto
  finally show ?case by simp
qed

lemma into_strings_words: "list_all word ws \<Longrightarrow> into_strings ws = Inr ws"
  by (induction ws) (auto simp: into_string_def word_def)

section \<open>The line a client sends\<close>

fun keyword :: "pop3_command \<Rightarrow> string" where
  "keyword (User _) = ''USER''"
| "keyword (Pass _) = ''PASS''"
| "keyword (Apop _ _) = ''APOP''"
| "keyword Quit = ''QUIT''"
| "keyword Stat = ''STAT''"
| "keyword (Listing _) = ''LIST''"
| "keyword (Retr _) = ''RETR''"
| "keyword (Dele _) = ''DELE''"
| "keyword (DeleMany _) = ''DELE''"
| "keyword Noop = ''NOOP''"
| "keyword Rset = ''RSET''"
| "keyword (Top _ _) = ''TOP''"
| "keyword (Uidl _) = ''UIDL''"
| "keyword Capa = ''CAPA''"
| "keyword Stls = ''STLS''"
| "keyword Utf8 = ''UTF8''"
| "keyword (Auth _ _) = ''AUTH''"

abbreviation num_arg :: "u32 \<Rightarrow> string" where
  "num_arg n \<equiv> nat_to_string (unat n)"

fun command_args :: "pop3_command \<Rightarrow> string list" where
  "command_args (User name) = [name]"
| "command_args (Pass str) = [str]"
| "command_args (Apop name digest) = [name, digest]"
| "command_args (Listing (Some n)) = [num_arg n]"
| "command_args (Retr n) = [num_arg n]"
| "command_args (Dele n) = [num_arg n]"
| "command_args (Top n k) = [num_arg n, num_arg k]"
| "command_args (Uidl (Some n)) = [num_arg n]"
| "command_args (Auth m ps) = mechanism_as_str m # ps"
| "command_args _ = []"

definition command_line :: "pop3_command \<Rightarrow> string" where
  "command_line c = keyword c @ concat (map (\<lambda>w. SP # w) (command_args c)) @ [CR, LF]"

fun sendable :: "pop3_command \<Rightarrow> bool" where
  "sendable (User name) \<longleftrightarrow> word name \<and> length name < MAX_ARG_LEN"
| "sendable (Pass str) \<longleftrightarrow> word str \<and> length str < MAX_ARG_LEN"
| "sendable (Apop name digest) \<longleftrightarrow> word name \<and> length name < MAX_ARG_LEN \<and> word digest \<and> length digest < MAX_ARG_LEN"
| "sendable (Auth m ps) \<longleftrightarrow> list_all word ps \<and> length ps \<le> 3 \<and> sum_list (map length ps) \<le> 1024"
| "sendable (DeleMany _) \<longleftrightarrow> False"
| "sendable _ \<longleftrightarrow> True"

lemma lower_eval:
  "to_ascii_lowercase (CHR ''U'') = CHR ''u''" "to_ascii_lowercase (CHR ''S'') = CHR ''s''"
  "to_ascii_lowercase (CHR ''E'') = CHR ''e''" "to_ascii_lowercase (CHR ''R'') = CHR ''r''"
  "to_ascii_lowercase (CHR ''P'') = CHR ''p''" "to_ascii_lowercase (CHR ''A'') = CHR ''a''"
  "to_ascii_lowercase (CHR ''O'') = CHR ''o''" "to_ascii_lowercase (CHR ''Q'') = CHR ''q''"
  "to_ascii_lowercase (CHR ''I'') = CHR ''i''" "to_ascii_lowercase (CHR ''T'') = CHR ''t''"
  "to_ascii_lowercase (CHR ''L'') = CHR ''l''" "to_ascii_lowercase (CHR ''D'') = CHR ''d''"
  "to_ascii_lowercase (CHR ''N'') = CHR ''n''" "to_ascii_lowercase (CHR ''C'') = CHR ''c''"
  "to_ascii_lowercase (CHR ''F'') = CHR ''f''" "to_ascii_lowercase (CHR ''8'') = CHR ''8''"
  "to_ascii_lowercase (CHR ''H'') = CHR ''h''"
  by (code_simp+)

lemma is_letter_eval:
  "list_all keyword_char ''USERPASSAPOPQUITSTATLISTRETRDELENOOPRSETTOPUIDLCAPASTLSUTF8AUTH''"
  "list_all is_letter ''UPAQSLRDNTC''"
  by (code_simp, code_simp)

section \<open>One line through the parser\<close>

lemma utf8_valid_ascii: "list_all (\<lambda>c. code c < 128) s \<Longrightarrow> utf8_valid s"
  by (induction s rule: utf8_valid.induct) (auto simp: )

lemma num_arg_word: "word (num_arg n)"
proof -
  have "list_all is_ascii_digit (num_arg n)" by (rule nat_to_string_digits)
  then have "list_all (\<lambda>c. \<not> separator c \<and> code c < 128) (num_arg n)"
    by (rule list.pred_mono_strong) (auto simp: is_ascii_digit_def separator_def)
  then show ?thesis by (auto simp: word_def list_all_iff intro!: utf8_valid_ascii)
qed

lemma add_digits_num_arg: "add_digits 0 (num_arg n) = Inr n"
proof -
  have "foldl (\<lambda>n c. 10 * n + digit_value c) (unat (0 :: u32)) (num_arg n) = unat n"
    using decimal_value_nat_to_string [of "unat n"] by (simp add: decimal_value_def)
  moreover have "unat n < 2 ^ 32" using unsigned_less [of n] by simp
  ultimately obtain m where m: "add_digits 0 (num_arg n) = Inr m" "unat m = unat n"
    using add_digits_value [of 0 "num_arg n"] nat_to_string_digits by (metis (no_types, lifting))
  then show ?thesis by (simp add: word_unat_eq_iff)
qed

lemma feed_keyword4:
  assumes "is_letter a" "keyword_char b" "keyword_char c" "keyword_char d"
    and "command_parse (map to_ascii_lowercase [a, b, c, d]) = Inr request"
  shows "pop3.feed Init (a # b # c # d # SP # bs) = pop3.feed (Argument request 0 True) bs"
    and "finalize request 0 = r \<Longrightarrow> pop3.feed Init [a, b, c, d, CR, LF] = ([r], Init)"
  unfolding feed_keyword [OF assms(1-4)] using assms(5) by (auto intro!: feed_blank feed_CRLF_cmd)

lemma arg_line:
  assumes "word w" and "update_arguments request 1 w = Inr r"
  shows "pop3.feed (Argument request 0 True) (w @ [CR, LF]) = ([finalize r 1], Init)"
  using feed_word [of w request 0 r "[CR, LF]"] assms by (simp add: word_def)

lemma arg_line2:
  assumes "word w" and "word v" and "update_arguments request 1 w = Inr r" and "update_arguments r 2 v = Inr r'"
  shows "pop3.feed (Argument request 0 True) (w @ SP # v @ [CR, LF]) = ([finalize r' 2], Init)"
proof -
  have "pop3.feed (Argument request 0 True) (w @ SP # v @ [CR, LF]) = pop3.feed (Argument r 1 True) (v @ [CR, LF])"
    using feed_word [of w request 0 r "SP # v @ [CR, LF]"] assms(1,3) feed_space [of r 1 False "v @ [CR, LF]"]
    by (simp add: word_def)
  also have "\<dots> = ([finalize r' 2], Init)"
    using feed_word [of v r 1 r' "[CR, LF]"] assms(2,4) by (simp add: word_def numeral_2_eq_2)
  finally show ?thesis .
qed

text \<open>The keywords, in lower case, name their commands.\<close>

lemma keyword_requests:
  "command_parse (map to_ascii_lowercase ''USER'') = Inr (User [])"
  "command_parse (map to_ascii_lowercase ''PASS'') = Inr (Pass [])"
  "command_parse (map to_ascii_lowercase ''APOP'') = Inr (Apop [] [])"
  "command_parse (map to_ascii_lowercase ''QUIT'') = Inr Quit"
  "command_parse (map to_ascii_lowercase ''STAT'') = Inr Stat"
  "command_parse (map to_ascii_lowercase ''LIST'') = Inr (Listing None)"
  "command_parse (map to_ascii_lowercase ''RETR'') = Inr (Retr 0)"
  "command_parse (map to_ascii_lowercase ''DELE'') = Inr (Dele 0)"
  "command_parse (map to_ascii_lowercase ''NOOP'') = Inr Noop"
  "command_parse (map to_ascii_lowercase ''RSET'') = Inr Rset"
  "command_parse (map to_ascii_lowercase ''TOP'' @ [NUL]) = Inr (Top 0 0)"
  "command_parse (map to_ascii_lowercase ''UIDL'') = Inr (Uidl None)"
  "command_parse (map to_ascii_lowercase ''CAPA'') = Inr Capa"
  "command_parse (map to_ascii_lowercase ''STLS'') = Inr Stls"
  "command_parse (map to_ascii_lowercase ''UTF8'') = Inr Utf8"
  "command_parse (map to_ascii_lowercase ''AUTH'') = Inr (Auth [] [])"
  by (simp_all add: command_parse_def command_table_def lower_eval)

lemma keyword_chars [simp]:
  "is_letter (CHR ''U'')" "is_letter (CHR ''P'')" "is_letter (CHR ''A'')" "is_letter (CHR ''Q'')"
  "is_letter (CHR ''S'')" "is_letter (CHR ''L'')" "is_letter (CHR ''R'')" "is_letter (CHR ''D'')"
  "is_letter (CHR ''N'')" "is_letter (CHR ''T'')" "is_letter (CHR ''C'')"
  "list_all keyword_char ''USERPASSAPOPQUITSTATLISTRETRDELENOOPRSETTOPUIDLCAPASTLSUTF8AUTH''"
  using is_letter_eval by simp_all

lemma feed_words:
  "pop3.feed Init (''USER'' @ SP # bs) = pop3.feed (Argument (User []) 0 True) bs"
  "pop3.feed Init (''PASS'' @ SP # bs) = pop3.feed (Argument (Pass []) 0 True) bs"
  "pop3.feed Init (''APOP'' @ SP # bs) = pop3.feed (Argument (Apop [] []) 0 True) bs"
  "pop3.feed Init (''LIST'' @ SP # bs) = pop3.feed (Argument (Listing None) 0 True) bs"
  "pop3.feed Init (''RETR'' @ SP # bs) = pop3.feed (Argument (Retr 0) 0 True) bs"
  "pop3.feed Init (''DELE'' @ SP # bs) = pop3.feed (Argument (Dele 0) 0 True) bs"
  "pop3.feed Init (''UIDL'' @ SP # bs) = pop3.feed (Argument (Uidl None) 0 True) bs"
  "pop3.feed Init (''AUTH'' @ SP # bs) = pop3.feed (Argument (Auth [] []) 0 True) bs"
  using keyword_chars(12) unfolding append_Cons append_Nil
  by (intro feed_keyword4 keyword_requests; simp)+

lemma feed_top: "pop3.feed Init (''TOP'' @ SP # bs) = pop3.feed (Argument (Top 0 0) 0 True) bs"
proof -
  have "pop3.feed Init (''TOP'' @ SP # bs)
      = pop3.feed (Cmd (map to_ascii_lowercase ''TOP'' @ [NUL]) 3) (SP # bs)"
    using keyword_chars(12) unfolding append_Cons append_Nil by (intro feed_keyword3) simp_all
  then show ?thesis using feed_blank [OF keyword_requests(11), of 3 bs] by simp
qed

lemma feed_bare:
  "pop3.feed Init (''QUIT'' @ [CR, LF]) = ([Inr Quit], Init)"
  "pop3.feed Init (''STAT'' @ [CR, LF]) = ([Inr Stat], Init)"
  "pop3.feed Init (''LIST'' @ [CR, LF]) = ([Inr (Listing None)], Init)"
  "pop3.feed Init (''NOOP'' @ [CR, LF]) = ([Inr Noop], Init)"
  "pop3.feed Init (''RSET'' @ [CR, LF]) = ([Inr Rset], Init)"
  "pop3.feed Init (''UIDL'' @ [CR, LF]) = ([Inr (Uidl None)], Init)"
  "pop3.feed Init (''CAPA'' @ [CR, LF]) = ([Inr Capa], Init)"
  "pop3.feed Init (''STLS'' @ [CR, LF]) = ([Inr Stls], Init)"
  "pop3.feed Init (''UTF8'' @ [CR, LF]) = ([Inr Utf8], Init)"
  using keyword_chars(12) unfolding append_Cons append_Nil
  by - (rule feed_keyword4(2), (simp; fail)+, rule keyword_requests, simp)+

lemma update_arguments_num:
  "update_arguments (Retr 0) 1 (num_arg n) = Inr (Retr n)"
  "update_arguments (Dele 0) 1 (num_arg n) = Inr (Dele n)"
  "update_arguments (Top 0 0) 1 (num_arg n) = Inr (Top n 0)"
  "update_arguments (Top m 0) 2 (num_arg n) = Inr (Top m n)"
  "update_arguments (Listing None) 1 (num_arg n) = Inr (Listing (Some n))"
  "update_arguments (Uidl None) 1 (num_arg n) = Inr (Uidl (Some n))"
  by (simp_all add: update_arguments_digits update_arguments_option add_digits_num_arg del: One_nat_def)

lemma word_into_string: "word w \<Longrightarrow> into_string w = Inr w"
  by (simp add: word_def into_string_def)

lemma mechanism_word: "word (mechanism_as_str m)"
  by (cases m) (simp_all add: word_def separator_def)

lemma mechanism_length: "length (mechanism_as_str m) < 64"
  by (cases m) simp_all

lemma feed_auth:
  assumes "list_all word ps" and "length ps \<le> 3" and "sum_list (map length ps) \<le> 1024"
  shows "pop3.feed (Argument (Auth [] []) 0 True) (mechanism_as_str m @ concat (map (\<lambda>w. SP # w) ps) @ [CR, LF])
    = ([Inr (Auth m ps)], Init)"
proof -
  let ?m = "mechanism_as_str m"
  have "update_arguments (Auth [] []) 1 ?m = Inr (Auth ?m [])"
    using update_arguments_mech [of "[]" ?m] mechanism_length [of m] by simp
  then have "pop3.feed (Argument (Auth [] []) 0 True) (?m @ concat (map (\<lambda>w. SP # w) ps) @ [CR, LF])
      = pop3.feed (Argument (Auth ?m []) 1 False) (concat (map (\<lambda>w. SP # w) ps) @ [CR, LF])"
    using feed_word [of ?m "Auth [] []" 0 "Auth ?m []"] mechanism_word [of m] by (simp add: word_def)
  also have "\<dots> = ([finalize (Auth ?m ps) (length ps + 1)], Init)"
    using feed_params [of ?m ps "[]" False] mechanism_length [of m] assms by simp
  finally show ?thesis using assms(1) by (simp add: mechanism_parse_as_str into_strings_words)
qed

lemma feed_command_line: "sendable c \<Longrightarrow> pop3.feed Init (command_line c) = ([Inr c], Init)"
proof (cases c)
  case (User name)
  assume "sendable c"
  then have "pop3.feed (Argument (User []) 0 True) (name @ [CR, LF]) = ([finalize (User name) 1], Init)"
    using User update_arguments_text(1) [of "[]" name] by (intro arg_line) auto
  then show ?thesis using User \<open>sendable c\<close> feed_words(1) [of "name @ [CR, LF]"]
    by (simp add: command_line_def word_into_string)
next
  case (Pass str)
  assume "sendable c"
  then have "pop3.feed (Argument (Pass []) 0 True) (str @ [CR, LF]) = ([finalize (Pass str) 1], Init)"
    using Pass update_arguments_text(2) [of "[]" str] by (intro arg_line) auto
  then show ?thesis using Pass \<open>sendable c\<close> feed_words(2) [of "str @ [CR, LF]"]
    by (simp add: command_line_def word_into_string)
next
  case (Apop name digest)
  assume "sendable c"
  then have "pop3.feed (Argument (Apop [] []) 0 True) (name @ SP # digest @ [CR, LF])
      = ([finalize (Apop name digest) 2], Init)"
    using Apop update_arguments_text(3) [of "[]" name "[]"] update_arguments_text(4) [of "[]" digest name]
    by (intro arg_line2) (auto simp: MAX_ARG_LEN_def)
  then show ?thesis using Apop \<open>sendable c\<close> feed_words(3) [of "name @ SP # digest @ [CR, LF]"]
    by (simp add: command_line_def word_into_string)
next
  case (Auth m ps)
  assume "sendable c"
  then show ?thesis using Auth feed_auth [of ps m]
      feed_words(8) [of "mechanism_as_str m @ concat (map (\<lambda>w. SP # w) ps) @ [CR, LF]"]
    by (simp add: command_line_def)
next
  case (Listing n)
  then show ?thesis using feed_bare(3) feed_words(4) arg_line [OF num_arg_word update_arguments_num(5)]
    by (cases n) (simp_all add: command_line_def)
next
  case (Uidl n)
  then show ?thesis using feed_bare(6) feed_words(7) arg_line [OF num_arg_word update_arguments_num(6)]
    by (cases n) (simp_all add: command_line_def)
next
  case (Retr n)
  then show ?thesis using feed_words(5) arg_line [OF num_arg_word update_arguments_num(1)]
    by (simp add: command_line_def)
next
  case (Dele n)
  then show ?thesis using feed_words(6) arg_line [OF num_arg_word update_arguments_num(2)]
    by (simp add: command_line_def)
next
  case (Top n k)
  then show ?thesis
    using feed_top arg_line2 [OF num_arg_word num_arg_word update_arguments_num(3) update_arguments_num(4)]
    by (simp add: command_line_def)
qed (use feed_bare in \<open>simp_all add: command_line_def\<close>)

section \<open>The parser as a whole\<close>

text \<open>One call of \<open>ingest\<close> per network read; the parser state is kept between calls.\<close>

fun parse_buffers :: "parser_state \<Rightarrow> string list \<Rightarrow> (reason + pop3_command) list \<times> parser_state" where
  "parse_buffers s [] = ([], s)"
| "parse_buffers s (b # bufs) =
     (case parse_all s b of (rs, s') \<Rightarrow>
        (case parse_buffers s' bufs of (rs', s'') \<Rightarrow> (rs @ rs', s'')))"

lemma parse_buffers_feed: "parse_buffers s bufs = pop3.feed s (concat bufs)"
  unfolding pop3.feed_concat
  by (induction bufs arbitrary: s) (simp_all add: parse_all_feed)

lemma feed_command_lines:
  "list_all sendable cs \<Longrightarrow> pop3.feed Init (concat (map command_line cs)) = (map Inr cs, Init)"
  by (induction cs) (simp_all add: pop3.feed_append feed_command_line)

lemma step_result_LF: "parser_step s b = (s', Some r) \<Longrightarrow> b = LF \<and> s' = Init"
  by (cases s) (auto simp: separators_not_letters split: if_splits sum.splits)

lemma feed_results: "length (fst (pop3.feed s bs)) \<le> length (filter ((=) LF) bs)"
proof (induction bs arbitrary: s)
  case (Cons b bs)
  obtain s' r where step: "parser_step s b = (s', r)" by fastforce
  show ?case
  proof (cases r)
    case None
    then show ?thesis using Cons.IH [of s'] step by (auto split: prod.splits)
  next
    case (Some x)
    then show ?thesis using Cons.IH [of s'] step step_result_LF [of s b s' x]
      by (auto split: prod.splits)
  qed
qed simp

lemma feed_error_line:
  "LF \<notin> set l \<Longrightarrow> pop3.feed (Error e) (l @ LF # bs) = (case pop3.feed Init bs of (rs, t) \<Rightarrow> (Inl e # rs, t))"
  by (induction l) (auto split: prod.splits)

lemma feed_word_error:
  assumes "list_all (\<lambda>c. \<not> separator c) w" and "w \<noteq> []" and "update_arguments request (Suc num) w = Inl e"
  shows "pop3.feed (Argument request num True) (w @ [CR, LF]) = ([Inl e], Init)"
proof -
  have err: "pop3.feed (Error e) (v @ [CR, LF]) = ([Inl e], Init)" if "list_all (\<lambda>c. \<not> separator c) v" for v
    using that feed_error_line [of "v @ [CR]" e "[]"] by (auto simp: list_all_iff separator_def)
  have rest: "pop3.feed (Argument r (Suc num) False) (v @ [CR, LF]) = ([Inl e], Init)"
    if "list_all (\<lambda>c. \<not> separator c) v" "update_arguments r (Suc num) v = Inl e" for r v
    using that
  proof (induction r "Suc num" v rule: update_arguments.induct)
    case (2 r b v)
    then show ?case
      using err [of v] by (cases "update_argument r (Suc num) b") (auto simp: separator_def split: prod.splits)
  qed simp
  obtain b v where w: "w = b # v" using assms(2) by (cases w) auto
  with assms err [of v] rest [of v] show ?thesis
    by (cases "update_argument request (Suc num) b") (auto simp: separator_def split: prod.splits)
qed

text \<open>
  C18: pipelined POP3 commands are understood, however the network cuts them into reads: the
  parser returns the commands whose lines were sent, in order, and is back in its initial
  state.
\<close>

theorem pop3_pipelining:
  assumes "list_all sendable cs" and "concat bufs = concat (map command_line cs)"
  shows "parse_buffers Init bufs = (map Inr cs, Init)"
  unfolding parse_buffers_feed assms(2) using feed_command_lines [OF assms(1)] .

theorem pop3_pipelining_witness:
  "parse_buffers Init [''DE'', ''LE 7'' @ [CR], LF # ''QUIT'' @ [CR, LF]] = ([Inr (Dele 7), Inr Quit], Init)"
proof -
  have "concat [''DE'', ''LE 7'' @ [CR], LF # ''QUIT'' @ [CR, LF]] = concat (map command_line [Dele 7, Quit])"
    by code_simp
  from pop3_pipelining [OF _ this] show ?thesis by simp
qed

text \<open>
  The POP3 parser is safe on every input: the state it reaches keeps its bounds (four
  bytes of command, arguments of at most 256 bytes, an existing parameter wherever one is
  extended), and it returns at most one result per line feed received.
\<close>

theorem pop3_parser_bounds:
  "parser_ok (snd (parse_buffers Init bufs))
   \<and> length (fst (parse_buffers Init bufs)) \<le> length (filter ((=) LF) (concat bufs))"
  unfolding parse_buffers_feed
  using pop3.feed_inv [of parser_ok Init "concat bufs", OF parser_step_ok] feed_results by simp

text \<open>
  A message number is accepted exactly when it is a decimal number below \<open>2^32\<close>, and
  then its value is the command's argument; every other word gives one error, and the parser
  goes on with the next line.
\<close>

theorem pop3_message_numbers:
  assumes "list_all (\<lambda>c. \<not> separator c) w" and "w \<noteq> []"
  shows "\<exists>r. parse_all Init (''DELE'' @ SP # w @ [CR, LF]) = ([r], Init)
    \<and> (if list_all is_ascii_digit w \<and> decimal_value w < 2 ^ 32
       then r = Inr (Dele (of_nat (decimal_value w))) else \<exists>e. r = Inl e)"
proof (cases "add_digits 0 w")
  case (Inl e)
  then have "\<not> (list_all is_ascii_digit w \<and> decimal_value w < 2 ^ 32)"
    using add_digits_value(1) [of 0 w] by (auto simp: decimal_value_def)
  moreover have "pop3.feed (Argument (Dele 0) 0 True) (w @ [CR, LF]) = ([Inl e], Init)"
    using feed_word_error [OF assms] Inl update_arguments_digits(2) [of 0 w] by simp
  ultimately show ?thesis using feed_words(6) by (simp add: parse_all_feed)
next
  case (Inr m)
  then have "list_all is_ascii_digit w \<and> decimal_value w < 2 ^ 32" "unat m = decimal_value w"
    using add_digits_value [of 0 w] by (auto simp: decimal_value_def)
  moreover have "pop3.feed (Argument (Dele 0) 0 True) (w @ [CR, LF]) = ([Inr (Dele m)], Init)"
    using feed_word [OF assms, of "Dele 0" 0 "Dele m" "[CR, LF]"] Inr update_arguments_digits(2) [of 0 w] by simp
  ultimately show ?thesis using feed_words(6)
    by (simp add: parse_all_feed word_unat_eq_iff unat_of_nat_u32)
qed

theorem pop3_message_numbers_witness:
  "\<exists>e. parse_all Init (''DELE'' @ SP # ''4294967296'' @ [CR, LF]) = ([Inl e], Init)"
proof -
  have "list_all (\<lambda>c. \<not> separator c) ''4294967296''" by (simp add: separator_def)
  from pop3_message_numbers [OF this] show ?thesis
    by (auto simp: decimal_value_def digit_value_def)
qed

text \<open>
  A line of one or two letters is not answered at its end: the parser goes to its error
  state only at the line feed and waits for another one, so the whole next line, whatever it
  says, is swallowed and the two lines together get one error.
\<close>

theorem pop3_short_line_swallows_next:
  assumes "is_letter a" and "is_letter b" and "LF \<notin> set next_line"
  shows "parse_all Init ([a, b, LF] @ next_line @ [LF]) = ([Inl (Reason ''Invalid command'')], Init)"
  using assms separators_not_letters letter_not_separator [of a] letter_not_separator [of b]
    feed_error_line [of next_line "Reason ''Invalid command''" "[]"]
  by (simp add: parse_all_feed invalid_command_def)

theorem pop3_short_line_swallows_next_witness:
  "parse_all Init (''QU'' @ [LF] @ ''NOOP'' @ [LF]) = ([Inl (Reason ''Invalid command'')], Init)"
  using pop3_short_line_swallows_next [of "CHR ''Q''" "CHR ''U''" "''NOOP''"] by simp

end
