(* ===== verification/Chained_Bytes.thy ===== *)
theory Chained_Bytes
  imports Prelude
begin

text \<open>
  \<^verbatim>\<open>crates/utils/src/chained_bytes.rs\<close>: two byte slices read as one, used to join the
  stored headers of a message to its body without copying. Indices are \<^typ>\<open>nat\<close>s; the
  unchecked subtractions of the code wrap, as in a release build (a debug build panics there).
\<close>

section \<open>Slices\<close>

text \<open>\<open>get(a..b)\<close> on a slice, and a subtraction of \<open>usize\<close>s.\<close>

definition slice_get :: "'a list \<Rightarrow> nat \<Rightarrow> nat \<Rightarrow> 'a list option" where
  "slice_get xs a b = (if a \<le> b \<and> b \<le> length xs then Some (take (b - a) (drop a xs)) else None)"

definition slice_from :: "'a list \<Rightarrow> nat \<Rightarrow> 'a list option" where
  "slice_from xs a = (if a \<le> length xs then Some (drop a xs) else None)"

definition sub_usize :: "nat \<Rightarrow> nat \<Rightarrow> nat" where
  "sub_usize a b = (if b \<le> a then a - b else a + 2 ^ 64 - b)"

section \<open>The two slices\<close>

record chained_bytes =
  cb_first :: string
  cb_last :: string

datatype slice_range =
    Single string
  | Split string string
  | NoRange

definition chained_new :: "string \<Rightarrow> chained_bytes" where
  "chained_new bytes = \<lparr>cb_first = bytes, cb_last = []\<rparr>"

definition chained_append :: "chained_bytes \<Rightarrow> string \<Rightarrow> chained_bytes" where
  "chained_append c bytes = c\<lparr>cb_last := bytes\<rparr>"

definition chained_with_last :: "chained_bytes \<Rightarrow> string \<Rightarrow> chained_bytes" where
  "chained_with_last c bytes = c\<lparr>cb_last := bytes\<rparr>"

definition chained_get :: "chained_bytes \<Rightarrow> nat \<Rightarrow> nat \<Rightarrow> string option" where
  "chained_get c start stop =
     (let n = length (cb_first c)
      in case slice_get (cb_first c) start stop of
           Some bytes \<Rightarrow> Some bytes
         | None \<Rightarrow>
             (if start \<ge> n then slice_get (cb_last c) (sub_usize start n) (sub_usize stop n)
              else (case (slice_from (cb_first c) start, slice_get (cb_last c) 0 (sub_usize stop n)) of
                      (Some a, Some b) \<Rightarrow> Some (a @ b)
                    | _ \<Rightarrow> None)))"

definition chained_slice_range :: "chained_bytes \<Rightarrow> nat \<Rightarrow> nat \<Rightarrow> slice_range" where
  "chained_slice_range c start stop =
     (let n = length (cb_first c)
      in case slice_get (cb_first c) start stop of
           Some bytes \<Rightarrow> Single bytes
         | None \<Rightarrow>
             (if start \<ge> n then
                (case slice_get (cb_last c) (sub_usize start n) (sub_usize stop n) of
                   Some bytes \<Rightarrow> Single bytes | None \<Rightarrow> NoRange)
              else (case (slice_from (cb_first c) start, slice_get (cb_last c) 0 (sub_usize stop n)) of
                      (Some a, Some b) \<Rightarrow> Split a b
                    | _ \<Rightarrow> NoRange)))"

definition chained_full_range :: "chained_bytes \<Rightarrow> slice_range" where
  "chained_full_range c = (if cb_last c = [] then Single (cb_first c) else Split (cb_first c) (cb_last c))"

definition chained_to_bytes :: "chained_bytes \<Rightarrow> string" where
  "chained_to_bytes c = cb_first c @ cb_last c"

definition chained_len :: "chained_bytes \<Rightarrow> nat" where
  "chained_len c = length (cb_first c) + length (cb_last c)"

definition chained_is_empty :: "chained_bytes \<Rightarrow> bool" where
  "chained_is_empty c \<longleftrightarrow> chained_len c = 0"

fun range_len :: "slice_range \<Rightarrow> nat" where
  "range_len (Single bytes) = length bytes"
| "range_len (Split a b) = length a + length b"
| "range_len NoRange = 0"

fun range_try_into_bytes :: "slice_range \<Rightarrow> string option" where
  "range_try_into_bytes (Single bytes) = Some bytes"
| "range_try_into_bytes (Split a b) = Some (a @ b)"
| "range_try_into_bytes NoRange = None"

fun range_into_pairs :: "slice_range \<Rightarrow> string \<times> string" where
  "range_into_pairs (Single bytes) = (bytes, [])"
| "range_into_pairs (Split a b) = (a, b)"
| "range_into_pairs NoRange = ([], [])"

definition range_is_none :: "slice_range \<Rightarrow> bool" where
  "range_is_none r \<longleftrightarrow> r = NoRange"

definition range_into_iter :: "slice_range \<Rightarrow> string" where
  "range_into_iter r = (case range_into_pairs r of (a, b) \<Rightarrow> a @ b)"

section \<open>The concatenation\<close>

lemma range_into_iter_simps [simp]:
  "range_into_iter (Single a) = a" "range_into_iter (Split a b) = a @ b" "range_into_iter NoRange = []"
  by (simp_all add: range_into_iter_def)

lemma range_iter_len: "length (range_into_iter r) = range_len r"
  by (cases r) simp_all

lemma full_range_iter [simp]: "range_into_iter (chained_full_range c) = chained_to_bytes c"
  by (simp add: chained_full_range_def chained_to_bytes_def)

lemma slice_get_append:
  "a \<le> b \<Longrightarrow> slice_get (xs @ ys) a b =
     (if b \<le> length xs then slice_get xs a b
      else if length xs \<le> a then slice_get ys (a - length xs) (b - length xs)
      else map_option ((@) (drop a xs)) (slice_get ys 0 (b - length xs)))"
  by (auto simp: slice_get_def)

lemma range_of_get:
  "range_try_into_bytes (chained_slice_range c start stop) = chained_get c start stop"
  by (simp add: chained_slice_range_def chained_get_def Let_def split: option.split)

text \<open>
  Two chained slices behave as their concatenation: for a range whose ends are in order,
  both look-ups give exactly the bytes of that range of the joined text, and fail exactly when
  it ends beyond it; the full range, the length and the iteration are those of the joined text.
\<close>

theorem chained_bytes_concatenation:
  assumes "start \<le> stop"
  shows "chained_get c start stop = slice_get (chained_to_bytes c) start stop
   \<and> range_try_into_bytes (chained_slice_range c start stop) = slice_get (chained_to_bytes c) start stop
   \<and> range_into_iter (chained_full_range c) = chained_to_bytes c
   \<and> range_len (chained_full_range c) = chained_len c
   \<and> chained_len c = length (chained_to_bytes c)"
proof -
  have "chained_get c start stop = slice_get (chained_to_bytes c) start stop"
    using assms unfolding chained_to_bytes_def slice_get_append [OF assms]
    by (auto simp: chained_get_def sub_usize_def slice_from_def slice_get_def Let_def split: option.split)
  then show ?thesis
    by (simp add: range_of_get flip: range_iter_len) (simp add: chained_len_def chained_to_bytes_def)
qed

theorem chained_bytes_concatenation_witness:
  "chained_get (chained_with_last (chained_new ''abc'') ''defg'') 2 5 = Some ''cde''"
  using chained_bytes_concatenation [of 2 5 "chained_with_last (chained_new ''abc'') ''defg''"]
  by (simp add: chained_with_last_def chained_new_def chained_to_bytes_def slice_get_def eval_nat_numeral)

end
