(* ===== verification/Pop3_Response.thy ===== *)
theory Pop3_Response
  imports Pop3_Parser Chained_Bytes
begin

text \<open>
  \<^verbatim>\<open>crates/pop3/src/protocol/response.rs\<close>: the bytes of POP3 responses. A message is sent
  as a multi-line response: line ends become CRLF and a line that begins with a dot gets
  another one. What a client makes of it is \<open>client_body\<close>, the receiving side of
  RFC 1939.
\<close>

section \<open>Responses\<close>

datatype response =
    Okay string
  | Erring string
  | Entries "string list"
  | Message slice_range u32
  | Capability "mechanism list" bool

definition crlf :: string where
  "crlf = [CR, LF]"

text \<open>The numbered lines of a list, counted from \<open>num\<close>.\<close>

fun entry_lines :: "nat \<Rightarrow> string list \<Rightarrow> string" where
  "entry_lines num [] = []"
| "entry_lines num (octet # octets) =
     nat_to_string (num + 1) @ [SP] @ octet @ crlf @ entry_lines (num + 1) octets"

text \<open>
  The transparency loop: \<open>lines\<close> is the limit (0 for none), \<open>line_count\<close> the lines
  sent so far. The result is the bytes and the last byte of the message that was sent.
\<close>

fun transparency :: "u32 \<Rightarrow> u32 \<Rightarrow> char \<Rightarrow> string \<Rightarrow> string \<times> char" where
  "transparency lines line_count last_byte [] = ([], last_byte)"
| "transparency lines line_count last_byte (byte # bytes) =
     (let pre = (if byte = LF \<and> last_byte \<noteq> CR then [CR] else [])
                @ (if byte = CHR ''.'' \<and> last_byte = LF then ''.'' else [])
                @ [byte]
      in if lines > 0 \<and> byte = LF \<and> line_count + 1 = lines then (pre, byte)
         else (case transparency lines (if lines > 0 \<and> byte = LF then line_count + 1 else line_count) byte bytes of
                 (out, l) \<Rightarrow> (pre @ out, l)))"

definition message_lines :: "u32 \<Rightarrow> string \<Rightarrow> string" where
  "message_lines lines bytes =
     (case transparency lines 0 NUL bytes of
        (out, last_byte) \<Rightarrow> out @ (if last_byte \<noteq> LF then crlf else []) @ ''.'' @ crlf)"

definition capabilities :: "string list" where
  "capabilities = [''TOP'', ''RESP-CODES'', ''PIPELINING'', ''EXPIRE NEVER'', ''UIDL'', ''UTF8'',
     ''IMPLEMENTATION Stalwart Server'']"

fun response_serialize :: "response \<Rightarrow> string" where
  "response_serialize (Okay message) = ''+OK '' @ message @ crlf"
| "response_serialize (Erring message) = ''-ERR '' @ message @ crlf"
| "response_serialize (Entries octets) =
     ''+OK '' @ nat_to_string (length octets) @ '' messages'' @ crlf @ entry_lines 0 octets @ ''.'' @ crlf"
| "response_serialize (Message bytes lines) =
     ''+OK '' @ nat_to_string (range_len bytes) @ '' octets'' @ crlf @ message_lines lines (range_into_iter bytes)"
| "response_serialize (Capability mechanisms stls) =
     ''+OK Capability list follows'' @ crlf
     @ (if mechanisms \<noteq> [] then
          (if Plain \<in> set mechanisms then ''USER'' @ crlf else [])
          @ ''SASL'' @ concat (map (\<lambda>m. SP # mechanism_as_str m) mechanisms) @ crlf
        else [])
     @ (if stls then ''STLS'' @ crlf else [])
     @ concat (map (\<lambda>capa. capa @ crlf) capabilities)
     @ ''.'' @ crlf"

section \<open>What the client reads\<close>

text \<open>
  The body of a multi-line response up to its terminating line, with the dots of its lines
  unstuffed, and the bytes after it; \<open>bol\<close> says that a line begins here.
\<close>

fun client_body :: "bool \<Rightarrow> char \<Rightarrow> string \<Rightarrow> (string \<times> string) option" where
  "client_body bol prev [] = None"
| "client_body bol prev (c # cs) =
     (if bol \<and> c = CHR ''.'' \<and> take 2 cs = crlf then Some ([], drop 2 cs)
      else map_option (\<lambda>(m, rest). (if bol \<and> c = CHR ''.'' then m else c # m, rest))
             (client_body (prev = CR \<and> c = LF) c cs))"

text \<open>The message with CRLF line ends, the last line terminated.\<close>

fun crlf_text :: "char \<Rightarrow> string \<Rightarrow> string" where
  "crlf_text last_byte [] = (if last_byte \<noteq> LF then crlf else [])"
| "crlf_text last_byte (b # bs) =
     (if b = LF \<and> last_byte \<noteq> CR then crlf else [b]) @ crlf_text b bs"

fun first_lines :: "nat \<Rightarrow> string \<Rightarrow> string" where
  "first_lines n [] = []"
| "first_lines n (b # bs) =
     b # (if b = LF then (if n = 1 then [] else first_lines (n - 1) bs) else first_lines n bs)"

lemma client_transparency:
  "transparency 0 k l bs = (out, l') \<Longrightarrow>
     client_body (l = LF) l (out @ (if l' \<noteq> LF then crlf else []) @ ''.'' @ crlf @ rest)
       = Some (crlf_text l bs, rest)"
proof (induction bs arbitrary: k l out)
  case Nil
  then show ?case by (auto simp: crlf_def)
next
  case (Cons b bs)
  obtain o1 where o1: "transparency 0 k b bs = (o1, l')"
    using Cons.prems by (auto simp: Let_def split: prod.splits)
  have out: "out = (if b = LF \<and> l \<noteq> CR then [CR] else [])
      @ (if b = CHR ''.'' \<and> l = LF then ''.'' else []) @ [b] @ o1"
    using Cons.prems o1 by (auto simp: Let_def)
  show ?case using Cons.IH [OF o1] unfolding out by (auto simp: crlf_def)
qed

lemma transparency_first_lines:
  "unat cnt < unat lines \<Longrightarrow>
     transparency lines cnt l bs = transparency 0 k l (first_lines (unat lines - unat cnt) bs)"
proof (induction bs arbitrary: cnt l)
  case (Cons b bs)
  have pos: "lines > 0" using Cons.prems by (simp add: word_less_nat_alt)
  have inc: "unat (cnt + 1) = Suc (unat cnt)"
    using Cons.prems by (rule unat_inc)
  show ?case
  proof (cases "b = LF")
    case True
    have one: "unat lines - unat cnt = 1 \<longleftrightarrow> cnt + 1 = lines"
      using Cons.prems inc by (auto simp: word_unat_eq_iff)
    show ?thesis
    proof (cases "cnt + 1 = lines")
      case True
      with one pos \<open>b = LF\<close> show ?thesis by (auto simp: Let_def)
    next
      case False
      then have "unat (cnt + 1) < unat lines"
        using Cons.prems inc by (metis Suc_lessI word_unat_eq_iff)
      moreover have "unat lines - unat (cnt + 1) = unat lines - unat cnt - 1" using inc by simp
      ultimately show ?thesis using Cons.IH [of "cnt + 1" b] pos one False \<open>b = LF\<close>
        by (auto simp: Let_def split: prod.splits)
    qed
  next
    case False
    with Cons.IH [OF Cons.prems, of b] show ?thesis by (auto simp: Let_def split: prod.splits)
  qed
qed simp

lemma client_body_start:
  assumes "take 1 bs \<noteq> ''.''"
  shows "client_body True NUL (message_lines 0 bs @ rest) = client_body False NUL (message_lines 0 bs @ rest)"
proof (cases bs)
  case Nil
  then show ?thesis by (simp add: message_lines_def crlf_def)
next
  case (Cons b bs')
  with assms show ?thesis
    by (auto simp: message_lines_def Let_def split: prod.splits)
qed

text \<open>
  C26: a client that reads a POP3 message response gets exactly the message, with CRLF line ends
  and its last line terminated, and is left at the byte after the response, whatever dots and
  line ends the message holds, provided its first byte is not a dot; \<open>TOP\<close> with a positive
  limit gives that many lines of the message, counted from its first header line, and
  with limit 0 the whole message.
\<close>

theorem pop3_message_transparency:
  assumes "take 1 m \<noteq> ''.''"
  shows "client_body True NUL (message_lines lines m @ rest)
    = Some (crlf_text NUL (if lines = 0 then m else first_lines (unat lines) m), rest)"
proof -
  let ?m = "if lines = 0 then m else first_lines (unat lines) m"
  have "transparency lines 0 NUL m = transparency 0 0 NUL ?m"
    using transparency_first_lines [of 0 lines NUL m 0] by (cases "lines = 0") (simp_all add: unat_gt_0)
  then have eq: "message_lines lines m = message_lines 0 ?m" by (simp add: message_lines_def)
  have "take 1 ?m \<noteq> ''.''" using assms by (cases m) auto
  from client_body_start [OF this] show ?thesis
    unfolding eq using client_transparency [of 0 NUL ?m _ _ rest]
    by (simp add: message_lines_def split: prod.splits)
qed

theorem pop3_message_transparency_witness:
  "client_body True NUL (message_lines 0 ([CHR ''a'', LF] @ ''.b'') @ ''+OK'')
     = Some (''a'' @ [CR, LF] @ ''.b'' @ [CR, LF], ''+OK'')"
  using pop3_message_transparency [of "[CHR ''a'', LF] @ ''.b''" 0 "''+OK''"]
  by (simp add: crlf_def)

text \<open>
  The first byte of a message is not looked at by the dot stuffing: a message whose first
  line is a single dot is empty for the client, and everything after that line is read as the
  responses to the next commands.
\<close>

theorem pop3_leading_dot_ends_message:
  "client_body True NUL (message_lines 0 (''.'' @ crlf @ m)) = Some ([], fst (transparency 0 0 LF m)
     @ (if snd (transparency 0 0 LF m) \<noteq> LF then crlf else []) @ ''.'' @ crlf)"
  by (cases "transparency 0 0 LF m") (simp add: message_lines_def crlf_def Let_def)

end
