(* ===== verification/Sasl.thy ===== *)
theory Sasl
  imports Chained_Bytes
begin

text \<open>
  \<^verbatim>\<open>crates/directory/src/core/sasl.rs\<close>: decoding the SASL challenges \<open>PLAIN\<close> and
  \<open>OAUTHBEARER\<close>/\<open>XOAUTH2\<close>, after base 64. The e-mail address that is read from the
  claims of a token comes from JSON and base-64 libraries and is the parameter \<open>jwt_email\<close>.
\<close>

section \<open>Credentials\<close>

datatype credentials =
    Basic string string "string option"
  | Bearer "string option" string

section \<open>PLAIN\<close>

fun plain_loop :: "nat \<Rightarrow> string \<Rightarrow> string \<Rightarrow> string \<Rightarrow> string \<times> string" where
  "plain_loop arg_num username secret [] = (username, secret)"
| "plain_loop arg_num username secret (ch # bytes) =
     (if ch \<noteq> NUL then
        (if arg_num = 1 then plain_loop arg_num (username @ [ch]) secret bytes
         else if arg_num = 2 then plain_loop arg_num username (secret @ [ch]) bytes
         else plain_loop arg_num username secret bytes)
      else plain_loop (arg_num + 1) username secret bytes)"

definition decode_plain :: "string \<Rightarrow> credentials option" where
  "decode_plain challenge =
     (case plain_loop 0 [] [] challenge of (username, secret) \<Rightarrow>
        if utf8_valid username \<and> utf8_valid secret \<and> username \<noteq> [] \<and> secret \<noteq> []
        then Some (Basic username secret None) else None)"

section \<open>OAUTHBEARER\<close>

abbreviation SOH :: char where "SOH \<equiv> CHR 0x01"

text \<open>\<open>str::from_utf8\<close> on a slice that may not exist.\<close>

definition utf8_slice :: "string option \<Rightarrow> string option" where
  "utf8_slice s = (case s of Some t \<Rightarrow> if utf8_valid t then Some t else None | None \<Rightarrow> None)"

text \<open>The position of the next comma or separator from \<open>pos\<close> on.\<close>

fun find_end :: "string \<Rightarrow> nat \<Rightarrow> nat option" where
  "find_end [] pos = None"
| "find_end (ch # bytes) pos = (if ch = CHR '','' \<or> ch = SOH then Some pos else find_end bytes (pos + 1))"

lemma find_end_bounds: "find_end bytes pos = Some p \<Longrightarrow> pos \<le> p \<and> p < pos + length bytes"
  by (induction bytes pos rule: find_end.induct) (auto split: if_splits)

text \<open>
  The loop over the bytes. \<open>pos\<close> is the position of the iterator; the inner loop over an
  \<open>a=\<close> attribute moves the same iterator behind the byte that ends it.
\<close>

function oauth_loop ::
  "(string \<Rightarrow> string option) \<Rightarrow> string \<Rightarrow> nat \<Rightarrow> nat \<Rightarrow> string option \<Rightarrow> (string \<times> string option) option" where
  "oauth_loop jwt_email bytes pos start_pos a =
     (if length bytes \<le> pos then None
      else if bytes ! pos = CHR '','' \<and>
              (case slice_get bytes (pos + 1) (pos + 3) of
                 Some s \<Rightarrow> eq_ignore_ascii_case s ''a='' | None \<Rightarrow> False)
      then
        (let from_pos = pos + 3
         in case find_end (drop (pos + 1) bytes) (pos + 1) of
              None \<Rightarrow> None
            | Some to_pos \<Rightarrow>
                oauth_loop jwt_email bytes (to_pos + 1) start_pos
                  (if to_pos > from_pos
                   then (case utf8_slice (slice_get bytes from_pos to_pos) of
                           Some v \<Rightarrow> if CHR ''@'' \<in> set v then Some v else None
                         | None \<Rightarrow> None)
                   else a))
      else if bytes ! pos = SOH \<or> pos = length bytes - 1 then
        (if (case slice_get bytes start_pos (start_pos + 12) of
               Some s \<Rightarrow> eq_ignore_ascii_case s ''auth=Bearer '' | None \<Rightarrow> False)
         then
           map_option (\<lambda>token. (token, case a of Some u \<Rightarrow> Some u | None \<Rightarrow> jwt_email token))
             (utf8_slice (slice_get bytes (start_pos + 12)
               (if bytes ! pos = SOH then pos else length bytes)))
         else oauth_loop jwt_email bytes (pos + 1) (pos + 1) a)
      else oauth_loop jwt_email bytes (pos + 1) start_pos a)"
  by pat_completeness auto
termination
  by (relation "measure (\<lambda>(_, bytes, pos, _, _). length bytes - pos)")
    (auto dest!: find_end_bounds)

declare oauth_loop.simps [simp del]

definition extract_oauth_bearer ::
  "(string \<Rightarrow> string option) \<Rightarrow> string \<Rightarrow> (string \<times> string option) option" where
  "extract_oauth_bearer jwt_email bytes = oauth_loop jwt_email bytes 0 0 None"

definition decode_oauth :: "(string \<Rightarrow> string option) \<Rightarrow> string \<Rightarrow> credentials option" where
  "decode_oauth jwt_email challenge =
     map_option (\<lambda>(token, username). Bearer username token) (extract_oauth_bearer jwt_email challenge)"

section \<open>Round trips\<close>

lemma plain_loop_word:
  "NUL \<notin> set w \<Longrightarrow> plain_loop n u s (w @ bytes) =
     plain_loop n (if n = 1 then u @ w else u) (if n = 2 then s @ w else s) bytes"
  by (induction w arbitrary: u s) auto

lemma slice_get_mid:
  "bytes = xs @ w @ ys \<Longrightarrow> p = length xs \<Longrightarrow> q = length xs + length w \<Longrightarrow> slice_get bytes p q = Some w"
  by (simp add: slice_get_def)

lemma oauth_skip:
  "ys \<noteq> [] \<Longrightarrow> CHR '','' \<notin> set w \<Longrightarrow> SOH \<notin> set w \<Longrightarrow>
     oauth_loop j (xs @ w @ ys) (length xs) st a = oauth_loop j (xs @ w @ ys) (length xs + length w) st a"
proof (induction w arbitrary: xs)
  case (Cons c w)
  have "oauth_loop j (xs @ (c # w) @ ys) (length xs) st a = oauth_loop j (xs @ (c # w) @ ys) (length xs + 1) st a"
    using Cons.prems by (subst oauth_loop.simps) (auto simp: nth_append)
  also have "\<dots> = oauth_loop j ((xs @ [c]) @ w @ ys) (length (xs @ [c]) + length w) st a"
    using Cons.IH [of "xs @ [c]"] Cons.prems by simp
  finally show ?case by simp
qed simp

lemma oauth_skipI:
  "bytes = xs @ w @ ys \<Longrightarrow> p = length xs \<Longrightarrow> q = length xs + length w \<Longrightarrow> ys \<noteq> [] \<Longrightarrow>
     CHR '','' \<notin> set w \<Longrightarrow> SOH \<notin> set w \<Longrightarrow> oauth_loop j bytes p st a = oauth_loop j bytes q st a"
  using oauth_skip by simp

lemma find_end_skip:
  "CHR '','' \<notin> set w \<Longrightarrow> SOH \<notin> set w \<Longrightarrow> find_end (w @ bytes) pos = find_end bytes (pos + length w)"
  by (induction w arbitrary: pos) auto

lemma oauth_attribute:
  assumes "b = xs @ '',a='' @ u @ CHR '','' # ys" and "p = length xs" and "q = length xs + length u + 4"
    and u: "CHR '','' \<notin> set u" "SOH \<notin> set u" "CHR ''@'' \<in> set u" "utf8_valid u"
  shows "oauth_loop j b p st a = oauth_loop j b q st (Some u)"
proof -
  have at: "b ! p = CHR '','' \<and> p < length b" using assms(1,2) by (simp add: nth_append)
  have key: "slice_get b (p + 1) (p + 3) = Some ''a=''"
    by (rule slice_get_mid [of _ "xs @ '',''" _ "u @ CHR '','' # ys"]) (simp_all add: assms(1,2))
  have fin: "find_end (drop (p + 1) b) (p + 1) = Some (p + length u + 3)"
    using find_end_skip [of "''a='' @ u" "CHR '','' # ys" "length xs + 1"] u(1,2) by (simp add: assms(1,2))
  have val: "slice_get b (p + 3) (p + (length u + 3)) = Some u"
    by (rule slice_get_mid [of _ "xs @ '',a=''" _ "CHR '','' # ys"]) (simp_all add: assms(1,2))
  have "u \<noteq> []" using u(3) by auto
  then show ?thesis
    using u at unfolding assms(3) assms(2) [symmetric]
    by (subst oauth_loop.simps)
      (simp add: key fin val utf8_slice_def eq_ignore_ascii_case_def Let_def add.assoc del: One_nat_def)
qed

text \<open>A segment that ends with the separator: another one is started, or it holds the token.\<close>

lemma oauth_other_segment:
  assumes "b = xs @ w @ SOH # ys" and "s = length xs" and "p = length xs + length w" and "q = p + 1"
    and "\<not> eq_ignore_ascii_case (take 12 (w @ SOH # ys)) ''auth=Bearer ''"
  shows "oauth_loop j b p s a = oauth_loop j b q q a"
proof -
  have "b ! p = SOH \<and> p < length b" by (simp add: assms(1,3) nth_append)
  moreover have "slice_get b s (s + 12) \<in> {None, Some (take 12 (w @ SOH # ys))}"
    by (simp add: slice_get_def assms(1,2))
  ultimately show ?thesis using assms(4,5) by (subst oauth_loop.simps) auto
qed

lemma oauth_token_segment:
  assumes "b = xs @ ''auth=Bearer '' @ tok @ SOH # ys" and "s = length xs" and "p = length xs + 12 + length tok"
    and "utf8_valid tok"
  shows "oauth_loop j b p s (Some u) = Some (tok, Some u)"
proof -
  have "slice_get b s (s + 12) = Some ''auth=Bearer ''"
    by (rule slice_get_mid [of _ xs _ "tok @ SOH # ys"]) (simp_all add: assms(1,2))
  moreover have "slice_get b (s + 12) p = Some tok"
    by (rule slice_get_mid [of _ "xs @ ''auth=Bearer ''" _ "SOH # ys"]) (simp_all add: assms(1-3))
  moreover have "b ! p = SOH \<and> p < length b"
    using nth_append_length [of "xs @ ''auth=Bearer '' @ tok" SOH ys] by (simp add: assms(1,3) eval_nat_numeral)
  ultimately show ?thesis
    using assms(4) by (subst oauth_loop.simps) (simp add: utf8_slice_def eq_ignore_ascii_case_def)
qed

text \<open>
  The challenges that clients build are decoded to what they were built from: a \<open>PLAIN\<close>
  message to its user name and password, whatever its authorisation identity, and an
  \<open>OAUTHBEARER\<close> message to its token and its user, without looking into the token.
\<close>

theorem sasl_challenges:
  assumes "NUL \<notin> set authzid \<union> set user \<union> set pass" and "utf8_valid pass" and "pass \<noteq> []"
    and "utf8_valid user" and "CHR ''@'' \<in> set user" and "CHR '','' \<notin> set user" and "SOH \<notin> set user"
    and "utf8_valid token" and "CHR '','' \<notin> set token" and "SOH \<notin> set token"
  shows "decode_plain (authzid @ NUL # user @ NUL # pass) = Some (Basic user pass None)
   \<and> decode_oauth jwt_email (''n,a='' @ user @ [CHR '','', SOH] @ ''auth=Bearer '' @ token @ [SOH, SOH])
       = Some (Bearer (Some user) token)"
proof
  have "user \<noteq> []" using assms(5) by auto
  then show "decode_plain (authzid @ NUL # user @ NUL # pass) = Some (Basic user pass None)"
    using assms(1-4) plain_loop_word [of pass 2 user "[]" "[]"]
    by (simp add: decode_plain_def plain_loop_word numeral_2_eq_2)
next
  let ?h = "''n,a='' @ user @ '',''" and ?t = "''auth=Bearer '' @ token"
  let ?b = "?h @ SOH # ?t @ [SOH, SOH]"
  let ?p = "length user + 5"
  have "oauth_loop jwt_email ?b 0 0 None = oauth_loop jwt_email ?b 1 0 None"
    by (rule oauth_skipI [of _ "[]" "''n''" "'',a='' @ user @ '','' @ SOH # ?t @ [SOH, SOH]"]) simp_all
  also have "\<dots> = oauth_loop jwt_email ?b ?p 0 (Some user)"
    by (rule oauth_attribute [of _ "''n''" user "SOH # ?t @ [SOH, SOH]"]) (use assms(4-7) in simp_all)
  also have "\<dots> = oauth_loop jwt_email ?b (?p + 1) (?p + 1) (Some user)"
    by (rule oauth_other_segment [of _ "[]" ?h "?t @ [SOH, SOH]"])
      (simp_all add: eq_ignore_ascii_case_def to_ascii_lowercase_def is_ascii_uppercase_def)
  also have "\<dots> = oauth_loop jwt_email ?b (?p + 1 + length ?t) (?p + 1) (Some user)"
    by (rule oauth_skipI [of _ "?h @ [SOH]" ?t "[SOH, SOH]"]) (use assms(9,10) in simp_all)
  also have "\<dots> = Some (token, Some user)"
    by (rule oauth_token_segment [of _ "?h @ [SOH]" token "[SOH]"]) (use assms(8) in simp_all)
  finally show "decode_oauth jwt_email (''n,a='' @ user @ [CHR '','', SOH] @ ''auth=Bearer '' @ token @ [SOH, SOH])
       = Some (Bearer (Some user) token)"
    by (simp add: decode_oauth_def extract_oauth_bearer_def)
qed

theorem sasl_challenges_witness:
  "decode_oauth (\<lambda>_. None) (''n,a='' @ ''a@b'' @ [CHR '','', SOH] @ ''auth=Bearer '' @ ''t'' @ [SOH, SOH])
     = Some (Bearer (Some ''a@b'') ''t'')"
  using sasl_challenges [of "[]" "''a@b''" "''x''" "''t''" "\<lambda>_. None"] by simp

end
