(* ===== verification/Pop3_Session.thy ===== *)
theory Pop3_Session
  imports Pop3_Client Pop3_Response Sasl
begin

text \<open>
  The POP3 session: \<^verbatim>\<open>crates/pop3/src/client.rs\<close> (requests of one network read and their
  dispatch), \<^verbatim>\<open>session.rs\<close> (connection, TLS upgrade, errors), \<^verbatim>\<open>mailbox.rs\<close> and
  \<^verbatim>\<open>op/\<close> (the commands), \<^verbatim>\<open>lib.rs\<close> (the state).

  Authentication, access tokens, rate limits, caches, blobs and the deletion of messages are
  other parts of the server; the session calls them through the record \<open>server\<close>, whose
  functions take and return the rest of the server's state \<open>'w\<close>. The network is
  \<open>sv_write\<close>; the bytes it accepted are kept in \<open>c_sent\<close>, the deletions asked
  for in \<open>c_deletions\<close>.
\<close>

section \<open>Errors\<close>

text \<open>
  The event types that \<open>must_disconnect\<close> and \<open>should_write_err\<close> distinguish
  (\<^verbatim>\<open>crates/trc/src/event/mod.rs\<close>), and the text that \<open>serialize\<close> sends: the details of
  the error, or else the message of its event. \<open>Unreachable\<close> is not an event: it stands for
  the code's \<open>unreachable!()\<close> and \<open>unwrap()\<close>, a panic that ends the session.
\<close>

datatype event_kind =
    NetworkEvent | SecurityEvent | AuthFailed | TooManyAttempts | ConcurrentRequest
  | TooManyRequests | OtherEvent | Unreachable

record failure =
  f_kind :: event_kind
  f_text :: string

definition must_disconnect :: "failure \<Rightarrow> bool" where
  "must_disconnect e \<longleftrightarrow>
     f_kind e \<in> {NetworkEvent, TooManyAttempts, ConcurrentRequest, TooManyRequests, SecurityEvent}"

definition should_write_err :: "failure \<Rightarrow> bool" where
  "should_write_err e \<longleftrightarrow> f_kind e \<notin> {NetworkEvent, SecurityEvent}"

definition error_serialize :: "failure \<Rightarrow> string" where
  "error_serialize e = ''-ERR '' @ f_text e @ crlf"

definition pop3_error :: "string \<Rightarrow> failure" where
  "pop3_error details = \<lparr>f_kind = OtherEvent, f_text = details\<rparr>"

section \<open>Mailboxes\<close>

record pop3_message =
  m_id :: u32
  m_uid :: u32
  m_size :: u32
  m_deleted :: bool

record mailbox =
  mb_messages :: "pop3_message list"
  mb_account_id :: u32
  mb_uid_validity :: u32
  mb_total :: u32
  mb_size :: u32

definition mailbox_default :: mailbox where
  "mailbox_default =
     \<lparr>mb_messages = [], mb_account_id = 0, mb_uid_validity = 0, mb_total = 0, mb_size = 0\<rparr>"

definition INBOX_ID :: u32 where
  "INBOX_ID = 0"

text \<open>A message of the cache: document id, size, and its (mailbox, uid) pairs.\<close>

record cached_message =
  cm_document_id :: u32
  cm_size :: u32
  cm_mailboxes :: "(u32 \<times> u32) list"

record message_cache =
  mc_items :: "cached_message list"
  mc_inbox_uid_validity :: "u32 option"

text \<open>Inserting in a \<open>BTreeMap\<close>: sorted by key, a later value replaces an earlier one.\<close>

fun btree_insert :: "u32 \<times> 'a \<Rightarrow> (u32 \<times> 'a) list \<Rightarrow> (u32 \<times> 'a) list" where
  "btree_insert (k, v) [] = [(k, v)]"
| "btree_insert (k, v) ((k', v') # m) =
     (if k < k' then (k, v) # (k', v') # m
      else if k = k' then (k, v) # m
      else (k', v') # btree_insert (k, v) m)"

definition inbox_entries :: "cached_message list \<Rightarrow> (u32 \<times> u32 \<times> u32) list" where
  "inbox_entries items =
     List.map_filter (\<lambda>message.
       map_option (\<lambda>(_, uid). (uid, cm_document_id message, cm_size message))
         (find (\<lambda>(mailbox_id, _). mailbox_id = INBOX_ID) (cm_mailboxes message))) items"

definition mailbox_push :: "mailbox \<Rightarrow> u32 \<times> u32 \<times> u32 \<Rightarrow> mailbox" where
  "mailbox_push mb = (\<lambda>(uid, id, size).
     mb\<lparr>mb_messages := mb_messages mb @ [\<lparr>m_id = id, m_uid = uid, m_size = size, m_deleted = False\<rparr>],
        mb_total := mb_total mb + 1,
        mb_size := mb_size mb + size\<rparr>)"

definition fetch_mailbox :: "u32 \<Rightarrow> message_cache \<Rightarrow> mailbox" where
  "fetch_mailbox account_id cache =
     (if mc_items cache = [] then mailbox_default
      else
        (let uid_validity = (case mc_inbox_uid_validity cache of Some v \<Rightarrow> v | None \<Rightarrow> 0);
             message_map = fold btree_insert (inbox_entries (mc_items cache)) []
         in foldl mailbox_push
              (mailbox_default\<lparr>mb_uid_validity := uid_validity, mb_account_id := account_id\<rparr>)
              message_map))"

section \<open>The server and the connection\<close>

datatype permission =
    Pop3Authenticate | Pop3List | Pop3Uidl | Pop3Stat | Pop3Retr | Pop3Dele

datatype limiter_result = Allowed | Forbidden | Disabled

record metadata =
  md_raw_headers :: string
  md_blob_hash :: string
  md_blob_body_offset :: nat

record ('w, 't) server =
  sv_allow_plain_auth :: bool
  sv_max_auth_failures :: u32
  sv_rate_requests :: bool
  sv_acceptor_is_tls :: bool
  sv_scanner_banned :: "'w \<Rightarrow> (failure + bool) \<times> 'w"
  sv_authenticate :: "credentials \<Rightarrow> 'w \<Rightarrow> (failure + 't) \<times> 'w"
  sv_has_permission :: "'t \<Rightarrow> permission \<Rightarrow> bool"
  sv_account_id :: "'t \<Rightarrow> u32"
  sv_request_allowed :: "'t \<Rightarrow> 'w \<Rightarrow> limiter_result \<times> 'w"
  sv_rate_allowed :: "u32 \<Rightarrow> 'w \<Rightarrow> (failure + bool) \<times> 'w"
  sv_cached_messages :: "u32 \<Rightarrow> 'w \<Rightarrow> (failure + message_cache) \<times> 'w"
  sv_metadata :: "u32 \<Rightarrow> u32 \<Rightarrow> 'w \<Rightarrow> (failure + metadata option) \<times> 'w"
  sv_blob :: "string \<Rightarrow> 'w \<Rightarrow> (failure + string option) \<times> 'w"
  sv_emails_delete :: "u32 \<Rightarrow> u32 set \<Rightarrow> 'w \<Rightarrow> (failure + bool \<times> bool) \<times> 'w"
  sv_commit_batch :: "'w \<Rightarrow> (failure + unit) \<times> 'w"
  sv_write :: "string \<Rightarrow> 'w \<Rightarrow> (failure + unit) \<times> 'w"
  sv_base64_decode :: "string \<Rightarrow> string option"
  sv_jwt_email :: "string \<Rightarrow> string option"

datatype 't session_state =
    NotAuthenticated u32 "string option"
  | Authenticated mailbox bool 't

record ('w, 't) conn =
  c_world :: 'w
  c_receiver :: parser_state
  c_state :: "'t session_state"
  c_tls :: bool
  c_sent :: string
  c_deletions :: "(u32 \<times> u32 set) list"

datatype session_result = Continue | Close | UpgradeTls | Panicked

type_synonym ('w, 't) handler = "('w, 't) conn \<Rightarrow> (failure + unit) \<times> ('w, 't) conn"

text \<open>\<open>?\<close>: an error ends the handler.\<close>

definition bindh ::
  "('c \<Rightarrow> (failure + 'a) \<times> 'c) \<Rightarrow> ('a \<Rightarrow> 'c \<Rightarrow> (failure + 'b) \<times> 'c) \<Rightarrow> 'c \<Rightarrow> (failure + 'b) \<times> 'c" where
  "bindh m k c = (case m c of (Inl e, c') \<Rightarrow> (Inl e, c') | (Inr x, c') \<Rightarrow> k x c')"

definition call :: "('w \<Rightarrow> 'a \<times> 'w) \<Rightarrow> ('w, 't) conn \<Rightarrow> 'a \<times> ('w, 't) conn" where
  "call f c = (case f (c_world c) of (x, w) \<Rightarrow> (x, c\<lparr>c_world := w\<rparr>))"

definition write_bytes :: "('w, 't) server \<Rightarrow> string \<Rightarrow> ('w, 't) handler" where
  "write_bytes srv bytes c =
     (case call (sv_write srv bytes) c of
        (Inr u, c') \<Rightarrow> (Inr u, c'\<lparr>c_sent := c_sent c' @ bytes\<rparr>)
      | (Inl e, c') \<Rightarrow> (Inl e, c'))"

definition write_ok :: "('w, 't) server \<Rightarrow> string \<Rightarrow> ('w, 't) handler" where
  "write_ok srv message = write_bytes srv (response_serialize (Okay message))"

definition write_err :: "('w, 't) server \<Rightarrow> failure \<Rightarrow> ('w, 't) conn \<Rightarrow> bool \<times> ('w, 't) conn" where
  "write_err srv err c =
     (if should_write_err err then
        (case write_bytes srv (error_serialize err) c of
           (Inl _, c') \<Rightarrow> (False, c')
         | (Inr _, c') \<Rightarrow> (\<not> must_disconnect err, c'))
      else (\<not> must_disconnect err, c))"

text \<open>The details of an authorisation error are never sent.\<close>

definition enforce_permission :: "('w, 't) server \<Rightarrow> 't \<Rightarrow> permission \<Rightarrow> ('w, 't) handler" where
  "enforce_permission srv token p c =
     (if sv_has_permission srv token p then (Inr (), c)
      else (Inl \<lparr>f_kind = SecurityEvent, f_text = []\<rparr>, c))"

definition unreachable :: "('w, 't) conn \<Rightarrow> (failure + 'a) \<times> ('w, 't) conn" where
  "unreachable c = (Inl \<lparr>f_kind = Unreachable, f_text = []\<rparr>, c)"

abbreviation show_u32 :: "u32 \<Rightarrow> string" where
  "show_u32 n \<equiv> nat_to_string (unat n)"

section \<open>Commands\<close>

text \<open>\<open>messages.get(msg.saturating_sub(1) as usize)\<close>\<close>

definition message_index :: "u32 \<Rightarrow> nat" where
  "message_index msg = (if msg = 0 then 0 else unat (msg - 1))"

definition get_message :: "mailbox \<Rightarrow> u32 \<Rightarrow> pop3_message option" where
  "get_message mb msg =
     (if message_index msg < length (mb_messages mb) then Some (mb_messages mb ! message_index msg) else None)"

fun dele_loop :: "u32 list \<Rightarrow> pop3_message list \<Rightarrow> string \<Rightarrow> string \<times> pop3_message list" where
  "dele_loop [] messages response = (response, messages)"
| "dele_loop (msg # msgs) messages response =
     (let i = message_index msg
      in if i < length messages then
           (if \<not> m_deleted (messages ! i) then
              dele_loop msgs (messages[i := (messages ! i)\<lparr>m_deleted := True\<rparr>])
                (response @ ''+OK message '' @ show_u32 msg @ '' deleted'' @ crlf)
            else dele_loop msgs messages
                (response @ ''-ERR message '' @ show_u32 msg @ '' already deleted'' @ crlf))
         else dele_loop msgs messages (response @ ''-ERR no such message'' @ crlf))"

definition handle_dele :: "('w, 't) server \<Rightarrow> u32 list \<Rightarrow> ('w, 't) handler" where
  "handle_dele srv msgs c =
     (case c_state c of
        NotAuthenticated _ _ \<Rightarrow> unreachable c
      | Authenticated mb fl token \<Rightarrow>
          bindh (enforce_permission srv token Pop3Dele)
            (\<lambda>_ c. case dele_loop msgs (mb_messages mb) [] of
               (response, messages) \<Rightarrow>
                 write_bytes srv response
                   (c\<lparr>c_state := Authenticated (mb\<lparr>mb_messages := messages\<rparr>) fl token\<rparr>)) c)"

definition handle_rset :: "('w, 't) server \<Rightarrow> ('w, 't) handler" where
  "handle_rset srv c =
     (case c_state c of
        NotAuthenticated _ _ \<Rightarrow> unreachable c
      | Authenticated mb fl token \<Rightarrow>
          (let count = length (filter m_deleted (mb_messages mb));
               messages = map (\<lambda>m. if m_deleted m then m\<lparr>m_deleted := False\<rparr> else m) (mb_messages mb)
           in write_ok srv (nat_to_string count @ '' messages undeleted'')
                (c\<lparr>c_state := Authenticated (mb\<lparr>mb_messages := messages\<rparr>) fl token\<rparr>)))"

definition deleted_ids :: "mailbox \<Rightarrow> u32 set" where
  "deleted_ids mb = m_id ` set (filter m_deleted (mb_messages mb))"

definition handle_quit :: "('w, 't) server \<Rightarrow> ('w, 't) handler" where
  "handle_quit srv c =
     (case c_state c of
        Authenticated mb fl token \<Rightarrow>
          (let deleted = deleted_ids mb
           in if deleted \<noteq> {} then
                bindh (call (sv_emails_delete srv (mb_account_id mb) deleted))
                  (\<lambda>(has_changes, all_deleted).
                     bindh (if has_changes then call (sv_commit_batch srv) else (\<lambda>c. (Inr (), c)))
                       (\<lambda>_. if all_deleted
                            then write_ok srv (''Stalwart POP3 bids you farewell (''
                                   @ nat_to_string (card deleted) @ '' messages deleted).'')
                            else write_bytes srv
                                   (response_serialize (Erring ''Some messages could not be deleted''))))
                  (c\<lparr>c_deletions := c_deletions c @ [(mb_account_id mb, deleted)]\<rparr>)
              else write_ok srv ''Stalwart POP3 bids you farewell (no messages deleted).'' c)
      | NotAuthenticated _ _ \<Rightarrow> write_ok srv ''Stalwart POP3 bids you farewell.'' c)"

definition handle_list :: "('w, 't) server \<Rightarrow> u32 option \<Rightarrow> ('w, 't) handler" where
  "handle_list srv msg c =
     (case c_state c of
        NotAuthenticated _ _ \<Rightarrow> unreachable c
      | Authenticated mb fl token \<Rightarrow>
          bindh (enforce_permission srv token Pop3List)
            (\<lambda>_. case msg of
               Some n \<Rightarrow>
                 (case get_message mb n of
                    Some m \<Rightarrow> write_ok srv (show_u32 n @ [SP] @ show_u32 (m_size m))
                  | None \<Rightarrow> (\<lambda>c. (Inl (pop3_error ''No such message.''), c)))
             | None \<Rightarrow>
                 write_bytes srv (response_serialize (Entries (map (show_u32 \<circ> m_size) (mb_messages mb))))) c)"

definition handle_uidl :: "('w, 't) server \<Rightarrow> u32 option \<Rightarrow> ('w, 't) handler" where
  "handle_uidl srv msg c =
     (case c_state c of
        NotAuthenticated _ _ \<Rightarrow> unreachable c
      | Authenticated mb fl token \<Rightarrow>
          bindh (enforce_permission srv token Pop3Uidl)
            (\<lambda>_. case msg of
               Some n \<Rightarrow>
                 (case get_message mb n of
                    Some m \<Rightarrow> write_ok srv (show_u32 n @ [SP] @ show_u32 (mb_uid_validity mb) @ show_u32 (m_uid m))
                  | None \<Rightarrow> (\<lambda>c. (Inl (pop3_error ''No such message.''), c)))
             | None \<Rightarrow>
                 write_bytes srv (response_serialize
                   (Entries (map (\<lambda>m. show_u32 (mb_uid_validity mb) @ show_u32 (m_uid m)) (mb_messages mb))))) c)"

definition handle_stat :: "('w, 't) server \<Rightarrow> ('w, 't) handler" where
  "handle_stat srv c =
     (case c_state c of
        NotAuthenticated _ _ \<Rightarrow> unreachable c
      | Authenticated mb fl token \<Rightarrow>
          bindh (enforce_permission srv token Pop3Stat)
            (\<lambda>_. write_ok srv (show_u32 (mb_total mb) @ [SP] @ show_u32 (mb_size mb))) c)"

definition fetch_error :: failure where
  "fetch_error = pop3_error ''Failed to fetch message. Perhaps another session deleted it?''"

definition handle_fetch :: "('w, 't) server \<Rightarrow> u32 \<Rightarrow> u32 option \<Rightarrow> ('w, 't) handler" where
  "handle_fetch srv msg lines c =
     (case c_state c of
        NotAuthenticated _ _ \<Rightarrow> unreachable c
      | Authenticated mb fl token \<Rightarrow>
          bindh (enforce_permission srv token Pop3Retr)
            (\<lambda>_. case get_message mb msg of
               None \<Rightarrow> (\<lambda>c. (Inl (pop3_error ''No such message.''), c))
             | Some message \<Rightarrow>
                 bindh (call (sv_metadata srv (mb_account_id mb) (m_id message)))
                   (\<lambda>md. case md of
                      None \<Rightarrow> (\<lambda>c. (Inl fetch_error, c))
                    | Some md \<Rightarrow>
                        bindh (call (sv_blob srv (md_blob_hash md)))
                          (\<lambda>blob. case blob of
                             None \<Rightarrow> (\<lambda>c. (Inl fetch_error, c))
                           | Some bytes \<Rightarrow>
                               (let body = (case slice_from bytes (md_blob_body_offset md) of
                                              Some b \<Rightarrow> b | None \<Rightarrow> []);
                                    full = chained_full_range (chained_with_last (chained_new (md_raw_headers md)) body)
                                in write_bytes srv (response_serialize
                                     (Message full (case lines of Some n \<Rightarrow> n | None \<Rightarrow> 0))))))) c)"

definition handle_capa :: "('w, 't) server \<Rightarrow> ('w, 't) handler" where
  "handle_capa srv c =
     (let mechanisms = (if c_tls c \<or> sv_allow_plain_auth srv then [Plain, OAuthBearer, XOauth2]
                        else [OAuthBearer, XOauth2])
      in write_bytes srv (response_serialize (Capability mechanisms (\<not> c_tls c))) c)"

definition handle_stls :: "('w, 't) server \<Rightarrow> ('w, 't) handler" where
  "handle_stls srv = write_ok srv ''Begin TLS negotiation now''"

definition handle_utf8 :: "('w, 't) server \<Rightarrow> ('w, 't) handler" where
  "handle_utf8 srv = write_ok srv ''UTF8 enabled''"

section \<open>Authentication\<close>

text \<open>The error mapping of a failed \<open>authenticate\<close>.\<close>

definition auth_failed :: "('w, 't) server \<Rightarrow> failure \<Rightarrow> ('w, 't) conn \<Rightarrow> failure \<times> ('w, 't) conn" where
  "auth_failed srv err c =
     (if f_kind err = AuthFailed then
        (case c_state c of
           NotAuthenticated auth_failures username \<Rightarrow>
             if auth_failures < sv_max_auth_failures srv
             then (err, c\<lparr>c_state := NotAuthenticated (auth_failures + 1) username\<rparr>)
             else (\<lparr>f_kind = TooManyAttempts, f_text = ''Too many authentication attempts''\<rparr>, c)
         | Authenticated _ _ _ \<Rightarrow> (\<lparr>f_kind = TooManyAttempts, f_text = ''Too many authentication attempts''\<rparr>, c))
      else (err, c))"

definition authenticate :: "('w, 't) server \<Rightarrow> credentials \<Rightarrow> ('w, 't) conn \<Rightarrow> (failure + 't) \<times> ('w, 't) conn" where
  "authenticate srv credentials c =
     (case call (sv_authenticate srv credentials) c of
        (Inl err, c) \<Rightarrow> (case auth_failed srv err c of (e, c) \<Rightarrow> (Inl e, c))
      | (Inr token, c) \<Rightarrow> (Inr token, c))"

definition handle_auth :: "('w, 't) server \<Rightarrow> credentials \<Rightarrow> ('w, 't) handler" where
  "handle_auth srv credentials =
     bindh (authenticate srv credentials) (\<lambda>token.
     bindh (enforce_permission srv token Pop3Authenticate) (\<lambda>_ c.
       case call (sv_request_allowed srv token) c of
         (Forbidden, c) \<Rightarrow>
           (Inl \<lparr>f_kind = ConcurrentRequest, f_text = ''Too many concurrent requests''\<rparr>, c)
       | (allowed, c) \<Rightarrow>
           bindh (call (sv_cached_messages srv (sv_account_id srv token)))
             (\<lambda>cache c. write_ok srv ''Authentication successful''
                (c\<lparr>c_state := Authenticated (fetch_mailbox (sv_account_id srv token) cache) (allowed = Allowed) token\<rparr>)) c))"

text \<open>
  \<open>handle_sasl\<close>. Without an initial response the parser is put back in the middle of an
  \<open>AUTH\<close> command, so that the next line is its argument.
\<close>

definition handle_sasl :: "('w, 't) server \<Rightarrow> mechanism \<Rightarrow> string list \<Rightarrow> ('w, 't) handler" where
  "handle_sasl srv mechanism params c =
     (if mechanism = Plain \<or> mechanism = OAuthBearer \<or> mechanism = XOauth2 then
        (if params \<noteq> [] then
           (case Option.bind (sv_base64_decode srv (last params))
                   (\<lambda>challenge. if mechanism = Plain then decode_plain challenge
                                else decode_oauth (sv_jwt_email srv) challenge) of
              None \<Rightarrow> (Inl \<lparr>f_kind = OtherEvent, f_text = ''Invalid SASL challenge''\<rparr>, c)
            | Some credentials \<Rightarrow> handle_auth srv credentials c)
         else write_bytes srv (''+'' @ crlf)
                (c\<lparr>c_receiver := Argument (Auth (mechanism_as_str mechanism) []) 1 True\<rparr>))
      else (Inl \<lparr>f_kind = OtherEvent, f_text = ''Authentication mechanism not supported.''\<rparr>, c))"

section \<open>Dispatch\<close>

definition reject :: "string \<Rightarrow> ('w, 't) conn \<Rightarrow> (failure + pop3_command) \<times> ('w, 't) conn" where
  "reject details c = (Inl (pop3_error details), c)"

definition too_many_requests :: failure where
  "too_many_requests = \<lparr>f_kind = TooManyRequests, f_text = ''Too many requests''\<rparr>"

definition validate_mailbox :: "('w, 't) server \<Rightarrow> pop3_command \<Rightarrow> ('w, 't) conn \<Rightarrow> (failure + pop3_command) \<times> ('w, 't) conn" where
  "validate_mailbox srv command c =
     (case c_state c of
        Authenticated mb _ _ \<Rightarrow>
          (if sv_rate_requests srv then
             bindh (call (sv_rate_allowed srv (mb_account_id mb)))
               (\<lambda>is_allowed c. if is_allowed then (Inr command, c) else (Inl too_many_requests, c)) c
           else (Inr command, c))
      | NotAuthenticated _ _ \<Rightarrow> reject ''Not authenticated.'' c)"

definition is_pass :: "pop3_command \<Rightarrow> bool" where
  "is_pass command \<longleftrightarrow> (case command of Pass _ \<Rightarrow> True | _ \<Rightarrow> False)"

definition validate_plain :: "('w, 't) server \<Rightarrow> pop3_command \<Rightarrow> ('w, 't) conn \<Rightarrow> (failure + pop3_command) \<times> ('w, 't) conn" where
  "validate_plain srv command c =
     (case c_state c of
        NotAuthenticated _ username \<Rightarrow>
          (if c_tls c \<or> sv_allow_plain_auth srv then
             (if \<not> is_pass command \<or> username \<noteq> None then (Inr command, c)
              else reject ''Username was not provided.'' c)
           else reject ''Cannot authenticate over plain-text.'' c)
      | Authenticated _ _ _ \<Rightarrow> reject ''Already authenticated.'' c)"

definition validate_sasl :: "pop3_command \<Rightarrow> ('w, 't) conn \<Rightarrow> (failure + pop3_command) \<times> ('w, 't) conn" where
  "validate_sasl command c =
     (case c_state c of
        NotAuthenticated _ _ \<Rightarrow> (Inr command, c)
      | Authenticated _ _ _ \<Rightarrow> reject ''Already authenticated.'' c)"

fun validate_request ::
  "('w, 't) server \<Rightarrow> pop3_command \<Rightarrow> ('w, 't) conn \<Rightarrow> (failure + pop3_command) \<times> ('w, 't) conn" where
  "validate_request srv Capa c = (Inr Capa, c)"
| "validate_request srv Quit c = (Inr Quit, c)"
| "validate_request srv Noop c = (Inr Noop, c)"
| "validate_request srv (Auth mech params) c =
     (if mech = Plain then validate_plain srv (Auth mech params) c else validate_sasl (Auth mech params) c)"
| "validate_request srv (User name) c = validate_plain srv (User name) c"
| "validate_request srv (Pass str) c = validate_plain srv (Pass str) c"
| "validate_request srv (Apop name digest) c = validate_plain srv (Apop name digest) c"
| "validate_request srv Stls c =
     (if \<not> c_tls c then (Inr Stls, c) else reject ''Already in TLS mode.'' c)"
| "validate_request srv command c = validate_mailbox srv command c"

text \<open>The dispatch of a validated command, and how the session goes on after it.\<close>

definition go_on :: "session_result \<Rightarrow> (failure + unit) \<times> 'c \<Rightarrow> (failure + session_result) \<times> 'c" where
  "go_on r = (\<lambda>(x, c). (case x of Inl e \<Rightarrow> Inl e | Inr _ \<Rightarrow> Inr r, c))"

fun run_command ::
  "('w, 't) server \<Rightarrow> pop3_command \<Rightarrow> ('w, 't) conn \<Rightarrow> (failure + session_result) \<times> ('w, 't) conn" where
  "run_command srv (User name) c =
     (case c_state c of
        NotAuthenticated auth_failures _ \<Rightarrow>
          go_on Continue (write_ok srv (name @ '' is a valid mailbox'')
            (c\<lparr>c_state := NotAuthenticated auth_failures (Some name)\<rparr>))
      | Authenticated _ _ _ \<Rightarrow> unreachable c)"
| "run_command srv (Pass str) c =
     (case c_state c of
        NotAuthenticated auth_failures (Some username) \<Rightarrow>
          go_on Continue (handle_auth srv (Basic username str None)
            (c\<lparr>c_state := NotAuthenticated auth_failures None\<rparr>))
      | _ \<Rightarrow> unreachable c)"
| "run_command srv Quit c = go_on Close (handle_quit srv c)"
| "run_command srv Stat c = go_on Continue (handle_stat srv c)"
| "run_command srv (Listing msg) c = go_on Continue (handle_list srv msg c)"
| "run_command srv (Retr msg) c = go_on Continue (handle_fetch srv msg None c)"
| "run_command srv (Dele msg) c = go_on Continue (handle_dele srv [msg] c)"
| "run_command srv (DeleMany msgs) c = go_on Continue (handle_dele srv msgs c)"
| "run_command srv (Top msg n) c = go_on Continue (handle_fetch srv msg (Some n) c)"
| "run_command srv (Uidl msg) c = go_on Continue (handle_uidl srv msg c)"
| "run_command srv Noop c = go_on Continue (write_ok srv ''NOOP'' c)"
| "run_command srv Rset c = go_on Continue (handle_rset srv c)"
| "run_command srv Capa c = go_on Continue (handle_capa srv c)"
| "run_command srv Stls c = go_on UpgradeTls (handle_stls srv c)"
| "run_command srv Utf8 c = go_on Continue (handle_utf8 srv c)"
| "run_command srv (Auth mechanism params) c = go_on Continue (handle_sasl srv mechanism params c)"
| "run_command srv (Apop name digest) c = (Inl (pop3_error ''APOP not supported.''), c)"

type_synonym request = "failure + pop3_command"

definition run_request ::
  "('w, 't) server \<Rightarrow> request \<Rightarrow> ('w, 't) conn \<Rightarrow> (failure + session_result) \<times> ('w, 't) conn" where
  "run_request srv request c =
     (case request of
        Inl err \<Rightarrow> (Inl err, c)
      | Inr command \<Rightarrow> bindh (validate_request srv command) (run_command srv) c)"

fun run_requests ::
  "('w, 't) server \<Rightarrow> request list \<Rightarrow> ('w, 't) conn \<Rightarrow> session_result \<times> ('w, 't) conn" where
  "run_requests srv [] c = (Continue, c)"
| "run_requests srv (request # requests) c =
     (case run_request srv request c of
        (Inr Continue, c') \<Rightarrow> run_requests srv requests c'
      | (Inr result, c') \<Rightarrow> (result, c')
      | (Inl err, c') \<Rightarrow>
          if f_kind err = Unreachable then (Panicked, c')
          else (case write_err srv err c' of
                  (True, c'') \<Rightarrow> run_requests srv requests c''
                | (False, c'') \<Rightarrow> (Close, c'')))"

section \<open>One network read\<close>

text \<open>Deletions that follow each other become one request.\<close>

definition push_request :: "request list \<Rightarrow> pop3_command \<Rightarrow> request list" where
  "push_request requests request =
     (case (request, requests) of
        (Dele msg, _ # _) \<Rightarrow>
          (case last requests of
             Inr (DeleMany msgs) \<Rightarrow> butlast requests @ [Inr (DeleMany (msgs @ [msg]))]
           | Inr (Dele other_msg) \<Rightarrow> butlast requests @ [Inr (DeleMany [other_msg, msg])]
           | _ \<Rightarrow> requests @ [Inr request])
      | _ \<Rightarrow> requests @ [Inr request])"

text \<open>
  The reason of a parse error as text.
\<close>

fun reason_text :: "reason \<Rightarrow> string" where
  "reason_text (Reason text) = text"
| "reason_text (UnsupportedMechanism value) = ''Unsupported mechanism '' @ [CHR 0x27] @ utf8_lossy value @ [CHR 0x27] @ ''.''"

text \<open>
  Port scanners: before authentication a malformed command counts against the address; a
  failed check is logged and ignored.
\<close>

definition scanner_check :: "('w, 't) server \<Rightarrow> ('w, 't) conn \<Rightarrow> bool \<times> ('w, 't) conn" where
  "scanner_check srv c =
     (case c_state c of
        NotAuthenticated _ _ \<Rightarrow>
          (case call (sv_scanner_banned srv) c of
             (Inr banned, c') \<Rightarrow> (banned, c')
           | (Inl _, c') \<Rightarrow> (False, c'))
      | Authenticated _ _ _ \<Rightarrow> (False, c))"

function collect_requests ::
  "('w, 't) server \<Rightarrow> string \<Rightarrow> request list \<Rightarrow> ('w, 't) conn \<Rightarrow> request list option \<times> ('w, 't) conn" where
  "collect_requests srv bytes requests c =
     (case parser_parse (c_receiver c) bytes of
        (None, s, _) \<Rightarrow> (Some requests, c\<lparr>c_receiver := s\<rparr>)
      | (Some (Inr request), s, rest) \<Rightarrow>
          collect_requests srv rest (push_request requests request) (c\<lparr>c_receiver := s\<rparr>)
      | (Some (Inl reason), s, rest) \<Rightarrow>
          (case scanner_check srv (c\<lparr>c_receiver := s\<rparr>) of
             (True, c') \<Rightarrow> (None, c')
           | (False, c') \<Rightarrow>
               collect_requests srv rest (requests @ [Inl (pop3_error (reason_text reason))]) c'))"
  by pat_completeness auto
termination
  by (relation "measure (\<lambda>(_, bytes, _, _). length bytes)")
    (auto dest: pop3.parse_consumes [OF sym])

declare collect_requests.simps [simp del]

definition ingest :: "('w, 't) server \<Rightarrow> string \<Rightarrow> ('w, 't) conn \<Rightarrow> session_result \<times> ('w, 't) conn" where
  "ingest srv bytes c =
     (case collect_requests srv bytes [] c of
        (None, c') \<Rightarrow> (Close, c')
      | (Some requests, c') \<Rightarrow> run_requests srv requests c')"

section \<open>The connection\<close>

text \<open>What the connection loop waits for: data, the end of it, a failure, a timeout, a shutdown.\<close>

datatype event = Read string | Eof | ReadError | Timeout | Shutdown

definition write_ignored :: "('w, 't) server \<Rightarrow> string \<Rightarrow> ('w, 't) conn \<Rightarrow> ('w, 't) conn" where
  "write_ignored srv bytes c = snd (write_bytes srv bytes c)"

text \<open>
  \<open>handle_conn\<close>: whether to upgrade, the connection, and the events not consumed. A list
  that ends stands for a connection that is still waiting.
\<close>

fun handle_conn :: "('w, 't) server \<Rightarrow> event list \<Rightarrow> ('w, 't) conn \<Rightarrow> session_result \<times> ('w, 't) conn \<times> event list" where
  "handle_conn srv [] c = (Continue, c, [])"
| "handle_conn srv (Read bytes # events) c =
     (if bytes = [] then (Close, c, events)
      else (case ingest srv bytes c of
              (Continue, c') \<Rightarrow> handle_conn srv events c'
            | (result, c') \<Rightarrow> (result, c', events)))"
| "handle_conn srv (Eof # events) c = (Close, c, events)"
| "handle_conn srv (ReadError # events) c = (Close, c, events)"
| "handle_conn srv (Timeout # events) c =
     (Close, write_ignored srv (''-ERR Connection timed out.'' @ crlf) c, events)"
| "handle_conn srv (Shutdown # events) c =
     (Close, write_ignored srv (''* BYE Server shutting down.'' @ crlf) c, events)"

text \<open>\<open>into_tls\<close> keeps the parser and the state of the session.\<close>

definition into_tls :: "('w, 't) conn \<Rightarrow> ('w, 't) conn" where
  "into_tls c = c\<lparr>c_tls := True\<rparr>"

definition conn_new :: "'w \<Rightarrow> bool \<Rightarrow> ('w, 't) conn" where
  "conn_new w tls =
     \<lparr>c_world = w, c_receiver = Init, c_state = NotAuthenticated 0 None, c_tls = tls,
      c_sent = [], c_deletions = []\<rparr>"

definition SERVER_GREETING :: string where
  "SERVER_GREETING = ''+OK Stalwart POP3 at your service.'' @ crlf"

text \<open>\<open>handle\<close>; \<open>handshake\<close> says whether the TLS handshake succeeds.\<close>

definition handle :: "('w, 't) server \<Rightarrow> bool \<Rightarrow> event list \<Rightarrow> ('w, 't) conn \<Rightarrow> ('w, 't) conn" where
  "handle srv handshake events c =
     (case write_bytes srv SERVER_GREETING c of
        (Inl _, c) \<Rightarrow> c
      | (Inr _, c) \<Rightarrow>
          (case handle_conn srv events c of
             (UpgradeTls, c, events) \<Rightarrow>
               (if sv_acceptor_is_tls srv \<and> handshake then
                  (case handle_conn srv events (into_tls c) of (_, c, _) \<Rightarrow> c)
                else c)
           | (_, c, _) \<Rightarrow> c))"

end
