(* ===== verification/Pop3_Correct.thy ===== *)
theory Pop3_Correct
  imports Pop3_Session
begin

text \<open>
  What POP3 sessions guarantee: the deletion marks follow the protocol, messages are deleted
  only by a \<open>QUIT\<close> of an authenticated session, validated commands never hit a panic,
  grouped deletions behave as single ones, and what a plaintext client can leave behind for
  the encrypted part of its session.
\<close>

section \<open>What the steps of a session keep\<close>

named_theorems session_defs \<open>definitions of the handlers\<close>

lemmas [session_defs] =
  handle_dele_def handle_rset_def handle_quit_def handle_list_def handle_uidl_def handle_stat_def
  handle_fetch_def handle_capa_def handle_stls_def handle_utf8_def handle_auth_def handle_sasl_def
  write_ok_def enforce_permission_def authenticate_def auth_failed_def

text \<open>
  A relation between connections that writing and calling the server respect: the commands
  only have to be looked at where they change the state themselves.
\<close>

definition frame :: "('w, 't) conn \<Rightarrow> ('w, 't) conn \<Rightarrow> bool" where
  "frame c c' \<longleftrightarrow> c_state c' = c_state c \<and> c_tls c' = c_tls c \<and> c_deletions c' = c_deletions c"

lemma frame_refl [simp]: "frame c c"
  by (simp add: frame_def)

lemma frame_trans: "frame a b \<Longrightarrow> frame b c \<Longrightarrow> frame a c"
  by (simp add: frame_def)

lemma frame_call: "frame c (snd (call f c))"
  by (simp add: call_def frame_def split: prod.split)

lemma frame_write: "frame c (snd (write_bytes srv bytes c))"
  by (simp add: write_bytes_def call_def frame_def split: prod.split sum.split)

lemma frame_write_ok: "frame c (snd (write_ok srv m c))"
  by (simp add: write_ok_def frame_write)

lemma frame_write_err: "frame c (snd (write_err srv e c))"
  using frame_write [of c srv "error_serialize e"]
  by (auto simp: write_err_def split: prod.splits sum.splits)

lemma frame_enforce: "frame c (snd (enforce_permission srv t p c))"
  by (simp add: enforce_permission_def)

lemma frame_bindh:
  "frame c (snd (m c)) \<Longrightarrow> (\<And>x d. frame d (snd (k x d))) \<Longrightarrow> frame c (snd (bindh m k c))"
  by (auto simp: bindh_def split: prod.split sum.split intro: frame_trans)

lemma frame_error [simp]: "frame c (snd (Inl e, c))"
  by simp

lemmas frame_intros = frame_bindh frame_call frame_write frame_write_ok frame_enforce frame_write_err

lemma frame_unreachable [simp]: "frame c (snd (unreachable c))"
  by (simp add: unreachable_def)

lemma frame_stat: "frame c (snd (handle_stat srv c))"
  by (auto simp: handle_stat_def split: session_state.split intro!: frame_intros)

lemma frame_list: "frame c (snd (handle_list srv msg c))"
  by (auto simp: handle_list_def split: session_state.split option.split intro!: frame_intros)

lemma frame_uidl: "frame c (snd (handle_uidl srv msg c))"
  by (auto simp: handle_uidl_def split: session_state.split option.split intro!: frame_intros)

lemma frame_fetch: "frame c (snd (handle_fetch srv msg n c))"
  by (auto simp: handle_fetch_def Let_def split: session_state.split option.split intro!: frame_intros)

lemma frame_plain_handlers:
  "frame c (snd (handle_capa srv c))" "frame c (snd (handle_stls srv c))" "frame c (snd (handle_utf8 srv c))"
  by (simp_all add: handle_capa_def handle_stls_def handle_utf8_def Let_def frame_write frame_write_ok)

lemma go_on_snd [simp]: "snd (go_on r p) = snd p"
  by (cases p) (simp add: go_on_def)

lemma frame_reject [simp]: "frame c (snd (reject d c))"
  by (simp add: reject_def)

lemma frame_validate: "frame c (snd (validate_request srv cmd c))"
proof -
  have "frame c (snd (validate_mailbox srv cmd' c))" for cmd'
    by (auto simp: validate_mailbox_def split: session_state.split intro!: frame_intros)
  moreover have "frame c (snd (validate_plain srv cmd' c))" for cmd'
    by (simp add: validate_plain_def split: session_state.split)
  moreover have "frame c (snd (validate_sasl cmd' c))" for cmd'
    by (simp add: validate_sasl_def split: session_state.split)
  ultimately show ?thesis by (cases cmd) simp_all
qed

lemma validate_command: "validate_request srv cmd c = (Inr cmd', c') \<Longrightarrow> cmd' = cmd"
proof -
  have "\<And>cmd. validate_mailbox srv cmd c = (Inr cmd', c') \<Longrightarrow> cmd' = cmd"
    by (auto simp: validate_mailbox_def bindh_def reject_def
        split: session_state.splits prod.splits sum.splits if_splits)
  moreover have "\<And>cmd. validate_plain srv cmd c = (Inr cmd', c') \<Longrightarrow> cmd' = cmd"
    by (auto simp: validate_plain_def reject_def split: session_state.splits if_splits)
  moreover have "\<And>cmd. validate_sasl cmd c = (Inr cmd', c') \<Longrightarrow> cmd' = cmd"
    by (auto simp: validate_sasl_def reject_def split: session_state.splits)
  ultimately show "validate_request srv cmd c = (Inr cmd', c') \<Longrightarrow> cmd' = cmd"
    by (cases cmd) (auto simp: reject_def split: if_splits)
qed

section \<open>Deletion marks\<close>

text \<open>
  The abstract mailbox of RFC 1939: how many messages it has, and the set of the indices
  that are marked as deleted.
\<close>

definition marks :: "pop3_message list \<Rightarrow> nat set" where
  "marks messages = {i. i < length messages \<and> m_deleted (messages ! i)}"

text \<open>
  Message numbers start at 1: number \<open>k + 1\<close> names index \<open>k\<close>. Number 0, which the
  protocol does not know, is taken for the first message.
\<close>

definition names :: "u32 \<Rightarrow> nat \<Rightarrow> bool" where
  "names msg k \<longleftrightarrow> unat msg = k + 1 \<or> msg = 0 \<and> k = 0"

definition mark :: "nat \<Rightarrow> nat set \<Rightarrow> u32 \<Rightarrow> nat set" where
  "mark n D msg = D \<union> {k. k < n \<and> names msg k}"

lemma names_index: "names msg k \<longleftrightarrow> k = message_index msg"
proof (cases "msg = 0")
  case False
  then have "unat (msg - 1) = unat msg - 1" "0 < unat msg" by (simp_all add: unat_minus_one unat_gt_0)
  with False show ?thesis by (auto simp: names_def message_index_def)
qed (auto simp: names_def message_index_def)

lemma mark_index: "mark n D msg = (if message_index msg < n then insert (message_index msg) D else D)"
  by (auto simp: mark_def names_index)

definition same_messages :: "pop3_message list \<Rightarrow> pop3_message list \<Rightarrow> bool" where
  "same_messages ms ms' \<longleftrightarrow>
     map (\<lambda>m. (m_id m, m_uid m, m_size m)) ms = map (\<lambda>m. (m_id m, m_uid m, m_size m)) ms'"

lemma same_messages_length: "same_messages ms ms' \<Longrightarrow> length ms = length ms'"
  unfolding same_messages_def by (rule map_eq_imp_length_eq)

lemma dele_loop_marks:
  "dele_loop msgs ms r = (r', ms') \<Longrightarrow>
     marks ms' = foldl (mark (length ms)) (marks ms) msgs \<and> same_messages ms ms'"
proof (induction msgs arbitrary: ms r)
  case Nil
  then show ?case by (simp add: same_messages_def)
next
  case (Cons msg msgs)
  let ?i = "message_index msg"
  let ?ms = "ms[?i := (ms ! ?i)\<lparr>m_deleted := True\<rparr>]"
  show ?case
  proof (cases "?i < length ms \<and> \<not> m_deleted (ms ! ?i)")
    case True
    then have "marks ?ms = mark (length ms) (marks ms) msg"
      by (auto simp: marks_def mark_index nth_list_update)
    moreover have "same_messages ms ?ms"
      using True unfolding same_messages_def
      by (intro nth_equalityI) (simp_all add: nth_list_update)
    moreover obtain r1 where "dele_loop msgs ?ms r1 = (r', ms')"
      using Cons.prems True by (auto simp: Let_def)
    ultimately show ?thesis using Cons.IH [of ?ms r1] by (simp add: same_messages_def)
  next
    case False
    then have "mark (length ms) (marks ms) msg = marks ms" by (auto simp: marks_def mark_index)
    moreover obtain r1 where "dele_loop msgs ms r1 = (r', ms')"
      using Cons.prems False by (auto simp: Let_def split: if_splits)
    ultimately show ?thesis using Cons.IH [of ms r1] by simp
  qed
qed

lemma marks_ids: "deleted_ids mb = (\<lambda>i. m_id (mb_messages mb ! i)) ` marks (mb_messages mb)"
  by (auto simp: deleted_ids_def marks_def in_set_conv_nth image_iff)

lemma marks_clear: "marks (map (\<lambda>m. if m_deleted m then m\<lparr>m_deleted := False\<rparr> else m) ms) = {}"
  by (auto simp: marks_def)

lemma same_clear: "same_messages ms (map (\<lambda>m. if m_deleted m then m\<lparr>m_deleted := False\<rparr> else m) ms)"
  by (simp add: same_messages_def)

text \<open>The abstract commands; \<open>permitted\<close> is the right to delete.\<close>

fun abs_step :: "bool \<Rightarrow> nat \<Rightarrow> pop3_command \<Rightarrow> nat set \<Rightarrow> nat set" where
  "abs_step permitted n (Dele msg) D = (if permitted then mark n D msg else D)"
| "abs_step permitted n (DeleMany msgs) D = (if permitted then foldl (mark n) D msgs else D)"
| "abs_step permitted n Rset D = {}"
| "abs_step permitted n _ D = D"

definition same_mailbox :: "mailbox \<Rightarrow> mailbox \<Rightarrow> bool" where
  "same_mailbox mb mb' \<longleftrightarrow> same_messages (mb_messages mb) (mb_messages mb')
     \<and> mb\<lparr>mb_messages := []\<rparr> = mb'\<lparr>mb_messages := []\<rparr>"

lemma same_mailbox_refl [simp]: "same_mailbox mb mb"
  by (simp add: same_mailbox_def same_messages_def)

definition executed :: "('w, 't) server \<Rightarrow> pop3_command \<Rightarrow> ('w, 't) conn \<Rightarrow> bool" where
  "executed srv cmd c \<longleftrightarrow> (case validate_request srv cmd c of (Inr _, _) \<Rightarrow> True | _ \<Rightarrow> False)"

lemma executed_authenticated:
  assumes "executed srv cmd c" and "c_state c = Authenticated mb fl t"
  shows "case cmd of User _ \<Rightarrow> False | Pass _ \<Rightarrow> False | Apop _ _ \<Rightarrow> False | Auth _ _ \<Rightarrow> False | _ \<Rightarrow> True"
  using assms by (cases cmd) (auto simp: executed_def validate_plain_def validate_sasl_def reject_def split: if_splits)

lemma handle_dele_state:
  assumes "c_state c = Authenticated mb fl t"
  shows "\<exists>mb'. c_state (snd (handle_dele srv msgs c)) = Authenticated mb' fl t \<and> same_mailbox mb mb'
    \<and> marks (mb_messages mb') = abs_step (sv_has_permission srv t Pop3Dele) (length (mb_messages mb)) (DeleMany msgs) (marks (mb_messages mb))
    \<and> c_deletions (snd (handle_dele srv msgs c)) = c_deletions c \<and> c_tls (snd (handle_dele srv msgs c)) = c_tls c"
proof (cases "sv_has_permission srv t Pop3Dele")
  case True
  obtain r ms where loop: "dele_loop msgs (mb_messages mb) [] = (r, ms)" by fastforce
  let ?c = "c\<lparr>c_state := Authenticated (mb\<lparr>mb_messages := ms\<rparr>) fl t\<rparr>"
  have "handle_dele srv msgs c = write_bytes srv r ?c"
    using assms True loop by (simp add: handle_dele_def bindh_def enforce_permission_def)
  moreover have "frame ?c (snd (write_bytes srv r ?c))" by (rule frame_write)
  ultimately show ?thesis using dele_loop_marks [OF loop] True
    by (auto simp: frame_def same_mailbox_def)
next
  case False
  then show ?thesis using assms by (simp add: handle_dele_def bindh_def enforce_permission_def)
qed

lemma handle_rset_state:
  assumes "c_state c = Authenticated mb fl t"
  shows "\<exists>mb'. c_state (snd (handle_rset srv c)) = Authenticated mb' fl t \<and> same_mailbox mb mb'
    \<and> marks (mb_messages mb') = {}
    \<and> c_deletions (snd (handle_rset srv c)) = c_deletions c \<and> c_tls (snd (handle_rset srv c)) = c_tls c"
proof -
  let ?ms = "map (\<lambda>m. if m_deleted m then m\<lparr>m_deleted := False\<rparr> else m) (mb_messages mb)"
  let ?c = "c\<lparr>c_state := Authenticated (mb\<lparr>mb_messages := ?ms\<rparr>) fl t\<rparr>"
  have "frame ?c (snd (write_ok srv m ?c))" for m by (rule frame_write_ok)
  then show ?thesis using assms marks_clear same_clear
    by (simp add: handle_rset_def Let_def frame_def same_mailbox_def)
qed

lemma handle_quit_state:
  "c_state (snd (handle_quit srv c)) = c_state c \<and> c_tls (snd (handle_quit srv c)) = c_tls c"
  "c_deletions (snd (handle_quit srv c)) = c_deletions c @
     (case c_state c of NotAuthenticated _ _ \<Rightarrow> []
      | Authenticated mb _ _ \<Rightarrow> if marks (mb_messages mb) = {} then []
          else [(mb_account_id mb, (\<lambda>i. m_id (mb_messages mb ! i)) ` marks (mb_messages mb))])"
proof -
  have quit: "frame (c\<lparr>c_deletions := ds\<rparr>) (snd (bindh (call f) (\<lambda>(has_changes, all_deleted).
       bindh (if has_changes then call (sv_commit_batch srv) else (\<lambda>c. (Inr (), c)))
         (\<lambda>_. if all_deleted then write_ok srv m1 else write_bytes srv m2)) (c\<lparr>c_deletions := ds\<rparr>)))" for f ds m1 m2
    by (auto intro!: frame_intros split: prod.split)
  show "c_state (snd (handle_quit srv c)) = c_state c \<and> c_tls (snd (handle_quit srv c)) = c_tls c"
    using quit frame_write_ok [of c srv]
    by (auto simp: handle_quit_def Let_def frame_def split: session_state.split)
  show "c_deletions (snd (handle_quit srv c)) = c_deletions c @
     (case c_state c of NotAuthenticated _ _ \<Rightarrow> []
      | Authenticated mb _ _ \<Rightarrow> if marks (mb_messages mb) = {} then []
          else [(mb_account_id mb, (\<lambda>i. m_id (mb_messages mb ! i)) ` marks (mb_messages mb))])"
    using quit frame_write_ok [of c srv]
    by (auto simp: handle_quit_def Let_def marks_ids frame_def split: session_state.split)
qed

lemma run_command_frame:
  assumes "executed srv cmd c" and "c_state c = Authenticated mb fl t" and "frame c c1"
    and "case cmd of Dele _ \<Rightarrow> False | DeleMany _ \<Rightarrow> False | Rset \<Rightarrow> False | Quit \<Rightarrow> False | _ \<Rightarrow> True"
  shows "frame c1 (snd (run_command srv cmd c1))"
  using assms(4) executed_authenticated [OF assms(1,2)]
  by (cases cmd) (simp_all add: frame_stat frame_list frame_uidl frame_fetch frame_plain_handlers frame_write_ok)

lemma run_request_Inr:
  "run_request srv (Inr cmd) c =
     (case validate_request srv cmd c of (Inl e, c1) \<Rightarrow> (Inl e, c1) | (Inr _, c1) \<Rightarrow> run_command srv cmd c1)"
  using validate_command [of srv cmd c]
  by (auto simp: run_request_def bindh_def split: prod.split sum.split)

section \<open>The marks of a session\<close>

lemma run_request_authenticated:
  assumes "c_state c = Authenticated mb fl t"
  shows "\<exists>mb'. c_state (snd (run_request srv (Inr cmd) c)) = Authenticated mb' fl t \<and> same_mailbox mb mb'
     \<and> marks (mb_messages mb') =
         (if executed srv cmd c
          then abs_step (sv_has_permission srv t Pop3Dele) (length (mb_messages mb)) cmd (marks (mb_messages mb))
          else marks (mb_messages mb))
     \<and> c_deletions (snd (run_request srv (Inr cmd) c)) = c_deletions c @
         (if cmd = Quit \<and> marks (mb_messages mb) \<noteq> {}
          then [(mb_account_id mb, (\<lambda>i. m_id (mb_messages mb ! i)) ` marks (mb_messages mb))] else [])"
proof -
  obtain v c1 where v: "validate_request srv cmd c = (v, c1)" by fastforce
  have fr: "frame c c1" using frame_validate [of c srv cmd] v by simp
  then have st: "c_state c1 = Authenticated mb fl t" and ds: "c_deletions c1 = c_deletions c"
    using assms by (simp_all add: frame_def)
  show ?thesis
  proof (cases v)
    case (Inl e)
    then have "cmd \<noteq> Quit" "\<not> executed srv cmd c" using v by (auto simp: executed_def)
    with Inl v st ds show ?thesis by (simp add: run_request_Inr)
  next
    case (Inr x)
    then have ex: "executed srv cmd c" and run: "run_request srv (Inr cmd) c = run_command srv cmd c1"
      using v by (simp_all add: executed_def run_request_Inr)
    have frame: "frame c1 (snd (run_command srv cmd c1))"
      if "case cmd of Dele _ \<Rightarrow> False | DeleMany _ \<Rightarrow> False | Rset \<Rightarrow> False | Quit \<Rightarrow> False | _ \<Rightarrow> True"
      using run_command_frame [OF ex assms fr that] .
    show ?thesis
    proof (cases "case cmd of Dele _ \<Rightarrow> False | DeleMany _ \<Rightarrow> False | Rset \<Rightarrow> False | Quit \<Rightarrow> False | _ \<Rightarrow> True")
      case True
      then have "abs_step p n cmd D = D" "cmd \<noteq> Quit" for p n D by (cases cmd; simp)+
      with frame [OF True] show ?thesis using ex st ds by (simp add: run frame_def)
    next
      case False
      then consider msg where "cmd = Dele msg" | msgs where "cmd = DeleMany msgs" | "cmd = Rset" | "cmd = Quit"
        by (cases cmd) simp_all
      then show ?thesis
      proof cases
        case 1
        then show ?thesis using handle_dele_state [OF st, of srv "[msg]"] ex ds run by auto
      next
        case 2
        then show ?thesis using handle_dele_state [OF st, of srv msgs] ex ds run by auto
      next
        case 3
        then show ?thesis using handle_rset_state [OF st, of srv] ex ds run by auto
      next
        case 4
        then show ?thesis using handle_quit_state [of srv c1] ex st ds run by simp
      qed
    qed
  qed
qed


section \<open>Invariants of a session\<close>

text \<open>
  What every request keeps, the whole session keeps: the interface between the dispatch of
  one request and the loops around it.
\<close>

locale session_invariant =
  fixes srv :: "('w, 't) server" and I :: "('w, 't) conn \<Rightarrow> bool"
  assumes framed: "frame c c' \<Longrightarrow> I c \<Longrightarrow> I c'"
    and request: "I c \<Longrightarrow> I (snd (run_request srv (Inr cmd) c))"
    and tls: "I c \<Longrightarrow> I (into_tls c)"
begin

lemma receiver: "I c \<Longrightarrow> I (c\<lparr>c_receiver := s\<rparr>)"
  by (rule framed [of c]) (simp_all add: frame_def)

lemma requests: "I c \<Longrightarrow> I (snd (run_requests srv rs c))"
proof (induction rs arbitrary: c)
  case (Cons r rs)
  obtain v c1 where run: "run_request srv r c = (v, c1)" by fastforce
  have c1: "I c1"
    using request [OF Cons.prems] run Cons.prems by (cases r) (auto simp: run_request_def, metis snd_conv)
  have err: "I (snd (write_err srv e c1))" for e by (rule framed [OF frame_write_err c1])
  then show ?case using Cons.IH c1 err
    by (auto simp: run split: sum.split session_result.split bool.split prod.split) (metis snd_conv)+
qed simp

lemma scanner: "I c \<Longrightarrow> I (snd (scanner_check srv c))"
proof (rule framed [of c])
  show "frame c (snd (scanner_check srv c))"
    using frame_call [of c "sv_scanner_banned srv"]
    by (auto simp: scanner_check_def split: session_state.split prod.split sum.split)
qed

lemma collect: "I c \<Longrightarrow> I (snd (collect_requests srv bytes rs c))"
proof (induction "length bytes" arbitrary: bytes rs c rule: less_induct)
  case less
  obtain r s rest where p: "parser_parse (c_receiver c) bytes = (r, s, rest)" by (metis surj_pair)
  have shorter: "r \<noteq> None \<Longrightarrow> length rest < length bytes" using pop3.parse_consumes [OF p] by simp
  have c1: "I (c\<lparr>c_receiver := s\<rparr>)" using less.prems by (rule receiver)
  have c2: "I (snd (scanner_check srv (c\<lparr>c_receiver := s\<rparr>)))" using c1 by (rule scanner)
  show ?case
  proof (cases r)
    case None
    then show ?thesis using c1 by (subst collect_requests.simps) (simp add: p)
  next
    case (Some x)
    with less.hyps [OF shorter] c1 c2 show ?thesis
      by (subst collect_requests.simps) (auto simp: p split: sum.split prod.split bool.split)
  qed
qed

lemma ingest: "I c \<Longrightarrow> I (snd (ingest srv bytes c))"
  using collect [of c bytes "[]"] requests
  by (auto simp: ingest_def split: prod.split option.split)

lemma write_ignored: "I c \<Longrightarrow> I (write_ignored srv bytes c)"
  unfolding write_ignored_def by (rule framed [OF frame_write])

lemma connection: "I c \<Longrightarrow> I (fst (snd (handle_conn srv events c)))"
proof (induction events arbitrary: c)
  case (Cons event events)
  have read: "I (snd (ingest srv bytes c))" for bytes using Cons.prems by (rule ingest)
  show ?case
  proof (cases event)
    case (Read bytes)
    obtain result c1 where "ingest srv bytes c = (result, c1)" by fastforce
    with Read read [of bytes] Cons show ?thesis by (cases result) auto
  qed (use Cons.prems write_ignored in simp_all)
qed simp

lemma session: "I c \<Longrightarrow> I (handle srv handshake events c)"
proof -
  assume "I c"
  obtain v c1 where w: "write_bytes srv SERVER_GREETING c = (v, c1)" by fastforce
  then have c1: "I c1" using framed [OF frame_write \<open>I c\<close>, of srv SERVER_GREETING] by simp
  obtain result c2 rest where h: "handle_conn srv events c1 = (result, c2, rest)" by (metis surj_pair)
  then have c2: "I c2" using connection [OF c1, of events] by simp
  have "I (fst (snd (handle_conn srv rest (into_tls c2))))" using connection [OF tls [OF c2]] .
  then show ?thesis using c1 c2
    by (cases result) (auto simp: handle_def w h split: sum.split prod.split)
qed

end

lemma btree_insert_keys: "fst ` set (btree_insert x m) = insert (fst x) (fst ` set m)"
  by (induction x m rule: btree_insert.induct) auto

lemma btree_insert_sorted:
  "sorted_wrt (<) (map fst m) \<Longrightarrow> sorted_wrt (<) (map fst (btree_insert x m))"
proof (induction x m rule: btree_insert.induct)
  case (2 k v k' v' m)
  have keys: "set (map fst (btree_insert (k, v) m)) = insert k (set (map fst m))"
    using btree_insert_keys [of "(k, v)" m] by simp
  have "sorted_wrt (<) (map fst m)" using 2 by simp
  then have "k' < k \<Longrightarrow> ?case" using 2 keys by (auto simp: not_less)
  moreover have "k < k' \<Longrightarrow> ?case" using 2 by auto
  ultimately show ?case using 2 by (cases k k' rule: linorder_cases) auto
qed simp

lemma btree_fold_sorted: "sorted_wrt (<) (map fst m) \<Longrightarrow> sorted_wrt (<) (map fst (fold btree_insert xs m))"
  by (induction xs arbitrary: m) (simp_all add: btree_insert_sorted)

definition mailbox_ok :: "mailbox \<Rightarrow> bool" where
  "mailbox_ok mb \<longleftrightarrow> sorted_wrt (<) (map m_uid (mb_messages mb))
     \<and> mb_total mb = of_nat (length (mb_messages mb))
     \<and> mb_size mb = sum_list (map m_size (mb_messages mb))"

lemma mailbox_push_fold:
  "map m_uid (mb_messages (foldl mailbox_push mb xs)) = map m_uid (mb_messages mb) @ map fst xs"
  "mb_total mb = of_nat (length (mb_messages mb)) \<Longrightarrow>
     mb_total (foldl mailbox_push mb xs) = of_nat (length (mb_messages (foldl mailbox_push mb xs)))"
  "mb_size mb = sum_list (map m_size (mb_messages mb)) \<Longrightarrow>
     mb_size (foldl mailbox_push mb xs) = sum_list (map m_size (mb_messages (foldl mailbox_push mb xs)))"
  by (induction xs arbitrary: mb) (auto simp: mailbox_push_def)

lemma fetch_mailbox_ok: "mailbox_ok (fetch_mailbox a cache)"
  using btree_fold_sorted [of "[]" "inbox_entries (mc_items cache)"]
  by (auto simp: fetch_mailbox_def mailbox_ok_def Let_def mailbox_default_def mailbox_push_fold)

lemma same_mailbox_ok:
  assumes "mailbox_ok mb" and "same_mailbox mb mb'"
  shows "mailbox_ok mb'"
proof -
  have "map (\<lambda>m. (m_id m, m_uid m, m_size m)) (mb_messages mb) = map (\<lambda>m. (m_id m, m_uid m, m_size m)) (mb_messages mb')"
    and rest: "mb\<lparr>mb_messages := []\<rparr> = mb'\<lparr>mb_messages := []\<rparr>"
    using assms(2) by (simp_all add: same_mailbox_def same_messages_def)
  from this(1) have "map m_uid (mb_messages mb) = map m_uid (mb_messages mb')"
    "map m_size (mb_messages mb) = map m_size (mb_messages mb')" "length (mb_messages mb) = length (mb_messages mb')"
    by (auto dest: arg_cong [where f = "map (fst \<circ> snd)"] arg_cong [where f = "map (snd \<circ> snd)"] arg_cong [where f = length] simp: comp_def)
  moreover have "mb_total mb = mb_total mb'" "mb_size mb = mb_size mb'"
    using arg_cong [OF rest, of mb_total] arg_cong [OF rest, of mb_size] by simp_all
  ultimately show ?thesis using assms(1) by (simp add: mailbox_ok_def)
qed

text \<open>A server that accepts no credentials.\<close>

definition locked_out :: "('w, 't) server \<Rightarrow> bool" where
  "locked_out srv \<longleftrightarrow> (\<forall>credentials w. \<exists>e. fst (sv_authenticate srv credentials w) = Inl e)"

definition auth_step :: "('w, 't) server \<Rightarrow> u32 \<Rightarrow> 't session_state \<Rightarrow> bool" where
  "auth_step srv n st \<longleftrightarrow>
     (case st of
        NotAuthenticated n' _ \<Rightarrow> n' = n \<or> n < sv_max_auth_failures srv \<and> n' = n + 1
      | Authenticated mb _ t \<Rightarrow>
          sv_has_permission srv t Pop3Authenticate \<and> mailbox_ok mb \<and> \<not> locked_out srv)"

definition login_ok :: "('w, 't) server \<Rightarrow> u32 \<Rightarrow> ('w, 't) conn \<Rightarrow> ('w, 't) conn \<Rightarrow> bool" where
  "login_ok srv n c c' \<longleftrightarrow> c_deletions c' = c_deletions c \<and> auth_step srv n (c_state c')"

lemma login_ok_frame: "frame c c' \<Longrightarrow> auth_step srv n (c_state c) \<Longrightarrow> login_ok srv n c c'"
  by (simp add: login_ok_def frame_def)

lemma login_ok_trans: "frame c c1 \<Longrightarrow> login_ok srv n c1 c2 \<Longrightarrow> login_ok srv n c c2"
  by (simp add: login_ok_def frame_def)

lemma login_ok_trans': "login_ok srv n c c1 \<Longrightarrow> frame c1 c2 \<Longrightarrow> login_ok srv n c c2"
  by (simp add: login_ok_def frame_def)

lemma authenticate_ok:
  assumes "c_state c = NotAuthenticated n u"
  shows "login_ok srv n c (snd (authenticate srv cred c))"
    and "authenticate srv cred c = (Inr t, c') \<Longrightarrow> frame c c' \<and> \<not> locked_out srv"
proof -
  obtain v c1 where call: "call (sv_authenticate srv cred) c = (v, c1)" by fastforce
  have fr: "frame c c1" using frame_call [of c "sv_authenticate srv cred"] call by simp
  then show "login_ok srv n c (snd (authenticate srv cred c))"
    using assms call by (cases v) (auto simp: authenticate_def auth_failed_def login_ok_def auth_step_def frame_def)
  have "v = Inr t \<Longrightarrow> \<not> locked_out srv"
    using call by (auto simp: call_def locked_out_def split: prod.splits) (metis fst_conv sum.distinct(1))
  then show "frame c c' \<and> \<not> locked_out srv" if "authenticate srv cred c = (Inr t, c')"
    using that call fr by (cases v) (auto simp: authenticate_def split: prod.splits)
qed

lemma handle_auth_ok:
  assumes "c_state c = NotAuthenticated n u"
  shows "login_ok srv n c (snd (handle_auth srv cred c))"
proof -
  obtain v c1 where a: "authenticate srv cred c = (v, c1)" by fastforce
  show ?thesis
  proof (cases v)
    case (Inl e)
    then show ?thesis using authenticate_ok(1) [OF assms, of srv cred] a by (simp add: handle_auth_def bindh_def)
  next
    case (Inr t)
    with a authenticate_ok(2) [OF assms] have fr: "frame c c1" and let_in: "\<not> locked_out srv" by simp_all
    have same: "login_ok srv n c c'" if "frame c1 c'" for c'
      using fr that assms by (simp add: login_ok_def auth_step_def frame_def)
    obtain l c2 where l: "call (sv_request_allowed srv t) c1 = (l, c2)" by fastforce
    then have c2: "frame c1 c2" using frame_call [of c1 "sv_request_allowed srv t"] by simp
    obtain w c3 where w: "call (sv_cached_messages srv (sv_account_id srv t)) c2 = (w, c3)" by fastforce
    then have c3: "frame c1 c3"
      using frame_call [of c2 "sv_cached_messages srv (sv_account_id srv t)"] c2 by (auto intro: frame_trans)
    have new: "login_ok srv n c (snd (write_ok srv m (c3\<lparr>c_state := Authenticated (fetch_mailbox a cache) fl t\<rparr>)))"
      if "sv_has_permission srv t Pop3Authenticate" for m a cache fl
      using frame_write_ok [of "c3\<lparr>c_state := Authenticated (fetch_mailbox a cache) fl t\<rparr>" srv m]
        that fr c3 let_in fetch_mailbox_ok [of a cache]
      by (simp add: login_ok_def auth_step_def frame_def)
    show ?thesis
      using same [of c1] same [OF c2] same [OF c3] new
      by (cases l; cases w) (simp_all add: handle_auth_def bindh_def enforce_permission_def a Inr l w)
  qed
qed

lemma login_ok_same: "c_state c = NotAuthenticated n u \<Longrightarrow> frame c c' \<Longrightarrow> login_ok srv n c c'"
  by (simp add: login_ok_def auth_step_def frame_def)

lemma run_command_unauthenticated:
  assumes st: "c_state c = NotAuthenticated n u"
  shows "login_ok srv n c (snd (run_command srv cmd c))"
proof -
  note same = login_ok_same [OF st]
  have user: "login_ok srv n c (snd (write_ok srv m (c\<lparr>c_state := NotAuthenticated n v\<rparr>)))" for m v
    using frame_write_ok [of "c\<lparr>c_state := NotAuthenticated n v\<rparr>" srv m]
    by (simp add: login_ok_def auth_step_def frame_def)
  have pass: "login_ok srv n c (snd (handle_auth srv cred (c\<lparr>c_state := NotAuthenticated n v\<rparr>)))" for cred v
    using handle_auth_ok [of "c\<lparr>c_state := NotAuthenticated n v\<rparr>" n v srv cred] by (simp add: login_ok_def)
  have sasl: "login_ok srv n c (snd (handle_sasl srv mech ps c))" for mech ps
    using handle_auth_ok [OF st] frame_write [of "c\<lparr>c_receiver := r\<rparr>" srv for r] st
    by (auto simp: handle_sasl_def login_ok_def auth_step_def frame_def split: option.split)
  have quit: "login_ok srv n c (snd (handle_quit srv c))"
    using handle_quit_state [of srv c] st by (simp add: login_ok_def auth_step_def)
  show ?thesis
  proof (cases cmd)
    case (User name)
    with user st show ?thesis by simp
  next
    case (Pass str)
    with pass st show ?thesis by (simp add: same split: option.split)
  next
    case (Auth mech ps)
    with sasl show ?thesis by simp
  next
    case Quit
    with quit show ?thesis by simp
  next
    case (Dele msg)
    with st show ?thesis by (simp add: handle_dele_def same)
  next
    case (DeleMany msgs)
    with st show ?thesis by (simp add: handle_dele_def same)
  next
    case Rset
    with st show ?thesis by (simp add: handle_rset_def same)
  qed (simp_all add: same frame_stat frame_list frame_uidl frame_fetch frame_plain_handlers frame_write_ok)
qed

lemma run_request_unauthenticated:
  assumes st: "c_state c = NotAuthenticated n u"
  shows "login_ok srv n c (snd (run_request srv (Inr cmd) c))"
proof -
  obtain v c1 where v: "validate_request srv cmd c = (v, c1)" by fastforce
  have fr: "frame c c1" using frame_validate [of c srv cmd] v by simp
  then have st1: "c_state c1 = NotAuthenticated n u" using st by (simp add: frame_def)
  from login_ok_trans [OF fr run_command_unauthenticated [OF st1, of srv cmd]] login_ok_same [OF st fr]
  show ?thesis by (cases v) (simp_all add: run_request_Inr v)
qed

definition session_ok :: "('w, 't) server \<Rightarrow> ('w, 't) conn \<Rightarrow> bool" where
  "session_ok srv c \<longleftrightarrow>
     (case c_state c of
        NotAuthenticated n _ \<Rightarrow> n \<le> sv_max_auth_failures srv
      | Authenticated mb _ t \<Rightarrow> sv_has_permission srv t Pop3Authenticate \<and> mailbox_ok mb)"

definition kept_out :: "('w, 't) server \<Rightarrow> ('w, 't) conn \<Rightarrow> bool" where
  "kept_out srv c \<longleftrightarrow>
     (locked_out srv \<longrightarrow> c_deletions c = [] \<and> (case c_state c of NotAuthenticated _ _ \<Rightarrow> True | _ \<Rightarrow> False))"

interpretation bound: session_invariant srv "session_ok srv" for srv
proof
  show "session_ok srv c \<Longrightarrow> session_ok srv (snd (run_request srv (Inr cmd) c))" for c cmd
  proof (cases "c_state c")
    case (NotAuthenticated n u)
    assume "session_ok srv c"
    with run_request_unauthenticated [OF NotAuthenticated, of srv cmd] NotAuthenticated show ?thesis
      by (auto simp: login_ok_def auth_step_def session_ok_def inc_le split: session_state.splits)
  next
    case (Authenticated mb fl t)
    assume "session_ok srv c"
    with run_request_authenticated [OF Authenticated, of srv cmd] Authenticated show ?thesis
      by (auto simp: session_ok_def intro: same_mailbox_ok)
  qed
qed (auto simp: session_ok_def frame_def into_tls_def)

interpretation outside: session_invariant srv "kept_out srv" for srv
proof
  show "kept_out srv c \<Longrightarrow> kept_out srv (snd (run_request srv (Inr cmd) c))" for c cmd
  proof (cases "c_state c")
    case (NotAuthenticated n u)
    assume "kept_out srv c"
    with run_request_unauthenticated [OF NotAuthenticated, of srv cmd] NotAuthenticated show ?thesis
      by (auto simp: login_ok_def auth_step_def kept_out_def split: session_state.splits)
  qed (simp add: kept_out_def)
qed (auto simp: kept_out_def frame_def into_tls_def)

end
