(* ===== verification/Pop3_Logins.thy ===== *)
theory Pop3_Logins
  imports Pop3_Correct
begin

text \<open>
  How a POP3 session counts failed logins: the number of rejected credentials, seen from the
  directory, against the counter of the session.
\<close>

section \<open>Rejections\<close>

text \<open>
  \<open>fails\<close> reads the number of credentials that the directory has rejected off the state of
  the rest of the server: a rejection counts one, nothing else counts.
\<close>

definition rejected :: "(failure + 't) \<Rightarrow> nat" where
  "rejected r = (case r of Inl e \<Rightarrow> if f_kind e = AuthFailed then 1 else 0 | Inr _ \<Rightarrow> 0)"

definition counts :: "('w, 't) server \<Rightarrow> ('w \<Rightarrow> nat) \<Rightarrow> bool" where
  "counts srv fails \<longleftrightarrow>
     (\<forall>x w. fails (snd (sv_authenticate srv x w)) = fails w + rejected (fst (sv_authenticate srv x w)))
     \<and> (\<forall>w. fails (snd (sv_scanner_banned srv w)) = fails w \<and> fails (snd (sv_commit_batch srv w)) = fails w)
     \<and> (\<forall>t w. fails (snd (sv_request_allowed srv t w)) = fails w)
     \<and> (\<forall>a w. fails (snd (sv_rate_allowed srv a w)) = fails w \<and> fails (snd (sv_cached_messages srv a w)) = fails w)
     \<and> (\<forall>a i w. fails (snd (sv_metadata srv a i w)) = fails w)
     \<and> (\<forall>a ids w. fails (snd (sv_emails_delete srv a ids w)) = fails w)
     \<and> (\<forall>b w. fails (snd (sv_blob srv b w)) = fails w \<and> fails (snd (sv_write srv b w)) = fails w)"

definition steady :: "('w \<Rightarrow> nat) \<Rightarrow> ('w, 't) conn \<Rightarrow> ('w, 't) conn \<Rightarrow> bool" where
  "steady fails c c' \<longleftrightarrow> fails (c_world c') = fails (c_world c)"

lemma steady_refl [simp]: "steady fails c c"
  by (simp add: steady_def)

lemma steady_call: "(\<And>w. fails (snd (f w)) = fails w) \<Longrightarrow> steady fails c (snd (call f c))"
  by (auto simp: steady_def call_def split: prod.split) (metis snd_conv)

lemma steady_bindh:
  "steady fails c (snd (m c)) \<Longrightarrow> (\<And>x d. steady fails d (snd (k x d))) \<Longrightarrow> steady fails c (snd (bindh m k c))"
  by (auto simp: steady_def bindh_def split: prod.split sum.split)

lemma counts_calls:
  assumes "counts srv fails"
  shows "fails (snd (sv_scanner_banned srv w)) = fails w" "fails (snd (sv_commit_batch srv w)) = fails w"
    "fails (snd (sv_request_allowed srv t w)) = fails w" "fails (snd (sv_rate_allowed srv a w)) = fails w"
    "fails (snd (sv_cached_messages srv a w)) = fails w" "fails (snd (sv_metadata srv a i w)) = fails w"
    "fails (snd (sv_emails_delete srv a ids w)) = fails w" "fails (snd (sv_blob srv b w)) = fails w"
    "fails (snd (sv_write srv b w)) = fails w"
  using assms by (simp_all add: counts_def)

lemma steady_write: "counts srv fails \<Longrightarrow> steady fails c (snd (write_bytes srv b c))"
  using steady_call [of fails "sv_write srv b" c]
  by (auto simp: write_bytes_def steady_def counts_calls split: prod.split sum.split)

lemma steady_write_ok: "counts srv fails \<Longrightarrow> steady fails c (snd (write_ok srv m c))"
  by (simp add: write_ok_def steady_write)

lemma steady_write_err: "counts srv fails \<Longrightarrow> steady fails c (snd (write_err srv e c))"
  using steady_write [of srv fails c "error_serialize e"]
  by (auto simp: write_err_def split: prod.splits sum.splits)

lemma steady_enforce: "steady fails c (snd (enforce_permission srv t p c))"
  by (simp add: enforce_permission_def)

lemma steady_unreachable [simp]: "steady fails c (snd (unreachable c))"
  by (simp add: unreachable_def)

lemma steady_reject [simp]: "steady fails c (snd (reject d c))"
  by (simp add: reject_def)

lemma steady_state: "steady fails c (c\<lparr>c_state := st\<rparr>)" "steady fails (c\<lparr>c_state := st\<rparr>) d = steady fails c d"
  by (simp_all add: steady_def)

lemmas steady_intros = steady_bindh steady_call steady_write steady_write_ok steady_enforce

lemma steady_if: "(b \<Longrightarrow> steady fails c (snd (f c))) \<Longrightarrow> (\<not> b \<Longrightarrow> steady fails c (snd (g c)))
    \<Longrightarrow> steady fails c (snd ((if b then f else g) c))"
  by simp

lemma steady_handlers:
  assumes "counts srv fails"
  shows "steady fails c (snd (handle_stat srv c))" "steady fails c (snd (handle_list srv msg c))"
    "steady fails c (snd (handle_uidl srv msg c))" "steady fails c (snd (handle_fetch srv m n c))"
    "steady fails c (snd (handle_capa srv c))" "steady fails c (snd (handle_stls srv c))"
    "steady fails c (snd (handle_utf8 srv c))"
  using assms
  by (auto simp: handle_stat_def handle_list_def handle_uidl_def handle_fetch_def handle_capa_def handle_stls_def
      handle_utf8_def Let_def split: session_state.split option.split intro!: steady_intros counts_calls)

lemma steady_dele: "counts srv fails \<Longrightarrow> steady fails c (snd (handle_dele srv msgs c))"
  using steady_write [of srv fails]
  by (auto simp: handle_dele_def bindh_def enforce_permission_def unreachable_def steady_def
      split: session_state.split prod.split)

lemma steady_rset: "counts srv fails \<Longrightarrow> steady fails c (snd (handle_rset srv c))"
  using steady_write_ok [of srv fails]
  by (auto simp: handle_rset_def unreachable_def steady_def Let_def split: session_state.split)

lemma steady_quit: "counts srv fails \<Longrightarrow> steady fails c (snd (handle_quit srv c))"
proof -
  assume counts: "counts srv fails"
  let ?after = "\<lambda>deleted (has_changes, all_deleted).
    bindh (if has_changes then call (sv_commit_batch srv) else (\<lambda>c. (Inr (), c)))
      (\<lambda>_. if all_deleted then write_ok srv (''Stalwart POP3 bids you farewell (''
              @ nat_to_string (card deleted) @ '' messages deleted).'')
           else write_bytes srv (response_serialize (Erring ''Some messages could not be deleted'')))"
  have "steady fails d (snd (?after deleted x d))" for deleted x d
    using counts by (cases x) (auto intro!: steady_intros steady_if counts_calls)
  then have "steady fails d (snd (bindh (call (sv_emails_delete srv a deleted)) (?after deleted) d))" for a deleted d
    using counts by (intro steady_intros counts_calls)
  then have "steady fails c (snd (bindh (call (sv_emails_delete srv a deleted)) (?after deleted)
      (c\<lparr>c_deletions := l\<rparr>)))" for a deleted l
    by (simp add: steady_def)
  then show ?thesis using counts
    by (auto simp: handle_quit_def Let_def split: session_state.split intro!: steady_write_ok)
qed

lemma steady_validate: "counts srv fails \<Longrightarrow> steady fails c (snd (validate_request srv cmd c))"
proof -
  assume counts: "counts srv fails"
  have "steady fails c (snd (validate_mailbox srv cmd' c))" for cmd'
    using counts by (auto simp: validate_mailbox_def split: session_state.split intro!: steady_intros counts_calls)
  moreover have "steady fails c (snd (validate_plain srv cmd' c))" "steady fails c (snd (validate_sasl cmd' c))" for cmd'
    by (simp_all add: validate_plain_def validate_sasl_def split: session_state.split)
  ultimately show ?thesis by (cases cmd) simp_all
qed

definition logs_in :: "pop3_command \<Rightarrow> bool" where
  "logs_in cmd = (case cmd of Pass _ \<Rightarrow> True | Auth _ _ \<Rightarrow> True | _ \<Rightarrow> False)"

lemma steady_command:
  assumes "counts srv fails" and "\<not> logs_in cmd"
  shows "steady fails c (snd (run_command srv cmd c))"
proof -
  have user: "steady fails c (snd (write_ok srv m (c\<lparr>c_state := st\<rparr>)))" for m st
    using steady_write_ok [OF assms(1), of "c\<lparr>c_state := st\<rparr>" m] by (simp add: steady_state)
  show ?thesis
    using assms steady_handlers [OF assms(1)] steady_dele [OF assms(1)] steady_rset [OF assms(1)] steady_quit [OF assms(1)]
      steady_write_ok [OF assms(1)] user
    by (cases cmd) (auto simp: logs_in_def split: session_state.split)
qed

section \<open>The counter\<close>

text \<open>A session that goes on has counted every rejection; one that has had one too many is over.\<close>

definition live :: "('w, 't) server \<Rightarrow> ('w \<Rightarrow> nat) \<Rightarrow> ('w, 't) conn \<Rightarrow> bool" where
  "live srv fails c \<longleftrightarrow>
     (case c_state c of
        NotAuthenticated n _ \<Rightarrow> n \<le> sv_max_auth_failures srv \<and> fails (c_world c) = unat n
      | Authenticated mb _ t \<Rightarrow> sv_has_permission srv t Pop3Authenticate \<and> mailbox_ok mb
          \<and> fails (c_world c) \<le> unat (sv_max_auth_failures srv))"

definition spent :: "('w, 't) server \<Rightarrow> ('w \<Rightarrow> nat) \<Rightarrow> ('w, 't) conn \<Rightarrow> bool" where
  "spent srv fails c \<longleftrightarrow>
     (case c_state c of
        NotAuthenticated n _ \<Rightarrow> n = sv_max_auth_failures srv \<and> fails (c_world c) = unat n + 1
      | Authenticated _ _ _ \<Rightarrow> False)"

lemma live_same: "c_state c' = c_state c \<Longrightarrow> steady fails c c' \<Longrightarrow> live srv fails c' = live srv fails c"
  by (simp add: live_def steady_def split: session_state.split)

lemma spent_same: "c_state c' = c_state c \<Longrightarrow> steady fails c c' \<Longrightarrow> spent srv fails c' = spent srv fails c"
  by (simp add: spent_def steady_def split: session_state.split)

lemma live_receiver [simp]: "live srv fails (c\<lparr>c_receiver := r\<rparr>) = live srv fails c"
  by (rule live_same) (simp_all add: steady_def)

lemma live_tls [simp]: "live srv fails (into_tls c) = live srv fails c"
  by (rule live_same) (simp_all add: steady_def into_tls_def)

definition ends_well :: "('w, 't) server \<Rightarrow> ('w \<Rightarrow> nat) \<Rightarrow> (failure + 'a) \<times> ('w, 't) conn \<Rightarrow> bool" where
  "ends_well srv fails r \<longleftrightarrow> live srv fails (snd r)
     \<or> spent srv fails (snd r) \<and> (\<exists>e. fst r = Inl e \<and> f_kind e = TooManyAttempts)"

lemma ends_well_go_on [simp]: "ends_well srv fails (go_on x r) = ends_well srv fails r"
  by (cases r; cases "fst r") (auto simp: ends_well_def go_on_def)

lemma unat_inc_u32: "(n :: u32) < m \<Longrightarrow> unat (n + 1) = unat n + 1"
proof -
  assume "n < m"
  then have "unat n + 1 < 2 ^ LENGTH(32)" using unsigned_less [of m, where 'a = nat] by (simp add: word_less_nat_alt)
  then show ?thesis by (simp add: unat_word_ariths)
qed

text \<open>A login attempt.\<close>

lemma authenticate_counts:
  assumes "counts srv fails" and "c_state c = NotAuthenticated n u" and "live srv fails c"
    and "authenticate srv cred c = (r, c')"
  shows "ends_well srv fails (r, c') \<and> (\<forall>t. r = Inr t \<longrightarrow> live srv fails c' \<and> c_state c' = NotAuthenticated n u)"
proof -
  obtain v w where v: "sv_authenticate srv cred (c_world c) = (v, w)" by fastforce
  have "fails w = fails (c_world c) + rejected v"
    using assms(1) v unfolding counts_def by (metis fst_conv snd_conv)
  with assms(2-4) v unat_inc_u32 [of n "sv_max_auth_failures srv"] show ?thesis
    by (auto simp: authenticate_def call_def auth_failed_def ends_well_def live_def spent_def rejected_def inc_le
        split: sum.splits if_splits)
qed

lemma handle_auth_counts:
  assumes counts: "counts srv fails" and st: "c_state c = NotAuthenticated n u" and ok: "live srv fails c"
  shows "ends_well srv fails (handle_auth srv cred c)"
proof -
  obtain v c1 where a: "authenticate srv cred c = (v, c1)" by fastforce
  note auth = authenticate_counts [OF counts st ok a]
  show ?thesis
  proof (cases v)
    case (Inl e)
    with auth a show ?thesis by (simp add: handle_auth_def bindh_def ends_well_def)
  next
    case (Inr t)
    with auth have c1: "live srv fails c1" "c_state c1 = NotAuthenticated n u" by simp_all
    obtain l c2 where l: "call (sv_request_allowed srv t) c1 = (l, c2)" by fastforce
    have c2: "steady fails c1 c2" "c_state c2 = c_state c1"
      using steady_call [of fails "sv_request_allowed srv t" c1] counts_calls [OF counts]
        frame_call [of c1 "sv_request_allowed srv t"] l by (simp_all add: frame_def)
    obtain w c3 where w: "call (sv_cached_messages srv (sv_account_id srv t)) c2 = (w, c3)" by fastforce
    have c3: "steady fails c2 c3" "c_state c3 = c_state c2"
      using steady_call [of fails "sv_cached_messages srv (sv_account_id srv t)" c2] counts_calls [OF counts]
        frame_call [of c2 "sv_cached_messages srv (sv_account_id srv t)"] w by (simp_all add: frame_def)
    have same: "live srv fails c2" "live srv fails c3"
      using c1 c2 c3 live_same by metis+
    have new: "live srv fails (snd (write_ok srv m (c3\<lparr>c_state := Authenticated (fetch_mailbox a cache) fl t\<rparr>)))"
      if "sv_has_permission srv t Pop3Authenticate" for m a cache fl
    proof -
      let ?c = "c3\<lparr>c_state := Authenticated (fetch_mailbox a cache) fl t\<rparr>"
      have "live srv fails ?c"
        using same(2) c1(2) c2 c3 that fetch_mailbox_ok [of a cache]
        by (auto simp: live_def word_le_nat_alt)
      moreover have "c_state (snd (write_ok srv m ?c)) = c_state ?c" using frame_write_ok [of ?c srv m] by (simp add: frame_def)
      ultimately show ?thesis using live_same [OF _ steady_write_ok [OF counts]] by blast
    qed
    show ?thesis
      using c1(1) same new
      by (cases l; cases w)
        (auto simp: handle_auth_def bindh_def enforce_permission_def ends_well_def a Inr l w)
  qed
qed

lemma unauthenticated_command:
  assumes "c_state c = NotAuthenticated n u" and "\<not> logs_in cmd"
  shows "\<exists>u'. c_state (snd (run_command srv cmd c)) = NotAuthenticated n u'"
proof -
  have same: "\<exists>u'. c_state c' = NotAuthenticated n u'" if "frame d c'" "c_state d = NotAuthenticated n v" for c' d v
    using that by (simp add: frame_def)
  have user: "\<exists>u'. c_state (snd (write_ok srv m (c\<lparr>c_state := NotAuthenticated n v\<rparr>))) = NotAuthenticated n u'" for m v
    by (rule same [OF frame_write_ok, of _ v]) simp
  have quit: "\<exists>u'. c_state (snd (handle_quit srv c)) = NotAuthenticated n u'"
    using handle_quit_state [of srv c] assms(1) by simp
  note frames = frame_stat frame_list frame_uidl frame_fetch frame_plain_handlers frame_write_ok
  note kept = frames [THEN same, OF assms(1)]
  show ?thesis
  proof (cases cmd)
    case (User name)
    with user assms(1) show ?thesis by simp
  next
    case Quit
    with quit show ?thesis by simp
  next
    case (Dele msg)
    with assms(1) show ?thesis by (simp add: handle_dele_def unreachable_def)
  next
    case (DeleMany msgs)
    with assms(1) show ?thesis by (simp add: handle_dele_def unreachable_def)
  next
    case Rset
    with assms(1) show ?thesis by (simp add: handle_rset_def unreachable_def)
  qed (use assms kept in \<open>simp_all add: logs_in_def\<close>)
qed

lemma ends_well_live: "live srv fails (snd r) \<Longrightarrow> ends_well srv fails r"
  by (simp add: ends_well_def)

lemma handle_sasl_counts:
  assumes counts: "counts srv fails" and st: "c_state c = NotAuthenticated n u" and ok: "live srv fails c"
  shows "ends_well srv fails (handle_sasl srv mech ps c)"
proof -
  have "live srv fails (snd (write_bytes srv b (c\<lparr>c_receiver := r\<rparr>)))" for b r
  proof -
    let ?c = "c\<lparr>c_receiver := r\<rparr>"
    have "c_state (snd (write_bytes srv b ?c)) = c_state ?c" using frame_write [of ?c srv b] by (simp add: frame_def)
    from live_same [OF this steady_write [OF counts]] ok show ?thesis by simp
  qed
  with handle_auth_counts [OF counts st ok] ok show ?thesis
    by (auto simp: handle_sasl_def intro!: ends_well_live split: option.split)
qed

lemma run_command_counts:
  assumes counts: "counts srv fails" and st: "c_state c = NotAuthenticated n u" and ok: "live srv fails c"
  shows "ends_well srv fails (run_command srv cmd c)"
proof (cases "logs_in cmd")
  case False
  obtain u' where "c_state (snd (run_command srv cmd c)) = NotAuthenticated n u'"
    using unauthenticated_command [OF st False] by blast
  with steady_command [OF counts False, of c] st ok
  show ?thesis by (auto intro!: ends_well_live simp: live_def steady_def)
next
  case True
  have "ends_well srv fails (handle_auth srv cred (c\<lparr>c_state := NotAuthenticated n None\<rparr>))" for cred
    by (rule handle_auth_counts [OF counts]) (use st ok in \<open>simp_all add: live_def\<close>)
  with True st ok handle_sasl_counts [OF counts st ok] show ?thesis
    by (cases cmd) (auto simp: logs_in_def unreachable_def intro!: ends_well_live split: option.split)
qed

lemma run_request_counts:
  assumes counts: "counts srv fails" and ok: "live srv fails c"
  shows "ends_well srv fails (run_request srv r c)"
proof (cases r)
  case (Inl e)
  with ok show ?thesis by (simp add: run_request_def ends_well_def)
next
  case (Inr cmd)
  obtain v c1 where v: "validate_request srv cmd c = (v, c1)" by fastforce
  have c1: "c_state c1 = c_state c" "steady fails c c1"
    using frame_validate [of c srv cmd] steady_validate [OF counts, of c cmd] v by (simp_all add: frame_def)
  then have ok1: "live srv fails c1" using live_same ok by blast
  show ?thesis
  proof (cases v)
    case (Inl e)
    with Inr v ok1 show ?thesis by (simp add: run_request_Inr ends_well_def)
  next
    case valid: (Inr x)
    show ?thesis
    proof (cases "c_state c")
      case (NotAuthenticated n u)
      with run_command_counts [OF counts _ ok1] c1 valid v Inr show ?thesis by (simp add: run_request_Inr)
    next
      case (Authenticated mb fl t)
      have "executed srv cmd c" using v valid by (simp add: executed_def)
      from executed_authenticated [OF this Authenticated] have "\<not> logs_in cmd"
        by (cases cmd) (simp_all add: logs_in_def)
      from steady_command [OF counts this, of c1] c1 have "steady fails c (snd (run_request srv r c))"
        using v valid Inr by (simp add: run_request_Inr steady_def)
      moreover obtain mb' where "c_state (snd (run_request srv r c)) = Authenticated mb' fl t" "same_mailbox mb mb'"
        using run_request_authenticated [OF Authenticated, of srv cmd] Inr by blast
      ultimately show ?thesis
        using ok Authenticated by (auto intro!: ends_well_live simp: live_def steady_def intro: same_mailbox_ok)
    qed
  qed
qed

section \<open>Connections\<close>

definition over_or_live :: "('w, 't) server \<Rightarrow> ('w \<Rightarrow> nat) \<Rightarrow> session_result \<Rightarrow> ('w, 't) conn \<Rightarrow> bool" where
  "over_or_live srv fails result c \<longleftrightarrow> live srv fails c \<or> spent srv fails c \<and> result = Close"

lemma write_err_counts:
  assumes "counts srv fails"
  shows "live srv fails (snd (write_err srv e c)) = live srv fails c"
    and "spent srv fails (snd (write_err srv e c)) = spent srv fails c"
proof -
  have st: "c_state (snd (write_err srv e c)) = c_state c" using frame_write_err [of c srv e] by (simp add: frame_def)
  show "live srv fails (snd (write_err srv e c)) = live srv fails c"
    by (rule live_same [OF st steady_write_err [OF assms]])
  show "spent srv fails (snd (write_err srv e c)) = spent srv fails c"
    by (rule spent_same [OF st steady_write_err [OF assms]])
qed

lemma attempts_close: "f_kind e = TooManyAttempts \<Longrightarrow> fst (write_err srv e c) = False"
  by (auto simp: write_err_def should_write_err_def must_disconnect_def split: prod.split sum.split)

lemma run_requests_counts:
  assumes "counts srv fails" and "live srv fails c" and "run_requests srv rs c = (result, c')"
  shows "over_or_live srv fails result c'"
  using assms(2,3)
proof (induction rs arbitrary: c)
  case (Cons r rs)
  obtain v c1 where run: "run_request srv r c = (v, c1)" by fastforce
  note well = run_request_counts [OF assms(1) Cons.prems(1), of r, unfolded run]
  show ?case
  proof (cases v)
    case (Inr x)
    with well have "live srv fails c1" by (auto simp: ends_well_def)
    with Cons run Inr show ?thesis by (cases x) (auto simp: over_or_live_def)
  next
    case (Inl e)
    obtain b c2 where err: "write_err srv e c1 = (b, c2)" by fastforce
    note same = write_err_counts [OF assms(1), of e c1, unfolded err snd_conv]
    show ?thesis
    proof (cases "live srv fails c1")
      case True
      with Cons run Inl err same show ?thesis
        by (cases b) (auto simp: over_or_live_def split: if_splits)
    next
      case False
      with well Inl have "spent srv fails c1" "f_kind e = TooManyAttempts" by (auto simp: ends_well_def)
      moreover from attempts_close [OF this(2), of srv c1] err have "\<not> b" by simp
      ultimately show ?thesis using Cons.prems(2) run Inl err same by (simp add: over_or_live_def)
    qed
  qed
qed (simp add: over_or_live_def)

lemma scanner_counts:
  assumes "counts srv fails"
  shows "live srv fails (snd (scanner_check srv c)) = live srv fails c"
proof (rule live_same)
  show "c_state (snd (scanner_check srv c)) = c_state c"
    using frame_call [of c "sv_scanner_banned srv"]
    by (auto simp: scanner_check_def frame_def split: session_state.split prod.split sum.split)
  show "steady fails c (snd (scanner_check srv c))"
    using steady_call [of fails "sv_scanner_banned srv" c] counts_calls [OF assms]
    by (auto simp: scanner_check_def split: session_state.split prod.split sum.split)
qed

lemma collect_counts:
  assumes "counts srv fails"
  shows "live srv fails (snd (collect_requests srv bytes rs c)) = live srv fails c"
proof (induction "length bytes" arbitrary: bytes rs c rule: less_induct)
  case less
  obtain r s rest where p: "parser_parse (c_receiver c) bytes = (r, s, rest)" by (metis surj_pair)
  have shorter: "r \<noteq> None \<Longrightarrow> length rest < length bytes" using pop3.parse_consumes [OF p] by simp
  have c1: "live srv fails (c\<lparr>c_receiver := s\<rparr>) = live srv fails c" by simp
  have c2: "live srv fails (snd (scanner_check srv (c\<lparr>c_receiver := s\<rparr>))) = live srv fails c"
    using scanner_counts [OF assms] c1 by metis
  show ?case
  proof (cases r)
    case None
    then show ?thesis using c1 by (subst collect_requests.simps) (simp add: p)
  next
    case (Some x)
    with less.hyps [OF shorter] c1 c2 show ?thesis
      by (subst collect_requests.simps) (auto simp: p split: sum.split prod.split bool.split)
  qed
qed

lemma ingest_counts:
  assumes "counts srv fails" and "live srv fails c" and "ingest srv bytes c = (result, c')"
  shows "over_or_live srv fails result c'"
proof -
  obtain v c1 where v: "collect_requests srv bytes [] c = (v, c1)" by fastforce
  then have "live srv fails c1" using collect_counts [OF assms(1), of bytes "[]" c] assms(2) by simp
  with assms v run_requests_counts [OF assms(1)] show ?thesis
    by (cases v) (auto simp: ingest_def over_or_live_def)
qed

lemma connection_counts:
  assumes "counts srv fails" and "live srv fails c" and "handle_conn srv events c = (result, c', rest)"
  shows "over_or_live srv fails result c'"
  using assms(2,3)
proof (induction events arbitrary: c)
  case (Cons event events)
  have ignored: "live srv fails (write_ignored srv b c)" for b
  proof -
    have "c_state (write_ignored srv b c) = c_state c"
      using frame_write [of c srv b] by (simp add: write_ignored_def frame_def)
    from live_same [OF this] steady_write [OF assms(1), of c b] Cons.prems(1) show ?thesis by (simp add: write_ignored_def)
  qed
  show ?case
  proof (cases event)
    case (Read bytes)
    obtain result1 c1 where i: "ingest srv bytes c = (result1, c1)" by fastforce
    from ingest_counts [OF assms(1) Cons.prems(1) i] have "over_or_live srv fails result1 c1" .
    with Cons Read i show ?thesis by (cases result1) (auto simp: over_or_live_def split: if_splits)
  qed (use Cons.prems ignored in \<open>auto simp: over_or_live_def\<close>)
qed (simp add: over_or_live_def)

lemma session_counts:
  assumes "counts srv fails" and "fails w = 0"
  shows "live srv fails (handle srv handshake events (conn_new w tls))
    \<or> spent srv fails (handle srv handshake events (conn_new w tls))"
proof -
  have "live srv fails (conn_new w tls)" using assms(2) by (simp add: live_def conn_new_def)
  obtain v c1 where w: "write_bytes srv SERVER_GREETING (conn_new w tls) = (v, c1)" by fastforce
  have "c_state c1 = c_state (conn_new w tls)" using frame_write [of "conn_new w tls" srv SERVER_GREETING] w
    by (simp add: frame_def)
  from live_same [OF this] steady_write [OF assms(1), of "conn_new w tls" SERVER_GREETING] w \<open>live srv fails (conn_new w tls)\<close>
  have c1: "live srv fails c1" by simp
  obtain result c2 rest where h: "handle_conn srv events c1 = (result, c2, rest)" by (metis surj_pair)
  from connection_counts [OF assms(1) c1 h] have c2: "over_or_live srv fails result c2" .
  obtain result3 c3 rest3 where h3: "handle_conn srv rest (into_tls c2) = (result3, c3, rest3)" by (metis surj_pair)
  have "live srv fails c2 \<Longrightarrow> over_or_live srv fails result3 c3"
    by (rule connection_counts [OF assms(1) _ h3]) simp
  with c1 c2 show ?thesis
    by (cases result) (auto simp: handle_def w h h3 over_or_live_def split: sum.split)
qed

end
