(* ===== verification/Pop3_Properties.thy ===== *)
theory Pop3_Properties
  imports Pop3_Correct Pop3_Logins
begin

text \<open>
  The properties of POP3 sessions: validated commands never reach a panic, the deletion marks
  refine those of RFC 1939, what a session keeps from its first byte to its last, how the
  requests of one network read are grouped, and what a client can leave behind for the
  encrypted part of its session.
\<close>


section \<open>No panic\<close>

definition sane :: "(failure + 'a) \<times> 'c \<Rightarrow> bool" where
  "sane p \<longleftrightarrow> (case fst p of Inl e \<Rightarrow> f_kind e \<noteq> Unreachable | Inr _ \<Rightarrow> True)"

text \<open>The rest of the server does not produce the pseudo-event of a panic.\<close>

definition quiet :: "('w, 't) server \<Rightarrow> bool" where
  "quiet srv \<longleftrightarrow>
     (\<forall>w. sane (sv_scanner_banned srv w) \<and> sane (sv_commit_batch srv w)
        \<and> (\<forall>x. sane (sv_authenticate srv x w)) \<and> (\<forall>a. sane (sv_rate_allowed srv a w))
        \<and> (\<forall>a. sane (sv_cached_messages srv a w)) \<and> (\<forall>a i. sane (sv_metadata srv a i w))
        \<and> (\<forall>h. sane (sv_blob srv h w)) \<and> (\<forall>a ids. sane (sv_emails_delete srv a ids w))
        \<and> (\<forall>b. sane (sv_write srv b w)))"

lemma sane_simps [simp]: "sane (Inr x, c)" "sane (Inl e, c) \<longleftrightarrow> f_kind e \<noteq> Unreachable"
  by (simp_all add: sane_def)

lemma sane_call: "(\<And>w. sane (f w)) \<Longrightarrow> sane (call f c)"
  unfolding call_def sane_def by (auto split: prod.split) (metis fst_conv)

lemma sane_bindh: "sane (m c) \<Longrightarrow> (\<And>x d. sane (k x d)) \<Longrightarrow> sane (bindh m k c)"
proof -
  assume m: "sane (m c)" and k: "\<And>x d. sane (k x d)"
  obtain v d where v: "m c = (v, d)" by fastforce
  show "sane (bindh m k c)" using m k by (cases v) (simp_all add: bindh_def v)
qed

lemma sane_write: "quiet srv \<Longrightarrow> sane (write_bytes srv b c)"
  using sane_call [of "sv_write srv b" c]
  by (auto simp: write_bytes_def quiet_def sane_def split: prod.split sum.split)

lemma sane_write_ok: "quiet srv \<Longrightarrow> sane (write_ok srv b c)"
  by (simp add: write_ok_def sane_write)

lemma sane_enforce: "sane (enforce_permission srv t p c)"
  by (simp add: enforce_permission_def)

lemma sane_errors [simp]: "f_kind (pop3_error d) = OtherEvent" "f_kind fetch_error = OtherEvent"
    "f_kind too_many_requests = TooManyRequests"
  by (simp_all add: pop3_error_def fetch_error_def too_many_requests_def)

lemma sane_go_on: "sane p \<Longrightarrow> sane (go_on r p)"
  by (cases p) (auto simp: go_on_def sane_def split: sum.splits)

lemmas sane_intros = sane_call sane_bindh sane_write sane_write_ok sane_enforce sane_go_on

lemma quiet_calls:
  assumes "quiet srv"
  shows "sane (sv_scanner_banned srv w)" "sane (sv_commit_batch srv w)" "sane (sv_authenticate srv x w)"
    "sane (sv_rate_allowed srv a w)" "sane (sv_cached_messages srv a w)" "sane (sv_metadata srv a i w)"
    "sane (sv_blob srv h w)" "sane (sv_emails_delete srv a ids w)"
  using assms by (auto simp: quiet_def)

text \<open>The state in which a command does not run into \<open>unreachable!()\<close>.\<close>

fun expected :: "pop3_command \<Rightarrow> 't session_state \<Rightarrow> bool" where
  "expected (User _) st = (case st of NotAuthenticated _ _ \<Rightarrow> True | _ \<Rightarrow> False)"
| "expected (Pass _) st = (case st of NotAuthenticated _ (Some _) \<Rightarrow> True | _ \<Rightarrow> False)"
| "expected Quit st = True"
| "expected Noop st = True"
| "expected Capa st = True"
| "expected Stls st = True"
| "expected (Apop _ _) st = True"
| "expected (Auth _ _) st = True"
| "expected _ st = (case st of Authenticated _ _ _ \<Rightarrow> True | _ \<Rightarrow> False)"

lemma validated_expected:
  assumes "validate_request srv cmd c = (Inr x, c')"
  shows "expected cmd (c_state c')"
proof -
  have st: "c_state c' = c_state c" using frame_validate [of c srv cmd] assms by (simp add: frame_def)
  have mailbox: "validate_mailbox srv cmd c = (Inr x, c') \<Longrightarrow> \<exists>mb fl t. c_state c = Authenticated mb fl t" for cmd
    by (auto simp: validate_mailbox_def reject_def split: session_state.splits)
  have plain: "validate_plain srv cmd c = (Inr x, c') \<Longrightarrow>
      \<exists>n u. c_state c = NotAuthenticated n u \<and> (is_pass cmd \<longrightarrow> u \<noteq> None)" for cmd
    by (auto simp: validate_plain_def reject_def split: session_state.splits if_splits)
  show ?thesis unfolding st using assms
    by (cases cmd) (auto simp: is_pass_def dest!: mailbox plain)
qed

lemma sane_validate: "quiet srv \<Longrightarrow> sane (validate_request srv cmd c)"
proof -
  assume q: "quiet srv"
  have "sane (validate_mailbox srv cmd c)" for cmd
    using q by (auto simp: validate_mailbox_def reject_def split: session_state.split intro!: sane_intros quiet_calls)
  moreover have "sane (validate_plain srv cmd c)" "sane (validate_sasl cmd c)" for cmd
    by (simp_all add: validate_plain_def validate_sasl_def reject_def split: session_state.split)
  ultimately show ?thesis by (cases cmd) (simp_all add: reject_def)
qed

lemma sane_authenticate: "quiet srv \<Longrightarrow> sane (authenticate srv cred c)"
proof -
  assume "quiet srv"
  then have call: "sane (call (sv_authenticate srv cred) c)" by (intro sane_call quiet_calls)
  obtain v d where v: "call (sv_authenticate srv cred) c = (v, d)" by fastforce
  show ?thesis using call
    by (cases v) (auto simp: authenticate_def auth_failed_def v split: session_state.split)
qed

lemma sane_auth:
  fixes srv :: "('w, 't) server"
  assumes q: "quiet srv"
  shows "sane (handle_auth srv cred c)"
  unfolding handle_auth_def
proof (intro sane_bindh sane_authenticate sane_enforce q)
  fix t and c :: "('w, 't) conn"
  obtain l d where l: "call (sv_request_allowed srv t) c = (l, d)" by fastforce
  have "sane (bindh (call (sv_cached_messages srv a)) (\<lambda>cache c. write_ok srv m (f cache c)) d)" for a m f
    using q by (intro sane_intros quiet_calls)
  then show "sane (case call (sv_request_allowed srv t) c of
         (Forbidden, c) \<Rightarrow>
           (Inl \<lparr>f_kind = ConcurrentRequest, f_text = ''Too many concurrent requests''\<rparr>, c)
       | (allowed, c) \<Rightarrow>
           bindh (call (sv_cached_messages srv (sv_account_id srv t)))
             (\<lambda>cache c. write_ok srv ''Authentication successful''
                (c\<lparr>c_state := Authenticated (fetch_mailbox (sv_account_id srv t) cache) (allowed = Allowed) t\<rparr>)) c)"
    by (cases l) (simp_all add: l)
qed

lemma sane_if: "(b \<Longrightarrow> sane (f c)) \<Longrightarrow> (\<not> b \<Longrightarrow> sane (g c)) \<Longrightarrow> sane ((if b then f else g) c)"
  by simp

lemma sane_sasl: "quiet srv \<Longrightarrow> sane (handle_sasl srv mech ps c)"
  by (auto simp: handle_sasl_def split: option.split intro!: sane_auth sane_write)

lemma sane_quit: "quiet srv \<Longrightarrow> sane (handle_quit srv c)"
  by (auto simp: handle_quit_def Let_def split: session_state.split intro!: sane_intros sane_if quiet_calls split: prod.split)

lemma sane_commands:
  assumes "quiet srv" and "c_state c = Authenticated mb fl t"
  shows "sane (handle_stat srv c)" "sane (handle_list srv msg c)" "sane (handle_uidl srv msg c)"
    "sane (handle_fetch srv m n c)" "sane (handle_dele srv ms c)" "sane (handle_rset srv c)"
  using assms
  by (auto simp: handle_stat_def handle_list_def handle_uidl_def handle_fetch_def handle_dele_def handle_rset_def
      Let_def split: option.split prod.split intro!: sane_intros quiet_calls)

lemma sane_run_request:
  assumes q: "quiet srv"
  shows "sane (run_request srv (Inr cmd) c)"
proof -
  obtain v c1 where v: "validate_request srv cmd c = (v, c1)" by fastforce
  show ?thesis
  proof (cases v)
    case (Inl e)
    then show ?thesis using sane_validate [OF q, of cmd c] v by (simp add: run_request_Inr)
  next
    case (Inr x)
    then have expected: "expected cmd (c_state c1)" using validated_expected v by blast
    have "sane (run_command srv cmd c1)"
    proof (cases "c_state c1")
      case (NotAuthenticated n u)
      with expected show ?thesis
        by (cases cmd) (auto split: option.splits
            intro!: sane_go_on sane_quit sane_auth sane_sasl sane_write_ok sane_write q
            simp: handle_capa_def handle_stls_def handle_utf8_def Let_def)
    next
      case (Authenticated mb fl t)
      with expected sane_commands [OF q Authenticated] show ?thesis
        by (cases cmd) (auto intro!: sane_go_on sane_quit sane_auth sane_sasl sane_write_ok sane_write q
            simp: handle_capa_def handle_stls_def handle_utf8_def Let_def)
    qed
    then show ?thesis by (simp add: run_request_Inr v Inr)
  qed
qed

lemma go_on_result: "fst (go_on r p) = Inr r' \<Longrightarrow> r' = r"
  by (cases p) (auto simp: go_on_def split: sum.splits)

lemma run_request_result: "run_request srv r c = (Inr r', c') \<Longrightarrow> r' \<noteq> Panicked"
proof -
  have "fst (run_command srv cmd d) = Inr r' \<Longrightarrow> r' \<noteq> Panicked" for cmd d
    by (cases cmd) (auto dest: go_on_result simp: unreachable_def split: session_state.splits option.splits)
  then show "run_request srv r c = (Inr r', c') \<Longrightarrow> r' \<noteq> Panicked"
    by (cases r) (auto simp: run_request_def bindh_def split: prod.splits sum.splits, metis fst_conv)
qed

definition parse_failures_plain :: "request list \<Rightarrow> bool" where
  "parse_failures_plain rs \<longleftrightarrow> (\<forall>e. Inl e \<in> set rs \<longrightarrow> f_kind e \<noteq> Unreachable)"

lemma run_requests_no_panic:
  assumes q: "quiet srv" and "parse_failures_plain rs"
  shows "fst (run_requests srv rs c) \<noteq> Panicked"
  using assms(2)
proof (induction rs arbitrary: c)
  case (Cons r rs)
  obtain v c1 where run: "run_request srv r c = (v, c1)" by fastforce
  have rest: "parse_failures_plain rs" using Cons.prems by (simp add: parse_failures_plain_def)
  have sane: "sane (v, c1)"
    using sane_run_request [OF q] run Cons.prems
    by (cases r) (auto simp: run_request_def parse_failures_plain_def, metis)
  have result: "v \<noteq> Inr Panicked" using run_request_result [of srv r c] run by blast
  show ?case using Cons.IH [OF rest] sane result
    by (auto simp: run split: sum.split session_result.split prod.split bool.split) 
qed simp

lemma push_request_cases:
  obtains (append) "push_request rs cmd = rs @ [Inr cmd]"
    | (many) pre msgs msg where "rs = pre @ [Inr (DeleMany msgs)]" "cmd = Dele msg"
        "push_request rs cmd = pre @ [Inr (DeleMany (msgs @ [msg]))]"
    | (two) pre other msg where "rs = pre @ [Inr (Dele other)]" "cmd = Dele msg"
        "push_request rs cmd = pre @ [Inr (DeleMany [other, msg])]"
proof (cases "\<exists>msg. cmd = Dele msg")
  case False
  then have "push_request rs cmd = rs @ [Inr cmd]" by (cases cmd) (simp_all add: push_request_def)
  then show ?thesis by (rule append)
next
  case True
  then obtain msg where cmd: "cmd = Dele msg" ..
  show ?thesis
  proof (cases rs rule: rev_cases)
    case Nil
    then show ?thesis using append cmd by (simp add: push_request_def)
  next
    case (snoc pre r)
    have last: "last rs = r" "butlast rs = pre" "rs \<noteq> []" using snoc by simp_all
    then have push: "push_request rs cmd = (case r of Inl _ \<Rightarrow> rs @ [Inr cmd]
        | Inr (DeleMany msgs) \<Rightarrow> pre @ [Inr (DeleMany (msgs @ [msg]))]
        | Inr (Dele other) \<Rightarrow> pre @ [Inr (DeleMany [other, msg])] | _ \<Rightarrow> rs @ [Inr cmd])"
      by (cases rs) (simp_all add: push_request_def cmd cong: sum.case_cong command.case_cong)
    show ?thesis
    proof (cases r)
      case (Inr cmd')
      with push many two append snoc cmd show ?thesis by (cases cmd') simp_all
    qed (use push append in simp)
  qed
qed

lemma push_request_plain:
  "parse_failures_plain rs \<Longrightarrow> parse_failures_plain (push_request rs cmd)"
  by (cases rs cmd rule: push_request_cases) (auto simp: parse_failures_plain_def)

lemma collect_requests_plain:
  assumes "collect_requests srv bytes rs c = (Some rs', c')" and "parse_failures_plain rs"
  shows "parse_failures_plain rs'"
  using assms
proof (induction "length bytes" arbitrary: bytes rs c rule: less_induct)
  case less
  obtain r s rest where p: "parser_parse (c_receiver c) bytes = (r, s, rest)" by (metis surj_pair)
  note shorter = pop3.parse_consumes [OF p]
  have err: "parse_failures_plain (rs @ [Inl (pop3_error d)])" for d
    using less.prems(2) by (auto simp: parse_failures_plain_def pop3_error_def)
  show ?case
  proof (cases r)
    case None
    then show ?thesis using less.prems by (simp add: p collect_requests.simps [of srv bytes])
  next
    case (Some x)
    then have "length rest < length bytes" using shorter by simp
    note IH = less.hyps [OF this]
    from less.prems IH Some err push_request_plain show ?thesis
      by (auto simp: p collect_requests.simps [of srv bytes] split: sum.splits prod.splits bool.splits)
  qed
qed

lemma ingest_no_panic: "quiet srv \<Longrightarrow> fst (ingest srv bytes c) \<noteq> Panicked"
proof -
  assume q: "quiet srv"
  obtain v c1 where v: "collect_requests srv bytes [] c = (v, c1)" by fastforce
  have "v = Some rs \<Longrightarrow> parse_failures_plain rs" for rs
    using collect_requests_plain [of srv bytes "[]" c rs c1] v by (simp add: parse_failures_plain_def)
  with run_requests_no_panic [OF q] show ?thesis by (cases v) (simp_all add: ingest_def v)
qed

text \<open>A server with one account, for the concrete sessions below.\<close>

definition example_server :: "(unit, u32) server" where
  "example_server =
     \<lparr>sv_allow_plain_auth = True, sv_max_auth_failures = 3, sv_rate_requests = False,
      sv_acceptor_is_tls = True,
      sv_scanner_banned = (\<lambda>w. (Inr False, w)),
      sv_authenticate = (\<lambda>x w. (if x = Basic ''jo'' ''pw'' None then Inr 7
                                else Inl \<lparr>f_kind = AuthFailed, f_text = ''Authentication failed''\<rparr>, w)),
      sv_has_permission = (\<lambda>t p. True),
      sv_account_id = (\<lambda>t. t),
      sv_request_allowed = (\<lambda>t w. (Allowed, w)),
      sv_rate_allowed = (\<lambda>a w. (Inr True, w)),
      sv_cached_messages = (\<lambda>a w. (Inr \<lparr>mc_items =
        [\<lparr>cm_document_id = 30, cm_size = 100, cm_mailboxes = [(0, 5)]\<rparr>,
         \<lparr>cm_document_id = 31, cm_size = 20, cm_mailboxes = [(0, 2)]\<rparr>,
         \<lparr>cm_document_id = 32, cm_size = 9, cm_mailboxes = [(4, 1)]\<rparr>], mc_inbox_uid_validity = Some 1\<rparr>, w)),
      sv_metadata = (\<lambda>a i w. (Inr None, w)),
      sv_blob = (\<lambda>h w. (Inr None, w)),
      sv_emails_delete = (\<lambda>a ids w. (Inr (True, True), w)),
      sv_commit_batch = (\<lambda>w. (Inr (), w)),
      sv_write = (\<lambda>b w. (Inr (), w)),
      sv_base64_decode = (\<lambda>s. None),
      sv_jwt_email = (\<lambda>s. None)\<rparr>"

lemma example_quiet: "quiet example_server"
  by (simp add: quiet_def example_server_def)

text \<open>
  C4: no panic. If the rest of the server does not panic itself, no sequence of bytes, in
  whatever pieces the network delivers them and whatever state the connection is in, makes the
  session run into one of the \<open>unreachable!()\<close> and \<open>unwrap()\<close> of its commands:
  validation lets a command through only in the state it expects, also when earlier commands
  of the same read have changed that state.
\<close>

theorem pop3_no_panic:
  "quiet srv \<Longrightarrow> fst (handle_conn srv events c) \<noteq> Panicked"
proof (induction events arbitrary: c)
  case (Cons event events)
  show ?case
  proof (cases event)
    case (Read bytes)
    obtain result c1 where i: "ingest srv bytes c = (result, c1)" by fastforce
    then have "result \<noteq> Panicked" using ingest_no_panic [OF Cons.prems, of bytes c] by simp
    with Cons Read i show ?thesis by (cases result) simp_all
  qed simp_all
qed simp

theorem pop3_no_panic_witness:
  "quiet example_server \<and>
     fst (handle_conn example_server [Read (''PASS x'' @ crlf @ ''DELE 1'' @ crlf), Eof] (conn_new () False)) \<noteq> Panicked"
  using example_quiet pop3_no_panic [OF example_quiet] by blast

section \<open>Deletion marks over a session\<close>

text \<open>
  The abstract transaction state of RFC 1939: the marked indices, and the sets of messages
  whose deletion has been asked for so far.
\<close>

fun abs_request :: "bool \<Rightarrow> nat \<Rightarrow> request \<Rightarrow> nat set \<times> nat set list \<Rightarrow> nat set \<times> nat set list" where
  "abs_request permitted n (Inl e) (D, log) = (D, log)"
| "abs_request permitted n (Inr cmd) (D, log) =
     (abs_step permitted n cmd D, log @ (if cmd = Quit \<and> D \<noteq> {} then [D] else []))"

text \<open>The rate limiter answers.\<close>

definition rate_total :: "('w, 't) server \<Rightarrow> bool" where
  "rate_total srv \<longleftrightarrow> sv_rate_requests srv \<longrightarrow> (\<forall>a w. \<exists>b. fst (sv_rate_allowed srv a w) = Inr b)"

lemma unexecuted:
  assumes st: "c_state c = Authenticated mb fl t" and total: "rate_total srv" and no: "\<not> executed srv cmd c"
  shows "(\<forall>p n D. abs_step p n cmd D = D) \<or> fst (run_request srv (Inr cmd) c) = Inl too_many_requests"
proof -
  have "\<exists>c1. validate_mailbox srv cmd c = (Inr cmd, c1) \<or> validate_mailbox srv cmd c = (Inl too_many_requests, c1)" for cmd
  proof -
    obtain v c1 where v: "call (sv_rate_allowed srv (mb_account_id mb)) c = (v, c1)" by fastforce
    then have "sv_rate_requests srv \<Longrightarrow> \<exists>b. v = Inr b"
      using total by (auto simp: rate_total_def call_def split: prod.splits) (metis fst_conv)
    then show ?thesis using st by (auto simp: validate_mailbox_def bindh_def v)
  qed
  from this [of cmd] no show ?thesis
    by (cases cmd) (auto simp: executed_def run_request_def bindh_def split: prod.splits)
qed

lemma abs_fold_log: "fold (abs_request p n) rs (D, log) =
    (let (D', log') = fold (abs_request p n) rs (D, []) in (D', log @ log'))"
proof (induction rs arbitrary: D log)
  case (Cons r rs)
  obtain D1 l1 where step: "abs_request p n r (D, []) = (D1, l1)" by fastforce
  then have "abs_request p n r (D, log) = (D1, log @ l1)" by (cases r) (auto split: if_splits)
  then show ?case using step Cons [of D1 "log @ l1"] Cons [of D1 l1] by (simp split: prod.split)
qed simp

lemma same_mailbox_trans: "same_mailbox a b \<Longrightarrow> same_mailbox b c \<Longrightarrow> same_mailbox a c"
  by (simp add: same_mailbox_def same_messages_def)

lemma same_mailbox_length: "same_mailbox a b \<Longrightarrow> length (mb_messages a) = length (mb_messages b)"
  by (auto simp: same_mailbox_def intro: same_messages_length)

lemma same_mailbox_account: "same_mailbox a b \<Longrightarrow> mb_account_id a = mb_account_id b"
  unfolding same_mailbox_def by (metis mailbox.select_convs(2) mailbox.surjective mailbox.update_convs(1))

lemma same_mailbox_id:
  assumes "same_mailbox a b" and "i < length (mb_messages a)"
  shows "m_id (mb_messages a ! i) = m_id (mb_messages b ! i)"
proof -
  have "map (\<lambda>m. (m_id m, m_uid m, m_size m)) (mb_messages a) ! i = map (\<lambda>m. (m_id m, m_uid m, m_size m)) (mb_messages b) ! i"
    using assms(1) by (simp add: same_mailbox_def same_messages_def)
  then show ?thesis using assms same_mailbox_length [OF assms(1)] by simp
qed

definition ids_at :: "mailbox \<Rightarrow> nat set \<Rightarrow> u32 \<times> u32 set" where
  "ids_at mb D = (mb_account_id mb, (\<lambda>i. m_id (mb_messages mb ! i)) ` D)"

lemma ids_at_same: "same_mailbox a b \<Longrightarrow> D \<subseteq> {..<length (mb_messages a)} \<Longrightarrow> ids_at a D = ids_at b D"
  using same_mailbox_account [of a b] same_mailbox_id [of a b]
  by (auto simp: ids_at_def image_iff subset_iff)

lemma marks_bound: "marks ms \<subseteq> {..<length ms}"
  by (auto simp: marks_def)

lemma abs_step_bound: "D \<subseteq> {..<n} \<Longrightarrow> abs_step p n cmd D \<subseteq> {..<n}"
proof -
  have "D \<subseteq> {..<n} \<Longrightarrow> foldl (mark n) D msgs \<subseteq> {..<n}" for msgs
    by (induction msgs arbitrary: D) (auto simp: mark_index)
  then show "D \<subseteq> {..<n} \<Longrightarrow> abs_step p n cmd D \<subseteq> {..<n}" by (cases cmd) (auto simp: mark_index)
qed

lemma abs_fold_bound:
  "D \<subseteq> {..<n} \<Longrightarrow> E \<in> set (snd (fold (abs_request p n) rs (D, []))) \<Longrightarrow> E \<subseteq> {..<n}"
proof (induction rs arbitrary: D)
  case (Cons r rs)
  obtain D1 l1 where step: "abs_request p n r (D, []) = (D1, l1)" by fastforce
  then have D1: "D1 \<subseteq> {..<n}" "\<forall>E \<in> set l1. E = D"
    using Cons.prems(1) abs_step_bound [of D n p] by (cases r; auto split: if_splits)+
  have "E \<in> set l1 \<or> E \<in> set (snd (fold (abs_request p n) rs (D1, [])))"
    using Cons.prems(2) step abs_fold_log [of p n rs D1 l1] by (auto split: prod.splits)
  then show ?case using Cons.IH [OF D1(1)] D1(2) Cons.prems(1) by auto
qed simp

definition refines :: "('w, 't) server \<Rightarrow> request list \<Rightarrow> ('w, 't) conn \<Rightarrow> mailbox \<Rightarrow> bool \<Rightarrow> 't \<Rightarrow> ('w, 't) conn \<Rightarrow> bool" where
  "refines srv rs c mb fl t c' \<longleftrightarrow>
     (case fold (abs_request (sv_has_permission srv t Pop3Dele) (length (mb_messages mb))) rs (marks (mb_messages mb), []) of
        (D, log) \<Rightarrow> c_deletions c' = c_deletions c @ map (ids_at mb) log \<and>
          (\<exists>mb'. c_state c' = Authenticated mb' fl t \<and> same_mailbox mb mb' \<and> marks (mb_messages mb') = D))"

lemma refines_step:
  assumes one: "refines srv [r] c mb fl t c1" and st1: "c_state c1 = Authenticated mb1 fl t"
    and rest: "refines srv rs c1 mb1 fl t c2"
  shows "refines srv (r # rs) c mb fl t c2"
proof -
  let ?n = "length (mb_messages mb)" and ?p = "sv_has_permission srv t Pop3Dele"
  obtain D1 l1 where step: "abs_request ?p ?n r (marks (mb_messages mb), []) = (D1, l1)" by fastforce
  obtain D2 l2 where fold: "fold (abs_request ?p ?n) rs (D1, []) = (D2, l2)" by fastforce
  have same: "same_mailbox mb mb1" and D1: "marks (mb_messages mb1) = D1"
    and d1: "c_deletions c1 = c_deletions c @ map (ids_at mb) l1"
    using one st1 step by (simp_all add: refines_def)
  note n = same_mailbox_length [OF same]
  have "E \<subseteq> {..<?n}" if "E \<in> set l2" for E
    using abs_fold_bound [of D1 ?n E ?p rs] marks_bound [of "mb_messages mb1"] D1 n fold that by simp
  then have "map (ids_at mb1) l2 = map (ids_at mb) l2" using ids_at_same [OF same] by (simp del: lessThan_iff)
  then show ?thesis using rest D1 d1 same fold step abs_fold_log [of ?p ?n rs D1 l1]
    by (auto simp: refines_def n [symmetric] intro: same_mailbox_trans)
qed

lemma refines_nil: "c_state c' = Authenticated mb fl t \<Longrightarrow> c_deletions c' = c_deletions c \<Longrightarrow> refines srv [] c mb fl t c'"
  by (simp add: refines_def)

lemma refines_frame: "frame c1 c2 \<Longrightarrow> refines srv rs c mb fl t c1 \<Longrightarrow> refines srv rs c mb fl t c2"
  by (simp add: refines_def frame_def split: prod.splits)

lemma run_request_refines:
  assumes "c_state c = Authenticated mb fl t" and "rate_total srv"
  shows "refines srv [r] c mb fl t (snd (run_request srv r c)) \<or>
    fst (run_request srv r c) = Inl too_many_requests \<and> refines srv [] c mb fl t (snd (run_request srv r c))"
proof (cases r)
  case (Inl e)
  then show ?thesis using assms by (simp add: refines_def run_request_def)
next
  case (Inr cmd)
  show ?thesis
    using run_request_authenticated [OF assms(1), of srv cmd] unexecuted [OF assms, of cmd] Inr
    by (cases "marks (mb_messages mb) = {}") (auto simp: refines_def ids_at_def executed_def)
qed

lemma too_many_closes: "fst (write_err srv too_many_requests c) = False"
  by (auto simp: write_err_def too_many_requests_def should_write_err_def must_disconnect_def split: prod.split sum.split)

definition example_mailbox :: mailbox where
  "example_mailbox =
     \<lparr>mb_messages = [\<lparr>m_id = 31, m_uid = 2, m_size = 20, m_deleted = False\<rparr>,
                     \<lparr>m_id = 30, m_uid = 5, m_size = 100, m_deleted = False\<rparr>],
      mb_account_id = 7, mb_uid_validity = 1, mb_total = 2, mb_size = 120\<rparr>"

definition example_login :: "(unit, u32) conn" where
  "example_login = (conn_new () True)\<lparr>c_state := Authenticated example_mailbox True 7\<rparr>"

text \<open>
  C2: POP3 deletion marks. The requests that a logged-in session executes in a batch are a
  prefix of it: after them the marked messages are those of the abstract transaction state of
  RFC 1939 (\<open>DELE\<close> \<open>k\<close> marks the \<open>k\<close>th message, counted from 1, if there is one, and
  nothing else; \<open>DELE 0\<close>, which RFC 1939 does not allow, marks the first; \<open>RSET\<close> clears all
  marks, every other command and every malformed one keeps them), the mailbox is otherwise
  unchanged, the session stays logged in, and the only deletions it has asked the server
  for are, at each \<open>QUIT\<close>, the document ids of exactly the messages marked then. The
  prefix is the whole batch if the session goes on.
\<close>

theorem pop3_marks_refine:
  assumes "c_state c = Authenticated mb fl t" and "rate_total srv"
  shows "\<exists>ran left. rs = ran @ left \<and> refines srv ran c mb fl t (snd (run_requests srv rs c))
     \<and> (fst (run_requests srv rs c) = Continue \<longrightarrow> left = [])"
  using assms(1)
proof (induction rs arbitrary: c mb)
  case Nil
  then show ?case by (simp add: refines_nil)
next
  case (Cons r rs)
  obtain v c1 where run: "run_request srv r c = (v, c1)" by fastforce
  have again: "\<exists>ran left. r # rs = ran @ left \<and> refines srv ran c mb fl t (snd (run_requests srv rs c2))
      \<and> (fst (run_requests srv rs c2) = Continue \<longrightarrow> left = [])"
    if "frame c1 c2" and one: "refines srv [r] c mb fl t c1" for c2
  proof -
    from one obtain mb1 where st: "c_state c1 = Authenticated mb1 fl t" by (auto simp: refines_def split: prod.splits)
    then have st2: "c_state c2 = Authenticated mb1 fl t" using that(1) by (simp add: frame_def)
    obtain d l where "rs = d @ l" "refines srv d c2 mb1 fl t (snd (run_requests srv rs c2))"
      "fst (run_requests srv rs c2) = Continue \<longrightarrow> l = []" using Cons.IH [OF st2] by blast
    then show ?thesis using refines_step [OF refines_frame [OF that] st2] by (intro exI [of _ "r # d"] exI [of _ l]) simp
  qed
  have stop: "\<exists>ran left. r # rs = ran @ left \<and> refines srv ran c mb fl t c2"
    if "frame c1 c2" and "refines srv [r] c mb fl t c1 \<or> refines srv [] c mb fl t c1" for c2
    using that refines_frame [OF that(1)] by (metis append_Cons append_Nil)
  show ?case
  proof (cases v)
    case (Inr result)
    then have "refines srv [r] c mb fl t c1" using run_request_refines [OF Cons.prems assms(2), of r] run by auto
    with again [of c1] stop [of c1] Inr show ?thesis by (cases result) (auto simp: run)
  next
    case (Inl e)
    obtain b c2 where err: "write_err srv e c1 = (b, c2)" by fastforce
    then have fr: "frame c1 c2" using frame_write_err [of c1 srv e] by simp
    have "b \<Longrightarrow> e \<noteq> too_many_requests" using too_many_closes [of srv c1] err by auto
    then have "b \<Longrightarrow> refines srv [r] c mb fl t c1"
      using run_request_refines [OF Cons.prems assms(2), of r] run Inl by auto
    with again [OF fr] stop [OF fr] stop [of c1] run_request_refines [OF Cons.prems assms(2), of r] Inl
    show ?thesis by (cases b) (auto simp: run err)
  qed
qed

theorem pop3_marks_refine_witness:
  "\<exists>ran left. [Inr (Dele 2), Inr Noop, Inr Quit] = ran @ left
     \<and> refines example_server ran example_login example_mailbox True 7
         (snd (run_requests example_server [Inr (Dele 2), Inr Noop, Inr Quit] example_login))
     \<and> (fst (run_requests example_server [Inr (Dele 2), Inr Noop, Inr Quit] example_login) = Continue \<longrightarrow> left = [])"
  by (rule pop3_marks_refine) (simp_all add: example_login_def rate_total_def example_server_def)

text \<open>
  C15: login limits. However a connection goes, from its greeting to its end and through a TLS
  upgrade, the counter of failed logins never exceeds the configured limit, and a session is
  logged in only with the permission to use POP3 and with a well-formed mailbox: strictly
  increasing uids, the number of messages as its total and the sum of their sizes as its size.
  Failed logins are counted: where \<open>fails\<close> reads off the rest of the server how many credentials
  the directory has rejected, the counter is that number, or one less when the rejection beyond
  the limit has ended the session; so the directory rejects at most one more than the limit in a
  connection, and at most the limit before a login.
\<close>

theorem pop3_login_limit:
  "(case c_state (handle srv handshake events (conn_new w tls)) of
     NotAuthenticated n _ \<Rightarrow> n \<le> sv_max_auth_failures srv
   | Authenticated mb _ t \<Rightarrow> sv_has_permission srv t Pop3Authenticate \<and> mailbox_ok mb)
   \<and> (counts srv fails \<and> fails w = 0 \<longrightarrow>
       (let rejections = fails (c_world (handle srv handshake events (conn_new w tls))) in
        case c_state (handle srv handshake events (conn_new w tls)) of
          NotAuthenticated n _ \<Rightarrow>
            rejections = unat n \<or> n = sv_max_auth_failures srv \<and> rejections = unat n + 1
        | Authenticated _ _ _ \<Rightarrow> rejections \<le> unat (sv_max_auth_failures srv)))"
  using bound.session [of srv "conn_new w tls" handshake events] session_counts [of srv fails w handshake events tls]
  by (auto simp: session_ok_def conn_new_def live_def spent_def Let_def split: session_state.splits)

text \<open>A server that counts the credentials that it rejects.\<close>

definition counting_server :: "(nat, u32) server" where
  "counting_server =
     \<lparr>sv_allow_plain_auth = True, sv_max_auth_failures = 1, sv_rate_requests = False,
      sv_acceptor_is_tls = True,
      sv_scanner_banned = (\<lambda>w. (Inr False, w)),
      sv_authenticate = (\<lambda>x w. (Inl \<lparr>f_kind = AuthFailed, f_text = ''Authentication failed''\<rparr>, w + 1)),
      sv_has_permission = (\<lambda>t p. True),
      sv_account_id = (\<lambda>t. t),
      sv_request_allowed = (\<lambda>t w. (Allowed, w)),
      sv_rate_allowed = (\<lambda>a w. (Inr True, w)),
      sv_cached_messages = (\<lambda>a w. (Inr \<lparr>mc_items = [], mc_inbox_uid_validity = None\<rparr>, w)),
      sv_metadata = (\<lambda>a i w. (Inr None, w)),
      sv_blob = (\<lambda>h w. (Inr None, w)),
      sv_emails_delete = (\<lambda>a ids w. (Inr (True, True), w)),
      sv_commit_batch = (\<lambda>w. (Inr (), w)),
      sv_write = (\<lambda>b w. (Inr (), w)),
      sv_base64_decode = (\<lambda>s. None),
      sv_jwt_email = (\<lambda>s. None)\<rparr>"

theorem pop3_login_limit_witness:
  "case c_state (handle counting_server True [Read (''USER jo'' @ crlf @ ''PASS a'' @ crlf), Eof] (conn_new 0 True)) of
     NotAuthenticated n _ \<Rightarrow>
       n \<le> 1 \<and> c_world (handle counting_server True [Read (''USER jo'' @ crlf @ ''PASS a'' @ crlf), Eof] (conn_new 0 True))
         \<in> {unat n, unat n + 1}
   | Authenticated _ _ _ \<Rightarrow> True"
proof -
  have "counts counting_server id" by (simp add: counts_def counting_server_def rejected_def)
  with pop3_login_limit [of counting_server True "[Read (''USER jo'' @ crlf @ ''PASS a'' @ crlf), Eof]" 0 True id]
  show ?thesis by (auto simp: Let_def counting_server_def split: session_state.splits)
qed

text \<open>
  C16: no deletion without a login. If the server accepts no credentials, no sequence of
  bytes logs the session in or makes it delete a message.
\<close>

theorem pop3_no_login_no_deletion:
  assumes "locked_out srv"
  shows "c_deletions (handle srv handshake events (conn_new w tls)) = []
     \<and> (\<exists>n u. c_state (handle srv handshake events (conn_new w tls)) = NotAuthenticated n u)"
  using outside.session [of srv "conn_new w tls" handshake events] assms
  by (auto simp: kept_out_def conn_new_def split: session_state.splits)

definition closed_server :: "(unit, u32) server" where
  "closed_server = example_server\<lparr>sv_authenticate :=
     (\<lambda>x w. (Inl \<lparr>f_kind = AuthFailed, f_text = ''Authentication failed''\<rparr>, w))\<rparr>"

theorem pop3_no_login_no_deletion_witness:
  "c_deletions (handle closed_server True
      [Read (''STLS'' @ crlf), Read (''USER jo'' @ crlf @ ''PASS pw'' @ crlf @ ''DELE 1'' @ crlf @ ''QUIT'' @ crlf)]
      (conn_new () False)) = []"
  using pop3_no_login_no_deletion [of closed_server True
      "[Read (''STLS'' @ crlf), Read (''USER jo'' @ crlf @ ''PASS pw'' @ crlf @ ''DELE 1'' @ crlf @ ''QUIT'' @ crlf)]" "()" False]
  by (simp add: locked_out_def closed_server_def)

section \<open>Grouped deletions\<close>

fun request_of :: "reason + pop3_command \<Rightarrow> request" where
  "request_of (Inl reason) = Inl (pop3_error (reason_text reason))"
| "request_of (Inr cmd) = Inr cmd"

text \<open>
  A network that accepts every write (and a write changes nothing else in the server), no rate
  limit, and the right to delete.
\<close>

definition smooth :: "('w, 't) server \<Rightarrow> 't \<Rightarrow> bool" where
  "smooth srv t \<longleftrightarrow> \<not> sv_rate_requests srv \<and> sv_has_permission srv t Pop3Dele
     \<and> (\<forall>b w. sv_write srv b w = (Inr (), w))"

lemma dele_loop_append:
  "dele_loop (a @ b) ms r = (case dele_loop a ms r of (r1, ms1) \<Rightarrow> dele_loop b ms1 r1)"
  by (induction a arbitrary: ms r) (simp_all add: Let_def)

lemma dele_loop_response: "dele_loop msgs ms r = (r @ fst (dele_loop msgs ms []), snd (dele_loop msgs ms []))"
proof (induction msgs arbitrary: ms r)
  case (Cons msg msgs)
  define i where "i = message_index msg"
  consider "i < length ms" "\<not> m_deleted (ms ! i)" | "i < length ms" "m_deleted (ms ! i)" | "\<not> i < length ms" by blast
  then show ?case
  proof cases
    case 1
    let ?ms = "ms[i := (ms ! i)\<lparr>m_deleted := True\<rparr>]"
    let ?line = "''+OK message '' @ show_u32 msg @ '' deleted'' @ crlf"
    have "dele_loop (msg # msgs) ms r = dele_loop msgs ?ms (r @ ?line)" for r
      using 1 by (simp add: Let_def i_def)
    then show ?thesis using Cons [of ?ms "r @ ?line"] Cons [of ?ms ?line] by simp
  next
    case 2
    let ?line = "''-ERR message '' @ show_u32 msg @ '' already deleted'' @ crlf"
    have "dele_loop (msg # msgs) ms r = dele_loop msgs ms (r @ ?line)" for r
      using 2 by (simp add: Let_def i_def)
    then show ?thesis using Cons [of ms "r @ ?line"] Cons [of ms ?line] by simp
  next
    case 3
    let ?line = "''-ERR no such message'' @ crlf"
    have "dele_loop (msg # msgs) ms r = dele_loop msgs ms (r @ ?line)" for r
      using 3 by (simp add: Let_def i_def)
    then show ?thesis using Cons [of ms "r @ ?line"] Cons [of ms ?line] by simp
  qed
qed simp

lemma smooth_dele:
  assumes "smooth srv t" and "c_state c = Authenticated mb fl t"
  shows "run_request srv (Inr (DeleMany msgs)) c =
     (case dele_loop msgs (mb_messages mb) [] of
        (r, ms) \<Rightarrow> (Inr Continue, c\<lparr>c_state := Authenticated (mb\<lparr>mb_messages := ms\<rparr>) fl t, c_sent := c_sent c @ r\<rparr>))"
    and "run_request srv (Inr (Dele msg)) c = run_request srv (Inr (DeleMany [msg])) c"
  using assms
  by (simp_all add: smooth_def run_request_def bindh_def validate_mailbox_def handle_dele_def enforce_permission_def
      write_bytes_def call_def go_on_def split: prod.split)

lemma run_requests_append:
  "run_requests srv (a @ b) c =
     (case run_requests srv a c of (Continue, c') \<Rightarrow> run_requests srv b c' | r \<Rightarrow> r)"
  by (induction srv a c rule: run_requests.induct)
    (auto split: prod.split sum.split session_result.split bool.split)

lemma smooth_many:
  assumes "smooth srv t" and st: "c_state c = Authenticated mb fl t"
  shows "run_requests srv [Inr (DeleMany (a @ b))] c = run_requests srv [Inr (DeleMany a), Inr (DeleMany b)] c"
proof -
  obtain r1 ms1 where one: "dele_loop a (mb_messages mb) [] = (r1, ms1)" by fastforce
  obtain r2 ms2 where two: "dele_loop b ms1 [] = (r2, ms2)" by fastforce
  then have "dele_loop b ms1 r1 = (r1 @ r2, ms2)" by (subst dele_loop_response) simp
  then show ?thesis
    using smooth_dele(1) [OF assms(1)] st one two by (simp add: dele_loop_append)
qed

definition add_request :: "request list \<Rightarrow> reason + pop3_command \<Rightarrow> request list" where
  "add_request rs r = (case r of Inl _ \<Rightarrow> rs @ [request_of r] | Inr cmd \<Rightarrow> push_request rs cmd)"

text \<open>Scanners are looked for only before a login, and only when a command is malformed.\<close>

definition unsuspected :: "('w, 't) conn \<Rightarrow> (reason + pop3_command) list \<Rightarrow> bool" where
  "unsuspected c rs \<longleftrightarrow> (\<exists>mb fl t. c_state c = Authenticated mb fl t) \<or> list_all (\<lambda>r. \<not> isl r) rs"

lemma collect_unsuspected:
  assumes "unsuspected c rs" and "parse_all (c_receiver c) bytes = (rs, s)"
  shows "collect_requests srv bytes acc c = (Some (foldl add_request acc rs), c\<lparr>c_receiver := s\<rparr>)"
  using assms
proof (induction "length bytes" arbitrary: bytes acc c rs rule: less_induct)
  case less
  obtain r s1 rest where p: "parser_parse (c_receiver c) bytes = (r, s1, rest)" by (metis surj_pair)
  note shorter = pop3.parse_consumes [OF p]
  show ?case
  proof (cases r)
    case None
    then show ?thesis using less.prems(2)
      by (simp add: p collect_requests.simps [of srv bytes] parse_all.simps [of "c_receiver c"])
  next
    case (Some x)
    then have short: "length rest < length bytes" using shorter by simp
    obtain rs1 where rest: "parse_all s1 rest = (rs1, s)" and rs: "rs = x # rs1"
      using less.prems(2) Some by (auto simp: p parse_all.simps [of "c_receiver c"] split: prod.splits)
    let ?c = "c\<lparr>c_receiver := s1\<rparr>"
    have "unsuspected ?c rs1" using less.prems(1) rs by (auto simp: unsuspected_def)
    from less.hyps [OF short this] rest
    have "collect_requests srv rest acc' ?c = (Some (foldl add_request acc' rs1), ?c\<lparr>c_receiver := s\<rparr>)" for acc'
      by simp
    moreover have "isl x \<Longrightarrow> scanner_check srv ?c = (False, ?c)"
      using less.prems(1) rs by (auto simp: scanner_check_def unsuspected_def)
    ultimately show ?thesis using Some rs
      by (subst collect_requests.simps) (simp add: p add_request_def split: sum.split)
  qed
qed

lemma run_requests_login:
  "c_state c = Authenticated mb fl t \<Longrightarrow> \<exists>mb'. c_state (snd (run_requests srv rs c)) = Authenticated mb' fl t"
proof (induction rs arbitrary: c mb)
  case (Cons r rs)
  obtain v c1 where run: "run_request srv r c = (v, c1)" by fastforce
  have "\<exists>mb'. c_state c1 = Authenticated mb' fl t"
    using run_request_authenticated [OF Cons.prems, of srv] run Cons.prems
    by (cases r) (auto simp: run_request_def, metis snd_conv)
  then obtain mb1 where st: "c_state c1 = Authenticated mb1 fl t" ..
  have err: "c_state (snd (write_err srv e c1)) = Authenticated mb1 fl t" for e
    using frame_write_err [of c1 srv e] st by (simp add: frame_def)
  show ?case using Cons.IH [OF st] Cons.IH err st
    by (auto simp: run split: sum.split session_result.split bool.split prod.split) (metis snd_conv)+
qed simp

lemma run_requests_snoc:
  assumes "\<And>c' mb'. c_state c' = Authenticated mb' fl t \<Longrightarrow> run_requests srv a c' = run_requests srv b c'"
    and "c_state c = Authenticated mb fl t"
  shows "run_requests srv (pre @ a @ post) c = run_requests srv (pre @ b @ post) c"
proof -
  obtain v c1 where v: "run_requests srv pre c = (v, c1)" by fastforce
  then obtain mb1 where "c_state c1 = Authenticated mb1 fl t" using run_requests_login [OF assms(2), of srv pre] by auto
  from assms(1) [OF this] show ?thesis by (cases v) (simp_all add: run_requests_append v)
qed

lemma add_request_run:
  assumes "smooth srv t" and st: "c_state c = Authenticated mb fl t"
  shows "run_requests srv (add_request rs r @ post) c = run_requests srv (rs @ request_of r # post) c"
proof (cases r)
  case (Inr cmd)
  have single: "run_requests srv [x, Inr (DeleMany [msg])] c' = run_requests srv [x, Inr (Dele msg)] c'"
    if "c_state c' = Authenticated mb' fl t" for x msg c' mb'
    using run_requests_snoc [of fl t srv "[Inr (DeleMany [msg])]" "[Inr (Dele msg)]" c' mb' "[x]" "[]"]
      smooth_dele(2) [OF assms(1)] that by simp
  show ?thesis
  proof (cases rs cmd rule: push_request_cases)
    case append
    then show ?thesis by (simp add: add_request_def Inr)
  next
    case (many pre msgs msg)
    with run_requests_snoc [OF _ st, of srv "[Inr (DeleMany (msgs @ [msg]))]" "[Inr (DeleMany msgs), Inr (Dele msg)]" pre post]
      smooth_many [OF assms(1), of _ _ fl msgs "[msg]"] single
    show ?thesis by (simp add: add_request_def Inr)
  next
    case (two pre other msg)
    have "run_requests srv [Inr (DeleMany [other, msg])] c' = run_requests srv [Inr (Dele other), Inr (Dele msg)] c'"
      if "c_state c' = Authenticated mb' fl t" for c' mb'
      using smooth_many [OF assms(1) that, of "[other]" "[msg]"] single [OF that] smooth_dele(2) [OF assms(1) that] by simp
    with run_requests_snoc [OF _ st, of srv "[Inr (DeleMany [other, msg])]" "[Inr (Dele other), Inr (Dele msg)]" pre post] two
    show ?thesis by (simp add: add_request_def Inr)
  qed
qed (simp add: add_request_def)

lemma grouped_run:
  assumes "smooth srv t" and "c_state c = Authenticated mb fl t"
  shows "run_requests srv (foldl add_request acc rs) c = run_requests srv (acc @ map request_of rs) c"
proof (induction rs arbitrary: acc)
  case (Cons r rs)
  then show ?case using add_request_run [OF assms, of acc r "map request_of rs"] by simp
qed simp

text \<open>
  C17: grouping is invisible. The server answers the \<open>DELE\<close> commands that follow each other
  in one read together. For a logged-in session with the right to delete, on a server without a
  rate limit for requests (a group takes one token of it, so there the grouping shows) and on a
  network whose writes succeed and change nothing else, this has exactly the effect, on the replies, the marks and everything else, of executing what was parsed
  command by command.
\<close>

theorem pop3_grouping_transparent:
  assumes "smooth srv t" and "c_state c = Authenticated mb fl t"
    and "parse_all (c_receiver c) bytes = (rs, s)"
  shows "ingest srv bytes c = run_requests srv (map request_of rs) (c\<lparr>c_receiver := s\<rparr>)"
proof -
  have "unsuspected c rs" using assms(2) by (simp add: unsuspected_def)
  from collect_unsuspected [OF this assms(3), of srv "[]"] show ?thesis
    using grouped_run [OF assms(1), of "c\<lparr>c_receiver := s\<rparr>" mb fl "[]" rs] assms(2) by (simp add: ingest_def)
qed

theorem pop3_grouping_transparent_witness:
  "ingest example_server (command_line (Dele 1) @ command_line (Dele 2)) example_login
     = run_requests example_server (map request_of (fst (parse_all Init (command_line (Dele 1) @ command_line (Dele 2)))))
         (example_login\<lparr>c_receiver := snd (parse_all Init (command_line (Dele 1) @ command_line (Dele 2)))\<rparr>)"
  by (rule pop3_grouping_transparent [of _ 7 _ example_mailbox True])
    (simp_all add: smooth_def example_server_def example_login_def conn_new_def)

section \<open>The upgrade to TLS\<close>

lemma first_request_stays:
  assumes "\<And>msg. x \<noteq> Inr (Dele msg)" and "\<And>msgs. x \<noteq> Inr (DeleMany msgs)"
  shows "\<exists>ys. foldl add_request (x # acc) rs = x # ys"
proof (induction rs arbitrary: acc)
  case (Cons r rs)
  have "\<exists>acc'. add_request (x # acc) r = x # acc'"
  proof (cases r)
    case (Inr cmd)
    then show ?thesis using assms
      by (cases "x # acc" cmd rule: push_request_cases) (auto simp: add_request_def Cons_eq_append_conv)
  qed (simp add: add_request_def)
  with Cons show ?case by auto
qed simp

text \<open>
  C37: \<open>STLS\<close> keeps the parser. What a client sends after \<open>STLS\<close> in the same
  plaintext read is not discarded: whole commands are dropped, but the state of the parser after
  them, that is the beginning of an unfinished command, is where the encrypted part of the
  session starts, and the user name given before the upgrade is still in force.
\<close>

theorem pop3_stls_keeps_parser:
  assumes "c_receiver c = Init" and "\<not> c_tls c" and "c_state c = NotAuthenticated n u"
    and "\<And>b w. sv_write srv b w = (Inr (), w)"
    and "list_all (\<lambda>r. \<not> isl r) (fst (parse_all Init rest))"
  shows "\<exists>c'. ingest srv (command_line Stls @ rest) c = (UpgradeTls, c')
     \<and> c_receiver (into_tls c') = snd (parse_all Init rest) \<and> c_state (into_tls c') = NotAuthenticated n u"
proof -
  obtain rs s where rest: "parse_all Init rest = (rs, s)" by fastforce
  have "parse_all Init (command_line Stls @ rest) = (Inr Stls # rs, s)"
    using feed_command_lines [of "[Stls]"] rest by (simp add: parse_all_feed pop3.feed_append)
  moreover have "unsuspected c (Inr Stls # rs)" using assms(5) rest by (simp add: unsuspected_def)
  ultimately have "collect_requests srv (command_line Stls @ rest) [] c =
      (Some (foldl add_request [Inr Stls] rs), c\<lparr>c_receiver := s\<rparr>)"
    using collect_unsuspected [of c "Inr Stls # rs" "command_line Stls @ rest" s srv "[]"] assms(1)
    by (simp add: add_request_def push_request_def)
  moreover obtain ys where "foldl add_request [Inr Stls] rs = Inr Stls # ys"
    using first_request_stays [of "Inr Stls" "[]" rs] by auto
  ultimately show ?thesis using assms(2,3) rest
    by (simp add: ingest_def run_request_def bindh_def go_on_def handle_stls_def write_ok_def write_bytes_def call_def assms(4) into_tls_def)
qed

theorem pop3_stls_keeps_parser_witness:
  "\<exists>c'. ingest example_server (command_line Stls @ ''USER eve'') (conn_new () False) = (UpgradeTls, c')
     \<and> c_receiver (into_tls c') = snd (parse_all Init ''USER eve'') \<and> c_state (into_tls c') = NotAuthenticated 0 None"
proof -
  have "fst (parse_all Init ''USER eve'') = []" by code_simp
  then show ?thesis
    by (intro pop3_stls_keeps_parser) (simp_all add: conn_new_def example_server_def)
qed

end
