(* ===== verification/Imap_Receiver.thy ===== *)
theory Imap_Receiver
  imports Prelude
begin

text \<open>
  \<^verbatim>\<open>crates/imap-proto/src/receiver.rs\<close>: the receiver that IMAP and ManageSieve share. It
  splits the byte stream into requests: a tag, a command, and tokens (atoms, quoted strings,
  literals, punctuation). The commands of a protocol are the record \<open>command_parser\<close>
  (the trait \<open>CommandParser\<close>), given for IMAP and ManageSieve below.
\<close>

section \<open>Tokens\<close>

datatype token =
    Argument string
  | ParenthesisOpen | ParenthesisClose | BracketOpen | BracketClose | Lt | Gt | Dot
  | NilToken

fun token_as_bytes :: "token \<Rightarrow> string" where
  "token_as_bytes (Argument v) = v"
| "token_as_bytes ParenthesisOpen = ''(''"
| "token_as_bytes ParenthesisClose = '')''"
| "token_as_bytes BracketOpen = ''[''"
| "token_as_bytes BracketClose = '']''"
| "token_as_bytes Gt = ''>''"
| "token_as_bytes Lt = ''<''"
| "token_as_bytes Dot = ''.''"
| "token_as_bytes NilToken = []"

text \<open>\<open>unwrap_string\<close>: \<^term>\<open>None\<close> for bytes that are not UTF-8.\<close>

fun token_unwrap_string :: "token \<Rightarrow> string option" where
  "token_unwrap_string (Argument v) = (if utf8_valid v then Some v else None)"
| "token_unwrap_string t = Some (utf8_lossy (token_as_bytes t))"

fun token_unwrap_bytes :: "token \<Rightarrow> string" where
  "token_unwrap_bytes (Argument v) = v"
| "token_unwrap_bytes t = token_as_bytes t"

fun token_eq_ignore_ascii_case :: "token \<Rightarrow> string \<Rightarrow> bool" where
  "token_eq_ignore_ascii_case (Argument v) bytes = eq_ignore_ascii_case v bytes"
| "token_eq_ignore_ascii_case ParenthesisOpen bytes = (bytes = ''('')"
| "token_eq_ignore_ascii_case ParenthesisClose bytes = (bytes = '')'')"
| "token_eq_ignore_ascii_case BracketOpen bytes = (bytes = ''['')"
| "token_eq_ignore_ascii_case BracketClose bytes = (bytes = '']'')"
| "token_eq_ignore_ascii_case Gt bytes = (bytes = ''>'')"
| "token_eq_ignore_ascii_case Lt bytes = (bytes = ''<'')"
| "token_eq_ignore_ascii_case Dot bytes = (bytes = ''.'')"
| "token_eq_ignore_ascii_case NilToken bytes = (bytes = [])"

section \<open>State\<close>

record 'c command_parser =
  cp_parse :: "string \<Rightarrow> bool \<Rightarrow> 'c option"
  cp_tokenize_brackets :: "'c \<Rightarrow> bool"
  cp_default :: 'c

record 'c request =
  rq_tag :: string
  rq_command :: 'c
  rq_tokens :: "token list"

text \<open>The texts of the error responses, with the data they quote.\<close>

datatype message =
    RequestTooLarge nat | TagNotUtf8 | MissingCommand string | TagTooLong | CommandTooLong
  | UnrecognizedCommand string | InvalidCommandChar char | ArgumentTooLong | QuotedTooLong
  | UnterminatedQuoted | LiteralSizeInvalid | LiteralTooLarge nat | EmptyLiteral
  | InvalidNonSync | LiteralDigits | InvalidLiteral | InvalidLiteralChar char | ExpectedCRLF

text \<open>An error with the tag it answers, or the continuation request for a literal.\<close>

datatype receiver_error =
    NeedsLiteral u32
  | Failed "string option" message

datatype receiver_state =
    Start
  | Tag
  | Command bool
  | Arg char
  | ArgumentQuoted bool
  | Literal bool
  | LiteralSeek u32 bool
  | LiteralData u32

text \<open>Sizes are \<open>usize\<close> counters below \<open>max_request_size\<close> plus \<open>2 ^ 32\<close>.\<close>

record 'c receiver =
  rv_buf :: string
  rv_request :: "'c request"
  rv_state :: receiver_state
  rv_max :: nat
  rv_size :: nat
  rv_start :: receiver_state

definition ARG_MAX_LEN :: nat where
  "ARG_MAX_LEN = 8000"

definition request_default :: "'c command_parser \<Rightarrow> 'c request" where
  "request_default cp = \<lparr>rq_tag = [], rq_command = cp_default cp, rq_tokens = []\<rparr>"

definition with_max_request_size :: "'c command_parser \<Rightarrow> nat \<Rightarrow> 'c receiver" where
  "with_max_request_size cp n =
     \<lparr>rv_buf = [], rv_request = request_default cp, rv_state = Start, rv_max = n, rv_size = 0, rv_start = Start\<rparr>"

definition receiver_new :: "'c command_parser \<Rightarrow> 'c receiver" where
  "receiver_new cp = with_max_request_size cp (25 * 1024 * 1024)"

definition with_start_state :: "receiver_state \<Rightarrow> 'c receiver \<Rightarrow> 'c receiver" where
  "with_start_state st r = r\<lparr>rv_state := st, rv_start := st\<rparr>"

type_synonym 'c outcome = "'c receiver \<times> (receiver_error + 'c request) option"

section \<open>The receiver\<close>

definition error_reset :: "'c command_parser \<Rightarrow> message \<Rightarrow> 'c receiver \<Rightarrow> 'c outcome" where
  "error_reset cp m r =
     (r\<lparr>rv_request := request_default cp, rv_buf := [], rv_state := rv_start r, rv_size := 0\<rparr>,
      Some (Inl (Failed (if rq_tag (rv_request r) \<noteq> [] then Some (rq_tag (rv_request r)) else None) m)))"

text \<open>\<open>?\<close>: an error or a finished request ends the step.\<close>

definition andthen :: "'c outcome \<Rightarrow> ('c receiver \<Rightarrow> 'c outcome) \<Rightarrow> 'c outcome" where
  "andthen x k = (case x of (r, None) \<Rightarrow> k r | (r, Some e) \<Rightarrow> (r, Some e))"

definition ret :: "'c receiver \<Rightarrow> 'c outcome" where
  "ret r = (r, None)"

definition goto :: "receiver_state \<Rightarrow> 'c receiver \<Rightarrow> 'c outcome" where
  "goto st r = ret (r\<lparr>rv_state := st\<rparr>)"

definition append_token :: "token \<Rightarrow> 'c receiver \<Rightarrow> 'c receiver" where
  "append_token t r = r\<lparr>rv_request := (rv_request r)\<lparr>rq_tokens := rq_tokens (rv_request r) @ [t]\<rparr>\<rparr>"

definition push_checked :: "'c command_parser \<Rightarrow> char \<Rightarrow> nat \<Rightarrow> message \<Rightarrow> 'c receiver \<Rightarrow> 'c outcome" where
  "push_checked cp b limit m r =
     (if length (rv_buf r) < limit then ret (r\<lparr>rv_buf := rv_buf r @ [b]\<rparr>) else error_reset cp m r)"

definition push_unchecked :: "char \<Rightarrow> 'c receiver \<Rightarrow> 'c receiver" where
  "push_unchecked b r = r\<lparr>rv_buf := rv_buf r @ [b]\<rparr>"

definition push_argument :: "'c command_parser \<Rightarrow> bool \<Rightarrow> 'c receiver \<Rightarrow> 'c outcome" where
  "push_argument cp in_quote r =
     (if rv_buf r \<noteq> [] then
        (let r = r\<lparr>rv_size := rv_size r + length (rv_buf r)\<rparr>
         in if rv_size r > rv_max r then error_reset cp (RequestTooLarge (rv_max r)) r
            else ret ((append_token (Argument (rv_buf r)) r)\<lparr>rv_buf := []\<rparr>))
      else if in_quote then ret (append_token NilToken r)
      else ret r)"

definition push_token :: "'c command_parser \<Rightarrow> token \<Rightarrow> 'c receiver \<Rightarrow> 'c outcome" where
  "push_token cp t r =
     (let r = r\<lparr>rv_size := rv_size r + 1\<rparr>
      in if rv_size r > rv_max r then error_reset cp (RequestTooLarge (rv_max r)) r
         else ret (append_token t r))"

text \<open>\<open>as_str\<close>\<close>

definition buf_as_str :: "string \<Rightarrow> string" where
  "buf_as_str b = (if utf8_valid b then b else [])"

definition finish :: "'c command_parser \<Rightarrow> 'c receiver \<Rightarrow> 'c outcome" where
  "finish cp r =
     (r\<lparr>rv_state := rv_start r, rv_size := 0, rv_request := request_default cp\<rparr>, Some (Inr (rv_request r)))"

text \<open>Punctuation: the argument before it ends, then it is a token.\<close>

definition punctuation :: "'c command_parser \<Rightarrow> token \<Rightarrow> 'c receiver \<Rightarrow> 'c outcome" where
  "punctuation cp t r = andthen (push_argument cp False r) (push_token cp t)"

definition step_tag :: "'c command_parser \<Rightarrow> char \<Rightarrow> 'c receiver \<Rightarrow> 'c outcome" where
  "step_tag cp ch r =
     (if ch = SP then
        (if rv_buf r \<noteq> [] then
           (let r' = r\<lparr>rv_buf := []\<rparr>
            in if utf8_valid (rv_buf r)
               then goto (Command False) (r'\<lparr>rv_request := (rv_request r)\<lparr>rq_tag := rv_buf r\<rparr>\<rparr>)
               else error_reset cp TagNotUtf8 r')
         else ret r)
      else if ch = TAB \<or> ch = CR then ret r
      else if ch = LF then error_reset cp (MissingCommand (buf_as_str (rv_buf r))) r
      else push_checked cp ch 128 TagTooLong r)"

definition step_command :: "'c command_parser \<Rightarrow> bool \<Rightarrow> char \<Rightarrow> 'c receiver \<Rightarrow> 'c outcome" where
  "step_command cp is_uid ch r =
     (if is_ascii_alphanumeric ch then push_checked cp (to_ascii_uppercase ch) 15 CommandTooLong r
      else if is_ascii_whitespace ch then
        (if rv_buf r \<noteq> [] then
           (if \<not> eq_ignore_ascii_case (rv_buf r) ''UID'' then
              (case cp_parse cp (rv_buf r) is_uid of
                 None \<Rightarrow> error_reset cp (UnrecognizedCommand (utf8_lossy (rv_buf r))) r
               | Some command \<Rightarrow>
                   (let r = r\<lparr>rv_request := (rv_request r)\<lparr>rq_command := command\<rparr>, rv_buf := []\<rparr>
                    in if ch \<noteq> LF then goto (Arg SP) r else finish cp r))
            else goto (Command True) (r\<lparr>rv_buf := []\<rparr>))
         else ret r)
      else error_reset cp (InvalidCommandChar ch) r)"

definition step_argument :: "'c command_parser \<Rightarrow> char \<Rightarrow> char \<Rightarrow> 'c receiver \<Rightarrow> 'c outcome" where
  "step_argument cp last_ch ch r =
     (let brackets = cp_tokenize_brackets cp (rq_command (rv_request r))
      in if ch = DQUOTE \<and> is_ascii_whitespace last_ch then
           andthen (push_argument cp False r) (goto (ArgumentQuoted False))
         else if ch = CHR ''{'' \<and> (is_ascii_whitespace last_ch \<or> last_ch = CHR ''~'' \<and> length (rv_buf r) = 1) then
           (if last_ch \<noteq> CHR ''~'' then andthen (push_argument cp False r) (goto (Literal False))
            else goto (Literal False) (r\<lparr>rv_buf := []\<rparr>))
         else if ch = CHR ''('' then punctuation cp ParenthesisOpen r
         else if ch = CHR '')'' then punctuation cp ParenthesisClose r
         else if ch = CHR ''['' \<and> brackets then punctuation cp BracketOpen r
         else if ch = CHR '']'' \<and> brackets then punctuation cp BracketClose r
         else if ch = CHR ''<'' \<and> brackets then punctuation cp Lt r
         else if ch = CHR ''>'' \<and> brackets then punctuation cp Gt r
         else if ch = CHR ''.'' \<and> brackets then punctuation cp Dot r
         else if ch = LF then andthen (push_argument cp False r) (finish cp)
         else if is_ascii_whitespace ch then andthen (push_argument cp False r) (goto (Arg ch))
         else andthen (push_checked cp ch ARG_MAX_LEN ArgumentTooLong r) (goto (Arg ch)))"

definition step_quoted :: "'c command_parser \<Rightarrow> bool \<Rightarrow> char \<Rightarrow> 'c receiver \<Rightarrow> 'c outcome" where
  "step_quoted cp escaped ch r =
     (let push = push_checked cp ch ARG_MAX_LEN QuotedTooLong
      in if ch = DQUOTE then
           (if \<not> escaped then andthen (push_argument cp True r) (goto (Arg SP))
            else andthen (push r) (goto (ArgumentQuoted False)))
         else if ch = BACKSLASH then
           (if escaped then andthen (push r) (goto (ArgumentQuoted False))
            else goto (ArgumentQuoted True) r)
         else if ch = LF then error_reset cp UnterminatedQuoted r
         else andthen (push (if escaped then push_unchecked BACKSLASH r else r)) (goto (ArgumentQuoted False)))"

definition step_literal :: "'c command_parser \<Rightarrow> bool \<Rightarrow> char \<Rightarrow> 'c receiver \<Rightarrow> 'c outcome" where
  "step_literal cp non_sync ch r =
     (if ch = CHR ''}'' then
        (if rv_buf r \<noteq> [] then
           (case parse_unsigned (2 ^ 32) (buf_as_str (rv_buf r)) of
              None \<Rightarrow> error_reset cp LiteralSizeInvalid r
            | Some n \<Rightarrow>
                if rv_size r + n > rv_max r then error_reset cp (LiteralTooLarge (rv_max r)) r
                else goto (LiteralSeek (of_nat n) non_sync) (r\<lparr>rv_buf := []\<rparr>))
         else error_reset cp EmptyLiteral r)
      else if ch = CHR ''+'' then
        (if rv_buf r \<noteq> [] then goto (Literal True) r else error_reset cp InvalidNonSync r)
      else if is_ascii_digit ch then
        (if \<not> non_sync then push_checked cp ch 15 LiteralDigits r else error_reset cp InvalidLiteral r)
      else error_reset cp (InvalidLiteralChar ch) r)"

definition step_literal_seek :: "'c command_parser \<Rightarrow> u32 \<Rightarrow> bool \<Rightarrow> char \<Rightarrow> 'c receiver \<Rightarrow> 'c outcome" where
  "step_literal_seek cp n non_sync ch r =
     (if ch = LF then
        andthen (if n > 0 then goto (LiteralData n) r
                 else push_token cp NilToken (r\<lparr>rv_state := Arg SP\<rparr>))
          (\<lambda>r. if \<not> non_sync then (r, Some (Inl (NeedsLiteral n))) else ret r)
      else if \<not> is_ascii_whitespace ch then error_reset cp ExpectedCRLF r
      else ret r)"

definition step_literal_data :: "'c command_parser \<Rightarrow> u32 \<Rightarrow> char \<Rightarrow> 'c receiver \<Rightarrow> 'c outcome" where
  "step_literal_data cp remaining ch r =
     (let r = push_unchecked ch r
      in if remaining > 1 then goto (LiteralData (remaining - 1)) r
         else andthen (push_argument cp False r) (goto (Arg SP)))"

definition receiver_step :: "'c command_parser \<Rightarrow> 'c receiver \<Rightarrow> char \<Rightarrow> 'c outcome" where
  "receiver_step cp r ch =
     (case rv_state r of
        Start \<Rightarrow> if \<not> is_ascii_whitespace ch then goto Tag (push_unchecked ch r) else ret r
      | Tag \<Rightarrow> step_tag cp ch r
      | Command is_uid \<Rightarrow> step_command cp is_uid ch r
      | Arg last_ch \<Rightarrow> step_argument cp last_ch ch r
      | ArgumentQuoted escaped \<Rightarrow> step_quoted cp escaped ch r
      | Literal non_sync \<Rightarrow> step_literal cp non_sync ch r
      | LiteralSeek n non_sync \<Rightarrow> step_literal_seek cp n non_sync ch r
      | LiteralData remaining \<Rightarrow> step_literal_data cp remaining ch r)"

text \<open>\<open>parse\<close>: bytes are consumed up to the first result; \<^term>\<open>None\<close> is \<open>NeedsMoreData\<close>.\<close>

fun receiver_parse :: "'c command_parser \<Rightarrow> 'c receiver \<Rightarrow> string \<Rightarrow>
    (receiver_error + 'c request) option \<times> 'c receiver \<times> string" where
  "receiver_parse cp r [] = (None, r, [])"
| "receiver_parse cp r (b # bytes) =
     (case receiver_step cp r b of
        (r', None) \<Rightarrow> receiver_parse cp r' bytes
      | (r', Some x) \<Rightarrow> (Some x, r', bytes))"

interpretation imap: byte_parser "receiver_step cp" "receiver_parse cp" for cp
  by unfold_locales simp_all

end
