(* ===== verification/Imap_Commands.thy ===== *)
theory Imap_Commands
  imports Imap_Receiver
begin

text \<open>
  The commands of IMAP (\<^verbatim>\<open>crates/imap-proto/src/lib.rs\<close> and \<^verbatim>\<open>parser/mod.rs\<close>) and of
  ManageSieve (\<^verbatim>\<open>crates/managesieve/src/core/mod.rs\<close>), which the receiver recognises.
\<close>

section \<open>IMAP\<close>

datatype imap_command =
    Capability | Noop | Logout | StartTls | Authenticate | Login | Enable | Select | Examine
  | Create | Delete | Rename | Subscribe | Unsubscribe | List | Namespace | Status | Append
  | Idle | Close | Unselect | Expunge bool | Search bool | Fetch bool | Store bool | Copy bool
  | Move bool | Lsub | Check | Sort bool | Thread bool | SetAcl | DeleteAcl | GetAcl
  | ListRights | MyRights | Unauthenticate | IdCommand | GetQuota | GetQuotaRoot

definition imap_command_table :: "bool \<Rightarrow> (string \<times> imap_command) list" where
  "imap_command_table uid = [
     (''CAPABILITY'', Capability), (''NOOP'', Noop), (''LOGOUT'', Logout),
     (''STARTTLS'', StartTls), (''AUTHENTICATE'', Authenticate), (''LOGIN'', Login),
     (''ENABLE'', Enable), (''SELECT'', Select), (''EXAMINE'', Examine), (''CREATE'', Create),
     (''DELETE'', Delete), (''RENAME'', Rename), (''SUBSCRIBE'', Subscribe),
     (''UNSUBSCRIBE'', Unsubscribe), (''LIST'', List), (''NAMESPACE'', Namespace),
     (''STATUS'', Status), (''APPEND'', Append), (''IDLE'', Idle), (''CLOSE'', Close),
     (''UNSELECT'', Unselect), (''EXPUNGE'', Expunge uid), (''SEARCH'', Search uid),
     (''FETCH'', Fetch uid), (''STORE'', Store uid), (''COPY'', Copy uid), (''MOVE'', Move uid),
     (''SORT'', Sort uid), (''THREAD'', Thread uid), (''LSUB'', Lsub), (''CHECK'', Check),
     (''SETACL'', SetAcl), (''DELETEACL'', DeleteAcl), (''GETACL'', GetAcl),
     (''LISTRIGHTS'', ListRights), (''MYRIGHTS'', MyRights),
     (''UNAUTHENTICATE'', Unauthenticate), (''ID'', IdCommand), (''GETQUOTA'', GetQuota),
     (''GETQUOTAROOT'', GetQuotaRoot)]"

definition imap_command_parse :: "string \<Rightarrow> bool \<Rightarrow> imap_command option" where
  "imap_command_parse value uid = map_of (imap_command_table uid) value"

definition imap_tokenize_brackets :: "imap_command \<Rightarrow> bool" where
  "imap_tokenize_brackets c \<longleftrightarrow> (case c of Fetch _ \<Rightarrow> True | _ \<Rightarrow> False)"

definition imap_commands :: "imap_command command_parser" where
  "imap_commands = \<lparr>cp_parse = imap_command_parse, cp_tokenize_brackets = imap_tokenize_brackets, cp_default = Noop\<rparr>"

definition command_is_uid :: "imap_command \<Rightarrow> bool" where
  "command_is_uid c \<longleftrightarrow>
     c \<in> {Fetch True, Search True, Copy True, Move True, Store True, Expunge True, Sort True, Thread True}"

text \<open>The number of times a name stands in the table, and the names.\<close>

lemma imap_names_distinct: "distinct (map fst (imap_command_table uid))"
  by (simp add: imap_command_table_def)

lemma uid_commands:
  "imap_command_parse value uid = Some c \<Longrightarrow> command_is_uid c \<Longrightarrow> uid"
  by (auto simp: imap_command_parse_def imap_command_table_def command_is_uid_def split: if_splits)

section \<open>ManageSieve\<close>

datatype managesieve_command =
    Authenticate' | StartTls' | Logout' | Capability' | HaveSpace | PutScript | ListScripts
  | SetActive | GetScript | DeleteScript | RenameScript | CheckScript | Noop' | Unauthenticate'

definition managesieve_command_table :: "(string \<times> managesieve_command) list" where
  "managesieve_command_table = [
     (''AUTHENTICATE'', Authenticate'), (''STARTTLS'', StartTls'), (''LOGOUT'', Logout'),
     (''CAPABILITY'', Capability'), (''HAVESPACE'', HaveSpace), (''PUTSCRIPT'', PutScript),
     (''LISTSCRIPTS'', ListScripts), (''SETACTIVE'', SetActive), (''GETSCRIPT'', GetScript),
     (''DELETESCRIPT'', DeleteScript), (''RENAMESCRIPT'', RenameScript),
     (''CHECKSCRIPT'', CheckScript), (''NOOP'', Noop'), (''UNAUTHENTICATE'', Unauthenticate')]"

definition managesieve_command_parse :: "string \<Rightarrow> bool \<Rightarrow> managesieve_command option" where
  "managesieve_command_parse value is_uid = map_of managesieve_command_table value"

definition managesieve_commands :: "managesieve_command command_parser" where
  "managesieve_commands =
     \<lparr>cp_parse = managesieve_command_parse, cp_tokenize_brackets = (\<lambda>_. False), cp_default = Noop'\<rparr>"

end
