(* ===== verification/Imap_Client.thy ===== *)
theory Imap_Client
  imports Imap_Commands
begin

text \<open>
  What an IMAP or ManageSieve client sends, and what the receiver makes of it.
\<close>

section \<open>The caller's loop\<close>

function receive_all :: "'c command_parser \<Rightarrow> 'c receiver \<Rightarrow> string \<Rightarrow> (receiver_error + 'c request) list \<times> 'c receiver" where
  "receive_all cp r bytes =
     (case receiver_parse cp r bytes of
        (None, r', _) \<Rightarrow> ([], r')
      | (Some x, r', rest) \<Rightarrow> (case receive_all cp r' rest of (xs, r'') \<Rightarrow> (x # xs, r'')))"
  by pat_completeness auto
termination
  by (relation "measure (\<lambda>(_, _, bytes). length bytes)") (auto dest: imap.parse_consumes [OF sym])

declare receive_all.simps [simp del]

lemma receive_all_feed: "receive_all cp r bytes = imap.feed cp r bytes"
proof (induction cp r bytes rule: receive_all.induct)
  case (1 cp r bytes)
  then show ?case
    by (subst receive_all.simps, subst imap.feed_parse) (auto split: prod.split option.split)
qed

section \<open>What a client sends\<close>

text \<open>
  The arguments of a command: atoms, quoted strings, literals (with \<^term>\<open>True\<close> for a
  non-synchronising one) and parentheses, each with or without a space before it.
\<close>

datatype item = Atom string | Quoted string | Lit bool string | OpenList | CloseList

definition escape :: "string \<Rightarrow> string" where
  "escape s = concat (map (\<lambda>c. if c = DQUOTE \<or> c = BACKSLASH then [BACKSLASH, c] else [c]) s)"

fun item_text :: "item \<Rightarrow> string" where
  "item_text (Atom w) = w"
| "item_text (Quoted s) = DQUOTE # escape s @ [DQUOTE]"
| "item_text (Lit non_sync s) = ''{'' @ nat_to_string (length s) @ (if non_sync then ''+'' else []) @ ''}'' @ [CR, LF] @ s"
| "item_text OpenList = ''(''"
| "item_text CloseList = '')''"

definition items_text :: "(bool \<times> item) list \<Rightarrow> string" where
  "items_text items = concat (map (\<lambda>(sp, i). (if sp then [SP] else []) @ item_text i) items)"

definition text_token :: "string \<Rightarrow> token" where
  "text_token s = (if s = [] then NilToken else Argument s)"

fun item_token :: "item \<Rightarrow> token" where
  "item_token (Atom w) = Argument w"
| "item_token (Quoted s) = text_token s"
| "item_token (Lit _ s) = text_token s"
| "item_token OpenList = ParenthesisOpen"
| "item_token CloseList = ParenthesisClose"

fun item_size :: "item \<Rightarrow> nat" where
  "item_size (Atom w) = length w"
| "item_size (Quoted s) = length s"
| "item_size (Lit _ s) = max 1 (length s)"
| "item_size OpenList = 1"
| "item_size CloseList = 1"

text \<open>The continuation requests that the client gets for its synchronising literals.\<close>

fun item_needs :: "item \<Rightarrow> (receiver_error + 'c request) list" where
  "item_needs (Lit False s) = [Inl (NeedsLiteral (of_nat (length s)))]"
| "item_needs _ = []"

definition atom_char :: "bool \<Rightarrow> char \<Rightarrow> bool" where
  "atom_char brackets c \<longleftrightarrow> \<not> is_ascii_whitespace c \<and> c \<notin> {DQUOTE, CHR ''{'', CHR ''('', CHR '')''}
     \<and> (brackets \<longrightarrow> c \<notin> {CHR ''['', CHR '']'', CHR ''<'', CHR ''>'', CHR ''.''})"

fun item_ok :: "bool \<Rightarrow> item \<Rightarrow> bool" where
  "item_ok brackets (Atom w) \<longleftrightarrow> w \<noteq> [] \<and> length w \<le> ARG_MAX_LEN \<and> list_all (atom_char brackets) w"
| "item_ok brackets (Quoted s) \<longleftrightarrow> length s \<le> ARG_MAX_LEN \<and> LF \<notin> set s"
| "item_ok brackets (Lit _ s) \<longleftrightarrow> length s < 2 ^ 32"
| "item_ok brackets _ \<longleftrightarrow> True"

fun items_ok :: "bool \<Rightarrow> (bool \<times> item) list \<Rightarrow> bool" where
  "items_ok brackets [] \<longleftrightarrow> True"
| "items_ok brackets ((sp, i) # items) \<longleftrightarrow> item_ok brackets i \<and> items_ok brackets items"

text \<open>
  Where the spaces must be. \<open>blank\<close> says that the byte the receiver remembers is a white
  space (it is not updated at a parenthesis), \<open>pending\<close> that an atom has not ended: a
  string needs a blank before it, an atom must not follow another one.
\<close>

fun spacing :: "bool \<Rightarrow> bool \<Rightarrow> (bool \<times> item) list \<Rightarrow> bool" where
  "spacing blank pending [] \<longleftrightarrow> True"
| "spacing blank pending ((sp, Atom w) # items) \<longleftrightarrow> (pending \<longrightarrow> sp) \<and> spacing False True items"
| "spacing blank pending ((sp, Quoted s) # items) \<longleftrightarrow> (blank \<or> sp) \<and> spacing True False items"
| "spacing blank pending ((sp, Lit _ s) # items) \<longleftrightarrow> (blank \<or> sp) \<and> spacing True False items"
| "spacing blank pending ((sp, _) # items) \<longleftrightarrow> spacing (blank \<or> sp) False items"

section \<open>The receiver on an argument list\<close>

text \<open>
  The receiver with limit \<open>m\<close> and start state \<open>st\<close>, in the middle of the
  request \<open>q\<close>: the size of its tokens, the buffer, and the state.
\<close>

definition mid :: "nat \<Rightarrow> receiver_state \<Rightarrow> 'c request \<Rightarrow> nat \<Rightarrow> string \<Rightarrow> receiver_state \<Rightarrow> 'c receiver" where
  "mid m st q n w s = \<lparr>rv_buf = w, rv_request = q, rv_state = s, rv_max = m, rv_size = n, rv_start = st\<rparr>"

definition with_tokens :: "'c request \<Rightarrow> token list \<Rightarrow> 'c request" where
  "with_tokens q ts = q\<lparr>rq_tokens := rq_tokens q @ ts\<rparr>"

definition pending :: "string \<Rightarrow> token list" where
  "pending w = (if w = [] then [] else [Argument w])"

lemma with_tokens_simps [simp]:
  "with_tokens q [] = q" "with_tokens (with_tokens q ts) us = with_tokens q (ts @ us)"
  "rq_command (with_tokens q ts) = rq_command q" "rq_tag (with_tokens q ts) = rq_tag q"
  by (simp_all add: with_tokens_def)

lemmas flow = andthen_def ret_def goto_def append_token_def push_argument_def push_token_def
  punctuation_def push_checked_def push_unchecked_def mid_def with_tokens_def pending_def Let_def

lemma white_chars [simp]: "is_ascii_whitespace SP" "is_ascii_whitespace CR" "is_ascii_whitespace LF"
    "\<not> is_ascii_whitespace CHR ''(''" "\<not> is_ascii_whitespace CHR '')''" "\<not> is_ascii_whitespace DQUOTE"
    "\<not> is_ascii_whitespace CHR ''{''" "\<not> is_ascii_whitespace CHR ''~''"
  by (simp_all add: is_ascii_whitespace_def)

lemma atom_charD:
  assumes "atom_char b c"
  shows "\<not> is_ascii_whitespace c" "c \<noteq> LF" "c \<noteq> DQUOTE" "c \<noteq> CHR ''{''" "c \<noteq> CHR ''(''" "c \<noteq> CHR '')''"
    "b \<Longrightarrow> c \<noteq> CHR ''[''" "b \<Longrightarrow> c \<noteq> CHR '']''" "b \<Longrightarrow> c \<noteq> CHR ''<''" "b \<Longrightarrow> c \<noteq> CHR ''>''" "b \<Longrightarrow> c \<noteq> CHR ''.''"
proof -
  show "\<not> is_ascii_whitespace c" using assms unfolding atom_char_def by (rule conjunct1)
  then show "c \<noteq> LF" by (rule contrapos_nn) simp
qed (use assms in \<open>unfold atom_char_def, blast+\<close>)

lemmas steps = receiver_step_def step_tag_def step_command_def step_argument_def step_quoted_def
  step_literal_def step_literal_seek_def step_literal_data_def

lemma feed_cont: "receiver_step cp r b = (r', None) \<Longrightarrow> imap.feed cp r (b # bs) = imap.feed cp r' bs"
  by (simp split: prod.split)

lemma feed_stop: "receiver_step cp r b = (r', Some x) \<Longrightarrow>
    imap.feed cp r (b # bs) = (case imap.feed cp r' bs of (xs, r'') \<Rightarrow> (x # xs, r''))"
  by simp

lemma feed_space_run:
  assumes "n + length w \<le> m" and "c \<in> {SP, CR}"
  shows "imap.feed cp (mid m st q n w (Arg l)) (c # bs) = imap.feed cp (mid m st (with_tokens q (pending w)) (n + length w) [] (Arg c)) bs"
proof (rule feed_cont)
  have "receiver_step cp (mid m st q n w (Arg l)) SP = (mid m st (with_tokens q (pending w)) (n + length w) [] (Arg SP), None)"
    using assms(1) by (simp add: receiver_step_def step_argument_def flow)
  moreover have "receiver_step cp (mid m st q n w (Arg l)) CR = (mid m st (with_tokens q (pending w)) (n + length w) [] (Arg CR), None)"
    using assms(1) by (simp add: receiver_step_def step_argument_def flow)
  ultimately show "receiver_step cp (mid m st q n w (Arg l)) c = (mid m st (with_tokens q (pending w)) (n + length w) [] (Arg c), None)"
    using assms(2) by blast
qed

lemma feed_parens:
  assumes "n + length w + 1 \<le> m"
  shows "imap.feed cp (mid m st q n w (Arg l)) (CHR ''('' # bs) =
      imap.feed cp (mid m st (with_tokens q (pending w @ [ParenthesisOpen])) (n + length w + 1) [] (Arg l)) bs"
    and "imap.feed cp (mid m st q n w (Arg l)) (CHR '')'' # bs) =
      imap.feed cp (mid m st (with_tokens q (pending w @ [ParenthesisClose])) (n + length w + 1) [] (Arg l)) bs"
  using assms by (intro feed_cont; simp add: steps flow)+

lemma feed_atom:
  assumes "list_all (atom_char (cp_tokenize_brackets cp (rq_command q))) v" and "length (w @ v) \<le> ARG_MAX_LEN"
  shows "imap.feed cp (mid m st q n w (Arg l)) (v @ bs) = imap.feed cp (mid m st q n (w @ v) (Arg (last (l # v)))) bs"
  using assms
proof (induction v arbitrary: w l)
  case (Cons c v)
  let ?b = "cp_tokenize_brackets cp (rq_command q)"
  have c: "atom_char ?b c" and len: "length w < ARG_MAX_LEN" using Cons.prems by simp_all
  have "receiver_step cp (mid m st q n w (Arg l)) c = (mid m st q n (w @ [c]) (Arg c), None)"
  proof (cases ?b)
    case True
    with atom_charD [OF c] len show ?thesis by (simp add: receiver_step_def step_argument_def flow)
  next
    case False
    with atom_charD [OF c] len show ?thesis by (simp add: receiver_step_def step_argument_def flow)
  qed
  then have "imap.feed cp (mid m st q n w (Arg l)) ((c # v) @ bs) = imap.feed cp (mid m st q n (w @ [c]) (Arg c)) (v @ bs)"
    by (simp add: feed_cont)
  with Cons.IH [of "w @ [c]" c] Cons.prems show ?case by simp
qed simp

lemma feed_quote_open:
  assumes "is_ascii_whitespace l"
  shows "imap.feed cp (mid m st q n [] (Arg l)) (DQUOTE # bs) = imap.feed cp (mid m st q n [] (ArgumentQuoted False)) bs"
  using assms by (intro feed_cont) (simp add: steps flow)

lemma feed_escaped:
  assumes "c \<noteq> LF" and "length w < ARG_MAX_LEN"
  shows "imap.feed cp (mid m st q n w (ArgumentQuoted False)) (escape [c] @ bs) = imap.feed cp (mid m st q n (w @ [c]) (ArgumentQuoted False)) bs"
proof -
  have "receiver_step cp (mid m st q n w (ArgumentQuoted False)) BACKSLASH = (mid m st q n w (ArgumentQuoted True), None)"
    by (simp add: steps flow)
  moreover have "c = DQUOTE \<or> c = BACKSLASH \<Longrightarrow>
      receiver_step cp (mid m st q n w (ArgumentQuoted True)) c = (mid m st q n (w @ [c]) (ArgumentQuoted False), None)"
    using assms by (auto simp: steps flow)
  moreover have "c \<noteq> DQUOTE \<Longrightarrow> c \<noteq> BACKSLASH \<Longrightarrow>
      receiver_step cp (mid m st q n w (ArgumentQuoted False)) c = (mid m st q n (w @ [c]) (ArgumentQuoted False), None)"
    using assms by (simp add: steps flow)
  ultimately show ?thesis by (simp add: escape_def feed_cont del: imap.feed.simps)
qed

lemma escape_Cons: "escape (c # s) = escape [c] @ escape s"
  by (simp add: escape_def)

lemma feed_quoted:
  assumes "LF \<notin> set s" and "length (w @ s) \<le> ARG_MAX_LEN"
  shows "imap.feed cp (mid m st q n w (ArgumentQuoted False)) (escape s @ bs) = imap.feed cp (mid m st q n (w @ s) (ArgumentQuoted False)) bs"
  using assms
proof (induction s arbitrary: w)
  case Nil
  then show ?case by (simp add: escape_def)
next
  case (Cons c s)
  have "imap.feed cp (mid m st q n w (ArgumentQuoted False)) (escape (c # s) @ bs) =
      imap.feed cp (mid m st q n (w @ [c]) (ArgumentQuoted False)) (escape s @ bs)"
    using feed_escaped [of c w cp m st q n "escape s @ bs"] Cons.prems by (subst escape_Cons) auto
  then show ?case using Cons.IH [of "w @ [c]"] Cons.prems by simp
qed

lemma feed_quote_close:
  assumes "n + length w \<le> m"
  shows "imap.feed cp (mid m st q n w (ArgumentQuoted False)) (DQUOTE # bs) =
    imap.feed cp (mid m st (with_tokens q [text_token w]) (n + length w) [] (Arg SP)) bs"
  using assms by (intro feed_cont) (simp add: steps text_token_def flow)

lemma feed_quoted_item:
  assumes "is_ascii_whitespace l" and "item_ok b (Quoted s)" and "n + length s \<le> m"
  shows "imap.feed cp (mid m st q n [] (Arg l)) (item_text (Quoted s) @ bs) =
    imap.feed cp (mid m st (with_tokens q [text_token s]) (n + length s) [] (Arg SP)) bs"
  using assms by (simp add: feed_quote_open feed_quoted feed_quote_close del: imap.feed.simps)

section \<open>Literals\<close>

lemma feed_digits:
  assumes "list_all is_ascii_digit ds" and "length (w @ ds) \<le> 15"
  shows "imap.feed cp (mid m st q n w (Literal False)) (ds @ bs) = imap.feed cp (mid m st q n (w @ ds) (Literal False)) bs"
  using assms
proof (induction ds arbitrary: w)
  case (Cons d ds)
  have "receiver_step cp (mid m st q n w (Literal False)) d = (mid m st q n (w @ [d]) (Literal False), None)"
    using Cons.prems by (auto simp: steps flow is_ascii_digit_def)
  with Cons.IH [of "w @ [d]"] Cons.prems show ?case by (simp add: feed_cont del: imap.feed.simps)
qed simp

lemma feed_literal_data:
  assumes "s \<noteq> []" and "unat k = length s" and "n + length w + length s \<le> m"
  shows "imap.feed cp (mid m st q n w (LiteralData k)) (s @ bs) =
    imap.feed cp (mid m st (with_tokens q [Argument (w @ s)]) (n + length (w @ s)) [] (Arg SP)) bs"
  using assms
proof (induction s arbitrary: w k)
  case (Cons c s)
  show ?case
  proof (cases "s = []")
    case True
    then have "\<not> 1 < k" using Cons.prems by (simp add: word_less_nat_alt)
    then have "receiver_step cp (mid m st q n w (LiteralData k)) c =
        (mid m st (with_tokens q [Argument (w @ [c])]) (n + length (w @ [c])) [] (Arg SP), None)"
      using Cons.prems by (simp add: steps flow)
    with True show ?thesis by (simp add: feed_cont del: imap.feed.simps)
  next
    case False
    then have k: "1 < k" using Cons.prems by (cases s) (simp_all add: word_less_nat_alt)
    then have "receiver_step cp (mid m st q n w (LiteralData k)) c = (mid m st q n (w @ [c]) (LiteralData (k - 1)), None)"
      by (simp add: steps flow)
    moreover have "unat (k - 1) = length s"
      using Cons.prems k by (simp add: unat_sub word_le_nat_alt word_less_nat_alt)
    ultimately show ?thesis using Cons.IH [OF False, of "k - 1" "w @ [c]"] Cons.prems
      by (simp add: feed_cont del: imap.feed.simps)
  qed
qed simp

text \<open>A literal of at most fifteen digits; those of a \<open>u32\<close> are ten.\<close>

lemma nat_to_string_length: "0 < k \<Longrightarrow> n < 10 ^ k \<Longrightarrow> length (nat_to_string n) \<le> k"
proof (induction k arbitrary: n)
  case (Suc k)
  show ?case
  proof (cases "n < 10")
    case True
    then show ?thesis by (subst nat_to_string.simps) simp
  next
    case False
    then have "0 < k" using Suc.prems by (cases k) simp_all
    moreover have "n div 10 < 10 ^ k" using Suc.prems by (simp add: less_mult_imp_div_less mult.commute)
    ultimately have "length (nat_to_string (n div 10)) \<le> k" by (rule Suc.IH)
    then show ?thesis using False by (subst nat_to_string.simps) simp
  qed
qed simp

lemma digits_utf8: "list_all is_ascii_digit s \<Longrightarrow> utf8_valid s"
  by (induction s) (auto simp: is_ascii_digit_def)

lemma feed_literal_size:
  assumes "is_ascii_whitespace l" and "k < 2 ^ 32" and "n + k \<le> m"
  shows "imap.feed cp (mid m st q n [] (Arg l)) (''{'' @ nat_to_string k @ (if non_sync then ''+'' else []) @ ''}'' @ bs) =
    imap.feed cp (mid m st q n [] (LiteralSeek (of_nat k) non_sync)) bs"
proof -
  let ?ds = "nat_to_string k"
  have len: "length ?ds \<le> 15" using assms(2) nat_to_string_length [of 15 k] by simp
  have ok: "parse_unsigned (2 ^ 32) (buf_as_str ?ds) = Some k"
    using assms(2) parse_unsigned_nat_to_string [of k "2 ^ 32"] digits_utf8 [OF nat_to_string_digits]
    by (simp add: buf_as_str_def)
  have "receiver_step cp (mid m st q n [] (Arg l)) CHR ''{'' = (mid m st q n [] (Literal False), None)"
    using assms(1) by (auto simp: receiver_step_def step_argument_def flow)
  moreover have "receiver_step cp (mid m st q n ?ds (Literal False)) CHR ''+'' = (mid m st q n ?ds (Literal True), None)"
    by (simp add: steps flow)
  moreover have "receiver_step cp (mid m st q n ?ds (Literal b)) CHR ''}'' = (mid m st q n [] (LiteralSeek (of_nat k) b), None)" for b
    using ok assms(3) by (simp add: receiver_step_def step_literal_def flow)
  moreover have "imap.feed cp (mid m st q n [] (Literal False)) (?ds @ xs) = imap.feed cp (mid m st q n ?ds (Literal False)) xs" for xs
    using feed_digits [OF nat_to_string_digits, of "[]" k] len by simp
  ultimately show ?thesis by (cases non_sync) (simp_all add: feed_cont del: imap.feed.simps)
qed

lemma feed_literal_item:
  assumes l: "is_ascii_whitespace l" and ok: "item_ok b (Lit non_sync s)" and "n + max 1 (length s) \<le> m"
  shows "imap.feed cp (mid m st q n [] (Arg l)) (item_text (Lit non_sync s) @ bs) =
    (case imap.feed cp (mid m st (with_tokens q [text_token s]) (n + max 1 (length s)) [] (Arg SP)) bs of
       (xs, r) \<Rightarrow> (item_needs (Lit non_sync s) @ xs, r))"
proof -
  let ?k = "of_nat (length s) :: u32" and ?m = "mid m st q n []"
  have k: "unat ?k = length s" using ok by (simp add: unat_of_nat take_bit_nat_eq_self)
  have seek: "receiver_step cp (?m (LiteralSeek ?k non_sync)) CR = (?m (LiteralSeek ?k non_sync), None)"
    by (simp add: steps flow)
  let ?r = "if s = [] then mid m st (with_tokens q [NilToken]) (n + 1) [] (Arg SP) else ?m (LiteralData ?k)"
  have "0 < ?k \<longleftrightarrow> s \<noteq> []" using k by (auto simp: word_greater_zero_iff word_unat_eq_iff)
  then have "receiver_step cp (?m (LiteralSeek ?k non_sync)) LF = (?r, if non_sync then None else Some (Inl (NeedsLiteral ?k)))"
    using assms(3) by (auto simp: receiver_step_def step_literal_seek_def flow)
  moreover have "imap.feed cp ?r (s @ bs) =
      imap.feed cp (mid m st (with_tokens q [text_token s]) (n + max 1 (length s)) [] (Arg SP)) bs"
    using feed_literal_data [of s ?k n "[]" m cp st q bs] k assms(3)
    by (cases "s = []") (simp_all add: text_token_def max_def Suc_le_eq)
  ultimately show ?thesis
    using feed_literal_size [OF l, of "length s" n m cp st q non_sync "CR # LF # s @ bs"] ok assms(3) seek
    by (cases non_sync) (simp_all add: feed_cont feed_stop del: imap.feed.simps)
qed

section \<open>Requests\<close>

definition emit :: "'r list \<Rightarrow> 'r list \<times> 's \<Rightarrow> 'r list \<times> 's" where
  "emit xs p = (xs @ fst p, snd p)"

lemma emit_simps [simp]: "emit [] p = p" "emit xs (emit ys p) = emit (xs @ ys) p"
  by (simp_all add: emit_def)

lemma feed_stop_emit: "receiver_step cp r b = (r', Some x) \<Longrightarrow> imap.feed cp r (b # bs) = emit [x] (imap.feed cp r' bs)"
  by (simp add: emit_def split: prod.split)

fun items_needs :: "(bool \<times> item) list \<Rightarrow> (receiver_error + 'c request) list" where
  "items_needs [] = []"
| "items_needs ((_, i) # items) = item_needs i @ items_needs items"

fun items_tokens :: "(bool \<times> item) list \<Rightarrow> token list" where
  "items_tokens [] = []"
| "items_tokens ((_, i) # items) = item_token i # items_tokens items"

definition items_size :: "(bool \<times> item) list \<Rightarrow> nat" where
  "items_size items = sum_list (map (item_size \<circ> snd) items)"

definition fresh :: "'c command_parser \<Rightarrow> nat \<Rightarrow> receiver_state \<Rightarrow> 'c receiver" where
  "fresh cp m st = mid m st (request_default cp) 0 [] st"

lemma step_line_feed: "receiver_step cp (mid m st q n [] (Arg l)) LF = (fresh cp m st, Some (Inr q))"
  by (simp add: receiver_step_def step_argument_def finish_def fresh_def flow)

lemma feed_line_end:
  assumes "n + length w \<le> m"
  shows "imap.feed cp (mid m st q n w (Arg l)) (CR # LF # bs) = emit [Inr (with_tokens q (pending w))] (imap.feed cp (fresh cp m st) bs)"
  using feed_space_run [OF assms, of CR cp st q l "LF # bs"] by (simp add: feed_stop_emit step_line_feed del: imap.feed.simps)

lemma feed_item:
  assumes "item_ok (cp_tokenize_brackets cp (rq_command q)) i" and "n + length w + item_size i \<le> m"
    and "i = OpenList \<or> i = CloseList \<or> (\<forall>v. i \<noteq> Atom v) \<and> is_ascii_whitespace l \<and> w = []"
  shows "\<exists>l'. imap.feed cp (mid m st q n w (Arg l)) (item_text i @ bs) =
      emit (item_needs i) (imap.feed cp (mid m st (with_tokens q (pending w @ [item_token i])) (n + length w + item_size i) [] (Arg l')) bs)
    \<and> (is_ascii_whitespace l \<longrightarrow> is_ascii_whitespace l')"
proof (cases i)
  case (Atom v)
  then show ?thesis using assms(3) by simp
next
  case (Quoted s)
  then show ?thesis using feed_quoted_item [of l _ s n m cp st q bs] assms
    by (intro exI [of _ SP]) (simp add: pending_def del: imap.feed.simps)
next
  case (Lit b s)
  then show ?thesis using feed_literal_item [of l _ b s n m cp st q bs] assms
    by (intro exI [of _ SP]) (simp add: pending_def emit_def split_beta del: imap.feed.simps)
next
  case OpenList
  then show ?thesis using feed_parens(1) [of n w m cp st q l bs] assms
    by (intro exI [of _ l]) (simp del: imap.feed.simps)
next
  case CloseList
  then show ?thesis using feed_parens(2) [of n w m cp st q l bs] assms
    by (intro exI [of _ l]) (simp del: imap.feed.simps)
qed

lemma items_text_Cons: "items_text ((sp, i) # items) = (if sp then [SP] else []) @ item_text i @ items_text items"
  by (simp add: items_text_def)

lemma feed_items:
  assumes "spacing blank (w \<noteq> []) items" and "items_ok (cp_tokenize_brackets cp (rq_command q)) items"
    and "blank \<longrightarrow> is_ascii_whitespace l \<and> w = []" and "n + length w + items_size items \<le> m"
  shows "imap.feed cp (mid m st q n w (Arg l)) (items_text items @ CR # LF # bs) =
    emit (items_needs items @ [Inr (with_tokens q (pending w @ items_tokens items))])
      (imap.feed cp (fresh cp m st) bs)"
  using assms
proof (induction items arbitrary: blank w q n l)
  case Nil
  then show ?case by (simp add: items_text_def feed_line_end del: imap.feed.simps)
next
  case (Cons x items)
  obtain sp i where x: "x = (sp, i)" by fastforce
  define q1 where "q1 = with_tokens q (if sp then pending w else [])"
  define n1 where "n1 = n + (if sp then length w else 0)"
  define w1 where "w1 = (if sp then [] else w)"
  define l1 where "l1 = (if sp then SP else l)"
  note defs = q1_def n1_def w1_def l1_def
  let ?rest = "items_text items @ CR # LF # bs"
  have size: "n1 + length w1 + item_size i + items_size items \<le> m"
    using Cons.prems(4) by (simp add: x items_size_def defs)
  have ok: "item_ok (cp_tokenize_brackets cp (rq_command q1)) i"
      "items_ok (cp_tokenize_brackets cp (rq_command q)) items"
    using Cons.prems(2) by (simp_all add: x defs)
  have "imap.feed cp (mid m st q n w (Arg l)) ((if sp then [SP] else []) @ xs) = imap.feed cp (mid m st q1 n1 w1 (Arg l1)) xs" for xs
    using feed_space_run [of n w m SP cp st q l xs] Cons.prems(4) by (simp add: defs del: imap.feed.simps)
  then have space: "imap.feed cp (mid m st q n w (Arg l)) (items_text (x # items) @ CR # LF # bs)
      = imap.feed cp (mid m st q1 n1 w1 (Arg l1)) (item_text i @ ?rest)"
    by (simp add: x items_text_Cons del: imap.feed.simps)
  have pend: "with_tokens q1 (pending w1 @ ts) = with_tokens q (pending w @ ts)" for ts
    by (simp add: defs pending_def)
  show ?case
  proof (cases "\<exists>v. i = Atom v")
    case True
    then obtain v where v: "i = Atom v" ..
    then have w1: "w1 = []" and sp: "spacing False True items"
      using Cons.prems(1) by (auto simp: x defs)
    have "imap.feed cp (mid m st q1 n1 w1 (Arg l1)) (item_text i @ ?rest) = imap.feed cp (mid m st q1 n1 v (Arg (last (l1 # v)))) ?rest"
      using feed_atom [of cp q1 v "[]" m st n1 l1 ?rest] ok(1) by (simp add: v w1 del: imap.feed.simps)
    also have "\<dots> = emit (items_needs items @ [Inr (with_tokens q1 (pending v @ items_tokens items))])
        (imap.feed cp (fresh cp m st) bs)"
      using ok size v w1 sp by (intro Cons.IH [of False]) (simp_all add: defs)
    finally show ?thesis using ok(1) space v w1
      by (cases sp) (simp_all add: x pending_def defs del: imap.feed.simps)
  next
    case False
    define blank' where "blank' = (case i of OpenList \<Rightarrow> blank \<or> sp | CloseList \<Rightarrow> blank \<or> sp | _ \<Rightarrow> True)"
    have kind: "i = OpenList \<or> i = CloseList \<or> (\<forall>v. i \<noteq> Atom v) \<and> is_ascii_whitespace l1 \<and> w1 = []"
        and sp: "spacing blank' False items" and blank: "blank' \<longrightarrow> is_ascii_whitespace l1"
      using False Cons.prems(1,3) by (cases i; auto simp: x defs blank'_def)+
    let ?q = "with_tokens q1 (pending w1 @ [item_token i])" and ?n = "n1 + length w1 + item_size i"
    obtain l' where one: "imap.feed cp (mid m st q1 n1 w1 (Arg l1)) (item_text i @ ?rest) =
        emit (item_needs i) (imap.feed cp (mid m st ?q ?n [] (Arg l')) ?rest)"
        and l': "is_ascii_whitespace l1 \<longrightarrow> is_ascii_whitespace l'"
      using feed_item [OF ok(1) _ kind, of n1 m st ?rest] size by auto
    have "imap.feed cp (mid m st ?q ?n [] (Arg l')) ?rest =
        emit (items_needs items @ [Inr (with_tokens ?q (pending [] @ items_tokens items))]) (imap.feed cp (fresh cp m st) bs)"
    proof (rule Cons.IH [of blank'])
      show "items_ok (cp_tokenize_brackets cp (rq_command ?q)) items" using ok(2) by (simp add: defs)
    qed (use sp blank l' size in simp_all)
    then show ?thesis using one space pend [of "item_token i # items_tokens items"]
      by (simp add: x pending_def del: imap.feed.simps)
  qed
qed

text \<open>A request as the client writes it.\<close>

record client_request =
  cl_tag :: string
  cl_uid :: bool
  cl_name :: string
  cl_items :: "(bool \<times> item) list"

definition request_text :: "client_request \<Rightarrow> string" where
  "request_text q = cl_tag q @ SP # (if cl_uid q then ''UID '' else []) @ cl_name q
     @ (if cl_items q = [] then [] else SP # items_text (cl_items q)) @ [CR, LF]"

definition command_name :: "string \<Rightarrow> bool" where
  "command_name name \<longleftrightarrow> name \<noteq> [] \<and> length name \<le> 15 \<and> list_all is_ascii_alphanumeric name"

definition tag_ok :: "string \<Rightarrow> bool" where
  "tag_ok tag \<longleftrightarrow> tag \<noteq> [] \<and> length tag \<le> 128 \<and> utf8_valid tag \<and> \<not> is_ascii_whitespace (hd tag)
     \<and> list_all (\<lambda>c. c \<notin> {SP, TAB, CR, LF}) tag"

definition request_ok :: "'c command_parser \<Rightarrow> nat \<Rightarrow> client_request \<Rightarrow> 'c \<Rightarrow> bool" where
  "request_ok cp m q cmd \<longleftrightarrow> tag_ok (cl_tag q) \<and> command_name (cl_name q)
     \<and> \<not> eq_ignore_ascii_case (map to_ascii_uppercase (cl_name q)) ''UID''
     \<and> cp_parse cp (map to_ascii_uppercase (cl_name q)) (cl_uid q) = Some cmd
     \<and> spacing True False (cl_items q) \<and> items_ok (cp_tokenize_brackets cp cmd) (cl_items q)
     \<and> items_size (cl_items q) \<le> m"

definition received :: "client_request \<Rightarrow> 'c \<Rightarrow> (receiver_error + 'c request) list" where
  "received q cmd = items_needs (cl_items q)
     @ [Inr \<lparr>rq_tag = cl_tag q, rq_command = cmd, rq_tokens = items_tokens (cl_items q)\<rparr>]"

lemma feed_tag:
  assumes "list_all (\<lambda>c. c \<notin> {SP, TAB, CR, LF}) t" and "length (w @ t) \<le> 128"
  shows "imap.feed cp (mid m st q n w Tag) (t @ bs) = imap.feed cp (mid m st q n (w @ t) Tag) bs"
  using assms
proof (induction t arbitrary: w)
  case (Cons c t)
  have "receiver_step cp (mid m st q n w Tag) c = (mid m st q n (w @ [c]) Tag, None)"
    using Cons.prems by (simp add: receiver_step_def step_tag_def flow)
  with Cons.IH [of "w @ [c]"] Cons.prems show ?case by (simp add: feed_cont del: imap.feed.simps)
qed simp

lemma alphanumeric_not_white: "is_ascii_alphanumeric c \<Longrightarrow> \<not> is_ascii_whitespace c"
  by (auto simp: is_ascii_alphanumeric_def is_ascii_lowercase_def is_ascii_uppercase_def is_ascii_digit_def is_ascii_whitespace_def)

lemma feed_command:
  assumes "list_all is_ascii_alphanumeric t" and "length (w @ t) \<le> 15"
  shows "imap.feed cp (mid m st q n w (Command u)) (t @ bs) =
    imap.feed cp (mid m st q n (w @ map to_ascii_uppercase t) (Command u)) bs"
  using assms
proof (induction t arbitrary: w)
  case (Cons c t)
  have "receiver_step cp (mid m st q n w (Command u)) c = (mid m st q n (w @ [to_ascii_uppercase c]) (Command u), None)"
    using Cons.prems by (simp add: receiver_step_def step_command_def flow)
  with Cons.IH [of "w @ [to_ascii_uppercase c]"] Cons.prems show ?case by (simp add: feed_cont del: imap.feed.simps)
qed simp

lemma feed_uid: "imap.feed cp (mid m st q n [] (Command u)) (''UID '' @ bs) = imap.feed cp (mid m st q n [] (Command True)) bs"
proof -
  have "imap.feed cp (mid m st q n [] (Command u)) (''UID'' @ SP # bs) = imap.feed cp (mid m st q n ''UID'' (Command u)) (SP # bs)"
    using feed_command [of "''UID''" "[]" cp m st q n u "SP # bs"]
    by (simp add: is_ascii_alphanumeric_def is_ascii_uppercase_def to_ascii_uppercase_def is_ascii_lowercase_def del: imap.feed.simps)
  moreover have "receiver_step cp (mid m st q n ''UID'' (Command u)) SP = (mid m st q n [] (Command True), None)"
    by (simp add: receiver_step_def step_command_def flow is_ascii_alphanumeric_def is_ascii_uppercase_def is_ascii_lowercase_def is_ascii_digit_def)
  ultimately show ?thesis by (simp add: feed_cont del: imap.feed.simps)
qed

lemma feed_command_end:
  assumes "cp_parse cp w u = Some cmd" and "w \<noteq> []" and "\<not> eq_ignore_ascii_case w ''UID''" and "c \<in> {SP, CR}"
  shows "imap.feed cp (mid m st q n w (Command u)) (c # bs) = imap.feed cp (mid m st (q\<lparr>rq_command := cmd\<rparr>) n [] (Arg SP)) bs"
proof (rule feed_cont)
  have "receiver_step cp (mid m st q n w (Command u)) d = (mid m st (q\<lparr>rq_command := cmd\<rparr>) n [] (Arg SP), None)"
    if "is_ascii_whitespace d" "d \<noteq> LF" for d
    using assms(1,2,3) that alphanumeric_not_white [of d] by (auto simp: receiver_step_def step_command_def flow)
  from this [of c] show "receiver_step cp (mid m st q n w (Command u)) c = (mid m st (q\<lparr>rq_command := cmd\<rparr>) n [] (Arg SP), None)"
    using assms(4) by auto
qed

lemma feed_head:
  assumes "tag_ok tag" and "command_name name" and "\<not> eq_ignore_ascii_case (map to_ascii_uppercase name) ''UID''"
    and "cp_parse cp (map to_ascii_uppercase name) uid = Some cmd" and "c \<in> {SP, CR}"
  shows "imap.feed cp (fresh cp m Start) (tag @ SP # (if uid then ''UID '' else []) @ name @ c # bs) =
    imap.feed cp (mid m Start \<lparr>rq_tag = tag, rq_command = cmd, rq_tokens = []\<rparr> 0 [] (Arg SP)) bs"
proof -
  obtain t ts where tag: "tag = t # ts" using assms by (cases tag) (auto simp: tag_ok_def)
  let ?d = "request_default cp"
  let ?q0 = "?d\<lparr>rq_tag := tag\<rparr>" and ?q1 = "\<lparr>rq_tag = tag, rq_command = cmd, rq_tokens = []\<rparr>"
  have "receiver_step cp (fresh cp m Start) t = (mid m Start ?d 0 [t] Tag, None)"
    using assms(1) by (simp add: receiver_step_def fresh_def flow tag tag_ok_def)
  moreover have "receiver_step cp (mid m Start ?d 0 tag Tag) SP = (mid m Start ?q0 0 [] (Command False), None)"
    using assms(1) by (simp add: receiver_step_def step_tag_def flow tag_ok_def)
  ultimately have "imap.feed cp (fresh cp m Start) (tag @ SP # xs) = imap.feed cp (mid m Start ?q0 0 [] (Command False)) xs" for xs
    using feed_tag [of ts "[t]" cp m Start ?d 0] assms(1) by (simp add: tag tag_ok_def feed_cont del: imap.feed.simps)
  moreover have "imap.feed cp (mid m Start ?q0 0 [] (Command False)) ((if uid then ''UID '' else []) @ name @ c # bs) =
      imap.feed cp (mid m Start ?q0 0 [] (Command uid)) (name @ c # bs)"
    using feed_uid [of cp m Start ?q0 0 False] by (simp del: imap.feed.simps)
  moreover have "\<dots> = imap.feed cp (mid m Start ?q0 0 (map to_ascii_uppercase name) (Command uid)) (c # bs)"
    using feed_command [of name "[]" cp m Start ?q0 0] assms(2) by (simp add: command_name_def del: imap.feed.simps)
  moreover have "\<dots> = imap.feed cp (mid m Start ?q1 0 [] (Arg SP)) bs"
    using feed_command_end [OF assms(4) _ assms(3,5), of m Start ?q0 0 bs] assms(2)
    by (simp add: command_name_def request_default_def del: imap.feed.simps)
  ultimately show ?thesis by metis
qed

lemma feed_request:
  assumes "request_ok cp m q cmd"
  shows "imap.feed cp (fresh cp m Start) (request_text q @ bs) = emit (received q cmd) (imap.feed cp (fresh cp m Start) bs)"
proof -
  let ?items = "cl_items q" and ?q1 = "\<lparr>rq_tag = cl_tag q, rq_command = cmd, rq_tokens = []\<rparr>"
  note head = feed_head [of "cl_tag q" "cl_name q" cp "cl_uid q" cmd _ m]
  have ok: "tag_ok (cl_tag q)" "command_name (cl_name q)" "\<not> eq_ignore_ascii_case (map to_ascii_uppercase (cl_name q)) ''UID''"
      "cp_parse cp (map to_ascii_uppercase (cl_name q)) (cl_uid q) = Some cmd"
    using assms by (simp_all add: request_ok_def)
  show ?thesis
  proof (cases "?items = []")
    case True
    with head [OF ok, of CR "LF # bs"] show ?thesis
      by (simp add: request_text_def received_def feed_stop_emit step_line_feed del: imap.feed.simps)
  next
    case False
    have "imap.feed cp (mid m Start ?q1 0 [] (Arg SP)) (items_text ?items @ CR # LF # bs) =
        emit (received q cmd) (imap.feed cp (fresh cp m Start) bs)"
      using feed_items [of True "[]" ?items cp ?q1 SP 0 m Start bs] assms
      by (simp add: request_ok_def received_def pending_def with_tokens_def del: imap.feed.simps)
    with False head [OF ok, of SP "items_text ?items @ CR # LF # bs"] show ?thesis
      by (simp add: request_text_def del: imap.feed.simps)
  qed
qed

fun receive_buffers :: "'c command_parser \<Rightarrow> 'c receiver \<Rightarrow> string list \<Rightarrow> (receiver_error + 'c request) list \<times> 'c receiver" where
  "receive_buffers cp r [] = ([], r)"
| "receive_buffers cp r (b # bufs) =
     (case receive_all cp r b of (xs, r') \<Rightarrow> (case receive_buffers cp r' bufs of (ys, r'') \<Rightarrow> (xs @ ys, r'')))"

lemma receive_buffers_feed: "receive_buffers cp r bufs = imap.feed cp r (concat bufs)"
  unfolding imap.feed_concat by (induction bufs arbitrary: r) (simp_all add: receive_all_feed)

lemma feed_requests:
  "list_all (\<lambda>(q, cmd). request_ok cp m q cmd) qs \<Longrightarrow>
     imap.feed cp (fresh cp m Start) (concat (map (request_text \<circ> fst) qs))
       = (concat (map (\<lambda>(q, cmd). received q cmd) qs), fresh cp m Start)"
  by (induction qs) (auto simp: feed_request emit_def simp del: imap.feed.simps(2))

text \<open>
  C19: IMAP requests arrive as they were sent. A client may send any number of requests, with
  atoms, quoted strings, literals of both kinds and parentheses, and the network may cut the
  bytes into reads anywhere: the receiver returns exactly these requests, each with its tag,
  its command and its arguments unescaped, asks for the data of each synchronising literal, and
  is left as it was at the start.
\<close>

theorem imap_requests_received:
  assumes "list_all (\<lambda>(q, cmd). request_ok cp m q cmd) qs"
    and "concat bufs = concat (map (request_text \<circ> fst) qs)"
  shows "receive_buffers cp (with_max_request_size cp m) bufs
    = (concat (map (\<lambda>(q, cmd). received q cmd) qs), with_max_request_size cp m)"
proof -
  have "with_max_request_size cp m = fresh cp m Start"
    by (simp add: with_max_request_size_def fresh_def mid_def)
  with feed_requests [OF assms(1)] show ?thesis by (simp add: receive_buffers_feed assms(2))
qed

definition example_requests :: "(client_request \<times> imap_command) list" where
  "example_requests =
     [(\<lparr>cl_tag = ''a1'', cl_uid = False, cl_name = ''LOGIN'',
        cl_items = [(False, Atom ''bob''), (True, Quoted [CHR ''x'', DQUOTE])]\<rparr>, Login),
      (\<lparr>cl_tag = ''a2'', cl_uid = True, cl_name = ''FETCH'',
        cl_items = [(False, Atom ''1''), (True, OpenList), (False, Atom ''FLAGS''), (False, CloseList)]\<rparr>, Fetch True),
      (\<lparr>cl_tag = ''a3'', cl_uid = False, cl_name = ''CREATE'', cl_items = [(False, Lit False ''x'')]\<rparr>, Create)]"

theorem imap_requests_received_witness:
  "receive_buffers imap_commands (with_max_request_size imap_commands 1000)
       [concat (map (request_text \<circ> fst) (take 2 example_requests)), concat (map (request_text \<circ> fst) (drop 2 example_requests))]
     = (concat (map (\<lambda>(q, cmd). received q cmd) example_requests), with_max_request_size imap_commands 1000)"
proof -
  have "list_all (\<lambda>(q, cmd). request_ok imap_commands 1000 q cmd) example_requests"
    by (simp add: example_requests_def request_ok_def tag_ok_def command_name_def items_size_def atom_char_def
        is_ascii_alphanumeric_def is_ascii_uppercase_def is_ascii_lowercase_def is_ascii_digit_def
        to_ascii_uppercase_def to_ascii_lowercase_def eq_ignore_ascii_case_def is_ascii_whitespace_def ARG_MAX_LEN_def
        imap_commands_def imap_command_parse_def imap_command_table_def)
  then show ?thesis by (rule imap_requests_received) (simp add: example_requests_def)
qed

end
