(* ===== verification/Imap_Limits.thy ===== *)
theory Imap_Limits
  imports Imap_Client
begin

text \<open>
  The limits of the receiver: what bounds its memory, and two ways around its checks.
\<close>

section \<open>Bounds\<close>

definition arguments_size :: "token list \<Rightarrow> nat" where
  "arguments_size ts = sum_list (map (\<lambda>t. case t of Argument v \<Rightarrow> length v | _ \<Rightarrow> 0) ts)"

lemma arguments_size_simps [simp]:
  "arguments_size [] = 0" "arguments_size (ts @ [Argument v]) = arguments_size ts + length v"
  "\<forall>v. t \<noteq> Argument v \<Longrightarrow> arguments_size (ts @ [t]) = arguments_size ts"
  by (auto simp: arguments_size_def split: token.split)

definition state_ok :: "nat \<Rightarrow> receiver_state \<Rightarrow> bool" where
  "state_ok len st \<longleftrightarrow>
     (case st of
        Start \<Rightarrow> len = 0 | Tag \<Rightarrow> len \<le> 128 | Command _ \<Rightarrow> len \<le> 15
      | Arg _ \<Rightarrow> len \<le> ARG_MAX_LEN | ArgumentQuoted _ \<Rightarrow> len \<le> ARG_MAX_LEN
      | Literal _ \<Rightarrow> len \<le> 15 | LiteralSeek _ _ \<Rightarrow> len = 0 | LiteralData n \<Rightarrow> 0 < n)"

definition claimed :: "receiver_state \<Rightarrow> nat" where
  "claimed st = (case st of LiteralSeek n _ \<Rightarrow> unat n | LiteralData n \<Rightarrow> unat n | _ \<Rightarrow> 0)"

definition sizes_ok :: "'c receiver \<Rightarrow> bool" where
  "sizes_ok r \<longleftrightarrow> rv_start r \<in> {Start, Command False} \<and> arguments_size (rq_tokens (rv_request r)) \<le> rv_size r
     \<and> rv_size r \<le> rv_max r"

definition receiver_ok :: "'c receiver \<Rightarrow> bool" where
  "receiver_ok r \<longleftrightarrow> sizes_ok r \<and> state_ok (length (rv_buf r)) (rv_state r)
     \<and> (claimed (rv_state r) > 0 \<longrightarrow> rv_size r + length (rv_buf r) + claimed (rv_state r) \<le> rv_max r)"

definition result_ok :: "nat \<Rightarrow> receiver_error + 'c request \<Rightarrow> bool" where
  "result_ok m x \<longleftrightarrow> (case x of Inl _ \<Rightarrow> True | Inr q \<Rightarrow> arguments_size (rq_tokens q) \<le> m)"

definition base :: "nat \<Rightarrow> 'c receiver \<Rightarrow> bool" where
  "base m r \<longleftrightarrow> sizes_ok r \<and> rv_max r = m"

text \<open>
  \<open>holds m Q p\<close>: if the step goes on, \<open>Q\<close> holds; if it ends with a result,
  the receiver has been reset and the result is within the limit.
\<close>

definition holds :: "nat \<Rightarrow> ('c receiver \<Rightarrow> bool) \<Rightarrow> 'c outcome \<Rightarrow> bool" where
  "holds m Q p \<longleftrightarrow> (case p of (r, None) \<Rightarrow> Q r | (r, Some x) \<Rightarrow> receiver_ok r \<and> rv_max r = m \<and> result_ok m x)"

lemma start_ok: "rv_start r \<in> {Start, Command False} \<Longrightarrow> state_ok 0 (rv_start r) \<and> claimed (rv_start r) = 0"
  by (auto simp: state_ok_def claimed_def)

lemma holds_error: "base m r \<Longrightarrow> holds m Q (error_reset cp msg r)"
  using start_ok [of r]
  by (simp add: error_reset_def holds_def base_def receiver_ok_def sizes_ok_def result_ok_def request_default_def)

lemma holds_finish: "base m r \<Longrightarrow> rv_buf r = [] \<Longrightarrow> holds m Q (finish cp r)"
  using start_ok [of r]
  by (simp add: finish_def holds_def base_def receiver_ok_def sizes_ok_def result_ok_def request_default_def)

lemma holds_goto: "Q (r\<lparr>rv_state := st\<rparr>) \<Longrightarrow> holds m Q (goto st r)"
  by (simp add: goto_def ret_def holds_def)

lemma holds_ret: "Q r \<Longrightarrow> holds m Q (ret r)"
  by (simp add: ret_def holds_def)

lemma holds_andthen: "holds m Q p \<Longrightarrow> (\<And>r. Q r \<Longrightarrow> holds m R (k r)) \<Longrightarrow> holds m R (andthen p k)"
  by (cases p; cases "snd p") (auto simp: holds_def andthen_def)

lemma holds_push_argument:
  assumes "base m r"
  shows "holds m (\<lambda>r'. base m r' \<and> rv_buf r' = [] \<and> rv_state r' = rv_state r) (push_argument cp b r)"
proof (cases "rv_buf r \<noteq> [] \<and> rv_max r < rv_size r + length (rv_buf r)")
  case True
  let ?r = "r\<lparr>rv_size := rv_size r + length (rv_buf r)\<rparr>"
  have "push_argument cp b r = error_reset cp (RequestTooLarge (rv_max r)) ?r"
    using True by (simp add: push_argument_def Let_def)
  then show ?thesis using start_ok [of r] assms
    by (simp add: error_reset_def holds_def base_def receiver_ok_def sizes_ok_def result_ok_def request_default_def)
next
  case False
  then show ?thesis using assms
    by (cases "rv_buf r = []"; cases b)
      (simp_all add: push_argument_def holds_def ret_def append_token_def base_def sizes_ok_def Let_def)
qed

lemma holds_push_token:
  assumes "base m r" and "\<forall>v. t \<noteq> Argument v"
  shows "holds m (\<lambda>r'. base m r' \<and> rv_buf r' = rv_buf r \<and> rv_state r' = rv_state r) (push_token cp t r)"
proof (cases "rv_max r < rv_size r + 1")
  case True
  let ?r = "r\<lparr>rv_size := rv_size r + 1\<rparr>"
  have "push_token cp t r = error_reset cp (RequestTooLarge (rv_max r)) ?r"
    using True by (simp add: push_token_def Let_def)
  then show ?thesis using start_ok [of r] assms
    by (simp add: error_reset_def holds_def base_def receiver_ok_def sizes_ok_def result_ok_def request_default_def)
next
  case False
  then show ?thesis using assms
    by (simp add: push_token_def holds_def ret_def append_token_def base_def sizes_ok_def Let_def)
qed

lemma holds_push_checked:
  assumes "base m r" and "length (rv_buf r) < limit \<Longrightarrow> Q (r\<lparr>rv_buf := rv_buf r @ [b]\<rparr>)"
  shows "holds m Q (push_checked cp b limit msg r)"
  using assms holds_error [OF assms(1)] by (simp add: push_checked_def holds_ret)

definition good :: "nat \<Rightarrow> 'c receiver \<Rightarrow> bool" where
  "good m r \<longleftrightarrow> receiver_ok r \<and> rv_max r = m"

lemma good_base: "good m r \<Longrightarrow> base m r"
  by (simp add: good_def base_def receiver_ok_def)

lemma goodI: "base m r \<Longrightarrow> state_ok (length (rv_buf r)) (rv_state r) \<Longrightarrow>
    (claimed (rv_state r) > 0 \<longrightarrow> rv_size r + length (rv_buf r) + claimed (rv_state r) \<le> m) \<Longrightarrow> good m r"
  by (simp add: good_def base_def receiver_ok_def)

lemma base_update [simp]: "base m (r\<lparr>rv_buf := w\<rparr>) = base m r" "base m (r\<lparr>rv_state := s\<rparr>) = base m r"
  by (simp_all add: base_def sizes_ok_def)

lemma holds_punctuation:
  fixes r :: "'c receiver"
  assumes "base m r" and "rv_state r = Arg l" and "\<forall>v. t \<noteq> Argument v"
  shows "holds m (good m) (punctuation cp t r)"
  unfolding punctuation_def
proof (rule holds_andthen [OF holds_push_argument [OF assms(1)]])
  fix r' :: "'c receiver" assume r': "base m r' \<and> rv_buf r' = [] \<and> rv_state r' = rv_state r"
  then have "holds m (\<lambda>r''. base m r'' \<and> rv_buf r'' = rv_buf r' \<and> rv_state r'' = rv_state r') (push_token cp t r')"
    using assms(3) by (intro holds_push_token) simp_all
  then show "holds m (good m) (push_token cp t r')"
    using r' assms(2) by (auto simp: holds_def state_ok_def claimed_def intro!: goodI split: prod.splits option.splits)
qed

lemma holds_argument_goto:
  assumes "base m r" and "state_ok 0 st" and "claimed st = 0"
  shows "holds m (good m) (andthen (push_argument cp b r) (goto st))"
  using assms(2,3) by (intro holds_andthen [OF holds_push_argument [OF assms(1)]] holds_goto goodI) auto

lemma good_len: "good m r \<Longrightarrow> state_ok (length (rv_buf r)) (rv_state r)"
  by (simp add: good_def receiver_ok_def)

lemma base_tag [simp]: "base m (r\<lparr>rv_request := (rv_request r)\<lparr>rq_tag := t\<rparr>\<rparr>) = base m r"
    "base m (r\<lparr>rv_request := (rv_request r)\<lparr>rq_command := c\<rparr>\<rparr>) = base m r"
  by (simp_all add: base_def sizes_ok_def)

lemma step_tag_good:
  assumes "good m r" and "rv_state r = Tag"
  shows "holds m (good m) (step_tag cp ch r)"
proof -
  have b: "base m r" and len: "length (rv_buf r) \<le> 128"
    using good_base good_len assms by (fastforce simp: state_ok_def)+
  have "holds m (good m) (goto (Command False) (r\<lparr>rv_buf := [], rv_request := (rv_request r)\<lparr>rq_tag := rv_buf r\<rparr>\<rparr>))"
    using b by (intro holds_goto goodI) (simp_all add: base_def sizes_ok_def state_ok_def claimed_def)
  moreover have "holds m (good m) (push_checked cp ch 128 TagTooLong r)"
    using assms(2) by (intro holds_push_checked b goodI) (simp_all add: b state_ok_def claimed_def)
  ultimately show ?thesis
    using b assms(1) by (simp add: step_tag_def Let_def holds_error holds_ret)
qed

lemma step_command_good:
  assumes "good m r" and "rv_state r = Command u"
  shows "holds m (good m) (step_command cp u ch r)"
proof -
  have b: "base m r" and len: "length (rv_buf r) \<le> 15"
    using good_base good_len assms by (fastforce simp: state_ok_def)+
  have "holds m (good m) (push_checked cp c 15 CommandTooLong r)" for c
    using assms(2) by (intro holds_push_checked b goodI) (simp_all add: b state_ok_def claimed_def)
  moreover have "holds m (good m) (goto (Arg SP) (r\<lparr>rv_request := (rv_request r)\<lparr>rq_command := c\<rparr>, rv_buf := []\<rparr>))" for c
    using b by (intro holds_goto goodI) (simp_all add: base_def sizes_ok_def state_ok_def claimed_def)
  moreover have "holds m (good m) (finish cp (r\<lparr>rv_request := (rv_request r)\<lparr>rq_command := c\<rparr>, rv_buf := []\<rparr>))" for c
    using b by (intro holds_finish) (simp_all add: base_def sizes_ok_def)
  moreover have "holds m (good m) (goto (Command True) (r\<lparr>rv_buf := []\<rparr>))"
    using b by (intro holds_goto goodI) (simp_all add: state_ok_def claimed_def)
  ultimately show ?thesis
    using b assms(1) by (simp add: step_command_def Let_def holds_error holds_ret split: option.split)
qed

lemma step_argument_good:
  assumes "good m r" and "rv_state r = Arg l"
  shows "holds m (good m) (step_argument cp l ch r)"
proof -
  have b: "base m r" and len: "length (rv_buf r) \<le> ARG_MAX_LEN"
    using good_base good_len assms by (fastforce simp: state_ok_def)+
  have goto: "holds m (good m) (andthen (push_argument cp False r) (goto st))"
    if "state_ok 0 st" "claimed st = 0" for st using b that by (rule holds_argument_goto)
  have lit: "holds m (good m) (goto (Literal False) (r\<lparr>rv_buf := []\<rparr>))"
    using b by (intro holds_goto goodI) (simp_all add: state_ok_def claimed_def)
  have punct: "holds m (good m) (punctuation cp t r)" if "\<forall>v. t \<noteq> Argument v" for t
    using b assms(2) that by (rule holds_punctuation)
  have fin: "holds m (good m) (andthen (push_argument cp False r) (finish cp))"
    by (rule holds_andthen [OF holds_push_argument [OF b]]) (simp add: holds_finish)
  have push: "holds m (good m) (andthen (push_checked cp ch ARG_MAX_LEN ArgumentTooLong r) (goto (Arg ch)))"
    using b by (intro holds_andthen [OF holds_push_checked [where Q = "\<lambda>r'. base m r' \<and> length (rv_buf r') \<le> ARG_MAX_LEN"]] holds_goto goodI)
      (simp_all add: state_ok_def claimed_def)
  show ?thesis using goto lit punct fin push
    by (simp add: step_argument_def Let_def state_ok_def claimed_def)
qed

lemma step_quoted_good:
  assumes "good m r" and "rv_state r = ArgumentQuoted e"
  shows "holds m (good m) (step_quoted cp e ch r)"
proof -
  have b: "base m r" and len: "length (rv_buf r) \<le> ARG_MAX_LEN"
    using good_base good_len assms by (fastforce simp: state_ok_def)+
  have push: "holds m (good m) (andthen (push_checked cp c ARG_MAX_LEN QuotedTooLong (r\<lparr>rv_buf := w\<rparr>)) (goto (ArgumentQuoted e')))" for e' w c
    using b by (intro holds_andthen [OF holds_push_checked [where Q = "\<lambda>r'. base m r' \<and> length (rv_buf r') \<le> ARG_MAX_LEN"]] holds_goto goodI)
      (simp_all add: state_ok_def claimed_def)
  have same: "r\<lparr>rv_buf := rv_buf r\<rparr> = r" by simp
  have goto: "holds m (good m) (goto (ArgumentQuoted True) r)"
    using b len by (intro holds_goto goodI) (simp_all add: state_ok_def claimed_def)
  have "holds m (good m) (andthen (push_argument cp True r) (goto (Arg SP)))"
    using b by (rule holds_argument_goto) (simp_all add: state_ok_def claimed_def)
  then show ?thesis using push goto push [of _ "rv_buf r", unfolded same] b
    by (simp add: step_quoted_def Let_def push_unchecked_def holds_error)
qed

lemma step_literal_good:
  assumes "good m r" and "rv_state r = Literal ns"
  shows "holds m (good m) (step_literal cp ns ch r)"
proof -
  have b: "base m r" and len: "length (rv_buf r) \<le> 15"
    using good_base good_len assms by (fastforce simp: state_ok_def)+
  have seek: "holds m (good m) (goto (LiteralSeek (of_nat n) ns) (r\<lparr>rv_buf := []\<rparr>))"
    if "parse_unsigned (2 ^ 32) s = Some n" "rv_size r + n \<le> rv_max r" for s n
  proof -
    have "n < 2 ^ 32" using that(1) by (auto simp: parse_unsigned_def Let_def split: if_splits)
    then have "unat (of_nat n :: u32) = n" by (simp add: unat_of_nat take_bit_nat_eq_self)
    moreover have "rv_max r = m" using b by (simp add: base_def)
    ultimately show ?thesis using b that(2) by (intro holds_goto goodI) (simp_all add: state_ok_def claimed_def)
  qed
  have plus: "holds m (good m) (goto (Literal True) r)"
    using b len by (intro holds_goto goodI) (simp_all add: state_ok_def claimed_def)
  have "holds m (good m) (push_checked cp ch 15 LiteralDigits r)"
    using assms(2) by (intro holds_push_checked b goodI) (simp_all add: b state_ok_def claimed_def)
  then show ?thesis using seek plus b
    by (cases ns) (simp_all add: step_literal_def holds_error split: option.split)
qed

lemma step_literal_seek_good:
  assumes "good m r" and "rv_state r = LiteralSeek n ns"
  shows "holds m (good m) (step_literal_seek cp n ns ch r)"
proof -
  have b: "base m r" and len: "rv_buf r = []" and fits: "0 < n \<Longrightarrow> rv_size r + unat n \<le> m"
    using assms by (auto simp: good_def base_def receiver_ok_def state_ok_def claimed_def word_gt_0 unat_gt_0)
  have "holds m (good m) (if n > 0 then goto (LiteralData n) r else push_token cp NilToken (r\<lparr>rv_state := Arg SP\<rparr>))"
  proof (cases "n > 0")
    case True
    with b len fits show ?thesis by (simp add: holds_goto goodI state_ok_def claimed_def)
  next
    case False
    have "holds m (\<lambda>r'. base m r' \<and> rv_buf r' = rv_buf (r\<lparr>rv_state := Arg SP\<rparr>) \<and> rv_state r' = rv_state (r\<lparr>rv_state := Arg SP\<rparr>))
        (push_token cp NilToken (r\<lparr>rv_state := Arg SP\<rparr>))"
      using b by (intro holds_push_token) simp_all
    with False len show ?thesis
      by (auto simp: holds_def state_ok_def claimed_def intro!: goodI split: prod.splits option.splits)
  qed
  then have "holds m (good m) (andthen (if n > 0 then goto (LiteralData n) r else push_token cp NilToken (r\<lparr>rv_state := Arg SP\<rparr>))
      (\<lambda>r. if \<not> ns then (r, Some (Inl (NeedsLiteral n))) else ret r))"
    by (rule holds_andthen) (simp add: holds_ret, simp add: holds_def good_def result_ok_def)
  then show ?thesis using b assms(1) by (simp add: step_literal_seek_def holds_error holds_ret)
qed

lemma step_literal_data_good:
  assumes "good m r" and "rv_state r = LiteralData n"
  shows "holds m (good m) (step_literal_data cp n ch r)"
proof -
  have b: "base m r" and n: "0 < n" and fits: "rv_size r + length (rv_buf r) + unat n \<le> m"
    using assms by (auto simp: good_def base_def receiver_ok_def state_ok_def claimed_def unat_gt_0)
  let ?r = "r\<lparr>rv_buf := rv_buf r @ [ch]\<rparr>"
  have "1 < n \<Longrightarrow> unat (n - 1) + 1 = unat n"
    by (simp add: unat_sub word_le_nat_alt word_less_nat_alt)
  moreover have "1 < n \<Longrightarrow> 0 < n - 1" by (simp add: word_less_nat_alt unat_sub word_le_nat_alt)
  ultimately have "1 < n \<Longrightarrow> holds m (good m) (goto (LiteralData (n - 1)) ?r)"
    using b fits by (intro holds_goto goodI) (simp_all add: state_ok_def claimed_def)
  moreover have "holds m (good m) (andthen (push_argument cp False ?r) (goto (Arg SP)))"
    using b by (intro holds_argument_goto) (simp_all add: state_ok_def claimed_def)
  ultimately show ?thesis by (simp add: step_literal_data_def Let_def push_unchecked_def)
qed

lemma receiver_step_good:
  assumes "good m r"
  shows "holds m (good m) (receiver_step cp r ch)"
proof (cases "rv_state r")
  case Start
  then have "rv_buf r = []" using good_len [OF assms] by (simp add: state_ok_def)
  then show ?thesis using assms good_base [OF assms] Start
    by (simp add: receiver_step_def push_unchecked_def holds_ret holds_goto goodI state_ok_def claimed_def)
qed (use assms in \<open>simp_all add: receiver_step_def step_tag_good step_command_good step_argument_good
  step_quoted_good step_literal_good step_literal_seek_good step_literal_data_good\<close>)

text \<open>
  C24: IMAP limits. Whatever bytes arrive, in whatever pieces, the receiver keeps at most
  \<open>max_request_size\<close> bytes of arguments, never holds more than that or 8000 bytes
  in its buffer, never accepts a literal that does not fit, and never returns a request whose
  arguments are longer in total.
\<close>

theorem imap_receiver_bounds:
  shows "case receive_buffers cp (with_start_state (if tagged then Start else Command False) (with_max_request_size cp m)) bufs of
      (results, r) \<Rightarrow>
        length (rv_buf r) \<le> max ARG_MAX_LEN m
      \<and> arguments_size (rq_tokens (rv_request r)) + claimed (rv_state r) \<le> m
      \<and> list_all (result_ok m) results"
proof -
  define r0 where "r0 = with_start_state (if tagged then Start else Command False) (with_max_request_size cp m)"
  have start: "good m r0"
    by (simp add: r0_def good_def receiver_ok_def sizes_ok_def with_start_state_def with_max_request_size_def
        request_default_def state_ok_def claimed_def)
  have step: "good m r \<Longrightarrow> good m (fst (receiver_step cp r b)) \<and> (\<forall>x. snd (receiver_step cp r b) = Some x \<longrightarrow> result_ok m x)" for r b
    using receiver_step_good [of m r cp b] by (auto simp: holds_def good_def split: prod.splits option.splits)
  have "list_all (result_ok m) (fst (imap.feed cp r0 (concat bufs)))"
    using step start by (rule imap.feed_all_results)
  moreover have "good m (snd (imap.feed cp r0 (concat bufs)))"
    by (rule imap.feed_inv [where I = "good m", OF conjunct1 [OF step] start])
  moreover have "length (rv_buf r) \<le> max ARG_MAX_LEN m \<and> arguments_size (rq_tokens (rv_request r)) + claimed (rv_state r) \<le> m"
    if "good m r" for r
  proof -
    have sizes: "arguments_size (rq_tokens (rv_request r)) \<le> rv_size r" "rv_size r \<le> m"
      and st: "state_ok (length (rv_buf r)) (rv_state r)"
      and fits: "claimed (rv_state r) > 0 \<longrightarrow> rv_size r + length (rv_buf r) + claimed (rv_state r) \<le> m"
      using that by (auto simp: good_def receiver_ok_def sizes_ok_def)
    have "claimed (rv_state r) = 0 \<Longrightarrow> length (rv_buf r) \<le> ARG_MAX_LEN"
      using st by (cases "rv_state r") (simp_all add: state_ok_def claimed_def ARG_MAX_LEN_def unsigned_eq_0_iff)
    with sizes fits show ?thesis by (cases "claimed (rv_state r) = 0") simp_all
  qed
  ultimately show ?thesis by (simp add: receive_buffers_feed split_beta flip: r0_def)
qed

section \<open>Where the limits fail\<close>

lemma imap_command_eval: "imap_command_parse ''LIST'' u = Some List" "imap_command_parse ''APPEND'' u = Some Append"
    "imap_command_parse ''NOOP'' u = Some Noop"
  by (simp_all add: imap_command_parse_def imap_command_table_def)

lemma name_eval:
  "command_name ''LIST''" "command_name ''APPEND''" "map to_ascii_uppercase ''LIST'' = ''LIST''"
  "map to_ascii_uppercase ''APPEND'' = ''APPEND''" "tag_ok ''a''"
  "\<not> eq_ignore_ascii_case ''LIST'' ''UID''" "\<not> eq_ignore_ascii_case ''APPEND'' ''UID''"
  by code_simp+

lemma imap_simps [simp]: "cp_parse imap_commands = imap_command_parse"
    "cp_tokenize_brackets imap_commands = imap_tokenize_brackets"
  by (simp_all add: imap_commands_def)

text \<open>
  C25: a refused literal becomes commands. When a client announces a non-synchronising literal
  that is too large, the request fails with one error; the receiver is at the beginning again,
  and the bytes of the literal that follow, the content of a message for instance, are read as
  commands.
\<close>

theorem imap_refused_literal_is_parsed:
  assumes "m < k" and "k < 2 ^ 32"
  shows "receive_all imap_commands (with_max_request_size imap_commands m)
      (''a APPEND {'' @ nat_to_string k @ ''+}'' @ [CR, LF] @ content)
    = emit [Inl (Failed (Some ''a'') (LiteralTooLarge m))]
        (receive_all imap_commands (with_max_request_size imap_commands m) content)"
proof -
  let ?cp = imap_commands and ?ds = "nat_to_string k"
  let ?q = "\<lparr>rq_tag = ''a'', rq_command = Append, rq_tokens = []\<rparr>"
  let ?m = "mid m Start ?q 0"
  have len: "length ?ds \<le> 15" using assms(2) nat_to_string_length [of 15 k] by simp
  have head: "imap.feed ?cp (fresh ?cp m Start) (''a APPEND '' @ bs) = imap.feed ?cp (?m [] (Arg SP)) bs" for bs
  proof -
    have "imap.feed ?cp (fresh ?cp m Start) (''a'' @ SP # (if False then ''UID '' else []) @ ''APPEND'' @ SP # bs) = imap.feed ?cp (?m [] (Arg SP)) bs"
      by (rule feed_head) (simp_all only: name_eval imap_command_eval imap_simps insertI1 not_False_eq_True)
    then show ?thesis by (simp del: imap.feed.simps)
  qed
  have "receiver_step ?cp (?m [] (Arg SP)) CHR ''{'' = (?m [] (Literal False), None)"
    by (simp add: receiver_step_def step_argument_def flow)
  moreover have "receiver_step ?cp (?m ?ds (Literal False)) CHR ''+'' = (?m ?ds (Literal True), None)"
    by (simp add: steps flow)
  moreover have "receiver_step ?cp (?m ?ds (Literal True)) CHR ''}'' = (fresh ?cp m Start, Some (Inl (Failed (Some ''a'') (LiteralTooLarge m))))"
    using assms parse_unsigned_nat_to_string [of k "2 ^ 32"] digits_utf8 [OF nat_to_string_digits]
    by (simp add: receiver_step_def step_literal_def flow buf_as_str_def error_reset_def fresh_def)
  moreover have "imap.feed ?cp (?m [] (Literal False)) (?ds @ xs) = imap.feed ?cp (?m ?ds (Literal False)) xs" for xs
    using feed_digits [OF nat_to_string_digits, of "[]" k] len by simp
  moreover have "receiver_step ?cp (fresh ?cp m Start) c = (fresh ?cp m Start, None)" if "c \<in> {CR, LF}" for c
    using that by (auto simp: receiver_step_def fresh_def flow)
  ultimately have "imap.feed ?cp (fresh ?cp m Start) (''a APPEND '' @ ''{'' @ ?ds @ ''+}'' @ [CR, LF] @ content) =
      emit [Inl (Failed (Some ''a'') (LiteralTooLarge m))] (imap.feed ?cp (fresh ?cp m Start) content)"
    unfolding head by (simp add: feed_cont feed_stop_emit del: imap.feed.simps)
  then show ?thesis by (simp add: receive_all_feed with_max_request_size_def fresh_def mid_def del: imap.feed.simps)
qed

theorem imap_refused_literal_is_parsed_witness:
  "receive_all imap_commands (with_max_request_size imap_commands 1000)
      (''a APPEND {'' @ nat_to_string 5000 @ ''+}'' @ [CR, LF] @ ''x LOGOUT'')
    = emit [Inl (Failed (Some ''a'') (LiteralTooLarge 1000))]
        (receive_all imap_commands (with_max_request_size imap_commands 1000) ''x LOGOUT'')"
  by (rule imap_refused_literal_is_parsed) simp_all

text \<open>
  Empty quoted strings are not counted: a request of any number of them is accepted, whatever
  the limit, and each of them is kept as a token.
\<close>

theorem imap_empty_strings_unbounded:
  "\<exists>r. receive_all imap_commands (with_max_request_size imap_commands m)
      (''a LIST '' @ concat (replicate n [DQUOTE, DQUOTE])) = ([], r)
    \<and> length (rq_tokens (rv_request r)) = n"
proof -
  let ?cp = imap_commands
  let ?q = "\<lambda>n. \<lparr>rq_tag = ''a'', rq_command = List, rq_tokens = replicate n NilToken\<rparr>"
  have "receiver_step ?cp (mid m Start (?q k) 0 [] (Arg SP)) DQUOTE = (mid m Start (?q k) 0 [] (ArgumentQuoted False), None)"
      "receiver_step ?cp (mid m Start (?q k) 0 [] (ArgumentQuoted False)) DQUOTE = (mid m Start (?q (Suc k)) 0 [] (Arg SP), None)" for k
    by (simp_all add: steps flow replicate_append_same)
  then have two: "imap.feed ?cp (mid m Start (?q k) 0 [] (Arg SP)) (DQUOTE # DQUOTE # bs) = imap.feed ?cp (mid m Start (?q (Suc k)) 0 [] (Arg SP)) bs" for k bs
    by (simp only: feed_cont)
  have "imap.feed ?cp (mid m Start (?q k) 0 [] (Arg SP)) (concat (replicate n [DQUOTE, DQUOTE])) = ([], mid m Start (?q (k + n)) 0 [] (Arg SP))" for k
  proof (induction n arbitrary: k)
    case (Suc n)
    show ?case using two [of k] Suc.IH [of "Suc k"] by (simp del: imap.feed.simps)
  qed simp
  from this [of 0] have list: "imap.feed ?cp (mid m Start (?q 0) 0 [] (Arg SP)) (concat (replicate n [DQUOTE, DQUOTE])) = ([], mid m Start (?q n) 0 [] (Arg SP))"
    by simp
  have "imap.feed ?cp (fresh ?cp m Start) (''a'' @ SP # (if False then ''UID '' else []) @ ''LIST'' @ SP # bs) = imap.feed ?cp (mid m Start \<lparr>rq_tag = ''a'', rq_command = List, rq_tokens = []\<rparr> 0 [] (Arg SP)) bs" for bs
    by (rule feed_head) (simp_all only: name_eval imap_command_eval imap_simps insertI1 not_False_eq_True)
  with list have "imap.feed ?cp (fresh ?cp m Start) (''a LIST '' @ concat (replicate n [DQUOTE, DQUOTE])) = ([], mid m Start (?q n) 0 [] (Arg SP))"
    by (simp del: imap.feed.simps)
  then show ?thesis by (simp add: receive_all_feed with_max_request_size_def fresh_def mid_def del: imap.feed.simps)
qed

end
