(* ===== verification/Expr_Values.thy ===== *)
theory Expr_Values
  imports Prelude
begin

text \<open>
  The values of the expression language (\<^verbatim>\<open>crates/common/src/expr/mod.rs\<close> and the
  operators of \<^verbatim>\<open>eval.rs\<close>), with which the server's configuration is written, and the
  tables of names that expressions use (\<^verbatim>\<open>crates/registry/src/schema/enums_impl.rs\<close>).

  An \<open>ExpressionVariable\<close> or \<open>ExpressionConstant\<close> is its name, which the enum's
  \<open>parse\<close> and \<open>as_str\<close> translate one to one. Floating-point arithmetic is a record
  of operations on a type \<^typ>\<open>'f\<close> that the definitions take as an argument.
\<close>

type_synonym i64 = "64 word"

section \<open>Names\<close>

definition expression_constants :: "string list" where
  "expression_constants = [
     ''relaxed'', ''strict'', ''disable'', ''optional'', ''require'', ''ipv4_only'', ''ipv6_only'',
     ''ipv6_then_ipv4'', ''ipv4_then_ipv6'', ''hourly'', ''daily'', ''weekly'', ''login'', ''plain'',
     ''xoauth2'', ''oauthbearer'', ''mixer'', ''stanag4406'', ''nsep'']"

definition expression_variables :: "string list" where
  "expression_variables = [
     ''asn'', ''attributes'', ''authenticated_as'', ''authority'', ''bcc'', ''bcc.domain'',
     ''bcc.local'', ''bcc.name'', ''body'', ''body.html'', ''body.raw'', ''body.text'',
     ''body.words'', ''cc'', ''cc.domain'', ''cc.local'', ''cc.name'', ''country'', ''domain'',
     ''email'', ''email_lower'', ''env_from'', ''env_from.domain'', ''env_from.local'',
     ''env_to'', ''expires_in'', ''from'', ''from.domain'', ''from.local'', ''from.name'',
     ''headers'', ''helo_domain'', ''host'', ''ip'', ''ip_reverse'', ''is_tls'', ''is_v4'',
     ''is_v6'', ''last_error'', ''last_status'', ''listener'', ''local'', ''local_ip'',
     ''local_port'', ''location'', ''method'', ''mx'', ''name'', ''name_lower'',
     ''notify_num'', ''octets'', ''path'', ''path_query'', ''port'', ''priority'',
     ''protocol'', ''query'', ''queue_age'', ''queue_name'', ''raw'', ''raw_lower'', ''rcpt'',
     ''rcpt_domain'', ''received_from_ip'', ''received_via_port'', ''recipients'',
     ''remote_ip'', ''remote_ip.ptr'', ''remote_port'', ''reply_to'', ''reply_to.domain'',
     ''reply_to.local'', ''reply_to.name'', ''retry_num'', ''reverse_ip'', ''scheme'',
     ''sender'', ''sender_domain'', ''size'', ''sld'', ''source'', ''subject'',
     ''subject.thread'', ''subject.words'', ''to'', ''to.domain'', ''to.local'', ''to.name'',
     ''url'', ''value'', ''value_lower'']"

text \<open>\<open>to_id\<close>: the number of a constant.\<close>

definition constant_to_id :: "string \<Rightarrow> nat" where
  "constant_to_id c = length (takeWhile (\<lambda>d. d \<noteq> c) expression_constants)"

section \<open>Numbers\<close>

datatype ordering = Less | Equal | Greater

text \<open>The operations of \<open>f64\<close> that the code uses.\<close>

record 'f float_ops =
  f_add :: "'f \<Rightarrow> 'f \<Rightarrow> 'f"
  f_sub :: "'f \<Rightarrow> 'f \<Rightarrow> 'f"
  f_mul :: "'f \<Rightarrow> 'f \<Rightarrow> 'f"
  f_div :: "'f \<Rightarrow> 'f \<Rightarrow> 'f"
  f_neg :: "'f \<Rightarrow> 'f"
  f_cmp :: "'f \<Rightarrow> 'f \<Rightarrow> ordering option"
  f_of_i64 :: "i64 \<Rightarrow> 'f"
  f_to_i64 :: "'f \<Rightarrow> i64"
  f_to_u64 :: "'f \<Rightarrow> u64"
  f_parse :: "string \<Rightarrow> 'f option"
  f_display :: "'f \<Rightarrow> string"
  f_compact :: "'f \<Rightarrow> string"

definition f_zero :: "'f float_ops \<Rightarrow> 'f" where
  "f_zero fl = f_of_i64 fl 0"

definition f_eq :: "'f float_ops \<Rightarrow> 'f \<Rightarrow> 'f \<Rightarrow> bool" where
  "f_eq fl a b \<longleftrightarrow> f_cmp fl a b = Some Equal"

text \<open>The saturating operations of \<open>i64\<close>.\<close>

definition sat_i64 :: "int \<Rightarrow> i64" where
  "sat_i64 n = word_of_int (max (- (2 ^ 63)) (min (2 ^ 63 - 1) n))"

text \<open>\<open>str::parse::<i64>()\<close>\<close>

definition parse_i64 :: "string \<Rightarrow> i64 option" where
  "parse_i64 s =
     (if s \<noteq> [] \<and> hd s = CHR ''-'' then
        (let ds = tl s
         in if ds \<noteq> [] \<and> list_all is_ascii_digit ds \<and> decimal_value ds \<le> 2 ^ 63
            then Some (- of_nat (decimal_value ds)) else None)
      else map_option of_nat (parse_unsigned (2 ^ 63) s))"

definition i64_to_string :: "i64 \<Rightarrow> string" where
  "i64_to_string n =
     (if sint n < 0 then CHR ''-'' # nat_to_string (nat (- sint n)) else nat_to_string (nat (sint n)))"

section \<open>Variables\<close>

datatype 'f variable =
    StringV string
  | IntegerV i64
  | FloatV 'f
  | ArrayV "'f variable list"
  | ConstantV string

definition variable_default :: "'f variable" where
  "variable_default = StringV []"

definition from_bool :: "bool \<Rightarrow> 'f variable" where
  "from_bool b = IntegerV (if b then 1 else 0)"

definition from_u64 :: "u64 \<Rightarrow> 'f variable" where
  "from_u64 n = IntegerV n"

fun to_bool :: "'f float_ops \<Rightarrow> 'f variable \<Rightarrow> bool" where
  "to_bool fl (FloatV f) \<longleftrightarrow> \<not> f_eq fl f (f_zero fl)"
| "to_bool fl (IntegerV n) \<longleftrightarrow> n \<noteq> 0"
| "to_bool fl (StringV s) \<longleftrightarrow> s \<noteq> []"
| "to_bool fl (ArrayV a) \<longleftrightarrow> a \<noteq> []"
| "to_bool fl (ConstantV c) \<longleftrightarrow> True"

fun parse_number :: "'f float_ops \<Rightarrow> 'f variable \<Rightarrow> 'f variable" where
  "parse_number fl (StringV s) =
     (if s \<noteq> [] then
        (case parse_i64 s of
           Some n \<Rightarrow> IntegerV n
         | None \<Rightarrow> (case f_parse fl s of Some n \<Rightarrow> FloatV n | None \<Rightarrow> IntegerV 0))
      else IntegerV 0)"
| "parse_number fl (IntegerV n) = IntegerV n"
| "parse_number fl (FloatV n) = FloatV n"
| "parse_number fl (ArrayV l) = IntegerV (if l = [] then 1 else 0)"
| "parse_number fl (ConstantV c) = IntegerV 0"

fun to_integer :: "'f float_ops \<Rightarrow> 'f variable \<Rightarrow> i64 option" where
  "to_integer fl (IntegerV n) = Some n"
| "to_integer fl (FloatV n) = Some (f_to_i64 fl n)"
| "to_integer fl (StringV s) = (if s \<noteq> [] then parse_i64 s else None)"
| "to_integer fl _ = None"

fun to_usize :: "'f float_ops \<Rightarrow> 'f variable \<Rightarrow> usize option" where
  "to_usize fl (IntegerV n) = Some n"
| "to_usize fl (FloatV n) = Some (f_to_u64 fl n)"
| "to_usize fl (StringV s) = (if s \<noteq> [] then map_option of_nat (parse_unsigned (2 ^ 64) s) else None)"
| "to_usize fl _ = None"

text \<open>\<open>to_string\<close> and \<open>into_string\<close>, and the items of an array as they print them.\<close>

fun item_string :: "'f float_ops \<Rightarrow> 'f variable \<Rightarrow> string" where
  "item_string fl (StringV s) = s"
| "item_string fl (IntegerV n) = i64_to_string n"
| "item_string fl (FloatV n) = f_compact fl n"
| "item_string fl (ArrayV l) = []"
| "item_string fl (ConstantV c) = c"

fun variable_to_string :: "'f float_ops \<Rightarrow> 'f variable \<Rightarrow> string" where
  "variable_to_string fl (ArrayV l) =
     foldl (\<lambda>result v. (if result \<noteq> [] then result @ [CR, LF] else result) @ item_string fl v) [] l"
| "variable_to_string fl v = item_string fl v"

text \<open>\<open>Display\<close>\<close>

fun display :: "'f float_ops \<Rightarrow> 'f variable \<Rightarrow> string"
  and display_rest :: "'f float_ops \<Rightarrow> 'f variable list \<Rightarrow> string" where
  "display fl (StringV s) = s"
| "display fl (IntegerV n) = i64_to_string n"
| "display fl (FloatV n) = f_display fl n"
| "display fl (ArrayV l) = (case l of [] \<Rightarrow> [] | v # vs \<Rightarrow> display fl v @ display_rest fl vs)"
| "display fl (ConstantV c) = c"
| "display_rest fl [] = []"
| "display_rest fl (v # vs) = LF # display fl v @ display_rest fl vs"

fun variable_len :: "'f variable \<Rightarrow> nat" where
  "variable_len (StringV s) = length s"
| "variable_len (IntegerV _) = 2"
| "variable_len (FloatV _) = 2"
| "variable_len (ArrayV l) = sum_list (map (\<lambda>v. variable_len v + 2) l)"
| "variable_len (ConstantV c) = length c"

fun variable_is_empty :: "'f variable \<Rightarrow> bool" where
  "variable_is_empty (StringV s) \<longleftrightarrow> s = []"
| "variable_is_empty _ \<longleftrightarrow> False"

fun into_array :: "'f variable \<Rightarrow> 'f variable list" where
  "into_array (ArrayV l) = l"
| "into_array v = (if \<not> variable_is_empty v then [v] else [])"

section \<open>Equality and order\<close>

fun number_eq :: "'f float_ops \<Rightarrow> 'f variable \<Rightarrow> 'f variable \<Rightarrow> bool" where
  "number_eq fl (IntegerV a) (IntegerV b) \<longleftrightarrow> a = b"
| "number_eq fl (FloatV a) (FloatV b) \<longleftrightarrow> f_eq fl a b"
| "number_eq fl (IntegerV a) (FloatV b) \<longleftrightarrow> f_eq fl (f_of_i64 fl a) b"
| "number_eq fl (FloatV b) (IntegerV a) \<longleftrightarrow> f_eq fl (f_of_i64 fl a) b"
| "number_eq fl a b \<longleftrightarrow> False"

fun variable_eq :: "'f float_ops \<Rightarrow> 'f variable \<Rightarrow> 'f variable \<Rightarrow> bool"
  and variables_eq :: "'f float_ops \<Rightarrow> 'f variable list \<Rightarrow> 'f variable list \<Rightarrow> bool" where
  "variable_eq fl (StringV a) (StringV b) \<longleftrightarrow> a = b"
| "variable_eq fl (StringV a) (IntegerV b) \<longleftrightarrow> number_eq fl (parse_number fl (StringV a)) (IntegerV b)"
| "variable_eq fl (StringV a) (FloatV b) \<longleftrightarrow> number_eq fl (parse_number fl (StringV a)) (FloatV b)"
| "variable_eq fl (IntegerV a) (StringV b) \<longleftrightarrow> number_eq fl (IntegerV a) (parse_number fl (StringV b))"
| "variable_eq fl (FloatV a) (StringV b) \<longleftrightarrow> number_eq fl (FloatV a) (parse_number fl (StringV b))"
| "variable_eq fl (ArrayV a) (ArrayV b) \<longleftrightarrow> variables_eq fl a b"
| "variable_eq fl a b \<longleftrightarrow> number_eq fl a b"
| "variables_eq fl [] [] \<longleftrightarrow> True"
| "variables_eq fl (a # as) (b # bs) \<longleftrightarrow> variable_eq fl a b \<and> variables_eq fl as bs"
| "variables_eq fl _ _ \<longleftrightarrow> False"

definition int_cmp :: "int \<Rightarrow> int \<Rightarrow> ordering" where
  "int_cmp a b = (if a < b then Less else if a = b then Equal else Greater)"

fun string_cmp :: "string \<Rightarrow> string \<Rightarrow> ordering" where
  "string_cmp [] [] = Equal"
| "string_cmp [] (b # bs) = Less"
| "string_cmp (a # as) [] = Greater"
| "string_cmp (a # as) (b # bs) =
     (if a = b then string_cmp as bs else int_cmp (int (code a)) (int (code b)))"

text \<open>\<open>partial_cmp\<close>, its numeric cases, and the order of vectors in the standard library.\<close>

fun number_cmp :: "'f float_ops \<Rightarrow> 'f variable \<Rightarrow> 'f variable \<Rightarrow> ordering option" where
  "number_cmp fl (IntegerV a) (IntegerV b) = Some (int_cmp (sint a) (sint b))"
| "number_cmp fl (FloatV a) (FloatV b) = f_cmp fl a b"
| "number_cmp fl (IntegerV a) (FloatV b) = f_cmp fl (f_of_i64 fl a) b"
| "number_cmp fl (FloatV a) (IntegerV b) = f_cmp fl a (f_of_i64 fl b)"
| "number_cmp fl a b = None"

fun variable_cmp :: "'f float_ops \<Rightarrow> 'f variable \<Rightarrow> 'f variable \<Rightarrow> ordering option"
  and variables_cmp :: "'f float_ops \<Rightarrow> 'f variable list \<Rightarrow> 'f variable list \<Rightarrow> ordering option" where
  "variable_cmp fl (IntegerV a) (IntegerV b) = number_cmp fl (IntegerV a) (IntegerV b)"
| "variable_cmp fl (FloatV a) (FloatV b) = number_cmp fl (FloatV a) (FloatV b)"
| "variable_cmp fl (IntegerV a) (FloatV b) = number_cmp fl (IntegerV a) (FloatV b)"
| "variable_cmp fl (FloatV a) (IntegerV b) = number_cmp fl (FloatV a) (IntegerV b)"
| "variable_cmp fl (StringV a) (StringV b) = Some (string_cmp a b)"
| "variable_cmp fl (StringV a) (IntegerV b) = number_cmp fl (parse_number fl (StringV a)) (IntegerV b)"
| "variable_cmp fl (StringV a) (FloatV b) = number_cmp fl (parse_number fl (StringV a)) (FloatV b)"
| "variable_cmp fl (IntegerV a) (StringV b) = number_cmp fl (IntegerV a) (parse_number fl (StringV b))"
| "variable_cmp fl (FloatV a) (StringV b) = number_cmp fl (FloatV a) (parse_number fl (StringV b))"
| "variable_cmp fl (ArrayV a) (ArrayV b) = variables_cmp fl a b"
| "variable_cmp fl (ArrayV a) b = Some Greater"
| "variable_cmp fl (StringV a) b = Some Greater"
| "variable_cmp fl (ConstantV a) (ConstantV b) =
     Some (int_cmp (int (constant_to_id a)) (int (constant_to_id b)))"
| "variable_cmp fl a b = Some Less"
| "variables_cmp fl [] [] = Some Equal"
| "variables_cmp fl [] (b # bs) = Some Less"
| "variables_cmp fl (a # as) [] = Some Greater"
| "variables_cmp fl (a # as) (b # bs) =
     (case variable_cmp fl a b of Some Equal \<Rightarrow> variables_cmp fl as bs | c \<Rightarrow> c)"

text \<open>\<open>Ord::cmp\<close>\<close>

definition variable_ord :: "'f float_ops \<Rightarrow> 'f variable \<Rightarrow> 'f variable \<Rightarrow> ordering" where
  "variable_ord fl a b = (case variable_cmp fl a b of Some c \<Rightarrow> c | None \<Rightarrow> Greater)"

section \<open>Operators\<close>

datatype binary_operator =
  Add | Subtract | Multiply | Divide | And | Or | Xor | Eq | Ne | Lt | Le | Gt | Ge

datatype unary_operator = Not | Minus

text \<open>The numeric cases of the operators; \<open>arith\<close> also makes the operands numbers first.\<close>

fun number_op :: "'f float_ops \<Rightarrow> (int \<Rightarrow> int \<Rightarrow> int) \<Rightarrow> ('f \<Rightarrow> 'f \<Rightarrow> 'f) \<Rightarrow>
    'f variable \<Rightarrow> 'f variable \<Rightarrow> 'f variable" where
  "number_op fl iop fop (IntegerV a) (IntegerV b) = IntegerV (sat_i64 (iop (sint a) (sint b)))"
| "number_op fl iop fop (FloatV a) (FloatV b) = FloatV (fop a b)"
| "number_op fl iop fop (IntegerV a) (FloatV b) = FloatV (fop (f_of_i64 fl a) b)"
| "number_op fl iop fop (FloatV a) (IntegerV b) = FloatV (fop a (f_of_i64 fl b))"
| "number_op fl iop fop a b = variable_default"

definition arith :: "'f float_ops \<Rightarrow> (int \<Rightarrow> int \<Rightarrow> int) \<Rightarrow> ('f \<Rightarrow> 'f \<Rightarrow> 'f) \<Rightarrow>
    'f variable \<Rightarrow> 'f variable \<Rightarrow> 'f variable" where
  "arith fl iop fop a b = number_op fl iop fop (parse_number fl a) (parse_number fl b)"

fun op_add :: "'f float_ops \<Rightarrow> 'f variable \<Rightarrow> 'f variable \<Rightarrow> 'f variable" where
  "op_add fl (IntegerV a) (IntegerV b) = IntegerV (sat_i64 (sint a + sint b))"
| "op_add fl (FloatV a) (FloatV b) = FloatV (f_add fl a b)"
| "op_add fl (IntegerV i) (FloatV f) = FloatV (f_add fl (f_of_i64 fl i) f)"
| "op_add fl (FloatV f) (IntegerV i) = FloatV (f_add fl (f_of_i64 fl i) f)"
| "op_add fl (ArrayV a) (ArrayV b) = ArrayV (a @ b)"
| "op_add fl (ArrayV a) b = ArrayV (a @ [b])"
| "op_add fl a (ArrayV b) = ArrayV (a # b)"
| "op_add fl (StringV a) b = (if a \<noteq> [] then StringV (a @ display fl b) else b)"
| "op_add fl a (StringV b) = (if b \<noteq> [] then StringV (display fl a @ b) else a)"
| "op_add fl a (ConstantV _) = a"
| "op_add fl (ConstantV _) b = b"

fun op_subtract :: "'f float_ops \<Rightarrow> 'f variable \<Rightarrow> 'f variable \<Rightarrow> 'f variable" where
  "op_subtract fl (ArrayV a) b = ArrayV (filter (\<lambda>v. \<not> variable_eq fl v b) a)"
| "op_subtract fl b (ArrayV a) = ArrayV (filter (\<lambda>v. \<not> variable_eq fl v b) a)"
| "op_subtract fl a b = arith fl (-) (f_sub fl) a b"

text \<open>The operands of \<open>op_multiply\<close> are swapped when the left one is the float.\<close>

fun op_multiply :: "'f float_ops \<Rightarrow> 'f variable \<Rightarrow> 'f variable \<Rightarrow> 'f variable" where
  "op_multiply fl a b =
     (case (parse_number fl a, parse_number fl b) of
        (FloatV f, IntegerV i) \<Rightarrow> FloatV (f_mul fl (f_of_i64 fl i) f)
      | (a, b) \<Rightarrow> number_op fl (*) (f_mul fl) a b)"

text \<open>Division is in floating point, and a division by zero is zero.\<close>

definition div_or_zero :: "'f float_ops \<Rightarrow> 'f \<Rightarrow> 'f \<Rightarrow> 'f" where
  "div_or_zero fl a b = (if \<not> f_eq fl b (f_zero fl) then f_div fl a b else f_zero fl)"

fun number_divide :: "'f float_ops \<Rightarrow> 'f variable \<Rightarrow> 'f variable \<Rightarrow> 'f variable" where
  "number_divide fl (IntegerV a) (IntegerV b) =
     FloatV (if b \<noteq> 0 then f_div fl (f_of_i64 fl a) (f_of_i64 fl b) else f_zero fl)"
| "number_divide fl (FloatV a) (FloatV b) = FloatV (div_or_zero fl a b)"
| "number_divide fl (IntegerV a) (FloatV b) = FloatV (div_or_zero fl (f_of_i64 fl a) b)"
| "number_divide fl (FloatV a) (IntegerV b) =
     FloatV (if b \<noteq> 0 then f_div fl a (f_of_i64 fl b) else f_zero fl)"
| "number_divide fl a b = variable_default"

definition op_divide :: "'f float_ops \<Rightarrow> 'f variable \<Rightarrow> 'f variable \<Rightarrow> 'f variable" where
  "op_divide fl a b = number_divide fl (parse_number fl a) (parse_number fl b)"

definition op_minus :: "'f float_ops \<Rightarrow> 'f variable \<Rightarrow> 'f variable" where
  "op_minus fl v =
     (case parse_number fl v of
        IntegerV n \<Rightarrow> IntegerV (- n)
      | FloatV n \<Rightarrow> FloatV (f_neg fl n)
      | w \<Rightarrow> w)"

definition unary_op :: "'f float_ops \<Rightarrow> unary_operator \<Rightarrow> 'f variable \<Rightarrow> 'f variable" where
  "unary_op fl u v =
     (case u of Not \<Rightarrow> from_bool (\<not> to_bool fl v) | Minus \<Rightarrow> op_minus fl v)"

definition binary_op :: "'f float_ops \<Rightarrow> binary_operator \<Rightarrow> 'f variable \<Rightarrow> 'f variable \<Rightarrow> 'f variable" where
  "binary_op fl p l r =
     (case p of
        Add \<Rightarrow> op_add fl l r
      | Subtract \<Rightarrow> op_subtract fl l r
      | Multiply \<Rightarrow> op_multiply fl l r
      | Divide \<Rightarrow> op_divide fl l r
      | And \<Rightarrow> from_bool (to_bool fl l \<and> to_bool fl r)
      | Or \<Rightarrow> from_bool (to_bool fl l \<or> to_bool fl r)
      | Xor \<Rightarrow> from_bool (to_bool fl l \<noteq> to_bool fl r)
      | Eq \<Rightarrow> from_bool (variable_eq fl l r)
      | Ne \<Rightarrow> from_bool (\<not> variable_eq fl l r)
      | Lt \<Rightarrow> from_bool (variable_cmp fl l r = Some Less)
      | Le \<Rightarrow> from_bool (variable_cmp fl l r \<in> {Some Less, Some Equal})
      | Gt \<Rightarrow> from_bool (variable_cmp fl l r = Some Greater)
      | Ge \<Rightarrow> from_bool (variable_cmp fl l r \<in> {Some Greater, Some Equal}))"

end
