(* ===== verification/Expr_Parser.thy ===== *)
theory Expr_Parser
  imports Expr_Values
begin

text \<open>
  The parser of expressions (\<^verbatim>\<open>crates/common/src/expr/parser.rs\<close>): operator precedence
  with an operator stack, which writes the items of a stack machine. \<open>And\<close> and \<open>Or\<close>
  put a conditional jump after their left operand, whose distance is filled in when the operator
  leaves the stack. The top of a stack is the head of its list.
\<close>

section \<open>Items and tokens\<close>

datatype 'f expr_constant = Static string | CInteger i64 | CFloat 'f | CString string

datatype system_variable = Hostname | Domain | NodeId | NodeHostname | NodeRole | Metric string

text \<open>A regular expression is its source text.\<close>

datatype 'f item =
    IVariable string | IGlobal string | ISystem system_variable | ICapture u32
  | IConstant "'f expr_constant" | IBinary binary_operator | IUnary unary_operator
  | IRegex string | JmpIf bool u32 | IFunction u32 u32 | ArrayAccess | ArrayBuild u32

datatype 'f expr_token =
    TVariable string | TGlobal string | TCapture u32 | TFunction string u32 u32
  | TConstant "'f expr_constant" | TSystem system_variable | TRegex string
  | TBinary binary_operator | TUnary unary_operator
  | OpenParen | CloseParen | OpenBracket | CloseBracket | Comma

datatype expr_error =
    MismatchedParentheses | WrongArguments string u32 "32 word" | MissingIndex
  | MatchesArguments | SystemArguments | InvalidToken | ParserPanic

type_synonym 'f operators = "('f expr_token \<times> nat option) list"

record 'f expr_parser =
  ep_output :: "'f item list"
  ep_operators :: "'f operators"
  ep_args :: "32 word list"

definition parser_new :: "'f expr_parser" where
  "parser_new = \<lparr>ep_output = [], ep_operators = [], ep_args = []\<rparr>"

definition ID_ARRAY_ACCESS :: u32 where "ID_ARRAY_ACCESS = - 1"
definition ID_ARRAY_BUILD :: u32 where "ID_ARRAY_BUILD = - 2"

fun precedence :: "binary_operator \<Rightarrow> nat" where
  "precedence Multiply = 7" | "precedence Divide = 7"
| "precedence Add = 6" | "precedence Subtract = 6"
| "precedence Gt = 5" | "precedence Ge = 5" | "precedence Lt = 5" | "precedence Le = 5"
| "precedence Eq = 4" | "precedence Ne = 4"
| "precedence Xor = 3" | "precedence And = 2" | "precedence Or = 1"

section \<open>Operations of the parser\<close>

definition and_then :: "'e + 'a \<Rightarrow> ('a \<Rightarrow> 'e + 'b) \<Rightarrow> 'e + 'b" where
  "and_then r f = (case r of Inl e \<Rightarrow> Inl e | Inr x \<Rightarrow> f x)"

lemma and_then_simps [simp]: "and_then (Inl e) f = Inl e" "and_then (Inr x) f = f x"
  by (simp_all add: and_then_def)

text \<open>\<open>saturating_add(1)\<close> and \<open>saturating_sub(1)\<close> of \<open>i32\<close>\<close>

definition sat_inc :: "32 word \<Rightarrow> 32 word" where
  "sat_inc x = (if x = 0x7FFFFFFF then x else x + 1)"

definition sat_dec :: "32 word \<Rightarrow> 32 word" where
  "sat_dec x = (if x = 0x80000000 then x else x - 1)"

text \<open>The entry before the top of the stack (the only entry if there is one) counts an item.\<close>

fun count_item :: "'f expr_token \<times> nat option \<Rightarrow> 'f expr_token \<times> nat option" where
  "count_item (TFunction name fid n, j) = (TFunction name fid (if fid = ID_ARRAY_BUILD then n + 1 else n), j)"
| "count_item e = e"

fun count_below :: "'f operators \<Rightarrow> 'f operators" where
  "count_below [] = []"
| "count_below [e] = [count_item e]"
| "count_below (e # e' # ops) = e # count_item e' # ops"

definition inc_arg_count :: "'f expr_parser \<Rightarrow> 'f expr_parser" where
  "inc_arg_count p =
     (case ep_args p of
        [] \<Rightarrow> p
      | x # xs \<Rightarrow> p\<lparr>ep_args := sat_inc x # xs, ep_operators := count_below (ep_operators p)\<rparr>)"

definition dec_arg_count :: "'f expr_parser \<Rightarrow> 'f expr_parser" where
  "dec_arg_count p = (case ep_args p of [] \<Rightarrow> p | x # xs \<Rightarrow> p\<lparr>ep_args := sat_dec x # xs\<rparr>)"

definition update_jmp_pos :: "nat option \<Rightarrow> 'f item list \<Rightarrow> expr_error + 'f item list" where
  "update_jmp_pos jmp_pos out =
     (case jmp_pos of
        None \<Rightarrow> Inr out
      | Some j \<Rightarrow>
          if j < length out
          then (case out ! j of
                  JmpIf v _ \<Rightarrow> Inr (out[j := JmpIf v (of_nat (length out - j))])
                | _ \<Rightarrow> Inr out)
          else Inl ParserPanic)"

definition emit_binary :: "binary_operator \<Rightarrow> nat option \<Rightarrow> 'f item list \<Rightarrow> expr_error + 'f item list" where
  "emit_binary bop jmp_pos out = and_then (update_jmp_pos jmp_pos out) (\<lambda>out. Inr (out @ [IBinary bop]))"

text \<open>The loops over the operator stack: at a closing token, a binary operator, a comma, the end.\<close>

fun close_loop :: "'f expr_token \<Rightarrow> 'f operators \<Rightarrow> 'f item list \<Rightarrow> expr_error + 'f operators \<times> 'f item list" where
  "close_loop expect [] out = Inl MismatchedParentheses"
| "close_loop expect ((t, j) # ops) out =
     (if t = expect then Inr (ops, out)
      else (case t of
              TBinary bop \<Rightarrow> and_then (emit_binary bop j out) (close_loop expect ops)
            | TUnary uop \<Rightarrow> close_loop expect ops (out @ [IUnary uop])
            | _ \<Rightarrow> Inl MismatchedParentheses))"

fun binary_loop :: "binary_operator \<Rightarrow> 'f operators \<Rightarrow> 'f item list \<Rightarrow> expr_error + 'f operators \<times> 'f item list" where
  "binary_loop bop ((TBinary prev, j) # ops) out =
     (if precedence bop \<le> precedence prev
      then and_then (emit_binary prev j out) (binary_loop bop ops)
      else Inr ((TBinary prev, j) # ops, out))"
| "binary_loop bop ((TUnary uop, j) # ops) out = binary_loop bop ops (out @ [IUnary uop])"
| "binary_loop bop ops out = Inr (ops, out)"

fun comma_loop :: "'f operators \<Rightarrow> 'f item list \<Rightarrow> expr_error + 'f operators \<times> 'f item list" where
  "comma_loop ((TBinary bop, j) # ops) out = and_then (emit_binary bop j out) (comma_loop ops)"
| "comma_loop ((TUnary uop, j) # ops) out = comma_loop ops (out @ [IUnary uop])"
| "comma_loop ops out = Inr (ops, out)"

fun finish_loop :: "'f operators \<Rightarrow> 'f item list \<Rightarrow> expr_error + 'f item list" where
  "finish_loop [] out = Inr out"
| "finish_loop ((TBinary bop, j) # ops) out = and_then (emit_binary bop j out) (finish_loop ops)"
| "finish_loop ((TUnary uop, j) # ops) out = finish_loop ops (out @ [IUnary uop])"
| "finish_loop (_ # ops) out = Inl InvalidToken"

text \<open>After a closing token: the function, array, \<open>matches\<close> or \<open>system\<close> that it ends.\<close>

definition function_item :: "u32 \<Rightarrow> u32 \<Rightarrow> 'f item" where
  "function_item fid num_args =
     (if fid = ID_ARRAY_ACCESS then ArrayAccess
      else if fid = ID_ARRAY_BUILD then ArrayBuild num_args
      else IFunction fid num_args)"

definition end_call :: "'f operators \<Rightarrow> 'f item list \<Rightarrow> 32 word list \<Rightarrow> expr_error + 'f expr_parser" where
  "end_call ops out args =
     (case ops of
        (TFunction name fid num_args, _) # ops' \<Rightarrow>
          (case args of
             [] \<Rightarrow> Inl ParserPanic
           | got # args' \<Rightarrow>
               if got \<noteq> num_args
               then Inl (if fid \<noteq> - 1 then WrongArguments name num_args got else MissingIndex)
               else Inr \<lparr>ep_output = out @ [function_item fid num_args], ep_operators = ops', ep_args = args'\<rparr>)
      | (TRegex re, _) # ops' \<Rightarrow>
          (case args of
             [] \<Rightarrow> Inl ParserPanic
           | got # args' \<Rightarrow>
               if got \<noteq> 1 then Inl MatchesArguments
               else Inr \<lparr>ep_output = out @ [IRegex re], ep_operators = ops', ep_args = args'\<rparr>)
      | (TSystem sys, _) # ops' \<Rightarrow>
          (case args of
             [] \<Rightarrow> Inl ParserPanic
           | got # args' \<Rightarrow>
               if got \<noteq> 0 then Inl SystemArguments
               else Inr \<lparr>ep_output = out @ [ISystem sys], ep_operators = ops', ep_args = args'\<rparr>)
      | _ \<Rightarrow> Inr \<lparr>ep_output = out, ep_operators = ops, ep_args = args\<rparr>)"

definition operand :: "'f item \<Rightarrow> 'f expr_parser \<Rightarrow> 'f expr_parser" where
  "operand i p = (let p = inc_arg_count p in p\<lparr>ep_output := ep_output p @ [i]\<rparr>)"

definition push_operator :: "'f expr_token \<Rightarrow> nat option \<Rightarrow> 'f expr_parser \<Rightarrow> 'f expr_parser" where
  "push_operator t j p = p\<lparr>ep_operators := (t, j) # ep_operators p\<rparr>"

definition close_token :: "'f expr_token \<Rightarrow> 'f expr_parser \<Rightarrow> expr_error + 'f expr_parser" where
  "close_token expect p =
     and_then (close_loop expect (ep_operators p) (ep_output p)) (\<lambda>(ops, out). end_call ops out (ep_args p))"

text \<open>The jump that a short-circuiting operator puts after its left operand.\<close>

fun short_circuit :: "binary_operator \<Rightarrow> bool option" where
  "short_circuit And = Some False"
| "short_circuit Or = Some True"
| "short_circuit _ = None"

definition binary_token :: "binary_operator \<Rightarrow> 'f expr_parser \<Rightarrow> expr_error + 'f expr_parser" where
  "binary_token bop p =
     (let p = dec_arg_count p
      in and_then (binary_loop bop (ep_operators p) (ep_output p)) (\<lambda>(ops, out).
           case short_circuit bop of
             Some v \<Rightarrow> Inr (p\<lparr>ep_output := out @ [JmpIf v 0], ep_operators := (TBinary bop, Some (length out)) # ops\<rparr>)
           | None \<Rightarrow> Inr (p\<lparr>ep_output := out, ep_operators := (TBinary bop, None) # ops\<rparr>)))"

definition begin_call :: "'f expr_token \<Rightarrow> 'f expr_parser \<Rightarrow> 'f expr_parser" where
  "begin_call t p = (let p = inc_arg_count p in push_operator t None (p\<lparr>ep_args := 0 # ep_args p\<rparr>))"

definition open_bracket :: "bool \<Rightarrow> 'f expr_parser \<Rightarrow> 'f expr_parser" where
  "open_bracket last_is_var_or_fnc p =
     (let (fid, num_args, arg_count, p) =
            (if last_is_var_or_fnc then (ID_ARRAY_ACCESS, 2, 1, p) else (ID_ARRAY_BUILD, 0, 0, inc_arg_count p));
          p = p\<lparr>ep_args := arg_count # ep_args p\<rparr>
      in push_operator OpenBracket None (push_operator (TFunction ''array'' fid num_args) None p))"

text \<open>One token; the flag says that the last token was a variable or the end of a call or group.\<close>

definition parse_token :: "'f expr_token \<Rightarrow> bool \<Rightarrow> 'f expr_parser \<Rightarrow> expr_error + 'f expr_parser \<times> bool" where
  "parse_token t last_is_var_or_fnc p =
     (case t of
        TVariable v \<Rightarrow> Inr (operand (IVariable v) p, True)
      | TConstant c \<Rightarrow> Inr (operand (IConstant c) p, False)
      | TGlobal g \<Rightarrow> Inr (operand (IGlobal g) p, False)
      | TCapture c \<Rightarrow> Inr (operand (ICapture c) p, False)
      | TUnary uop \<Rightarrow> Inr (push_operator t None p, False)
      | OpenParen \<Rightarrow> Inr (push_operator t None p, False)
      | CloseParen \<Rightarrow> and_then (close_token OpenParen p) (\<lambda>p. Inr (p, True))
      | CloseBracket \<Rightarrow> and_then (close_token OpenBracket p) (\<lambda>p. Inr (p, True))
      | TBinary bop \<Rightarrow> and_then (binary_token bop p) (\<lambda>p. Inr (p, False))
      | TFunction name fid num_args \<Rightarrow> Inr (begin_call t p, False)
      | TRegex re \<Rightarrow> Inr (begin_call t p, False)
      | TSystem sys \<Rightarrow> Inr (begin_call t p, False)
      | OpenBracket \<Rightarrow> Inr (open_bracket last_is_var_or_fnc p, False)
      | Comma \<Rightarrow>
          and_then (comma_loop (ep_operators p) (ep_output p))
            (\<lambda>(ops, out). Inr (p\<lparr>ep_output := out, ep_operators := ops\<rparr>, False)))"

fun parse_tokens :: "'f expr_token list \<Rightarrow> bool \<Rightarrow> 'f expr_parser \<Rightarrow> expr_error + 'f expr_parser \<times> bool" where
  "parse_tokens [] lv p = Inr (p, lv)"
| "parse_tokens (t # ts) lv p = and_then (parse_token t lv p) (\<lambda>(p, lv). parse_tokens ts lv p)"

definition parser_finish :: "'f expr_parser \<Rightarrow> expr_error + 'f item list" where
  "parser_finish p = finish_loop (ep_operators p) (ep_output p)"

definition expr_parse :: "'f expr_token list \<Rightarrow> expr_error + 'f item list" where
  "expr_parse ts = and_then (parse_tokens ts False parser_new) (\<lambda>(p, lv). parser_finish p)"

lemma and_then_assoc: "and_then (and_then r f) g = and_then r (\<lambda>x. and_then (f x) g)"
  by (cases r) auto

lemma parse_tokens_append:
  "parse_tokens (ts @ us) lv p = and_then (parse_tokens ts lv p) (\<lambda>(p, lv). parse_tokens us lv p)"
  by (induction ts arbitrary: lv p) (auto simp: and_then_def split: sum.splits)

end
