(* ===== verification/Expr_Tokenizer.thy ===== *)
theory Expr_Tokenizer
  imports Expr_Parser
begin

text \<open>
  The tokenizer of expressions (\<^verbatim>\<open>crates/common/src/expr/tokenizer.rs\<close>), with the names and
  arities of the functions (\<^verbatim>\<open>functions/mod.rs\<close>) and durations
  (\<^verbatim>\<open>crates/registry/src/types/duration.rs\<close>). The regular expressions and metric names that are
  accepted are fields of an environment, as are the names the context allows (all, if it lists none).
\<close>

section \<open>Functions and durations\<close>

definition FUNCTIONS :: "(string \<times> u32) list" where
  "FUNCTIONS = [
     (''count'', 1), (''sort'', 2), (''dedup'', 1), (''winnow'', 1), (''is_intersect'', 2),
     (''is_email'', 1), (''email_part'', 2), (''is_empty'', 1), (''is_number'', 1),
     (''is_ip_addr'', 1), (''is_ipv4_addr'', 1), (''is_ipv6_addr'', 1), (''is_ip_in_cidr'', 2),
     (''ip_reverse_name'', 1), (''trim'', 1), (''trim_end'', 1), (''trim_start'', 1),
     (''len'', 1), (''to_lowercase'', 1), (''to_uppercase'', 1), (''is_uppercase'', 1),
     (''is_lowercase'', 1), (''has_digits'', 1), (''count_spaces'', 1),
     (''count_uppercase'', 1), (''count_lowercase'', 1), (''count_chars'', 1),
     (''contains'', 2), (''contains_ignore_case'', 2), (''eq_ignore_case'', 2),
     (''starts_with'', 2), (''ends_with'', 2), (''lines'', 1), (''substring'', 3),
     (''strip_prefix'', 2), (''strip_suffix'', 2), (''split'', 2), (''rsplit'', 2),
     (''split_once'', 2), (''rsplit_once'', 2), (''split_n'', 3), (''split_words'', 1),
     (''hash'', 2), (''if_then'', 3)]"

definition ASYNC_FUNCTIONS :: "(string \<times> u32 \<times> u32) list" where
  "ASYNC_FUNCTIONS = [
     (''is_local_domain'', 0, 1),
     (''is_local_address'', 1, 1),
     (''key_get'', 2, 2),
     (''key_exists'', 3, 2),
     (''key_set'', 4, 3),
     (''counter_incr'', 5, 3),
     (''counter_get'', 6, 2),
     (''dns_query'', 8, 2),
     (''sql_query'', 7, 3)]"

text \<open>The number and the arity of a function; the asynchronous ones are numbered after the others.\<close>

fun find_function :: "string \<Rightarrow> nat \<Rightarrow> (string \<times> u32) list \<Rightarrow> (u32 \<times> u32) option" where
  "find_function name n [] = None"
| "find_function name n ((f, arity) # fs) =
     (if f = name then Some (of_nat n, arity) else find_function name (n + 1) fs)"

definition function_named :: "string \<Rightarrow> (u32 \<times> u32) option" where
  "function_named name =
     (case find_function name 0 FUNCTIONS of
        Some f \<Rightarrow> Some f
      | None \<Rightarrow>
          map_option (\<lambda>(idx, arity). (idx + of_nat (length FUNCTIONS), arity)) (map_of ASYNC_FUNCTIONS name))"

definition duration_unit :: "string \<Rightarrow> u64 option" where
  "duration_unit u =
     (if u = ''d'' then Some (24 * 60 * 60 * 1000) else if u = ''h'' then Some (60 * 60 * 1000)
      else if u = ''m'' then Some (60 * 1000) else if u = ''s'' then Some 1000
      else if u = ''ms'' \<or> u = [] then Some 1 else None)"

text \<open>\<open>Duration::from_str\<close>, in milliseconds.\<close>

definition duration_from_str :: "string \<Rightarrow> u64 option" where
  "duration_from_str value =
     (case duration_unit (map to_ascii_lowercase
             (filter (\<lambda>c. \<not> is_ascii_digit c \<and> \<not> is_ascii_whitespace c) value)) of
        None \<Rightarrow> None
      | Some multiplier \<Rightarrow>
          map_option (\<lambda>num. of_nat num * multiplier)
            (parse_unsigned (2 ^ 64) (filter is_ascii_digit value)))"

section \<open>State\<close>

datatype token_error =
    UnmatchedClose | UnmatchedOpen | InvalidCharacter char | InvalidRegex string | InvalidMetric string
  | InvalidSystem string | ExpectedChar char | UnexpectedEnd | UnterminatedString | InvalidUtf8
  | InvalidFloat string | InvalidInteger string | NotAllowed string | InvalidName string

record 'f token_env =
  te_parse_float :: "string \<Rightarrow> 'f option"
  te_variables :: "string list"
  te_constants :: "string list"
  te_regex :: "string \<Rightarrow> bool"
  te_metric :: "string \<Rightarrow> bool"

record 'f tokenizer =
  tk_iter :: string
  tk_buf :: string
  tk_depth :: u32
  tk_next :: "'f expr_token list"
  tk_has_number :: bool
  tk_has_dot :: bool
  tk_has_alpha :: bool
  tk_is_start :: bool
  tk_is_eof :: bool

definition tokenizer_new :: "string \<Rightarrow> 'f tokenizer" where
  "tokenizer_new expr =
     \<lparr>tk_iter = expr, tk_buf = [], tk_depth = 0, tk_next = [], tk_has_number = False,
      tk_has_dot = False, tk_has_alpha = False, tk_is_start = True, tk_is_eof = False\<rparr>"

section \<open>Pieces of the text\<close>

fun find_char :: "string \<Rightarrow> string \<Rightarrow> token_error + char \<times> string" where
  "find_char chars [] = Inl UnexpectedEnd"
| "find_char chars (c # cs) =
     (if is_ascii_whitespace c then find_char chars cs
      else if c \<in> set chars then Inr (c, cs)
      else Inl (ExpectedChar (hd chars)))"

definition unescape :: "char \<Rightarrow> char" where
  "unescape ch =
     (if ch = CHR ''n'' then LF else if ch = CHR ''r'' then CR else if ch = CHR ''t'' then TAB else ch)"

fun string_loop :: "char \<Rightarrow> char \<Rightarrow> string \<Rightarrow> string \<Rightarrow> (string \<times> string) option" where
  "string_loop stop_ch last_ch buf [] = None"
| "string_loop stop_ch last_ch buf (ch # iter) =
     (if last_ch \<noteq> BACKSLASH then
        (if ch \<noteq> stop_ch then string_loop stop_ch ch (buf @ [ch]) iter else Some (buf, iter))
      else string_loop stop_ch ch (buf @ [unescape ch]) iter)"

definition parse_string :: "char \<Rightarrow> string \<Rightarrow> token_error + string \<times> string" where
  "parse_string stop_ch iter =
     (case string_loop stop_ch NUL [] iter of
        None \<Rightarrow> Inl UnterminatedString
      | Some (buf, iter) \<Rightarrow> if utf8_valid buf then Inr (buf, iter) else Inl InvalidUtf8)"

definition system_named :: "string \<Rightarrow> system_variable option" where
  "system_named s =
     (if s = ''domain'' then Some Domain else if s = ''hostname'' then Some Hostname
      else if s = ''node_id'' then Some NodeId else if s = ''node_hostname'' then Some NodeHostname
      else if s = ''node_role'' then Some NodeRole else None)"

text \<open>A name or number that has ended: \<open>parse_buf\<close>.\<close>

definition allowed :: "string list \<Rightarrow> string \<Rightarrow> bool" where
  "allowed names name \<longleftrightarrow> names = [] \<or> name \<in> set names"

definition known_token :: "'f token_env \<Rightarrow> string \<Rightarrow> token_error + 'f expr_token" where
  "known_token env buf =
     (case function_named buf of
        Some (n, arity) \<Rightarrow> Inr (TFunction buf n arity)
      | None \<Rightarrow>
          if buf \<in> set expression_variables then
            (if allowed (te_variables env) buf then Inr (TVariable buf) else Inl (NotAllowed buf))
          else if buf \<in> set expression_constants then
            (if allowed (te_constants env) buf then Inr (TConstant (Static buf)) else Inl (NotAllowed buf))
          else (case duration_from_str buf of
                  Some d \<Rightarrow> Inr (TConstant (CInteger d))
                | None \<Rightarrow> Inl (InvalidName buf)))"

definition name_token :: "'f token_env \<Rightarrow> string \<Rightarrow> token_error + 'f expr_token" where
  "name_token env buf =
     (if buf \<noteq> [] \<and> hd buf = CHR ''$'' \<and> tl buf \<noteq> [] then
        (let variable = tl buf
         in if list_all is_ascii_digit variable then
              (case parse_unsigned (2 ^ 32) variable of
                 Some n \<Rightarrow> Inr (TCapture (of_nat n)) | None \<Rightarrow> Inr (TGlobal variable))
            else Inr (TGlobal variable))
      else known_token env buf)"

definition number_token :: "'f token_env \<Rightarrow> bool \<Rightarrow> string \<Rightarrow> token_error + 'f expr_token" where
  "number_token env has_dot buf =
     (if has_dot then
        (case te_parse_float env buf of
           Some f \<Rightarrow> Inr (TConstant (CFloat f)) | None \<Rightarrow> Inl (InvalidFloat buf))
      else
        (case parse_i64 buf of
           Some i \<Rightarrow> Inr (TConstant (CInteger i)) | None \<Rightarrow> Inl (InvalidInteger buf)))"

definition parse_buf :: "'f token_env \<Rightarrow> 'f tokenizer \<Rightarrow> token_error + 'f expr_token \<times> 'f tokenizer" where
  "parse_buf env t =
     (let buf = (if utf8_valid (tk_buf t) then tk_buf t else []); t' = t\<lparr>tk_buf := []\<rparr>
      in if tk_has_number t \<and> \<not> tk_has_alpha t then
           and_then (number_token env (tk_has_dot t) buf)
             (\<lambda>token. Inr (token, t'\<lparr>tk_has_number := False, tk_has_dot := False\<rparr>))
         else
           (let t' = t'\<lparr>tk_has_number := False, tk_has_dot := False, tk_has_alpha := False\<rparr>
            in if \<not> tk_has_number t \<and> \<not> tk_has_dot t \<and> buf = ''true'' then Inr (TConstant (CInteger 1), t')
               else if \<not> tk_has_number t \<and> \<not> tk_has_dot t \<and> buf = ''false'' then Inr (TConstant (CInteger 0), t')
               else and_then (name_token env buf) (\<lambda>token. Inr (token, t'))))"

section \<open>One token\<close>

text \<open>
  What a delimiter finds in the buffer: nothing, a token, or one of the three calls whose first
  argument is a literal text, which is read as far as the parenthesis would be.
\<close>

definition literal_call :: "'f token_env \<Rightarrow> 'f tokenizer \<Rightarrow> token_error + 'f expr_token \<times> 'f tokenizer" where
  "literal_call env t =
     and_then (find_char [DQUOTE, CHR 0x27] (tk_iter t)) (\<lambda>(stop_ch, iter).
       and_then (parse_string stop_ch iter) (\<lambda>(s, iter).
         let t' = t\<lparr>tk_iter := iter, tk_has_alpha := False, tk_buf := []\<rparr>
         in if tk_buf t = ''matches'' then
              (if te_regex env s
               then and_then (find_char '','' iter) (\<lambda>(_, iter). Inr (TRegex s, t'\<lparr>tk_iter := iter\<rparr>))
               else Inl (InvalidRegex s))
            else if tk_buf t = ''metric'' then
              (if te_metric env s then Inr (TSystem (Metric s), t') else Inl (InvalidMetric s))
            else (case system_named s of
                    Some v \<Rightarrow> Inr (TSystem v, t') | None \<Rightarrow> Inl (InvalidSystem s))))"

definition previous :: "'f token_env \<Rightarrow> char \<Rightarrow> 'f tokenizer \<Rightarrow> token_error + 'f expr_token option \<times> 'f tokenizer" where
  "previous env ch t =
     (if tk_buf t = [] then Inr (None, t)
      else and_then
        (if ch = CHR ''('' \<and> tk_buf t \<in> {''matches'', ''metric'', ''system''} then literal_call env t
         else parse_buf env (t\<lparr>tk_is_start := False\<rparr>))
        (\<lambda>(token, t). Inr (Some token, t)))"

text \<open>The second character of an operator, if it is there.\<close>

definition skip_char :: "char \<Rightarrow> 'f tokenizer \<Rightarrow> 'f tokenizer" where
  "skip_char c t = (case tk_iter t of d # iter \<Rightarrow> if d = c then t\<lparr>tk_iter := iter\<rparr> else t | [] \<Rightarrow> t)"

definition peek_is :: "char \<Rightarrow> 'f tokenizer \<Rightarrow> bool" where
  "peek_is c t \<longleftrightarrow> (case tk_iter t of d # _ \<Rightarrow> d = c | [] \<Rightarrow> False)"

definition symbol :: "char \<Rightarrow> 'f tokenizer \<Rightarrow> token_error + 'f expr_token \<times> 'f tokenizer" where
  "symbol ch t =
     (if ch = CHR ''&'' then Inr (TBinary And, skip_char CHR ''&'' t)
      else if ch = CHR ''|'' then Inr (TBinary Or, skip_char CHR ''|'' t)
      else if ch = CHR ''!'' then
        Inr (if peek_is CHR ''='' t then TBinary Ne else TUnary Not, skip_char CHR ''='' t)
      else if ch = CHR ''^'' then Inr (TBinary Xor, t)
      else if ch = CHR ''('' then Inr (OpenParen, t\<lparr>tk_depth := tk_depth t + 1\<rparr>)
      else if ch = CHR '')'' then
        (if tk_depth t = 0 then Inl UnmatchedClose else Inr (CloseParen, t\<lparr>tk_depth := tk_depth t - 1\<rparr>))
      else if ch = CHR ''+'' then Inr (TBinary Add, t)
      else if ch = CHR ''*'' then Inr (TBinary Multiply, t)
      else if ch = CHR ''/'' then Inr (TBinary Divide, t)
      else if ch = CHR ''-'' then Inr (if tk_is_start t then TUnary Minus else TBinary Subtract, t)
      else if ch = CHR ''='' then
        (case tk_iter t of
           [] \<Rightarrow> Inr (TBinary Eq, t)
         | d # iter \<Rightarrow>
             Inr (TBinary (if d = CHR ''>'' then Ge else if d = CHR ''<'' then Le else Eq), t\<lparr>tk_iter := iter\<rparr>))
      else if ch = CHR ''>'' then
        Inr (TBinary (if peek_is CHR ''='' t then Ge else Gt), skip_char CHR ''='' t)
      else if ch = CHR ''<'' then
        Inr (TBinary (if peek_is CHR ''='' t then Le else Lt), skip_char CHR ''='' t)
      else if ch = CHR '','' then Inr (Comma, t)
      else if ch = CHR ''['' then Inr (OpenBracket, t)
      else if ch = CHR '']'' then Inr (CloseBracket, t)
      else if ch = DQUOTE \<or> ch = CHR 0x27 then
        and_then (parse_string ch (tk_iter t)) (\<lambda>(s, iter). Inr (TConstant (CString s), t\<lparr>tk_iter := iter\<rparr>))
      else Inl (InvalidCharacter ch))"

fun starts_operand :: "'f expr_token \<Rightarrow> bool" where
  "starts_operand OpenParen \<longleftrightarrow> True"
| "starts_operand Comma \<longleftrightarrow> True"
| "starts_operand (TBinary p) \<longleftrightarrow> True"
| "starts_operand _ \<longleftrightarrow> False"

definition delimiter :: "'f token_env \<Rightarrow> char \<Rightarrow> 'f tokenizer \<Rightarrow> token_error + 'f expr_token option \<times> 'f tokenizer" where
  "delimiter env ch t =
     and_then (previous env ch t) (\<lambda>(prev_token, t).
       if ch \<in> {SP, CR, LF} then Inr (prev_token, t)
       else and_then (symbol ch t) (\<lambda>(token, t).
         let t = t\<lparr>tk_is_start := starts_operand token\<rparr>
         in case prev_token of
              Some prev \<Rightarrow> Inr (Some prev, t\<lparr>tk_next := token # tk_next t\<rparr>)
            | None \<Rightarrow> Inr (Some token, t)))"

definition at_end :: "'f token_env \<Rightarrow> 'f tokenizer \<Rightarrow> token_error + 'f expr_token option \<times> 'f tokenizer" where
  "at_end env t =
     (if tk_depth t > 0 then Inl UnmatchedOpen
      else if tk_buf t \<noteq> [] then and_then (parse_buf env t) (\<lambda>(token, t). Inr (Some token, t))
      else Inr (None, t))"

definition is_name_char :: "char \<Rightarrow> bool" where
  "is_name_char ch \<longleftrightarrow> is_ascii_uppercase ch \<or> is_ascii_lowercase ch \<or> ch = CHR ''_'' \<or> ch = CHR ''$''"

definition push_char :: "char \<Rightarrow> 'f tokenizer \<Rightarrow> 'f tokenizer" where
  "push_char ch t = t\<lparr>tk_buf := tk_buf t @ [ch]\<rparr>"

text \<open>
  The loop over the text. White space with nothing before it is skipped in the loop itself; any
  other character that does not belong to a name or number is a delimiter and ends the loop.
\<close>

fun scan :: "'f token_env \<Rightarrow> string \<Rightarrow> 'f tokenizer \<Rightarrow> token_error + 'f expr_token option \<times> 'f tokenizer" where
  "scan env [] t = at_end env (t\<lparr>tk_iter := []\<rparr>)"
| "scan env (ch # iter) t =
     (let t = t\<lparr>tk_iter := iter\<rparr>;
          last = (\<lambda>c. tk_buf t \<noteq> [] \<and> List.last (tk_buf t) = c)
      in if is_name_char ch then scan env iter (push_char ch t\<lparr>tk_has_alpha := True\<rparr>)
         else if is_ascii_digit ch then scan env iter (push_char ch t\<lparr>tk_has_number := True\<rparr>)
         else if ch = CHR ''.'' then scan env iter (push_char ch t\<lparr>tk_has_dot := True\<rparr>)
         else if ch = CHR ''}'' then at_end env (t\<lparr>tk_is_eof := True\<rparr>)
         else if ch = CHR ''-'' \<and> last CHR ''['' \<or> ch = CHR '':'' \<and> CHR ''.'' \<in> set (tk_buf t) \<or>
                 ch = CHR '']'' \<and> CHR ''['' \<in> set (tk_buf t) \<or>
                 ch = CHR ''*'' \<and> (last CHR ''['' \<or> last CHR ''.'')
              then scan env iter (push_char ch t)
         else if ch \<in> {SP, CR, LF} \<and> tk_buf t = [] then scan env iter t
         else delimiter env ch t)"

definition tokenizer_next :: "'f token_env \<Rightarrow> 'f tokenizer \<Rightarrow> token_error + 'f expr_token option \<times> 'f tokenizer" where
  "tokenizer_next env t =
     (case tk_next t of
        token # rest \<Rightarrow> Inr (Some token, t\<lparr>tk_next := rest\<rparr>)
      | [] \<Rightarrow> if tk_is_eof t then Inr (None, t) else scan env (tk_iter t) t)"

section \<open>Every token takes text\<close>

lemma and_then_Inr: "and_then r f = Inr y \<longleftrightarrow> (\<exists>x. r = Inr x \<and> f x = Inr y)"
  by (cases r) auto

definition remaining :: "'f tokenizer \<Rightarrow> nat" where
  "remaining t = 2 * length (tk_iter t) + length (tk_next t) + (if tk_buf t = [] then 0 else 1)"

lemma find_char_length: "find_char chars s = Inr (c, s') \<Longrightarrow> length s' < length s"
  by (induction chars s rule: find_char.induct) (auto split: if_splits)

lemma string_loop_length: "string_loop stop_ch last_ch buf s = Some (buf', s') \<Longrightarrow> length s' < length s"
  by (induction stop_ch last_ch buf s rule: string_loop.induct) (fastforce split: if_splits)+

lemma parse_string_length: "parse_string stop_ch s = Inr (buf, s') \<Longrightarrow> length s' < length s"
  by (auto simp: parse_string_def split: option.splits if_splits dest: string_loop_length)

lemma parse_buf_state:
  "parse_buf env t = Inr (token, t') \<Longrightarrow> tk_buf t' = [] \<and> tk_iter t' = tk_iter t \<and> tk_next t' = tk_next t"
  by (auto simp: parse_buf_def and_then_Inr Let_def split: if_splits)

lemma literal_call_state:
  "literal_call env t = Inr (token, t') \<Longrightarrow>
     tk_buf t' = [] \<and> length (tk_iter t') \<le> length (tk_iter t) \<and> tk_next t' = tk_next t"
  by (auto simp: literal_call_def and_then_Inr Let_def split: if_splits option.splits
      dest!: find_char_length parse_string_length)

lemma previous_state:
  "previous env ch t = Inr (token, t') \<Longrightarrow>
     tk_buf t' = [] \<and> length (tk_iter t') \<le> length (tk_iter t) \<and> tk_next t' = tk_next t"
  by (auto simp: previous_def and_then_Inr split: if_splits dest!: parse_buf_state literal_call_state)

lemma skip_char_state:
  "tk_buf (skip_char c t) = tk_buf t" "length (tk_iter (skip_char c t)) \<le> length (tk_iter t)"
  "tk_next (skip_char c t) = tk_next t"
  by (auto simp: skip_char_def split: list.splits)

lemma if_eqE: "(if c then a else b) = x \<Longrightarrow> (a = x \<Longrightarrow> thesis) \<Longrightarrow> (b = x \<Longrightarrow> thesis) \<Longrightarrow> thesis"
  by (auto split: if_splits)

lemma symbol_state:
  assumes "symbol ch t = Inr (token, t')"
  shows "tk_buf t' = tk_buf t \<and> length (tk_iter t') \<le> length (tk_iter t) \<and> tk_next t' = tk_next t"
  using assms unfolding symbol_def
  by (elim if_eqE) (auto simp: and_then_Inr skip_char_state split: list.splits dest!: parse_string_length)

lemma delimiter_remaining:
  assumes "delimiter env ch t = Inr (Some token, t')"
  shows "remaining t' \<le> 2 * length (tk_iter t) + length (tk_next t) + 1"
proof -
  obtain prev t1 where p: "previous env ch t = Inr (prev, t1)"
    using assms by (auto simp: delimiter_def and_then_Inr)
  note p' = previous_state [OF p]
  show ?thesis
  proof (cases "ch \<in> {SP, CR, LF}")
    case True
    with assms p have "t' = t1" by (simp add: delimiter_def)
    with p' show ?thesis by (simp add: remaining_def)
  next
    case False
    with assms p obtain s t2 where s: "symbol ch t1 = Inr (s, t2)"
      and t': "t' = t2\<lparr>tk_is_start := starts_operand s\<rparr> \<or>
        t' = t2\<lparr>tk_is_start := starts_operand s, tk_next := s # tk_next t2\<rparr>"
      by (simp add: delimiter_def and_then_Inr Let_def split: option.splits) blast
    from t' symbol_state [OF s] p' show ?thesis by (elim disjE) (simp_all add: remaining_def)
  qed
qed

lemma at_end_remaining:
  "at_end env t = Inr (Some token, t') \<Longrightarrow> remaining t' < remaining t"
  by (auto simp: at_end_def and_then_Inr remaining_def split: if_splits dest!: parse_buf_state)

lemma scan_remaining:
  "scan env s t = Inr (Some token, t') \<Longrightarrow> remaining t' < remaining (t\<lparr>tk_iter := s\<rparr>)"
proof (induction s arbitrary: t)
  case Nil
  then show ?case by (auto dest: at_end_remaining)
next
  case (Cons ch iter)
  let ?less = "\<lambda>t1. remaining (t1\<lparr>tk_iter := iter\<rparr>) < remaining (t\<lparr>tk_iter := ch # iter\<rparr>)"
  have *: "remaining t' < remaining (t\<lparr>tk_iter := ch # iter\<rparr>)"
    if "scan env iter t1 = Inr (Some token, t')" "?less t1" for t1
    using Cons.IH [OF that(1)] that(2) by simp
  from Cons.prems show ?case
    unfolding scan.simps Let_def
    by (elim if_eqE) (auto simp: push_char_def remaining_def
      dest!: * delimiter_remaining at_end_remaining)
qed

lemma tokenizer_next_remaining:
  "tokenizer_next env t = Inr (Some token, t') \<Longrightarrow> remaining t' < remaining t"
  by (auto simp: tokenizer_next_def remaining_def split: list.splits if_splits dest!: scan_remaining)

section \<open>The whole text\<close>

function tokenize :: "'f token_env \<Rightarrow> 'f tokenizer \<Rightarrow> token_error + 'f expr_token list" where
  "tokenize env t =
     (case tokenizer_next env t of
        Inl e \<Rightarrow> Inl e
      | Inr (None, t) \<Rightarrow> Inr []
      | Inr (Some token, t) \<Rightarrow> and_then (tokenize env t) (\<lambda>tokens. Inr (token # tokens)))"
  by pat_completeness auto
termination
  by (relation "measure (\<lambda>(env, t). remaining t)") (auto dest: tokenizer_next_remaining)

declare tokenize.simps [simp del]

text \<open>\<open>ExpressionParser::parse\<close>, which asks for one token at a time, and \<open>Expression::parse\<close>.\<close>

datatype parse_failure = TokenFailure token_error | ParseFailure expr_error

function parse_loop :: "'f token_env \<Rightarrow> 'f tokenizer \<Rightarrow> bool \<Rightarrow> 'f expr_parser \<Rightarrow> parse_failure + 'f expr_parser" where
  "parse_loop env t last_is_var_or_fnc p =
     (case tokenizer_next env t of
        Inl e \<Rightarrow> Inl (TokenFailure e)
      | Inr (None, t) \<Rightarrow> Inr p
      | Inr (Some token, t) \<Rightarrow>
          (case parse_token token last_is_var_or_fnc p of
             Inl e \<Rightarrow> Inl (ParseFailure e)
           | Inr (p, last_is_var_or_fnc) \<Rightarrow> parse_loop env t last_is_var_or_fnc p))"
  by pat_completeness auto
termination
  by (relation "measure (\<lambda>(env, t, b, p). remaining t)") (auto dest: tokenizer_next_remaining)

declare parse_loop.simps [simp del]

definition expression_parse :: "'f token_env \<Rightarrow> string \<Rightarrow> parse_failure + 'f item list" where
  "expression_parse env text =
     and_then (parse_loop env (tokenizer_new text) False parser_new) (\<lambda>p.
       case parser_finish p of Inl e \<Rightarrow> Inl (ParseFailure e) | Inr items \<Rightarrow> Inr items)"

text \<open>Asking for tokens one at a time comes to the same as having them all first.\<close>

lemma parse_loop_tokenize:
  "tokenize env t = Inr ts \<Longrightarrow> parse_loop env t b p =
     (case parse_tokens ts b p of Inl e \<Rightarrow> Inl (ParseFailure e) | Inr (p, b) \<Rightarrow> Inr p)"
proof (induction env t arbitrary: ts b p rule: tokenize.induct)
  case (1 env t)
  show ?case
  proof (cases "tokenizer_next env t")
    case (Inl e)
    with 1 show ?thesis by (simp add: tokenize.simps [of env t])
  next
    case (Inr r)
    obtain tok t' where r: "r = (tok, t')" by (cases r)
    show ?thesis
    proof (cases tok)
      case None
      with 1 show ?thesis by (simp add: Inr r tokenize.simps [of env t] parse_loop.simps [of env t])
    next
      case (Some token)
      then obtain us where us: "tokenize env t' = Inr us" "ts = token # us"
        using "1.prems" by (auto simp: Inr r tokenize.simps [of env t] and_then_Inr)
      show ?thesis
        using "1.IH" [OF Inr r [symmetric] Some us(1)]
        by (cases "parse_token token b p") (auto simp: Inr r Some us parse_loop.simps [of env t])
    qed
  qed
qed

lemma expression_parse_tokens:
  assumes "tokenize env (tokenizer_new text) = Inr ts"
  shows "expression_parse env text =
    (case expr_parse ts of Inl e \<Rightarrow> Inl (ParseFailure e) | Inr items \<Rightarrow> Inr items)"
  by (cases "parse_tokens ts False parser_new")
    (auto simp: expression_parse_def parse_loop_tokenize [OF assms] expr_parse_def)

end
