(* ===== verification/Expr_Text.thy ===== *)
theory Expr_Text
  imports Expr_Tokenizer
begin

text \<open>
  The text of a list of tokens, with a space after every token, and the proof that the tokenizer
  reads it back. Numbers with a fraction are left out: their text is the library's.
\<close>

section \<open>Text\<close>

definition apostrophe :: char where "apostrophe = CHR 0x27"

definition quoted :: "string \<Rightarrow> string" where
  "quoted s = apostrophe # s @ [apostrophe]"

fun operator_text :: "binary_operator \<Rightarrow> string" where
  "operator_text Add = ''+''" | "operator_text Subtract = ''-''"
| "operator_text Multiply = ''*''" | "operator_text Divide = ''/''"
| "operator_text And = ''&&''" | "operator_text Or = ''||''" | "operator_text Xor = ''^''"
| "operator_text Eq = ''==''" | "operator_text Ne = ''!=''"
| "operator_text Lt = ''<''" | "operator_text Le = ''<=''"
| "operator_text Gt = ''>''" | "operator_text Ge = ''>=''"

fun system_text :: "system_variable \<Rightarrow> string" where
  "system_text Hostname = ''system('' @ quoted ''hostname''"
| "system_text Domain = ''system('' @ quoted ''domain''"
| "system_text NodeId = ''system('' @ quoted ''node_id''"
| "system_text NodeHostname = ''system('' @ quoted ''node_hostname''"
| "system_text NodeRole = ''system('' @ quoted ''node_role''"
| "system_text (Metric m) = ''metric('' @ quoted m"

fun constant_text :: "'f expr_constant \<Rightarrow> string" where
  "constant_text (CInteger i) = nat_to_string (unat i)"
| "constant_text (CString s) = quoted s"
| "constant_text (Static c) = c"
| "constant_text (CFloat f) = []"

fun token_text :: "'f expr_token \<Rightarrow> string" where
  "token_text (TVariable v) = v"
| "token_text (TGlobal g) = CHR ''$'' # g"
| "token_text (TCapture n) = CHR ''$'' # nat_to_string (unat n)"
| "token_text (TFunction name fid n) = name"
| "token_text (TConstant c) = constant_text c"
| "token_text (TBinary p) = operator_text p"
| "token_text (TUnary Not) = ''!''"
| "token_text (TUnary Minus) = ''-''"
| "token_text OpenParen = ''(''" | "token_text CloseParen = '')''"
| "token_text OpenBracket = ''[''" | "token_text CloseBracket = '']''"
| "token_text Comma = '',''"
| "token_text (TRegex re) = ''matches('' @ quoted re @ '',''"
| "token_text (TSystem s) = system_text s"

text \<open>The calls with a literal argument are written together with their parenthesis.\<close>

fun literal_token :: "'f expr_token \<Rightarrow> bool" where
  "literal_token (TRegex re) \<longleftrightarrow> True"
| "literal_token (TSystem s) \<longleftrightarrow> True"
| "literal_token _ \<longleftrightarrow> False"

fun expr_text :: "'f expr_token list \<Rightarrow> string" where
  "expr_text [] = []"
| "expr_text (t # ts) = token_text t @ SP # expr_text (if literal_token t then tl ts else ts)"

text \<open>Tokens that can be written where they stand.\<close>

definition plain_text :: "string \<Rightarrow> bool" where
  "plain_text s \<longleftrightarrow> utf8_valid s \<and> apostrophe \<notin> set s \<and> BACKSLASH \<notin> set s"

definition word_char :: "char \<Rightarrow> bool" where
  "word_char c \<longleftrightarrow> is_name_char c \<or> is_ascii_digit c \<or> c = CHR ''.''"

fun constant_ok :: "'f token_env \<Rightarrow> 'f expr_constant \<Rightarrow> bool" where
  "constant_ok env (CInteger i) \<longleftrightarrow> unat i < 2 ^ 63"
| "constant_ok env (CString s) \<longleftrightarrow> plain_text s"
| "constant_ok env (Static c) \<longleftrightarrow> c \<in> set expression_constants \<and> allowed (te_constants env) c"
| "constant_ok env (CFloat f) \<longleftrightarrow> False"

fun token_ok :: "'f token_env \<Rightarrow> bool \<Rightarrow> 'f expr_token \<Rightarrow> bool" where
  "token_ok env is_start (TVariable v) \<longleftrightarrow> v \<in> set expression_variables \<and> allowed (te_variables env) v"
| "token_ok env is_start (TGlobal g) \<longleftrightarrow>
     g \<noteq> [] \<and> list_all word_char g \<and> utf8_valid g \<and> \<not> list_all is_ascii_digit g"
| "token_ok env is_start (TFunction name fid n) \<longleftrightarrow> function_named name = Some (fid, n)"
| "token_ok env is_start (TConstant c) \<longleftrightarrow> constant_ok env c"
| "token_ok env is_start (TBinary p) \<longleftrightarrow> p = Subtract \<longrightarrow> \<not> is_start"
| "token_ok env is_start (TUnary u) \<longleftrightarrow> u = Minus \<longrightarrow> is_start"
| "token_ok env is_start (TRegex re) \<longleftrightarrow> plain_text re \<and> te_regex env re"
| "token_ok env is_start (TSystem s) \<longleftrightarrow> (case s of Metric m \<Rightarrow> plain_text m \<and> te_metric env m | _ \<Rightarrow> True)"
| "token_ok env is_start _ \<longleftrightarrow> True"

text \<open>The depth of parentheses before and after a token.\<close>

fun deeper :: "'f expr_token \<Rightarrow> nat \<Rightarrow> nat option" where
  "deeper OpenParen d = (if d < 2 ^ 32 - 1 then Some (d + 1) else None)"
| "deeper CloseParen d = (if d > 0 then Some (d - 1) else None)"
| "deeper _ d = Some d"

fun tokens_ok :: "'f token_env \<Rightarrow> bool \<Rightarrow> nat \<Rightarrow> 'f expr_token list \<Rightarrow> bool" where
  "tokens_ok env is_start d [] \<longleftrightarrow> d = 0"
| "tokens_ok env is_start d (t # ts) \<longleftrightarrow>
     token_ok env is_start t \<and> (literal_token t \<longrightarrow> ts \<noteq> [] \<and> hd ts = OpenParen) \<and>
     (case deeper t d of Some d' \<Rightarrow> tokens_ok env (starts_operand t) d' ts | None \<Rightarrow> False)"

section \<open>Names and numbers\<close>

definition between :: "nat \<Rightarrow> bool \<Rightarrow> 'f expr_token list \<Rightarrow> string \<Rightarrow> 'f tokenizer" where
  "between d is_start next iter =
     \<lparr>tk_iter = iter, tk_buf = [], tk_depth = of_nat d, tk_next = next, tk_has_number = False,
      tk_has_dot = False, tk_has_alpha = False, tk_is_start = is_start, tk_is_eof = False\<rparr>"

definition inside :: "nat \<Rightarrow> bool \<Rightarrow> string \<Rightarrow> string \<Rightarrow> 'f tokenizer" where
  "inside d is_start buf iter =
     \<lparr>tk_iter = iter, tk_buf = buf, tk_depth = of_nat d, tk_next = [],
      tk_has_number = list_ex is_ascii_digit buf, tk_has_dot = CHR ''.'' \<in> set buf,
      tk_has_alpha = list_ex is_name_char buf, tk_is_start = is_start, tk_is_eof = False\<rparr>"

lemma name_char_not: "is_name_char c \<Longrightarrow> \<not> is_ascii_digit c \<and> c \<noteq> CHR ''.''"
  by (auto simp: is_name_char_def is_ascii_digit_def is_ascii_uppercase_def is_ascii_lowercase_def)

lemma digit_not: "is_ascii_digit c \<Longrightarrow> \<not> is_name_char c \<and> c \<noteq> CHR ''.''"
  using name_char_not [of c] by (auto simp: is_ascii_digit_def)

lemma dot_not: "\<not> is_name_char CHR ''.''" "\<not> is_ascii_digit CHR ''.''"
  using name_char_not [of "CHR ''.''"] digit_not [of "CHR ''.''"] by blast+

lemma scan_iter:
  fixes t :: "'f tokenizer"
  shows "scan env s (t\<lparr>tk_iter := x\<rparr>) = scan env s t"
  by (cases s) simp_all

lemma scan_inside_iter: "scan env s (inside d b buf x) = scan env s (inside d b buf y)"
  using scan_iter [of env s x "inside d b buf y"] by (simp add: inside_def)

lemma scan_word_char:
  assumes "word_char c"
  shows "scan env (c # s) (inside d b buf x) = scan env s (inside d b (buf @ [c]) y)"
proof -
  have "scan env (c # s) (inside d b buf x) = scan env s (inside d b (buf @ [c]) s)"
    using assms name_char_not [of c] digit_not [of c] unfolding word_char_def
    by (elim disjE) (auto simp add: inside_def push_char_def dot_not eq_commute [of "CHR ''.''"])
  then show ?thesis using scan_inside_iter by metis
qed

lemma scan_word:
  "list_all word_char w \<Longrightarrow> scan env (w @ rest) (inside d b buf x) = scan env rest (inside d b (buf @ w) y)"
proof (induction w arbitrary: buf x)
  case Nil
  then show ?case using scan_inside_iter [of env rest d b buf x y] by simp
next
  case (Cons c w)
  then show ?case using scan_word_char [of c env "w @ rest" d b buf x y] by simp
qed

lemma word_char_ascii: "word_char c \<Longrightarrow> code c < 128"
  by (auto simp: word_char_def is_name_char_def is_ascii_digit_def is_ascii_uppercase_def is_ascii_lowercase_def)

lemma word_utf8: "list_all word_char w \<Longrightarrow> utf8_valid w"
proof (induction w)
  case (Cons c w)
  then show ?case using word_char_ascii [of c] by (cases w) simp_all
qed simp

definition word_token :: "'f token_env \<Rightarrow> string \<Rightarrow> token_error + 'f expr_token" where
  "word_token env w =
     (if list_ex is_ascii_digit w \<and> \<not> list_ex is_name_char w then number_token env (CHR ''.'' \<in> set w) w
      else if w = ''true'' then Inr (TConstant (CInteger 1))
      else if w = ''false'' then Inr (TConstant (CInteger 0))
      else name_token env w)"

lemma parse_buf_inside:
  assumes "list_all word_char w"
  shows "parse_buf env (inside d b w x) = and_then (word_token env w) (\<lambda>tok. Inr (tok, between d b [] x))"
proof -
  have "list_ex is_ascii_digit w \<and> \<not> list_ex is_name_char w \<Longrightarrow> w \<noteq> ''true'' \<and> w \<noteq> ''false''"
    by (auto simp: is_name_char_def is_ascii_lowercase_def)
  moreover have "\<not> list_ex is_ascii_digit ''true''" "\<not> list_ex is_ascii_digit ''false''"
    by (simp_all add: is_ascii_digit_def)
  ultimately show ?thesis
    using word_utf8 [OF assms]
    by (auto simp: parse_buf_def word_token_def inside_def between_def and_then_def Let_def split: sum.splits)
qed

lemma SP_char: "\<not> is_name_char SP" "\<not> is_ascii_digit SP"
  by (simp_all add: is_name_char_def is_ascii_digit_def is_ascii_uppercase_def is_ascii_lowercase_def)

lemma between_inside: "between d b [] s = inside d b [] s"
  by (simp add: between_def inside_def)

lemma next_scan: "tokenizer_next env (between d b [] s) = scan env s (inside d b [] x)"
  using scan_inside_iter [of env s d b "[]" s x] by (simp add: tokenizer_next_def between_inside) (simp add: inside_def)

lemma next_space: "tokenizer_next env (between d b [] (SP # s)) = tokenizer_next env (between d b [] s)"
proof -
  have "scan env (SP # s) (inside d b [] s) = scan env s (inside d b [] s)"
    by (simp add: SP_char) (simp add: inside_def)
  then show ?thesis using next_scan by metis
qed

lemma next_word:
  assumes "list_all word_char w" "w \<noteq> []" "word_token env w = Inr tok"
  shows "tokenizer_next env (between d b [] (w @ SP # rest)) = Inr (Some tok, between d False [] rest)"
proof -
  have buf: "tk_buf (inside d b w rest) = w" by (simp add: inside_def)
  have start: "inside d b w rest\<lparr>tk_is_start := False\<rparr> = inside d False w rest" by (simp add: inside_def)
  have "tokenizer_next env (between d b [] (w @ SP # rest)) = scan env (SP # rest) (inside d b w rest)"
    using next_scan [of env d b "w @ SP # rest" rest] scan_word [OF assms(1), of env "SP # rest" d b "[]" rest rest] by simp
  also have "\<dots> = delimiter env SP (inside d b w rest)"
    using assms(2) by (simp add: SP_char buf) (simp add: inside_def)
  also have "\<dots> = Inr (Some tok, between d False [] rest)"
    using assms(2,3) by (simp add: delimiter_def previous_def buf start parse_buf_inside [OF assms(1)])
  finally show ?thesis .
qed

end
