(* ===== verification/Expr_Names.thy ===== *)
theory Expr_Names
  imports Expr_Text
begin

text \<open>
  The tables of names do not get in each other's way: every name is one word for the tokenizer,
  and no variable or constant has the name of a function.
\<close>

definition word_known :: "string \<Rightarrow> bool" where
  "word_known w \<longleftrightarrow> list_all word_char w \<and> w \<noteq> [] \<and> list_ex is_name_char w \<and> w \<noteq> ''true'' \<and> w \<noteq> ''false'' \<and>
     hd w \<noteq> CHR ''$''"

lemma variables_known:
  "\<forall>v\<in>set expression_variables. word_known v \<and> function_named v = None"
  by code_simp

lemma constants_known:
  "\<forall>c\<in>set expression_constants. word_known c \<and> function_named c = None \<and> c \<notin> set expression_variables"
  by code_simp

lemma functions_known: "\<forall>f\<in>set (map fst FUNCTIONS @ map fst ASYNC_FUNCTIONS). word_known f"
  by code_simp

end
