(* ===== verification/Expr_Eval.thy ===== *)
theory Expr_Eval
  imports Expr_Parser
begin

text \<open>
  The stack machine that evaluates expressions (\<^verbatim>\<open>crates/common/src/expr/eval.rs\<close>) and
  the conditional blocks over it. The resolver, the server's names, its functions and the
  library of regular expressions are fields of an environment; an asynchronous function reads
  and changes the rest of the server, a state of type \<^typ>\<open>'w\<close>, and can fail.
\<close>

record ('f, 'w) eval_env =
  ee_floats :: "'f float_ops"
  ee_variable :: "string \<Rightarrow> 'f variable"
  ee_global :: "string \<Rightarrow> 'f variable"
  ee_hostname :: string
  ee_domain :: string
  ee_node_id :: u64
  ee_node_hostname :: string
  ee_node_role :: "string option"
  ee_metric :: "string \<Rightarrow> 'f"
  ee_functions :: "('f variable list \<Rightarrow> 'f variable) list"
  ee_async :: "u32 \<Rightarrow> 'f variable list \<Rightarrow> 'w \<Rightarrow> (string + 'f variable) \<times> 'w"
  ee_captures :: "string \<Rightarrow> string \<Rightarrow> string option list option"

text \<open>What a computation leaves: an error or a value, the captures and the state of the server.\<close>

type_synonym ('a, 'w) evaluation = "(string + 'a) \<times> string list \<times> 'w"

definition eval_then :: "('a, 'w) evaluation \<Rightarrow> ('a \<Rightarrow> string list \<Rightarrow> 'w \<Rightarrow> ('b, 'w) evaluation) \<Rightarrow>
    ('b, 'w) evaluation" where
  "eval_then r f = (case r of (Inl e, cs, w) \<Rightarrow> (Inl e, cs, w) | (Inr v, cs, w) \<Rightarrow> f v cs w)"

lemma eval_then_simps [simp]:
  "eval_then (Inl e, cs, w) f = (Inl e, cs, w)" "eval_then (Inr v, cs, w) f = f v cs w"
  by (simp_all add: eval_then_def)

lemma eval_then_assoc:
  "eval_then (eval_then r f) g = eval_then r (\<lambda>v cs w. eval_then (f v cs w) g)"
  by (auto simp: eval_then_def split: sum.splits prod.splits)

section \<open>The machine\<close>

fun constant_value :: "'f expr_constant \<Rightarrow> 'f variable" where
  "constant_value (CInteger i) = IntegerV i"
| "constant_value (CFloat f) = FloatV f"
| "constant_value (CString s) = StringV s"
| "constant_value (Static c) = ConstantV c"

fun system_value :: "('f, 'w) eval_env \<Rightarrow> system_variable \<Rightarrow> 'f variable" where
  "system_value env Hostname = StringV (ee_hostname env)"
| "system_value env Domain = StringV (ee_domain env)"
| "system_value env NodeId = from_u64 (ee_node_id env)"
| "system_value env NodeHostname = StringV (ee_node_hostname env)"
| "system_value env NodeRole = StringV (case ee_node_role env of Some r \<Rightarrow> r | None \<Rightarrow> [])"
| "system_value env (Metric m) = FloatV (ee_metric env m)"

text \<open>\<open>captures.get(n)\<close> with its default\<close>

definition capture_value :: "string list \<Rightarrow> u32 \<Rightarrow> 'f variable" where
  "capture_value cs n = StringV (if unat n < length cs then cs ! unat n else [])"

fun pop :: "'f variable list \<Rightarrow> 'f variable \<times> 'f variable list" where
  "pop [] = (variable_default, [])"
| "pop (v # vs) = (v, vs)"

text \<open>The last \<open>n\<close> values, in the order in which they were pushed.\<close>

fun pop_args :: "nat \<Rightarrow> 'f variable list \<Rightarrow> 'f variable list \<Rightarrow> 'f variable list \<times> 'f variable list" where
  "pop_args 0 stack args = (args, stack)"
| "pop_args (Suc n) stack args = (case pop stack of (v, stack) \<Rightarrow> pop_args n stack (v # args))"

definition call_function :: "('f, 'w) eval_env \<Rightarrow> u32 \<Rightarrow> 'f variable list \<Rightarrow> string list \<Rightarrow> 'w \<Rightarrow>
    ('f variable, 'w) evaluation" where
  "call_function env fid args cs w =
     (if unat fid < length (ee_functions env) then (Inr ((ee_functions env ! unat fid) args), cs, w)
      else (case ee_async env (fid - of_nat (length (ee_functions env))) args w of (r, w) \<Rightarrow> (r, cs, w)))"

definition array_access :: "'f float_ops \<Rightarrow> 'f variable \<Rightarrow> 'f variable \<Rightarrow> 'f variable" where
  "array_access fl array index =
     (let i = (case to_usize fl index of Some i \<Rightarrow> unat i | None \<Rightarrow> 0); l = into_array array
      in if i < length l then l ! i else variable_default)"

definition regex_captures :: "('f, 'w) eval_env \<Rightarrow> string \<Rightarrow> 'f variable \<Rightarrow> string list" where
  "regex_captures env re v =
     (case ee_captures env re (variable_to_string (ee_floats env) v) of
        Some groups \<Rightarrow> map (\<lambda>g. case g of Some s \<Rightarrow> s | None \<Rightarrow> []) groups
      | None \<Rightarrow> [])"

text \<open>One item that is not a jump; the values are the stack, its top first.\<close>

fun eval_item :: "('f, 'w) eval_env \<Rightarrow> 'f item \<Rightarrow> 'f variable list \<Rightarrow> string list \<Rightarrow> 'w \<Rightarrow>
    ('f variable list, 'w) evaluation" where
  "eval_item env (IVariable v) stack cs w = (Inr (ee_variable env v # stack), cs, w)"
| "eval_item env (IGlobal v) stack cs w = (Inr (ee_global env v # stack), cs, w)"
| "eval_item env (IConstant c) stack cs w = (Inr (constant_value c # stack), cs, w)"
| "eval_item env (ICapture n) stack cs w = (Inr (capture_value cs n # stack), cs, w)"
| "eval_item env (ISystem s) stack cs w = (Inr (system_value env s # stack), cs, w)"
| "eval_item env (IUnary u) stack cs w =
     (case pop stack of (v, stack) \<Rightarrow> (Inr (unary_op (ee_floats env) u v # stack), cs, w))"
| "eval_item env (IBinary p) stack cs w =
     (case pop stack of (right, stack) \<Rightarrow>
        case pop stack of (left, stack) \<Rightarrow>
          (Inr (binary_op (ee_floats env) p left right # stack), cs, w))"
| "eval_item env (IFunction fid n) stack cs w =
     (case pop_args (unat n) stack [] of (args, stack) \<Rightarrow>
        eval_then (call_function env fid args cs w) (\<lambda>v cs w. (Inr (v # stack), cs, w)))"
| "eval_item env ArrayAccess stack cs w =
     (case pop stack of (index, stack) \<Rightarrow>
        case pop stack of (array, stack) \<Rightarrow>
          (Inr (array_access (ee_floats env) array index # stack), cs, w))"
| "eval_item env (ArrayBuild n) stack cs w =
     (case pop_args (unat n) stack [] of (items, stack) \<Rightarrow> (Inr (ArrayV items # stack), cs, w))"
| "eval_item env (IRegex re) stack cs w =
     (case pop stack of (v, stack) \<Rightarrow>
        let cs = regex_captures env re v in (Inr (from_bool (cs \<noteq> []) # stack), cs, w))"
| "eval_item env (JmpIf v n) stack cs w = (Inr stack, cs, w)"

definition jumps :: "'f float_ops \<Rightarrow> bool \<Rightarrow> 'f variable list \<Rightarrow> bool" where
  "jumps fl v stack \<longleftrightarrow> (case stack of [] \<Rightarrow> False | x # _ \<Rightarrow> to_bool fl x) = v"

function eval_items :: "('f, 'w) eval_env \<Rightarrow> 'f item list \<Rightarrow> 'f variable list \<Rightarrow> string list \<Rightarrow> 'w \<Rightarrow>
    ('f variable, 'w) evaluation" where
  "eval_items env [] stack cs w = (Inr (fst (pop stack)), cs, w)"
| "eval_items env (i # items) stack cs w =
     (case i of
        JmpIf v n \<Rightarrow> eval_items env (if jumps (ee_floats env) v stack then drop (unat n) items else items) stack cs w
      | _ \<Rightarrow> eval_then (eval_item env i stack cs w) (eval_items env items))"
  by pat_completeness auto
termination
  by (relation "measure (\<lambda>(env, items, stack, cs, w). length items)") auto

definition eval_expr :: "('f, 'w) eval_env \<Rightarrow> 'f item list \<Rightarrow> string list \<Rightarrow> 'w \<Rightarrow> ('f variable, 'w) evaluation" where
  "eval_expr env items cs w = eval_items env items [] cs w"

section \<open>Conditional blocks\<close>

record 'f if_block =
  ib_if_then :: "('f item list \<times> 'f item list) list"
  ib_default :: "'f item list"

definition if_block_is_empty :: "'f if_block \<Rightarrow> bool" where
  "if_block_is_empty b \<longleftrightarrow> ib_default b = [] \<and> ib_if_then b = []"

fun eval_branches :: "('f, 'w) eval_env \<Rightarrow> ('f item list \<times> 'f item list) list \<Rightarrow> 'f item list \<Rightarrow>
    string list \<Rightarrow> 'w \<Rightarrow> ('f variable, 'w) evaluation" where
  "eval_branches env [] otherwise cs w = eval_expr env otherwise cs w"
| "eval_branches env ((cond, conseq) # rest) otherwise cs w =
     eval_then (eval_expr env cond cs w)
       (\<lambda>v cs w. if to_bool (ee_floats env) v then eval_expr env conseq cs w
                 else eval_branches env rest otherwise cs w)"

definition eval_if_block :: "('f, 'w) eval_env \<Rightarrow> 'f if_block \<Rightarrow> 'w \<Rightarrow> ('f variable, 'w) evaluation" where
  "eval_if_block env b w = eval_branches env (ib_if_then b) (ib_default b) [] w"

text \<open>\<open>eval_if\<close> and \<open>eval_expr\<close> of the server, with the conversion of the result to the type asked for.\<close>

definition server_eval_if :: "('f, 'w) eval_env \<Rightarrow> ('f variable \<Rightarrow> 'r option) \<Rightarrow> 'f if_block \<Rightarrow> 'w \<Rightarrow> 'r option \<times> 'w" where
  "server_eval_if env convert b w =
     (if if_block_is_empty b then (None, w)
      else (case eval_if_block env b w of
              (Inl _, _, w) \<Rightarrow> (None, w)
            | (Inr v, _, w) \<Rightarrow> (convert v, w)))"

definition server_eval_expr :: "('f, 'w) eval_env \<Rightarrow> ('f variable \<Rightarrow> 'r option) \<Rightarrow> 'f item list \<Rightarrow> 'w \<Rightarrow> 'r option \<times> 'w" where
  "server_eval_expr env convert items w =
     (if items = [] then (None, w)
      else (case eval_expr env items [] w of
              (Inl _, _, w) \<Rightarrow> (None, w)
            | (Inr v, _, w) \<Rightarrow> (convert v, w)))"

end
