(* ===== verification/Expr_Syntax.thy ===== *)
theory Expr_Syntax
  imports Expr_Eval
begin

text \<open>
  The expressions themselves: their syntax trees, the tokens they are written with, the items
  they are compiled to and their meaning, none of which mentions the operator stack of the
  parser or the value stack of the machine.
\<close>

section \<open>Syntax trees\<close>

datatype 'f leaf = VariableLeaf string | GlobalLeaf string | CaptureLeaf u32 | ConstantLeaf "'f expr_constant"

datatype 'f ast =
    Leaf "'f leaf"
  | Unop unary_operator "'f ast"
  | Binop binary_operator "'f ast" "'f ast"
  | Paren "'f ast"
  | Call string u32 "'f ast list"
  | Matches string "'f ast"
  | Sys system_variable
  | Arr "'f ast list"
  | Index "'f ast" "'f ast"

fun leaf_token :: "'f leaf \<Rightarrow> 'f expr_token" where
  "leaf_token (VariableLeaf v) = TVariable v"
| "leaf_token (GlobalLeaf v) = TGlobal v"
| "leaf_token (CaptureLeaf n) = TCapture n"
| "leaf_token (ConstantLeaf c) = TConstant c"

fun leaf_item :: "'f leaf \<Rightarrow> 'f item" where
  "leaf_item (VariableLeaf v) = IVariable v"
| "leaf_item (GlobalLeaf v) = IGlobal v"
| "leaf_item (CaptureLeaf n) = ICapture n"
| "leaf_item (ConstantLeaf c) = IConstant c"

text \<open>How strongly an expression holds together: operands and prefix operators the most.\<close>

fun ast_precedence :: "'f ast \<Rightarrow> nat" where
  "ast_precedence (Binop p a b) = precedence p"
| "ast_precedence _ = 8"

text \<open>What may be followed by an index, and what may start an item of an array.\<close>

fun indexable :: "'f ast \<Rightarrow> bool" where
  "indexable (Leaf l) \<longleftrightarrow> (case l of VariableLeaf _ \<Rightarrow> True | _ \<Rightarrow> False)"
| "indexable (Unop u e) \<longleftrightarrow> False"
| "indexable (Binop p a b) \<longleftrightarrow> False"
| "indexable _ \<longleftrightarrow> True"

fun starts_item :: "'f ast \<Rightarrow> bool" where
  "starts_item (Unop u e) \<longleftrightarrow> False"
| "starts_item (Paren e) \<longleftrightarrow> False"
| "starts_item (Binop p a b) \<longleftrightarrow> starts_item a"
| "starts_item (Index a i) \<longleftrightarrow> starts_item a"
| "starts_item _ \<longleftrightarrow> True"

text \<open>
  Trees that stand for their text: operands bind at least as strongly as their operator (the right
  one more strongly, since the operators associate to the left); the items of an array do
  not start with a prefix operator or a parenthesis, which the parser does not count.
\<close>

fun ast_ok :: "'f ast \<Rightarrow> bool" where
  "ast_ok (Leaf l) \<longleftrightarrow> True"
| "ast_ok (Unop u e) \<longleftrightarrow> ast_ok e \<and> ast_precedence e = 8"
| "ast_ok (Binop p a b) \<longleftrightarrow> ast_ok a \<and> ast_ok b \<and>
     precedence p \<le> ast_precedence a \<and> precedence p < ast_precedence b"
| "ast_ok (Paren e) \<longleftrightarrow> ast_ok e"
| "ast_ok (Call name fid es) \<longleftrightarrow> (\<forall>e\<in>set es. ast_ok e) \<and> length es < 2 ^ 31 - 1 \<and>
     fid \<noteq> ID_ARRAY_ACCESS \<and> fid \<noteq> ID_ARRAY_BUILD"
| "ast_ok (Matches re e) \<longleftrightarrow> ast_ok e"
| "ast_ok (Sys s) \<longleftrightarrow> True"
| "ast_ok (Arr es) \<longleftrightarrow> (\<forall>e\<in>set es. ast_ok e \<and> starts_item e) \<and> length es < 2 ^ 31 - 1"
| "ast_ok (Index a i) \<longleftrightarrow> ast_ok a \<and> ast_ok i \<and> indexable a"

section \<open>Text and code\<close>

fun separated :: "'f expr_token list list \<Rightarrow> 'f expr_token list" where
  "separated [] = []"
| "separated [ts] = ts"
| "separated (ts # rest) = ts @ Comma # separated rest"

fun tokens :: "'f ast \<Rightarrow> 'f expr_token list" where
  "tokens (Leaf l) = [leaf_token l]"
| "tokens (Unop u e) = TUnary u # tokens e"
| "tokens (Binop p a b) = tokens a @ TBinary p # tokens b"
| "tokens (Paren e) = OpenParen # tokens e @ [CloseParen]"
| "tokens (Call name fid es) =
     TFunction name fid (of_nat (length es)) # OpenParen # separated (map tokens es) @ [CloseParen]"
| "tokens (Matches re e) = TRegex re # OpenParen # tokens e @ [CloseParen]"
| "tokens (Sys s) = [TSystem s, OpenParen, CloseParen]"
| "tokens (Arr es) = OpenBracket # separated (map tokens es) @ [CloseBracket]"
| "tokens (Index a i) = tokens a @ OpenBracket # tokens i @ [CloseBracket]"

definition jump_over :: "binary_operator \<Rightarrow> nat \<Rightarrow> 'f item list" where
  "jump_over p n = (case short_circuit p of Some v \<Rightarrow> [JmpIf v (of_nat (n + 1))] | None \<Rightarrow> [])"

fun compile :: "'f ast \<Rightarrow> 'f item list" where
  "compile (Leaf l) = [leaf_item l]"
| "compile (Unop u e) = compile e @ [IUnary u]"
| "compile (Binop p a b) = compile a @ jump_over p (length (compile b)) @ compile b @ [IBinary p]"
| "compile (Paren e) = compile e"
| "compile (Call name fid es) = concat (map compile es) @ [IFunction fid (of_nat (length es))]"
| "compile (Matches re e) = compile e @ [IRegex re]"
| "compile (Sys s) = [ISystem s]"
| "compile (Arr es) = concat (map compile es) @ [ArrayBuild (of_nat (length es))]"
| "compile (Index a i) = compile a @ compile i @ [ArrayAccess]"

section \<open>Meaning\<close>

fun leaf_value :: "('f, 'w) eval_env \<Rightarrow> 'f leaf \<Rightarrow> string list \<Rightarrow> 'f variable" where
  "leaf_value env (VariableLeaf v) cs = ee_variable env v"
| "leaf_value env (GlobalLeaf v) cs = ee_global env v"
| "leaf_value env (CaptureLeaf n) cs = capture_value cs n"
| "leaf_value env (ConstantLeaf c) cs = constant_value c"

text \<open>
  Operands from left to right. \<open>And\<close> and \<open>Or\<close> leave out their right operand when the
  left one decides, and then have the value of the left one.
\<close>

fun meaning :: "('f, 'w) eval_env \<Rightarrow> 'f ast \<Rightarrow> string list \<Rightarrow> 'w \<Rightarrow> ('f variable, 'w) evaluation"
  and meanings :: "('f, 'w) eval_env \<Rightarrow> 'f ast list \<Rightarrow> string list \<Rightarrow> 'w \<Rightarrow> ('f variable list, 'w) evaluation" where
  "meaning env (Leaf l) cs w = (Inr (leaf_value env l cs), cs, w)"
| "meaning env (Unop u e) cs w =
     eval_then (meaning env e cs w) (\<lambda>v cs w. (Inr (unary_op (ee_floats env) u v), cs, w))"
| "meaning env (Binop p a b) cs w =
     eval_then (meaning env a cs w) (\<lambda>l cs w.
       if short_circuit p = Some (to_bool (ee_floats env) l) then (Inr l, cs, w)
       else eval_then (meaning env b cs w) (\<lambda>r cs w. (Inr (binary_op (ee_floats env) p l r), cs, w)))"
| "meaning env (Paren e) cs w = meaning env e cs w"
| "meaning env (Call name fid es) cs w =
     eval_then (meanings env es cs w) (\<lambda>args cs w. call_function env fid args cs w)"
| "meaning env (Matches re e) cs w =
     eval_then (meaning env e cs w) (\<lambda>v cs w.
       let cs = regex_captures env re v in (Inr (from_bool (cs \<noteq> [])), cs, w))"
| "meaning env (Sys s) cs w = (Inr (system_value env s), cs, w)"
| "meaning env (Arr es) cs w = eval_then (meanings env es cs w) (\<lambda>vs cs w. (Inr (ArrayV vs), cs, w))"
| "meaning env (Index a i) cs w =
     eval_then (meaning env a cs w) (\<lambda>x cs w.
       eval_then (meaning env i cs w) (\<lambda>n cs w. (Inr (array_access (ee_floats env) x n), cs, w)))"
| "meanings env [] cs w = (Inr [], cs, w)"
| "meanings env (e # es) cs w =
     eval_then (meaning env e cs w) (\<lambda>v cs w.
       eval_then (meanings env es cs w) (\<lambda>vs cs w. (Inr (v # vs), cs, w)))"

section \<open>The machine runs the compiled code\<close>

lemma eval_items_step:
  "(\<And>v n. i \<noteq> JmpIf v n) \<Longrightarrow>
   eval_items env (i # items) stack cs w = eval_then (eval_item env i stack cs w) (eval_items env items)"
  by (cases i) auto

lemma pop_args_append:
  "pop_args (length vs) (rev vs @ stack) args = (vs @ args, stack)"
proof (induction vs arbitrary: args rule: rev_induct)
  case (snoc v vs)
  then show ?case by simp
qed simp

lemma eval_leaf: "eval_item env (leaf_item l) stack cs w = (Inr (leaf_value env l cs # stack), cs, w)"
  by (cases l) auto

text \<open>A run of items that stand for expressions puts their values on the stack.\<close>

definition runs :: "('f, 'w) eval_env \<Rightarrow> 'f ast \<Rightarrow> bool" where
  "runs env e \<longleftrightarrow> (\<forall>rest stack cs w. eval_items env (compile e @ rest) stack cs w =
     eval_then (meaning env e cs w) (\<lambda>v. eval_items env rest (v # stack)))"

lemma eval_items_list:
  assumes "\<forall>e\<in>set es. runs env e"
  shows "eval_items env (concat (map compile es) @ rest) stack cs w =
    eval_then (meanings env es cs w) (\<lambda>vs. eval_items env rest (rev vs @ stack))"
  using assms
proof (induction es arbitrary: stack cs w)
  case (Cons e es)
  then show ?case by (auto simp: runs_def eval_then_def split: sum.splits prod.splits)
qed simp

lemma meanings_length: "meanings env es cs w = (Inr vs, cs', w') \<Longrightarrow> length vs = length es"
  by (induction es arbitrary: cs w vs) (auto simp: eval_then_def split: sum.splits prod.splits)

lemma eval_jump:
  assumes "length (compile b) + 1 < 2 ^ 32"
  shows "eval_items env (jump_over p (length (compile b)) @ compile b @ IBinary p # rest) (l # stack) cs w =
    (if short_circuit p = Some (to_bool (ee_floats env) l) then eval_items env rest (l # stack) cs w
     else eval_items env (compile b @ IBinary p # rest) (l # stack) cs w)"
proof (cases "short_circuit p")
  case (Some v)
  have "unat (of_nat (length (compile b) + 1) :: u32) = length (compile b) + 1"
    using assms by (simp only: unat_of_nat) (simp add: take_bit_nat_eq_self)
  with Some show ?thesis by (auto simp: jump_over_def jumps_def simp del: of_nat_add of_nat_Suc)
qed (simp add: jump_over_def)

lemma eval_then_cong_run:
  "(\<And>v cs w. f v cs w = g v cs w) \<Longrightarrow> eval_then r f = eval_then r g"
  by (auto simp: eval_then_def split: sum.splits prod.splits)

lemma compile_shorter:
  "length (compile (Binop p a b)) < n \<Longrightarrow> length (compile b) + 1 < n"
  "length (compile (Binop p a b)) < n \<Longrightarrow> length (compile a) < n"
  "length (compile (Binop p a b)) < n \<Longrightarrow> length (compile b) < n"
  by simp_all

lemma length_compile_pos: "0 < length (compile e)"
  by (induction e) auto

lemma member_shorter: "e \<in> set es \<Longrightarrow> length (compile e) \<le> length (concat (map compile es))"
  by (induction es) auto

lemma items_short: "length es \<le> length (concat (map compile es))"
proof (induction es)
  case (Cons e es)
  have "1 \<le> length (compile e)" using length_compile_pos [of e] by linarith
  with Cons show ?case by simp
qed simp

theorem runs_ast: "length (compile e) < 2 ^ 32 \<Longrightarrow> runs env e"
proof (induction e)
  case (Binop p a b)
  then have ab: "runs env a" "runs env b" and n: "length (compile b) + 1 < 2 ^ 32"
    by simp_all
  show ?case
    using ab by (auto simp: runs_def eval_jump [OF n] eval_then_assoc intro!: eval_then_cong_run)
next
  case (Call name fid es)
  have "\<forall>e\<in>set es. runs env e"
    using Call member_shorter [of _ es] by fastforce
  note list = eval_items_list [OF this]
  have n: "unat (of_nat (length es) :: u32) = length es"
    using Call.prems items_short [of es] by (simp only: unat_of_nat) (simp add: take_bit_nat_eq_self)
  have "pop_args (length es) (rev vs @ stack) [] = (vs, stack)"
    if "meanings env es cs w = (Inr vs, cs', w')" for vs cs w cs' w' stack
    using pop_args_append [of vs stack "[]"] meanings_length [OF that] by simp
  then show ?case
    by (auto simp: runs_def list eval_then_assoc n eval_then_def split: sum.splits prod.splits)
next
  case (Arr es)
  have "\<forall>e\<in>set es. runs env e"
    using Arr member_shorter [of _ es] by fastforce
  note list = eval_items_list [OF this]
  have n: "unat (of_nat (length es) :: u32) = length es"
    using Arr.prems items_short [of es] by (simp only: unat_of_nat) (simp add: take_bit_nat_eq_self)
  have "pop_args (length es) (rev vs @ stack) [] = (vs, stack)"
    if "meanings env es cs w = (Inr vs, cs', w')" for vs cs w cs' w' stack
    using pop_args_append [of vs stack "[]"] meanings_length [OF that] by simp
  then show ?case
    by (auto simp: runs_def list n eval_then_def split: sum.splits prod.splits)
next
  case (Leaf l)
  then show ?case by (cases l) (auto simp: runs_def)
qed (auto simp: runs_def Let_def eval_then_assoc intro!: eval_then_cong_run)

end
