(* ===== verification/Expr_Compile.thy ===== *)
theory Expr_Compile
  imports Expr_Syntax
begin

text \<open>
  The parser compiles what it reads: from the tokens of a syntax tree it writes the code of that
  tree. The operators that are still on the stack after an expression are accounted for by
  \<open>unwind\<close>, which every loop of the parser over its stack amounts to.
\<close>

section \<open>The loops over the operator stack\<close>

abbreviation parser :: "'f item list \<Rightarrow> 'f operators \<Rightarrow> 32 word list \<Rightarrow> 'f expr_parser" where
  "parser out ops args \<equiv> \<lparr>ep_output = out, ep_operators = ops, ep_args = args\<rparr>"

fun unwind :: "nat \<Rightarrow> 'f operators \<Rightarrow> 'f item list \<Rightarrow> expr_error + 'f operators \<times> 'f item list" where
  "unwind q ((TBinary prev, j) # ops) out =
     (if q \<le> precedence prev then and_then (emit_binary prev j out) (unwind q ops)
      else Inr ((TBinary prev, j) # ops, out))"
| "unwind q ((TUnary uop, j) # ops) out = unwind q ops (out @ [IUnary uop])"
| "unwind q ops out = Inr (ops, out)"

lemma and_then_cong: "(\<And>x. r = Inr x \<Longrightarrow> f x = g x) \<Longrightarrow> and_then r f = and_then r g"
  by (cases r) auto

lemma binary_loop_unwind: "binary_loop bop ops out = unwind (precedence bop) ops out"
  by (induction bop ops out rule: binary_loop.induct) (auto intro: and_then_cong)

lemma comma_loop_unwind: "comma_loop ops out = unwind 0 ops out"
  by (induction ops out rule: comma_loop.induct) (auto intro: and_then_cong)

lemma close_loop_unwind:
  assumes "expect = OpenParen \<or> expect = OpenBracket"
  shows "close_loop expect ops out = and_then (unwind 0 ops out) (\<lambda>(ops, out).
    case ops of (t, j) # ops' \<Rightarrow> if t = expect then Inr (ops', out) else Inl MismatchedParentheses
    | [] \<Rightarrow> Inl MismatchedParentheses)"
proof (induction ops arbitrary: out)
  case (Cons x ops)
  obtain t j where x: "x = (t, j)" by (cases x)
  show ?case using assms Cons by (cases t) (auto simp: x and_then_assoc intro!: and_then_cong)
qed simp

lemma finish_loop_unwind:
  "finish_loop ops out = and_then (unwind 0 ops out) (\<lambda>(ops, out). if ops = [] then Inr out else Inl InvalidToken)"
  by (induction ops out rule: finish_loop.induct) (auto simp: and_then_assoc intro!: and_then_cong)

fun accepts :: "nat \<Rightarrow> 'f operators \<Rightarrow> bool" where
  "accepts q ((TBinary p, _) # _) \<longleftrightarrow> precedence p < q"
| "accepts q ((TUnary u, _) # _) \<longleftrightarrow> q = 8"
| "accepts q ((TFunction name fid n, _) # _) \<longleftrightarrow> False"
| "accepts q ((TRegex re, _) # _) \<longleftrightarrow> False"
| "accepts q ((TSystem s, _) # _) \<longleftrightarrow> False"
| "accepts q _ \<longleftrightarrow> True"

lemma precedence_le: "precedence p \<le> 7" "0 < precedence p" "precedence p \<noteq> 8"
  by (cases p; simp)+

lemma ast_precedence_le: "ast_precedence e \<le> 8"
  by (cases e) (simp_all add: le_SucI precedence_le(1) [THEN le_trans])

lemma accepts_unwind: "accepts q ops \<Longrightarrow> q \<le> 7 \<Longrightarrow> unwind q ops out = Inr (ops, out)"
  by (cases "(q, ops)" rule: accepts.cases) auto

lemma accepts_mono:
  "accepts q ops \<Longrightarrow> q \<le> r \<Longrightarrow> q \<le> 7 \<Longrightarrow> accepts r ops"
  by (cases "(q, ops)" rule: accepts.cases) auto

lemma accepts_8: "accepts q ops \<Longrightarrow> q \<le> 8 \<Longrightarrow> accepts 8 ops"
  by (cases "(q, ops)" rule: accepts.cases) auto

lemma count_head: "accepts q (e # ops) \<Longrightarrow> count_item e = e"
  by (cases "(q, e # ops)" rule: accepts.cases) auto

lemma accepts_count: "accepts q ops \<Longrightarrow> accepts q (count_below ops)"
  by (cases ops rule: count_below.cases) (auto simp: count_head elim: accepts.elims)

lemma count_below_Cons: "count_item e = e \<Longrightarrow> accepts q ops \<Longrightarrow> count_below (e # ops) = e # ops"
  by (cases ops) (auto simp: count_head)

fun inc_args :: "32 word list \<Rightarrow> 32 word list" where
  "inc_args [] = []"
| "inc_args (x # xs) = sat_inc x # xs"

definition args_ok :: "32 word list \<Rightarrow> bool" where
  "args_ok args \<longleftrightarrow> args = [] \<or> hd args \<noteq> 0x7FFFFFFF"

definition counted :: "bool \<Rightarrow> 32 word list \<Rightarrow> 'f operators \<Rightarrow> 'f operators" where
  "counted b args ops = (if b \<and> args \<noteq> [] then count_below ops else ops)"

lemma inc_arg_count_parser:
  "inc_arg_count (parser out ops args) = parser out (counted True args ops) (inc_args args)"
  by (cases args) (auto simp: inc_arg_count_def counted_def)

lemma dec_inc: "args_ok args \<Longrightarrow> dec_arg_count (parser out ops (inc_args args)) = parser out ops args"
  by (cases args) (auto simp: dec_arg_count_def args_ok_def sat_inc_def sat_dec_def)

lemma counted_False [simp]: "counted False args ops = ops"
  by (simp add: counted_def)

lemma accepts_counted: "accepts q ops \<Longrightarrow> accepts q (counted b args ops)"
  by (simp add: counted_def accepts_count)

lemma counted_Cons: "count_item e = e \<Longrightarrow> accepts q ops \<Longrightarrow> counted b args (e # ops) = e # ops"
  by (simp add: counted_def count_below_Cons)

definition reaches :: "'f ast \<Rightarrow> 'f item list \<Rightarrow> 'f operators \<Rightarrow> 32 word list \<Rightarrow>
    'f operators \<Rightarrow> 'f item list \<Rightarrow> bool \<Rightarrow> bool" where
  "reaches e out ops args pend out' lv \<longleftrightarrow>
     parse_tokens (tokens e) False (parser out ops args) =
       Inr (parser out' (pend @ counted (starts_item e) args ops) (inc_args args), lv) \<and>
     (\<forall>q\<le>ast_precedence e. unwind q (pend @ counted (starts_item e) args ops) out' =
        unwind q (counted (starts_item e) args ops) (out @ compile e)) \<and>
     (indexable e \<longrightarrow> lv \<and> pend = [] \<and> out' = out @ compile e)"

definition parses :: "'f ast \<Rightarrow> bool" where
  "parses e \<longleftrightarrow> (\<forall>out ops args. accepts (ast_precedence e) ops \<longrightarrow> args_ok args \<longrightarrow>
     (\<exists>pend out' lv. reaches e out ops args pend out' lv))"

lemma parsesE:
  assumes "parses e" "accepts (ast_precedence e) ops" "args_ok args"
  obtains pend out' lv where "reaches e out ops args pend out' lv"
  using assms unfolding parses_def by metis

lemma reaches_tokens:
  "reaches e out ops args pend out' lv \<Longrightarrow> parse_tokens (tokens e) False (parser out ops args) =
     Inr (parser out' (pend @ counted (starts_item e) args ops) (inc_args args), lv)"
  by (simp add: reaches_def)

lemma reaches_unwind:
  "reaches e out ops args pend out' lv \<Longrightarrow> q \<le> ast_precedence e \<Longrightarrow>
     unwind q (pend @ counted (starts_item e) args ops) out' =
     unwind q (counted (starts_item e) args ops) (out @ compile e)"
  by (simp add: reaches_def)

lemma reaches_done:
  "parse_tokens (tokens e) False (parser out ops args) =
     Inr (parser (out @ compile e) (counted (starts_item e) args ops) (inc_args args), True) \<Longrightarrow>
   reaches e out ops args [] (out @ compile e) True"
  by (simp add: reaches_def)

text \<open>An open group above the stack: nothing of it is counted, and closing it leaves the stack.\<close>

lemma group:
  assumes e: "parses e" and args: "args_ok args"
    and op: "opening = OpenParen \<or> opening = OpenBracket"
    and ops: "ops = (opening, None) # ops'"
  obtains pend out' lv where
    "parse_tokens (tokens e) False (parser out ops args) =
       Inr (parser out' (pend @ counted (starts_item e) args ops) (inc_args args), lv)"
    "unwind 0 (pend @ counted (starts_item e) args ops) out' =
       Inr (counted (starts_item e) args ops, out @ compile e)"
proof -
  have acc: "accepts q ops" for q using op ops by auto
  obtain pend out' lv where r: "reaches e out ops args pend out' lv"
    using parsesE [OF e acc args] by metis
  show thesis
    using that [OF reaches_tokens [OF r]] reaches_unwind [OF r, of 0]
      accepts_unwind [OF accepts_counted [OF acc]] by simp
qed

lemma end_call_accepts: "accepts q ops \<Longrightarrow> end_call ops out args = Inr (parser out ops args)"
  by (cases "(q, ops)" rule: accepts.cases) (auto simp: end_call_def)

lemma parses_leaf: "parses (Leaf l)"
  unfolding parses_def reaches_def
  by (cases l) (auto simp: parse_token_def operand_def inc_arg_count_parser counted_def Let_def)

lemma parses_unop:
  fixes e :: "'f ast"
  assumes e: "parses e" "ast_precedence e = 8"
  shows "parses (Unop u e)"
  unfolding parses_def
proof (intro allI impI)
  fix out :: "'f item list" and ops :: "'f operators" and args
  assume ops: "accepts (ast_precedence (Unop u e)) ops" and args: "args_ok args"
  let ?ops = "(TUnary u, None) # ops"
  have acc: "accepts (ast_precedence e) ?ops" using e by simp
  have same: "counted b args ?ops = ?ops" for b
    using ops by (auto intro: counted_Cons)
  obtain pend out' lv where r: "reaches e out ?ops args pend out' lv"
    using parsesE [OF e(1) acc args] by metis
  have "reaches (Unop u e) out ops args (pend @ [(TUnary u, None)]) out' lv"
    using reaches_tokens [OF r] reaches_unwind [OF r] e(2)
    by (auto simp: reaches_def same parse_token_def push_operator_def)
  then show "\<exists>pend out' lv. reaches (Unop u e) out ops args pend out' lv" by blast
qed

lemma parse_token_binary:
  assumes "args_ok args" "accepts (precedence p) ops"
    and "unwind (precedence p) pops out' = unwind (precedence p) ops out"
  shows "parse_token (TBinary p) lv (parser out' pops (inc_args args)) =
    Inr (parser (out @ (case short_circuit p of Some v \<Rightarrow> [JmpIf v 0] | None \<Rightarrow> []))
      ((TBinary p, map_option (\<lambda>_. length out) (short_circuit p)) # ops) args, False)"
  using assms precedence_le(1) [of p]
  by (auto simp: parse_token_def binary_token_def dec_inc binary_loop_unwind accepts_unwind Let_def split: option.splits)

lemma emit_compiled:
  "emit_binary p (map_option (\<lambda>_. length out) (short_circuit p))
     (out @ (case short_circuit p of Some v \<Rightarrow> [JmpIf v 0] | None \<Rightarrow> []) @ rest) =
   Inr (out @ jump_over p (length rest) @ rest @ [IBinary p])"
  by (auto simp: emit_binary_def update_jmp_pos_def jump_over_def nth_append list_update_append split: option.splits)

lemma parses_binop:
  fixes a :: "'f ast"
  assumes a: "parses a" "precedence p \<le> ast_precedence a"
    and b: "parses b" "precedence p < ast_precedence b"
  shows "parses (Binop p a b)"
  unfolding parses_def
proof (intro allI impI)
  fix out :: "'f item list" and ops :: "'f operators" and args
  assume "accepts (ast_precedence (Binop p a b)) ops" and args: "args_ok args"
  then have ops: "accepts (precedence p) ops" by simp
  let ?ops = "counted (starts_item a) args ops"
  let ?out = "out @ compile a"
  let ?jump = "case short_circuit p of Some v \<Rightarrow> [JmpIf v 0] | None \<Rightarrow> []"
  define j where "j = map_option (\<lambda>_. length ?out) (short_circuit p)"
  let ?top = "(TBinary p, j)"
  obtain pa outa la where ra: "reaches a out ops args pa outa la"
    using parsesE [OF a(1) accepts_mono [OF ops a(2) precedence_le(1)] args] by metis
  have acc: "accepts (precedence p) ?ops" using ops by (rule accepts_counted)
  have op: "parse_token (TBinary p) la (parser outa (pa @ ?ops) (inc_args args)) =
      Inr (parser (?out @ ?jump) (?top # ?ops) args, False)"
    using args acc reaches_unwind [OF ra a(2)] unfolding j_def by (rule parse_token_binary)
  have acc_b: "accepts (ast_precedence b) (?top # ?ops)" using b by simp
  have same: "counted c args (?top # ?ops) = ?top # ?ops" for c
    using acc by (auto intro: counted_Cons)
  obtain pb outb lb where rb: "reaches b (?out @ ?jump) (?top # ?ops) args pb outb lb"
    using parsesE [OF b(1) acc_b args] by metis
  have "unwind q (pb @ ?top # ?ops) outb = unwind q ?ops (out @ compile (Binop p a b))"
    if "q \<le> precedence p" for q
    using reaches_unwind [OF rb, of q] that b(2)
      emit_compiled [of p ?out "compile b", folded j_def] by (simp add: same)
  then have "reaches (Binop p a b) out ops args (pb @ [?top]) outb lb"
    using reaches_tokens [OF ra] reaches_tokens [OF rb] op
    by (auto simp: reaches_def same parse_tokens_append)
  then show "\<exists>pend out' lv. reaches (Binop p a b) out ops args pend out' lv" by blast
qed

lemma counted_group:
  assumes "count_item x = x"
  shows "counted b args ((OpenParen, None) # x # ops) = (OpenParen, None) # x # ops"
    and "counted b args ((OpenBracket, None) # x # ops) = (OpenBracket, None) # x # ops"
  using assms by (simp_all add: counted_def)

lemma parses_paren:
  fixes e :: "'f ast"
  assumes e: "parses e"
  shows "parses (Paren e)"
  unfolding parses_def
proof (intro allI impI)
  fix out :: "'f item list" and ops :: "'f operators" and args
  assume "accepts (ast_precedence (Paren e)) ops" and args: "args_ok args"
  then have ops: "accepts 8 ops" by simp
  let ?ops = "(OpenParen, None) # ops"
  have same: "counted b args ?ops = ?ops" for b
    using ops by (auto intro: counted_Cons)
  obtain pend out' lv where r:
    "parse_tokens (tokens e) False (parser out ?ops args) = Inr (parser out' (pend @ ?ops) (inc_args args), lv)"
    "unwind 0 (pend @ ?ops) out' = Inr (?ops, out @ compile e)"
    using group [OF e args, of OpenParen ?ops ops out] unfolding same by blast
  have "reaches (Paren e) out ops args [] (out @ compile e) True"
    using r ops by (simp add: reaches_def parse_token_def push_operator_def parse_tokens_append close_token_def
      close_loop_unwind end_call_accepts)
  then show "\<exists>pend out' lv. reaches (Paren e) out ops args pend out' lv"
    by blast
qed

lemma parses_sys: "parses (Sys s)"
  unfolding parses_def reaches_def
  by (auto simp: parse_token_def begin_call_def push_operator_def close_token_def end_call_def
    inc_arg_count_parser Let_def)

lemma parses_matches:
  fixes e :: "'f ast"
  assumes e: "parses e"
  shows "parses (Matches re e)"
  unfolding parses_def
proof (intro allI impI)
  fix out :: "'f item list" and ops :: "'f operators" and args
  assume "args_ok args"
  let ?x = "(TRegex re, None)" and ?S = "counted True args ops"
  let ?ops = "(OpenParen, None) # ?x # ?S"
  have same: "counted b (0 # inc_args args) ?ops = ?ops" for b by (simp add: counted_group)
  have one: "sat_inc 0 = 1" by (simp add: sat_inc_def)
  have zero: "args_ok (0 # inc_args args)" by (simp add: args_ok_def)
  obtain pend out' lv where r:
    "parse_tokens (tokens e) False (parser out ?ops (0 # inc_args args)) =
       Inr (parser out' (pend @ ?ops) (1 # inc_args args), lv)"
    "unwind 0 (pend @ ?ops) out' = Inr (?ops, out @ compile e)"
    using group [OF e zero, of OpenParen ?ops "?x # ?S" out] unfolding same inc_args.simps one by blast
  have "reaches (Matches re e) out ops args [] (out @ compile (Matches re e)) True"
    using r by (simp add: reaches_def parse_token_def begin_call_def inc_arg_count_parser push_operator_def
      parse_tokens_append close_token_def close_loop_unwind end_call_def Let_def)
  then show "\<exists>pend out' lv. reaches (Matches re e) out ops args pend out' lv"
    by blast
qed

text \<open>The items of a call, an array or an index: each is counted once.\<close>

definition call_ops :: "'f expr_token \<Rightarrow> string \<Rightarrow> u32 \<Rightarrow> u32 \<Rightarrow> 'f operators \<Rightarrow> 'f operators" where
  "call_ops t name fid n ops = (t, None) # (TFunction name fid n, None) # ops"

definition more_items :: "u32 \<Rightarrow> u32 \<Rightarrow> nat \<Rightarrow> u32" where
  "more_items fid n k = (if fid = ID_ARRAY_BUILD then n + of_nat k else n)"

lemma counted_call:
  "(fid = ID_ARRAY_BUILD \<longrightarrow> b) \<Longrightarrow>
   counted b (x # xs) (call_ops t name fid n ops) = call_ops t name fid (more_items fid n (Suc 0)) ops"
  by (auto simp: counted_def call_ops_def more_items_def)

lemma sat_inc_of_nat: "k < 2 ^ 31 - 1 \<Longrightarrow> sat_inc (of_nat k) = of_nat (Suc k)"
proof -
  assume k: "k < 2 ^ 31 - 1"
  then have "unat (of_nat k :: 32 word) = k" by (simp add: unat_of_nat take_bit_nat_eq_self)
  moreover have "unat (0x7FFFFFFF :: 32 word) = 2 ^ 31 - 1" by simp
  ultimately have "of_nat k \<noteq> (0x7FFFFFFF :: 32 word)" using k by (metis less_irrefl)
  then show ?thesis by (simp add: sat_inc_def)
qed

lemma args_ok_of_nat: "k < 2 ^ 31 - 1 \<Longrightarrow> args_ok (of_nat k # xs)"
proof -
  assume k: "k < 2 ^ 31 - 1"
  then have "unat (of_nat k :: 32 word) = k" by (simp add: unat_of_nat take_bit_nat_eq_self)
  moreover have "unat (0x7FFFFFFF :: 32 word) = 2 ^ 31 - 1" by simp
  ultimately have "of_nat k \<noteq> (0x7FFFFFFF :: 32 word)" using k by (metis less_irrefl)
  then show ?thesis by (simp add: args_ok_def)
qed

lemma call_item:
  fixes e :: "'f ast"
  assumes "parses e" "fid = ID_ARRAY_BUILD \<longrightarrow> starts_item e"
    and "t = OpenParen \<or> t = OpenBracket" "k < 2 ^ 31 - 1"
  obtains pend out' lv where
    "parse_tokens (tokens e) False (parser out (call_ops t name fid n ops) (of_nat k # xs)) =
       Inr (parser out' (pend @ call_ops t name fid (more_items fid n (Suc 0)) ops) (of_nat (Suc k) # xs), lv)"
    "unwind 0 (pend @ call_ops t name fid (more_items fid n (Suc 0)) ops) out' =
       Inr (call_ops t name fid (more_items fid n (Suc 0)) ops, out @ compile e)"
  using group [OF assms(1) args_ok_of_nat [OF assms(4), of xs] assms(3) call_ops_def [of t name fid n ops], of out]
  unfolding counted_call [OF assms(2)] inc_args.simps sat_inc_of_nat [OF assms(4)]
  by blast

lemma parse_token_comma:
  "unwind 0 pops out' = Inr (ops, out) \<Longrightarrow>
   parse_token Comma lv (parser out' pops args) = Inr (parser out ops args, False)"
  by (simp add: parse_token_def comma_loop_unwind)

lemma call_items:
  fixes es :: "'f ast list"
  assumes "es \<noteq> []" "\<forall>e\<in>set es. parses e \<and> (fid = ID_ARRAY_BUILD \<longrightarrow> starts_item e)"
    and "t = OpenParen \<or> t = OpenBracket" "k + length es < 2 ^ 31"
  shows "\<exists>pend out' lv.
    parse_tokens (separated (map tokens es)) False (parser out (call_ops t name fid n ops) (of_nat k # xs)) =
       Inr (parser out' (pend @ call_ops t name fid (more_items fid n (length es)) ops)
         (of_nat (k + length es) # xs), lv) \<and>
    unwind 0 (pend @ call_ops t name fid (more_items fid n (length es)) ops) out' =
       Inr (call_ops t name fid (more_items fid n (length es)) ops, out @ concat (map compile es))"
  using assms
proof (induction es arbitrary: k n out rule: list_nonempty_induct)
  case (single e)
  then have e: "parses e" "fid = ID_ARRAY_BUILD \<longrightarrow> starts_item e" and k: "k < 2 ^ 31 - 1" by simp_all
  obtain pend out' lv where
    "parse_tokens (tokens e) False (parser out (call_ops t name fid n ops) (of_nat k # xs)) =
       Inr (parser out' (pend @ call_ops t name fid (more_items fid n (Suc 0)) ops) (of_nat (Suc k) # xs), lv)"
    "unwind 0 (pend @ call_ops t name fid (more_items fid n (Suc 0)) ops) out' =
       Inr (call_ops t name fid (more_items fid n (Suc 0)) ops, out @ compile e)"
    using call_item [OF e single(2) k] by blast
  then show ?case by auto
next
  case (cons e es)
  then have e: "parses e" "fid = ID_ARRAY_BUILD \<longrightarrow> starts_item e" and k: "k < 2 ^ 31 - 1"
    and es: "\<forall>e\<in>set es. parses e \<and> (fid = ID_ARRAY_BUILD \<longrightarrow> starts_item e)" "Suc k + length es < 2 ^ 31"
    by simp_all
  obtain pend out' lv where first:
    "parse_tokens (tokens e) False (parser out (call_ops t name fid n ops) (of_nat k # xs)) =
       Inr (parser out' (pend @ call_ops t name fid (more_items fid n (Suc 0)) ops) (of_nat (Suc k) # xs), lv)"
    and un: "unwind 0 (pend @ call_ops t name fid (more_items fid n (Suc 0)) ops) out' =
       Inr (call_ops t name fid (more_items fid n (Suc 0)) ops, out @ compile e)"
    using call_item [OF e cons.prems(2) k] by blast
  have more: "more_items fid (more_items fid n (Suc 0)) (length es) = more_items fid n (length (e # es))"
    by (simp add: more_items_def)
  have sep: "separated (map tokens (e # es)) = tokens e @ Comma # separated (map tokens es)"
    using cons.hyps by (cases es) auto
  show ?case
    using cons.IH [OF es(1) cons.prems(2) es(2), of "out @ compile e" "more_items fid n (Suc 0)"]
    unfolding more sep by (auto simp: parse_tokens_append first parse_token_comma [OF un])
qed

lemma close_call:
  assumes "unwind 0 pops out' = Inr (call_ops opening name fid n ops, out)"
    and "opening = OpenParen \<and> closing = CloseParen \<or> opening = OpenBracket \<and> closing = CloseBracket"
  shows "parse_token closing lv (parser out' pops (n # args)) =
    Inr (parser (out @ [function_item fid n]) ops args, True)"
  using assms by (auto simp: parse_token_def close_token_def close_loop_unwind call_ops_def end_call_def)

lemma close_call_empty:
  "parse_token CloseParen lv (parser out (call_ops OpenParen name fid 0 ops) (0 # args)) =
     Inr (parser (out @ [function_item fid 0]) ops args, True)"
  "parse_token CloseBracket lv (parser out (call_ops OpenBracket name fid 0 ops) (0 # args)) =
     Inr (parser (out @ [function_item fid 0]) ops args, True)"
  by (rule close_call; simp add: call_ops_def)+

text \<open>Everything from the opening token of a group of items to its end.\<close>

lemma call_group:
  fixes es :: "'f ast list"
  assumes es: "\<forall>e\<in>set es. parses e \<and> (fid = ID_ARRAY_BUILD \<longrightarrow> starts_item e)"
    and t: "opening = OpenParen \<and> closing = CloseParen \<or> opening = OpenBracket \<and> closing = CloseBracket"
    and k: "k + length es < 2 ^ 31" and n: "more_items fid n (length es) = of_nat (k + length es)"
    and k0: "es = [] \<longrightarrow> k = 0"
  shows "parse_tokens (separated (map tokens es) @ [closing]) False
      (parser out (call_ops opening name fid n ops) (of_nat k # args)) =
    Inr (parser (out @ concat (map compile es) @ [function_item fid (of_nat (k + length es))]) ops args, True)"
proof (cases "es = []")
  case True
  with n k0 have "n = 0" by (auto simp: more_items_def split: if_splits)
  with True k0 t show ?thesis by (auto simp: close_call_empty)
next
  case False
  have op: "opening = OpenParen \<or> opening = OpenBracket" using t by blast
  obtain pend out' lv where
    "parse_tokens (separated (map tokens es)) False (parser out (call_ops opening name fid n ops) (of_nat k # args)) =
       Inr (parser out' (pend @ call_ops opening name fid (of_nat (k + length es)) ops)
         (of_nat (k + length es) # args), lv)"
    and un: "unwind 0 (pend @ call_ops opening name fid (of_nat (k + length es)) ops) out' =
       Inr (call_ops opening name fid (of_nat (k + length es)) ops, out @ concat (map compile es))"
    using call_items [OF False es op k, of out name n ops args] unfolding n by blast
  then show ?thesis
    using close_call [OF un t, of lv args] by (simp add: parse_tokens_append del: of_nat_add)
qed

lemma parses_call:
  fixes es :: "'f ast list"
  assumes "\<forall>e\<in>set es. parses e" "length es < 2 ^ 31 - 1" "fid \<noteq> ID_ARRAY_ACCESS" "fid \<noteq> ID_ARRAY_BUILD"
  shows "parses (Call name fid es)"
  unfolding parses_def
proof (intro allI impI)
  fix out :: "'f item list" and ops :: "'f operators" and args
  let ?S = "counted True args ops"
  have "parse_tokens (separated (map tokens es) @ [CloseParen]) False
      (parser out (call_ops OpenParen name fid (of_nat (length es)) ?S) (of_nat 0 # inc_args args)) =
    Inr (parser (out @ concat (map compile es) @ [function_item fid (of_nat (0 + length es))]) ?S (inc_args args), True)"
    using assms by (intro call_group) (auto simp: more_items_def)
  then have "reaches (Call name fid es) out ops args [] (out @ compile (Call name fid es)) True"
    using assms by (simp add: reaches_def parse_token_def begin_call_def inc_arg_count_parser push_operator_def
      call_ops_def function_item_def Let_def)
  then show "\<exists>pend out' lv. reaches (Call name fid es) out ops args pend out' lv" by blast
qed

lemma parses_arr:
  fixes es :: "'f ast list"
  assumes "\<forall>e\<in>set es. parses e \<and> starts_item e" "length es < 2 ^ 31 - 1"
  shows "parses (Arr es)"
  unfolding parses_def
proof (intro allI impI)
  fix out :: "'f item list" and ops :: "'f operators" and args
  let ?S = "counted True args ops"
  have "parse_tokens (separated (map tokens es) @ [CloseBracket]) False
      (parser out (call_ops OpenBracket ''array'' ID_ARRAY_BUILD 0 ?S) (of_nat 0 # inc_args args)) =
    Inr (parser (out @ concat (map compile es) @ [function_item ID_ARRAY_BUILD (of_nat (0 + length es))]) ?S
      (inc_args args), True)"
    using assms by (intro call_group) (auto simp: more_items_def)
  then have "reaches (Arr es) out ops args [] (out @ compile (Arr es)) True"
    by (simp add: reaches_def parse_token_def open_bracket_def inc_arg_count_parser push_operator_def
      call_ops_def function_item_def ID_ARRAY_BUILD_def ID_ARRAY_ACCESS_def Let_def)
  then show "\<exists>pend out' lv. reaches (Arr es) out ops args pend out' lv" by blast
qed

lemma indexable_precedence: "indexable e \<Longrightarrow> ast_precedence e = 8"
  by (cases e) auto

lemma parses_index:
  fixes a :: "'f ast"
  assumes a: "parses a" "indexable a" and i: "parses i"
  shows "parses (Index a i)"
  unfolding parses_def
proof (intro allI impI)
  fix out :: "'f item list" and ops :: "'f operators" and args
  assume "accepts (ast_precedence (Index a i)) ops" and args: "args_ok args"
  then have ops: "accepts (ast_precedence a) ops" using indexable_precedence [OF a(2)] by simp
  let ?S = "counted (starts_item a) args ops"
  obtain pend out' lv where r: "reaches a out ops args pend out' lv"
    using parsesE [OF a(1) ops args] by metis
  then have "parse_tokens (tokens a) False (parser out ops args) =
      Inr (parser (out @ compile a) ?S (inc_args args), True)"
    using a(2) by (auto simp: reaches_def)
  moreover have "parse_tokens (separated (map tokens [i]) @ [CloseBracket]) False
      (parser (out @ compile a) (call_ops OpenBracket ''array'' ID_ARRAY_ACCESS 2 ?S) (of_nat 1 # inc_args args)) =
    Inr (parser ((out @ compile a) @ concat (map compile [i]) @ [function_item ID_ARRAY_ACCESS (of_nat (1 + length [i]))])
      ?S (inc_args args), True)"
    using i by (intro call_group) (auto simp: more_items_def ID_ARRAY_ACCESS_def ID_ARRAY_BUILD_def)
  ultimately have "reaches (Index a i) out ops args [] (out @ compile (Index a i)) True"
    by (simp add: reaches_def parse_tokens_append parse_token_def open_bracket_def push_operator_def
      call_ops_def function_item_def)
  then show "\<exists>pend out' lv. reaches (Index a i) out ops args pend out' lv" by blast
qed

lemma parses_ast: "ast_ok e \<Longrightarrow> parses e"
proof (induction e)
  case (Call name fid es)
  then show ?case by (intro parses_call) auto
next
  case (Arr es)
  then show ?case by (intro parses_arr) auto
qed (simp_all add: parses_leaf parses_unop parses_binop parses_paren parses_matches parses_sys parses_index)

lemma expr_parse_ast:
  assumes "ast_ok e"
  shows "expr_parse (tokens e) = Inr (compile e)"
proof -
  obtain pend out' lv where r: "reaches e [] [] [] pend out' lv"
    using parsesE [OF parses_ast [OF assms], of "[]" "[]" "[]"] by (auto simp: args_ok_def)
  then have "parse_tokens (tokens e) False parser_new = Inr (parser out' pend [], lv)"
    using reaches_tokens [OF r] by (simp add: counted_def parser_new_def)
  moreover have "unwind 0 pend out' = Inr ([], compile e)"
    using reaches_unwind [OF r, of 0] by (simp add: counted_def)
  ultimately show ?thesis
    by (simp add: expr_parse_def parser_finish_def finish_loop_unwind)
qed

end
