(* ===== verification/Expr_Pipeline.thy ===== *)
theory Expr_Pipeline
  imports Expr_Names Expr_Compile
begin

text \<open>
  From the text of an expression to its code: the tokenizer reads back the tokens that were
  written, and the parser compiles them.
\<close>

section \<open>Words\<close>

lemma known_word_token:
  "word_known w \<Longrightarrow> word_token env w = name_token env w"
  by (auto simp: word_known_def word_token_def)

lemma known_name_token: "word_known w \<Longrightarrow> name_token env w = known_token env w"
  by (auto simp: name_token_def word_known_def)

lemma next_known:
  "word_known w \<Longrightarrow> name_token env w = Inr tok \<Longrightarrow>
   tokenizer_next env (between d b [] (w @ SP # rest)) = Inr (Some tok, between d False [] rest)"
  using next_word [of w env tok d b rest] by (simp add: known_word_token) (simp add: word_known_def)

lemma find_function_member:
  "find_function name n fs = Some f \<Longrightarrow> name \<in> fst ` set fs"
  by (induction name n fs rule: find_function.induct) (auto split: if_splits)

lemma function_member:
  "function_named name = Some f \<Longrightarrow> name \<in> set (map fst FUNCTIONS @ map fst ASYNC_FUNCTIONS)"
  by (force simp: function_named_def dest: find_function_member map_of_SomeD split: option.splits)

lemma next_variable:
  "v \<in> set expression_variables \<Longrightarrow> allowed (te_variables env) v \<Longrightarrow>
   tokenizer_next env (between d b [] (v @ SP # rest)) = Inr (Some (TVariable v), between d False [] rest)"
  using variables_known by (intro next_known) (auto simp: known_name_token known_token_def)

lemma next_static:
  "c \<in> set expression_constants \<Longrightarrow> allowed (te_constants env) c \<Longrightarrow>
   tokenizer_next env (between d b [] (c @ SP # rest)) = Inr (Some (TConstant (Static c)), between d False [] rest)"
  using constants_known by (intro next_known) (auto simp: known_name_token known_token_def)

lemma next_function:
  "function_named name = Some (fid, n) \<Longrightarrow>
   tokenizer_next env (between d b [] (name @ SP # rest)) = Inr (Some (TFunction name fid n), between d False [] rest)"
  using functions_known function_member [of name "(fid, n)"]
  by (intro next_known) (auto simp: known_name_token known_token_def)

lemma dollar: "word_char CHR ''$''" "is_name_char CHR ''$''"
  by (simp_all add: word_char_def is_name_char_def)

lemma dollar_word: "word_token env (CHR ''$'' # g) = name_token env (CHR ''$'' # g)"
  by (simp add: word_token_def dollar)

lemma digits_word: "list_all is_ascii_digit ds \<Longrightarrow> list_all word_char ds"
  by (auto simp: word_char_def list_all_iff)

lemma next_global:
  assumes "g \<noteq> []" "list_all word_char g" "\<not> list_all is_ascii_digit g"
  shows "tokenizer_next env (between d b [] (CHR ''$'' # g @ SP # rest)) = Inr (Some (TGlobal g), between d False [] rest)"
proof -
  have "name_token env (CHR ''$'' # g) = Inr (TGlobal g)"
    using assms(1,3) by (simp add: name_token_def)
  then show ?thesis
    using assms next_word [of "CHR ''$'' # g" env "TGlobal g" d b rest] by (simp add: dollar dollar_word)
qed

lemma next_capture:
  "tokenizer_next env (between d b [] (CHR ''$'' # nat_to_string (unat (n :: u32)) @ SP # rest)) =
     Inr (Some (TCapture n), between d False [] rest)"
proof -
  let ?ds = "nat_to_string (unat n)"
  have "unat n < 2 ^ 32" using unsigned_less [of n] by simp
  then have p: "parse_unsigned (2 ^ 32) ?ds = Some (unat n)" by (rule parse_unsigned_nat_to_string)
  have "name_token env (CHR ''$'' # ?ds) = Inr (TCapture n)"
    using p nat_to_string_digits [of "unat n"]
    by (simp add: name_token_def)
  then show ?thesis
    using next_word [of "CHR ''$'' # ?ds" env "TCapture n" d b rest] digits_word [OF nat_to_string_digits]
    by (simp add: dollar dollar_word)
qed

lemma next_integer:
  assumes "unat (i :: i64) < 2 ^ 63"
  shows "tokenizer_next env (between d b [] (nat_to_string (unat i) @ SP # rest)) =
    Inr (Some (TConstant (CInteger i)), between d False [] rest)"
proof -
  let ?ds = "nat_to_string (unat i)"
  have ds: "list_all is_ascii_digit ?ds" by (rule nat_to_string_digits)
  obtain c cs where c: "?ds = c # cs" by (cases ?ds) auto
  with ds have "is_ascii_digit c" by simp
  then have "c \<noteq> CHR ''-''" by (auto simp: is_ascii_digit_def)
  then have "parse_i64 ?ds = Some i"
    using c parse_unsigned_nat_to_string [OF assms] by (simp add: parse_i64_def)
  moreover have "\<not> list_ex is_name_char ?ds" "CHR ''.'' \<notin> set ?ds" "list_ex is_ascii_digit ?ds"
    using ds digit_not \<open>is_ascii_digit c\<close> by (auto simp: list_ex_iff list_all_iff c)
  ultimately have "word_token env ?ds = Inr (TConstant (CInteger i))"
    by (simp add: word_token_def number_token_def)
  then show ?thesis
    using next_word [of ?ds env _ d b rest] digits_word [OF ds] by simp
qed

section \<open>Symbols and quoted texts\<close>

lemma next_delimiter:
  assumes "\<not> is_name_char c" "\<not> is_ascii_digit c" "c \<noteq> CHR ''.''" "c \<noteq> CHR ''}''" "c \<notin> {SP, CR, LF}"
    and "symbol c (between d b [] s) = Inr (tok, t)"
  shows "tokenizer_next env (between d b [] (c # s)) = Inr (Some tok, t\<lparr>tk_is_start := starts_operand tok\<rparr>)"
proof -
  have t: "inside d b [] x\<lparr>tk_iter := s\<rparr> = between d b [] s" for x
    by (simp add: inside_def between_def)
  have "scan env (c # s) (inside d b [] x) = delimiter env c (between d b [] s)" for x
    using assms(1-5) by (simp add: t) (simp add: inside_def between_def)
  moreover have "delimiter env c (between d b [] s) = Inr (Some tok, t\<lparr>tk_is_start := starts_operand tok\<rparr>)"
    using assms(5,6) by (simp add: delimiter_def previous_def between_def)
  ultimately show ?thesis unfolding next_scan [where x = "[]"] by (simp only:)
qed

lemma symbol_chars:
  "c \<in> set ''&|!^()+*/-=><,[]'' \<Longrightarrow>
    \<not> is_name_char c \<and> \<not> is_ascii_digit c \<and> c \<noteq> CHR ''.'' \<and> c \<noteq> CHR ''}'' \<and> c \<notin> {SP, CR, LF}"
  by (auto simp: is_name_char_def is_ascii_digit_def is_ascii_uppercase_def is_ascii_lowercase_def)

lemma next_symbol:
  assumes "c \<in> set ''&|!^()+*/-=><,[]''"
    and "symbol c (between d b [] s) = Inr (tok, between d' b [] rest)"
  shows "tokenizer_next env (between d b [] (c # s)) = Inr (Some tok, between d' (starts_operand tok) [] rest)"
  using next_delimiter [of c d b s tok "between d' b [] rest" env] symbol_chars [OF assms(1)] assms(2)
  by (simp add: between_def)

lemma between_simps [simp]:
  "tk_iter (between d b next s) = s" "tk_depth (between d b next s) = of_nat d"
  "tk_is_start (between d b next s) = b"
  "between d b next s\<lparr>tk_iter := s'\<rparr> = between d b next s'"
  by (simp_all add: between_def)

lemma skip_between:
  "skip_char c (between d b next (e # s)) = between d b next (if e = c then s else e # s)"
  "peek_is c (between d b next (e # s)) \<longleftrightarrow> e = c"
  by (simp_all add: skip_char_def peek_is_def)

lemma next_operator:
  assumes "p = Subtract \<longrightarrow> \<not> b"
  shows "tokenizer_next env (between d b [] (operator_text p @ SP # rest)) =
    Inr (Some (TBinary p), between d True [] (SP # rest))"
  using assms next_symbol [of _ d b _ "TBinary p" d "SP # rest" env]
  by (cases p) (simp_all add: symbol_def skip_between)

lemma next_prefix:
  assumes "u = Minus \<longrightarrow> b"
  shows "tokenizer_next env (between d b [] (token_text (TUnary u) @ SP # rest)) =
    Inr (Some (TUnary u), between d False [] (SP # rest))"
  using assms next_symbol [of _ d b _ "TUnary u" d "SP # rest" env]
  by (cases u) (simp_all add: symbol_def skip_between)

lemma next_punctuation:
  "tokenizer_next env (between d b [] (CHR '','' # rest)) = Inr (Some Comma, between d True [] rest)"
  "tokenizer_next env (between d b [] (CHR ''['' # rest)) = Inr (Some OpenBracket, between d False [] rest)"
  "tokenizer_next env (between d b [] (CHR '']'' # rest)) = Inr (Some CloseBracket, between d False [] rest)"
  using next_symbol [of _ d b rest _ d rest env] by (simp_all add: symbol_def)

lemma depth_word: "d < 2 ^ 32 \<Longrightarrow> unat (of_nat d :: u32) = d"
  by (simp only: unat_of_nat) (simp add: take_bit_nat_eq_self)

lemma next_parens:
  "d + 1 < 2 ^ 32 \<Longrightarrow> tokenizer_next env (between d b [] (CHR ''('' # rest)) = Inr (Some OpenParen, between (d + 1) True [] rest)"
  "0 < d \<Longrightarrow> d < 2 ^ 32 \<Longrightarrow>
     tokenizer_next env (between d b [] (CHR '')'' # rest)) = Inr (Some CloseParen, between (d - 1) False [] rest)"
proof -
  have "symbol CHR ''('' (between d b [] rest) = Inr (OpenParen, between (d + 1) b [] rest)"
    by (simp add: symbol_def between_def)
  then show "tokenizer_next env (between d b [] (CHR ''('' # rest)) = Inr (Some OpenParen, between (d + 1) True [] rest)"
    using next_symbol [of "CHR ''(''" d b rest OpenParen "d + 1" rest env] by simp
next
  assume d: "0 < d" "d < 2 ^ 32"
  then have "of_nat d \<noteq> (0 :: u32)" using depth_word [OF d(2)] by force
  moreover have "(of_nat d :: u32) - 1 = of_nat (d - 1)" using d(1) by (simp add: of_nat_diff)
  ultimately have "symbol CHR '')'' (between d b [] rest) = Inr (CloseParen, between (d - 1) b [] rest)"
    by (simp add: symbol_def between_def)
  then show "tokenizer_next env (between d b [] (CHR '')'' # rest)) = Inr (Some CloseParen, between (d - 1) False [] rest)"
    using next_symbol [of "CHR '')''" d b rest CloseParen "d - 1" rest env] by simp
qed

lemma string_loop_plain:
  "\<forall>c\<in>set s. c \<noteq> stop_ch \<and> c \<noteq> BACKSLASH \<Longrightarrow> last_ch \<noteq> BACKSLASH \<Longrightarrow>
   string_loop stop_ch last_ch buf (s @ stop_ch # rest) = Some (buf @ s, rest)"
  by (induction s arbitrary: last_ch buf) simp_all

lemma parse_string_plain:
  assumes "plain_text s"
  shows "parse_string apostrophe (s @ apostrophe # rest) = Inr (s, rest)"
proof -
  have "\<forall>c\<in>set s. c \<noteq> apostrophe \<and> c \<noteq> BACKSLASH"
    using assms unfolding plain_text_def by blast
  from string_loop_plain [OF this, of NUL "[]" rest] show ?thesis
    using assms by (simp add: parse_string_def plain_text_def)
qed

lemma apostrophe_char:
  "\<not> is_name_char apostrophe" "\<not> is_ascii_digit apostrophe" "apostrophe \<noteq> CHR ''.''" "apostrophe \<noteq> CHR ''}''"
  "apostrophe \<notin> {SP, CR, LF}"
  by (simp_all add: apostrophe_def is_name_char_def is_ascii_digit_def is_ascii_uppercase_def is_ascii_lowercase_def)

lemma next_string:
  assumes "plain_text s"
  shows "tokenizer_next env (between d b [] (quoted s @ rest)) = Inr (Some (TConstant (CString s)), between d False [] rest)"
proof -
  have "symbol apostrophe (between d b [] (s @ apostrophe # rest)) = Inr (TConstant (CString s), between d b [] rest)"
    using parse_string_plain [OF assms, of rest] by (simp add: symbol_def apostrophe_def)
  from next_delimiter [OF apostrophe_char this] show ?thesis by (simp add: quoted_def between_def)
qed


section \<open>Calls with a literal argument\<close>

lemma paren_char: "\<not> is_name_char CHR ''(''" "\<not> is_ascii_digit CHR ''(''"
  by (simp_all add: is_name_char_def is_ascii_digit_def is_ascii_uppercase_def is_ascii_lowercase_def)

definition literal_names :: "string set" where
  "literal_names = {''matches'', ''metric'', ''system''}"

lemma literal_names_words: "w \<in> literal_names \<Longrightarrow> list_all word_char w \<and> w \<noteq> []"
  by (auto simp: literal_names_def word_char_def is_name_char_def is_ascii_lowercase_def)

lemma next_literal:
  assumes w: "w \<in> literal_names" and d: "d + 1 < 2 ^ 32"
    and call: "literal_call env (inside d b w s) = Inr (tok, between d b [] rest)"
  shows "tokenizer_next env (between d b [] (w @ CHR ''('' # s)) = Inr (Some tok, between (d + 1) True [OpenParen] rest)"
proof -
  have buf: "tk_buf (inside d b w s) = w" by (simp add: inside_def)
  have "tokenizer_next env (between d b [] (w @ CHR ''('' # s)) = scan env (CHR ''('' # s) (inside d b w s)"
    using next_scan [of env d b _ s] scan_word [of w env "CHR ''('' # s" d b "[]" s s] literal_names_words [OF w] by simp
  also have "\<dots> = delimiter env CHR ''('' (inside d b w s)"
    by (simp add: paren_char) (simp add: inside_def)
  also have "previous env CHR ''('' (inside d b w s) = Inr (Some tok, between d b [] rest)"
    using literal_names_words [OF w] w call by (simp add: previous_def buf literal_names_def)
  then have "delimiter env CHR ''('' (inside d b w s) = Inr (Some tok, between (d + 1) True [OpenParen] rest)"
    by (simp add: delimiter_def symbol_def between_def)
  finally show ?thesis .
qed

lemma find_quote: "find_char [DQUOTE, CHR 0x27] (quoted s @ rest) = Inr (apostrophe, s @ apostrophe # rest)"
  by (simp add: quoted_def apostrophe_def is_ascii_whitespace_def)

lemma literal_call_inside:
  assumes "plain_text s" "w \<in> literal_names"
  shows "literal_call env (inside d b w (quoted s @ rest)) =
    (if w = ''matches'' then
       (if te_regex env s then and_then (find_char '','' rest) (\<lambda>(_, iter). Inr (TRegex s, between d b [] iter))
        else Inl (InvalidRegex s))
     else if w = ''metric'' then
       (if te_metric env s then Inr (TSystem (Metric s), between d b [] rest) else Inl (InvalidMetric s))
     else (case system_named s of Some v \<Rightarrow> Inr (TSystem v, between d b [] rest) | None \<Rightarrow> Inl (InvalidSystem s)))"
proof -
  have "\<not> list_ex is_ascii_digit w" "CHR ''.'' \<notin> set w"
    using assms(2) by (auto simp: literal_names_def is_ascii_digit_def)
  then show ?thesis
    using find_quote [of s rest] parse_string_plain [OF assms(1), of rest]
    by (auto simp: literal_call_def inside_def between_def and_then_def Let_def split: sum.splits option.splits)
qed

lemma next_regex:
  assumes "plain_text re" "te_regex env re" "d + 1 < 2 ^ 32"
  shows "tokenizer_next env (between d b [] (token_text (TRegex re) @ rest)) =
    Inr (Some (TRegex re), between (d + 1) True [OpenParen] rest)"
proof -
  have w: "''matches'' \<in> literal_names" by (simp add: literal_names_def)
  have "literal_call env (inside d b ''matches'' (quoted re @ '','' @ rest)) = Inr (TRegex re, between d b [] rest)"
    using literal_call_inside [OF assms(1) w, of env d b "'','' @ rest"] assms(2)
    by (simp add: is_ascii_whitespace_def)
  from next_literal [OF w assms(3) this] show ?thesis by simp
qed

lemma plain_names: "s \<in> {''domain'', ''hostname'', ''node_id'', ''node_hostname'', ''node_role''} \<Longrightarrow> plain_text s"
  by (auto simp: plain_text_def apostrophe_def)

lemma next_system_name:
  assumes "s \<in> {''domain'', ''hostname'', ''node_id'', ''node_hostname'', ''node_role''}" "d + 1 < 2 ^ 32"
    and "system_named s = Some v"
  shows "tokenizer_next env (between d b [] (''system('' @ quoted s @ rest)) =
    Inr (Some (TSystem v), between (d + 1) True [OpenParen] rest)"
proof -
  have w: "''system'' \<in> literal_names" by (simp add: literal_names_def)
  have "literal_call env (inside d b ''system'' (quoted s @ rest)) = Inr (TSystem v, between d b [] rest)"
    using literal_call_inside [OF plain_names [OF assms(1)] w, of env d b rest] assms(3) by simp
  from next_literal [OF w assms(2) this] show ?thesis by simp
qed

lemma next_metric:
  assumes "plain_text m" "te_metric env m" "d + 1 < 2 ^ 32"
  shows "tokenizer_next env (between d b [] (''metric('' @ quoted m @ rest)) =
    Inr (Some (TSystem (Metric m)), between (d + 1) True [OpenParen] rest)"
proof -
  have w: "''metric'' \<in> literal_names" by (simp add: literal_names_def)
  have "literal_call env (inside d b ''metric'' (quoted m @ rest)) = Inr (TSystem (Metric m), between d b [] rest)"
    using literal_call_inside [OF assms(1) w, of env d b rest] assms(2) by simp
  from next_literal [OF w assms(3) this] show ?thesis by simp
qed

lemma next_system:
  assumes "token_ok env b (TSystem s)" "d + 1 < 2 ^ 32"
  shows "tokenizer_next env (between d b [] (token_text (TSystem s) @ rest)) =
    Inr (Some (TSystem s), between (d + 1) True [OpenParen] rest)"
  using assms next_system_name [of _ d _ env b rest] next_metric [of _ env d b rest]
  by (cases s) (auto simp: system_named_def)

section \<open>All tokens\<close>

lemma next_token:
  assumes "token_ok env b t" "\<not> literal_token t" "deeper t d = Some d'" "d < 2 ^ 32"
  shows "\<exists>rest'\<in>{rest, SP # rest}. tokenizer_next env (between d b [] (token_text t @ SP # rest)) =
    Inr (Some t, between d' (starts_operand t) [] rest')"
proof (cases t)
  case (TVariable v)
  with assms next_variable [of v env d b rest] show ?thesis by auto
next
  case (TGlobal g)
  with assms next_global [of g env d b rest] show ?thesis by auto
next
  case (TCapture n)
  with assms next_capture [of env d b n rest] show ?thesis by auto
next
  case (TFunction name fid n)
  with assms next_function [of name fid n env d b rest] show ?thesis by auto
next
  case (TConstant c)
  with assms next_integer [of _ env d b rest] next_string [of _ env d b "SP # rest"] next_static [of _ env d b rest]
  show ?thesis by (cases c) auto
next
  case (TBinary p)
  with assms next_operator [of p b env d rest] show ?thesis by auto
next
  case (TUnary u)
  with assms next_prefix [of u b env d rest] show ?thesis by auto
next
  case OpenParen
  with assms next_parens(1) [of d env b "SP # rest"] show ?thesis by (auto split: if_splits)
next
  case CloseParen
  with assms next_parens(2) [of d env b "SP # rest"] show ?thesis by (auto split: if_splits)
qed (use assms next_punctuation [of env d b "SP # rest"] in auto)

lemma tokenize_next:
  "tokenizer_next env t = Inr (Some token, t') \<Longrightarrow> tokenize env t = and_then (tokenize env t') (\<lambda>ts. Inr (token # ts))"
  by (simp add: tokenize.simps [of env t])

lemma tokenize_space: "tokenize env (between d b [] (SP # s)) = tokenize env (between d b [] s)"
  by (simp add: tokenize.simps [of env "between d b [] (SP # s)"] tokenize.simps [of env "between d b [] s"] next_space)

lemma deeper_less: "deeper t d = Some d' \<Longrightarrow> d < 2 ^ 32 \<Longrightarrow> d' < 2 ^ 32"
  by (cases "(t, d)" rule: deeper.cases) (auto split: if_splits)

lemma tokenize_text:
  "tokens_ok env b d ts \<Longrightarrow> d < 2 ^ 32 \<Longrightarrow> tokenize env (between d b [] (expr_text ts)) = Inr ts"
proof (induction ts arbitrary: b d rule: expr_text.induct)
  case 1
  then have "tokenizer_next env (between d b [] []) = Inr (None, between d b [] [])"
    by (simp add: tokenizer_next_def at_end_def) (simp add: between_def at_end_def)
  then show ?case by (simp add: tokenize.simps [of env "between d b [] []"])
next
  case (2 t ts)
  then obtain d' where d': "deeper t d = Some d'" "tokens_ok env (starts_operand t) d' ts"
    and t: "token_ok env b t" "literal_token t \<longrightarrow> ts \<noteq> [] \<and> hd ts = OpenParen"
    by (auto split: option.splits)
  show ?case
  proof (cases "literal_token t")
    case False
    obtain rest where "rest = expr_text ts \<or> rest = SP # expr_text ts"
      and n: "tokenizer_next env (between d b [] (token_text t @ SP # expr_text ts)) =
        Inr (Some t, between d' (starts_operand t) [] rest)"
      using next_token [OF t(1) False d'(1) "2.prems"(2)] by blast
    then have "tokenize env (between d' (starts_operand t) [] rest) = Inr ts"
      using "2.IH" [of "starts_operand t" d'] False d' deeper_less [OF d'(1) "2.prems"(2)] by (auto simp: tokenize_space)
    then show ?thesis using tokenize_next [OF n] False by simp
  next
    case True
    then obtain ts' where ts: "ts = OpenParen # ts'" using t(2) by (cases ts) auto
    have d: "d' = d" using True d'(1) by (cases t) auto
    have more: "d + 1 < 2 ^ 32" "tokens_ok env True (d + 1) ts'"
      using d'(2) by (auto simp: ts d split: if_splits)
    have n: "tokenizer_next env (between d b [] (token_text t @ SP # expr_text ts')) =
        Inr (Some t, between (d + 1) True [OpenParen] (SP # expr_text ts'))"
      using True t(1) more(1) next_regex [of _ env d b "SP # expr_text ts'"] next_system [of env b _ d "SP # expr_text ts'"]
      by (cases t) auto
    have o: "tokenizer_next env (between (d + 1) True [OpenParen] s) = Inr (Some OpenParen, between (d + 1) True [] s)" for s
      by (simp add: tokenizer_next_def between_def)
    show ?thesis
      using tokenize_next [OF n] tokenize_next [OF o] "2.IH" [of True "d + 1"] True more
      by (simp add: ts tokenize_space)
  qed
qed

lemma tokenizer_new_between: "tokenizer_new text = between 0 True [] text"
  by (simp add: tokenizer_new_def between_def)

end
