(* ===== verification/Expr_Safety.thy ===== *)
theory Expr_Safety
  imports Expr_Compile
begin

text \<open>
  What holds of the parser for every list of tokens, whether or not it is an expression: an
  invariant of its state, which excludes the panics of its indexing and unwrapping, and the
  jumps of the code it accepts.
\<close>

section \<open>Any tokens at all: no panic, and every jump lands\<close>

definition jumps_land :: "'f item list \<Rightarrow> bool" where
  "jumps_land items \<longleftrightarrow> (\<forall>j v n. j < length items \<longrightarrow> items ! j = JmpIf v n \<longrightarrow> j + 1 + unat n \<le> length items)"

fun is_call :: "'f expr_token \<Rightarrow> bool" where
  "is_call (TFunction name fid n) \<longleftrightarrow> True"
| "is_call (TRegex re) \<longleftrightarrow> True"
| "is_call (TSystem s) \<longleftrightarrow> True"
| "is_call _ \<longleftrightarrow> False"

definition calls :: "'f operators \<Rightarrow> nat" where
  "calls ops = length (filter (is_call \<circ> fst) ops)"

definition pending_ok :: "'f operators \<Rightarrow> 'f item list \<Rightarrow> bool" where
  "pending_ok ops out \<longleftrightarrow> (\<forall>j. Some j \<in> snd ` set ops \<longrightarrow> j < length out \<and> (\<exists>v n. out ! j = JmpIf v n))"

definition stack_ok :: "'f operators \<Rightarrow> 'f item list \<Rightarrow> bool" where
  "stack_ok ops out \<longleftrightarrow> jumps_land out \<and> pending_ok ops out"

definition state_ok :: "'f expr_parser \<Rightarrow> bool" where
  "state_ok p \<longleftrightarrow> length (ep_args p) = calls (ep_operators p) \<and> stack_ok (ep_operators p) (ep_output p)"

lemma calls_simps [simp]:
  "calls [] = 0" "calls ((t, j) # ops) = (if is_call t then Suc (calls ops) else calls ops)"
  by (simp_all add: calls_def)

lemma stack_ok_push:
  "stack_ok ops out \<Longrightarrow> stack_ok ((t, None) # ops) out"
  by (simp add: stack_ok_def pending_ok_def)

lemma stack_ok_pop: "stack_ok (e # ops) out \<Longrightarrow> stack_ok ops out"
  by (auto simp: stack_ok_def pending_ok_def)

lemma stack_ok_snoc:
  assumes "stack_ok ops out" "\<And>v n. i \<noteq> JmpIf v n"
  shows "stack_ok ops (out @ [i])"
  using assms by (fastforce simp: stack_ok_def pending_ok_def jumps_land_def nth_append less_Suc_eq)

lemma unat_of_nat_le: "unat (of_nat n :: 'a::len word) \<le> n"
  by (simp add: unat_of_nat)

lemma emit_ok:
  assumes ok: "stack_ok ((TBinary bop, j) # ops) out"
  obtains out' where "emit_binary bop j out = Inr out'" "stack_ok ops out'"
proof (cases j)
  case None
  then show thesis
    using that [of "out @ [IBinary bop]"] stack_ok_snoc [OF stack_ok_pop [OF ok], of "IBinary bop"]
    by (auto simp: emit_binary_def update_jmp_pos_def)
next
  case (Some k)
  with ok have "k < length out \<and> (\<exists>v n. out ! k = JmpIf v n)"
    by (auto simp: stack_ok_def pending_ok_def)
  then obtain v n where k: "k < length out" "out ! k = JmpIf v n" by blast
  let ?out = "out[k := JmpIf v (of_nat (length out - k))] @ [IBinary bop]"
  have "emit_binary bop j out = Inr ?out"
    using Some k by (simp add: emit_binary_def update_jmp_pos_def)
  moreover have "jumps_land ?out"
    unfolding jumps_land_def
  proof (intro allI impI)
    fix i v' n'
    assume i: "i < length ?out" "?out ! i = JmpIf v' n'"
    then consider "i = k" | "i \<noteq> k" "i < length out" "out ! i = JmpIf v' n'"
      by (cases "i = k") (auto simp: nth_append less_Suc_eq split: if_splits)
    then show "i + 1 + unat n' \<le> length ?out"
    proof cases
      case 1
      with i k have "n' = of_nat (length out - k)" by (simp add: nth_append)
      with 1 k unat_of_nat_le [where 'a=32, of "length out - k"] show ?thesis by simp
    next
      case 2
      with ok show ?thesis by (fastforce simp: stack_ok_def jumps_land_def)
    qed
  qed
  moreover have "pending_ok ops ?out"
    unfolding pending_ok_def
  proof (intro allI impI)
    fix i assume "Some i \<in> snd ` set ops"
    with ok have i: "i < length out" "\<exists>v n. out ! i = JmpIf v n"
      unfolding stack_ok_def pending_ok_def by simp_all
    then show "i < length ?out \<and> (\<exists>v n. ?out ! i = JmpIf v n)"
      by (cases "i = k") (simp_all add: nth_append)
  qed
  ultimately show thesis using that by (simp add: stack_ok_def)
qed

lemma unwind_ok:
  "stack_ok ops out \<Longrightarrow> \<exists>ops' out'. unwind q ops out = Inr (ops', out') \<and> stack_ok ops' out' \<and> calls ops' = calls ops"
proof (induction q ops out rule: unwind.induct)
  case (1 q prev j ops out)
  then obtain out' where "emit_binary prev j out = Inr out'" "stack_ok ops out'"
    using emit_ok by blast
  with 1 show ?case by auto
next
  case (2 q uop j ops out)
  then show ?case using stack_ok_snoc [OF stack_ok_pop [OF "2.prems"], of "IUnary uop"] by simp
qed auto

lemma count_below_ok:
  "calls (count_below ops) = calls ops" "pending_ok (count_below ops) out = pending_ok ops out"
proof -
  have item: "fst (count_item e) = fst e \<or> is_call (fst (count_item e)) = is_call (fst e)"
    "snd (count_item e) = snd e" "is_call (fst (count_item e)) = is_call (fst e)" for e :: "'a expr_token \<times> nat option"
    by (cases e rule: count_item.cases; simp)+
  show "calls (count_below ops) = calls ops"
    by (cases ops rule: count_below.cases) (simp_all add: calls_def item)
  have "snd ` set (count_below ops) = snd ` set ops"
    by (cases ops rule: count_below.cases) (simp_all add: item)
  then show "pending_ok (count_below ops) out = pending_ok ops out"
    by (simp add: pending_ok_def)
qed

lemma inc_ok: "state_ok p \<Longrightarrow> state_ok (inc_arg_count p)"
  by (auto simp: state_ok_def inc_arg_count_def stack_ok_def count_below_ok split: list.splits)

lemma dec_ok: "state_ok p \<Longrightarrow> state_ok (dec_arg_count p)"
  by (auto simp: state_ok_def dec_arg_count_def split: list.splits)

lemma operand_ok:
  assumes "state_ok p" "\<And>v n. i \<noteq> JmpIf v n"
  shows "state_ok (operand i p)"
  using inc_ok [OF assms(1)] stack_ok_snoc [OF _ assms(2)]
  by (auto simp: state_ok_def operand_def Let_def)

definition step_ok :: "expr_error + 'f expr_parser \<Rightarrow> bool" where
  "step_ok r \<longleftrightarrow> (case r of Inl e \<Rightarrow> e \<noteq> ParserPanic | Inr p \<Rightarrow> state_ok p)"

lemma end_call_ok:
  assumes "length args = calls ops" "stack_ok ops out"
  shows "step_ok (end_call ops out args)"
proof (cases ops)
  case (Cons e ops')
  obtain t j where e: "e = (t, j)" by (cases e)
  have ok: "stack_ok ops' (out @ [i])" if "\<And>v n. i \<noteq> JmpIf v n" for i
    using assms(2) that unfolding Cons by (metis stack_ok_pop stack_ok_snoc)
  show ?thesis
    using assms ok by (cases t; cases args) (auto simp: Cons e step_ok_def state_ok_def end_call_def function_item_def)
qed (use assms in \<open>auto simp: step_ok_def state_ok_def end_call_def\<close>)

lemma close_ok:
  assumes p: "state_ok p" and expect: "expect = OpenParen \<or> expect = OpenBracket"
  shows "step_ok (close_token expect p)"
proof -
  obtain ops out where u: "unwind 0 (ep_operators p) (ep_output p) = Inr (ops, out)"
    and ok: "stack_ok ops out" and c: "calls ops = calls (ep_operators p)"
    using p unwind_ok unfolding state_ok_def by blast
  show ?thesis
  proof (cases ops)
    case Nil
    then show ?thesis by (simp add: close_token_def close_loop_unwind [OF expect] u step_ok_def)
  next
    case (Cons e ops')
    obtain t j where e: "e = (t, j)" by (cases e)
    show ?thesis
    proof (cases "t = expect")
      case True
      with expect c p have "length (ep_args p) = calls ops'"
        by (auto simp: Cons e state_ok_def)
      from end_call_ok [OF this stack_ok_pop] ok True show ?thesis
        by (simp add: Cons e close_token_def close_loop_unwind [OF expect] u)
    next
      case False
      then show ?thesis by (simp add: Cons e close_token_def close_loop_unwind [OF expect] u step_ok_def)
    qed
  qed
qed


lemma binary_ok:
  assumes p: "state_ok p"
  shows "step_ok (binary_token bop p)"
proof -
  let ?p = "dec_arg_count p"
  have ok: "state_ok ?p" using p by (rule dec_ok)
  obtain ops out where u: "unwind (precedence bop) (ep_operators ?p) (ep_output ?p) = Inr (ops, out)"
    and s: "stack_ok ops out" and c: "calls ops = calls (ep_operators ?p)"
    using ok unwind_ok unfolding state_ok_def by blast
  have "stack_ok ((TBinary bop, Some (length out)) # ops) (out @ [JmpIf v 0])" for v
    using s by (auto simp: stack_ok_def pending_ok_def jumps_land_def nth_append less_Suc_eq)
  then show ?thesis
    using ok s c stack_ok_push [OF s]
    by (auto simp: binary_token_def binary_loop_unwind u step_ok_def state_ok_def Let_def split: option.splits)
qed

lemma parse_token_ok:
  assumes p: "state_ok p"
  shows "case parse_token t lv p of Inl e \<Rightarrow> e \<noteq> ParserPanic | Inr (p', lv') \<Rightarrow> state_ok p'"
proof -
  have flag: "case and_then r (\<lambda>p. Inr (p, b)) of Inl e \<Rightarrow> e \<noteq> ParserPanic | Inr (p', lv') \<Rightarrow> state_ok p'"
    if "step_ok r" for r :: "expr_error + 'a expr_parser" and b :: bool
    using that by (cases r) (auto simp: step_ok_def)
  have begin_ok: "state_ok (begin_call t p)" if "is_call t"
    using inc_ok [OF p] that by (auto simp: begin_call_def push_operator_def state_ok_def stack_ok_push Let_def)
  have bracket: "state_ok (open_bracket lv p)"
    using inc_ok [OF p] p by (auto simp: open_bracket_def push_operator_def state_ok_def stack_ok_push Let_def)
  obtain ops out where u: "unwind 0 (ep_operators p) (ep_output p) = Inr (ops, out)"
    and s: "stack_ok ops out" and c: "calls ops = calls (ep_operators p)"
    using p unwind_ok unfolding state_ok_def by blast
  show ?thesis
    using p u s c begin_ok bracket flag close_ok [OF p] binary_ok [OF p] operand_ok [OF p]
    by (cases t) (auto simp: parse_token_def push_operator_def comma_loop_unwind state_ok_def stack_ok_push)
qed

lemma parse_tokens_ok:
  "state_ok p \<Longrightarrow> case parse_tokens ts lv p of Inl e \<Rightarrow> e \<noteq> ParserPanic | Inr (p', lv') \<Rightarrow> state_ok p'"
proof (induction ts arbitrary: lv p)
  case (Cons t ts)
  show ?case
  proof (cases "parse_token t lv p")
    case (Inl e)
    then show ?thesis using parse_token_ok [OF Cons.prems, of t lv] by simp
  next
    case (Inr r)
    then obtain p' lv' where r: "parse_token t lv p = Inr (p', lv')" by (cases r) simp
    then have "state_ok p'" using parse_token_ok [OF Cons.prems, of t lv] by simp
    then show ?thesis using Cons.IH [of p' lv'] by (simp add: r)
  qed
qed simp

lemma state_ok_new: "state_ok parser_new"
  by (simp add: state_ok_def parser_new_def stack_ok_def jumps_land_def pending_ok_def)

lemma expr_parse_ok:
  "case expr_parse ts of Inl e \<Rightarrow> e \<noteq> ParserPanic | Inr items \<Rightarrow> jumps_land items"
proof -
  have "state_ok parser_new" by (simp add: state_ok_def parser_new_def stack_ok_def jumps_land_def pending_ok_def)
  from parse_tokens_ok [OF this, of ts False] show ?thesis
  proof (cases "parse_tokens ts False parser_new")
    case (Inr r)
    then obtain p lv where r: "parse_tokens ts False parser_new = Inr (p, lv)" by (cases r) simp
    with parse_tokens_ok [OF \<open>state_ok parser_new\<close>, of ts False] have "state_ok p" by simp
    then obtain ops out where "unwind 0 (ep_operators p) (ep_output p) = Inr (ops, out)" "stack_ok ops out"
      using unwind_ok unfolding state_ok_def by blast
    then show ?thesis
      by (simp add: expr_parse_def r parser_finish_def finish_loop_unwind stack_ok_def)
  qed (simp add: expr_parse_def)
qed

end
