(* ===== verification/Expr_Size.thy ===== *)
theory Expr_Size
  imports Expr_Pipeline Expr_Safety
begin

text \<open>
  The invariant of the parser along the text it reads, and the size of the code it writes: every
  token adds at most two entries to the output and the operator stack together.
\<close>

section \<open>Parsing a text\<close>

lemma parse_loop_ok:
  "state_ok p \<Longrightarrow> case parse_loop env t b p of Inl e \<Rightarrow> e \<noteq> ParseFailure ParserPanic | Inr p' \<Rightarrow> state_ok p'"
proof (induction env t b p rule: parse_loop.induct)
  case (1 env t b p)
  show ?case
  proof (cases "tokenizer_next env t")
    case (Inl e)
    then show ?thesis by (simp add: parse_loop.simps [of env t])
  next
    case (Inr r)
    obtain tok t' where r: "r = (tok, t')" by (cases r)
    show ?thesis
    proof (cases tok)
      case None
      with 1 show ?thesis by (simp add: Inr r parse_loop.simps [of env t])
    next
      case (Some token)
      show ?thesis
      proof (cases "parse_token token b p")
        case (Inl e)
        then show ?thesis using parse_token_ok [OF "1.prems", of token b]
          by (simp add: Inr r Some parse_loop.simps [of env t])
      next
        case 2: (Inr q)
        obtain p' b' where q: "q = (p', b')" by (cases q)
        have "state_ok p'" using parse_token_ok [OF "1.prems", of token b] by (simp add: 2 q)
        with "1.IH" [OF Inr r [symmetric] Some 2 q [symmetric]] show ?thesis
          by (simp add: Inr r Some 2 q parse_loop.simps [of env t])
      qed
    qed
  qed
qed

section \<open>The size of the code\<close>

definition weight :: "'f expr_parser \<Rightarrow> nat" where
  "weight p = length (ep_output p) + length (ep_operators p)"

lemma emit_length: "emit_binary p j out = Inr out' \<Longrightarrow> length out' = Suc (length out)"
  by (auto simp: emit_binary_def update_jmp_pos_def and_then_Inr split: option.splits item.splits if_splits)

lemma unwind_length:
  "unwind q ops out = Inr (ops', out') \<Longrightarrow> length out' + length ops' = length out + length ops"
  by (induction q ops out rule: unwind.induct) (auto simp: and_then_Inr split: if_splits dest: emit_length)

lemma count_below_length: "length (count_below ops) = length ops"
  by (cases ops rule: count_below.cases) simp_all

lemma arg_count_weight: "weight (inc_arg_count p) = weight p" "weight (dec_arg_count p) = weight p"
  by (simp_all add: weight_def inc_arg_count_def dec_arg_count_def count_below_length split: list.splits)

lemma weight_simps [simp]:
  "weight (parser out ops args) = length out + length ops"
  "weight (push_operator t j p) = Suc (weight p)"
  "weight (p\<lparr>ep_args := args\<rparr>) = weight p"
  by (simp_all add: weight_def push_operator_def)

lemma end_call_weight:
  assumes "end_call ops out args = Inr p"
  shows "weight p \<le> length out + length ops"
proof (cases ops)
  case (Cons e ops')
  obtain t j where e: "e = (t, j)" by (cases e)
  show ?thesis using assms
    by (cases t; cases args) (auto simp: Cons e end_call_def split: if_splits)
qed (use assms in \<open>auto simp: end_call_def\<close>)

lemma close_weight:
  assumes expect: "expect = OpenParen \<or> expect = OpenBracket" and p': "close_token expect p = Inr p'"
  shows "weight p' \<le> weight p"
proof (cases "unwind 0 (ep_operators p) (ep_output p)")
  case (Inl e)
  with p' show ?thesis by (simp add: close_token_def close_loop_unwind [OF expect])
next
  case (Inr r)
  obtain ops out where r: "r = (ops, out)" by (cases r)
  from p' obtain e ops' where "ops = e # ops'" "end_call ops' out (ep_args p) = Inr p'"
    by (auto simp: close_token_def close_loop_unwind [OF expect] Inr r split: list.splits if_splits)
  with unwind_length [OF Inr [unfolded r]] end_call_weight [of ops' out "ep_args p" p'] show ?thesis
    by (simp add: weight_def [of p])
qed

lemma operand_weight: "weight (operand i p) = Suc (weight p)"
  using arg_count_weight(1) [of p] by (simp add: operand_def weight_def Let_def)

lemma binary_weight:
  assumes "binary_token bop p = Inr p'"
  shows "weight p' \<le> weight p + 2"
proof -
  obtain ops out where u: "unwind (precedence bop) (ep_operators (dec_arg_count p)) (ep_output (dec_arg_count p)) = Inr (ops, out)"
    and p': "weight p' \<le> length out + length ops + 2"
    using assms by (auto simp: binary_token_def binary_loop_unwind and_then_Inr Let_def weight_def split: option.splits)
  show ?thesis
    using unwind_length [OF u] p' arg_count_weight(2) [of p] by (simp add: weight_def)
qed

lemma parse_token_weight:
  assumes "parse_token t b p = Inr (p', b')"
  shows "weight p' \<le> weight p + 2"
proof (cases t)
  case Comma
  then show ?thesis using assms by (auto simp: parse_token_def comma_loop_unwind and_then_Inr weight_def dest!: unwind_length)
next
  case (TBinary bop)
  then show ?thesis using assms by (auto simp: parse_token_def and_then_Inr dest: binary_weight)
next
  case CloseParen
  then show ?thesis using assms close_weight [of OpenParen p p'] by (auto simp: parse_token_def and_then_Inr)
next
  case CloseBracket
  then show ?thesis using assms close_weight [of OpenBracket p p'] by (auto simp: parse_token_def and_then_Inr)
qed (use assms in \<open>auto simp: parse_token_def operand_weight begin_call_def open_bracket_def arg_count_weight Let_def
  split: if_splits\<close>)

lemma parse_loop_weight:
  "parse_loop env t b p = Inr p' \<Longrightarrow> weight p' \<le> weight p + 2 * remaining t"
proof (induction env t b p rule: parse_loop.induct)
  case (1 env t b p)
  from "1.prems" consider
      "p' = p"
    | token t' q b' where "tokenizer_next env t = Inr (Some token, t')" "parse_token token b p = Inr (q, b')"
        "parse_loop env t' b' q = Inr p'"
    by (simp add: parse_loop.simps [of env t] split: sum.splits prod.splits option.splits)
  then show ?case
  proof cases
    case 2
    then have "weight p' \<le> weight q + 2 * remaining t'" using "1.IH" by blast
    then show ?thesis using parse_token_weight [OF 2(2)] tokenizer_next_remaining [OF 2(1)] by simp
  qed simp
qed

lemma finish_length: "finish_loop ops out = Inr items \<Longrightarrow> length items = length out + length ops"
  by (auto simp: finish_loop_unwind and_then_Inr split: if_splits dest: unwind_length)

end
