(* ===== verification/Expr_Config.thy ===== *)
theory Expr_Config
  imports Expr_Tokenizer Expr_Eval
begin

text \<open>
  The conditional expressions of the configuration (\<^verbatim>\<open>crates/common/src/expr/if_block.rs\<close>):
  a list of conditions with their branches and a default, each a text, compiled into a block.
  The reports of invalid properties, which only say why nothing was compiled, are left out.
\<close>

record expression_source =
  es_match :: "(string \<times> string) list"
  es_else :: string

definition if_block_empty :: "'f if_block" where
  "if_block_empty = \<lparr>ib_if_then = [], ib_default = []\<rparr>"

definition parsed :: "'f token_env \<Rightarrow> string \<Rightarrow> 'f item list option" where
  "parsed env text = (case expression_parse env text of Inl _ \<Rightarrow> None | Inr items \<Rightarrow> Some items)"

fun compile_matches :: "'f token_env \<Rightarrow> (string \<times> string) list \<Rightarrow> ('f item list \<times> 'f item list) list option" where
  "compile_matches env [] = Some []"
| "compile_matches env ((cond, conseq) # rest) =
     (case parsed env cond of
        None \<Rightarrow> None
      | Some c \<Rightarrow>
          (case parsed env conseq of
             None \<Rightarrow> None
           | Some t \<Rightarrow> map_option (\<lambda>branches. (c, t) # branches) (compile_matches env rest)))"

definition try_compile_expr :: "'f token_env \<Rightarrow> expression_source \<Rightarrow> 'f if_block option" where
  "try_compile_expr env src =
     (if es_else src = [] then None
      else if list_ex (\<lambda>(cond, conseq). cond = [] \<or> conseq = []) (es_match src) then None
      else (case parsed env (es_else src) of
              None \<Rightarrow> None
            | Some fallback \<Rightarrow>
                map_option (\<lambda>branches. \<lparr>ib_if_then = branches, ib_default = fallback\<rparr>)
                  (compile_matches env (es_match src))))"

text \<open>The default has to compile: \<^term>\<open>None\<close> is the panic of \<open>expect\<close>.\<close>

definition compile_default_expr :: "'f token_env \<Rightarrow> expression_source option \<Rightarrow> 'f if_block option" where
  "compile_default_expr env fallback =
     (case fallback of Some src \<Rightarrow> try_compile_expr env src | None \<Rightarrow> Some if_block_empty)"

definition compile_expr :: "'f token_env \<Rightarrow> expression_source option \<Rightarrow> expression_source \<Rightarrow> 'f if_block option" where
  "compile_expr env fallback src =
     (if es_else src = [] \<and> es_match src = [] then Some if_block_empty
      else (case try_compile_expr env src of
              Some block \<Rightarrow> Some block
            | None \<Rightarrow> compile_default_expr env fallback))"

definition into_default :: "'f if_block \<Rightarrow> 'f if_block" where
  "into_default b = \<lparr>ib_if_then = [], ib_default = ib_default b\<rparr>"

text \<open>The first text constant of the default.\<close>

fun first_string :: "'f item list \<Rightarrow> string option" where
  "first_string [] = None"
| "first_string (IConstant (CString s) # items) = Some s"
| "first_string (_ # items) = first_string items"

definition default_string :: "'f if_block \<Rightarrow> string option" where
  "default_string b = first_string (ib_default b)"

end
