(* ===== verification/Expr_Properties.thy ===== *)
theory Expr_Properties
  imports Expr_Size Expr_Config
begin

text \<open>
  The properties of the expression language, from the text of an expression to its value, with an
  example that they are applied to.
\<close>

section \<open>From text to value\<close>

lemma expression_text_compiles:
  assumes "ast_ok e" "tokens_ok env True 0 (tokens e)"
  shows "expression_parse env (expr_text (tokens e)) = Inr (compile e)"
proof -
  have "tokenize env (tokenizer_new (expr_text (tokens e))) = Inr (tokens e)"
    using tokenize_text [OF assms(2)] by (simp add: tokenizer_new_between)
  from expression_parse_tokens [OF this] expr_parse_ast [OF assms(1)] show ?thesis by simp
qed

lemma expression_parse_ok:
  "case expression_parse env text of
     Inl e \<Rightarrow> e \<noteq> ParseFailure ParserPanic
   | Inr items \<Rightarrow> jumps_land items \<and> length items \<le> 4 * length text"
proof (cases "parse_loop env (tokenizer_new text) False (parser_new :: 'a expr_parser)")
  case (Inl e)
  then show ?thesis
    using parse_loop_ok [of "parser_new :: 'a expr_parser" env "tokenizer_new text" False]
    by (simp add: expression_parse_def state_ok_new)
next
  case (Inr p)
  have p: "state_ok p"
    using parse_loop_ok [of "parser_new :: 'a expr_parser" env "tokenizer_new text" False] Inr by (simp add: state_ok_new)
  then obtain ops out where u: "unwind 0 (ep_operators p) (ep_output p) = Inr (ops, out)" "stack_ok ops out"
    using unwind_ok unfolding state_ok_def by blast
  have "weight p \<le> 4 * length text"
    using parse_loop_weight [OF Inr] by (simp add: parser_new_def tokenizer_new_def remaining_def)
  then have "length items \<le> 4 * length text" if "finish_loop (ep_operators p) (ep_output p) = Inr items" for items
    using finish_length [OF that] by (simp add: weight_def)
  then show ?thesis
    using u by (auto simp: expression_parse_def Inr parser_finish_def finish_loop_unwind stack_ok_def)
qed

lemma eval_compiled:
  assumes "length (compile e) < 2 ^ 32"
  shows "eval_expr env (compile e) cs w = meaning env e cs w"
proof -
  have "eval_expr env (compile e) cs w = eval_then (meaning env e cs w) (\<lambda>v. eval_items env [] [v])"
    using runs_ast [OF assms, of env] unfolding runs_def eval_expr_def by (metis append_Nil2)
  also have "\<dots> = meaning env e cs w"
    by (auto simp: eval_then_def split: sum.splits prod.splits)
  finally show ?thesis .
qed

section \<open>The properties\<close>

text \<open>
  C5: an expression means what its text says. The text that a syntax tree is written as, in which
  operators associate to the left by their precedence, is accepted by the tokenizer and the
  parser, and the stack machine that runs the resulting code gives the value of the tree: the
  operands from left to right, with the captures and the effects on the server of each, and
  no effects of an operand that a short-circuiting operator leaves out. Texts are
  shorter than 2^30 bytes, which keeps jump distances within their 32 bits.
\<close>

theorem expression_means:
  assumes "ast_ok e" "tokens_ok tenv True 0 (tokens e)" "length (expr_text (tokens e)) < 2 ^ 30"
  shows "\<exists>items. expression_parse tenv (expr_text (tokens e)) = Inr items \<and>
    (\<forall>env cs w. eval_expr env items cs w = meaning env e cs w)"
proof -
  have p: "expression_parse tenv (expr_text (tokens e)) = Inr (compile e)"
    using assms(1,2) by (rule expression_text_compiles)
  then have short: "length (compile e) < 2 ^ 32"
    using expression_parse_ok [of "expr_text (tokens e)" tenv] assms(3) by simp
  show ?thesis
    by (intro exI conjI allI) (rule p, rule eval_compiled [OF short])
qed

definition demo_expression :: "unit ast" where
  "demo_expression =
     Binop And
       (Binop Eq (Leaf (VariableLeaf ''sender'')) (Leaf (ConstantLeaf (CString ''a''))))
       (Unop Not (Paren (Binop Or
         (Matches ''^b'' (Leaf (VariableLeaf ''sender'')))
         (Binop Gt
           (Index (Arr [Leaf (ConstantLeaf (CInteger 1)), Leaf (ConstantLeaf (CInteger 2))]) (Leaf (ConstantLeaf (CInteger 0))))
           (Call ''len'' 17 [Leaf (VariableLeaf ''sender'')])))))"

definition demo_tokens :: "unit token_env" where
  "demo_tokens = \<lparr>te_parse_float = (\<lambda>_. None), te_variables = [], te_constants = [],
     te_regex = (\<lambda>_. True), te_metric = (\<lambda>_. False)\<rparr>"

lemma function_len: "function_named ''len'' = Some (17, 1)"
  by (simp add: function_named_def FUNCTIONS_def)

lemma demo_ok:
  "ast_ok demo_expression" "tokens_ok demo_tokens True 0 (tokens demo_expression)"
  "length (expr_text (tokens demo_expression)) < 2 ^ 30" "length (compile demo_expression) < 2 ^ 32"
  using function_len
  by (simp_all add: demo_expression_def demo_tokens_def ID_ARRAY_ACCESS_def ID_ARRAY_BUILD_def plain_text_def
    apostrophe_def quoted_def allowed_def expression_variables_def nat_to_string.simps jump_over_def)

theorem expression_means_witness:
  "\<exists>items. expression_parse demo_tokens (expr_text (tokens demo_expression)) = Inr items \<and>
    (\<forall>env cs (w :: unit). eval_expr env items cs w = meaning env demo_expression cs w)"
  using demo_ok(1-3) by (rule expression_means)


fun block_meaning :: "('f, 'w) eval_env \<Rightarrow> ('f ast \<times> 'f ast) list \<Rightarrow> 'f ast \<Rightarrow> string list \<Rightarrow> 'w \<Rightarrow>
    ('f variable, 'w) evaluation" where
  "block_meaning env [] otherwise cs w = meaning env otherwise cs w"
| "block_meaning env ((cond, conseq) # rest) otherwise cs w =
     eval_then (meaning env cond cs w) (\<lambda>v cs w.
       if to_bool (ee_floats env) v then meaning env conseq cs w
       else block_meaning env rest otherwise cs w)"

lemma block_of_compiled:
  assumes "\<forall>(cond, conseq)\<in>set branches. length (compile cond) < 2 ^ 32 \<and> length (compile conseq) < 2 ^ 32"
    and "length (compile otherwise) < 2 ^ 32"
  shows "eval_branches env (map (map_prod compile compile) branches) (compile otherwise) cs w =
    block_meaning env branches otherwise cs w"
  using assms
proof (induction branches arbitrary: cs w)
  case (Cons b branches)
  then show ?case
    by (cases b) (auto simp: eval_compiled eval_then_def split: sum.splits prod.splits)
qed (simp add: eval_compiled)

definition written :: "'f ast \<Rightarrow> string" where
  "written e = expr_text (tokens e)"

definition writable :: "'f token_env \<Rightarrow> 'f ast \<Rightarrow> bool" where
  "writable tenv e \<longleftrightarrow> ast_ok e \<and> tokens_ok tenv True 0 (tokens e) \<and> length (written e) < 2 ^ 30"

lemma tokens_not_Nil: "tokens e \<noteq> []"
  by (induction e) auto

lemma written_not_Nil: "written e \<noteq> []"
  using tokens_not_Nil [of e] by (cases "tokens e") (auto simp: written_def)

lemma parsed_written: "writable tenv e \<Longrightarrow> parsed tenv (written e) = Some (compile e)"
  using expression_text_compiles [of e tenv] by (simp add: writable_def parsed_def written_def)

lemma writable_short:
  assumes "writable tenv e"
  shows "length (compile e) < 2 ^ 32"
  using expression_parse_ok [of "written e" tenv] expression_text_compiles [of e tenv] assms
  by (simp add: writable_def written_def)

lemma compile_matches_written:
  "\<forall>(cond, conseq)\<in>set branches. writable tenv cond \<and> writable tenv conseq \<Longrightarrow>
   compile_matches tenv (map (map_prod written written) branches) = Some (map (map_prod compile compile) branches)"
  by (induction branches) (auto simp: parsed_written)

text \<open>
  C6: a block of conditions. A block of the configuration that is written as the texts of syntax
  trees compiles, and evaluates its conditions in order and takes the branch of the first that
  is true, or the default; the captures of a regular expression in a condition are there for the
  conditions after it and for the branch, and nothing after the branch that is taken is evaluated.
\<close>

theorem if_block_meaning:
  assumes "\<forall>(cond, conseq)\<in>set branches. writable tenv cond \<and> writable tenv conseq" "writable tenv otherwise"
  shows "\<exists>block. try_compile_expr tenv \<lparr>es_match = map (map_prod written written) branches, es_else = written otherwise\<rparr> =
      Some block \<and> (\<forall>env w. eval_if_block env block w = block_meaning env branches otherwise [] w)"
proof (intro exI conjI allI)
  have "\<not> list_ex (\<lambda>(cond, conseq). cond = [] \<or> conseq = []) (map (map_prod written written) branches)"
    by (auto simp: list_ex_iff written_not_Nil)
  then show "try_compile_expr tenv \<lparr>es_match = map (map_prod written written) branches, es_else = written otherwise\<rparr> =
      Some \<lparr>ib_if_then = map (map_prod compile compile) branches, ib_default = compile otherwise\<rparr>"
    by (simp add: try_compile_expr_def written_not_Nil parsed_written [OF assms(2)] compile_matches_written [OF assms(1)])
  have "\<forall>(cond, conseq)\<in>set branches. length (compile cond) < 2 ^ 32 \<and> length (compile conseq) < 2 ^ 32"
    using assms(1) writable_short by fast
  from block_of_compiled [OF this writable_short [OF assms(2)]]
  show "eval_if_block env \<lparr>ib_if_then = map (map_prod compile compile) branches, ib_default = compile otherwise\<rparr> w =
      block_meaning env branches otherwise [] w" for env w
    by (simp add: eval_if_block_def)
qed

lemma demo_writable:
  "writable demo_tokens demo_expression" "writable demo_tokens (Leaf (ConstantLeaf (CInteger 0)))"
proof -
  show "writable demo_tokens demo_expression"
    using demo_ok(1-3) by (simp only: writable_def written_def)
  show "writable demo_tokens (Leaf (ConstantLeaf (CInteger 0)))"
    by (simp add: writable_def written_def nat_to_string.simps)
qed

theorem if_block_meaning_witness:
  "\<exists>block. try_compile_expr demo_tokens
       \<lparr>es_match = map (map_prod written written) [(demo_expression, Leaf (ConstantLeaf (CInteger 0)) :: unit ast)],
        es_else = written (Leaf (ConstantLeaf (CInteger 0)) :: unit ast)\<rparr> = Some block \<and>
     (\<forall>env (w :: unit). eval_if_block env block w =
        block_meaning env [(demo_expression, Leaf (ConstantLeaf (CInteger 0)))] (Leaf (ConstantLeaf (CInteger 0))) [] w)"
proof -
  let ?zero = "Leaf (ConstantLeaf (CInteger 0)) :: unit ast"
  have "\<forall>(cond, conseq)\<in>set [(demo_expression, ?zero)]. writable demo_tokens cond \<and> writable demo_tokens conseq"
    by (simp add: demo_writable)
  from if_block_meaning [OF this demo_writable(2)] show ?thesis .
qed

text \<open>
  C9: no text makes the parser panic. Whatever the text, every index and unwrap of the parser
  is in range; the code of an accepted text has at most four items for each byte, and every
  jump in it lands inside the code or at its end.
\<close>

theorem expression_parse_safe:
  "case expression_parse env text of
     Inl e \<Rightarrow> e \<noteq> ParseFailure ParserPanic
   | Inr items \<Rightarrow> jumps_land items \<and> length items \<le> 4 * length text"
  by (rule expression_parse_ok)

fun condition :: "'f ast \<Rightarrow> bool" where
  "condition (Unop u e) \<longleftrightarrow> u = Not"
| "condition (Binop p a b) \<longleftrightarrow>
     (if p \<in> {And, Or} then condition a else p \<notin> {Add, Subtract, Multiply, Divide})"
| "condition (Paren e) \<longleftrightarrow> condition e"
| "condition (Matches re e) \<longleftrightarrow> True"
| "condition _ \<longleftrightarrow> False"

lemma from_bool_range: "from_bool b \<in> {IntegerV 0, IntegerV 1}"
  by (simp add: from_bool_def)

lemma eval_then_Inr: "eval_then r f = (Inr v, cs', w') \<longleftrightarrow> (\<exists>u cs w. r = (Inr u, cs, w) \<and> f u cs w = (Inr v, cs', w'))"
  by (auto simp: eval_then_def split: sum.splits prod.splits)

lemma condition_meaning:
  "condition e \<Longrightarrow> meaning env e cs w = (Inr v, cs', w') \<Longrightarrow> v \<in> {IntegerV 0, IntegerV 1}"
proof (induction e arbitrary: cs w v cs' w')
  case (Binop p a b)
  then show ?case
    by (cases p) (fastforce simp: eval_then_Inr binary_op_def from_bool_def split: if_splits)+
qed (auto simp: eval_then_Inr unary_op_def from_bool_def Let_def split: if_splits)

text \<open>
  C10: conditions are 0 or 1. An expression whose outermost operators are comparisons, negations,
  exclusive or, matches, and conjunctions and disjunctions of these, has the value 0 or 1,
  although a conjunction or disjunction that is cut short has the value of its left operand.
\<close>

theorem condition_is_boolean:
  assumes "condition e" "length (compile e) < 2 ^ 32" "eval_expr env (compile e) cs w = (Inr v, cs', w')"
  shows "v \<in> {IntegerV 0, IntegerV 1}"
  using assms(3) unfolding eval_compiled [OF assms(2)] by (rule condition_meaning [OF assms(1)])


theorem condition_is_boolean_witness:
  "\<forall>(env :: (unit, unit) eval_env). eval_expr env
       (compile (Unop Not (Leaf (ConstantLeaf (CString ''a''))) :: unit ast)) [] () = (Inr (IntegerV 0), [], ()) \<and>
     (IntegerV 0 :: unit variable) \<in> {IntegerV 0, IntegerV 1}"
proof (intro allI conjI)
  fix env :: "(unit, unit) eval_env"
  let ?e = "Unop Not (Leaf (ConstantLeaf (CString ''a''))) :: unit ast"
  show e: "eval_expr env (compile ?e) [] () = (Inr (IntegerV 0), [], ())"
    by (simp add: eval_expr_def unary_op_def from_bool_def)
  show "(IntegerV 0 :: unit variable) \<in> {IntegerV 0, IntegerV 1}"
    using condition_is_boolean [OF _ _ e] by simp
qed

text \<open>
  Values are not in order. The comparison of values that the function \<open>sort\<close> is given is
  not an order: a constant and a number are each less than the other, and a number between two
  texts can close a circle; and a constant is not equal to itself.
\<close>

theorem values_not_ordered:
  "variable_ord fl (ConstantV c) (IntegerV n) = Less \<and> variable_ord fl (IntegerV n) (ConstantV c) = Less \<and>
   variable_ord fl (StringV ''10'') (StringV ''9'') = Less \<and>
   variable_ord fl (StringV ''9'') (IntegerV 10) = Less \<and>
   variable_ord fl (IntegerV 10) (StringV ''10'') = Equal \<and>
   variable_cmp fl (ConstantV c) (ConstantV c) = Some Equal \<and> \<not> variable_eq fl (ConstantV c) (ConstantV c)"
proof -
  have "parse_i64 ''9'' = Some 9" "parse_i64 ''10'' = Some 10"
    by (simp_all add: parse_i64_def parse_unsigned_def decimal_value_def digit_value_def is_ascii_digit_def)
  then show ?thesis
    by (simp add: variable_ord_def int_cmp_def)
qed

text \<open>
  An array loses its negative items. After an opening bracket a minus sign is read as a
  subtraction, which is not counted as an item: an array of a negative and another number is
  accepted and has one item only.
\<close>

theorem array_loses_negative:
  fixes tenv :: "'f token_env" and env :: "('f, 'w) eval_env"
  shows "expression_parse tenv ''[ - 1 , 2 ] '' =
     Inr [IConstant (CInteger 1), IBinary Subtract, IConstant (CInteger 2), ArrayBuild 1] \<and>
   eval_expr env [IConstant (CInteger 1), IBinary Subtract, IConstant (CInteger 2), ArrayBuild 1] cs w =
     (Inr (ArrayV [IntegerV 2]), cs, w)"
proof
  let ?ts = "[OpenBracket, TBinary Subtract, TConstant (CInteger 1), Comma, TConstant (CInteger 2), CloseBracket] :: 'f expr_token list"
  have "tokenize tenv (tokenizer_new (expr_text ?ts)) = Inr ?ts"
    unfolding tokenizer_new_between by (rule tokenize_text) simp_all
  moreover have "nat_to_string (Suc 0) = ''1''" "nat_to_string 2 = ''2''" by code_simp+
  then have "expr_text ?ts = ''[ - 1 , 2 ] ''" by simp
  moreover have "expr_parse ?ts = Inr [IConstant (CInteger 1), IBinary Subtract, IConstant (CInteger 2), ArrayBuild 1]"
    by (simp add: expr_parse_def parse_token_def parser_new_def open_bracket_def inc_arg_count_def push_operator_def
      binary_token_def dec_arg_count_def sat_dec_def sat_inc_def operand_def ID_ARRAY_BUILD_def ID_ARRAY_ACCESS_def
      emit_binary_def update_jmp_pos_def close_token_def end_call_def function_item_def parser_finish_def Let_def)
  ultimately show "expression_parse tenv ''[ - 1 , 2 ] '' =
     Inr [IConstant (CInteger 1), IBinary Subtract, IConstant (CInteger 2), ArrayBuild 1]"
    using expression_parse_tokens [of tenv "expr_text ?ts" ?ts] by (simp only: sum.case)
next
  have "unat (1 :: u32) = Suc 0" by simp
  then show "eval_expr env [IConstant (CInteger 1), IBinary Subtract, IConstant (CInteger 2), ArrayBuild 1] cs w =
     (Inr (ArrayV [IntegerV 2]), cs, w)"
    by (simp add: eval_expr_def)
qed

end
