(* ===== verification/Queue_Message.thy ===== *)
theory Queue_Message
  imports Expr_Values
begin

text \<open>
  The messages of the SMTP queue (\<^verbatim>\<open>crates/smtp/src/queue/mod.rs\<close>), the events they
  are waiting for (\<^verbatim>\<open>queue/manager.rs\<close>, the methods of \<open>Message\<close> and
  \<open>Recipient\<close>, and their archived copies in \<^verbatim>\<open>queue/spool.rs\<close>), and what the
  configuration's expressions read of a message.

  Times are seconds in a \<open>u64\<close>; the clock is an argument. The \<open>Response\<close> of an SMTP
  server is a record of the fields that the sources read.
\<close>

section \<open>Names of virtual queues\<close>

type_synonym queue_name = string

definition DEFAULT_QUEUE_NAME :: queue_name where
  "DEFAULT_QUEUE_NAME = ''default'' @ [NUL]"

definition queue_name_new :: "string \<Rightarrow> queue_name option" where
  "queue_name_new name =
     (if 1 \<le> length name \<and> length name \<le> 8
      then Some (name @ replicate (8 - length name) NUL) else None)"

definition queue_name_from_bytes :: "string \<Rightarrow> queue_name option" where
  "queue_name_from_bytes name = (if length name = 8 then Some name else None)"

text \<open>\<open>trim_end_matches\<close> of one character\<close>

definition trim_end_matches :: "char \<Rightarrow> string \<Rightarrow> string" where
  "trim_end_matches c s = rev (dropWhile (\<lambda>d. d = c) (rev s))"

definition queue_name_as_str :: "queue_name \<Rightarrow> string" where
  "queue_name_as_str q = trim_end_matches NUL (if utf8_valid q then q else [])"

section \<open>Addresses\<close>

text \<open>\<open>str::rsplit_once\<close>: the parts before and after the last occurrence of a character.\<close>

definition rsplit_once :: "char \<Rightarrow> string \<Rightarrow> (string \<times> string) option" where
  "rsplit_once c s =
     (if c \<in> set s then
        Some (rev (tl (dropWhile (\<lambda>d. d \<noteq> c) (rev s))), rev (takeWhile (\<lambda>d. d \<noteq> c) (rev s)))
      else None)"

definition domain_part :: "string \<Rightarrow> string" where
  "domain_part s = (case rsplit_once CHR ''@'' s of Some (_, d) \<Rightarrow> d | None \<Rightarrow> [])"

definition try_domain_part :: "string \<Rightarrow> string option" where
  "try_domain_part s = map_option snd (rsplit_once CHR ''@'' s)"

definition try_local_part :: "string \<Rightarrow> string option" where
  "try_local_part s = map_option fst (rsplit_once CHR ''@'' s)"

text \<open>The lower case of Unicode text is the argument \<open>lower\<close>.\<close>

definition to_lowercase_domain :: "(string \<Rightarrow> string) \<Rightarrow> string \<Rightarrow> string" where
  "to_lowercase_domain lower s =
     (case rsplit_once CHR ''@'' s of
        Some (local, domain) \<Rightarrow> local @ CHR ''@'' # lower domain
      | None \<Rightarrow> s)"

text \<open>IP addresses and their \<open>Display\<close>.\<close>

datatype ip_addr = V4 "u8 list" | V6 "u16 list"

definition hex_lower :: "nat \<Rightarrow> char" where
  "hex_lower n = (if n < 10 then char_of (48 + n) else char_of (87 + n))"

fun nat_to_hex :: "nat \<Rightarrow> string" where
  "nat_to_hex n = (if n < 16 then [hex_lower n] else nat_to_hex (n div 16) @ [hex_lower (n mod 16)])"

declare nat_to_hex.simps [simp del]

fun join :: "string \<Rightarrow> string list \<Rightarrow> string" where
  "join sep [] = []"
| "join sep [s] = s"
| "join sep (s # ss) = s @ sep @ join sep ss"

definition show_ipv4 :: "u8 list \<Rightarrow> string" where
  "show_ipv4 b = join ''.'' (map (\<lambda>n. nat_to_string (unat n)) b)"

text \<open>The longest run of zero segments, the first of its length, as start and length.\<close>

fun longest_zeros :: "nat \<Rightarrow> nat \<times> nat \<Rightarrow> nat \<times> nat \<Rightarrow> u16 list \<Rightarrow> nat \<times> nat" where
  "longest_zeros i cur best [] = best"
| "longest_zeros i cur best (s # ss) =
     (if s = 0 then
        (let cur = (if snd cur = 0 then (i, 1) else (fst cur, snd cur + 1))
         in longest_zeros (i + 1) cur (if snd best < snd cur then cur else best) ss)
      else longest_zeros (i + 1) (0, 0) best ss)"

definition show_ipv6 :: "u16 list \<Rightarrow> string" where
  "show_ipv6 s =
     (let hex = (\<lambda>l. join '':'' (map (\<lambda>n. nat_to_hex (unat n)) l)) in
      if take 6 s = [0, 0, 0, 0, 0, 0xffff] then
        ''::ffff:'' @ show_ipv4 (concat (map (\<lambda>n. [ucast (drop_bit 8 n), ucast n]) (drop 6 s)))
      else (let (start, len) = longest_zeros 0 (0, 0) (0, 0) s in
        if 1 < len then hex (take start s) @ ''::'' @ hex (drop (start + len) s)
        else hex s))"

fun show_ip :: "ip_addr \<Rightarrow> string" where
  "show_ip (V4 b) = show_ipv4 b"
| "show_ip (V6 s) = show_ipv6 s"

section \<open>Messages and recipients\<close>

type_synonym queue_id = u64

record schedule =
  due :: u64
  inner :: u32

definition schedule_now :: "u64 \<Rightarrow> schedule" where
  "schedule_now now = \<lparr>due = now, inner = 0\<rparr>"

definition schedule_later :: "u64 \<Rightarrow> u64 \<Rightarrow> schedule" where
  "schedule_later now duration = \<lparr>due = now + duration, inner = 0\<rparr>"

text \<open>\<open>Ord\<close> of a schedule: the earlier one is the greater.\<close>

definition schedule_cmp :: "schedule \<Rightarrow> schedule \<Rightarrow> ordering" where
  "schedule_cmp a b = int_cmp (uint (due b)) (uint (due a))"

datatype queue_expiry = Ttl u64 | Attempts u32

record response =
  resp_code :: u16
  resp_esc :: "u8 list"
  resp_message :: string

datatype delivery_error =
    DnsError string
  | UnexpectedResponse string response
  | ConnectionError string
  | TlsError string
  | DaneError string
  | MtaStsError string
  | RateLimited
  | ConcurrencyLimited
  | IoError string

record error_details =
  entity :: string
  details :: delivery_error

record host_response =
  hostname :: string
  host_resp :: response

datatype ('t, 'e) status =
    Scheduled
  | Completed 't
  | TemporaryFailure 'e
  | PermanentFailure 'e

type_synonym delivery_status = "(host_response, error_details) status"

record recipient =
  address :: string
  retry :: schedule
  notify :: schedule
  expires :: queue_expiry
  queue :: queue_name
  rcpt_status :: delivery_status
  rcpt_flags :: u64
  orcpt :: "string option"

datatype quota_key = SizeKey string u64 | CountKey string u64

record message =
  created :: u64
  blob_hash :: string
  return_path :: string
  recipients :: "recipient list"
  received_from_ip :: ip_addr
  received_via_port :: u16
  msg_flags :: u64
  env_id :: "string option"
  priority :: "16 word"
  msg_size :: u64
  quota_keys :: "quota_key list"

record message_wrapper =
  queue_id :: queue_id
  queue_name :: queue_name
  is_multi_queue :: bool
  span_id :: u64
  message :: message

definition FROM_AUTHENTICATED :: u64 where "FROM_AUTHENTICATED = push_bit 32 1"
definition FROM_UNAUTHENTICATED :: u64 where "FROM_UNAUTHENTICATED = push_bit 33 1"
definition FROM_UNAUTHENTICATED_DMARC :: u64 where "FROM_UNAUTHENTICATED_DMARC = push_bit 34 1"
definition FROM_DSN :: u64 where "FROM_DSN = push_bit 35 1"
definition FROM_REPORT :: u64 where "FROM_REPORT = push_bit 36 1"
definition FROM_AUTOGENERATED :: u64 where "FROM_AUTOGENERATED = push_bit 37 1"

definition RCPT_DSN_SENT :: u64 where "RCPT_DSN_SENT = push_bit 32 1"
definition RCPT_SPAM_PAYLOAD :: u64 where "RCPT_SPAM_PAYLOAD = push_bit 34 1"

definition recipient_new :: "(string \<Rightarrow> string) \<Rightarrow> u64 \<Rightarrow> string \<Rightarrow> recipient" where
  "recipient_new lower now addr =
     \<lparr>address = to_lowercase_domain lower addr, retry = schedule_now now, notify = schedule_now now,
      expires = Attempts 0, queue = DEFAULT_QUEUE_NAME, rcpt_status = Scheduled, rcpt_flags = 0,
      orcpt = None\<rparr>"

definition with_flags :: "u64 \<Rightarrow> recipient \<Rightarrow> recipient" where
  "with_flags flags r = r\<lparr>rcpt_flags := flags\<rparr>"

definition with_orcpt :: "string option \<Rightarrow> recipient \<Rightarrow> recipient" where
  "with_orcpt o' r = r\<lparr>orcpt := o'\<rparr>"

definition rcpt_domain_part :: "recipient \<Rightarrow> string" where
  "rcpt_domain_part r = domain_part (address r)"

text \<open>\<open>matches!(status, Scheduled | TemporaryFailure(_))\<close>, which the sources repeat.\<close>

definition status_pending :: "('t, 'e) status \<Rightarrow> bool" where
  "status_pending s = (case s of Scheduled \<Rightarrow> True | TemporaryFailure _ \<Rightarrow> True | _ \<Rightarrow> False)"

definition pending :: "recipient \<Rightarrow> bool" where
  "pending r = status_pending (rcpt_status r)"

text \<open>\<open>queue.is_none_or(|q| rcpt.queue == q)\<close>\<close>

definition in_queue :: "queue_name option \<Rightarrow> recipient \<Rightarrow> bool" where
  "in_queue q r = (case q of None \<Rightarrow> True | Some n \<Rightarrow> queue r = n)"

section \<open>Expiry\<close>

definition expiration_time :: "recipient \<Rightarrow> u64 \<Rightarrow> u64 option" where
  "expiration_time r cr = (case expires r of Ttl time \<Rightarrow> Some (cr + time) | Attempts _ \<Rightarrow> None)"

definition is_expired :: "recipient \<Rightarrow> u64 \<Rightarrow> u64 \<Rightarrow> bool" where
  "is_expired r cr now =
     (case expires r of
        Ttl time \<Rightarrow> cr + time \<le> now
      | Attempts count \<Rightarrow> count \<le> inner (retry r))"

section \<open>Events\<close>

text \<open>The accumulators of the loops: the least and the greatest value so far.\<close>

definition keep_less :: "u64 \<Rightarrow> u64 option \<Rightarrow> u64 option" where
  "keep_less e acc = (case acc of None \<Rightarrow> Some e | Some n \<Rightarrow> Some (if e < n then e else n))"

definition keep_greater :: "u64 \<Rightarrow> u64 option \<Rightarrow> u64 option" where
  "keep_greater e acc = (case acc of None \<Rightarrow> Some e | Some n \<Rightarrow> Some (if n < e then e else n))"

definition earlier_event :: "message \<Rightarrow> recipient \<Rightarrow> u64" where
  "earlier_event m r =
     (let e = min (due (retry r)) (due (notify r))
      in case expiration_time r (created m) of Some x \<Rightarrow> min e x | None \<Rightarrow> e)"

definition next_event :: "message \<Rightarrow> queue_name option \<Rightarrow> u64 option" where
  "next_event m q =
     fold (\<lambda>r acc. if pending r \<and> in_queue q r then keep_less (earlier_event m r) acc else acc)
       (recipients m) None"

definition next_delivery_event :: "message \<Rightarrow> queue_name option \<Rightarrow> u64 option" where
  "next_delivery_event m q =
     fold (\<lambda>r. keep_less (due (retry r)))
       (filter (\<lambda>r. pending r \<and> in_queue q r) (recipients m)) None"

definition next_dsn :: "message \<Rightarrow> queue_name option \<Rightarrow> u64 option" where
  "next_dsn m q =
     fold (\<lambda>r. keep_less (due (notify r)))
       (filter (\<lambda>r. pending r \<and> in_queue q r) (recipients m)) None"

definition message_expires :: "message \<Rightarrow> queue_name option \<Rightarrow> u64 option" where
  "message_expires m q =
     fold (\<lambda>r acc. case expiration_time r (created m) of
                     Some x \<Rightarrow> keep_greater x acc | None \<Rightarrow> acc)
       (filter (\<lambda>r. pending r \<and> in_queue q r) (recipients m)) None"

text \<open>\<open>next_events\<close> collects a hash map, kept here as an association list without duplicates.\<close>

fun insert_less :: "queue_name \<Rightarrow> u64 \<Rightarrow> (queue_name \<times> u64) list \<Rightarrow> (queue_name \<times> u64) list" where
  "insert_less q e [] = [(q, e)]"
| "insert_less q e ((p, d) # ps) =
     (if p = q then (p, if e < d then e else d) # ps else (p, d) # insert_less q e ps)"

definition next_events :: "message \<Rightarrow> (queue_name \<times> u64) list" where
  "next_events m =
     fold (\<lambda>r acc. if pending r then insert_less (queue r) (earlier_event m r) acc else acc)
       (recipients m) []"

text \<open>The copies of these methods on archived messages.\<close>

definition archived_next_event :: "message \<Rightarrow> queue_name option \<Rightarrow> u64 option" where
  "archived_next_event m q =
     fold (\<lambda>r.
         let e = min (due (retry r)) (due (notify r));
             e = (case expires r of Ttl ttl \<Rightarrow> min e (created m + ttl) | Attempts _ \<Rightarrow> e)
         in keep_less e)
       (filter (\<lambda>r. status_pending (rcpt_status r) \<and> in_queue q r) (recipients m)) None"

definition archived_next_delivery_event :: "message \<Rightarrow> queue_name option \<Rightarrow> u64 option" where
  "archived_next_delivery_event m q =
     fold (\<lambda>r. keep_less (due (retry r)))
       (filter (\<lambda>r. status_pending (rcpt_status r) \<and> in_queue q r) (recipients m)) None"

definition archived_next_notify_event :: "message \<Rightarrow> queue_name option \<Rightarrow> u64 option" where
  "archived_next_notify_event m q =
     fold (\<lambda>r. keep_less (due (notify r)))
       (filter (\<lambda>r. status_pending (rcpt_status r) \<and> in_queue q r) (recipients m)) None"

section \<open>The domains of a message\<close>

definition has_domain :: "message \<Rightarrow> string list \<Rightarrow> bool" where
  "has_domain m domains \<longleftrightarrow>
     list_ex (\<lambda>r. list_ex (\<lambda>dd. dd = domain_part (address r)) domains) (recipients m)
     \<or> (case rsplit_once CHR ''@'' (return_path m) of
          Some (_, domain) \<Rightarrow> list_ex (\<lambda>dd. dd = domain) domains | None \<Rightarrow> False)"

definition archived_has_domain :: "message \<Rightarrow> string set \<Rightarrow> bool" where
  "archived_has_domain m domains \<longleftrightarrow>
     list_ex (\<lambda>r. domain_part (address r) \<in> domains) (recipients m)
     \<or> (case rsplit_once CHR ''@'' (return_path m) of
          Some (_, domain) \<Rightarrow> domain \<in> domains | None \<Rightarrow> False)"

section \<open>Display\<close>

text \<open>The \<open>Display\<close> of a server's \<open>Response\<close> belongs to \<open>smtp_proto\<close>: the argument \<open>show\<close>.\<close>

fun error_display :: "(response \<Rightarrow> string) \<Rightarrow> delivery_error \<Rightarrow> string" where
  "error_display show (UnexpectedResponse command r) =
     ''Unexpected response for '' @ command @ '': '' @ show r"
| "error_display show (DnsError err) = ''DNS lookup failed: '' @ err"
| "error_display show (ConnectionError d) = ''Connection failed: '' @ d"
| "error_display show (TlsError d) = ''TLS error: '' @ d"
| "error_display show (DaneError d) = ''DANE authentication failure: '' @ d"
| "error_display show (MtaStsError d) = ''MTA-STS auth failed: '' @ d"
| "error_display show RateLimited = ''Rate limited''"
| "error_display show ConcurrencyLimited = ''Too many concurrent connections to remote server''"
| "error_display show (IoError err) = ''Queue error: '' @ err"

fun status_display :: "(response \<Rightarrow> string) \<Rightarrow> delivery_status \<Rightarrow> string" where
  "status_display show Scheduled = ''Scheduled''"
| "status_display show (Completed r) = ''Delivered: '' @ show (host_resp r)"
| "status_display show (TemporaryFailure err) =
     ''Temporary Failure for '' @ entity err @ '': '' @ error_display show (details err)"
| "status_display show (PermanentFailure err) =
     ''Permanent Failure for '' @ entity err @ '': '' @ error_display show (details err)"

definition error_details_display :: "(response \<Rightarrow> string) \<Rightarrow> error_details \<Rightarrow> string" where
  "error_details_display show err =
     ''Error for '' @ entity err @ '': '' @ error_display show (details err)"

section \<open>What expressions read of a message\<close>

record queue_envelope =
  env_message :: message
  env_domain :: string
  env_mx :: string
  env_rcpt :: recipient
  remote_ip :: ip_addr
  local_ip :: ip_addr

definition envelope_new :: "message \<Rightarrow> recipient \<Rightarrow> queue_envelope" where
  "envelope_new m r =
     \<lparr>env_message = m, env_domain = domain_part (address r), env_mx = [], env_rcpt = r,
      remote_ip = V4 [0, 0, 0, 0], local_ip = V4 [0, 0, 0, 0]\<rparr>"

text \<open>\<open>u64::saturating_sub\<close>\<close>

definition saturating_sub :: "'a::len word \<Rightarrow> 'a word \<Rightarrow> 'a word" where
  "saturating_sub a b = (if a < b then 0 else a - b)"

definition error_class :: "delivery_error \<Rightarrow> string" where
  "error_class e =
     (case e of
        DnsError _ \<Rightarrow> ''dns''
      | UnexpectedResponse _ _ \<Rightarrow> ''unexpected-reply''
      | ConnectionError _ \<Rightarrow> ''connection''
      | TlsError _ \<Rightarrow> ''tls''
      | DaneError _ \<Rightarrow> ''dane''
      | MtaStsError _ \<Rightarrow> ''mta-sts''
      | RateLimited \<Rightarrow> ''rate''
      | ConcurrencyLimited \<Rightarrow> ''concurrency''
      | IoError _ \<Rightarrow> ''io'')"

fun last_error :: "delivery_status \<Rightarrow> string" where
  "last_error Scheduled = ''none''"
| "last_error (Completed _) = ''none''"
| "last_error (TemporaryFailure err) = error_class (details err)"
| "last_error (PermanentFailure err) = error_class (details err)"

definition has_bits :: "'a::len word \<Rightarrow> 'a word \<Rightarrow> bool" where
  "has_bits w flags \<longleftrightarrow> w AND flags \<noteq> 0"

definition message_source :: "message \<Rightarrow> string" where
  "message_source m =
     (if has_bits (msg_flags m) FROM_AUTHENTICATED then ''authenticated''
      else if has_bits (msg_flags m) FROM_UNAUTHENTICATED_DMARC then ''dmarc_pass''
      else if has_bits (msg_flags m) FROM_UNAUTHENTICATED then ''unauthenticated''
      else if has_bits (msg_flags m) FROM_DSN then ''dsn''
      else if has_bits (msg_flags m) FROM_REPORT then ''report''
      else if has_bits (msg_flags m) FROM_AUTOGENERATED then ''autogenerated''
      else ''unknown'')"

definition expires_in :: "message \<Rightarrow> recipient \<Rightarrow> u64 \<Rightarrow> u64" where
  "expires_in m r now =
     (case expires r of
        Ttl time \<Rightarrow> saturating_sub (time + created m) now
      | Attempts count \<Rightarrow> ucast (saturating_sub count (inner (retry r))))"

definition recipient_addresses :: "message \<Rightarrow> 'f variable" where
  "recipient_addresses m = ArrayV (map (\<lambda>r. StringV (address r)) (recipients m))"

definition envelope_variable ::
    "(response \<Rightarrow> string) \<Rightarrow> u64 \<Rightarrow> queue_envelope \<Rightarrow> string \<Rightarrow> 'f variable" where
  "envelope_variable show now e v =
     (let m = env_message e; r = env_rcpt e in
      if v = ''sender'' then StringV (return_path m)
      else if v = ''sender_domain'' then StringV (domain_part (return_path m))
      else if v = ''rcpt_domain'' then StringV (env_domain e)
      else if v = ''rcpt'' then StringV (address r)
      else if v = ''recipients'' then recipient_addresses m
      else if v = ''retry_num'' then IntegerV (ucast (inner (retry r)))
      else if v = ''notify_num'' then IntegerV (ucast (inner (notify r)))
      else if v = ''expires_in'' then from_u64 (expires_in m r now)
      else if v = ''last_status'' then StringV (status_display show (rcpt_status r))
      else if v = ''last_error'' then StringV (last_error (rcpt_status r))
      else if v = ''queue_name'' then StringV (queue_name_as_str (queue r))
      else if v = ''queue_age'' then from_u64 (saturating_sub now (created m))
      else if v = ''source'' then StringV (message_source m)
      else if v = ''mx'' then StringV (env_mx e)
      else if v = ''priority'' then IntegerV (scast (priority m))
      else if v = ''remote_ip'' then StringV (show_ip (remote_ip e))
      else if v = ''local_ip'' then StringV (show_ip (local_ip e))
      else if v = ''received_from_ip'' then StringV (show_ip (received_from_ip m))
      else if v = ''received_via_port'' then IntegerV (ucast (received_via_port m))
      else if v = ''size'' then from_u64 (msg_size m)
      else StringV [])"

definition message_variable :: "message \<Rightarrow> string \<Rightarrow> 'f variable" where
  "message_variable m v =
     (if v = ''sender'' then StringV (return_path m)
      else if v = ''sender_domain'' then StringV (domain_part (return_path m))
      else if v = ''recipients'' then recipient_addresses m
      else if v = ''priority'' then IntegerV (scast (priority m))
      else StringV [])"

definition recipient_domain_variable :: "string \<Rightarrow> string \<Rightarrow> 'f variable" where
  "recipient_domain_variable domain v = (if v = ''rcpt_domain'' then StringV domain else StringV [])"

section \<open>The events of a message\<close>

text \<open>What the loops compute: the least event of the recipients that wait in a queue.\<close>

definition waiting :: "message \<Rightarrow> queue_name option \<Rightarrow> recipient list" where
  "waiting m q = filter (\<lambda>r. pending r \<and> in_queue q r) (recipients m)"

lemma pending_status: "status_pending (rcpt_status r) \<longleftrightarrow> pending r"
  by (simp add: pending_def)

lemma fold_filter: "fold (\<lambda>x acc. if P x then f x acc else acc) xs a = fold f (filter P xs) a"
  by (induction xs arbitrary: a) auto

lemma keep_less_simps [simp]:
  "keep_less e None = Some e" "keep_less e (Some n) = Some (min e n)"
  by (auto simp: keep_less_def min_def)

lemma fold_keep_less_Some:
  "fold (\<lambda>x. keep_less (f x)) xs (Some n) = Some (Min (insert n (f ` set xs)))"
proof (induction xs arbitrary: n)
  case (Cons x xs)
  have "Min (insert n (f ` set (x # xs))) = Min (insert (min (f x) n) (f ` set xs))"
    by (cases "xs = []") (simp_all add: Min_insert ac_simps del: Min_insert2)
  then show ?case using Cons.IH by simp
qed simp

lemma fold_keep_less:
  "fold (\<lambda>x. keep_less (f x)) xs None = (if xs = [] then None else Some (Min (f ` set xs)))"
  by (cases xs) (simp_all add: fold_keep_less_Some)

lemma next_event_waiting:
  "next_event m q =
     (if waiting m q = [] then None else Some (Min (earlier_event m ` set (waiting m q))))"
  by (simp add: next_event_def fold_filter fold_keep_less waiting_def)

lemma archived_next_event_eq: "archived_next_event m q = next_event m q"
proof -
  have "earlier_event m r =
      (let e = min (due (retry r)) (due (notify r));
           e = (case expires r of Ttl ttl \<Rightarrow> min e (created m + ttl) | Attempts _ \<Rightarrow> e) in e)" for r
    by (simp add: earlier_event_def expiration_time_def Let_def split: queue_expiry.split)
  then show ?thesis
    by (simp add: archived_next_event_def next_event_def fold_filter pending_status Let_def)
qed

lemma archived_next_delivery_event_eq: "archived_next_delivery_event m q = next_delivery_event m q"
  by (simp add: archived_next_delivery_event_def next_delivery_event_def pending_status)

lemma archived_next_notify_event_eq: "archived_next_notify_event m q = next_dsn m q"
  by (simp add: archived_next_notify_event_def next_dsn_def pending_status)

lemma map_of_insert_less:
  "map_of (insert_less q e ps) = (map_of ps)(q := keep_less e (map_of ps q))"
  by (induction q e ps rule: insert_less.induct) (auto simp: fun_eq_iff min_def)

lemma insert_less_keys: "fst ` set (insert_less q e ps) = insert q (fst ` set ps)"
  by (induction q e ps rule: insert_less.induct) auto

lemma insert_less_distinct: "distinct (map fst ps) \<Longrightarrow> distinct (map fst (insert_less q e ps))"
proof (induction q e ps rule: insert_less.induct)
  case (2 q e p d ps)
  then show ?case using insert_less_keys [of q e ps] by (auto simp: image_image)
qed simp

lemma fold_insert_less_map:
  "map_of (fold (\<lambda>r acc. if pending r then insert_less (queue r) (f r) acc else acc) rs ps) q =
     fold (\<lambda>r acc. if pending r \<and> queue r = q then keep_less (f r) acc else acc) rs (map_of ps q)"
proof (induction rs arbitrary: ps)
  case (Cons r rs)
  then show ?case by (auto simp: map_of_insert_less)
qed simp

lemma next_events_distinct: "distinct (map fst (next_events m))"
proof -
  have "distinct (map fst ps) \<Longrightarrow>
      distinct (map fst (fold (\<lambda>r acc. if pending r then insert_less (queue r) (f r) acc else acc) rs ps))"
    for rs ps and f :: "recipient \<Rightarrow> u64"
    by (induction rs arbitrary: ps) (auto simp: insert_less_distinct)
  then show ?thesis by (simp add: next_events_def)
qed

lemma next_events_map: "map_of (next_events m) q = next_event m (Some q)"
  by (simp add: next_events_def next_event_def fold_insert_less_map in_queue_def)

lemma next_event_None: "next_event m q = None \<longleftrightarrow> waiting m q = []"
  by (simp add: next_event_waiting)

lemma next_events_Nil: "next_events m = [] \<longleftrightarrow> next_event m None = None"
proof
  assume "next_events m = []"
  then have "waiting m (Some q) = []" for q
    using next_events_map [of m q] by (simp add: next_event_waiting split: if_splits)
  then have "\<not> pending r" if "r \<in> set (recipients m)" for r
    using that by (fastforce simp: waiting_def filter_empty_conv in_queue_def)
  then show "next_event m None = None"
    by (simp add: next_event_None waiting_def filter_empty_conv)
next
  assume "next_event m None = None"
  then have n: "waiting m (Some q) = []" for q
    by (auto simp: next_event_None waiting_def filter_empty_conv in_queue_def)
  then have "map_of (next_events m) q = None" for q
    by (simp add: next_events_map next_event_None)
  then show "next_events m = []"
    by (metis list.exhaust map_of_Cons_code(2) option.distinct(1) prod.exhaust)
qed

end
