(* ===== verification/Queue_Quota.thy ===== *)
theory Queue_Quota
  imports Queue_Message Expr_Parser
begin

text \<open>
  The quotas of the SMTP queue (\<^verbatim>\<open>crates/smtp/src/queue/quota.rs\<close>) and the keys under
  which they count (\<^verbatim>\<open>smtp/src/core/throttle.rs\<close>). The evaluation of a quota's expression and
  the hash of its key are arguments; the counters of the store are a function to 64-bit words.
\<close>

section \<open>Quotas and their keys\<close>

definition THROTTLE_RCPT :: u16 where "THROTTLE_RCPT = push_bit 0 1"
definition THROTTLE_RCPT_DOMAIN :: u16 where "THROTTLE_RCPT_DOMAIN = push_bit 1 1"
definition THROTTLE_SENDER :: u16 where "THROTTLE_SENDER = push_bit 2 1"
definition THROTTLE_SENDER_DOMAIN :: u16 where "THROTTLE_SENDER_DOMAIN = push_bit 3 1"
definition THROTTLE_AUTH_AS :: u16 where "THROTTLE_AUTH_AS = push_bit 4 1"
definition THROTTLE_LISTENER :: u16 where "THROTTLE_LISTENER = push_bit 5 1"
definition THROTTLE_MX :: u16 where "THROTTLE_MX = push_bit 6 1"
definition THROTTLE_REMOTE_IP :: u16 where "THROTTLE_REMOTE_IP = push_bit 7 1"
definition THROTTLE_LOCAL_IP :: u16 where "THROTTLE_LOCAL_IP = push_bit 8 1"
definition THROTTLE_HELO_DOMAIN :: u16 where "THROTTLE_HELO_DOMAIN = push_bit 9 1"

record 'f queue_quota =
  quota_expr :: "'f item list"
  quota_keys_mask :: u16
  quota_size :: "u64 option"
  quota_messages :: "u64 option"

record 'f queue_quotas =
  quotas_sender :: "'f queue_quota list"
  quotas_rcpt :: "'f queue_quota list"
  quotas_rcpt_domain :: "'f queue_quota list"

text \<open>\<open>MtaQueueQuota\<close>, an object of the registry, with its key as a list of names.\<close>

datatype quota_key_kind = KeyRcpt | KeyRcptDomain | KeySender | KeySenderDomain

record 'f mta_queue_quota =
  mq_enable :: bool
  mq_match :: "'f item list"
  mq_key :: "quota_key_kind list"
  mq_size :: "u64 option"
  mq_messages :: "u64 option"

definition key_kind_mask :: "quota_key_kind \<Rightarrow> u16" where
  "key_kind_mask k =
     (case k of KeyRcpt \<Rightarrow> THROTTLE_RCPT | KeyRcptDomain \<Rightarrow> THROTTLE_RCPT_DOMAIN
      | KeySender \<Rightarrow> THROTTLE_SENDER | KeySenderDomain \<Rightarrow> THROTTLE_SENDER_DOMAIN)"

definition reads_variable :: "string \<Rightarrow> 'f item list \<Rightarrow> bool" where
  "reads_variable v items \<longleftrightarrow> list_ex (\<lambda>i. case i of IVariable x \<Rightarrow> x = v | _ \<Rightarrow> False) items"

definition queue_quota_of :: "'f mta_queue_quota \<Rightarrow> 'f queue_quota" where
  "queue_quota_of q =
     \<lparr>quota_expr = mq_match q,
      quota_keys_mask = fold (\<lambda>k acc. acc OR key_kind_mask k) (mq_key q) 0,
      quota_size = mq_size q, quota_messages = mq_messages q\<rparr>"

definition add_quota :: "'f queue_quota \<Rightarrow> 'f queue_quotas \<Rightarrow> 'f queue_quotas" where
  "add_quota q c =
     (if has_bits (quota_keys_mask q) THROTTLE_RCPT \<or> reads_variable ''rcpt'' (quota_expr q) then
        c\<lparr>quotas_rcpt := quotas_rcpt c @ [q]\<rparr>
      else if has_bits (quota_keys_mask q) THROTTLE_RCPT_DOMAIN
           \<or> reads_variable ''rcpt_domain'' (quota_expr q) then
        c\<lparr>quotas_rcpt_domain := quotas_rcpt_domain c @ [q]\<rparr>
      else c\<lparr>quotas_sender := quotas_sender c @ [q]\<rparr>)"

definition queue_quotas_parse :: "'f mta_queue_quota list \<Rightarrow> 'f queue_quotas" where
  "queue_quotas_parse objs =
     fold (\<lambda>q c. if mq_enable q then add_quota (queue_quota_of q) c else c) objs
       \<lparr>quotas_sender = [], quotas_rcpt = [], quotas_rcpt_domain = []\<rparr>"

text \<open>What a quota takes of the server.\<close>

record 'f quota_env =
  qe_floats :: "'f float_ops"
  qe_eval :: "'f item list \<Rightarrow> (string \<Rightarrow> 'f variable) \<Rightarrow> bool option"
  qe_hash :: "string \<Rightarrow> string"

text \<open>The native byte order is little-endian on the supported targets.\<close>

definition to_ne_bytes :: "u64 \<Rightarrow> string" where
  "to_ne_bytes n = map (\<lambda>i. char_of (unat (drop_bit (8 * i) n AND 255))) [0..<8]"

definition or_empty_sender :: "string \<Rightarrow> string" where
  "or_empty_sender s = (if s \<noteq> [] then s else ''<>'')"

definition quota_key_bytes ::
    "'f float_ops \<Rightarrow> 'f queue_quota \<Rightarrow> (string \<Rightarrow> 'f variable) \<Rightarrow> string" where
  "quota_key_bytes fl q e =
     (if has_bits (quota_keys_mask q) THROTTLE_RCPT then variable_to_string fl (e ''rcpt'') else [])
     @ (if has_bits (quota_keys_mask q) THROTTLE_RCPT_DOMAIN
        then variable_to_string fl (e ''rcpt_domain'') else [])
     @ (if has_bits (quota_keys_mask q) THROTTLE_SENDER
        then or_empty_sender (variable_to_string fl (e ''sender'')) else [])
     @ (if has_bits (quota_keys_mask q) THROTTLE_SENDER_DOMAIN
        then or_empty_sender (variable_to_string fl (e ''sender_domain'')) else [])
     @ (case quota_messages q of Some n \<Rightarrow> to_ne_bytes n | None \<Rightarrow> [])
     @ (case quota_size q of Some n \<Rightarrow> to_ne_bytes n | None \<Rightarrow> [])"

definition quota_new_key :: "'f quota_env \<Rightarrow> 'f queue_quota \<Rightarrow> (string \<Rightarrow> 'f variable) \<Rightarrow> string" where
  "quota_new_key env q e = qe_hash env (quota_key_bytes (qe_floats env) q e)"

section \<open>Checking\<close>

datatype quota_counter = QuotaSize string | QuotaCount string

type_synonym counters = "quota_counter \<Rightarrow> u64"

text \<open>
  A check fails (\<open>None\<close>) or adds the keys it reserves. The sums wrap, as in a release build.
\<close>

definition check_quota :: "'f quota_env \<Rightarrow> counters \<Rightarrow> 'f queue_quota \<Rightarrow> (string \<Rightarrow> 'f variable) \<Rightarrow>
    u64 \<Rightarrow> u64 \<Rightarrow> quota_key list \<Rightarrow> quota_key list option" where
  "check_quota env cnt q e sz i refs =
     (if quota_expr q \<noteq> [] \<and> qe_eval env (quota_expr q) e = Some True then
        (let key = quota_new_key env q e in
         case (case quota_size q of
                 Some max_size \<Rightarrow>
                   if max_size < cnt (QuotaSize key) + sz then None else Some (refs @ [SizeKey key i])
               | None \<Rightarrow> Some refs) of
           None \<Rightarrow> None
         | Some refs \<Rightarrow>
             (case quota_messages q of
                Some max_messages \<Rightarrow>
                  if max_messages < cnt (QuotaCount key) + 1 then None
                  else Some (refs @ [CountKey key i])
              | None \<Rightarrow> Some refs))
      else Some refs)"

fun sender_quotas :: "'f quota_env \<Rightarrow> counters \<Rightarrow> message \<Rightarrow> 'f queue_quota list \<Rightarrow>
    quota_key list \<Rightarrow> quota_key list option" where
  "sender_quotas env cnt m [] keys = Some keys"
| "sender_quotas env cnt m (q # qs) keys =
     (case check_quota env cnt q (message_variable m) (msg_size m) 0 keys of
        None \<Rightarrow> None | Some keys \<Rightarrow> sender_quotas env cnt m qs keys)"

text \<open>The variables of a recipient; the clock is read by some of them.\<close>

record rcpt_context =
  rc_show :: "response \<Rightarrow> string"
  rc_now :: u64

definition rcpt_variable :: "rcpt_context \<Rightarrow> message \<Rightarrow> recipient \<Rightarrow> string \<Rightarrow> 'f variable" where
  "rcpt_variable rc m r = envelope_variable (rc_show rc) (rc_now rc) (envelope_new m r)"

definition domain_quota_id :: "nat \<Rightarrow> u64" where
  "domain_quota_id idx = push_bit 32 (of_nat (idx + 1))"

definition rcpt_quota_id :: "nat \<Rightarrow> u64" where
  "rcpt_quota_id idx = of_nat (idx + 1)"

fun domain_quota_loop :: "'f quota_env \<Rightarrow> rcpt_context \<Rightarrow> counters \<Rightarrow> message \<Rightarrow> 'f queue_quota \<Rightarrow>
    nat \<Rightarrow> recipient list \<Rightarrow> string set \<Rightarrow> quota_key list \<Rightarrow> (string set \<times> quota_key list) option" where
  "domain_quota_loop env rc cnt m q idx [] seen keys = Some (seen, keys)"
| "domain_quota_loop env rc cnt m q idx (r # rs) seen keys =
     (if domain_part (address r) \<in> seen then domain_quota_loop env rc cnt m q (idx + 1) rs seen keys
      else case check_quota env cnt q (rcpt_variable rc m r) (msg_size m) (domain_quota_id idx) keys of
             None \<Rightarrow> None
           | Some keys \<Rightarrow>
               domain_quota_loop env rc cnt m q (idx + 1) rs (insert (domain_part (address r)) seen) keys)"

fun domain_quotas :: "'f quota_env \<Rightarrow> rcpt_context \<Rightarrow> counters \<Rightarrow> message \<Rightarrow> 'f queue_quota list \<Rightarrow>
    string set \<Rightarrow> quota_key list \<Rightarrow> quota_key list option" where
  "domain_quotas env rc cnt m [] seen keys = Some keys"
| "domain_quotas env rc cnt m (q # qs) seen keys =
     (case domain_quota_loop env rc cnt m q 0 (recipients m) seen keys of
        None \<Rightarrow> None | Some (seen, keys) \<Rightarrow> domain_quotas env rc cnt m qs seen keys)"

fun rcpt_quota_loop :: "'f quota_env \<Rightarrow> rcpt_context \<Rightarrow> counters \<Rightarrow> message \<Rightarrow> 'f queue_quota \<Rightarrow>
    nat \<Rightarrow> recipient list \<Rightarrow> quota_key list \<Rightarrow> quota_key list option" where
  "rcpt_quota_loop env rc cnt m q idx [] keys = Some keys"
| "rcpt_quota_loop env rc cnt m q idx (r # rs) keys =
     (case check_quota env cnt q (rcpt_variable rc m r) (msg_size m) (rcpt_quota_id idx) keys of
        None \<Rightarrow> None | Some keys \<Rightarrow> rcpt_quota_loop env rc cnt m q (idx + 1) rs keys)"

fun rcpt_quotas :: "'f quota_env \<Rightarrow> rcpt_context \<Rightarrow> counters \<Rightarrow> message \<Rightarrow> 'f queue_quota list \<Rightarrow>
    quota_key list \<Rightarrow> quota_key list option" where
  "rcpt_quotas env rc cnt m [] keys = Some keys"
| "rcpt_quotas env rc cnt m (q # qs) keys =
     (case rcpt_quota_loop env rc cnt m q 0 (recipients m) keys of
        None \<Rightarrow> None | Some keys \<Rightarrow> rcpt_quotas env rc cnt m qs keys)"

definition has_quota :: "'f quota_env \<Rightarrow> rcpt_context \<Rightarrow> 'f queue_quotas \<Rightarrow> counters \<Rightarrow> message_wrapper \<Rightarrow>
    message_wrapper option" where
  "has_quota env rc qs cnt w =
     (let m = message w in
      case sender_quotas env cnt m (quotas_sender qs) [] of
        None \<Rightarrow> None
      | Some keys \<Rightarrow>
          (case domain_quotas env rc cnt m (quotas_rcpt_domain qs) {} keys of
             None \<Rightarrow> None
           | Some keys \<Rightarrow>
               (case rcpt_quotas env rc cnt m (quotas_rcpt qs) keys of
                  None \<Rightarrow> None
                | Some keys \<Rightarrow> Some (w\<lparr>message := m\<lparr>quota_keys := keys\<rparr>\<rparr>))))"

section \<open>Releasing\<close>

text \<open>A key as a counter and the amount that it holds.\<close>

fun key_counter :: "quota_key \<Rightarrow> quota_counter" where
  "key_counter (SizeKey k i) = QuotaSize k"
| "key_counter (CountKey k i) = QuotaCount k"

fun key_amount :: "u64 \<Rightarrow> quota_key \<Rightarrow> u64" where
  "key_amount sz (SizeKey k i) = sz"
| "key_amount sz (CountKey k i) = 1"

fun key_id :: "quota_key \<Rightarrow> u64" where
  "key_id (SizeKey k i) = i"
| "key_id (CountKey k i) = i"

definition finished :: "recipient \<Rightarrow> bool" where
  "finished r = (case rcpt_status r of Completed _ \<Rightarrow> True | PermanentFailure _ \<Rightarrow> True | _ \<Rightarrow> False)"

fun released_ids :: "nat \<Rightarrow> recipient list \<Rightarrow> string set \<Rightarrow> u64 list" where
  "released_ids pos [] seen = []"
| "released_ids pos (r # rs) seen =
     (if finished r then
        (if domain_part (address r) \<in> seen then [] else [domain_quota_id pos])
        @ rcpt_quota_id pos # released_ids (pos + 1) rs (insert (domain_part (address r)) seen)
      else released_ids (pos + 1) rs seen)"

text \<open>The message without the released keys, and what the batch adds to the counters.\<close>

definition release_quota :: "message \<Rightarrow> message \<times> (quota_counter \<times> u64) list" where
  "release_quota m =
     (if quota_keys m = [] then (m, [])
      else
        (let ids = released_ids 0 (recipients m) {} in
         if ids = [] then (m, [])
         else (m\<lparr>quota_keys := filter (\<lambda>k. key_id k \<notin> set ids) (quota_keys m)\<rparr>,
               map (\<lambda>k. (key_counter k, - key_amount (msg_size m) k))
                 (filter (\<lambda>k. key_id k \<in> set ids) (quota_keys m)))))"

end
