(* ===== verification/Queue_Dsn.thy ===== *)
theory Queue_Dsn
  imports Queue_Message
begin

text \<open>
  Delivery status notifications (\<^verbatim>\<open>crates/smtp/src/queue/dsn.rs\<close>) and the queue
  strategies of the configuration that time them (\<^verbatim>\<open>common/src/network/mta.rs\<close>).

  What other crates do is an argument: the flags of the \<open>NOTIFY\<close> parameter
  (\<open>smtp_proto\<close>), the text of a date (\<open>mail_parser\<close>), and the MIME message that is
  built of the parts of a notification (\<open>mail_builder\<close>), which are the record
  \<open>dsn_message\<close>. A handler reads the clock once.
\<close>

section \<open>Queue strategies\<close>

record queue_strategy =
  st_retry :: "u64 list"
  st_notify :: "u64 list"
  st_expiry :: queue_expiry
  st_virtual_queue :: queue_name

definition default_schedule :: queue_strategy where
  "default_schedule =
     \<lparr>st_retry = [120, 300, 600, 900, 1800, 3600, 7200], st_notify = [86400, 259200],
      st_expiry = Ttl 432000, st_virtual_queue = DEFAULT_QUEUE_NAME\<rparr>"

text \<open>
  The configuration: the value of the expression that names the strategy of a recipient, the
  strategies by name, and the threads of the virtual queues.
\<close>

record queue_config =
  queue_expr :: "queue_envelope \<Rightarrow> string option"
  queue_strategies :: "string \<Rightarrow> queue_strategy option"
  virtual_queues :: "(queue_name \<times> usize) list"

definition get_queue_or_default :: "queue_config \<Rightarrow> string \<Rightarrow> queue_strategy" where
  "get_queue_or_default c name =
     (case queue_strategies c name of Some s \<Rightarrow> s | None \<Rightarrow> default_schedule)"

definition get_virtual_queue_or_default :: "queue_config \<Rightarrow> queue_name \<Rightarrow> usize" where
  "get_virtual_queue_or_default c q = (case map_of (virtual_queues c) q of Some n \<Rightarrow> n | None \<Rightarrow> 25)"

text \<open>The strategy of a recipient: the expression's value, or the name \<open>default\<close>.\<close>

definition strategy :: "queue_config \<Rightarrow> message \<Rightarrow> recipient \<Rightarrow> queue_strategy" where
  "strategy c m r =
     get_queue_or_default c
       (case queue_expr c (envelope_new m r) of Some s \<Rightarrow> s | None \<Rightarrow> ''default'')"

section \<open>The text of a notification\<close>

record notify_flags =
  notify_success :: u64
  notify_failure :: u64
  notify_delay :: u64
  notify_never :: u64

definition has_flag :: "recipient \<Rightarrow> u64 \<Rightarrow> bool" where
  "has_flag r flag \<longleftrightarrow> has_bits (rcpt_flags r) flag"

abbreviation CRLF :: string where "CRLF \<equiv> [CR, LF]"

definition squote :: "string \<Rightarrow> string" where
  "squote s = [CHR 0x27] @ s @ [CHR 0x27]"

definition word_text :: "'a::len word \<Rightarrow> string" where
  "word_text n = nat_to_string (unat n)"

definition esc_text :: "response \<Rightarrow> string" where
  "esc_text r = word_text (resp_esc r ! 0) @ ''.'' @ word_text (resp_esc r ! 1) @ ''.''
     @ word_text (resp_esc r ! 2)"

definition write_response :: "response \<Rightarrow> string" where
  "write_response r = filter (\<lambda>ch. ch \<noteq> LF \<and> ch \<noteq> CR) (resp_message r)"

definition response_write_dsn_status :: "response \<Rightarrow> string" where
  "response_write_dsn_status r =
     (if 0 < resp_esc r ! 0 then esc_text r
      else word_text (resp_code r div 100) @ ''.'' @ word_text (resp_code r div 10 mod 10) @ ''.''
        @ word_text (resp_code r mod 10))"

definition response_write_dsn_diagnostic :: "response \<Rightarrow> string" where
  "response_write_dsn_diagnostic r =
     ''Diagnostic-Code: smtp;'' @ word_text (resp_code r) @ '' '' @ write_response r @ CRLF"

definition host_write_dsn_text :: "host_response \<Rightarrow> string \<Rightarrow> string" where
  "host_write_dsn_text h addr =
     ''<'' @ addr @ ''> (delivered to '' @ squote (hostname h) @ '' with code ''
       @ word_text (resp_code (host_resp h)) @ '' ('' @ esc_text (host_resp h) @ '') ''
       @ squote (write_response (host_resp h)) @ '')'' @ CRLF"

definition unexpected_write_dsn_text :: "string \<Rightarrow> response \<Rightarrow> string \<Rightarrow> string \<Rightarrow> string" where
  "unexpected_write_dsn_text command r host addr =
     ''<'' @ addr @ ''> (host '' @ squote host @ '' rejected ''
       @ (if command \<noteq> [] then ''command '' @ squote command else ''transaction'')
       @ '' with code '' @ word_text (resp_code r) @ '' ('' @ esc_text r @ '') ''
       @ squote (write_response r) @ '')'' @ CRLF"

definition error_write_dsn_text :: "error_details \<Rightarrow> string \<Rightarrow> string" where
  "error_write_dsn_text e addr =
     (case details e of
        UnexpectedResponse command r \<Rightarrow> unexpected_write_dsn_text command r (entity e) addr
      | DnsError err \<Rightarrow>
          ''<'' @ addr @ ''> (failed to lookup '' @ squote (entity e) @ '': '' @ err @ '')'' @ CRLF
      | ConnectionError d \<Rightarrow>
          ''<'' @ addr @ ''> (connection to '' @ squote (entity e) @ '' failed: '' @ d @ '')'' @ CRLF
      | TlsError d \<Rightarrow>
          ''<'' @ addr @ ''> (TLS error from '' @ squote (entity e) @ '': '' @ d @ '')'' @ CRLF
      | DaneError d \<Rightarrow>
          ''<'' @ addr @ ''> (DANE failed to authenticate '' @ squote (entity e) @ '': '' @ d @ '')''
            @ CRLF
      | MtaStsError d \<Rightarrow>
          ''<'' @ addr @ ''> (MTA-STS failed to authenticate '' @ squote (entity e) @ '': '' @ d
            @ '')'' @ CRLF
      | RateLimited \<Rightarrow> ''<'' @ addr @ ''> (rate limited)'' @ CRLF
      | ConcurrencyLimited \<Rightarrow>
          ''<'' @ addr @ ''> (too many concurrent connections to remote server)'' @ CRLF
      | IoError err \<Rightarrow> ''<'' @ addr @ ''> (queue error: '' @ err @ '')'' @ CRLF)"

definition write_dsn_headers :: "(u64 \<Rightarrow> string) \<Rightarrow> message \<Rightarrow> string \<Rightarrow> string" where
  "write_dsn_headers rfc822 m reporting_mta =
     ''Reporting-MTA: dns;'' @ reporting_mta @ CRLF @ ''Arrival-Date: '' @ rfc822 (created m) @ CRLF
       @ (case env_id m of Some i \<Rightarrow> ''Original-Envelope-Id: '' @ i @ CRLF | None \<Rightarrow> []) @ CRLF"

definition recipient_write_dsn :: "recipient \<Rightarrow> string" where
  "recipient_write_dsn r =
     (case orcpt r of Some s \<Rightarrow> ''Original-Recipient: rfc822;'' @ s @ CRLF | None \<Rightarrow> [])
       @ ''Final-Recipient: rfc822;'' @ address r @ CRLF"

definition write_dsn_will_retry_until :: "(u64 \<Rightarrow> string) \<Rightarrow> u64 \<Rightarrow> u64 \<Rightarrow> recipient \<Rightarrow> string" where
  "write_dsn_will_retry_until rfc822 now cr r =
     (case expiration_time r cr of
        Some e \<Rightarrow> if now < e then ''Will-Retry-Until: '' @ rfc822 e @ CRLF else []
      | None \<Rightarrow> [])"

fun into_permanent :: "('t, 'e) status \<Rightarrow> ('t, 'e) status" where
  "into_permanent (TemporaryFailure v) = PermanentFailure v"
| "into_permanent v = v"

fun into_temporary :: "('t, 'e) status \<Rightarrow> ('t, 'e) status" where
  "into_temporary (PermanentFailure err) = TemporaryFailure err"
| "into_temporary v = v"

definition is_permanent :: "('t, 'e) status \<Rightarrow> bool" where
  "is_permanent s = (case s of PermanentFailure _ \<Rightarrow> True | _ \<Rightarrow> False)"

definition write_dsn_action :: "('t, 'e) status \<Rightarrow> string" where
  "write_dsn_action s =
     ''Action: ''
       @ (case s of
            Completed _ \<Rightarrow> ''delivered''
          | PermanentFailure _ \<Rightarrow> ''failed''
          | TemporaryFailure _ \<Rightarrow> ''delayed''
          | Scheduled \<Rightarrow> ''delayed'') @ CRLF"

definition failure_dsn_status :: "error_details \<Rightarrow> string \<Rightarrow> string" where
  "failure_dsn_status err generic =
     (case details err of UnexpectedResponse _ r \<Rightarrow> response_write_dsn_status r | _ \<Rightarrow> generic)"

definition write_dsn_status :: "delivery_status \<Rightarrow> string" where
  "write_dsn_status s =
     ''Status: ''
       @ (case s of
            Completed r \<Rightarrow> response_write_dsn_status (host_resp r)
          | TemporaryFailure err \<Rightarrow> failure_dsn_status err ''4.0.0''
          | PermanentFailure err \<Rightarrow> failure_dsn_status err ''5.0.0''
          | Scheduled \<Rightarrow> ''4.0.0'') @ CRLF"

definition failure_remote_mta :: "error_details \<Rightarrow> string" where
  "failure_remote_mta err =
     (let line = ''Remote-MTA: dns;'' @ entity err @ CRLF in
      case details err of
        UnexpectedResponse _ _ \<Rightarrow> line
      | ConnectionError _ \<Rightarrow> line
      | TlsError _ \<Rightarrow> line
      | DaneError _ \<Rightarrow> line
      | _ \<Rightarrow> [])"

definition write_dsn_remote_mta :: "delivery_status \<Rightarrow> string" where
  "write_dsn_remote_mta s =
     (case s of
        Completed r \<Rightarrow> ''Remote-MTA: dns;'' @ hostname r @ CRLF
      | TemporaryFailure err \<Rightarrow> failure_remote_mta err
      | PermanentFailure err \<Rightarrow> failure_remote_mta err
      | Scheduled \<Rightarrow> [])"

definition failure_diagnostic :: "error_details \<Rightarrow> string" where
  "failure_diagnostic err =
     (case details err of UnexpectedResponse _ r \<Rightarrow> response_write_dsn_diagnostic r | _ \<Rightarrow> [])"

definition write_dsn_diagnostic :: "delivery_status \<Rightarrow> string" where
  "write_dsn_diagnostic s =
     (case s of
        PermanentFailure err \<Rightarrow> failure_diagnostic err
      | TemporaryFailure err \<Rightarrow> failure_diagnostic err
      | _ \<Rightarrow> [])"

definition status_write_dsn :: "delivery_status \<Rightarrow> string" where
  "status_write_dsn s =
     write_dsn_action s @ write_dsn_status s @ write_dsn_diagnostic s @ write_dsn_remote_mta s"

section \<open>Building a notification\<close>

text \<open>The per-recipient part of the report and the lists of recipients of its text.\<close>

record dsn_parts =
  dsn_report :: string
  txt_success :: string
  txt_delay :: string
  txt_failed :: string

definition mark_dsn_sent :: "recipient \<Rightarrow> recipient" where
  "mark_dsn_sent r = r\<lparr>rcpt_flags := rcpt_flags r OR RCPT_DSN_SENT\<rparr>"

definition add_report :: "string \<Rightarrow> dsn_parts \<Rightarrow> dsn_parts" where
  "add_report s p = p\<lparr>dsn_report := dsn_report p @ s @ CRLF\<rparr>"

definition dsn_recipient ::
    "notify_flags \<Rightarrow> (u64 \<Rightarrow> string) \<Rightarrow> u64 \<Rightarrow> u64 \<Rightarrow> recipient \<Rightarrow> dsn_parts \<Rightarrow> recipient \<times> dsn_parts" where
  "dsn_recipient nf rfc822 now cr r p =
     (if has_flag r (RCPT_DSN_SENT OR notify_never nf) then (r, p)
      else case rcpt_status r of
        Completed resp \<Rightarrow>
          (let r' = mark_dsn_sent r in
           if \<not> has_flag r' (notify_success nf) then (r', p)
           else (r', (add_report (recipient_write_dsn r' @ status_write_dsn (rcpt_status r')) p)
                       \<lparr>txt_success := txt_success p @ host_write_dsn_text resp (address r')\<rparr>))
      | TemporaryFailure err \<Rightarrow>
          if due (notify r) \<le> now \<and> has_flag r (notify_delay nf) then
            (r, (add_report (recipient_write_dsn r @ status_write_dsn (rcpt_status r)
                   @ write_dsn_will_retry_until rfc822 now cr r) p)
                  \<lparr>txt_delay := txt_delay p @ error_write_dsn_text err (address r)\<rparr>)
          else (r, p)
      | PermanentFailure err \<Rightarrow>
          (let r' = mark_dsn_sent r in
           if \<not> has_flag r' (notify_failure nf) then (r', p)
           else (r', (add_report (recipient_write_dsn r' @ status_write_dsn (rcpt_status r')) p)
                       \<lparr>txt_failed := txt_failed p @ error_write_dsn_text err (address r')\<rparr>))
      | Scheduled \<Rightarrow>
          if due (notify r) \<le> now \<and> has_flag r (notify_delay nf) then
            (r, (add_report (recipient_write_dsn r @ status_write_dsn (rcpt_status r)
                   @ write_dsn_will_retry_until rfc822 now cr r) p)
                  \<lparr>txt_delay := txt_delay p
                     @ error_write_dsn_text \<lparr>entity = ''localhost'', details = ConcurrencyLimited\<rparr>
                         (address r)\<rparr>)
          else (r, p))"

fun dsn_recipients ::
    "notify_flags \<Rightarrow> (u64 \<Rightarrow> string) \<Rightarrow> u64 \<Rightarrow> u64 \<Rightarrow> recipient list \<Rightarrow> dsn_parts \<Rightarrow> recipient list \<times> dsn_parts" where
  "dsn_recipients nf rfc822 now cr [] p = ([], p)"
| "dsn_recipients nf rfc822 now cr (r # rs) p =
     (let (r', p') = dsn_recipient nf rfc822 now cr r p;
          (rs', p'') = dsn_recipients nf rfc822 now cr rs p'
      in (r' # rs', p''))"

definition dsn_subject :: "dsn_parts \<Rightarrow> string \<times> string \<times> bool" where
  "dsn_subject p =
     (let has_success = txt_success p \<noteq> []; has_delay = txt_delay p \<noteq> [];
          has_failure = txt_failed p \<noteq> [] in
      if has_success \<and> \<not> has_delay \<and> \<not> has_failure then
        (''Your message has been successfully delivered to the following recipients:'' @ CRLF @ CRLF,
         ''Successfully delivered message'', False)
      else if has_delay \<and> \<not> has_success \<and> \<not> has_failure then
        (''There was a temporary problem delivering your message to the following recipients:''
           @ CRLF @ CRLF,
         ''Warning: Delay in message delivery'', False)
      else if has_failure \<and> \<not> has_success \<and> \<not> has_delay then
        (''Your message could not be delivered to the following recipients:'' @ CRLF @ CRLF,
         ''Failed to deliver message'', False)
      else if has_success then
        (''Your message has been partially delivered:'' @ CRLF @ CRLF,
         ''Partially delivered message'', True)
      else
        (''Your message could not be delivered to some recipients:'' @ CRLF @ CRLF,
         ''Warning: Temporary and permanent failures during message delivery'', True))"

definition dsn_section :: "bool \<Rightarrow> string \<Rightarrow> string \<Rightarrow> string" where
  "dsn_section is_mixed title txt =
     (if txt = [] then [] else (if is_mixed then title @ CRLF else []) @ txt @ CRLF)"

definition dsn_text :: "dsn_parts \<Rightarrow> string" where
  "dsn_text p =
     (let (intro, _, is_mixed) = dsn_subject p in
      intro
        @ dsn_section is_mixed
            ''    ----- Delivery to the following addresses was successful -----'' (txt_success p)
        @ dsn_section is_mixed
            ''    ----- There was a temporary problem delivering to these addresses -----'' (txt_delay p)
        @ dsn_section is_mixed
            ''    ----- Delivery to the following addresses failed -----'' (txt_failed p))"

text \<open>The header of the original message, cut at the first empty line.\<close>

definition MAX_HEADER_SIZE :: nat where "MAX_HEADER_SIZE = 4096"

fun header_scan :: "nat \<Rightarrow> char \<Rightarrow> nat \<Rightarrow> string \<Rightarrow> nat" where
  "header_scan pos prev_ch last_lf [] = last_lf"
| "header_scan pos prev_ch last_lf (ch # buf) =
     (if ch = LF then
        (if prev_ch \<noteq> LF then header_scan (pos + 1) ch (pos + 1) buf else pos + 1)
      else if ch = CR then header_scan (pos + 1) prev_ch last_lf buf
      else if ch = NUL then last_lf
      else header_scan (pos + 1) ch last_lf buf)"

definition dsn_original_headers :: "string \<Rightarrow> string" where
  "dsn_original_headers buf =
     (let last_lf = header_scan 0 NUL (length buf) buf;
          buf = (if last_lf < MAX_HEADER_SIZE then take last_lf buf else buf)
      in if utf8_valid buf then buf else [])"

record dsn_message =
  from_name :: string
  from_addr :: string
  dsn_to :: string
  subject :: string
  body_text :: string
  body_status :: string
  body_headers :: string

text \<open>
  What a notification takes of the server: the values of three expressions and the first bytes
  of the message's blob (\<open>None\<close> when it is not found or cannot be read).
\<close>

record dsn_env =
  nflags :: notify_flags
  rfc822_date :: "u64 \<Rightarrow> string"
  dsn_name :: "string option"
  dsn_address :: "string option"
  submitter :: "string option"
  blob_prefix :: "string \<Rightarrow> string option"

definition dsn_build :: "dsn_env \<Rightarrow> message \<Rightarrow> dsn_parts \<Rightarrow> dsn_message" where
  "dsn_build e m p =
     (let (_, subj, _) = dsn_subject p;
          reporting_mta = (case submitter e of Some s \<Rightarrow> s | None \<Rightarrow> ''localhost'')
      in \<lparr>from_name = (case dsn_name e of Some s \<Rightarrow> s | None \<Rightarrow> ''Mail Delivery Subsystem''),
          from_addr = (case dsn_address e of Some s \<Rightarrow> s | None \<Rightarrow> ''MAILER-DAEMON@localhost''),
          dsn_to = return_path m, subject = subj, body_text = dsn_text p,
          body_status = write_dsn_headers (rfc822_date e) m reporting_mta @ dsn_report p,
          body_headers =
            (case blob_prefix e (blob_hash m) of
               Some buf \<Rightarrow> dsn_original_headers buf | None \<Rightarrow> [])\<rparr>)"

definition no_parts :: dsn_parts where
  "no_parts = \<lparr>dsn_report = [], txt_success = [], txt_delay = [], txt_failed = []\<rparr>"

definition build_dsn :: "dsn_env \<Rightarrow> u64 \<Rightarrow> message \<Rightarrow> message \<times> dsn_message option" where
  "build_dsn e now m =
     (let (rs, p) = dsn_recipients (nflags e) (rfc822_date e) now (created m) (recipients m) no_parts;
          m' = m\<lparr>recipients := rs\<rparr>
      in (m', if txt_success p = [] \<and> txt_delay p = [] \<and> txt_failed p = [] then None
              else Some (dsn_build e m' p)))"

section \<open>The time of the next notification\<close>

definition U64_MAX :: u64 where "U64_MAX = - 1"

definition next_notify :: "queue_config \<Rightarrow> u64 \<Rightarrow> message \<Rightarrow> recipient \<Rightarrow> recipient" where
  "next_notify c now m r =
     (if pending r \<and> due (notify r) \<le> now then
        (let st = strategy c m r; i = unat (inner (notify r) + 1) in
         if i < length (st_notify st)
         then r\<lparr>notify := \<lparr>due = now + st_notify st ! i, inner = inner (notify r) + 1\<rparr>\<rparr>
         else r\<lparr>notify := (notify r)\<lparr>due := U64_MAX\<rparr>\<rparr>)
      else r)"

definition update_next_dsn :: "queue_config \<Rightarrow> u64 \<Rightarrow> message \<Rightarrow> message" where
  "update_next_dsn c now m = m\<lparr>recipients := map (next_notify c now m) (recipients m)\<rparr>"

definition double_bounce :: "notify_flags \<Rightarrow> u64 \<Rightarrow> u64 \<Rightarrow> recipient \<Rightarrow> recipient" where
  "double_bounce nf now cr r =
     (let r = (if \<not> has_flag r (RCPT_DSN_SENT OR notify_never nf) \<and> is_permanent (rcpt_status r)
               then mark_dsn_sent r else r)
      in if due (notify r) \<le> now
         then r\<lparr>notify := (notify r)\<lparr>due :=
                (case expiration_time r cr of Some d \<Rightarrow> d + 10 | None \<Rightarrow> U64_MAX)\<rparr>\<rparr>
         else r)"

definition handle_double_bounce :: "notify_flags \<Rightarrow> u64 \<Rightarrow> message \<Rightarrow> message" where
  "handle_double_bounce nf now m =
     m\<lparr>recipients := map (double_bounce nf now (created m)) (recipients m)\<rparr>"

text \<open>\<open>send_dsn\<close>: the message afterwards and the notification to queue.\<close>

definition send_dsn :: "dsn_env \<Rightarrow> queue_config \<Rightarrow> u64 \<Rightarrow> message \<Rightarrow> message \<times> dsn_message option" where
  "send_dsn e c now m =
     (let (m', dsn) =
        (if return_path m \<noteq> [] then build_dsn e now m
         else (handle_double_bounce (nflags e) now m, None))
      in (update_next_dsn c now m', dsn))"

end
