(* ===== verification/Queue_Spool.thy ===== *)
theory Queue_Spool
  imports Queue_Quota Queue_Dsn Store_Keys
    "HOL-Library.Product_Lexorder" "HOL-Library.List_Lexorder" "HOL-Library.Char_ord"
begin

text \<open>
  The queue in the store (\<^verbatim>\<open>crates/smtp/src/queue/spool.rs\<close>): messages by id, events
  in the order of their keys, the quota counters, and the links of the blobs that hold the text.
  A batch of operations is applied as a whole or not at all. Whether the back end accepts a
  write, and what resolves and hashes, are arguments. A message is stored as itself: the
  archive that serializes it is a library.
\<close>

section \<open>The store\<close>

type_synonym queue_event = "u64 \<times> queue_id \<times> queue_name"

datatype blob_key = LinkTemporary string u64 | LinkId string u64 | BlobCommit string

datatype blob_value = NoValue | SampleObject u64

record spam_sample =
  sample_hash :: string
  sample_expires :: u64
  sample_from :: string
  sample_is_spam :: bool
  sample_subject :: string

record queue_store =
  st_messages :: "queue_id \<Rightarrow> message option"
  st_events :: "queue_event list"
  st_counters :: counters
  st_blob_keys :: "blob_key \<Rightarrow> blob_value option"
  st_samples :: "u64 \<Rightarrow> spam_sample option"
  st_sample_index :: "u64 set"

datatype queue_op =
    AddCounter quota_counter u64
  | SetEvent queue_event
  | ClearEvent queue_event
  | SetMessage queue_id message
  | MergeMessage queue_id queue_name message
  | ClearMessage queue_id
  | SetBlob blob_key blob_value
  | ClearBlob blob_key
  | SetSample u64 spam_sample
  | SetSampleIndex u64

definition event_set :: "queue_event \<Rightarrow> queue_event list \<Rightarrow> queue_event list" where
  "event_set e es = (if e \<in> set es then es else insort e es)"

definition event_clear :: "queue_event \<Rightarrow> queue_event list \<Rightarrow> queue_event list" where
  "event_clear e es = filter (\<lambda>x. x \<noteq> e) es"

text \<open>
  The update of a message that several virtual queues share: only the recipients of the named
  queue are taken from the new copy.
\<close>

definition merge_recipients :: "queue_name \<Rightarrow> recipient list \<Rightarrow> recipient list \<Rightarrow> recipient list" where
  "merge_recipients q new cur = map2 (\<lambda>n c. if queue n = q then n else c) new cur"

definition merge_message :: "queue_name \<Rightarrow> message \<Rightarrow> message \<Rightarrow> message option" where
  "merge_message q new cur =
     (if blob_hash cur = blob_hash new \<and> length (recipients cur) = length (recipients new)
      then Some (cur\<lparr>recipients := merge_recipients q (recipients new) (recipients cur)\<rparr>)
      else None)"

fun apply_op :: "queue_op \<Rightarrow> queue_store \<Rightarrow> queue_store option" where
  "apply_op (AddCounter c n) st = Some (st\<lparr>st_counters := (st_counters st)(c := st_counters st c + n)\<rparr>)"
| "apply_op (SetEvent e) st = Some (st\<lparr>st_events := event_set e (st_events st)\<rparr>)"
| "apply_op (ClearEvent e) st = Some (st\<lparr>st_events := event_clear e (st_events st)\<rparr>)"
| "apply_op (SetMessage i m) st = Some (st\<lparr>st_messages := (st_messages st)(i \<mapsto> m)\<rparr>)"
| "apply_op (MergeMessage i q new) st =
     (case st_messages st i of
        None \<Rightarrow> None
      | Some cur \<Rightarrow>
          map_option (\<lambda>m. st\<lparr>st_messages := (st_messages st)(i \<mapsto> m)\<rparr>) (merge_message q new cur))"
| "apply_op (ClearMessage i) st = Some (st\<lparr>st_messages := (st_messages st)(i := None)\<rparr>)"
| "apply_op (SetBlob k v) st = Some (st\<lparr>st_blob_keys := (st_blob_keys st)(k \<mapsto> v)\<rparr>)"
| "apply_op (ClearBlob k) st = Some (st\<lparr>st_blob_keys := (st_blob_keys st)(k := None)\<rparr>)"
| "apply_op (SetSample i s) st = Some (st\<lparr>st_samples := (st_samples st)(i \<mapsto> s)\<rparr>)"
| "apply_op (SetSampleIndex i) st = Some (st\<lparr>st_sample_index := insert i (st_sample_index st)\<rparr>)"

fun apply_ops :: "queue_op list \<Rightarrow> queue_store \<Rightarrow> queue_store option" where
  "apply_ops [] st = Some st"
| "apply_ops (x # xs) st = (case apply_op x st of None \<Rightarrow> None | Some st \<Rightarrow> apply_ops xs st)"

text \<open>The result of a write: whether it succeeded, and the store afterwards.\<close>

definition store_write :: "bool \<Rightarrow> queue_op list \<Rightarrow> queue_store \<Rightarrow> bool \<times> queue_store" where
  "store_write accepted xs st =
     (if accepted then (case apply_ops xs st of Some st' \<Rightarrow> (True, st') | None \<Rightarrow> (False, st))
      else (False, st))"

section \<open>Messages\<close>

definition new_message :: "(string \<Rightarrow> string) \<Rightarrow> queue_id \<Rightarrow> u64 \<Rightarrow> string \<Rightarrow> u64 \<Rightarrow> message_wrapper" where
  "new_message lower i now from span =
     \<lparr>queue_id = i, queue_name = DEFAULT_QUEUE_NAME, is_multi_queue = False, span_id = span,
      message = \<lparr>created = now, blob_hash = replicate 32 NUL,
        return_path = to_lowercase_domain lower from, recipients = [],
        received_from_ip = V4 [127, 0, 0, 1], received_via_port = 0, msg_flags = 0, env_id = None,
        priority = 0, msg_size = 0, quota_keys = []\<rparr>\<rparr>"

definition wrapper_new :: "message \<Rightarrow> queue_id \<Rightarrow> queue_name \<Rightarrow> message_wrapper" where
  "wrapper_new m i q =
     \<lparr>queue_id = i, queue_name = q,
      is_multi_queue = list_ex (\<lambda>r. pending r \<and> queue r \<noteq> q) (recipients m),
      span_id = 0, message = m\<rparr>"

definition read_message :: "queue_store \<Rightarrow> queue_id \<Rightarrow> queue_name \<Rightarrow> message_wrapper option" where
  "read_message st i q = map_option (\<lambda>m. wrapper_new m i q) (st_messages st i)"

text \<open>What \<open>rcpt_resolve\<close> of the server answers.\<close>

datatype rcpt_resolution = Rewrite string | Expand "string list" | OtherResolution | ResolveError

definition add_expanded_recipient ::
    "(string \<Rightarrow> string) \<Rightarrow> queue_config \<Rightarrow> u64 \<Rightarrow> string \<Rightarrow> message \<Rightarrow> message" where
  "add_expanded_recipient lower c now rcpt m =
     (let r = recipient_new lower now rcpt;
          m' = m\<lparr>recipients := recipients m @ [r]\<rparr>;
          st = strategy c m' r;
          first = (case st_notify st of [] \<Rightarrow> 86400 | n # _ \<Rightarrow> n)
      in m\<lparr>recipients := recipients m
             @ [r\<lparr>notify := schedule_later now (first + now), expires := st_expiry st,
                  queue := st_virtual_queue st\<rparr>]\<rparr>)"

definition expand_and_add_recipient :: "(string \<Rightarrow> string) \<Rightarrow> (string \<Rightarrow> rcpt_resolution) \<Rightarrow>
    queue_config \<Rightarrow> u64 \<Rightarrow> string \<Rightarrow> message \<Rightarrow> message" where
  "expand_and_add_recipient lower resolve c now rcpt m =
     (case resolve (lower rcpt) of
        Rewrite rewritten \<Rightarrow> add_expanded_recipient lower c now rewritten m
      | Expand addrs \<Rightarrow> fold (add_expanded_recipient lower c now) addrs m
      | OtherResolution \<Rightarrow> add_expanded_recipient lower c now rcpt m
      | ResolveError \<Rightarrow> add_expanded_recipient lower c now rcpt m)"

section \<open>Queueing\<close>

datatype message_source =
    Authenticated
  | Unauthenticated bool "(bool \<times> string) option"
  | Dsn
  | Report
  | Autogenerated

definition source_flags :: "message_source \<Rightarrow> u64 \<times> (bool \<times> string) option" where
  "source_flags s =
     (case s of
        Authenticated \<Rightarrow> (FROM_AUTHENTICATED, None)
      | Unauthenticated dmarc_pass train_spam \<Rightarrow>
          (if dmarc_pass then FROM_UNAUTHENTICATED_DMARC else FROM_UNAUTHENTICATED, train_spam)
      | Dsn \<Rightarrow> (FROM_DSN, None)
      | Report \<Rightarrow> (FROM_REPORT, None)
      | Autogenerated \<Rightarrow> (FROM_AUTOGENERATED, None))"

definition reserve_ops :: "message \<Rightarrow> queue_op list" where
  "reserve_ops m = map (\<lambda>k. AddCounter (key_counter k) (key_amount (msg_size m) k)) (quota_keys m)"

definition set_event_ops :: "queue_id \<Rightarrow> message \<Rightarrow> queue_op list" where
  "set_event_ops i m = map (\<lambda>(q, d). SetEvent (d, i, q)) (next_events m)"

definition sample_ops :: "u64 option \<Rightarrow> u64 \<Rightarrow> u64 \<Rightarrow> message \<Rightarrow> (bool \<times> string) option \<Rightarrow> queue_op list" where
  "sample_ops hold_samples_for now item_id m train =
     (case (train, hold_samples_for) of
        (Some (is_spam, subj), Some hold) \<Rightarrow>
          [SetBlob (LinkTemporary (blob_hash m) (now + hold)) (SampleObject item_id),
           SetSample item_id \<lparr>sample_hash = blob_hash m, sample_expires = now + hold,
             sample_from = return_path m, sample_is_spam = is_spam, sample_subject = subj\<rparr>,
           SetSampleIndex item_id]
      | _ \<Rightarrow> [])"

text \<open>The writes of \<open>queue\<close> that can fail, and what it takes of the server.\<close>

record queue_io =
  link_ok :: bool
  put_blob_ok :: bool
  serialize_ok :: bool
  commit_ok :: bool
  blob_hash_of :: "string \<Rightarrow> string"
  hold_samples_for :: "u64 option"
  sample_item_id :: u64

text \<open>The result: success, the store, and whether the queue manager was asked to refresh.\<close>

definition queue_prepare :: "queue_io \<Rightarrow> message_source \<Rightarrow> string \<Rightarrow> message \<Rightarrow> message" where
  "queue_prepare io source text m =
     m\<lparr>msg_flags := msg_flags m OR fst (source_flags source), blob_hash := blob_hash_of io text,
       msg_size := (if msg_size m = 0 then of_nat (length text) else msg_size m)\<rparr>"

definition queue_ops :: "queue_io \<Rightarrow> u64 \<Rightarrow> message_source \<Rightarrow> queue_id \<Rightarrow> message \<Rightarrow> queue_op list" where
  "queue_ops io now source i m =
     reserve_ops m @ set_event_ops i m
       @ sample_ops (hold_samples_for io) now (sample_item_id io) m (snd (source_flags source))
       @ [ClearBlob (LinkTemporary (blob_hash m) (now + 120)), SetBlob (LinkId (blob_hash m) i) NoValue,
          SetBlob (BlobCommit (blob_hash m)) NoValue, SetMessage i m]"

definition queue_message :: "queue_io \<Rightarrow> u64 \<Rightarrow> string option \<Rightarrow> string \<Rightarrow> message_source \<Rightarrow>
    message_wrapper \<Rightarrow> queue_store \<Rightarrow> bool \<times> queue_store \<times> bool" where
  "queue_message io now raw_headers raw_message source w st =
     (let text = (case raw_headers of Some h \<Rightarrow> h @ raw_message | None \<Rightarrow> raw_message);
          m = queue_prepare io source text (message w);
          (ok, st) = store_write (link_ok io)
             [SetBlob (LinkTemporary (blob_hash m) (now + 120)) NoValue] st
      in if \<not> ok then (False, st, False)
         else if \<not> put_blob_ok io then (False, st, False)
         else if \<not> serialize_ok io then (False, st, False)
         else
           (let (ok, st) = store_write (commit_ok io) (queue_ops io now source (queue_id w) m) st
            in if ok then (True, st, True) else (False, st, False)))"

section \<open>Saving and removing\<close>

definition release_ops :: "message \<Rightarrow> queue_op list" where
  "release_ops m = map (\<lambda>(c, n). AddCounter c n) (snd (release_quota m))"

definition save_ops :: "u64 option \<Rightarrow> message_wrapper \<Rightarrow> queue_op list" where
  "save_ops prev_event w =
     (let m = message w; m' = fst (release_quota m); i = queue_id w in
      release_ops m
        @ (case prev_event of Some d \<Rightarrow> [ClearEvent (d, i, queue_name w)] | None \<Rightarrow> [])
        @ set_event_ops i m'
        @ [if is_multi_queue w then MergeMessage i (queue_name w) m' else SetMessage i m'])"

definition save_changes :: "bool \<Rightarrow> u64 option \<Rightarrow> message_wrapper \<Rightarrow> queue_store \<Rightarrow> bool \<times> queue_store" where
  "save_changes accepted prev_event w st = store_write accepted (save_ops prev_event w) st"

definition release_all_ops :: "message \<Rightarrow> queue_op list" where
  "release_all_ops m =
     map (\<lambda>k. AddCounter (key_counter k) (- key_amount (msg_size m) k)) (quota_keys m)"

definition remove_ops :: "u64 option \<Rightarrow> message_wrapper \<Rightarrow> queue_op list" where
  "remove_ops prev_event w =
     (let m = message w; i = queue_id w in
      (case prev_event of
         Some d \<Rightarrow> [ClearEvent (d, i, queue_name w)]
       | None \<Rightarrow> map (\<lambda>(q, d). ClearEvent (d, i, q)) (next_events m))
        @ release_all_ops m
        @ [ClearBlob (LinkId (blob_hash m) i), ClearMessage i])"

definition remove_message :: "bool \<Rightarrow> u64 option \<Rightarrow> message_wrapper \<Rightarrow> queue_store \<Rightarrow> bool \<times> queue_store" where
  "remove_message accepted prev_event w st = store_write accepted (remove_ops prev_event w) st"

end
