(* ===== verification/Queue_Delivery.thy ===== *)
theory Queue_Delivery
  imports Queue_Spool
begin

text \<open>
  A delivery attempt (\<^verbatim>\<open>crates/smtp/src/outbound/delivery.rs\<close>, \<^verbatim>\<open>local.rs\<close>) and
  the statuses that it leaves (\<^verbatim>\<open>outbound/mod.rs\<close>, \<^verbatim>\<open>outbound/error.rs\<close>).
  What the hosts of a route answer is an argument; everything that the attempt does to the
  message and to the queue is modelled.
\<close>

section \<open>Errors of the client\<close>

text \<open>The wrapped errors of libraries are their \<open>Display\<close> text.\<close>

datatype client_error =
    ClientIo string
  | ClientTls string
  | ClientBase64 string
  | InvalidChallenge
  | UnparseableReply
  | UnexpectedReply response
  | AuthenticationFailed response
  | InvalidTLSName
  | MissingCredentials
  | MissingMailFrom
  | MissingRcptTo
  | UnsupportedAuthMechanism
  | ClientTimeout
  | MissingStartTls

fun client_error_display :: "(response \<Rightarrow> string) \<Rightarrow> client_error \<Rightarrow> string" where
  "client_error_display show (ClientIo e) = ''I/O error: '' @ e"
| "client_error_display show (ClientTls e) = ''TLS error: '' @ e"
| "client_error_display show (ClientBase64 e) = ''Base64 decode error: '' @ e"
| "client_error_display show InvalidChallenge = ''SMTP authentication error: Invalid challenge''"
| "client_error_display show UnparseableReply = ''Unparseable SMTP reply''"
| "client_error_display show (UnexpectedReply e) = ''Unexpected reply: '' @ show e"
| "client_error_display show (AuthenticationFailed e) = ''Authentication failed: '' @ show e"
| "client_error_display show InvalidTLSName = ''Invalid TLS name provided''"
| "client_error_display show MissingCredentials = ''Missing authentication credentials''"
| "client_error_display show MissingMailFrom = ''Missing message sender''"
| "client_error_display show MissingRcptTo = ''Missing message recipients''"
| "client_error_display show UnsupportedAuthMechanism =
     ''The server does no support any of the available authentication methods''"
| "client_error_display show ClientTimeout = ''Connection timeout''"
| "client_error_display show MissingStartTls = ''STARTTLS extension unavailable''"

text \<open>\<open>severity\<close> of \<open>smtp_proto\<close>\<close>

datatype severity =
    PositiveCompletion
  | PositiveIntermediate
  | TransientNegativeCompletion
  | PermanentNegativeCompletion
  | InvalidSeverity

definition is_positive_completion :: "response \<Rightarrow> bool" where
  "is_positive_completion r \<longleftrightarrow> 200 \<le> resp_code r \<and> resp_code r \<le> 299"

definition assert_positive_completion :: "response \<Rightarrow> client_error option" where
  "assert_positive_completion r =
     (if 200 \<le> resp_code r \<and> resp_code r \<le> 299 then None else Some (UnexpectedReply r))"

definition assert_severity :: "(response \<Rightarrow> severity) \<Rightarrow> severity \<Rightarrow> response \<Rightarrow> client_error option" where
  "assert_severity sev s r = (if sev r = s then None else Some (UnexpectedReply r))"

definition assert_code :: "u16 \<Rightarrow> response \<Rightarrow> client_error option" where
  "assert_code c r = (if resp_code r = c then None else Some (UnexpectedReply r))"

text \<open>What these functions take of \<open>smtp_proto\<close>.\<close>

record proto =
  pr_severity :: "response \<Rightarrow> severity"
  pr_show :: "response \<Rightarrow> string"
  pr_trim :: "string \<Rightarrow> string"

definition temporary :: "string \<Rightarrow> delivery_error \<Rightarrow> delivery_status" where
  "temporary host e = TemporaryFailure \<lparr>entity = host, details = e\<rparr>"

definition permanent :: "string \<Rightarrow> delivery_error \<Rightarrow> delivery_status" where
  "permanent host e = PermanentFailure \<lparr>entity = host, details = e\<rparr>"

text \<open>The status of a negative response.\<close>

definition rejected :: "proto \<Rightarrow> string \<Rightarrow> string \<Rightarrow> response \<Rightarrow> delivery_status" where
  "rejected p host command r =
     (if pr_severity p r = PermanentNegativeCompletion
      then permanent host (UnexpectedResponse command r)
      else temporary host (UnexpectedResponse command r))"

definition from_smtp_error :: "proto \<Rightarrow> string \<Rightarrow> string \<Rightarrow> client_error \<Rightarrow> delivery_status" where
  "from_smtp_error p host command err =
     (let text = ConnectionError (client_error_display (pr_show p) err) in
      case err of
        UnexpectedReply r \<Rightarrow> rejected p host (pr_trim p command) r
      | InvalidChallenge \<Rightarrow> permanent host text
      | UnsupportedAuthMechanism \<Rightarrow> permanent host text
      | InvalidTLSName \<Rightarrow> permanent host text
      | MissingStartTls \<Rightarrow> permanent host text
      | _ \<Rightarrow> temporary host text)"

definition from_starttls_error :: "proto \<Rightarrow> string \<Rightarrow> response option \<Rightarrow> delivery_status" where
  "from_starttls_error p host r =
     (case r of
        Some r \<Rightarrow> rejected p host ''STARTTLS'' r
      | None \<Rightarrow> permanent host (TlsError ''STARTTLS not advertised by host.''))"

definition from_tls_error :: "string \<Rightarrow> client_error \<Rightarrow> delivery_status" where
  "from_tls_error host err =
     (case err of
        InvalidTLSName \<Rightarrow> permanent host (TlsError ''Invalid hostname'')
      | ClientTimeout \<Rightarrow> temporary host (TlsError ''TLS handshake timed out'')
      | ClientTls e \<Rightarrow> temporary host (TlsError (''Handshake failed: '' @ e))
      | ClientIo e \<Rightarrow> temporary host (TlsError (''I/O error: '' @ e))
      | _ \<Rightarrow> permanent host (TlsError ''Other TLS error''))"

definition status_timeout :: "string \<Rightarrow> string \<Rightarrow> delivery_status" where
  "status_timeout host stage = temporary host (ConnectionError (''Timeout while '' @ stage))"

definition local_error :: delivery_status where
  "local_error = temporary ''localhost'' (ConnectionError ''Could not deliver message locally.'')"

text \<open>The errors of \<open>mail_auth\<close> and \<open>reqwest\<close> that the code tells apart, with their text.\<close>

datatype mail_auth_error = DnsRecordNotFound string | InvalidRecordType string | OtherDnsError string

definition mail_auth_text :: "mail_auth_error \<Rightarrow> string" where
  "mail_auth_text e =
     (case e of DnsRecordNotFound s \<Rightarrow> s | InvalidRecordType s \<Rightarrow> s | OtherDnsError s \<Rightarrow> s)"

definition from_mail_auth_error :: "string \<Rightarrow> mail_auth_error \<Rightarrow> delivery_status" where
  "from_mail_auth_error host err =
     (case err of
        DnsRecordNotFound kind \<Rightarrow> permanent host (DnsError (''Domain not found: '' @ kind))
      | _ \<Rightarrow> temporary host (DnsError (mail_auth_text err)))"

record http_error =
  is_timeout :: bool
  is_connect :: bool
  is_status :: bool
  status_not_found :: bool

datatype mta_sts_error = MtaStsDns mail_auth_error | MtaStsHttp http_error | InvalidPolicy string

definition from_mta_sts_error :: "string \<Rightarrow> mta_sts_error \<Rightarrow> delivery_status" where
  "from_mta_sts_error host err =
     (case err of
        MtaStsDns e \<Rightarrow>
          (case e of
             DnsRecordNotFound kind \<Rightarrow> permanent host (MtaStsError (''Record not found: '' @ kind))
           | InvalidRecordType _ \<Rightarrow>
               permanent host (MtaStsError ''Failed to parse MTA-STS DNS record.'')
           | OtherDnsError s \<Rightarrow> temporary host (MtaStsError (''DNS lookup error: '' @ s)))
      | MtaStsHttp e \<Rightarrow>
          (if is_timeout e then temporary host (MtaStsError ''Timeout fetching policy.'')
           else if is_connect e then temporary host (MtaStsError ''Could not reach policy host.'')
           else if is_status e \<and> status_not_found e then
             permanent host (MtaStsError ''Policy not found.'')
           else temporary host (MtaStsError ''Failed to fetch policy.''))
      | InvalidPolicy s \<Rightarrow> permanent host (MtaStsError (''Failed to parse policy: '' @ s)))"

section \<open>Delivery results\<close>

datatype delivery_result =
    DomainResult delivery_status "nat list"
  | AccountResult delivery_status nat
  | RateLimitedResult "nat list" u64

text \<open>The status of a recipient after an attempt; \<open>retry\<close> of a strategy is not empty.\<close>

definition set_rcpt_status :: "queue_config \<Rightarrow> u64 \<Rightarrow> delivery_status \<Rightarrow> nat \<Rightarrow> message \<Rightarrow> message" where
  "set_rcpt_status c now s idx m =
     (let r = (recipients m ! idx)\<lparr>rcpt_status := s\<rparr>;
          m1 = m\<lparr>recipients := (recipients m)[idx := r]\<rparr>
      in if status_pending s then
           (let st = strategy c m1 r;
                wait = st_retry st ! min (unat (inner (retry r))) (length (st_retry st) - 1)
            in m1\<lparr>recipients := (recipients m1)[idx :=
                 r\<lparr>retry := \<lparr>due = now + wait, inner = inner (retry r) + 1\<rparr>,
                   expires := st_expiry st, queue := st_virtual_queue st\<rparr>]\<rparr>)
         else m1)"

definition rate_limit_recipient :: "u64 \<Rightarrow> recipient \<Rightarrow> recipient" where
  "rate_limit_recipient retry_at r =
     r\<lparr>retry := (retry r)\<lparr>due := retry_at\<rparr>,
       rcpt_status := TemporaryFailure \<lparr>entity = ''localhost'', details = RateLimited\<rparr>\<rparr>"

definition set_rcpt_rate_limit :: "u64 \<Rightarrow> nat \<Rightarrow> message \<Rightarrow> message" where
  "set_rcpt_rate_limit retry_at idx m =
     m\<lparr>recipients := (recipients m)[idx := rate_limit_recipient retry_at (recipients m ! idx)]\<rparr>"

definition apply_result :: "queue_config \<Rightarrow> u64 \<Rightarrow> delivery_result \<Rightarrow> message \<Rightarrow> message" where
  "apply_result c now d m =
     (case d of
        DomainResult s idxs \<Rightarrow> fold (set_rcpt_status c now s) idxs m
      | AccountResult s idx \<Rightarrow> set_rcpt_status c now s idx m
      | RateLimitedResult idxs retry_at \<Rightarrow> fold (set_rcpt_rate_limit retry_at) idxs m)"

section \<open>Pending recipients\<close>

datatype pending_delivery = Yes bool | No

definition expire_recipient :: "u64 \<Rightarrow> u64 \<Rightarrow> recipient \<Rightarrow> recipient" where
  "expire_recipient cr now r =
     (case rcpt_status r of
        TemporaryFailure _ \<Rightarrow>
          if is_expired r cr now then r\<lparr>rcpt_status := into_permanent (rcpt_status r)\<rparr> else r
      | Scheduled \<Rightarrow>
          if is_expired r cr now then
            r\<lparr>rcpt_status := permanent (domain_part (address r))
                (IoError ''Message expired without any delivery attempts made.'')\<rparr>
          else r
      | _ \<Rightarrow> r)"

definition still_pending :: "u64 \<Rightarrow> u64 \<Rightarrow> recipient \<Rightarrow> bool" where
  "still_pending cr now r \<longleftrightarrow> pending r \<and> \<not> is_expired r cr now"

definition has_pending_delivery :: "u64 \<Rightarrow> message_wrapper \<Rightarrow> message_wrapper \<times> pending_delivery" where
  "has_pending_delivery now w =
     (let m = message w; rs = recipients m; left = filter (still_pending (created m) now) rs in
      (w\<lparr>message := m\<lparr>recipients := map (expire_recipient (created m) now) rs\<rparr>\<rparr>,
       if left \<noteq> [] then Yes (list_ex (\<lambda>r. queue r = queue_name w) left) else No))"

section \<open>Delivering to local mailboxes\<close>

datatype local_status = LocalSuccess | LocalTemporary string | LocalPermanent "u8 list" string

record ingest_recipient =
  ir_address :: string
  ir_orcpt :: "string option"
  ir_is_spam :: bool

definition ingest_recipients :: "(string \<Rightarrow> string) \<Rightarrow> message \<Rightarrow> nat list \<Rightarrow> ingest_recipient list" where
  "ingest_recipients lower m idxs =
     map (\<lambda>i. let r = recipients m ! i in
        \<lparr>ir_address = lower (address r), ir_orcpt = orcpt r,
         ir_is_spam = has_bits (rcpt_flags r) RCPT_SPAM_PAYLOAD\<rparr>) idxs"

definition sender_authenticated :: "message \<Rightarrow> bool" where
  "sender_authenticated m = has_bits (msg_flags m) (FROM_UNAUTHENTICATED_DMARC OR FROM_AUTHENTICATED)"

definition local_delivery_status :: "string \<Rightarrow> local_status \<Rightarrow> delivery_status" where
  "local_delivery_status addr s =
     (let command = ''RCPT TO:<'' @ addr @ ''>'' in
      case s of
        LocalSuccess \<Rightarrow>
          Completed \<lparr>hostname = ''localhost'',
            host_resp = \<lparr>resp_code = 250, resp_esc = [2, 1, 5], resp_message = ''OK''\<rparr>\<rparr>
      | LocalTemporary reason \<Rightarrow>
          temporary ''localhost'' (UnexpectedResponse command
            \<lparr>resp_code = 451, resp_esc = [4, 3, 0], resp_message = reason\<rparr>)
      | LocalPermanent esc reason \<Rightarrow>
          permanent ''localhost'' (UnexpectedResponse command
            \<lparr>resp_code = 550, resp_esc = esc, resp_message = reason\<rparr>))"

definition local_results :: "message \<Rightarrow> nat list \<Rightarrow> local_status list \<Rightarrow> delivery_result list" where
  "local_results m idxs statuses =
     map2 (\<lambda>i s. AccountResult (local_delivery_status (address (recipients m ! i)) s) i) idxs statuses"

section \<open>The attempt\<close>

datatype event_status = WorkCompleted | WorkLocked | WorkDeferred

definition due_now :: "u64 \<Rightarrow> message_wrapper \<Rightarrow> recipient \<Rightarrow> bool" where
  "due_now now w r \<longleftrightarrow> pending r \<and> due (retry r) \<le> now \<and> queue r = queue_name w"

text \<open>
  The routes of an attempt: the recipients that are due, grouped by domain and route, in the
  order of their first recipient (the code iterates over a hash map).
\<close>

fun group_insert :: "'k \<Rightarrow> nat \<Rightarrow> ('k \<times> nat list) list \<Rightarrow> ('k \<times> nat list) list" where
  "group_insert k i [] = [(k, [i])]"
| "group_insert k i ((l, is) # gs) = (if l = k then (l, is @ [i]) # gs else (l, is) # group_insert k i gs)"

definition group_routes ::
    "(message \<Rightarrow> recipient \<Rightarrow> 'r) \<Rightarrow> u64 \<Rightarrow> message_wrapper \<Rightarrow> ((string \<times> 'r) \<times> nat list) list" where
  "group_routes route now w =
     (let m = message w in
      fold (\<lambda>(i, r) gs. if due_now now w r
                then group_insert (domain_part (address r), route m r) i gs else gs)
        (enumerate 0 (recipients m)) [])"

text \<open>
  The rest of the server: the sender's rate limits (the time of the next attempt when one
  refuses), the recipients' rate limits, the routes, what local mailboxes and remote hosts
  answer, and the quotas. A notification is rendered, signed and queued as a message of its own,
  with a new id; so are the messages that the filters of a local mailbox generate.
\<close>

record autogenerated =
  ag_sender :: string
  ag_recipients :: "string list"
  ag_message :: string

record ('r, 'f) delivery_env =
  de_dsn :: dsn_env
  de_config :: queue_config
  de_lower :: "string \<Rightarrow> string"
  de_resolve :: "string \<Rightarrow> rcpt_resolution"
  de_render :: "dsn_message \<Rightarrow> string"
  de_sign_dsn :: "message \<Rightarrow> string \<Rightarrow> string option"
  de_sign_sieve :: "message \<Rightarrow> string \<Rightarrow> string option"
  de_queue_io :: queue_io
  de_new_id :: "queue_store \<Rightarrow> queue_id"
  de_quota_env :: "'f quota_env"
  de_quotas :: "'f queue_quotas"
  de_show :: "response \<Rightarrow> string"
  de_sender_limits :: "(message \<Rightarrow> u64 option) list"
  de_rcpt_limits :: "(message \<Rightarrow> recipient \<Rightarrow> u64 option) list"
  de_route :: "message \<Rightarrow> recipient \<Rightarrow> 'r"
  de_order :: "((string \<times> 'r) \<times> nat list) list \<Rightarrow> ((string \<times> 'r) \<times> nat list) list"
  de_is_local :: "'r \<Rightarrow> bool"
  de_ingest :: "message \<Rightarrow> ingest_recipient list \<Rightarrow> local_status list \<times> autogenerated list"
  de_remote :: "message \<Rightarrow> string \<Rightarrow> 'r \<Rightarrow> nat list \<Rightarrow> delivery_result list"
  de_write_ok :: bool

text \<open>\<open>send_dsn\<close> with the notification put into the queue.\<close>

definition queue_dsn :: "('r, 'f) delivery_env \<Rightarrow> u64 \<Rightarrow> message_wrapper \<Rightarrow> dsn_message \<Rightarrow> queue_store \<Rightarrow> queue_store" where
  "queue_dsn e now w dsn st =
     (let text = de_render e dsn;
          new = new_message (de_lower e) (de_new_id e st) now [] (span_id w);
          new = new\<lparr>message := expand_and_add_recipient (de_lower e) (de_resolve e) (de_config e) now
                      (return_path (message w)) (message new)\<rparr>
      in fst (snd (queue_message (de_queue_io e) now (de_sign_dsn e (message w) text) text Dsn new st)))"

definition send_dsn_queued :: "('r, 'f) delivery_env \<Rightarrow> u64 \<Rightarrow> message_wrapper \<Rightarrow> queue_store \<Rightarrow>
    message_wrapper \<times> queue_store" where
  "send_dsn_queued e now w st =
     (let (m, dsn) = send_dsn (de_dsn e) (de_config e) now (message w)
      in (w\<lparr>message := m\<rparr>, case dsn of Some d \<Rightarrow> queue_dsn e now w d st | None \<Rightarrow> st))"

text \<open>The first limit that refuses.\<close>

fun first_refusal :: "('a \<Rightarrow> u64 option) list \<Rightarrow> 'a \<Rightarrow> u64 option" where
  "first_refusal [] x = None"
| "first_refusal (l # ls) x = (case l x of Some t \<Rightarrow> Some t | None \<Rightarrow> first_refusal ls x)"

text \<open>A message that a local mailbox generates, within its quotas.\<close>

definition queue_autogenerated ::
    "('r, 'f) delivery_env \<Rightarrow> u64 \<Rightarrow> message_wrapper \<Rightarrow> autogenerated \<Rightarrow> queue_store \<Rightarrow> queue_store" where
  "queue_autogenerated e now w a st =
     (let new = new_message (de_lower e) (de_new_id e st) now (ag_sender a) (span_id w);
          m = fold (expand_and_add_recipient (de_lower e) (de_resolve e) (de_config e) now)
                (ag_recipients a) (message new);
          signature = de_sign_sieve e m (ag_message a);
          m = m\<lparr>msg_size := of_nat (length (ag_message a)
                  + (case signature of Some s \<Rightarrow> length s | None \<Rightarrow> 0))\<rparr>
      in case has_quota (de_quota_env e) \<lparr>rc_show = de_show e, rc_now = now\<rparr> (de_quotas e)
                (st_counters st) (new\<lparr>message := m\<rparr>) of
           Some new \<Rightarrow>
             fst (snd (queue_message (de_queue_io e) now signature (ag_message a) Autogenerated new st))
         | None \<Rightarrow> st)"

definition deliver_local :: "('r, 'f) delivery_env \<Rightarrow> u64 \<Rightarrow> message_wrapper \<Rightarrow> nat list \<Rightarrow> queue_store \<Rightarrow>
    delivery_result list \<times> queue_store" where
  "deliver_local e now w idxs st =
     (let m = message w; (statuses, generated) = de_ingest e m (ingest_recipients (de_lower e) m idxs)
      in (local_results m idxs statuses, fold (queue_autogenerated e now w) generated st))"

definition deliver_route :: "('r, 'f) delivery_env \<Rightarrow> u64 \<Rightarrow> message_wrapper \<Rightarrow>
    (string \<times> 'r) \<times> nat list \<Rightarrow> queue_store \<Rightarrow> delivery_result list \<times> queue_store" where
  "deliver_route e now w g st =
     (case g of ((domain, route), idxs) \<Rightarrow>
        case first_refusal (map (\<lambda>l. l (message w)) (de_rcpt_limits e))
               (recipients (message w) ! hd idxs) of
          Some retry_at \<Rightarrow> ([RateLimitedResult idxs retry_at], st)
        | None \<Rightarrow>
            if de_is_local e route then deliver_local e now w idxs st
            else (de_remote e (message w) domain route idxs, st))"

fun deliver_routes :: "('r, 'f) delivery_env \<Rightarrow> u64 \<Rightarrow> message_wrapper \<Rightarrow>
    ((string \<times> 'r) \<times> nat list) list \<Rightarrow> queue_store \<Rightarrow> delivery_result list \<times> queue_store" where
  "deliver_routes e now w [] st = ([], st)"
| "deliver_routes e now w (g # gs) st =
     (let (rs, st) = deliver_route e now w g st; (rs', st) = deliver_routes e now w gs st
      in (rs @ rs', st))"

definition attempt :: "('r, 'f) delivery_env \<Rightarrow> u64 \<Rightarrow> message_wrapper \<Rightarrow> queue_store \<Rightarrow>
    message_wrapper \<times> queue_store" where
  "attempt e now w st =
     (let (results, st) = deliver_routes e now w (de_order e (group_routes (de_route e) now w)) st
      in (w\<lparr>message := fold (apply_result (de_config e) now) results (message w)\<rparr>, st))"

definition rate_limit_sender :: "u64 \<Rightarrow> u64 \<Rightarrow> message_wrapper \<Rightarrow> message_wrapper" where
  "rate_limit_sender now retry_at w =
     w\<lparr>message := (message w)\<lparr>recipients :=
       map (\<lambda>r. if due_now now w r then rate_limit_recipient retry_at r else r)
         (recipients (message w))\<rparr>\<rparr>"

definition deliver_task :: "('r, 'f) delivery_env \<Rightarrow> u64 \<Rightarrow> u64 \<Rightarrow> message_wrapper \<Rightarrow> queue_store \<Rightarrow>
    event_status \<times> queue_store" where
  "deliver_task e now prev w st =
     (let (w, has_pending) = has_pending_delivery now w;
          (w, st) = send_dsn_queued e now w st;
          save = (\<lambda>w st. snd (save_changes (de_write_ok e) (Some prev) w st));
          remove = (\<lambda>w st. snd (remove_message (de_write_ok e) (Some prev) w st));
          is_due = (case next_delivery_event (message w) (Some (queue_name w)) of
                      Some d \<Rightarrow> d \<le> now | None \<Rightarrow> False)
      in if has_pending = Yes True \<and> is_due then
           (case first_refusal (de_sender_limits e) (message w) of
              Some retry_at \<Rightarrow> (WorkDeferred, save (rate_limit_sender now retry_at w) st)
            | None \<Rightarrow>
                (let (w, st) = attempt e now w st;
                     (w, st) = send_dsn_queued e now w st
                 in if next_event (message w) None \<noteq> None
                    then (WorkDeferred, save w st) else (WorkCompleted, remove w st)))
         else if has_pending = No then (WorkCompleted, remove w st)
         else (WorkDeferred, save w st))"

text \<open>
  One queued event: lock it, read the message, attempt the delivery, unlock. \<open>lock\<close> is the
  result of \<open>try_lock_event\<close>.
\<close>

definition try_deliver :: "('r, 'f) delivery_env \<Rightarrow> bool \<Rightarrow> u64 \<Rightarrow> queue_event \<Rightarrow> queue_store \<Rightarrow>
    event_status \<times> queue_store" where
  "try_deliver e lock now ev st =
     (case ev of (d, i, q) \<Rightarrow>
        if lock then
          (case read_message st i q of
             Some w \<Rightarrow> deliver_task e now d w st
           | None \<Rightarrow> (WorkCompleted, snd (store_write (de_write_ok e) [ClearEvent (d, i, q)] st)))
        else (WorkLocked, st))"

end
