(* ===== verification/Queue_Manager.thy ===== *)
theory Queue_Manager
  imports Queue_Delivery "HOL-Library.Multiset"
begin

text \<open>
  The queue manager (\<^verbatim>\<open>crates/smtp/src/queue/manager.rs\<close> and \<open>next_event\<close> of
  \<^verbatim>\<open>queue/spool.rs\<close>): the loop that reads the due events of the store, locks them and
  starts a worker for each, within the threads of every virtual queue. \<open>now\<close> is the wall
  clock, \<open>t\<close> the monotonic clock, both in seconds; the order in which the due events are
  started and the random part of a lock's expiry are arguments.
\<close>

section \<open>State\<close>

record queue_stats =
  in_flight :: usize
  max_in_flight :: usize
  last_warning :: u64

record locked_message =
  lock_expires :: u64
  lock_revision :: u64

record queue_manager =
  locked :: "queue_id \<times> queue_name \<Rightarrow> locked_message option"
  locked_revision :: u64
  stats :: "queue_name \<Rightarrow> queue_stats option"
  next_refresh :: u64
  is_paused :: bool
  rx_closed :: bool

definition BACK_PRESSURE_WARN_INTERVAL :: u64 where "BACK_PRESSURE_WARN_INTERVAL = 60"
definition LOCK_EXPIRY :: u64 where "LOCK_EXPIRY = 600"
definition QUEUE_REFRESH :: u64 where "QUEUE_REFRESH = 300"
definition INFINITE_LOCK :: u64 where "INFINITE_LOCK = 31536000"

definition manager_new :: "u64 \<Rightarrow> queue_manager" where
  "manager_new t =
     \<lparr>locked = Map.empty, locked_revision = 0, stats = Map.empty, next_refresh = t + 1,
      is_paused = False, rx_closed = False\<rparr>"

definition queue_stats_new :: "u64 \<Rightarrow> usize \<Rightarrow> queue_stats" where
  "queue_stats_new t m =
     \<lparr>in_flight = 0, max_in_flight = m, last_warning = t - BACK_PRESSURE_WARN_INTERVAL\<rparr>"

definition has_capacity :: "queue_stats \<Rightarrow> bool" where
  "has_capacity s \<longleftrightarrow> in_flight s < max_in_flight s"

definition set_lock :: "queue_id \<times> queue_name \<Rightarrow> locked_message \<Rightarrow> queue_manager \<Rightarrow> queue_manager" where
  "set_lock k l mgr = mgr\<lparr>locked := (locked mgr)(k \<mapsto> l)\<rparr>"

definition remove_lock :: "queue_id \<times> queue_name \<Rightarrow> queue_manager \<Rightarrow> queue_manager" where
  "remove_lock k mgr = mgr\<lparr>locked := (locked mgr)(k := None)\<rparr>"

definition set_stats :: "queue_name \<Rightarrow> queue_stats \<Rightarrow> queue_manager \<Rightarrow> queue_manager" where
  "set_stats q s mgr = mgr\<lparr>stats := (stats mgr)(q \<mapsto> s)\<rparr>"

section \<open>Reading the due events\<close>

text \<open>
  The events in the order of their keys; reading stops at the first one that is not due, and at
  a key that is too short or too long. A lock that has not expired keeps its event, and every
  lock that is met gets the revision of this round.
\<close>

definition queue_has_capacity :: "queue_manager \<Rightarrow> queue_name \<Rightarrow> bool" where
  "queue_has_capacity mgr q = (case stats mgr q of None \<Rightarrow> True | Some s \<Rightarrow> has_capacity s)"

type_synonym scan_state = "queue_manager \<times> queue_event list \<times> u64"

definition visit :: "u64 \<Rightarrow> queue_event \<Rightarrow> scan_state \<Rightarrow> scan_state" where
  "visit now ev st =
     (case (ev, st) of ((d, i, q), (mgr, ms, refresh)) \<Rightarrow>
        if \<not> queue_has_capacity mgr q then (mgr, ms, refresh)
        else
          (case locked mgr (i, q) of
             Some l \<Rightarrow>
               if lock_expires l \<le> now then
                 (set_lock (i, q) \<lparr>lock_expires = now + INFINITE_LOCK,
                    lock_revision = locked_revision mgr\<rparr> mgr, ms @ [ev], refresh)
               else (set_lock (i, q) (l\<lparr>lock_revision := locked_revision mgr\<rparr>) mgr, ms,
                     if lock_expires l < refresh then lock_expires l else refresh)
           | None \<Rightarrow>
               (set_lock (i, q) \<lparr>lock_expires = now + INFINITE_LOCK,
                  lock_revision = locked_revision mgr\<rparr> mgr, ms @ [ev], refresh)))"

fun scan :: "u64 \<Rightarrow> queue_event list \<Rightarrow> scan_state \<Rightarrow> scan_state" where
  "scan now [] st = st"
| "scan now (ev # es) st =
     (if fst ev \<le> now then
        (if length (snd (snd ev)) \<noteq> 8 then st else scan now es (visit now ev st))
      else (case st of (mgr, ms, refresh) \<Rightarrow> (mgr, ms, if fst ev < refresh then fst ev else refresh)))"

definition read_events :: "u64 \<Rightarrow> queue_event list \<Rightarrow> queue_manager \<Rightarrow> scan_state" where
  "read_events now es mgr =
     scan now (takeWhile (\<lambda>e. fst e \<le> now + QUEUE_REFRESH) es)
       (mgr\<lparr>locked_revision := locked_revision mgr + 1\<rparr>, [], now + QUEUE_REFRESH)"

section \<open>Starting workers\<close>

definition fetch_stats :: "queue_config \<Rightarrow> u64 \<Rightarrow> queue_name \<Rightarrow> queue_manager \<Rightarrow> queue_stats" where
  "fetch_stats c t q mgr =
     (case stats mgr q of
        Some s \<Rightarrow> s | None \<Rightarrow> queue_stats_new t (get_virtual_queue_or_default c q))"

fun dispatch :: "queue_config \<Rightarrow> u64 \<Rightarrow> queue_event list \<Rightarrow> queue_manager \<Rightarrow> queue_event list \<times> queue_manager" where
  "dispatch c t [] mgr = ([], mgr)"
| "dispatch c t ((d, i, q) # es) mgr =
     (let s = fetch_stats c t q mgr in
      if has_capacity s then
        (let (ws, mgr) = dispatch c t es (set_stats q (s\<lparr>in_flight := in_flight s + 1\<rparr>) mgr)
         in ((d, i, q) # ws, mgr))
      else
        dispatch c t es (remove_lock (i, q)
          (set_stats q (if BACK_PRESSURE_WARN_INTERVAL \<le> t - last_warning s
                        then s\<lparr>last_warning := t\<rparr> else s) mgr)))"

definition retain_locks :: "u64 \<Rightarrow> queue_manager \<Rightarrow> queue_manager" where
  "retain_locks now mgr =
     mgr\<lparr>locked := (\<lambda>k. case locked mgr k of
        Some l \<Rightarrow> if now < lock_expires l \<and> lock_revision l = locked_revision mgr then Some l else None
      | None \<Rightarrow> None)\<rparr>"

text \<open>One round: the workers that are started, and the manager afterwards.\<close>

definition process_queue :: "queue_config \<Rightarrow> (queue_event list \<Rightarrow> queue_event list) \<Rightarrow> u64 \<Rightarrow> u64 \<Rightarrow>
    queue_event list \<Rightarrow> queue_manager \<Rightarrow> queue_event list \<times> queue_manager" where
  "process_queue c shuffle t now es mgr =
     (let (mgr, ms, refresh) = read_events now es mgr;
          ms = (if 3 < length ms then shuffle ms else ms);
          (ws, mgr) = dispatch c t ms mgr;
          mgr = retain_locks now mgr
      in (ws, mgr\<lparr>next_refresh := t + saturating_sub refresh now\<rparr>))"

section \<open>Events\<close>

datatype manager_event =
    WorkerDone queue_id queue_name event_status
  | Refresh
  | Paused bool
  | ReloadSettings
  | Stop

definition reload_settings :: "queue_config \<Rightarrow> u64 \<Rightarrow> queue_manager \<Rightarrow> queue_manager" where
  "reload_settings c t mgr =
     fold (\<lambda>(q, threads) mgr.
         set_stats q (case stats mgr q of
             Some s \<Rightarrow> s\<lparr>max_in_flight := threads\<rparr> | None \<Rightarrow> queue_stats_new t threads) mgr)
       (virtual_queues c) mgr"

text \<open>Whether any lock is held; the hash map is a function here, so the keys are an argument.\<close>

definition lock_keys :: "queue_manager \<Rightarrow> (queue_id \<times> queue_name) set" where
  "lock_keys mgr = dom (locked mgr)"

text \<open>
  The manager after an event and whether it asks for a round; \<open>None\<close> is a panic, which the
  completion of a worker of an unknown queue would cause. \<open>rnd\<close> is between 5 and 9.
\<close>

fun handle_event :: "queue_config \<Rightarrow> u64 \<Rightarrow> u64 \<Rightarrow> u64 \<Rightarrow> manager_event \<Rightarrow> queue_manager \<Rightarrow>
    (queue_manager \<times> bool) option" where
  "handle_event c t now rnd (WorkerDone i q status) mgr =
     (case stats mgr q of
        None \<Rightarrow> None
      | Some s \<Rightarrow>
          (let s = s\<lparr>in_flight := in_flight s - 1\<rparr>; mgr = set_stats q s mgr in
           case status of
             WorkCompleted \<Rightarrow>
               (let mgr = remove_lock (i, q) mgr
                in Some (mgr, lock_keys mgr \<noteq> {} \<or> \<not> has_capacity s))
           | WorkLocked \<Rightarrow>
               (let expires = LOCK_EXPIRY + rnd; due_in = t + expires;
                    mgr = (if due_in < next_refresh mgr then mgr\<lparr>next_refresh := due_in\<rparr> else mgr);
                    mgr = set_lock (i, q) \<lparr>lock_expires = now + expires,
                            lock_revision = locked_revision mgr\<rparr> mgr
                in Some (mgr, 1 < card (lock_keys mgr) \<or> \<not> has_capacity s))
           | WorkDeferred \<Rightarrow> Some (remove_lock (i, q) mgr, True)))"
| "handle_event c t now rnd Refresh mgr = Some (mgr, True)"
| "handle_event c t now rnd (Paused p) mgr = Some (mgr\<lparr>is_paused := p\<rparr>, False)"
| "handle_event c t now rnd ReloadSettings mgr = Some (reload_settings c t mgr, False)"
| "handle_event c t now rnd Stop mgr = Some (mgr\<lparr>rx_closed := True, is_paused := True\<rparr>, False)"

fun handle_events :: "queue_config \<Rightarrow> u64 \<Rightarrow> u64 \<Rightarrow> u64 \<Rightarrow> manager_event list \<Rightarrow> queue_manager \<times> bool \<Rightarrow>
    (queue_manager \<times> bool) option" where
  "handle_events c t now rnd [] (mgr, refresh) = Some (mgr, refresh)"
| "handle_events c t now rnd (ev # evs) (mgr, refresh) =
     (case handle_event c t now rnd ev mgr of
        None \<Rightarrow> None
      | Some (mgr, r) \<Rightarrow> handle_events c t now rnd evs (mgr, r \<or> refresh))"

section \<open>The loop\<close>

text \<open>What ends the wait: the events that have arrived (at least one), or the time-out.\<close>

datatype wake = Received "manager_event list" | TimedOut

record manager_env =
  me_config :: queue_config
  me_shuffle :: "queue_event list \<Rightarrow> queue_event list"
  me_random :: u64

text \<open>An iteration of the loop: the workers started, and the manager (\<open>None\<close> is a panic).\<close>

definition manager_step :: "manager_env \<Rightarrow> u64 \<Rightarrow> u64 \<Rightarrow> wake \<Rightarrow> queue_event list \<Rightarrow> queue_manager \<Rightarrow>
    (queue_event list \<times> queue_manager) option" where
  "manager_step env t now wk es mgr =
     (case (case wk of
              Received evs \<Rightarrow> handle_events (me_config env) t now (me_random env) evs (mgr, False)
            | TimedOut \<Rightarrow> Some (mgr, True)) of
        None \<Rightarrow> None
      | Some (mgr, refresh) \<Rightarrow>
          if \<not> is_paused mgr then
            (if refresh \<or> next_refresh mgr \<le> t
             then Some (process_queue (me_config env) (me_shuffle env) t now es mgr)
             else Some ([], mgr))
          else Some ([], mgr\<lparr>next_refresh := t + 86400\<rparr>))"

end
