(* ===== verification/Queue_Rounds.thy ===== *)
theory Queue_Rounds
  imports Queue_Manager
begin

text \<open>
  The queue manager starts every due event (\<open>Queue_Manager\<close>): what a round reads, what it
  starts, and how many workers of a virtual queue run at a time.
\<close>

section \<open>What a round leaves alone\<close>

lemma set_lock_simps [simp]:
  "stats (set_lock k l mgr) = stats mgr" "locked_revision (set_lock k l mgr) = locked_revision mgr"
  "locked (set_lock k l mgr) = (locked mgr)(k \<mapsto> l)" "is_paused (set_lock k l mgr) = is_paused mgr"
  by (simp_all add: set_lock_def)

lemma remove_lock_simps [simp]:
  "stats (remove_lock k mgr) = stats mgr" "locked_revision (remove_lock k mgr) = locked_revision mgr"
  "locked (remove_lock k mgr) = (locked mgr)(k := None)"
  by (simp_all add: remove_lock_def)

lemma set_stats_simps [simp]:
  "stats (set_stats q s mgr) = (stats mgr)(q \<mapsto> s)" "locked (set_stats q s mgr) = locked mgr"
  "locked_revision (set_stats q s mgr) = locked_revision mgr"
  by (simp_all add: set_stats_def)

lemma queue_has_capacity_cong:
  "stats mgr = stats mgr' \<Longrightarrow> queue_has_capacity mgr = queue_has_capacity mgr'"
  by (simp add: queue_has_capacity_def fun_eq_iff)

lemma queue_has_capacity_set_lock [simp]:
  "queue_has_capacity (set_lock k l mgr) = queue_has_capacity mgr"
  by (rule queue_has_capacity_cong) simp

lemma visit_frame [simp]:
  "stats (fst (visit now e st)) = stats (fst st)"
  "locked_revision (fst (visit now e st)) = locked_revision (fst st)"
  "is_paused (fst (visit now e st)) = is_paused (fst st)"
  by (auto simp: visit_def split: prod.splits option.splits)

lemma fold_visit_frame:
  "stats (fst (fold (visit now) es st)) = stats (fst st)"
  "locked_revision (fst (fold (visit now) es st)) = locked_revision (fst st)"
  "is_paused (fst (fold (visit now) es st)) = is_paused (fst st)"
  by (induction es arbitrary: st) simp_all

section \<open>A due event is read\<close>

definition unlocked :: "u64 \<Rightarrow> queue_manager \<Rightarrow> queue_id \<times> queue_name \<Rightarrow> bool" where
  "unlocked now mgr k \<longleftrightarrow> (case locked mgr k of None \<Rightarrow> True | Some l \<Rightarrow> lock_expires l \<le> now)"

abbreviation scan_ms :: "scan_state \<Rightarrow> queue_event list" where "scan_ms st \<equiv> fst (snd st)"
abbreviation event_name :: "queue_event \<Rightarrow> queue_name" where "event_name e \<equiv> snd (snd e)"

lemma visit_reads:
  assumes "queue_has_capacity (fst st) (event_name e)" and "unlocked now (fst st) (snd e)"
  shows "scan_ms (visit now e st) = scan_ms st @ [e]"
  using assms by (auto simp: visit_def unlocked_def split: prod.splits option.splits)

lemma visit_other: "snd e \<noteq> k \<Longrightarrow> locked (fst (visit now e st)) k = locked (fst st) k"
  by (auto simp: visit_def split: prod.splits option.splits)

lemma visit_keeps: "set (scan_ms st) \<subseteq> set (scan_ms (visit now e st))"
  by (auto simp: visit_def split: prod.splits option.splits)

lemma fold_visit_keeps: "set (scan_ms st) \<subseteq> set (scan_ms (fold (visit now) es st))"
proof (induction es arbitrary: st)
  case (Cons e es)
  show ?case using subset_trans [OF visit_keeps [of st now e] Cons.IH] by simp
qed simp

lemma visit_subset: "set (scan_ms (visit now e st)) \<subseteq> insert e (set (scan_ms st))"
  by (auto simp: visit_def split: prod.splits option.splits if_splits)

lemma fold_visit_subset: "set (scan_ms (fold (visit now) es st)) \<subseteq> set es \<union> set (scan_ms st)"
proof (induction es arbitrary: st)
  case (Cons e es)
  from Cons.IH [of "visit now e st"] visit_subset [of now e st] show ?case by auto
qed simp

lemma fold_visit_reads:
  assumes "e \<in> set es" and "queue_has_capacity (fst st) (event_name e)"
    and "unlocked now (fst st) (snd e)"
  shows "\<exists>e'\<in>set (scan_ms (fold (visit now) es st)). snd e' = snd e"
  using assms
proof (induction es arbitrary: st)
  case (Cons a es)
  show ?case
  proof (cases "snd a = snd e")
    case True
    with Cons.prems have "a \<in> set (scan_ms (visit now a st))" by (simp add: visit_reads)
    with fold_visit_keeps [of "visit now a st" now es] True show ?thesis by auto
  next
    case False
    with Cons.prems have "e \<in> set es" "unlocked now (fst (visit now a st)) (snd e)"
      "queue_has_capacity (fst (visit now a st)) (event_name e)"
      by (auto simp: unlocked_def visit_other queue_has_capacity_def)
    with Cons.IH show ?thesis by simp
  qed
qed simp

lemma scan_fold:
  "\<forall>e\<in>set es. fst e \<le> now \<and> length (event_name e) = 8 \<Longrightarrow>
    scan now (es @ es') st = scan now es' (fold (visit now) es st)"
  by (induction es arbitrary: st) auto

lemma scan_stops:
  "\<forall>e\<in>set es. \<not> fst e \<le> now \<Longrightarrow> fst (scan now es st) = fst st \<and> scan_ms (scan now es st) = scan_ms st"
  by (cases es) (auto split: prod.splits)

section \<open>A read event is started, or its queue is full\<close>

definition refused_stats :: "u64 \<Rightarrow> queue_stats \<Rightarrow> queue_stats" where
  "refused_stats t s =
     (if BACK_PRESSURE_WARN_INTERVAL \<le> t - last_warning s then s\<lparr>last_warning := t\<rparr> else s)"

lemma refused_stats_simps [simp]:
  "has_capacity (refused_stats t s) = has_capacity s" "in_flight (refused_stats t s) = in_flight s"
  "max_in_flight (refused_stats t s) = max_in_flight s"
  by (simp_all add: refused_stats_def has_capacity_def)

lemma dispatch_start:
  assumes "dispatch c t ((d, i, q) # es) mgr = (ws, mgr')" and "has_capacity (fetch_stats c t q mgr)"
  obtains ws' where "ws = (d, i, q) # ws'"
    and "dispatch c t es (set_stats q ((fetch_stats c t q mgr)
           \<lparr>in_flight := in_flight (fetch_stats c t q mgr) + 1\<rparr>) mgr) = (ws', mgr')"
  using assms by (auto simp: Let_def split: prod.splits)

lemma dispatch_refuse:
  assumes "dispatch c t ((d, i, q) # es) mgr = (ws, mgr')" and "\<not> has_capacity (fetch_stats c t q mgr)"
  shows "dispatch c t es (remove_lock (i, q) (set_stats q (refused_stats t (fetch_stats c t q mgr)) mgr))
      = (ws, mgr')"
  using assms by (simp add: Let_def refused_stats_def)

lemma dispatch_induct [consumes 1, case_names Nil Start Refuse]:
  assumes "dispatch c t es mgr = (ws, mgr')"
    and "\<And>mgr. P [] mgr [] mgr"
    and "\<And>d i q es mgr ws mgr' s. s = fetch_stats c t q mgr \<Longrightarrow> has_capacity s \<Longrightarrow>
      P es (set_stats q (s\<lparr>in_flight := in_flight s + 1\<rparr>) mgr) ws mgr' \<Longrightarrow>
      P ((d, i, q) # es) mgr ((d, i, q) # ws) mgr'"
    and "\<And>d i q es mgr ws mgr' s. s = fetch_stats c t q mgr \<Longrightarrow> \<not> has_capacity s \<Longrightarrow>
      P es (remove_lock (i, q) (set_stats q (refused_stats t s) mgr)) ws mgr' \<Longrightarrow>
      P ((d, i, q) # es) mgr ws mgr'"
  shows "P es mgr ws mgr'"
  using assms(1)
proof (induction es arbitrary: mgr ws mgr')
  case Nil
  then show ?case using assms(2) by simp
next
  case (Cons e es)
  obtain d i q where e: "e = (d, i, q)" by (cases e)
  show ?case
  proof (cases "has_capacity (fetch_stats c t q mgr)")
    case True
    from dispatch_start [OF Cons.prems [unfolded e] True] obtain ws' where "ws = (d, i, q) # ws'"
      "dispatch c t es (set_stats q ((fetch_stats c t q mgr)
           \<lparr>in_flight := in_flight (fetch_stats c t q mgr) + 1\<rparr>) mgr) = (ws', mgr')" .
    with assms(3) [OF refl True] Cons.IH e show ?thesis by simp
  next
    case False
    from assms(4) [OF refl False Cons.IH [OF dispatch_refuse [OF Cons.prems [unfolded e] False]]] e
    show ?thesis by simp
  qed
qed

lemma queue_has_capacity_simps [simp]:
  "queue_has_capacity (set_stats p s mgr) q = (if p = q then has_capacity s else queue_has_capacity mgr q)"
  "queue_has_capacity (remove_lock k mgr) q = queue_has_capacity mgr q"
  by (simp_all add: queue_has_capacity_def)

lemma fetch_stats_capacity: "has_capacity (fetch_stats c t q mgr) \<Longrightarrow> queue_has_capacity mgr q"
  by (auto simp: fetch_stats_def queue_has_capacity_def split: option.splits)

lemma dispatch_starts:
  assumes "dispatch c t es mgr = (ws, mgr')" and "e \<in> set es"
  shows "e \<in> set ws \<or> \<not> queue_has_capacity mgr' (event_name e)"
proof -
  from assms(1) have "(\<forall>e\<in>set es. e \<in> set ws \<or> \<not> queue_has_capacity mgr' (event_name e))
      \<and> (\<forall>q. \<not> queue_has_capacity mgr q \<longrightarrow> \<not> queue_has_capacity mgr' q)"
  proof (induction rule: dispatch_induct)
    case (Start d i p es mgr ws mgr' f)
    then have "queue_has_capacity mgr p" by (auto dest: fetch_stats_capacity)
    with Start show ?case by (metis queue_has_capacity_simps(1) list.set_intros set_ConsD)
  next
    case (Refuse d i p es mgr ws mgr' f)
    let ?mgr = "remove_lock (i, p) (set_stats p (refused_stats t f) mgr)"
    from Refuse.IH have 1: "\<forall>e\<in>set es. e \<in> set ws \<or> \<not> queue_has_capacity mgr' (event_name e)"
      and 2: "\<not> queue_has_capacity ?mgr q \<Longrightarrow> \<not> queue_has_capacity mgr' q" for q by blast+
    have "\<not> queue_has_capacity mgr' p" using 2 [of p] Refuse.hyps by simp
    moreover have "\<not> queue_has_capacity mgr' q" if "\<not> queue_has_capacity mgr q" for q
      using 2 [of q] that Refuse.hyps by (cases "p = q") simp_all
    ultimately show ?case using 1 by auto
  qed simp
  with assms(2) show ?thesis by blast
qed

lemma dispatch_subset: "dispatch c t es mgr = (ws, mgr') \<Longrightarrow> mset ws \<subseteq># mset es"
  by (induction rule: dispatch_induct) (auto intro: subset_mset.order_trans)

section \<open>A round\<close>

definition permutes :: "('a list \<Rightarrow> 'a list) \<Rightarrow> bool" where
  "permutes f \<longleftrightarrow> (\<forall>xs. mset (f xs) = mset xs)"

lemma permutes_set: "permutes f \<Longrightarrow> set (f xs) = set xs"
  by (metis permutes_def set_mset_mset)

lemma stats_retain [simp]: "stats (retain_locks now mgr) = stats mgr"
  by (simp add: retain_locks_def)

text \<open>
  The events of the store are in the order of their keys, so the events that are due come first.
\<close>

lemma sorted_later:
  "sorted_wrt (\<lambda>a b. fst a \<le> fst b) es \<Longrightarrow> e \<in> set (dropWhile (\<lambda>e. fst e \<le> now) es) \<Longrightarrow>
    \<not> fst e \<le> (now :: u64)"
proof (induction es)
  case (Cons a es)
  show ?case
  proof (cases "fst a \<le> now")
    case False
    with Cons.prems have "fst a \<le> fst e" by auto
    with False show ?thesis using order_trans by blast
  qed (use Cons in simp)
qed simp

lemma sorted_due:
  assumes "sorted_wrt (\<lambda>a b. fst a \<le> fst b) es"
  obtains es1 es2 where "es = es1 @ es2" and "\<forall>e\<in>set es1. fst e \<le> now"
    and "\<forall>e\<in>set es2. \<not> fst e \<le> (now :: u64)"
proof (rule that)
  show "es = takeWhile (\<lambda>e. fst e \<le> now) es @ dropWhile (\<lambda>e. fst e \<le> now) es" by simp
  show "\<forall>e\<in>set (takeWhile (\<lambda>e. fst e \<le> now) es). fst e \<le> now" by (blast dest: set_takeWhileD)
  show "\<forall>e\<in>set (dropWhile (\<lambda>e. fst e \<le> now) es). \<not> fst e \<le> now"
    using sorted_later [OF assms] by blast
qed

lemma read_events_reads:
  assumes "sorted_wrt (\<lambda>a b. fst a \<le> fst b) es" and "e \<in> set es" and "fst e \<le> now"
    and "now \<le> now + QUEUE_REFRESH" and "\<forall>e\<in>set es. length (event_name e) = 8"
    and "queue_has_capacity mgr (event_name e)" and "unlocked now mgr (snd e)"
  shows "\<exists>e'\<in>set (scan_ms (read_events now es mgr)). snd e' = snd e \<and> fst e' \<le> now"
proof -
  let ?es = "takeWhile (\<lambda>e. fst e \<le> now + QUEUE_REFRESH) es"
  let ?st = "(mgr\<lparr>locked_revision := locked_revision mgr + 1\<rparr>, [], now + QUEUE_REFRESH)"
  obtain es1 es2 where es: "es = es1 @ es2" and due: "\<forall>e\<in>set es1. fst e \<le> now"
    and later: "\<forall>e\<in>set es2. \<not> fst e \<le> now"
    by (rule sorted_due [OF assms(1)])
  from due assms(4) have "\<forall>e\<in>set es1. fst e \<le> now + QUEUE_REFRESH" by (auto intro: order_trans)
  then have tw: "?es = es1 @ takeWhile (\<lambda>e. fst e \<le> now + QUEUE_REFRESH) es2"
    by (simp add: es takeWhile_append)
  have later': "\<forall>e\<in>set (takeWhile (\<lambda>e. fst e \<le> now + QUEUE_REFRESH) es2). \<not> fst e \<le> now"
    using later by (blast dest: set_takeWhileD)
  have "scan now ?es ?st = scan now (takeWhile (\<lambda>e. fst e \<le> now + QUEUE_REFRESH) es2) (fold (visit now) es1 ?st)"
    unfolding tw by (rule scan_fold) (use due assms(5) es in auto)
  with scan_stops [OF later'] have ms: "scan_ms (read_events now es mgr) = scan_ms (fold (visit now) es1 ?st)"
    by (simp add: read_events_def)
  from assms(2,3) later es have "e \<in> set es1" by auto
  then have "\<exists>e'\<in>set (scan_ms (fold (visit now) es1 ?st)). snd e' = snd e"
    by (rule fold_visit_reads) (use assms(6,7) in \<open>auto simp: queue_has_capacity_def unlocked_def\<close>)
  moreover have "set (scan_ms (fold (visit now) es1 ?st)) \<subseteq> set es1"
    using fold_visit_subset [of now es1 ?st] by simp
  ultimately show ?thesis using ms due by auto
qed

lemma read_events_stats: "stats (fst (read_events now es mgr)) = stats mgr"
proof -
  have "stats (fst (scan now es st)) = stats (fst st)" for es st
    by (induction now es st rule: scan.induct) (auto split: prod.splits)
  then show ?thesis by (simp add: read_events_def)
qed

lemma process_queue_starts:
  assumes "process_queue c shuffle t now es mgr = (ws, mgr')" and "permutes shuffle"
    and "e \<in> set (scan_ms (read_events now es mgr))"
  shows "e \<in> set ws \<or> \<not> queue_has_capacity mgr' (event_name e)"
proof -
  obtain m1 ms r where r: "read_events now es mgr = (m1, ms, r)" by (cases "read_events now es mgr")
  let ?ms = "if 3 < length ms then shuffle ms else ms"
  obtain ws' m2 where d: "dispatch c t ?ms m1 = (ws', m2)" by (cases "dispatch c t ?ms m1")
  from assms(1) r d have ws: "ws = ws'" and st: "stats mgr' = stats m2"
    by (auto simp: process_queue_def Let_def)
  from assms(2,3) r have "e \<in> set ?ms" by (auto simp: permutes_set)
  from dispatch_starts [OF d this] ws st show ?thesis by (simp add: queue_has_capacity_def)
qed

section \<open>Workers and counters\<close>

definition busy :: "queue_name \<Rightarrow> queue_event multiset \<Rightarrow> nat" where
  "busy q running = size (filter_mset (\<lambda>e. event_name e = q) running)"

lemma busy_simps [simp]:
  "busy q {#} = 0"
  "busy q (add_mset e running) = (if event_name e = q then Suc (busy q running) else busy q running)"
  "busy q (running + running') = busy q running + busy q running'"
  by (simp_all add: busy_def)

text \<open>
  The counter of every virtual queue is the number of its workers. The limit of a queue is
  the threads that one of the configurations gives it, and its workers are within the threads that
  one of them gives it (another one, when the limit has been lowered since).
\<close>

definition threads_of :: "queue_config set \<Rightarrow> queue_name \<Rightarrow> usize set" where
  "threads_of C q = (\<lambda>c. get_virtual_queue_or_default c q) ` C"

definition within_some :: "usize set \<Rightarrow> usize \<Rightarrow> bool" where
  "within_some N n \<longleftrightarrow> (\<exists>k\<in>N. n \<le> k)"

lemma within_some_le: "within_some N n \<Longrightarrow> k \<le> n \<Longrightarrow> within_some N k"
  by (auto simp: within_some_def intro: order_trans)

lemma within_some_0: "k \<in> N \<Longrightarrow> within_some N 0"
  by (auto simp: within_some_def)

definition stats_ok :: "queue_config set \<Rightarrow> queue_name \<Rightarrow> nat \<Rightarrow> queue_stats option \<Rightarrow> bool" where
  "stats_ok C q n st \<longleftrightarrow>
     (case st of
        None \<Rightarrow> n = 0
      | Some s \<Rightarrow> unat (in_flight s) = n \<and> max_in_flight s \<in> threads_of C q
          \<and> within_some (threads_of C q) (in_flight s))"

definition stats_agree :: "queue_config set \<Rightarrow> queue_manager \<Rightarrow> queue_event multiset \<Rightarrow> bool" where
  "stats_agree C mgr running \<longleftrightarrow> (\<forall>q. stats_ok C q (busy q running) (stats mgr q))"

lemma stats_ok_simps [simp]:
  "stats_ok C q n None \<longleftrightarrow> n = 0"
  "stats_ok C q n (Some s) \<longleftrightarrow> unat (in_flight s) = n \<and> max_in_flight s \<in> threads_of C q
     \<and> within_some (threads_of C q) (in_flight s)"
  by (simp_all add: stats_ok_def)

lemma stats_agree_cong: "stats_agree C mgr running \<Longrightarrow> stats mgr' = stats mgr \<Longrightarrow> stats_agree C mgr' running"
  by (simp add: stats_agree_def)

lemma stats_agree_at: "stats_agree C mgr running \<Longrightarrow> stats_ok C q (busy q running) (stats mgr q)"
  by (simp add: stats_agree_def)

lemma stats_agree_fetch:
  assumes "stats_agree C mgr running" and "c \<in> C"
  shows "stats_ok C q (busy q running) (Some (fetch_stats c t q mgr))"
  using stats_agree_at [OF assms(1), of q] assms(2)
  by (cases "stats mgr q")
    (auto simp: fetch_stats_def queue_stats_new_def threads_of_def intro: within_some_0)

lemma stats_agree_set:
  assumes "stats_agree C mgr running" and "\<And>p. p \<noteq> q \<Longrightarrow> busy p running' = busy p running"
    and "stats_ok C q (busy q running') (Some s)"
  shows "stats_agree C (set_stats q s mgr) running'"
  using assms by (auto simp: stats_agree_def)

lemma dispatch_agree:
  assumes "dispatch c t es mgr = (ws, mgr')" and "stats_agree C mgr running" and "c \<in> C"
  shows "stats_agree C mgr' (running + mset ws)"
  using assms
proof (induction arbitrary: running rule: dispatch_induct)
  case (Start d i q es mgr ws mgr' s)
  from Start.hyps have less: "in_flight s < max_in_flight s" by (simp add: has_capacity_def)
  then have "unat (in_flight s + 1) = Suc (unat (in_flight s))"
    by (intro unat_inc [of _ "max_in_flight s"]) (simp add: word_less_nat_alt)
  moreover have "in_flight s + 1 \<le> max_in_flight s" using less by (rule inc_le)
  ultimately have "stats_agree C (set_stats q (s\<lparr>in_flight := in_flight s + 1\<rparr>) mgr) (add_mset (d, i, q) running)"
    using stats_agree_fetch [OF Start.prems, of q t] Start.hyps(1)
    by (intro stats_agree_set [OF Start.prems(1)]) (auto simp: within_some_def)
  from Start.IH [OF this Start.prems(2)] show ?case by simp
next
  case (Refuse d i q es mgr ws mgr' s)
  have "stats_agree C (set_stats q (refused_stats t s) mgr) running"
    using stats_agree_fetch [OF Refuse.prems, of q t] Refuse.hyps(1)
    by (intro stats_agree_set [OF Refuse.prems(1)]) auto
  then have "stats_agree C (remove_lock (i, q) (set_stats q (refused_stats t s) mgr)) running"
    by (rule stats_agree_cong) simp
  from Refuse.IH [OF this Refuse.prems(2)] show ?case .
qed simp

text \<open>A round starts workers only within the limit of their queue, and changes no limit.\<close>

lemma dispatch_limits:
  assumes "dispatch c t es mgr = (ws, mgr')"
  shows "(stats mgr q = Some s \<longrightarrow> (\<exists>s'. stats mgr' q = Some s' \<and> max_in_flight s' = max_in_flight s
      \<and> (in_flight s \<le> max_in_flight s \<longrightarrow> in_flight s' \<le> max_in_flight s')))
    \<and> ((d, i, q) \<in> set ws \<longrightarrow> (\<exists>s'. stats mgr' q = Some s' \<and> in_flight s' \<le> max_in_flight s'))"
  using assms
proof (induction arbitrary: s d i rule: dispatch_induct)
  case (Start d' i' p es mgr ws mgr' f)
  let ?f = "f\<lparr>in_flight := in_flight f + 1\<rparr>"
  from Start.hyps(2) have le: "in_flight ?f \<le> max_in_flight ?f" by (simp add: has_capacity_def inc_le)
  show ?case
  proof (cases "p = q")
    case True
    with Start.IH [of ?f] le obtain s' where s': "stats mgr' q = Some s'" "max_in_flight s' = max_in_flight f"
      "in_flight s' \<le> max_in_flight s'" by fastforce
    moreover have "max_in_flight f = max_in_flight s" if "stats mgr q = Some s"
      using that True Start.hyps(1) by (simp add: fetch_stats_def)
    ultimately show ?thesis by auto
  next
    case False
    with Start.IH [of s d i] show ?thesis by auto
  qed
next
  case (Refuse d' i' p es mgr ws mgr' f)
  show ?case
  proof (cases "p = q")
    case True
    with Refuse.IH [of "refused_stats t f" d i] Refuse.hyps(1) show ?thesis by (auto simp: fetch_stats_def)
  next
    case False
    with Refuse.IH [of s d i] show ?thesis by auto
  qed
qed simp


lemma process_queue_agree:
  assumes "process_queue c shuffle t now es mgr = (ws, mgr')" and "stats_agree C mgr running" and "c \<in> C"
  shows "stats_agree C mgr' (running + mset ws)"
proof -
  obtain m1 ms r where r: "read_events now es mgr = (m1, ms, r)" by (cases "read_events now es mgr")
  obtain ws' m2 where d: "dispatch c t (if 3 < length ms then shuffle ms else ms) m1 = (ws', m2)"
    by fastforce
  from assms(1) r d have ws: "ws = ws'" and st: "stats mgr' = stats m2"
    by (auto simp: process_queue_def Let_def)
  have "stats_agree C m1 running"
    by (rule stats_agree_cong [OF assms(2)]) (use read_events_stats [of now es mgr] r in simp)
  from dispatch_agree [OF d this assms(3)] ws show ?thesis by (auto intro: stats_agree_cong [OF _ st])
qed

lemma process_queue_limits:
  assumes "process_queue c shuffle t now es mgr = (ws, mgr')"
  shows "stats mgr q = Some s \<Longrightarrow> \<exists>s'. stats mgr' q = Some s' \<and> max_in_flight s' = max_in_flight s"
    and "(d, i, q) \<in> set ws \<Longrightarrow> \<exists>s'. stats mgr' q = Some s' \<and> in_flight s' \<le> max_in_flight s'"
proof -
  obtain m1 ms r where r: "read_events now es mgr = (m1, ms, r)" by (cases "read_events now es mgr")
  obtain ws' m2 where l: "dispatch c t (if 3 < length ms then shuffle ms else ms) m1 = (ws', m2)"
    by fastforce
  from assms(1) r l have "ws = ws'" "stats mgr' = stats m2" by (auto simp: process_queue_def Let_def)
  moreover have "stats m1 = stats mgr" using read_events_stats [of now es mgr] r by simp
  ultimately show "stats mgr q = Some s \<Longrightarrow> \<exists>s'. stats mgr' q = Some s' \<and> max_in_flight s' = max_in_flight s"
    and "(d, i, q) \<in> set ws \<Longrightarrow> \<exists>s'. stats mgr' q = Some s' \<and> in_flight s' \<le> max_in_flight s'"
    using dispatch_limits [OF l, of q s d i] by auto
qed

section \<open>Events and runs\<close>

text \<open>The workers whose completion a list of events reports.\<close>

fun done_keys :: "manager_event list \<Rightarrow> (queue_id \<times> queue_name) list" where
  "done_keys [] = []"
| "done_keys (WorkerDone i q s # evs) = (i, q) # done_keys evs"
| "done_keys (ev # evs) = done_keys evs"

lemma handle_done:
  assumes "stats_agree C mgr (add_mset (d, i, q) running)"
  shows "\<exists>mgr' r. handle_event c t now rnd (WorkerDone i q status) mgr = Some (mgr', r)
    \<and> stats_agree C mgr' running"
proof -
  from stats_agree_at [OF assms, of q] obtain s where s: "stats mgr q = Some s"
    and ok: "stats_ok C q (Suc (busy q running)) (Some s)"
    by (cases "stats mgr q") auto
  let ?s = "s\<lparr>in_flight := in_flight s - 1\<rparr>"
  from ok have "in_flight s \<noteq> 0" by auto
  then have u: "unat (in_flight s - 1) = unat (in_flight s) - 1" by (simp add: unat_minus_one)
  then have "in_flight s - 1 \<le> in_flight s" by (simp add: word_le_nat_alt)
  with u ok have agree: "stats_agree C (set_stats q ?s mgr) running"
    by (intro stats_agree_set [OF assms]) (auto intro: within_some_le)
  show ?thesis
    by (cases status) (auto simp: s Let_def intro!: stats_agree_cong [OF agree])
qed

lemma reload_agree:
  assumes "distinct (map fst (virtual_queues c))" and "stats_agree C mgr running" and "c \<in> C"
  shows "stats_agree C (reload_settings c t mgr) running"
proof -
  let ?f = "\<lambda>(q, threads) mgr. set_stats q (case stats mgr q of
      Some s \<Rightarrow> s\<lparr>max_in_flight := threads\<rparr> | None \<Rightarrow> queue_stats_new t threads) mgr"
  have "stats_agree C (fold ?f vs mgr) running"
    if "set vs \<subseteq> set (virtual_queues c)" and "stats_agree C mgr running" for vs mgr
    using that
  proof (induction vs arbitrary: mgr)
    case (Cons v vs)
    obtain q n where v: "v = (q, n)" by (cases v)
    with Cons.prems(1) assms(1) have "map_of (virtual_queues c) q = Some n" by simp
    then have n: "n \<in> threads_of C q"
      using assms(3) by (force simp: get_virtual_queue_or_default_def threads_of_def)
    have "stats_agree C (?f v mgr) running"
      unfolding v prod.case
      by (rule stats_agree_set [OF Cons.prems(2)])
        (use stats_agree_at [OF Cons.prems(2), of q] n in \<open>auto simp: queue_stats_new_def intro: within_some_0 split: option.splits\<close>)
    with Cons show ?case by simp
  qed simp
  from this [OF subset_refl assms(2)] show ?thesis by (simp add: reload_settings_def)
qed

text \<open>A reload sets the limits, and no other event changes them.\<close>

definition limit :: "queue_manager \<Rightarrow> queue_name \<Rightarrow> usize option" where
  "limit mgr q = map_option max_in_flight (stats mgr q)"

lemma reload_limit:
  assumes "distinct (map fst (virtual_queues c))"
  shows "limit (reload_settings c t mgr) q =
    (case map_of (virtual_queues c) q of Some n \<Rightarrow> Some n | None \<Rightarrow> limit mgr q)"
proof -
  let ?f = "\<lambda>(q, threads) mgr. set_stats q (case stats mgr q of
      Some s \<Rightarrow> s\<lparr>max_in_flight := threads\<rparr> | None \<Rightarrow> queue_stats_new t threads) mgr"
  have "limit (fold ?f vs mgr) q = (case map_of vs q of Some n \<Rightarrow> Some n | None \<Rightarrow> limit mgr q)"
    if "distinct (map fst vs)" for vs mgr
    using that
  proof (induction vs arbitrary: mgr)
    case (Cons v vs)
    obtain p n where v: "v = (p, n)" by (cases v)
    have f: "limit (?f v mgr) q = (if p = q then Some n else limit mgr q)"
      by (auto simp: v limit_def queue_stats_new_def split: option.splits)
    from Cons.prems v have "map_of vs p = None" by (simp add: map_of_eq_None_iff)
    with Cons.IH [of "?f v mgr"] Cons.prems f show ?case by (auto simp: v split: option.splits)
  qed simp
  from this [OF assms] show ?thesis by (simp add: reload_settings_def)
qed

lemma handle_event_limit:
  assumes "handle_event c t now rnd ev mgr = Some (mgr', r)" and "distinct (map fst (virtual_queues c))"
    and "map_of (virtual_queues c) q = Some n"
  shows "ev = ReloadSettings \<or> limit mgr q = Some n \<Longrightarrow> limit mgr' q = Some n"
proof (cases ev)
  case (WorkerDone i p s)
  assume "ev = ReloadSettings \<or> limit mgr q = Some n"
  with assms(1) WorkerDone show ?thesis
    by (cases s) (auto simp: limit_def Let_def split: option.splits if_splits)
qed (use assms(1) reload_limit [OF assms(2), of t mgr q] assms(3) in \<open>auto simp: limit_def\<close>)

lemma handle_events_limit:
  assumes "handle_events c t now rnd evs (mgr, r) = Some (mgr', r')" and "distinct (map fst (virtual_queues c))"
    and "map_of (virtual_queues c) q = Some n" and "ReloadSettings \<in> set evs \<or> limit mgr q = Some n"
  shows "limit mgr' q = Some n"
  using assms
proof (induction evs arbitrary: mgr r)
  case (Cons ev evs)
  from Cons.prems(1) obtain mgr1 r1 where e: "handle_event c t now rnd ev mgr = Some (mgr1, r1)"
    and es: "handle_events c t now rnd evs (mgr1, r1 \<or> r) = Some (mgr', r')"
    by (auto split: option.splits)
  from handle_event_limit [OF e Cons.prems(2,3)] Cons.prems(4)
  have "ReloadSettings \<in> set evs \<or> limit mgr1 q = Some n" by auto
  with Cons.IH [OF es Cons.prems(2,3)] show ?case by blast
qed simp

lemma handle_other:
  assumes "\<And>i q s. ev \<noteq> WorkerDone i q s" and "distinct (map fst (virtual_queues c))"
    and "stats_agree C mgr running" and "c \<in> C"
  shows "\<exists>mgr' r. handle_event c t now rnd ev mgr = Some (mgr', r) \<and> stats_agree C mgr' running"
proof (cases ev)
  case (WorkerDone i q s)
  with assms(1) show ?thesis by blast
qed (use assms(3) reload_agree [OF assms(2-4)] in \<open>auto intro: stats_agree_cong\<close>)

lemma handle_events_agree:
  assumes "stats_agree C mgr running" and "distinct (map fst (virtual_queues c))"
    and "F \<subseteq># running" and "image_mset snd F = mset (done_keys evs)" and "c \<in> C"
  shows "\<exists>mgr' r'. handle_events c t now rnd evs (mgr, r) = Some (mgr', r') \<and> stats_agree C mgr' (running - F)"
  using assms
proof (induction evs arbitrary: mgr r running F)
  case (Cons ev evs)
  show ?case
  proof (cases "\<exists>i q s. ev = WorkerDone i q s")
    case True
    then obtain i q s where ev: "ev = WorkerDone i q s" by blast
    with Cons.prems(4) have "(i, q) \<in># image_mset snd F" by simp
    then obtain e where "e \<in># F" "snd e = (i, q)" by auto
    then obtain d F' where F: "F = add_mset (d, i, q) F'"
      by (metis multi_member_split prod.collapse)
    from Cons.prems(3) obtain G where G: "running = F + G" by (auto simp: mset_subset_eq_exists_conv)
    let ?running = "F' + G"
    have running: "running = add_mset (d, i, q) ?running" and sub: "F' \<subseteq># ?running"
      using F G by simp_all
    from handle_done [of C mgr d i q ?running c t now rnd s] Cons.prems(1) running
    obtain mgr' r' where h: "handle_event c t now rnd ev mgr = Some (mgr', r')" "stats_agree C mgr' ?running"
      unfolding ev by blast
    have "image_mset snd F' = mset (done_keys evs)" using Cons.prems(4) ev F by simp
    from Cons.IH [OF h(2) Cons.prems(2) sub this Cons.prems(5), of "r' \<or> r"] h(1) show ?thesis
      by (simp add: F running)
  next
    case False
    with handle_other [OF _ Cons.prems(2,1,5), of ev] obtain mgr' r'
      where h: "handle_event c t now rnd ev mgr = Some (mgr', r')" "stats_agree C mgr' running" by blast
    have "done_keys (ev # evs) = done_keys evs" using False by (cases ev) auto
    with Cons.IH [OF h(2) Cons.prems(2,3) _ Cons.prems(5), of "r' \<or> r"] Cons.prems(4) h(1) show ?thesis by simp
  qed
qed simp

definition wake_events :: "wake \<Rightarrow> manager_event list" where
  "wake_events wk = (case wk of Received evs \<Rightarrow> evs | TimedOut \<Rightarrow> [])"

text \<open>
  A run of the manager with its workers: in every iteration some of the workers have reported
  that they are done. Each iteration has an environment of \<open>E\<close>, so the settings may be
  different in every iteration, whether or not a reload has been asked for; within one iteration
  they stay (the code builds the server anew for a reload and for the round). The clocks and the
  events that the store holds are arbitrary.
\<close>

inductive manager_run :: "manager_env set \<Rightarrow> queue_manager \<Rightarrow> queue_event multiset \<Rightarrow> bool" for E where
  start: "manager_run E (manager_new t) {#}"
| iterate: "manager_run E mgr running \<Longrightarrow> env \<in> E \<Longrightarrow> F \<subseteq># running \<Longrightarrow>
    image_mset snd F = mset (done_keys (wake_events wk)) \<Longrightarrow>
    manager_step env t now wk es mgr = Some (ws, mgr') \<Longrightarrow>
    manager_run E mgr' (running - F + mset ws)"

lemma manager_step_agree:
  assumes "stats_agree (me_config ` E) mgr running" and "distinct (map fst (virtual_queues (me_config env)))"
    and "F \<subseteq># running" and "image_mset snd F = mset (done_keys (wake_events wk))" and "env \<in> E"
  shows "\<exists>ws mgr'. manager_step env t now wk es mgr = Some (ws, mgr')
    \<and> stats_agree (me_config ` E) mgr' (running - F + mset ws)"
proof -
  from assms(5) have c: "me_config env \<in> me_config ` E" by simp
  obtain mgr1 refresh where h: "(case wk of
      Received evs \<Rightarrow> handle_events (me_config env) t now (me_random env) evs (mgr, False)
    | TimedOut \<Rightarrow> Some (mgr, True)) = Some (mgr1, refresh)"
    and agree: "stats_agree (me_config ` E) mgr1 (running - F)"
  proof (cases wk)
    case (Received evs)
    with handle_events_agree [OF assms(1,2,3) _ c, of evs t now "me_random env" False] assms(4) that
    show ?thesis by (auto simp: wake_events_def)
  next
    case TimedOut
    with assms(1,4) that show ?thesis by (simp add: wake_events_def)
  qed
  obtain ws mgr2 where p: "process_queue (me_config env) (me_shuffle env) t now es mgr1 = (ws, mgr2)"
    by fastforce
  from process_queue_agree [OF p agree c] agree show ?thesis
    unfolding manager_step_def h by (auto simp: p intro: stats_agree_cong)
qed

lemma manager_run_agree:
  assumes "manager_run E mgr running" and "\<And>env. env \<in> E \<Longrightarrow> distinct (map fst (virtual_queues (me_config env)))"
  shows "stats_agree (me_config ` E) mgr running"
  using assms
proof (induction rule: manager_run.induct)
  case (start t)
  then show ?case by (simp add: stats_agree_def manager_new_def)
next
  case (iterate mgr running env F wk t now es ws mgr')
  from manager_step_agree [OF iterate.IH [OF iterate.prems] iterate.prems iterate.hyps(3,4,2), of t now es]
    iterate.hyps(2,5) show ?case by auto
qed

lemma manager_step_limits:
  assumes "manager_step env t now wk es mgr = Some (ws, mgr')"
    and "distinct (map fst (virtual_queues (me_config env)))"
  shows "(d, i, q) \<in> set ws \<Longrightarrow> \<exists>s. stats mgr' q = Some s \<and> in_flight s \<le> max_in_flight s"
    and "ReloadSettings \<in> set (wake_events wk) \<Longrightarrow> map_of (virtual_queues (me_config env)) q = Some n \<Longrightarrow>
      limit mgr' q = Some n"
proof -
  from assms(1) obtain mgr1 refresh where h: "(case wk of
      Received evs \<Rightarrow> handle_events (me_config env) t now (me_random env) evs (mgr, False)
    | TimedOut \<Rightarrow> Some (mgr, True)) = Some (mgr1, refresh)"
    by (auto simp: manager_step_def split: option.splits)
  obtain ws' mgr2 where p: "process_queue (me_config env) (me_shuffle env) t now es mgr1 = (ws', mgr2)"
    by fastforce
  from assms(1) have cases: "(ws = ws' \<and> mgr' = mgr2) \<or> (ws = [] \<and> stats mgr' = stats mgr1)"
    unfolding manager_step_def h by (auto simp: p split: if_splits)
  then show "(d, i, q) \<in> set ws \<Longrightarrow> \<exists>s. stats mgr' q = Some s \<and> in_flight s \<le> max_in_flight s"
    using process_queue_limits(2) [OF p] by auto
  assume r: "ReloadSettings \<in> set (wake_events wk)" "map_of (virtual_queues (me_config env)) q = Some n"
  then obtain evs where "wk = Received evs" by (cases wk) (auto simp: wake_events_def)
  with h r handle_events_limit [OF _ assms(2) r(2)] have "limit mgr1 q = Some n"
    by (auto simp: wake_events_def)
  with cases process_queue_limits(1) [OF p, of q] show "limit mgr' q = Some n"
    by (auto simp: limit_def)
qed

end
