(* ===== verification/Queue_Consistency.thy ===== *)
theory Queue_Consistency
  imports Queue_Delivery
begin

text \<open>
  The store of the queue stays consistent (\<open>Queue_Spool\<close>, \<open>Queue_Delivery\<close>): every
  waiting message has its events, and the quota counters are the sums of what the stored
  messages have reserved.
\<close>

section \<open>Batches\<close>

lemma apply_ops_append:
  "apply_ops (xs @ ys) st = (case apply_ops xs st of None \<Rightarrow> None | Some st' \<Rightarrow> apply_ops ys st')"
  by (induction xs arbitrary: st) (auto split: option.splits)

text \<open>What a list of additions adds to one counter.\<close>

definition added :: "quota_counter \<Rightarrow> (quota_counter \<times> u64) list \<Rightarrow> u64" where
  "added c l = sum_list (map snd (filter (\<lambda>x. fst x = c) l))"

lemma added_simps [simp]:
  "added c [] = 0" "added c ((d, n) # l) = (if d = c then n + added c l else added c l)"
  by (simp_all add: added_def)

lemma apply_additions:
  "apply_ops (map (\<lambda>(c, n). AddCounter c n) l) st =
     Some (st\<lparr>st_counters := (\<lambda>c. st_counters st c + added c l)\<rparr>)"
proof (induction l arbitrary: st)
  case Nil
  then show ?case by simp
next
  case (Cons x l)
  obtain c n where "x = (c, n)" by (cases x)
  then show ?case by (simp add: Cons.IH fun_eq_iff add.assoc)
qed

lemma apply_set_events:
  "apply_ops (map (\<lambda>(q, d). SetEvent (d, i, q)) l) st =
     Some (st\<lparr>st_events := fold (\<lambda>(q, d). event_set (d, i, q)) l (st_events st)\<rparr>)"
  by (induction l arbitrary: st) auto

lemma event_set_set [simp]: "set (event_set e es) = insert e (set es)"
  by (auto simp: event_set_def set_insort_key)

lemma event_clear_set [simp]: "set (event_clear e es) = set es - {e}"
  by (auto simp: event_clear_def)

lemma fold_event_set:
  "set (fold (\<lambda>(q, d). event_set (d, i, q)) l es) = set es \<union> (\<lambda>(q, d). (d, i, q)) ` set l"
proof (induction l arbitrary: es)
  case (Cons x l)
  then show ?case by (cases x) auto
qed simp

lemma next_events_set: "(q, d) \<in> set (next_events m) \<longleftrightarrow> next_event m (Some q) = Some d"
  using map_of_eq_Some_iff [OF next_events_distinct, of m q d] by (simp add: next_events_map)

lemma event_image:
  "(d, j, p) \<in> (\<lambda>(q, d). (d, i, q)) ` set (next_events m) \<longleftrightarrow> j = i \<and> next_event m (Some p) = Some d"
  by (force simp: next_events_set [symmetric])

lemma next_event_cong:
  assumes "recipients m' = recipients m" and "created m' = created m"
  shows "next_event m' = next_event m" and "next_events m' = next_events m"
proof -
  have "earlier_event m' = earlier_event m"
    by (rule ext) (simp add: earlier_event_def assms(2))
  note eqs = this assms(1)
  show "next_event m' = next_event m" by (rule ext) (unfold next_event_def eqs, rule refl)
  show "next_events m' = next_events m" unfolding next_events_def eqs by (rule refl)
qed

lemma sorted_event_set: "sorted es \<Longrightarrow> sorted (event_set e es)"
  by (simp add: event_set_def sorted_insort)

lemma sorted_event_clear: "sorted es \<Longrightarrow> sorted (event_clear e es)"
  by (simp add: event_clear_def sorted_wrt_filter)

lemma sorted_fold_event_set:
  "sorted es \<Longrightarrow> sorted (fold (\<lambda>(q, d). event_set (d, i, q)) l es)"
  by (induction l arbitrary: es) (auto simp: sorted_event_set)

section \<open>The invariant\<close>

text \<open>What a message holds of a counter.\<close>

definition held :: "quota_counter \<Rightarrow> message \<Rightarrow> u64" where
  "held c m = added c (map (\<lambda>k. (key_counter k, key_amount (msg_size m) k)) (quota_keys m))"

definition held_at :: "quota_counter \<Rightarrow> queue_store \<Rightarrow> queue_id \<Rightarrow> u64" where
  "held_at c st i = (case st_messages st i of None \<Rightarrow> 0 | Some m \<Rightarrow> held c m)"

definition balanced :: "queue_store \<Rightarrow> bool" where
  "balanced st \<longleftrightarrow> (\<forall>c. st_counters st c = (\<Sum>i\<in>UNIV. held_at c st i))"

text \<open>The events of a message id are those that the message waits for.\<close>

definition events_agree :: "queue_store \<Rightarrow> bool" where
  "events_agree st \<longleftrightarrow> sorted (st_events st) \<and>
     (\<forall>d i q. (d, i, q) \<in> set (st_events st) \<longleftrightarrow>
       (\<exists>m. st_messages st i = Some m \<and> next_event m (Some q) = Some d))"

definition in_one_queue :: "queue_name \<Rightarrow> message \<Rightarrow> bool" where
  "in_one_queue q m \<longleftrightarrow> (\<forall>r\<in>set (recipients m). queue r = q)"

definition one_queue :: "queue_name \<Rightarrow> queue_store \<Rightarrow> bool" where
  "one_queue q st \<longleftrightarrow> (\<forall>i m. st_messages st i = Some m \<longrightarrow> in_one_queue q m)"

definition consistent :: "queue_name \<Rightarrow> queue_store \<Rightarrow> bool" where
  "consistent q st \<longleftrightarrow> balanced st \<and> events_agree st \<and> one_queue q st"

lemma sum_update:
  fixes f g :: "'i::finite \<Rightarrow> u64"
  assumes "\<And>j. j \<noteq> i \<Longrightarrow> g j = f j"
  shows "sum g UNIV = sum f UNIV - f i + g i"
proof -
  have "sum g UNIV = g i + sum g (UNIV - {i})" by (simp add: sum.remove [of UNIV i])
  moreover have "sum f UNIV = f i + sum f (UNIV - {i})" by (simp add: sum.remove [of UNIV i])
  moreover have "sum g (UNIV - {i}) = sum f (UNIV - {i})" by (rule sum.cong) (use assms in auto)
  ultimately show ?thesis by simp
qed

text \<open>One message changes: its counters by what it holds more, its events to what it waits for.\<close>

lemma consistent_update:
  assumes "consistent q st"
    and other: "\<And>j. j \<noteq> i \<Longrightarrow> st_messages st' j = st_messages st j"
    and counters: "\<And>c. st_counters st' c = st_counters st c - held_at c st i + held_at c st' i"
    and events: "\<And>d j p. (d, j, p) \<in> set (st_events st') \<longleftrightarrow>
      (if j = i then (\<exists>m. st_messages st' i = Some m \<and> next_event m (Some p) = Some d)
       else (d, j, p) \<in> set (st_events st))"
    and "sorted (st_events st')"
    and "\<And>m. st_messages st' i = Some m \<Longrightarrow> in_one_queue q m"
  shows "consistent q st'"
proof -
  have "held_at c st' j = held_at c st j" if "j \<noteq> i" for c j
    using other [OF that] by (simp add: held_at_def)
  from sum_update [of i "held_at c st'" "held_at c st" for c, OF this] assms(1) counters
  have "balanced st'" by (simp add: consistent_def balanced_def)
  moreover have "events_agree st'"
    using assms(1,5) by (auto simp: consistent_def events_agree_def events other)
  moreover have "one_queue q st'"
    unfolding one_queue_def
  proof (intro allI impI)
    fix j m assume "st_messages st' j = Some m"
    then show "in_one_queue q m"
      using assms(1,6) other [of j] by (cases "j = i") (auto simp: consistent_def one_queue_def)
  qed
  ultimately show ?thesis by (simp add: consistent_def)
qed

section \<open>Queueing, saving and removing one message\<close>

definition is_blob_op :: "queue_op \<Rightarrow> bool" where
  "is_blob_op x \<longleftrightarrow> (case x of SetBlob _ _ \<Rightarrow> True | ClearBlob _ \<Rightarrow> True | SetSample _ _ \<Rightarrow> True
     | SetSampleIndex _ \<Rightarrow> True | _ \<Rightarrow> False)"

definition same_queue :: "queue_store \<Rightarrow> queue_store \<Rightarrow> bool" where
  "same_queue st st' \<longleftrightarrow> st_messages st' = st_messages st \<and> st_events st' = st_events st
     \<and> st_counters st' = st_counters st"

lemma same_queue_refl [simp]: "same_queue st st"
  by (simp add: same_queue_def)

lemma same_queue_consistent: "same_queue st st' \<Longrightarrow> consistent q st' = consistent q st"
  by (simp add: same_queue_def consistent_def balanced_def events_agree_def one_queue_def held_at_def)

lemma apply_blob_ops:
  "\<forall>x\<in>set xs. is_blob_op x \<Longrightarrow> \<exists>st'. apply_ops xs st = Some st' \<and> same_queue st st'"
proof (induction xs arbitrary: st)
  case (Cons x xs)
  then obtain st1 where "apply_op x st = Some st1" "same_queue st st1"
    by (cases x) (auto simp: is_blob_op_def same_queue_def)
  with Cons show ?case by (fastforce simp: same_queue_def)
qed simp

lemma store_write_accepted:
  "apply_ops xs st = Some st' \<Longrightarrow> store_write accepted xs st = (if accepted then (True, st') else (False, st))"
  by (simp add: store_write_def)

lemma reserve_additions:
  "reserve_ops m = map (\<lambda>(c, n). AddCounter c n)
     (map (\<lambda>k. (key_counter k, key_amount (msg_size m) k)) (quota_keys m))"
  by (simp add: reserve_ops_def comp_def)

text \<open>The store with a new message.\<close>

definition with_message :: "queue_id \<Rightarrow> message \<Rightarrow> queue_store \<Rightarrow> queue_store" where
  "with_message i m st =
     st\<lparr>st_messages := (st_messages st)(i \<mapsto> m),
        st_events := fold (\<lambda>(q, d). event_set (d, i, q)) (next_events m) (st_events st),
        st_counters := (\<lambda>c. st_counters st c + held c m)\<rparr>"

lemma queue_ops_effect:
  "\<exists>st'. apply_ops (queue_ops io now source i m) st = Some st' \<and> same_queue (with_message i m st) st'"
proof -
  let ?sample = "sample_ops (hold_samples_for io) now (sample_item_id io) m (snd (source_flags source))"
  let ?blob = "?sample @ [ClearBlob (LinkTemporary (blob_hash m) (now + 120)),
    SetBlob (LinkId (blob_hash m) i) NoValue, SetBlob (BlobCommit (blob_hash m)) NoValue]"
  let ?st = "st\<lparr>st_counters := (\<lambda>c. st_counters st c + held c m),
    st_events := fold (\<lambda>(q, d). event_set (d, i, q)) (next_events m) (st_events st)\<rparr>"
  have "\<forall>x\<in>set ?blob. is_blob_op x"
    by (auto simp: sample_ops_def is_blob_op_def split: option.splits prod.splits)
  from apply_blob_ops [OF this, of ?st] obtain st1
    where st1: "apply_ops ?blob ?st = Some st1" "same_queue ?st st1" by blast
  have ops: "queue_ops io now source i m = reserve_ops m @ set_event_ops i m @ ?blob @ [SetMessage i m]"
    by (simp add: queue_ops_def)
  have "apply_ops (queue_ops io now source i m) st = Some (st1\<lparr>st_messages := (st_messages st1)(i \<mapsto> m)\<rparr>)"
    unfolding ops apply_ops_append reserve_additions apply_additions set_event_ops_def apply_set_events
    using st1(1) by (simp add: apply_ops_append apply_set_events held_def)
  with st1(2) show ?thesis by (simp add: same_queue_def with_message_def)
qed

lemma queue_message_effect:
  assumes "queue_message io now headers text source w st = (ok, st', refresh)"
  shows "same_queue st st' \<or>
    (\<exists>m. recipients m = recipients (message w) \<and> return_path m = return_path (message w)
       \<and> same_queue (with_message (queue_id w) m st) st')"
proof -
  let ?text = "case headers of Some h \<Rightarrow> h @ text | None \<Rightarrow> text"
  let ?m = "queue_prepare io source ?text (message w)"
  have "\<forall>x\<in>set [SetBlob (LinkTemporary (blob_hash ?m) (now + 120)) NoValue]. is_blob_op x"
    by (simp add: is_blob_op_def)
  from apply_blob_ops [OF this, of st] obtain st1 where st1: "same_queue st st1"
    "apply_ops [SetBlob (LinkTemporary (blob_hash ?m) (now + 120)) NoValue] st = Some st1" by blast
  obtain st2 where st2: "apply_ops (queue_ops io now source (queue_id w) ?m) st1 = Some st2"
    "same_queue (with_message (queue_id w) ?m st1) st2" using queue_ops_effect by blast
  from st1(1) st2(2) have "same_queue (with_message (queue_id w) ?m st) st2"
    by (simp add: same_queue_def with_message_def)
  moreover have "recipients ?m = recipients (message w)" "return_path ?m = return_path (message w)"
    by (simp_all add: queue_prepare_def)
  ultimately show ?thesis
    using assms st1 store_write_accepted [OF st1(2)] store_write_accepted [OF st2(1)]
    by (auto simp: queue_message_def Let_def split: if_splits)
qed

lemma with_message_consistent:
  assumes "consistent q st" and "st_messages st i = None" and "in_one_queue q m"
  shows "consistent q (with_message i m st)"
proof (rule consistent_update [OF assms(1), of i])
  have "(d, i, p) \<notin> set (st_events st)" for d p
    using assms(1,2) by (auto simp: consistent_def events_agree_def)
  then show "(d, j, p) \<in> set (st_events (with_message i m st)) \<longleftrightarrow>
      (if j = i then (\<exists>m'. st_messages (with_message i m st) i = Some m' \<and> next_event m' (Some p) = Some d)
       else (d, j, p) \<in> set (st_events st))" for d j p
    by (auto simp: with_message_def fold_event_set event_image)
  show "sorted (st_events (with_message i m st))"
    using assms(1) by (simp add: with_message_def consistent_def events_agree_def sorted_fold_event_set)
qed (use assms in \<open>auto simp: with_message_def held_at_def\<close>)

lemma queue_message_consistent:
  assumes "consistent q st" and "st_messages st (queue_id w) = None" and "in_one_queue q (message w)"
    and "queue_message io now headers text source w st = (ok, st', refresh)"
  shows "consistent q st'" and "i \<noteq> queue_id w \<Longrightarrow> st_messages st' i = st_messages st i"
    and "dom (st_messages st') \<subseteq> insert (queue_id w) (dom (st_messages st))"
proof -
  from queue_message_effect [OF assms(4)] consider "same_queue st st'"
    | m where "recipients m = recipients (message w)" "same_queue (with_message (queue_id w) m st) st'"
    by blast
  then have "consistent q st' \<and> (i \<noteq> queue_id w \<longrightarrow> st_messages st' i = st_messages st i)
    \<and> dom (st_messages st') \<subseteq> insert (queue_id w) (dom (st_messages st))"
  proof cases
    case 1
    with assms(1) show ?thesis by (auto simp: same_queue_consistent) (auto simp: same_queue_def)
  next
    case 2
    with assms(3) have "in_one_queue q m" by (simp add: in_one_queue_def)
    with with_message_consistent [OF assms(1,2)] 2(2) show ?thesis
      by (auto simp: same_queue_consistent) (auto simp: same_queue_def with_message_def)
  qed
  then show "consistent q st'" and "i \<noteq> queue_id w \<Longrightarrow> st_messages st' i = st_messages st i"
    and "dom (st_messages st') \<subseteq> insert (queue_id w) (dom (st_messages st))" by blast+
qed

text \<open>Saving: the released keys leave the message and the counters together.\<close>

lemma release_quota_held:
  "held c (fst (release_quota m)) = held c m + added c (snd (release_quota m))"
proof -
  have "added c (map (\<lambda>k. (key_counter k, key_amount n k)) (filter (\<lambda>k. key_id k \<notin> I) ks)) =
      added c (map (\<lambda>k. (key_counter k, key_amount n k)) ks)
      + added c (map (\<lambda>k. (key_counter k, - key_amount n k)) (filter (\<lambda>k. key_id k \<in> I) ks))" for ks n I
    by (induction ks) auto
  then show ?thesis
    by (simp add: release_quota_def held_def Let_def)
qed

lemma release_quota_frame:
  "recipients (fst (release_quota m)) = recipients m" "created (fst (release_quota m)) = created m"
  "next_event (fst (release_quota m)) = next_event m"
  "next_events (fst (release_quota m)) = next_events m"
proof -
  show *: "recipients (fst (release_quota m)) = recipients m" "created (fst (release_quota m)) = created m"
    by (simp_all add: release_quota_def Let_def)
  show "next_event (fst (release_quota m)) = next_event m"
    "next_events (fst (release_quota m)) = next_events m"
    by (rule next_event_cong [OF *])+
qed

text \<open>The message of a worker: only its recipients have changed since it was read.\<close>

definition same_quota :: "message \<Rightarrow> message \<Rightarrow> bool" where
  "same_quota m m' \<longleftrightarrow> quota_keys m' = quota_keys m \<and> msg_size m' = msg_size m"

lemma same_quota_held: "same_quota m m' \<Longrightarrow> held c m' = held c m"
  by (simp add: same_quota_def held_def)

lemma only_event:
  assumes "consistent q st" and "st_messages st i = Some m"
  shows "(d, i, p) \<in> set (st_events st) \<longleftrightarrow> p = q \<and> next_event m (Some q) = Some d"
proof -
  have "next_event m (Some p) = None" if "p \<noteq> q"
    using that assms by (auto simp: consistent_def one_queue_def in_one_queue_def next_event_None
        waiting_def filter_empty_conv in_queue_def)
  moreover have "(d, i, p) \<in> set (st_events st) \<longleftrightarrow> next_event m (Some p) = Some d"
    using assms by (simp add: consistent_def events_agree_def)
  ultimately show ?thesis by fastforce
qed

lemma save_ops_effect:
  assumes "\<not> is_multi_queue w"
  shows "apply_ops (save_ops (Some d) w) st =
    Some (let m = fst (release_quota (message w)); i = queue_id w in
      st\<lparr>st_counters := (\<lambda>c. st_counters st c + added c (snd (release_quota (message w)))),
         st_events := fold (\<lambda>(q, d). event_set (d, i, q)) (next_events m)
           (event_clear (d, i, queue_name w) (st_events st)),
         st_messages := (st_messages st)(i \<mapsto> m)\<rparr>)"
  unfolding save_ops_def Let_def release_ops_def apply_ops_append apply_additions set_event_ops_def
  using assms by (simp add: apply_ops_append apply_set_events)

lemma save_changes_consistent:
  assumes "consistent q st" and "st_messages st (queue_id w) = Some m" and "same_quota m (message w)"
    and "next_event m (Some q) = Some d" and "queue_name w = q" and "\<not> is_multi_queue w"
    and "in_one_queue q (message w)"
  shows "consistent q (snd (save_changes accepted (Some d) w st))"
proof (cases accepted)
  case True
  let ?i = "queue_id w" and ?m = "fst (release_quota (message w))"
  define st' where "st' = snd (save_changes accepted (Some d) w st)"
  have st': "st' = st\<lparr>st_counters := (\<lambda>c. st_counters st c + added c (snd (release_quota (message w)))),
         st_events := fold (\<lambda>(q, d). event_set (d, ?i, q)) (next_events ?m)
           (event_clear (d, ?i, queue_name w) (st_events st)),
         st_messages := (st_messages st)(?i \<mapsto> ?m)\<rparr>"
    unfolding st'_def save_changes_def store_write_accepted [OF save_ops_effect [OF assms(6)]]
    using True by (simp add: Let_def)
  have "consistent q st'"
  proof (rule consistent_update [OF assms(1), of ?i])
    show "st_messages st' j = st_messages st j" if "j \<noteq> ?i" for j using that st' by simp
    show "st_counters st' c = st_counters st c - held_at c st ?i + held_at c st' ?i" for c
      using assms(2) same_quota_held [OF assms(3), of c]
      by (simp add: st' held_at_def release_quota_held)
    show "(d', j, p) \<in> set (st_events st') \<longleftrightarrow>
      (if j = ?i then (\<exists>m. st_messages st' ?i = Some m \<and> next_event m (Some p) = Some d')
       else (d', j, p) \<in> set (st_events st))" for d' j p
      using only_event [OF assms(1,2)] assms(4,5)
      by (auto simp: st' fold_event_set event_image)
    show "sorted (st_events st')"
      using assms(1) by (simp add: st' consistent_def events_agree_def sorted_fold_event_set sorted_event_clear)
    show "in_one_queue q m" if "st_messages st' ?i = Some m" for m
      using that assms(7) release_quota_frame(1) [of "message w"] by (auto simp: st' in_one_queue_def)
  qed
  then show ?thesis by (simp add: st'_def)
next
  case False
  with assms(1) show ?thesis by (simp add: save_changes_def store_write_def)
qed

lemma remove_ops_effect:
  "\<exists>st'. apply_ops (remove_ops (Some d) w) st = Some st' \<and>
    st_messages st' = (st_messages st)(queue_id w := None) \<and>
    st_events st' = event_clear (d, queue_id w, queue_name w) (st_events st) \<and>
    st_counters st' = (\<lambda>c. st_counters st c - held c (message w))"
proof -
  let ?m = "message w"
  have all: "release_all_ops ?m = map (\<lambda>(c, n). AddCounter c n)
      (map (\<lambda>k. (key_counter k, - key_amount (msg_size ?m) k)) (quota_keys ?m))"
    by (simp add: release_all_ops_def comp_def)
  have neg: "added c (map (\<lambda>k. (key_counter k, - key_amount n k)) ks)
      = - added c (map (\<lambda>k. (key_counter k, key_amount n k)) ks)" for c n ks
    by (induction ks) auto
  show ?thesis
    unfolding remove_ops_def Let_def all
    by (simp add: apply_ops_append apply_additions neg held_def del: map_map)
qed

lemma remove_message_consistent:
  assumes "consistent q st" and "st_messages st (queue_id w) = Some m" and "same_quota m (message w)"
    and "next_event m (Some q) = Some d" and "queue_name w = q"
  shows "consistent q (snd (remove_message accepted (Some d) w st))"
proof (cases accepted)
  case True
  let ?i = "queue_id w"
  obtain st' where st': "apply_ops (remove_ops (Some d) w) st = Some st'"
    "st_messages st' = (st_messages st)(?i := None)"
    "st_events st' = event_clear (d, ?i, queue_name w) (st_events st)"
    "st_counters st' = (\<lambda>c. st_counters st c - held c (message w))"
    using remove_ops_effect by blast
  have "consistent q st'"
  proof (rule consistent_update [OF assms(1), of ?i])
    show "(d', j, p) \<in> set (st_events st') \<longleftrightarrow>
      (if j = ?i then (\<exists>m. st_messages st' ?i = Some m \<and> next_event m (Some p) = Some d')
       else (d', j, p) \<in> set (st_events st))" for d' j p
      using only_event [OF assms(1,2)] assms(4,5) by (auto simp: st')
    show "sorted (st_events st')"
      using assms(1) by (simp add: st' consistent_def events_agree_def sorted_event_clear)
  qed (use assms(2) same_quota_held [OF assms(3)] in \<open>simp_all add: st' held_at_def\<close>)
  with True show ?thesis by (simp add: remove_message_def store_write_accepted [OF st'(1)])
next
  case False
  with assms(1) show ?thesis by (simp add: remove_message_def store_write_def)
qed

section \<open>The message of a worker\<close>

definition one_strategy :: "queue_name \<Rightarrow> queue_config \<Rightarrow> bool" where
  "one_strategy q c \<longleftrightarrow> (\<forall>m r. st_virtual_queue (strategy c m r) = q)"

text \<open>What a step of a worker keeps of its message.\<close>

definition keeps :: "queue_name \<Rightarrow> message \<Rightarrow> message \<Rightarrow> bool" where
  "keeps q m m' \<longleftrightarrow> same_quota m m' \<and> (in_one_queue q m \<longrightarrow> in_one_queue q m')"

lemma keeps_refl [simp]: "keeps q m m"
  by (simp add: keeps_def same_quota_def)

lemma keeps_trans: "keeps q a b \<Longrightarrow> keeps q b c \<Longrightarrow> keeps q a c"
  by (simp add: keeps_def same_quota_def)

lemma keeps_map:
  "(\<And>r. queue r = q \<Longrightarrow> queue (f r) = q) \<Longrightarrow> keeps q m (m\<lparr>recipients := map f (recipients m)\<rparr>)"
  by (simp add: keeps_def same_quota_def in_one_queue_def)

lemma keeps_update:
  assumes "queue (recipients m ! i) = q \<Longrightarrow> queue r = q"
  shows "keeps q m (m\<lparr>recipients := (recipients m)[i := r]\<rparr>)"
proof -
  have "queue x = q" if one: "in_one_queue q m" and x: "x \<in> set ((recipients m)[i := r])" for x
  proof (cases "i < length (recipients m)")
    case True
    with one have "queue r = q" by (intro assms) (simp add: in_one_queue_def)
    with one x set_update_subset_insert [of "recipients m" i r] show ?thesis
      by (auto simp: in_one_queue_def)
  qed (use one x in \<open>simp add: in_one_queue_def list_update_beyond\<close>)
  then show ?thesis by (simp add: keeps_def same_quota_def in_one_queue_def [of q "m\<lparr>recipients := _\<rparr>"])
qed

lemma keeps_fold: "(\<And>x m. keeps q m (f x m)) \<Longrightarrow> keeps q m (fold f xs m)"
  by (induction xs arbitrary: m) (auto intro: keeps_trans)

lemma keeps_expire: "keeps q (message w) (message (fst (has_pending_delivery now w)))"
proof -
  have "queue (expire_recipient cr now r) = queue r" for cr r
    by (auto simp: expire_recipient_def split: status.splits)
  then show ?thesis
    unfolding has_pending_delivery_def Let_def by (simp add: keeps_map)
qed

lemma dsn_recipients_queues:
  "map queue (fst (dsn_recipients nf f now cr rs p)) = map queue rs"
proof (induction rs arbitrary: p)
  case (Cons r rs)
  have "queue (fst (dsn_recipient nf f now cr r p)) = queue r"
    by (auto simp: dsn_recipient_def Let_def mark_dsn_sent_def split: status.splits)
  then show ?case using Cons.IH by (simp add: Let_def split_beta)
qed simp

lemma keeps_build_dsn: "keeps q m (fst (build_dsn e now m))"
proof -
  obtain rs p where r: "dsn_recipients (nflags e) (rfc822_date e) now (created m) (recipients m) no_parts = (rs, p)"
    by fastforce
  with dsn_recipients_queues [of "nflags e" "rfc822_date e" now "created m" "recipients m" no_parts]
  have "map queue rs = map queue (recipients m)" by simp
  then have "queue ` set rs = queue ` set (recipients m)" by (metis set_map)
  then have "in_one_queue q m \<Longrightarrow> in_one_queue q (m\<lparr>recipients := rs\<rparr>)"
    by (auto simp: in_one_queue_def image_iff set_eq_iff)
  with r show ?thesis
    by (simp add: build_dsn_def keeps_def same_quota_def Let_def)
qed

lemma keeps_send_dsn: "keeps q m (fst (send_dsn e c now m))"
proof -
  have "keeps q m (handle_double_bounce nf now m)" for m nf
    unfolding handle_double_bounce_def
    by (rule keeps_map) (auto simp: double_bounce_def Let_def mark_dsn_sent_def)
  moreover have "keeps q m (update_next_dsn c now m)" for m
    unfolding update_next_dsn_def
    by (rule keeps_map) (auto simp: next_notify_def Let_def)
  ultimately show ?thesis
    using keeps_build_dsn [of q m e now]
    by (auto simp: send_dsn_def split: prod.splits intro: keeps_trans)
qed

lemma keeps_set_status:
  assumes "one_strategy q c"
  shows "keeps q m (set_rcpt_status c now s i m)"
proof -
  let ?r = "(recipients m ! i)\<lparr>rcpt_status := s\<rparr>"
  let ?m = "m\<lparr>recipients := (recipients m)[i := ?r]\<rparr>"
  have 1: "keeps q m ?m" by (rule keeps_update) simp
  have 2: "keeps q ?m (?m\<lparr>recipients := (recipients ?m)[i := ?r\<lparr>retry := x, expires := y,
      queue := st_virtual_queue (strategy c ?m ?r)\<rparr>]\<rparr>)" for x y
    by (rule keeps_update) (use assms in \<open>simp add: one_strategy_def\<close>)
  show ?thesis
    using 1 keeps_trans [OF 1 2] by (simp add: set_rcpt_status_def Let_def)
qed

lemma keeps_rate_limit: "keeps q m (set_rcpt_rate_limit t i m)"
  unfolding set_rcpt_rate_limit_def by (rule keeps_update) (simp add: rate_limit_recipient_def)

lemma keeps_result: "one_strategy q c \<Longrightarrow> keeps q m (apply_result c now d m)"
  unfolding apply_result_def
  by (auto split: delivery_result.split intro!: keeps_fold keeps_set_status keeps_rate_limit)

lemma keeps_rate_limit_sender: "keeps q (message w) (message (rate_limit_sender now t w))"
  unfolding rate_limit_sender_def by (simp, rule keeps_map) (simp add: rate_limit_recipient_def)

section \<open>New messages of a worker\<close>

definition grows :: "queue_name \<Rightarrow> queue_id \<Rightarrow> nat \<Rightarrow> queue_store \<Rightarrow> queue_store \<Rightarrow> bool" where
  "grows q i n st st' \<longleftrightarrow>
     (consistent q st \<longrightarrow> st_messages st i \<noteq> None \<longrightarrow> card (dom (st_messages st)) + n < 2 ^ 64 \<longrightarrow>
      consistent q st' \<and> st_messages st' i = st_messages st i
      \<and> card (dom (st_messages st')) \<le> card (dom (st_messages st)) + n)"

lemma grows_refl [simp]: "grows q i n st st"
  by (simp add: grows_def)

lemma grows_trans: "grows q i n a b \<Longrightarrow> grows q i k b c \<Longrightarrow> grows q i (n + k) a c"
  by (auto simp: grows_def)

lemma grows_mono: "grows q i n a b \<Longrightarrow> n \<le> k \<Longrightarrow> grows q i k a b"
  by (auto simp: grows_def)

definition fresh_ids :: "('r, 'f) delivery_env \<Rightarrow> bool" where
  "fresh_ids e \<longleftrightarrow> (\<forall>st. (\<exists>i. st_messages st i = None) \<longrightarrow> st_messages st (de_new_id e st) = None)"

lemma free_id:
  assumes "card (dom (f :: queue_id \<Rightarrow> 'a option)) < 2 ^ 64"
  shows "\<exists>i. f i = None"
proof (rule ccontr)
  assume "\<nexists>i. f i = None"
  then have "dom f = UNIV" by auto
  then have "card (dom f) = 2 ^ 64" by (simp add: card_word)
  with assms show False by simp
qed

lemma expand_queue:
  assumes "one_strategy q c" and "in_one_queue q m"
  shows "in_one_queue q (expand_and_add_recipient lower resolve c now rcpt m)"
proof -
  have add: "in_one_queue q (add_expanded_recipient lower c now a m)" if "in_one_queue q m" for a m
    using that assms(1) by (simp add: add_expanded_recipient_def in_one_queue_def one_strategy_def Let_def)
  have "in_one_queue q (fold (add_expanded_recipient lower c now) as m)" if "in_one_queue q m" for as m
    using that by (induction as arbitrary: m) (auto intro: add)
  with add assms(2) show ?thesis
    by (simp add: expand_and_add_recipient_def split: rcpt_resolution.split)
qed

lemma grows_queue_message:
  assumes "fresh_ids e" and "queue_id w = de_new_id e st" and "in_one_queue q (message w)"
  shows "grows q i 1 st (fst (snd (queue_message io now headers text source w st)))"
  unfolding grows_def
proof (intro impI)
  assume st: "consistent q st" "st_messages st i \<noteq> None" "card (dom (st_messages st)) + 1 < 2 ^ 64"
  then have "st_messages st (queue_id w) = None"
    using assms(1,2) free_id [of "st_messages st"] by (simp add: fresh_ids_def)
  moreover obtain ok st' refresh where q: "queue_message io now headers text source w st = (ok, st', refresh)"
    by (cases "queue_message io now headers text source w st")
  ultimately have "consistent q st'" "j \<noteq> queue_id w \<Longrightarrow> st_messages st' j = st_messages st j"
    "dom (st_messages st') \<subseteq> insert (queue_id w) (dom (st_messages st))" for j
    using queue_message_consistent [OF st(1) _ assms(3) q] by blast+
  moreover have "i \<noteq> queue_id w" using st(2) \<open>st_messages st (queue_id w) = None\<close> by auto
  moreover have "card (dom (st_messages st')) \<le> card (insert (queue_id w) (dom (st_messages st)))"
    by (rule card_mono) (use calculation(3) in auto)
  moreover have "card (insert (queue_id w) (dom (st_messages st))) \<le> card (dom (st_messages st)) + 1"
    by (simp add: card_insert_if)
  ultimately show "consistent q (fst (snd (queue_message io now headers text source w st)))
    \<and> st_messages (fst (snd (queue_message io now headers text source w st))) i = st_messages st i
    \<and> card (dom (st_messages (fst (snd (queue_message io now headers text source w st)))))
        \<le> card (dom (st_messages st)) + 1"
    unfolding q by auto
qed

lemma new_message_queue: "in_one_queue q (message (new_message lower i now from span))"
  by (simp add: new_message_def in_one_queue_def)

lemma grows_send_dsn:
  assumes "fresh_ids e" and "one_strategy q (de_config e)"
  shows "grows q i 1 st (snd (send_dsn_queued e now w st))"
proof -
  have "grows q i 1 st (queue_dsn e now w dsn st)" for dsn
    unfolding queue_dsn_def Let_def
    by (rule grows_queue_message [OF assms(1)], simp add: new_message_def, simp,
      rule expand_queue [OF assms(2) new_message_queue])
  then show ?thesis by (simp add: send_dsn_queued_def split: prod.split option.split)
qed

lemma grows_autogenerated:
  assumes "fresh_ids e" and "one_strategy q (de_config e)"
  shows "grows q i 1 st (queue_autogenerated e now w a st)"
proof -
  let ?new = "new_message (de_lower e) (de_new_id e st) now (ag_sender a) (span_id w)"
  let ?m = "fold (expand_and_add_recipient (de_lower e) (de_resolve e) (de_config e) now)
    (ag_recipients a) (message ?new)"
  have "in_one_queue q (fold (expand_and_add_recipient (de_lower e) (de_resolve e) (de_config e) now) as m)"
    if "in_one_queue q m" for as m
    using that by (induction as arbitrary: m) (auto intro: expand_queue [OF assms(2)])
  from this [OF new_message_queue] have m: "in_one_queue q ?m" .
  have quota: "queue_id x = queue_id w' \<and> recipients (message x) = recipients (message w')"
    if "has_quota qe rc qs cnt w' = Some x" for qe rc cnt w' x and qs :: "'b queue_quotas"
    using that by (auto simp: has_quota_def Let_def split: option.splits)
  show ?thesis
    unfolding queue_autogenerated_def Let_def
    using m by (auto split: option.split intro!: grows_queue_message [OF assms(1)] dest!: quota
      simp: new_message_def in_one_queue_def simp del: One_nat_def)
qed

section \<open>A delivery attempt\<close>

definition autogenerates :: "('r, 'f) delivery_env \<Rightarrow> nat \<Rightarrow> bool" where
  "autogenerates e n \<longleftrightarrow> (\<forall>m rs. length (snd (de_ingest e m rs)) \<le> n)"

lemma grows_local:
  assumes "fresh_ids e" and "one_strategy q (de_config e)" and "autogenerates e n"
  shows "grows q i n st (snd (deliver_local e now w idxs st))"
proof -
  have "grows q i (length as) st (fold (queue_autogenerated e now w) as st)" for as
  proof (induction as arbitrary: st)
    case (Cons a as)
    from grows_trans [OF grows_autogenerated [OF assms(1,2)] Cons] show ?case by simp
  qed simp
  moreover have "length (snd (de_ingest e m rs)) \<le> n" for m rs
    using assms(3) by (simp add: autogenerates_def)
  ultimately show ?thesis
    by (auto simp: deliver_local_def Let_def split: prod.split intro: grows_mono) (metis grows_mono snd_conv)
qed

lemma grows_routes:
  assumes "fresh_ids e" and "one_strategy q (de_config e)" and "autogenerates e n"
  shows "grows q i (length gs * n) st (snd (deliver_routes e now w gs st))"
proof (induction gs arbitrary: st)
  case (Cons g gs)
  have "grows q i n st (snd (deliver_route e now w g st))"
    using grows_local [OF assms] by (auto simp: deliver_route_def split: prod.split option.split)
  from grows_trans [OF this Cons] show ?case
    by (simp add: Let_def split_beta)
qed simp

text \<open>There are at most as many routes as recipients.\<close>

lemma group_insert_length: "length (group_insert k i gs) \<le> Suc (length gs)"
  by (induction k i gs rule: group_insert.induct) auto

lemma group_routes_length: "length (group_routes route now w) \<le> length (recipients (message w))"
proof -
  have "length (fold (\<lambda>(i, r) gs. if P r then group_insert (k r) i gs else gs) xs gs) \<le> length gs + length xs"
    for P :: "recipient \<Rightarrow> bool" and k :: "recipient \<Rightarrow> string \<times> 'a" and xs :: "(nat \<times> recipient) list" and gs
  proof (induction xs arbitrary: gs)
    case (Cons x xs)
    obtain i r where x: "x = (i, r)" by (cases x)
    show ?case
      using Cons [of "group_insert (k r) i gs"] Cons [of gs] group_insert_length [of "k r" i gs]
      by (simp add: x)
  qed simp
  from this [of "due_now now w" "\<lambda>r. (domain_part (address r), route (message w) r)"
      "enumerate 0 (recipients (message w))" "[]"]
  show ?thesis by (simp add: group_routes_def Let_def)
qed

definition permutes_routes :: "('r, 'f) delivery_env \<Rightarrow> bool" where
  "permutes_routes e \<longleftrightarrow> (\<forall>gs. length (de_order e gs) = length gs)"

lemma attempt_grows:
  assumes "fresh_ids e" and "one_strategy q (de_config e)" and "autogenerates e n" and "permutes_routes e"
  shows "grows q i (length (recipients (message w)) * n) st (snd (attempt e now w st))"
proof -
  have "length (de_order e (group_routes (de_route e) now w)) \<le> length (recipients (message w))"
    using group_routes_length [of "de_route e" now w] assms(4) by (simp add: permutes_routes_def)
  from grows_mono [OF grows_routes [OF assms(1,2,3)] mult_le_mono1 [OF this]]
  show ?thesis by (simp add: attempt_def split: prod.split) (metis snd_conv)
qed

lemma attempt_keeps:
  assumes "one_strategy q (de_config e)"
  shows "keeps q (message w) (message (fst (attempt e now w st)))"
  by (auto simp: attempt_def split: prod.split intro!: keeps_fold keeps_result [OF assms])

text \<open>The worker's message and the store it was read from.\<close>

definition working :: "queue_name \<Rightarrow> u64 \<Rightarrow> message \<Rightarrow> message_wrapper \<Rightarrow> queue_store \<Rightarrow> bool" where
  "working q d m w st \<longleftrightarrow> consistent q st \<and> st_messages st (queue_id w) = Some m
     \<and> same_quota m (message w) \<and> next_event m (Some q) = Some d \<and> queue_name w = q
     \<and> \<not> is_multi_queue w \<and> in_one_queue q (message w)"

lemma working_save: "working q d m w st \<Longrightarrow> consistent q (snd (save_changes accepted (Some d) w st))"
  unfolding working_def by (blast intro: save_changes_consistent)

lemma working_remove: "working q d m w st \<Longrightarrow> consistent q (snd (remove_message accepted (Some d) w st))"
  unfolding working_def by (blast intro: remove_message_consistent)

definition same_wrapper :: "message_wrapper \<Rightarrow> message_wrapper \<Rightarrow> bool" where
  "same_wrapper w w' \<longleftrightarrow> queue_id w' = queue_id w \<and> queue_name w' = queue_name w
     \<and> is_multi_queue w' = is_multi_queue w"

lemma working_step:
  assumes "working q d m w st" and "grows q (queue_id w) n st st'"
    and "card (dom (st_messages st)) + n < 2 ^ 64" and "same_wrapper w w'"
    and "keeps q (message w) (message w')"
  shows "working q d m w' st' \<and> card (dom (st_messages st')) \<le> card (dom (st_messages st)) + n"
  using assms by (auto simp: working_def keeps_def same_quota_def grows_def same_wrapper_def)

lemma wrapper_frame [simp]:
  "same_wrapper w (fst (has_pending_delivery now w))"
  "same_wrapper w (fst (send_dsn_queued e now w st))"
  "same_wrapper w (fst (attempt e now w st))"
  "same_wrapper w (rate_limit_sender now t w)"
  by (simp_all add: same_wrapper_def has_pending_delivery_def send_dsn_queued_def attempt_def
      rate_limit_sender_def Let_def split_beta)

lemma dsn_recipients_length: "length (fst (dsn_recipients nf f now cr rs p)) = length rs"
  using arg_cong [OF dsn_recipients_queues [of nf f now cr rs p], of length] by simp

lemma send_dsn_length: "length (recipients (fst (send_dsn e c now m))) = length (recipients m)"
  using dsn_recipients_length [of "nflags e" "rfc822_date e" now "created m" "recipients m" no_parts]
  by (simp add: send_dsn_def build_dsn_def update_next_dsn_def handle_double_bounce_def Let_def split_beta)

lemma recipients_length:
  "length (recipients (message (fst (has_pending_delivery now w)))) = length (recipients (message w))"
  "length (recipients (message (fst (send_dsn_queued e now w st)))) = length (recipients (message w))"
  by (simp_all add: has_pending_delivery_def send_dsn_queued_def Let_def split_beta send_dsn_length)

lemma keeps_send_dsn_queued: "keeps q (message w) (message (fst (send_dsn_queued e now w st)))"
  using keeps_send_dsn by (simp add: send_dsn_queued_def split_beta)

lemma deliver_task_consistent:
  assumes env: "fresh_ids e" "one_strategy q (de_config e)" "autogenerates e n" "permutes_routes e"
    and w: "working q d m w st"
    and room: "card (dom (st_messages st)) + length (recipients (message w)) * n + 2 < 2 ^ 64"
  shows "consistent q (snd (deliver_task e now d w st))"
proof -
  obtain w1 p where 1: "has_pending_delivery now w = (w1, p)" by fastforce
  obtain w2 st2 where 2: "send_dsn_queued e now w1 st = (w2, st2)" by fastforce
  obtain w3 st3 where 3: "attempt e now w2 st2 = (w3, st3)" by fastforce
  obtain w4 st4 where 4: "send_dsn_queued e now w3 st3 = (w4, st4)" by fastforce
  have w1: "working q d m w1 st"
    using working_step [OF w grows_refl [where n = 0], of w1] wrapper_frame(1) [of w now]
      keeps_expire [of q w now] room by (simp add: 1)
  have w2: "working q d m w2 st2 \<and> card (dom (st_messages st2)) \<le> card (dom (st_messages st)) + 1"
    by (rule working_step [OF w1])
      (use grows_send_dsn [OF env(1,2), of "queue_id w1" st now w1] wrapper_frame(2) [of w1 e now st]
        keeps_send_dsn_queued [of q w1 e now st] room in \<open>simp_all add: 2\<close>)
  have len: "length (recipients (message w2)) = length (recipients (message w))"
    using recipients_length(1) [of now w] recipients_length(2) [of e now w1 st] by (simp add: 1 2)
  have limited: "working q d m (rate_limit_sender now t w2) st2" for t
    using working_step [OF conjunct1 [OF w2] grows_refl [where n = 0], of "rate_limit_sender now t w2"]
      keeps_rate_limit_sender [of q w2 now t] w2 room by simp
  have w3: "working q d m w3 st3 \<and>
      card (dom (st_messages st3)) \<le> card (dom (st_messages st2)) + length (recipients (message w2)) * n"
    by (rule working_step [OF conjunct1 [OF w2]])
      (use attempt_grows [OF env, of "queue_id w2" w2 st2 now] wrapper_frame(3) [of w2 e now st2]
        attempt_keeps [OF env(2), of w2 now st2] w2 room in \<open>simp_all add: 3 len\<close>)
  have w4: "working q d m w4 st4 \<and> card (dom (st_messages st4)) \<le> card (dom (st_messages st3)) + 1"
    by (rule working_step [OF conjunct1 [OF w3]])
      (use grows_send_dsn [OF env(1,2), of "queue_id w3" st3 now w3] wrapper_frame(2) [of w3 e now st3]
        keeps_send_dsn_queued [of q w3 e now st3] w3 w2 room in \<open>simp_all add: 4 len\<close>)
  note outcomes = working_save [OF limited] working_save [OF conjunct1 [OF w2]]
    working_save [OF conjunct1 [OF w4]] working_remove [OF conjunct1 [OF w2]]
    working_remove [OF conjunct1 [OF w4]]
  from outcomes show ?thesis
    by (simp add: deliver_task_def 1 2 3 4 Let_def split: option.split)
qed

section \<open>Runs over the store\<close>

text \<open>
  A store filled by the server: messages are queued under unused ids, and workers attempt
  the events that are in it, each in one of the environments \<open>E\<close>. There is room
  for the messages an attempt may queue: its two delivery status notifications and
  at most \<open>n\<close> generated messages for each recipient.
\<close>

definition empty_store :: queue_store where
  "empty_store = \<lparr>st_messages = (\<lambda>_. None), st_events = [], st_counters = (\<lambda>_. 0),
     st_blob_keys = (\<lambda>_. None), st_samples = (\<lambda>_. None), st_sample_index = {}\<rparr>"

definition waiting_recipients :: "queue_store \<Rightarrow> queue_id \<Rightarrow> nat" where
  "waiting_recipients st i = (case st_messages st i of None \<Rightarrow> 0 | Some m \<Rightarrow> length (recipients m))"

definition room_for_attempt :: "nat \<Rightarrow> queue_store \<Rightarrow> queue_id \<Rightarrow> bool" where
  "room_for_attempt n st i \<longleftrightarrow>
     card (dom (st_messages st)) + waiting_recipients st i * n + 2 < 2 ^ 64"

inductive queue_run :: "('r, 'f) delivery_env set \<Rightarrow> queue_name \<Rightarrow> nat \<Rightarrow> queue_store \<Rightarrow> bool"
  for E :: "('r, 'f) delivery_env set" and q :: queue_name and n :: nat where
  run_empty: "queue_run E q n empty_store"
| run_queue: "queue_run E q n st \<Longrightarrow> st_messages st (queue_id w) = None
    \<Longrightarrow> in_one_queue q (message w)
    \<Longrightarrow> queue_run E q n (fst (snd (queue_message io now headers text source w st)))"
| run_attempt: "queue_run E q n st \<Longrightarrow> e \<in> E \<Longrightarrow> (d, i, p) \<in> set (st_events st)
    \<Longrightarrow> room_for_attempt n st i
    \<Longrightarrow> queue_run E q n (snd (try_deliver e lock now (d, i, p) st))"

text \<open>
  An environment under which the store of one virtual queue \<open>q\<close> stays so: its ids are fresh, every
  strategy of its configuration names \<open>q\<close> (so there are no recipients in other virtual queues), an
  attempt queues at most \<open>n\<close> messages for a recipient, and the routes are tried in some order.
\<close>

definition environment_ok :: "queue_name \<Rightarrow> nat \<Rightarrow> ('r, 'f) delivery_env \<Rightarrow> bool" where
  "environment_ok q n e \<longleftrightarrow> fresh_ids e \<and> one_strategy q (de_config e) \<and> autogenerates e n
     \<and> permutes_routes e"

lemma empty_store_consistent: "consistent q empty_store"
  by (simp add: consistent_def balanced_def events_agree_def one_queue_def held_at_def empty_store_def)

lemma next_event_queue: "next_event m (Some q) = Some d \<Longrightarrow> \<exists>r\<in>set (recipients m). queue r = q"
  by (fastforce simp: next_event_waiting waiting_def filter_empty_conv in_queue_def split: if_splits)

lemma read_working:
  assumes "consistent q st" and "(d, i, p) \<in> set (st_events st)"
  obtains m w where "p = q" and "st_messages st i = Some m" and "message w = m"
    and "read_message st i p = Some w" and "working q d m w st"
proof -
  from assms obtain m where m: "st_messages st i = Some m" "next_event m (Some p) = Some d"
    by (auto simp: consistent_def events_agree_def)
  with assms(1) have one: "in_one_queue q m" by (simp add: consistent_def one_queue_def)
  with next_event_queue [OF m(2)] have p: "p = q" by (auto simp: in_one_queue_def)
  have "\<not> is_multi_queue (wrapper_new m i q)"
    using one by (auto simp: wrapper_new_def in_one_queue_def list_ex_iff)
  with assms(1) m one p have "working q d m (wrapper_new m i p) st"
    by (simp add: working_def wrapper_new_def same_quota_def)
  moreover from m p have "read_message st i p = Some (wrapper_new m i p)"
    by (simp add: read_message_def)
  moreover have "message (wrapper_new m i p) = m" by (simp add: wrapper_new_def)
  ultimately show thesis using that p m(1) by blast
qed

lemma attempt_consistent:
  assumes "consistent q st" and "environment_ok q n e" and "(d, i, p) \<in> set (st_events st)"
    and "room_for_attempt n st i"
  shows "consistent q (snd (try_deliver e lock now (d, i, p) st))"
proof -
  obtain m w where w: "p = q" "st_messages st i = Some m" "message w = m"
    "read_message st i p = Some w" "working q d m w st" by (rule read_working [OF assms(1,3)])
  with assms(4) have "card (dom (st_messages st)) + length (recipients (message w)) * n + 2 < 2 ^ 64"
    by (simp add: room_for_attempt_def waiting_recipients_def)
  with deliver_task_consistent [of e q n d m w st now] assms(2) w(5)
  have "consistent q (snd (deliver_task e now d w st))" by (simp add: environment_ok_def)
  with w(4,1) assms(1) show ?thesis by (simp add: try_deliver_def)
qed

lemma queue_run_consistent:
  assumes "queue_run E q n st" and "\<And>e. e \<in> E \<Longrightarrow> environment_ok q n e"
  shows "consistent q st"
  using assms
proof (induction rule: queue_run.induct)
  case (run_queue st w io now headers body source)
  obtain ok st' refresh where q: "queue_message io now headers body source w st = (ok, st', refresh)"
    by (cases "queue_message io now headers body source w st")
  have "consistent q st" by (rule run_queue.IH) (rule run_queue.prems)
  from queue_message_consistent(1) [OF this run_queue.hyps(2,3) q] show ?case by (simp add: q)
qed (auto intro: empty_store_consistent attempt_consistent)

text \<open>What consistency means for a message: no waiting message is forgotten.\<close>

lemma consistent_waiting:
  assumes "consistent q st" and "st_messages st i = Some m" and "r \<in> set (recipients m)" and "pending r"
  shows "\<exists>d. (d, i, q) \<in> set (st_events st)"
proof -
  from assms have "queue r = q" by (auto simp: consistent_def one_queue_def in_one_queue_def)
  with assms(3,4) have "waiting m (Some q) \<noteq> []"
    by (auto simp: waiting_def filter_empty_conv in_queue_def)
  then obtain d where "next_event m (Some q) = Some d" using next_event_None by blast
  with assms(1,2) show ?thesis by (auto simp: consistent_def events_agree_def)
qed

lemma consistent_empty_counters:
  assumes "consistent q st" and "\<And>i. st_messages st i = None"
  shows "st_events st = []" and "st_counters st c = 0"
proof -
  from assms show "st_counters st c = 0" by (simp add: consistent_def balanced_def held_at_def)
  have "e \<notin> set (st_events st)" for e
    using assms by (cases e) (auto simp: consistent_def events_agree_def)
  then show "st_events st = []" by (cases "st_events st") auto
qed

end
