(* ===== verification/Queue_Progress.thy ===== *)
theory Queue_Progress
  imports Queue_Rounds Queue_Consistency
begin

text \<open>
  Progress of the queue (\<open>Queue_Manager\<close>, \<open>Queue_Spool\<close>): a waiting message is started or its
  queue is full, an expired message leaves, and what a save in one of several virtual queues keeps.
\<close>

section \<open>A waiting message is attempted\<close>

lemma process_queue_full:
  assumes "process_queue c shuffle t now es mgr = (ws, mgr')" and "\<not> queue_has_capacity mgr q"
  shows "\<not> queue_has_capacity mgr' q"
proof -
  have full: "\<not> queue_has_capacity mgr' q"
    if "dispatch c t es mgr = (ws, mgr')" and "\<not> queue_has_capacity mgr q" for es mgr ws mgr'
    using that
  proof (induction rule: dispatch_induct)
    case (Start d i p es mgr ws mgr' s)
    then have "p \<noteq> q" by (auto dest: fetch_stats_capacity)
    with Start show ?case by (simp add: queue_has_capacity_simps)
  next
    case (Refuse d i p es mgr ws mgr' s)
    then show ?case by (cases "p = q") simp_all
  qed
  obtain m1 ms r where r: "read_events now es mgr = (m1, ms, r)" by (cases "read_events now es mgr")
  obtain ws' m2 where d: "dispatch c t (if 3 < length ms then shuffle ms else ms) m1 = (ws', m2)"
    by fastforce
  from read_events_stats [of now es mgr] r have "stats m1 = stats mgr" by simp
  with assms(2) have "\<not> queue_has_capacity m1 q" by (simp add: queue_has_capacity_def)
  from full [OF d this] assms(1) r d show ?thesis
    by (auto simp: process_queue_def Let_def queue_has_capacity_def)
qed

lemma due_event_starts:
  assumes "sorted_wrt (\<lambda>a b. fst a \<le> fst b) es" and "e \<in> set es" and "fst e \<le> now"
    and "now \<le> now + QUEUE_REFRESH" and "\<forall>e\<in>set es. length (event_name e) = 8"
    and "unlocked now mgr (snd e)" and "permutes shuffle"
    and "process_queue c shuffle t now es mgr = (ws, mgr')"
  shows "(\<exists>e'\<in>set ws. snd e' = snd e) \<or> \<not> queue_has_capacity mgr' (event_name e)"
proof (cases "queue_has_capacity mgr (event_name e)")
  case True
  from read_events_reads [OF assms(1-5) True assms(6)] obtain e'
    where e': "e' \<in> set (scan_ms (read_events now es mgr))" "snd e' = snd e" by blast
  from process_queue_starts [OF assms(8,7) e'(1)] e'(2) show ?thesis by auto
next
  case False
  from process_queue_full [OF assms(8) this] show ?thesis ..
qed

lemma sorted_due_order: "sorted (es :: queue_event list) \<Longrightarrow> sorted_wrt (\<lambda>a b. fst a \<le> fst b) es"
  by (erule sorted_wrt_mono_rel [rotated]) (auto simp: less_eq_prod_def)

lemma next_event_le:
  assumes "r \<in> set (recipients m)" and "pending r" and "in_queue q r" and "next_event m q = Some d"
  shows "d \<le> earlier_event m r"
  using assms by (auto simp: next_event_waiting waiting_def split: if_splits)

lemma consistent_waiting_event:
  assumes "consistent q st" and "st_messages st i = Some m" and "r \<in> set (recipients m)" and "pending r"
  shows "\<exists>d. (d, i, q) \<in> set (st_events st) \<and> d \<le> earlier_event m r"
proof -
  from consistent_waiting [OF assms] obtain d where d: "(d, i, q) \<in> set (st_events st)" ..
  from assms have "in_queue (Some q) r"
    by (auto simp: consistent_def one_queue_def in_one_queue_def in_queue_def)
  moreover from d assms(1,2) have "next_event m (Some q) = Some d"
    by (auto simp: consistent_def events_agree_def)
  ultimately show ?thesis using next_event_le [OF assms(3,4)] d by blast
qed

lemma consistent_names:
  assumes "consistent q st" and "e \<in> set (st_events st)"
  shows "event_name e = q"
proof -
  obtain d i p where e: "e = (d, i, p)" by (cases e)
  show ?thesis by (rule read_working [of q st d i p]) (use assms e in auto)
qed

lemma waiting_message_starts:
  assumes "consistent q st" and "length q = 8"
    and "st_messages st i = Some m" and "r \<in> set (recipients m)" and "pending r"
    and "earlier_event m r \<le> now" and "now \<le> now + QUEUE_REFRESH"
    and "unlocked now mgr (i, q)" and "permutes shuffle"
    and "process_queue c shuffle t now (st_events st) mgr = (ws, mgr')"
  shows "(\<exists>d. (d, i, q) \<in> set ws) \<or> \<not> queue_has_capacity mgr' q"
proof -
  from consistent_waiting_event [OF assms(1,3,4,5)] assms(6)
  obtain d where d: "(d, i, q) \<in> set (st_events st)" "d \<le> now" by (blast intro: order_trans)
  have sorted: "sorted_wrt (\<lambda>a b. fst a \<le> fst b) (st_events st)"
    using assms(1) by (intro sorted_due_order) (simp add: consistent_def events_agree_def)
  from due_event_starts [OF sorted d(1) _ assms(7) _ _ assms(9,10)] d(2) assms(2,8)
    consistent_names [OF assms(1)] show ?thesis by fastforce
qed

section \<open>Expiry ends the delivery\<close>

lemma expired_no_pending:
  assumes "\<forall>r\<in>set (recipients (message w)). pending r \<longrightarrow> is_expired r (created (message w)) now"
  shows "snd (has_pending_delivery now w) = No"
  using assms by (simp add: has_pending_delivery_def Let_def still_pending_def filter_empty_conv)

lemma remove_message_removes:
  assumes "working q d m w st" and "remove_message True (Some d) w st = (ok, st')"
  shows "st_messages st' (queue_id w) = None" and "(d', queue_id w, p) \<notin> set (st_events st')"
proof -
  have "consistent q st'" using working_remove [OF assms(1), of True] assms(2) by simp
  obtain st2 where "apply_ops (remove_ops (Some d) w) st = Some st2"
    "st_messages st2 = (st_messages st)(queue_id w := None)" using remove_ops_effect by blast
  with assms(2) show *: "st_messages st' (queue_id w) = None"
    by (auto simp: remove_message_def store_write_accepted)
  with \<open>consistent q st'\<close> show "(d', queue_id w, p) \<notin> set (st_events st')"
    by (auto simp: consistent_def events_agree_def)
qed

lemma expired_message_leaves:
  assumes "consistent q st" and "environment_ok q n e" and "de_write_ok e"
    and "(d, i, p) \<in> set (st_events st)" and "room_for_attempt n st i"
    and "st_messages st i = Some m"
    and "\<forall>r\<in>set (recipients m). pending r \<longrightarrow> is_expired r (created m) now"
    and "try_deliver e True now (d, i, p) st = (s, st')"
  shows "s = WorkCompleted" and "st_messages st' i = None" and "(d', i, p') \<notin> set (st_events st')"
proof -
  obtain m' w where w: "p = q" "st_messages st i = Some m'" "message w = m'"
    "read_message st i p = Some w" "working q d m' w st" by (rule read_working [OF assms(1,4)])
  have env: "fresh_ids e" "one_strategy q (de_config e)"
    using assms(2) by (simp_all add: environment_ok_def)
  obtain w1 where 1: "has_pending_delivery now w = (w1, No)"
    using expired_no_pending [of w now] assms(6,7) w(2,3) by (cases "has_pending_delivery now w") auto
  obtain w2 st2 where 2: "send_dsn_queued e now w1 st = (w2, st2)" by fastforce
  from assms(5) w(2) have room: "card (dom (st_messages st)) + 1 < 2 ^ 64"
    by (simp add: room_for_attempt_def)
  have w1: "working q d m' w1 st"
    using working_step [OF w(5) grows_refl [where n = 0], of w1] wrapper_frame(1) [of w now]
      keeps_expire [of q w now] room by (simp add: 1)
  have w2: "working q d m' w2 st2"
    using working_step [OF w1, of 1 st2 w2] grows_send_dsn [OF env, of "queue_id w1" st now w1]
      wrapper_frame(2) [of w1 e now st] keeps_send_dsn_queued [of q w1 e now st] room
    by (simp add: 2)
  have ids: "queue_id w2 = i"
    using wrapper_frame(1) [of w now] wrapper_frame(2) [of w1 e now st] w(4)
    by (auto simp: 1 2 same_wrapper_def read_message_def wrapper_new_def)
  have t: "(s, st') = (WorkCompleted, snd (remove_message True (Some d) w2 st2))"
    using assms(3,8) w(4) by (simp add: try_deliver_def deliver_task_def 1 2 Let_def)
  then show "s = WorkCompleted" by simp
  obtain ok where "remove_message True (Some d) w2 st2 = (ok, st')"
    using t by (cases "remove_message True (Some d) w2 st2") auto
  from remove_message_removes [OF w2 this] ids
  show "st_messages st' i = None" and "(d', i, p') \<notin> set (st_events st')" by simp_all
qed

section \<open>Several virtual queues\<close>

lemma merge_recipients_nth:
  assumes "length new = length cur" and "j < length cur"
  shows "merge_recipients q new cur ! j = (if queue (new ! j) = q then new ! j else cur ! j)"
  using assms by (simp add: merge_recipients_def)

lemma save_merges:
  assumes "is_multi_queue w" and "st_messages st (queue_id w) = Some cur"
    and "blob_hash (message w) = blob_hash cur"
    and "length (recipients (message w)) = length (recipients cur)"
    and "save_changes True prev w st = (ok, st')"
  shows "ok" and "st_messages st' (queue_id w) =
      Some (cur\<lparr>recipients := merge_recipients (queue_name w) (recipients (message w)) (recipients cur)\<rparr>)"
    and "st_counters st' c = st_counters st c + added c (snd (release_quota (message w)))"
proof -
  let ?m = "fst (release_quota (message w))" and ?i = "queue_id w"
  have m: "recipients ?m = recipients (message w)" "blob_hash ?m = blob_hash (message w)"
    by (simp_all add: release_quota_def Let_def)
  define clears where "clears = (case prev of Some d \<Rightarrow> [ClearEvent (d, ?i, queue_name w)] | None \<Rightarrow> [])"
  let ?st1 = "st\<lparr>st_counters := (\<lambda>c. st_counters st c + added c (snd (release_quota (message w))))\<rparr>"
  have "\<exists>st2. apply_ops clears ?st1 = Some st2 \<and> st_messages st2 = st_messages st
      \<and> st_counters st2 = st_counters ?st1"
    by (cases prev) (simp_all add: clears_def)
  then obtain st2 where st2: "apply_ops clears ?st1 = Some st2" "st_messages st2 = st_messages st"
    "st_counters st2 = st_counters ?st1" by blast
  have "apply_ops (save_ops prev w) st = Some (st2\<lparr>
      st_events := fold (\<lambda>(q, d). event_set (d, ?i, q)) (next_events ?m) (st_events st2),
      st_messages := (st_messages st2)(?i \<mapsto>
        cur\<lparr>recipients := merge_recipients (queue_name w) (recipients (message w)) (recipients cur)\<rparr>)\<rparr>)"
    unfolding save_ops_def Let_def release_ops_def apply_ops_append apply_additions set_event_ops_def
    using assms(1-4) st2 by (simp add: apply_ops_append apply_set_events clears_def [symmetric] m merge_message_def)
  with assms(5) st2 show "ok" and "st_messages st' ?i =
      Some (cur\<lparr>recipients := merge_recipients (queue_name w) (recipients (message w)) (recipients cur)\<rparr>)"
    and "st_counters st' c = st_counters st c + added c (snd (release_quota (message w)))"
    by (auto simp: save_changes_def store_write_def)
qed

end
