(* ===== verification/Queue_Admission.thy ===== *)
theory Queue_Admission
  imports Queue_Delivery
begin

text \<open>
  The quotas and the notifications of the queue (\<open>Queue_Quota\<close>, \<open>Queue_Dsn\<close>): which
  checks admit a message, and when a notification is due again.
\<close>

section \<open>Admission\<close>

text \<open>One check: a quota, the variables it sees and the id under which its keys are released.\<close>

type_synonym 'f quota_check = "'f queue_quota \<times> (string \<Rightarrow> 'f variable) \<times> u64"

definition check_applies :: "'f quota_env \<Rightarrow> 'f queue_quota \<Rightarrow> (string \<Rightarrow> 'f variable) \<Rightarrow> bool" where
  "check_applies env q e \<longleftrightarrow> quota_expr q \<noteq> [] \<and> qe_eval env (quota_expr q) e = Some True"

definition within_quota :: "'f quota_env \<Rightarrow> counters \<Rightarrow> u64 \<Rightarrow> 'f quota_check \<Rightarrow> bool" where
  "within_quota env cnt sz ch =
     (case ch of (q, e, i) \<Rightarrow> check_applies env q e \<longrightarrow>
        (case quota_size q of None \<Rightarrow> True | Some n \<Rightarrow> cnt (QuotaSize (quota_new_key env q e)) + sz \<le> n) \<and>
        (case quota_messages q of None \<Rightarrow> True | Some n \<Rightarrow> cnt (QuotaCount (quota_new_key env q e)) + 1 \<le> n))"

definition check_keys :: "'f quota_env \<Rightarrow> 'f quota_check \<Rightarrow> quota_key list" where
  "check_keys env ch =
     (case ch of (q, e, i) \<Rightarrow>
        if check_applies env q e then
          (case quota_size q of None \<Rightarrow> [] | Some _ \<Rightarrow> [SizeKey (quota_new_key env q e) i])
          @ (case quota_messages q of None \<Rightarrow> [] | Some _ \<Rightarrow> [CountKey (quota_new_key env q e) i])
        else [])"

definition admit :: "'f quota_env \<Rightarrow> counters \<Rightarrow> u64 \<Rightarrow> 'f quota_check list \<Rightarrow> quota_key list \<Rightarrow>
    quota_key list option" where
  "admit env cnt sz chs keys =
     (if \<forall>ch\<in>set chs. within_quota env cnt sz ch then Some (keys @ concat (map (check_keys env) chs)) else None)"

lemma admit_simps:
  "admit env cnt sz [] keys = Some keys"
  "admit env cnt sz (ch # chs) keys =
     (if within_quota env cnt sz ch then admit env cnt sz chs (keys @ check_keys env ch) else None)"
  "admit env cnt sz (as @ bs) keys =
     (case admit env cnt sz as keys of None \<Rightarrow> None | Some keys \<Rightarrow> admit env cnt sz bs keys)"
  by (auto simp: admit_def)

lemma check_quota_admits:
  "check_quota env cnt q e sz i keys =
     (if within_quota env cnt sz (q, e, i) then Some (keys @ check_keys env (q, e, i)) else None)"
  by (cases "quota_size q"; cases "quota_messages q")
    (auto simp: check_quota_def within_quota_def check_keys_def check_applies_def Let_def not_less)

lemma sender_quotas_admit:
  "sender_quotas env cnt m qs keys =
     admit env cnt (msg_size m) (map (\<lambda>q. (q, message_variable m, 0)) qs) keys"
  by (induction qs arbitrary: keys) (simp_all add: admit_simps check_quota_admits)

definition rcpt_checks :: "rcpt_context \<Rightarrow> message \<Rightarrow> (nat \<Rightarrow> u64) \<Rightarrow> (nat \<times> recipient) list \<Rightarrow>
    'f queue_quota \<Rightarrow> 'f quota_check list" where
  "rcpt_checks rc m ident rs q = map (\<lambda>(i, r). (q, rcpt_variable rc m r, ident i)) rs"

lemma rcpt_checks_simps:
  "rcpt_checks rc m ident [] q = []"
  "rcpt_checks rc m ident ((i, r) # rs) q = (q, rcpt_variable rc m r, ident i) # rcpt_checks rc m ident rs q"
  by (simp_all add: rcpt_checks_def)

lemma rcpt_quota_loop_admits:
  "rcpt_quota_loop env rc cnt m q n rs keys =
     admit env cnt (msg_size m) (rcpt_checks rc m rcpt_quota_id (enumerate n rs) q) keys"
  by (induction rs arbitrary: n keys) (simp_all add: rcpt_checks_simps admit_simps check_quota_admits)

lemma rcpt_quotas_admit:
  "rcpt_quotas env rc cnt m qs keys =
     admit env cnt (msg_size m)
       (concat (map (rcpt_checks rc m rcpt_quota_id (enumerate 0 (recipients m))) qs)) keys"
  by (induction qs arbitrary: keys) (simp_all add: admit_simps rcpt_quota_loop_admits cong: option.case_cong)

text \<open>The recipients whose domain has not been met before them.\<close>

fun first_of_domain :: "nat \<Rightarrow> string set \<Rightarrow> recipient list \<Rightarrow> (nat \<times> recipient) list" where
  "first_of_domain n seen [] = []"
| "first_of_domain n seen (r # rs) =
     (if domain_part (address r) \<in> seen then first_of_domain (n + 1) seen rs
      else (n, r) # first_of_domain (n + 1) (insert (domain_part (address r)) seen) rs)"

lemma domain_quota_loop_admits:
  "domain_quota_loop env rc cnt m q n rs seen keys =
     map_option (Pair (seen \<union> domain_part ` address ` set rs))
       (admit env cnt (msg_size m) (rcpt_checks rc m domain_quota_id (first_of_domain n seen rs) q) keys)"
  by (induction rs arbitrary: n seen keys)
    (auto simp: rcpt_checks_simps admit_simps check_quota_admits insert_absorb)

lemma first_of_domain_seen:
  "domain_part ` address ` set rs \<subseteq> seen \<Longrightarrow> first_of_domain n seen rs = []"
  by (induction rs arbitrary: n) auto

lemma domain_quotas_seen:
  "domain_part ` address ` set (recipients m) \<subseteq> seen \<Longrightarrow> domain_quotas env rc cnt m qs seen keys = Some keys"
proof (induction qs)
  case (Cons q qs)
  then show ?case
    by (simp add: domain_quota_loop_admits first_of_domain_seen rcpt_checks_simps admit_simps sup.absorb1)
qed simp

text \<open>Only the first of the domain quotas is ever checked.\<close>

definition domain_checks :: "rcpt_context \<Rightarrow> message \<Rightarrow> 'f queue_quota list \<Rightarrow> 'f quota_check list" where
  "domain_checks rc m qs =
     (case qs of [] \<Rightarrow> []
      | q # _ \<Rightarrow> rcpt_checks rc m domain_quota_id (first_of_domain 0 {} (recipients m)) q)"

lemma domain_quotas_admit:
  "domain_quotas env rc cnt m qs {} keys = admit env cnt (msg_size m) (domain_checks rc m qs) keys"
  by (cases qs) (auto simp: domain_checks_def admit_simps domain_quota_loop_admits domain_quotas_seen
      split: option.split)

definition quota_checks :: "rcpt_context \<Rightarrow> 'f queue_quotas \<Rightarrow> message \<Rightarrow> 'f quota_check list" where
  "quota_checks rc qs m =
     map (\<lambda>q. (q, message_variable m, 0)) (quotas_sender qs)
     @ domain_checks rc m (quotas_rcpt_domain qs)
     @ concat (map (rcpt_checks rc m rcpt_quota_id (enumerate 0 (recipients m))) (quotas_rcpt qs))"

lemma has_quota_admits:
  "has_quota env rc qs cnt w =
     map_option (\<lambda>keys. w\<lparr>message := (message w)\<lparr>quota_keys := keys\<rparr>\<rparr>)
       (admit env cnt (msg_size (message w)) (quota_checks rc qs (message w)) [])"
  by (simp add: has_quota_def Let_def quota_checks_def admit_simps sender_quotas_admit domain_quotas_admit
      rcpt_quotas_admit split: option.split)

section \<open>Notifications\<close>

lemma mark_dsn_sent_flag: "has_flag (mark_dsn_sent r) (RCPT_DSN_SENT OR n)"
proof -
  have "bit ((rcpt_flags r OR RCPT_DSN_SENT) AND (RCPT_DSN_SENT OR n)) 32"
    by (simp add: bit_simps RCPT_DSN_SENT_def)
  then have "(rcpt_flags r OR RCPT_DSN_SENT) AND (RCPT_DSN_SENT OR n) \<noteq> 0"
    by (metis bit_0_eq bot_apply bot_bool_def)
  then show ?thesis by (simp add: has_flag_def has_bits_def mark_dsn_sent_def)
qed

text \<open>
  A configuration whose intervals between notifications are not zero, and do not pass the end of
  the clock from \<open>now\<close> on.
\<close>

definition notify_later :: "queue_config \<Rightarrow> u64 \<Rightarrow> bool" where
  "notify_later c now \<longleftrightarrow> now < U64_MAX \<and>
     (\<forall>name. \<forall>n\<in>set (st_notify (get_queue_or_default c name)). now < now + n)"

text \<open>What is reported, and whether a notification is built of it.\<close>

definition to_report :: "notify_flags \<Rightarrow> u64 \<Rightarrow> recipient \<Rightarrow> bool" where
  "to_report nf now r \<longleftrightarrow> \<not> has_flag r (RCPT_DSN_SENT OR notify_never nf)
     \<and> (case rcpt_status r of
          Completed _ \<Rightarrow> has_flag r (notify_success nf)
        | PermanentFailure _ \<Rightarrow> has_flag r (notify_failure nf)
        | _ \<Rightarrow> due (notify r) \<le> now \<and> has_flag r (notify_delay nf))"

text \<open>The server's own flag of a recipient is none of the flags of NOTIFY.\<close>

definition separate_flags :: "notify_flags \<Rightarrow> bool" where
  "separate_flags nf \<longleftrightarrow> (notify_success nf OR notify_failure nf) AND RCPT_DSN_SENT = 0"

lemma mark_dsn_sent_other:
  assumes "separate_flags nf"
  shows "has_flag (mark_dsn_sent r) (notify_success nf) = has_flag r (notify_success nf)"
    and "has_flag (mark_dsn_sent r) (notify_failure nf) = has_flag r (notify_failure nf)"
proof -
  have "(f OR RCPT_DSN_SENT) AND n = f AND n" if "n AND RCPT_DSN_SENT = 0" for f n :: u64
    using that by (metis bit.conj_disj_distrib2 and.commute or.right_neutral)
  moreover have "notify_success nf AND RCPT_DSN_SENT = 0" "notify_failure nf AND RCPT_DSN_SENT = 0"
    using assms by (auto simp: separate_flags_def bit.conj_disj_distrib2 or_eq_0_iff)
  ultimately show "has_flag (mark_dsn_sent r) (notify_success nf) = has_flag r (notify_success nf)"
    and "has_flag (mark_dsn_sent r) (notify_failure nf) = has_flag r (notify_failure nf)"
    by (simp_all add: has_flag_def has_bits_def mark_dsn_sent_def)
qed

definition nothing_told :: "dsn_parts \<Rightarrow> bool" where
  "nothing_told p \<longleftrightarrow> txt_success p = [] \<and> txt_delay p = [] \<and> txt_failed p = []"

lemma dsn_text_not_empty [simp]: "error_write_dsn_text err a \<noteq> []" "host_write_dsn_text h a \<noteq> []"
  by (auto simp: error_write_dsn_text_def unexpected_write_dsn_text_def host_write_dsn_text_def
      split: delivery_error.splits)

lemma dsn_recipient_told:
  assumes "separate_flags nf"
  shows "nothing_told (snd (dsn_recipient nf rfc now cr r p)) \<longleftrightarrow> nothing_told p \<and> \<not> to_report nf now r"
  using mark_dsn_sent_other [OF assms, of r]
  by (cases "rcpt_status r")
    (auto simp: dsn_recipient_def nothing_told_def to_report_def add_report_def Let_def)

lemma dsn_recipients_told:
  assumes "separate_flags nf"
  shows "nothing_told (snd (dsn_recipients nf rfc now cr rs p)) \<longleftrightarrow>
    nothing_told p \<and> (\<forall>r\<in>set rs. \<not> to_report nf now r)"
  using dsn_recipient_told [OF assms] by (induction rs arbitrary: p) (auto simp: Let_def split_beta)

lemma send_dsn_reports:
  assumes "separate_flags (nflags e)"
  shows "snd (send_dsn e c now m) \<noteq> None \<longleftrightarrow>
    return_path m \<noteq> [] \<and> (\<exists>r\<in>set (recipients m). to_report (nflags e) now r)"
  using dsn_recipients_told [OF assms, of "rfc822_date e" now "created m" "recipients m" no_parts]
  by (auto simp: send_dsn_def build_dsn_def nothing_told_def no_parts_def split_beta Let_def)

text \<open>What a look at a recipient leaves, of a message with and without a return path.\<close>

definition looked_at :: "notify_flags \<Rightarrow> u64 \<Rightarrow> bool \<Rightarrow> recipient \<Rightarrow> recipient \<Rightarrow> bool" where
  "looked_at nf now bounce r r' \<longleftrightarrow> rcpt_status r' = rcpt_status r
     \<and> rcpt_flags r' =
         (if \<not> pending r \<and> \<not> has_flag r (RCPT_DSN_SENT OR notify_never nf)
             \<and> (\<not> bounce \<or> is_permanent (rcpt_status r))
          then rcpt_flags r OR RCPT_DSN_SENT else rcpt_flags r)
     \<and> (pending r \<longrightarrow> now < due (notify r'))
     \<and> (now < due (notify r) \<longrightarrow> notify r' = notify r)"

lemma dsn_recipient_leaves:
  assumes r': "r' = fst (dsn_recipient nf rfc now cr r p)"
  shows "rcpt_status r' = rcpt_status r" and "notify r' = notify r"
    and "rcpt_flags r' = (if \<not> pending r \<and> \<not> has_flag r (RCPT_DSN_SENT OR notify_never nf)
       then rcpt_flags r OR RCPT_DSN_SENT else rcpt_flags r)"
  unfolding r'
  by (cases "rcpt_status r"; simp add: dsn_recipient_def pending_def status_pending_def mark_dsn_sent_def Let_def)+

lemma double_bounce_leaves:
  assumes r': "r' = double_bounce nf now cr r"
  shows "rcpt_status r' = rcpt_status r" and "now < due (notify r) \<Longrightarrow> notify r' = notify r"
    and "rcpt_flags r' = (if \<not> pending r \<and> \<not> has_flag r (RCPT_DSN_SENT OR notify_never nf)
       \<and> is_permanent (rcpt_status r) then rcpt_flags r OR RCPT_DSN_SENT else rcpt_flags r)"
  unfolding r'
  by (cases "rcpt_status r";
      simp add: double_bounce_def pending_def status_pending_def mark_dsn_sent_def is_permanent_def Let_def)+

lemma next_notify_leaves:
  assumes r': "r' = next_notify c now m r" and later: "notify_later c now"
  shows "rcpt_status r' = rcpt_status r" and "now < due (notify r) \<Longrightarrow> notify r' = notify r"
    and "rcpt_flags r' = rcpt_flags r" and "pending r \<Longrightarrow> now < due (notify r')"
proof -
  let ?ns = "st_notify (strategy c m r)" and ?i = "unat (inner (notify r) + 1)"
  have "now < now + ?ns ! ?i" if "?i < length ?ns"
    using later nth_mem [OF that] unfolding notify_later_def strategy_def by blast
  with later show "pending r \<Longrightarrow> now < due (notify r')"
    by (auto simp: r' next_notify_def notify_later_def Let_def)
qed (auto simp: r' next_notify_def Let_def)

lemma dsn_recipients_nth:
  "length (fst (dsn_recipients nf rfc now cr rs p)) = length rs"
  "i < length rs \<Longrightarrow> \<exists>p'. fst (dsn_recipients nf rfc now cr rs p) ! i = fst (dsn_recipient nf rfc now cr (rs ! i) p')"
proof (induction rs arbitrary: p i)
  case (Cons r rs)
  {
    case 1
    then show ?case by (simp add: Cons.IH(1) Let_def split_beta)
  next
    case 2
    then show ?case using Cons.IH(2) by (cases i) (auto simp: Let_def split_beta)
  }
qed simp_all

lemma same_pending: "rcpt_status r' = rcpt_status r \<Longrightarrow> pending r' = pending r"
  by (simp add: pending_def)

lemma send_dsn_looks:
  assumes "notify_later c now" and "i < length (recipients m)"
  shows "looked_at (nflags e) now (return_path m = []) (recipients m ! i)
     (recipients (fst (send_dsn e c now m)) ! i)"
proof (cases "return_path m = []")
  case True
  let ?r = "recipients m ! i"
  let ?b = "double_bounce (nflags e) now (created m) ?r"
  have "recipients (fst (send_dsn e c now m)) ! i = next_notify c now (handle_double_bounce (nflags e) now m) ?b"
    using True assms(2) by (simp add: send_dsn_def handle_double_bounce_def update_next_dsn_def Let_def)
  moreover note double_bounce_leaves [where nf = "nflags e" and now = now and cr = "created m" and r = ?r, OF refl] next_notify_leaves [where r = ?b, OF refl assms(1)]
  moreover have "pending ?b = pending ?r" by (rule same_pending) (rule double_bounce_leaves(1) [OF refl])
  ultimately show ?thesis using True by (simp add: looked_at_def)
next
  case False
  let ?r = "recipients m ! i"
  obtain p where d: "fst (dsn_recipients (nflags e) (rfc822_date e) now (created m) (recipients m) no_parts) ! i
      = fst (dsn_recipient (nflags e) (rfc822_date e) now (created m) ?r p)"
    using dsn_recipients_nth(2) [OF assms(2)] by blast
  let ?b = "fst (dsn_recipient (nflags e) (rfc822_date e) now (created m) ?r p)"
  obtain m1 where "recipients (fst (send_dsn e c now m)) ! i = next_notify c now m1 ?b"
    using False assms(2) d dsn_recipients_nth(1)
    by (auto simp: send_dsn_def build_dsn_def update_next_dsn_def Let_def split_beta)
  moreover note dsn_recipient_leaves [where nf = "nflags e" and rfc = "rfc822_date e" and now = now and cr = "created m" and r = ?r
      and p = p, OF refl]
    next_notify_leaves [where r = ?b, OF refl assms(1)]
  moreover have "pending ?b = pending ?r" by (rule same_pending) (rule dsn_recipient_leaves(1) [OF refl])
  ultimately show ?thesis using False by (simp add: looked_at_def)
qed

lemma look_length [simp]: "length (recipients (fst (send_dsn e c now m))) = length (recipients m)"
  by (simp add: send_dsn_def build_dsn_def handle_double_bounce_def update_next_dsn_def dsn_recipients_nth(1)
      Let_def split_beta)

text \<open>A final recipient that a message with a return path has is never reported again.\<close>

lemma looked_at_final:
  assumes "looked_at nf now False r r'" and "to_report nf t r'"
  shows "pending r' \<and> due (notify r') \<le> t"
proof -
  have "has_flag r' (RCPT_DSN_SENT OR notify_never nf)" if "\<not> pending r"
    using assms(1) that mark_dsn_sent_flag [of r "notify_never nf"]
    by (auto simp: looked_at_def has_flag_def mark_dsn_sent_def)
  with assms have "pending r" by (auto simp: to_report_def)
  with assms(1) have "pending r'" by (simp add: looked_at_def pending_def)
  with assms(2) show ?thesis by (auto simp: to_report_def pending_def status_pending_def split: status.splits)
qed

lemma send_dsn_return_path [simp]: "return_path (fst (send_dsn e c now m)) = return_path m"
  by (simp add: send_dsn_def build_dsn_def update_next_dsn_def handle_double_bounce_def Let_def split_beta)

lemma send_dsn_again:
  assumes "send_dsn e c now m = (m', d)" and "notify_later c now" and "separate_flags (nflags e)"
    and "snd (send_dsn e c' t m') \<noteq> None"
  shows "\<exists>r\<in>set (recipients m'). pending r \<and> due (notify r) \<le> t \<and> now < due (notify r)"
proof -
  from assms(1) have m': "m' = fst (send_dsn e c now m)" by simp
  from assms(4) send_dsn_reports [OF assms(3), of c' t m'] have path: "return_path m \<noteq> []"
    and "\<exists>r\<in>set (recipients m'). to_report (nflags e) t r" by (auto simp: m')
  then obtain i where i: "i < length (recipients m)" "to_report (nflags e) t (recipients m' ! i)"
    by (auto simp: m' in_set_conv_nth)
  from send_dsn_looks [OF assms(2) i(1), of e] path
  have l: "looked_at (nflags e) now False (recipients m ! i) (recipients m' ! i)" by (simp add: m')
  from looked_at_final [OF this i(2)] have "pending (recipients m' ! i)" "due (notify (recipients m' ! i)) \<le> t" by simp_all
  moreover from l this have "now < due (notify (recipients m' ! i))"
    by (auto simp: looked_at_def pending_def)
  moreover from i(1) have "recipients m' ! i \<in> set (recipients m')" by (simp add: m')
  ultimately show ?thesis by blast
qed

end
