(* ===== verification/Queue_Properties.thy ===== *)
theory Queue_Properties
  imports Queue_Rounds Queue_Progress Queue_Admission
begin

text \<open>
  The properties of the SMTP queue, from the message's first write to its removal: the store
  (\<open>Queue_Consistency\<close>), the manager (\<open>Queue_Rounds\<close>), progress (\<open>Queue_Progress\<close>),
  quotas and notifications (\<open>Queue_Admission\<close>). The instances are a server with the default
  schedule that delivers everything to local mailboxes.
\<close>

section \<open>A small server\<close>

definition plain_io :: queue_io where
  "plain_io = \<lparr>link_ok = True, put_blob_ok = True, serialize_ok = True, commit_ok = True,
     blob_hash_of = (\<lambda>t. take 32 t), hold_samples_for = None, sample_item_id = 0\<rparr>"

definition plain_config :: queue_config where
  "plain_config = \<lparr>queue_expr = (\<lambda>_. None), queue_strategies = (\<lambda>_. None),
     virtual_queues = [(DEFAULT_QUEUE_NAME, 2)]\<rparr>"

definition plain_dsn :: dsn_env where
  "plain_dsn = \<lparr>nflags = \<lparr>notify_success = 2, notify_failure = 4, notify_delay = 8, notify_never = 1\<rparr>,
     rfc822_date = (\<lambda>_. []), dsn_name = None, dsn_address = None, submitter = None,
     blob_prefix = (\<lambda>_. None)\<rparr>"

definition unit_floats :: "unit float_ops" where
  "unit_floats = \<lparr>f_add = (\<lambda>_ _. ()), f_sub = (\<lambda>_ _. ()), f_mul = (\<lambda>_ _. ()), f_div = (\<lambda>_ _. ()),
     f_neg = (\<lambda>_. ()), f_cmp = (\<lambda>_ _. None), f_of_i64 = (\<lambda>_. ()), f_to_i64 = (\<lambda>_. 0),
     f_to_u64 = (\<lambda>_. 0), f_parse = (\<lambda>_. None), f_display = (\<lambda>_. []), f_compact = (\<lambda>_. [])\<rparr>"

definition plain_quota_env :: "unit quota_env" where
  "plain_quota_env = \<lparr>qe_floats = unit_floats, qe_eval = (\<lambda>_ _. Some True), qe_hash = (\<lambda>s. s)\<rparr>"

definition no_quotas :: "unit queue_quotas" where
  "no_quotas = \<lparr>quotas_sender = [], quotas_rcpt = [], quotas_rcpt_domain = []\<rparr>"

text \<open>New ids: the least number that is not in use.\<close>

definition unused_id :: "queue_store \<Rightarrow> queue_id" where
  "unused_id st = of_nat (LEAST n. st_messages st (of_nat n) = None)"

definition plain_env :: "(unit, unit) delivery_env" where
  "plain_env = \<lparr>de_dsn = plain_dsn, de_config = plain_config, de_lower = (\<lambda>s. s),
     de_resolve = (\<lambda>_. OtherResolution), de_render = (\<lambda>_. ''bounce''), de_sign_dsn = (\<lambda>_ _. None),
     de_sign_sieve = (\<lambda>_ _. None), de_queue_io = plain_io, de_new_id = unused_id,
     de_quota_env = plain_quota_env, de_quotas = no_quotas, de_show = (\<lambda>_. []), de_sender_limits = [],
     de_rcpt_limits = [], de_route = (\<lambda>_ _. ()), de_order = (\<lambda>gs. gs), de_is_local = (\<lambda>_. True),
     de_ingest = (\<lambda>m rs. (map (\<lambda>_. LocalSuccess) rs, [])), de_remote = (\<lambda>_ _ _ _. []),
     de_write_ok = True\<rparr>"

lemma unused_id_fresh: "\<exists>i. st_messages st i = None \<Longrightarrow> st_messages st (unused_id st) = None"
  unfolding unused_id_def by (rule LeastI_ex) (metis word_nat_cases)

lemma plain_env_ok: "environment_ok DEFAULT_QUEUE_NAME 0 plain_env"
  by (simp add: environment_ok_def fresh_ids_def unused_id_fresh one_strategy_def autogenerates_def
      permutes_routes_def plain_env_def plain_config_def strategy_def get_queue_or_default_def
      default_schedule_def)

text \<open>A message of two recipients, queued at 1000 with a quota key.\<close>

definition plain_rcpt :: "string \<Rightarrow> recipient" where
  "plain_rcpt a = (recipient_new (\<lambda>s. s) 1000 a)\<lparr>expires := Ttl 3600\<rparr>"

definition plain_message :: message_wrapper where
  "plain_message =
     (let w = new_message (\<lambda>s. s) 7 1000 ''a@b.org'' 0
      in w\<lparr>message := (message w)\<lparr>recipients := [plain_rcpt ''c@d.org'', plain_rcpt ''e@d.org''],
           quota_keys := [CountKey ''k'' 1]\<rparr>\<rparr>)"

definition plain_store :: queue_store where
  "plain_store = fst (snd (queue_message plain_io 1000 None ''hello'' Authenticated plain_message empty_store))"

lemma plain_run: "queue_run {plain_env} DEFAULT_QUEUE_NAME 0 plain_store"
  unfolding plain_store_def
  by (rule run_queue [OF run_empty])
    (simp_all add: empty_store_def plain_message_def plain_rcpt_def new_message_def recipient_new_def
      in_one_queue_def Let_def)

definition plain_stored :: message where
  "plain_stored = queue_prepare plain_io Authenticated ''hello'' (message plain_message)"

lemma plain_rcpt_simps [simp]:
  "queue (plain_rcpt a) = DEFAULT_QUEUE_NAME" "pending (plain_rcpt a)" "expires (plain_rcpt a) = Ttl 3600"
  "due (retry (plain_rcpt a)) = 1000" "due (notify (plain_rcpt a)) = 1000" "inner (retry (plain_rcpt a)) = 0"
  by (simp_all add: plain_rcpt_def recipient_new_def schedule_now_def pending_def status_pending_def)

lemma plain_stored_simps [simp]:
  "recipients plain_stored = [plain_rcpt ''c@d.org'', plain_rcpt ''e@d.org'']"
  "created plain_stored = 1000" "quota_keys plain_stored = [CountKey ''k'' 1]"
  by (simp_all add: plain_stored_def queue_prepare_def plain_message_def new_message_def Let_def)

lemma plain_earlier [simp]: "created m = 1000 \<Longrightarrow> earlier_event m (plain_rcpt a) = 1000"
  by (simp add: earlier_event_def expiration_time_def)

lemma plain_next [simp]: "next_event plain_stored (Some DEFAULT_QUEUE_NAME) = Some 1000"
  by (simp add: next_event_def in_queue_def keep_less_def)

lemma plain_next_events: "next_events plain_stored = [(DEFAULT_QUEUE_NAME, 1000)]"
  by (simp add: next_events_def)

lemma plain_store_effect: "same_queue (with_message 7 plain_stored empty_store) plain_store"
proof -
  have i: "queue_id plain_message = 7" by (simp add: plain_message_def new_message_def Let_def)
  let ?link = "[SetBlob (LinkTemporary (blob_hash plain_stored) (1000 + 120)) NoValue]"
  obtain st1 where st1: "apply_ops ?link empty_store = Some st1" "same_queue empty_store st1"
    using apply_blob_ops [of ?link empty_store] by (auto simp: is_blob_op_def)
  obtain st2 where st2: "apply_ops (queue_ops plain_io 1000 Authenticated 7 plain_stored) st1 = Some st2"
    "same_queue (with_message 7 plain_stored st1) st2" using queue_ops_effect by blast
  have "plain_store = st2"
    using store_write_accepted [OF st1(1)] store_write_accepted [OF st2(1)]
    by (simp add: plain_store_def queue_message_def Let_def plain_stored_def [symmetric] i) (simp add: plain_io_def)
  with st1(2) st2(2) show ?thesis by (simp add: same_queue_def with_message_def)
qed

lemma plain_store_message [simp]: "st_messages plain_store i = (if i = 7 then Some plain_stored else None)"
  using plain_store_effect by (simp add: same_queue_def with_message_def empty_store_def)

lemma plain_store_events: "st_events plain_store = [(1000, 7, DEFAULT_QUEUE_NAME)]"
  using plain_store_effect
  by (simp add: same_queue_def with_message_def empty_store_def plain_next_events event_set_def)

lemma plain_consistent: "consistent DEFAULT_QUEUE_NAME plain_store"
  by (rule queue_run_consistent [OF plain_run]) (simp add: plain_env_ok)

lemma plain_event: "(1000, 7, DEFAULT_QUEUE_NAME) \<in> set (st_events plain_store)"
  using plain_consistent by (auto simp: consistent_def events_agree_def)

lemma plain_room: "room_for_attempt 0 plain_store 7"
proof -
  have "dom (st_messages plain_store) = {7}" by (auto simp: dom_def)
  then show ?thesis by (simp add: room_for_attempt_def)
qed

text \<open>A message whose recipient, with NOTIFY=FAILURE, has failed for good.\<close>

definition failed_message :: message where
  "failed_message = (message plain_message)\<lparr>return_path := ''a@b.org'', recipients := [(plain_rcpt ''c@d.org'')
     \<lparr>rcpt_flags := 4, rcpt_status := PermanentFailure \<lparr>entity = ''mx'', details = RateLimited\<rparr>\<rparr>]\<rparr>"

section \<open>A manager with few threads\<close>

definition threads_env :: "usize \<Rightarrow> manager_env" where
  "threads_env n = \<lparr>me_config = \<lparr>queue_expr = (\<lambda>_. None), queue_strategies = (\<lambda>_. None),
       virtual_queues = [(DEFAULT_QUEUE_NAME, n)]\<rparr>, me_shuffle = (\<lambda>es. es), me_random = 5\<rparr>"

abbreviation due_event :: "queue_id \<Rightarrow> queue_event" where
  "due_event i \<equiv> (900, i, DEFAULT_QUEUE_NAME)"

lemmas round_defs = manager_step_def process_queue_def read_events_def visit_def fetch_stats_def
  queue_has_capacity_def has_capacity_def get_virtual_queue_or_default_def queue_stats_new_def
  retain_locks_def set_lock_def remove_lock_def set_stats_def manager_new_def threads_env_def
  QUEUE_REFRESH_def INFINITE_LOCK_def BACK_PRESSURE_WARN_INTERVAL_def saturating_sub_def lock_keys_def

lemma default_name_length: "length DEFAULT_QUEUE_NAME = 8"
  by (simp add: DEFAULT_QUEUE_NAME_def)

abbreviation worker_stats :: "usize \<Rightarrow> queue_stats" where
  "worker_stats n \<equiv> \<lparr>in_flight = n, max_in_flight = 2, last_warning = - 59\<rparr>"

abbreviation held_lock :: "u64 \<Rightarrow> locked_message" where
  "held_lock n \<equiv> \<lparr>lock_expires = 31537000, lock_revision = n\<rparr>"

definition round1 :: queue_manager where
  "round1 = \<lparr>locked = [(1, DEFAULT_QUEUE_NAME) \<mapsto> held_lock 1, (2, DEFAULT_QUEUE_NAME) \<mapsto> held_lock 1],
     locked_revision = 1, stats = [DEFAULT_QUEUE_NAME \<mapsto> worker_stats 2], next_refresh = 301,
     is_paused = False, rx_closed = False\<rparr>"

lemma step1: "manager_step (threads_env 2) 1 1000 TimedOut [due_event 1, due_event 2] (manager_new 0)
  = Some ([due_event 1, due_event 2], round1)"
  by (simp add: round_defs default_name_length round1_def) (auto simp: fun_eq_iff)

lemma run1: "manager_run {threads_env 2, threads_env 1} round1 {#due_event 1, due_event 2#}"
  using manager_run.iterate [OF manager_run.start _ _ _ step1, of "{threads_env 2, threads_env 1}" "{#}"]
  by (simp add: wake_events_def)

lemma threads_distinct: "distinct (map fst (virtual_queues (me_config (threads_env n))))"
  by (simp add: threads_env_def)

text \<open>A round does not meet the locks of a queue without capacity, and drops them.\<close>

lemma full_round_drops_locks: "\<exists>mgr. manager_step (threads_env 2) 1 1000 (Received [Refresh])
    [due_event 1, due_event 2] round1 = Some ([], mgr) \<and> locked mgr = Map.empty"
  by (simp add: round_defs default_name_length round1_def) (auto simp: fun_eq_iff)

text \<open>
  With one thread the second of two due events waits for the end of the round's time,
  although the worker is done.
\<close>

definition one_thread_round :: queue_manager where
  "one_thread_round = \<lparr>locked = [(1, DEFAULT_QUEUE_NAME) \<mapsto> held_lock 1], locked_revision = 1,
     stats = [DEFAULT_QUEUE_NAME \<mapsto> \<lparr>in_flight = 1, max_in_flight = 1, last_warning = 1\<rparr>],
     next_refresh = 301, is_paused = False, rx_closed = False\<rparr>"

lemma one_thread_step: "manager_step (threads_env 1) 1 1000 TimedOut [due_event 1, due_event 2] (manager_new 0)
  = Some ([due_event 1], one_thread_round)"
  by (simp add: round_defs default_name_length one_thread_round_def) (auto simp: fun_eq_iff)

lemma refused_event_waits: "\<exists>mgr. manager_step (threads_env 1) 2 1001
    (Received [WorkerDone 1 DEFAULT_QUEUE_NAME WorkCompleted]) [due_event 2] one_thread_round
  = Some ([], mgr) \<and> next_refresh mgr = 301"
  by (simp add: round_defs default_name_length one_thread_round_def Let_def)

text \<open>A message in two virtual queues, with a quota key of its first recipient.\<close>

definition other_queue :: queue_name where
  "other_queue = ''bulk'' @ replicate 4 NUL"

definition two_queue_store :: queue_store where
  "two_queue_store = empty_store\<lparr>
     st_messages := [7 \<mapsto> (message plain_message)\<lparr>recipients :=
        [plain_rcpt ''c@d.org'', (plain_rcpt ''e@f.org'')\<lparr>queue := other_queue\<rparr>]\<rparr>],
     st_counters := (\<lambda>c. if c = QuotaCount ''k'' then 1 else 0)\<rparr>"

text \<open>
  The first worker delivers to the recipient of its queue; the second one, of the other queue,
  is rate limited.
\<close>

definition first_copy :: message_wrapper where
  "first_copy =
     (let w = the (read_message two_queue_store 7 DEFAULT_QUEUE_NAME)
      in w\<lparr>message := set_rcpt_status plain_config 1000
             (local_delivery_status ''c@d.org'' LocalSuccess) 0 (message w)\<rparr>)"

definition first_saved :: queue_store where
  "first_saved = snd (save_changes True (Some 1000) first_copy two_queue_store)"

definition second_copy :: message_wrapper where
  "second_copy =
     (let w = the (read_message first_saved 7 other_queue)
      in w\<lparr>message := set_rcpt_rate_limit 2000 1 (message w)\<rparr>)"

definition second_saved :: queue_store where
  "second_saved = snd (save_changes True (Some 1000) second_copy first_saved)"

lemma other_queue_differs [simp]: "other_queue \<noteq> DEFAULT_QUEUE_NAME" "DEFAULT_QUEUE_NAME \<noteq> other_queue"
  by (simp_all add: other_queue_def DEFAULT_QUEUE_NAME_def)

definition delivered_rcpt :: recipient where
  "delivered_rcpt = (plain_rcpt ''c@d.org'')\<lparr>rcpt_status := local_delivery_status ''c@d.org'' LocalSuccess\<rparr>"

definition other_rcpt :: recipient where
  "other_rcpt = (plain_rcpt ''e@f.org'')\<lparr>queue := other_queue\<rparr>"

lemma finished_simps [simp]:
  "finished delivered_rcpt" "\<not> pending delivered_rcpt" "queue delivered_rcpt = DEFAULT_QUEUE_NAME"
  "\<not> finished (plain_rcpt a)" "\<not> finished other_rcpt" "pending other_rcpt" "queue other_rcpt = other_queue"
  "\<not> finished (rate_limit_recipient t other_rcpt)" "queue (rate_limit_recipient t other_rcpt) = other_queue"
  by (simp_all add: finished_def delivered_rcpt_def local_delivery_status_def other_rcpt_def pending_def
      status_pending_def plain_rcpt_def recipient_new_def rate_limit_recipient_def)

lemma first_copy_message:
  "first_copy = \<lparr>queue_id = 7, queue_name = DEFAULT_QUEUE_NAME, is_multi_queue = True, span_id = 0,
     message = (message plain_message)\<lparr>recipients := [delivered_rcpt, other_rcpt]\<rparr>\<rparr>"
  by (simp add: first_copy_def read_message_def two_queue_store_def wrapper_new_def set_rcpt_status_def Let_def
      other_rcpt_def [symmetric] delivered_rcpt_def [symmetric])
    (simp add: local_delivery_status_def status_pending_def Let_def)

lemma first_released:
  "release_quota (message first_copy) =
     ((message plain_message)\<lparr>recipients := [delivered_rcpt, other_rcpt], quota_keys := []\<rparr>,
      [(QuotaCount ''k'', - 1)])"
  by (simp add: release_quota_def first_copy_message plain_message_def new_message_def Let_def
      domain_quota_id_def rcpt_quota_id_def)

lemma first_saved:
  "st_messages first_saved 7 = Some ((message plain_message)\<lparr>recipients := [delivered_rcpt, other_rcpt]\<rparr>)"
  "st_counters first_saved (QuotaCount ''k'') = 0"
proof -
  have saved: "save_changes True (Some 1000) first_copy two_queue_store
      = (fst (save_changes True (Some 1000) first_copy two_queue_store), first_saved)"
    by (simp add: first_saved_def)
  note merged = save_merges [OF _ _ _ _ saved,
      of "(message plain_message)\<lparr>recipients := [plain_rcpt ''c@d.org'', other_rcpt]\<rparr>"]
  show "st_messages first_saved 7 = Some ((message plain_message)\<lparr>recipients := [delivered_rcpt, other_rcpt]\<rparr>)"
    using merged(2) by (simp add: first_copy_message two_queue_store_def other_rcpt_def [symmetric] merge_recipients_def)
  show "st_counters first_saved (QuotaCount ''k'') = 0"
    using merged(3) [of "QuotaCount ''k''"] first_released
    by (simp add: first_copy_message two_queue_store_def other_rcpt_def [symmetric])
qed

lemma second_copy_message:
  "second_copy = \<lparr>queue_id = 7, queue_name = other_queue, is_multi_queue = False, span_id = 0,
     message = (message plain_message)\<lparr>recipients := [delivered_rcpt, rate_limit_recipient 2000 other_rcpt]\<rparr>\<rparr>"
  by (simp add: second_copy_def read_message_def wrapper_new_def set_rcpt_rate_limit_def first_saved Let_def)

text \<open>
  The second save releases the key of the first recipient again: the counter of this message
  goes from one to zero, and to minus one.
\<close>

lemma quota_released_twice:
  "st_counters two_queue_store (QuotaCount ''k'') = 1 \<and> st_counters first_saved (QuotaCount ''k'') = 0
   \<and> st_counters second_saved (QuotaCount ''k'') = - 1"
proof -
  have "release_quota (message second_copy) =
     ((message second_copy)\<lparr>quota_keys := []\<rparr>, [(QuotaCount ''k'', - 1)])"
    by (simp add: release_quota_def second_copy_message plain_message_def new_message_def Let_def
        domain_quota_id_def rcpt_quota_id_def)
  then have "st_counters second_saved (QuotaCount ''k'') = - 1"
    using save_ops_effect [of second_copy 1000 first_saved]
    by (simp add: second_saved_def save_changes_def store_write_def second_copy_message first_saved Let_def)
  then show ?thesis by (simp add: two_queue_store_def first_saved)
qed

text \<open>The first notification of an expanded recipient is due at twice the time of day.\<close>

lemma expanded_notify_due:
  "due (notify (last (recipients (add_expanded_recipient (\<lambda>s. s) plain_config now a m)))) = now + (86400 + now)"
  by (simp add: add_expanded_recipient_def Let_def strategy_def plain_config_def get_queue_or_default_def
      default_schedule_def schedule_later_def)

section \<open>The store\<close>

text \<open>
  C1: Whatever messages are queued and in whatever order and however successfully their events
  are attempted (under one virtual queue, with fresh ids and room for the messages an attempt
  queues), every quota counter is the sum of what the stored messages have reserved, the events
  of the store are those that the messages wait for, and each pending recipient has one, no
  later than its next retry, notification or expiry.
\<close>

theorem queue_store_consistent:
  assumes "queue_run E q n st" and "\<And>e. e \<in> E \<Longrightarrow> environment_ok q n e"
  shows "(\<forall>c. st_counters st c = (\<Sum>i\<in>UNIV. held_at c st i))
    \<and> (\<forall>d i p. (d, i, p) \<in> set (st_events st) \<longleftrightarrow>
        (\<exists>m. st_messages st i = Some m \<and> next_event m (Some p) = Some d))
    \<and> (\<forall>i m r. st_messages st i = Some m \<longrightarrow> r \<in> set (recipients m) \<longrightarrow> pending r \<longrightarrow>
        (\<exists>d. (d, i, q) \<in> set (st_events st) \<and> d \<le> earlier_event m r))"
proof -
  have "consistent q st" by (rule queue_run_consistent [OF assms])
  then show ?thesis
    using consistent_waiting_event [of q st] by (auto simp: consistent_def balanced_def events_agree_def)
qed

theorem queue_store_consistent_witness:
  "(\<forall>c. st_counters plain_store c = (\<Sum>i\<in>UNIV. held_at c plain_store i))
    \<and> (1000, 7, DEFAULT_QUEUE_NAME) \<in> set (st_events plain_store)"
  using queue_store_consistent [OF plain_run] plain_env_ok by simp

text \<open>
  C3: No waiting message is forgotten, where every strategy names the same virtual queue: when
  one of the times that a pending recipient of a message of the queue waits for has come
  and no unexpired lock is held on the message, the next round of the manager over the events
  of the store starts a worker for it, unless all threads of the queue are busy after the
  round. (The message is in a store that queueing and attempts under this one virtual queue have led
  to, with fresh ids and room for the messages an attempt queues; the queue's name has
  eight bytes, the shuffle is a permutation, and the clock does not pass its end within the
  refresh time. An attempt that moves a recipient to another virtual queue may leave it without
  an event, so with several it does not hold.)
\<close>

theorem queue_waiting_message_starts:
  assumes "queue_run E q n st" and "\<And>e. e \<in> E \<Longrightarrow> environment_ok q n e" and "length q = 8"
    and "st_messages st i = Some m" and "r \<in> set (recipients m)" and "pending r"
    and "earlier_event m r \<le> now" and "now \<le> now + QUEUE_REFRESH"
    and "unlocked now mgr (i, q)" and "permutes shuffle"
    and "process_queue c shuffle t now (st_events st) mgr = (ws, mgr')" and "queue_has_capacity mgr' q"
  shows "\<exists>d. (d, i, q) \<in> set ws"
  using waiting_message_starts [OF queue_run_consistent [OF assms(1,2)] assms(3-11)] assms(12) by blast

theorem queue_waiting_message_starts_witness:
  "\<exists>ws mgr. process_queue plain_config (\<lambda>es. es) 1 1000 (st_events plain_store) (manager_new 0) = (ws, mgr)
     \<and> (\<exists>d. (d, 7, DEFAULT_QUEUE_NAME) \<in> set ws)"
proof -
  obtain ws mgr where p: "process_queue plain_config (\<lambda>es. es) 1 1000 (st_events plain_store) (manager_new 0)
      = (ws, mgr)" and cap: "queue_has_capacity mgr DEFAULT_QUEUE_NAME"
    by (simp add: plain_store_events plain_config_def round_defs default_name_length)
  have "\<exists>d. (d, 7, DEFAULT_QUEUE_NAME) \<in> set ws"
    by (rule queue_waiting_message_starts [OF plain_run _ default_name_length, where m = plain_stored
          and r = "plain_rcpt ''c@d.org''" and now = 1000, OF _ _ _ _ _ _ _ _ p])
      (use cap in \<open>simp_all add: plain_env_ok QUEUE_REFRESH_def unlocked_def manager_new_def permutes_def\<close>)
  with p show ?thesis by blast
qed

text \<open>
  C7: Delivery ends, where every strategy names the same virtual queue: when the expiry of every
  pending recipient of a message has passed, the next attempt of the message's event
  that holds the store's lock completes, and the message and all its events leave the store,
  whatever the hosts answer. (The store accepts the write, and has room for the messages that the
  attempt queues; it is one that queueing and attempts under this one virtual queue have led to,
  with fresh ids. A message in two virtual queues has an event in each, and its removal clears
  only that of the attempt.)
\<close>

theorem queue_message_leaves:
  assumes "queue_run E q n st" and "\<And>e. e \<in> E \<Longrightarrow> environment_ok q n e"
    and "e \<in> E" and "de_write_ok e" and "(d, i, p) \<in> set (st_events st)" and "room_for_attempt n st i"
    and "st_messages st i = Some m"
    and "\<forall>r\<in>set (recipients m). pending r \<longrightarrow> is_expired r (created m) now"
    and "try_deliver e True now (d, i, p) st = (s, st')"
  shows "s = WorkCompleted \<and> st_messages st' i = None \<and> (\<forall>d' p'. (d', i, p') \<notin> set (st_events st'))"
  using expired_message_leaves [OF queue_run_consistent [OF assms(1,2)] assms(2) [OF assms(3)] assms(4-9)]
  by blast

theorem queue_message_leaves_witness:
  "st_messages (snd (try_deliver plain_env True 5000 (1000, 7, DEFAULT_QUEUE_NAME) plain_store)) 7 = None"
  using queue_message_leaves [OF plain_run _ _ _ plain_event plain_room, where m = plain_stored and now = 5000
      and e = plain_env]
  by (cases "try_deliver plain_env True 5000 (1000, 7, DEFAULT_QUEUE_NAME) plain_store")
    (simp add: plain_env_ok is_expired_def, simp add: plain_env_def)

section \<open>The manager\<close>

text \<open>
  C8: In every run of the manager with its workers, under settings that may change from iteration
  to iteration, the counter of each virtual queue is the number of its workers, and they are
  no more than the threads that one of the settings of the run gives the queue (so never more than
  its threads, when they stay the same; after a reload that lowers them the workers that run
  already may be more). An iteration starts a worker only when the queue's workers, with it,
  are within the limit in force, a reload sets that limit to the threads of the settings of the
  moment, and no completion that a running worker reports makes the manager panic. (Settings
  name a virtual queue once.)
\<close>

theorem queue_workers_bounded:
  assumes "manager_run E mgr running" and "\<And>env. env \<in> E \<Longrightarrow> distinct (map fst (virtual_queues (me_config env)))"
  shows "(\<forall>q. (busy q running = 0 \<or>
          (\<exists>env\<in>E. busy q running \<le> unat (get_virtual_queue_or_default (me_config env) q)))
        \<and> (case stats mgr q of None \<Rightarrow> busy q running = 0 | Some s \<Rightarrow> unat (in_flight s) = busy q running))
    \<and> (\<forall>env\<in>E. \<forall>F wk t now es. F \<subseteq># running \<longrightarrow> image_mset snd F = mset (done_keys (wake_events wk)) \<longrightarrow>
        (\<exists>ws mgr'. manager_step env t now wk es mgr = Some (ws, mgr')
          \<and> (\<forall>(d, i, q)\<in>set ws. \<exists>s. stats mgr' q = Some s
               \<and> busy q (running - F + mset ws) \<le> unat (max_in_flight s))
          \<and> (\<forall>q n. ReloadSettings \<in> set (wake_events wk) \<longrightarrow> map_of (virtual_queues (me_config env)) q = Some n
               \<longrightarrow> limit mgr' q = Some n)))"
proof (intro conjI allI ballI impI)
  have agree: "stats_agree (me_config ` E) mgr running" by (rule manager_run_agree [OF assms])
  show "busy q running = 0 \<or> (\<exists>env\<in>E. busy q running \<le> unat (get_virtual_queue_or_default (me_config env) q))" for q
    using stats_agree_at [OF agree, of q]
    by (cases "stats mgr q") (auto simp: threads_of_def within_some_def word_le_nat_alt)
  show "case stats mgr q of None \<Rightarrow> busy q running = 0 | Some s \<Rightarrow> unat (in_flight s) = busy q running" for q
    using stats_agree_at [OF agree, of q] by (cases "stats mgr q") auto
  fix env F wk t now es
  assume env: "env \<in> E" and "F \<subseteq># running" "image_mset snd F = mset (done_keys (wake_events wk))"
  with manager_step_agree [OF agree assms(2)] obtain ws mgr'
    where m: "manager_step env t now wk es mgr = Some (ws, mgr')"
      and a: "stats_agree (me_config ` E) mgr' (running - F + mset ws)" by blast
  have "\<exists>s. stats mgr' q = Some s \<and> busy q (running - F + mset ws) \<le> unat (max_in_flight s)"
    if started: "(d, i, q) \<in> set ws" for d i q
  proof -
    from manager_step_limits(1) [OF m assms(2) [OF env] started] obtain s
      where s: "stats mgr' q = Some s" "in_flight s \<le> max_in_flight s" by blast
    with stats_agree_at [OF a, of q] show ?thesis by (auto simp: word_le_nat_alt)
  qed
  then show "\<exists>ws mgr'. manager_step env t now wk es mgr = Some (ws, mgr')
      \<and> (\<forall>(d, i, q)\<in>set ws. \<exists>s. stats mgr' q = Some s \<and> busy q (running - F + mset ws) \<le> unat (max_in_flight s))
      \<and> (\<forall>q n. ReloadSettings \<in> set (wake_events wk) \<longrightarrow> map_of (virtual_queues (me_config env)) q = Some n
           \<longrightarrow> limit mgr' q = Some n)"
    using m manager_step_limits(2) [OF m assms(2) [OF env]] by fast
qed

theorem queue_workers_bounded_witness:
  "busy DEFAULT_QUEUE_NAME {#due_event 1, due_event 2#} = 2
   \<and> (\<exists>ws mgr. manager_step (threads_env 1) 1 1000 (Received [ReloadSettings]) [] round1 = Some (ws, mgr)
        \<and> limit mgr DEFAULT_QUEUE_NAME = Some 1)"
proof -
  have "\<And>env. env \<in> {threads_env 2, threads_env 1} \<Longrightarrow> distinct (map fst (virtual_queues (me_config env)))"
    using threads_distinct by blast
  from queue_workers_bounded [OF run1 this, THEN conjunct2, rule_format, of "threads_env 1" "{#}" "Received [ReloadSettings]" 1 1000 "[]"]
  obtain ws mgr where m: "manager_step (threads_env 1) 1 1000 (Received [ReloadSettings]) [] round1 = Some (ws, mgr)"
    and l: "\<forall>q n. map_of (virtual_queues (me_config (threads_env 1))) q = Some n \<longrightarrow> limit mgr q = Some n"
    by (auto simp: wake_events_def)
  from l have "limit mgr DEFAULT_QUEUE_NAME = Some 1" by (simp add: threads_env_def)
  with m show ?thesis by auto
qed

section \<open>Events, quotas and notifications\<close>

text \<open>
  The times of a message agree: the event of a virtual queue is the earliest time that one
  of its pending recipients waits for, the events written for a message are the events of
  its queues, one each, none exactly when nothing waits, and the stored form of the message gives
  the same times as the message.
\<close>

theorem queue_event_times:
  "next_event m q = (if waiting m q = [] then None else Some (Min (earlier_event m ` set (waiting m q))))
   \<and> map_of (next_events m) p = next_event m (Some p) \<and> distinct (map fst (next_events m))
   \<and> (next_events m = [] \<longleftrightarrow> next_event m None = None)
   \<and> archived_next_event m q = next_event m q"
  by (intro conjI next_event_waiting next_events_map next_events_distinct next_events_Nil
      archived_next_event_eq)

text \<open>
  C11: A message is admitted exactly when every applicable quota has room for it, and then
  reserves the keys of those quotas: each sender quota once, each recipient quota for each
  recipient, and of the domain quotas only the first, once for each domain; the
  others are never checked.
\<close>

theorem queue_admission:
  "has_quota env rc qs cnt w =
     (if list_all (within_quota env cnt (msg_size (message w))) (quota_checks rc qs (message w))
      then Some (w\<lparr>message := (message w)
             \<lparr>quota_keys := concat (map (check_keys env) (quota_checks rc qs (message w)))\<rparr>\<rparr>)
      else None)"
  unfolding has_quota_admits admit_def by (simp add: list_all_iff)

text \<open>
  C14: A notification is sent once. A look at a message builds a notification exactly when the
  message has a return path and there is a recipient to report: one not reported before and not
  told NEVER, that is delivered or failed for good, or delayed with its notification due, and for
  which that was asked for. Afterwards every recipient that is final and was not told NEVER bears the
  mark of having been reported (without a return path only those that failed), no
  pending one gets the mark, the next notification of every pending one is later, and its status
  is the same. So a second look at the same time has nothing to send, and any later one only for
  a pending recipient whose next notification has come. (The intervals of the configuration are not
  zero and do not pass the end of the clock; the server's mark is none of the flags of NOTIFY.)
\<close>

theorem dsn_sent_once:
  assumes "notify_later c now" and "separate_flags (nflags e)" and "send_dsn e c now m = (m', d)"
  shows "(d \<noteq> None \<longleftrightarrow> return_path m \<noteq> [] \<and> (\<exists>r\<in>set (recipients m). to_report (nflags e) now r))
    \<and> length (recipients m') = length (recipients m)
    \<and> (\<forall>i<length (recipients m).
         looked_at (nflags e) now (return_path m = []) (recipients m ! i) (recipients m' ! i))
    \<and> snd (send_dsn e c now m') = None
    \<and> (\<forall>c' t. snd (send_dsn e c' t m') \<noteq> None \<longrightarrow>
         (\<exists>r\<in>set (recipients m'). pending r \<and> now < due (notify r) \<and> due (notify r) \<le> t))"
proof -
  note again = send_dsn_again [OF assms(3,1,2)]
  have "snd (send_dsn e c now m') = None" using again [of c now] by (metis leD)
  moreover have "\<forall>c' t. snd (send_dsn e c' t m') \<noteq> None \<longrightarrow>
      (\<exists>r\<in>set (recipients m'). pending r \<and> now < due (notify r) \<and> due (notify r) \<le> t)"
    using again by blast
  ultimately show ?thesis
    using send_dsn_reports [OF assms(2), of c now m] send_dsn_looks [OF assms(1), of _ m e]
      look_length [of e c now m] assms(3) by simp
qed

theorem dsn_sent_once_witness:
  "\<exists>m dsn. send_dsn plain_dsn plain_config 1000 failed_message = (m, Some dsn)
     \<and> rcpt_flags (recipients m ! 0) = 4 OR RCPT_DSN_SENT \<and> snd (send_dsn plain_dsn plain_config 1000 m) = None"
proof -
  have later: "notify_later plain_config 1000"
    by (simp add: notify_later_def U64_MAX_def plain_config_def get_queue_or_default_def default_schedule_def)
  have flags: "separate_flags (nflags plain_dsn)" by (simp add: separate_flags_def plain_dsn_def RCPT_DSN_SENT_def)
  obtain m d where s: "send_dsn plain_dsn plain_config 1000 failed_message = (m, d)" by fastforce
  note once = dsn_sent_once [OF later flags s]
  have "\<exists>r\<in>set (recipients failed_message). to_report (nflags plain_dsn) 1000 r"
    by (simp add: failed_message_def to_report_def has_flag_def has_bits_def plain_dsn_def RCPT_DSN_SENT_def)
  moreover have "return_path failed_message \<noteq> []"
    by (simp add: failed_message_def plain_message_def new_message_def Let_def)
  ultimately obtain dsn where "d = Some dsn" using once by auto
  moreover from once have "looked_at (nflags plain_dsn) 1000 False (recipients failed_message ! 0) (recipients m ! 0)"
    by (simp add: failed_message_def plain_message_def new_message_def Let_def)
  then have "rcpt_flags (recipients m ! 0) = 4 OR RCPT_DSN_SENT"
    by (simp add: looked_at_def failed_message_def pending_def status_pending_def has_flag_def has_bits_def
        plain_dsn_def RCPT_DSN_SENT_def)
  ultimately show ?thesis using s once by blast
qed

section \<open>Several virtual queues\<close>

text \<open>
  C13: A worker of one of several virtual queues writes only the recipients that are in its
  queue: the others, and the quota keys, stay as they are stored, while the counters
  lose what the worker's copy releases. (A recipient that the attempt has moved to another queue
  is among the others: its new status is not written.)
\<close>

theorem multi_queue_save:
  assumes "is_multi_queue w" and "st_messages st (queue_id w) = Some cur"
    and "blob_hash (message w) = blob_hash cur"
    and "length (recipients (message w)) = length (recipients cur)"
    and "save_changes True prev w st = (ok, st')"
  shows "ok \<and> (\<exists>m. st_messages st' (queue_id w) = Some m \<and> quota_keys m = quota_keys cur
      \<and> length (recipients m) = length (recipients cur)
      \<and> (\<forall>j<length (recipients cur). recipients m ! j =
          (if queue (recipients (message w) ! j) = queue_name w then recipients (message w) ! j
           else recipients cur ! j)))
    \<and> (\<forall>c. st_counters st' c = st_counters st c + added c (snd (release_quota (message w))))"
  using save_merges [OF assms] assms(4)
  by (simp add: merge_recipients_nth) (simp add: merge_recipients_def)

theorem multi_queue_save_witness:
  "\<exists>m. st_messages first_saved 7 = Some m \<and> quota_keys m = [CountKey ''k'' 1]"
proof -
  have saved: "save_changes True (Some 1000) first_copy two_queue_store
      = (fst (save_changes True (Some 1000) first_copy two_queue_store), first_saved)"
    by (simp add: first_saved_def)
  show ?thesis
    using multi_queue_save [OF _ _ _ _ saved,
        of "(message plain_message)\<lparr>recipients := [plain_rcpt ''c@d.org'', other_rcpt]\<rparr>"]
    by (auto simp: first_copy_message two_queue_store_def other_rcpt_def [symmetric] plain_message_def Let_def)
qed

end
