(* ===== verification/Smtp_Client.thy ===== *)
theory Smtp_Client
  imports Queue_Delivery Sasl Bitmaps
begin

text \<open>
  The client of an SMTP or LMTP host (\<^verbatim>\<open>crates/smtp/src/outbound/client.rs\<close>). A
  connection is what has been written to it and the results that its reads will have: a reply,
  an error, or the time running out. The parser of replies (\<open>smtp_proto\<close>), base 64 and the
  constants of these crates are arguments.
\<close>

section \<open>Connections\<close>

datatype read_result = Reply response | ReadError client_error | ReadTimeout

record ehlo_response =
  ehlo_capabilities :: u32
  auth_mechanisms :: u64

record smtp_conn =
  sc_sent :: string
  sc_replies :: "read_result list"
  sc_ehlo :: "(client_error + ehlo_response) option"

text \<open>The constants of \<open>smtp_proto\<close>, what it reads of an EHLO response, and base 64.\<close>

record smtp_flags =
  EXT_SIZE :: u32
  EXT_REQUIRE_TLS :: u32
  EXT_SMTP_UTF8 :: u32
  EXT_DSN :: u32
  EXT_CHUNKING :: u32
  EXT_START_TLS :: u32
  MAIL_REQUIRETLS :: u64
  MAIL_SMTPUTF8 :: u64
  MAIL_RET_FULL :: u64
  MAIL_RET_HDRS :: u64
  AUTH_LOGIN :: u64
  AUTH_PLAIN :: u64
  AUTH_OAUTHBEARER :: u64
  AUTH_XOAUTH2 :: u64
  to_mechanism :: "u64 \<Rightarrow> string"
  b64_encode :: "string \<Rightarrow> string"
  b64_decode :: "string \<Rightarrow> string + string"
  has_capability :: "ehlo_response \<Rightarrow> u32 \<Rightarrow> bool"

definition conn_write :: "string \<Rightarrow> smtp_conn \<Rightarrow> smtp_conn" where
  "conn_write bytes c = c\<lparr>sc_sent := sc_sent c @ bytes\<rparr>"

text \<open>A read of a closed connection is an error.\<close>

definition conn_read :: "smtp_conn \<Rightarrow> read_result \<times> smtp_conn" where
  "conn_read c =
     (case sc_replies c of
        [] \<Rightarrow> (ReadError UnparseableReply, c) | r # rs \<Rightarrow> (r, c\<lparr>sc_replies := rs\<rparr>))"

text \<open>A read within a time-out of its own: \<open>cmd\<close>.\<close>

definition read_reply :: "smtp_conn \<Rightarrow> (client_error + response) \<times> smtp_conn" where
  "read_reply c =
     (case conn_read c of
        (Reply r, c) \<Rightarrow> (Inr r, c) | (ReadError e, c) \<Rightarrow> (Inl e, c) | (ReadTimeout, c) \<Rightarrow> (Inl ClientTimeout, c))"

definition smtp_cmd :: "string \<Rightarrow> smtp_conn \<Rightarrow> (client_error + response) \<times> smtp_conn" where
  "smtp_cmd bytes c = read_reply (conn_write bytes c)"

definition quit :: "smtp_conn \<Rightarrow> smtp_conn" where
  "quit c = conn_write (''QUIT'' @ CRLF) c"

text \<open>A read whose time-out and errors are statuses: \<open>stage\<close> names it, \<open>command\<close> is blamed.\<close>

definition read_status :: "proto \<Rightarrow> string \<Rightarrow> string \<Rightarrow> string \<Rightarrow> smtp_conn \<Rightarrow>
    (delivery_status + response) \<times> smtp_conn" where
  "read_status p host stage command c =
     (case conn_read c of
        (Reply r, c) \<Rightarrow> (Inr r, c)
      | (ReadError e, c) \<Rightarrow> (Inl (from_smtp_error p host command e), c)
      | (ReadTimeout, c) \<Rightarrow> (Inl (status_timeout host stage), c))"

definition read_greeting :: "proto \<Rightarrow> string \<Rightarrow> smtp_conn \<Rightarrow> delivery_status option \<times> smtp_conn" where
  "read_greeting p host c =
     (case read_status p host ''reading greeting'' [] c of
        (Inl s, c) \<Rightarrow> (Some s, c)
      | (Inr r, c) \<Rightarrow> (map_option (from_smtp_error p host []) (assert_code 220 r), c))"

definition command_name :: "string option \<Rightarrow> string" where
  "command_name bdat = (case bdat of Some cmd \<Rightarrow> cmd | None \<Rightarrow> ''DATA'')"

definition read_smtp_data_response :: "proto \<Rightarrow> string \<Rightarrow> string option \<Rightarrow> smtp_conn \<Rightarrow>
    (delivery_status + response) \<times> smtp_conn" where
  "read_smtp_data_response p host bdat =
     read_status p host ''reading SMTP DATA response'' (command_name bdat)"

text \<open>The replies of an LMTP host, one for each accepted recipient.\<close>

fun read_lmtp_data_response :: "proto \<Rightarrow> string \<Rightarrow> nat \<Rightarrow> smtp_conn \<Rightarrow>
    (delivery_status + response list) \<times> smtp_conn" where
  "read_lmtp_data_response p host 0 c = (Inr [], c)"
| "read_lmtp_data_response p host (Suc n) c =
     (case read_status p host ''reading LMTP DATA responses'' [] c of
        (Inl s, c) \<Rightarrow> (Inl s, c)
      | (Inr r, c) \<Rightarrow>
          (case read_lmtp_data_response p host n c of
             (Inl s, c) \<Rightarrow> (Inl s, c) | (Inr rs, c) \<Rightarrow> (Inr (r # rs), c)))"

definition say_helo :: "proto \<Rightarrow> string \<Rightarrow> bool \<Rightarrow> string \<Rightarrow> smtp_conn \<Rightarrow>
    (delivery_status + ehlo_response) \<times> smtp_conn" where
  "say_helo p host is_smtp local_hostname c =
     (let cmd = (if is_smtp then ''EHLO '' else ''LHLO '') @ local_hostname @ CRLF;
          c = conn_write cmd c
      in case sc_ehlo c of
           None \<Rightarrow> (Inl (status_timeout host ''reading EHLO response''), c)
         | Some (Inl e) \<Rightarrow> (Inl (from_smtp_error p host cmd e), c)
         | Some (Inr caps) \<Rightarrow> (Inr caps, c))"

section \<open>The message\<close>

text \<open>The transparency procedure: a full stop after a CR or LF is doubled.\<close>

fun stuff_dots :: "bool \<Rightarrow> string \<Rightarrow> string" where
  "stuff_dots is_cr_or_lf [] = []"
| "stuff_dots is_cr_or_lf (b # bs) =
     (if b = CHR ''.'' \<and> is_cr_or_lf then ''.'' @ b # stuff_dots False bs
      else b # stuff_dots (b = LF \<or> b = CR) bs)"

definition write_message :: "string \<Rightarrow> smtp_conn \<Rightarrow> smtp_conn" where
  "write_message m c = conn_write (stuff_dots False m @ CRLF @ ''.'' @ CRLF) c"

datatype blob_result = BlobFound string | BlobMissing | BlobError

definition queue_system_error :: delivery_status where
  "queue_system_error = temporary ''localhost'' (IoError ''Queue system error.'')"

text \<open>\<open>BDAT\<close> sends the message at once, \<open>DATA\<close> after the host's reply.\<close>

definition send_message :: "proto \<Rightarrow> string \<Rightarrow> blob_result \<Rightarrow> string option \<Rightarrow> smtp_conn \<Rightarrow>
    delivery_status option \<times> smtp_conn" where
  "send_message p host blob bdat c =
     (case blob of
        BlobFound raw \<Rightarrow>
          (case bdat of
             Some cmd \<Rightarrow> (None, conn_write (cmd @ raw) c)
           | None \<Rightarrow>
               (case conn_read (conn_write (''DATA'' @ CRLF) c) of
                  (ReadTimeout, c) \<Rightarrow> (Some (status_timeout host ''sending message''), c)
                | (ReadError e, c) \<Rightarrow> (Some (from_smtp_error p host ''DATA'' e), c)
                | (Reply r, c) \<Rightarrow>
                    (case assert_code 354 r of
                       Some e \<Rightarrow> (Some (from_smtp_error p host ''DATA'' e), c)
                     | None \<Rightarrow> (None, write_message raw c))))
      | _ \<Rightarrow> (Some queue_system_error, c))"

section \<open>Authentication\<close>

text \<open>
  What is sent for a mechanism. The answer to \<open>LOGIN\<close> depends on the challenge, of which at least
  nine bytes (eight, for the second test) must be there.
\<close>

definition login_answer :: "string \<Rightarrow> string \<Rightarrow> string \<Rightarrow> client_error + string" where
  "login_answer username secret challenge =
     (if length challenge < 9 then Inl InvalidChallenge
      else if eq_ignore_ascii_case ''user name'' (take 9 challenge)
           \<or> eq_ignore_ascii_case ''username'' (take 8 challenge) then Inr username
      else if eq_ignore_ascii_case ''password'' (take 8 challenge) then Inr secret
      else Inl InvalidChallenge)"

definition encode_credentials :: "smtp_flags \<Rightarrow> credentials \<Rightarrow> u64 \<Rightarrow> string \<Rightarrow> client_error + string" where
  "encode_credentials f cred mechanism challenge =
     map_sum id (b64_encode f)
       (case cred of
          Basic username secret _ \<Rightarrow>
            (if mechanism = AUTH_PLAIN f then Inr (NUL # username @ NUL # secret)
             else if mechanism = AUTH_LOGIN f then
               (case b64_decode f challenge of
                  Inl e \<Rightarrow> Inl (ClientBase64 e)
                | Inr challenge \<Rightarrow> login_answer username secret challenge)
             else Inl UnsupportedAuthMechanism)
        | Bearer username token \<Rightarrow>
            (if mechanism = AUTH_XOAUTH2 f then
               Inr (''user='' @ (case username of Some u \<Rightarrow> u | None \<Rightarrow> []) @ [SOH]
                      @ ''auth=Bearer '' @ token @ [SOH, SOH])
             else if mechanism = AUTH_OAUTHBEARER f then Inr token
             else Inl UnsupportedAuthMechanism))"

fun auth_loop :: "nat \<Rightarrow> smtp_flags \<Rightarrow> u64 \<Rightarrow> credentials \<Rightarrow> response \<Rightarrow> smtp_conn \<Rightarrow>
    client_error option \<times> smtp_conn" where
  "auth_loop 0 f mechanism cred reply c = (Some (UnexpectedReply reply), c)"
| "auth_loop (Suc n) f mechanism cred reply c =
     (if resp_code reply = 334 then
        (case encode_credentials f cred mechanism (resp_message reply) of
           Inl e \<Rightarrow> (Some e, c)
         | Inr answer \<Rightarrow>
             (case smtp_cmd (answer @ CRLF) c of
                (Inl e, c) \<Rightarrow> (Some e, c)
              | (Inr reply, c) \<Rightarrow> auth_loop n f mechanism cred reply c))
      else if resp_code reply = 235 then (None, c)
      else (Some (UnexpectedReply reply), c))"

definition initial_response :: "smtp_flags \<Rightarrow> u64 \<Rightarrow> bool" where
  "initial_response f mechanism \<longleftrightarrow>
     has_bits mechanism (AUTH_PLAIN f OR AUTH_XOAUTH2 f OR AUTH_OAUTHBEARER f)"

definition auth :: "smtp_flags \<Rightarrow> u64 \<Rightarrow> credentials \<Rightarrow> smtp_conn \<Rightarrow> client_error option \<times> smtp_conn" where
  "auth f mechanism cred c =
     (case (if initial_response f mechanism
            then map_sum id (\<lambda>a. '' '' @ a) (encode_credentials f cred mechanism []) else Inr []) of
        Inl e \<Rightarrow> (Some e, c)
      | Inr a \<Rightarrow>
          (case smtp_cmd (''AUTH '' @ to_mechanism f mechanism @ a @ CRLF) c of
             (Inl e, c) \<Rightarrow> (Some e, c)
           | (Inr reply, c) \<Rightarrow> auth_loop 3 f mechanism cred reply c))"

definition credential_mechanisms :: "smtp_flags \<Rightarrow> credentials \<Rightarrow> u64" where
  "credential_mechanisms f cred =
     (case cred of Basic _ _ _ \<Rightarrow> AUTH_LOGIN f OR AUTH_PLAIN f
      | Bearer _ _ \<Rightarrow> AUTH_OAUTHBEARER f OR AUTH_XOAUTH2 f)"

text \<open>The mechanisms are tried from the highest bit down; each try clears a bit.\<close>

function auth_try :: "smtp_flags \<Rightarrow> credentials \<Rightarrow> u64 \<Rightarrow> response option \<Rightarrow> bool \<Rightarrow> smtp_conn \<Rightarrow>
    client_error option \<times> smtp_conn" where
  "auth_try f cred available has_err has_failed c =
     (if available \<noteq> 0 \<and> \<not> has_failed then
        (let mechanism = bit_mask (of_nat (63 - leading_zeros available));
             available' = available XOR mechanism
         in case auth f mechanism cred c of
              (None, c) \<Rightarrow> (None, c)
            | (Some (UnexpectedReply reply), c) \<Rightarrow>
                auth_try f cred available' (Some reply) (resp_code reply = 535) c
            | (Some UnsupportedAuthMechanism, c) \<Rightarrow> auth_try f cred available' has_err has_failed c
            | (Some e, c) \<Rightarrow> (Some e, c))
      else (Some (case has_err of Some reply \<Rightarrow> AuthenticationFailed reply | None \<Rightarrow> UnsupportedAuthMechanism), c))"
  by pat_completeness auto
termination
  by (relation "measure (\<lambda>(f, cred, available, _). card {i. bit available i})") (simp_all add: bits_pop)

declare auth_try.simps [simp del]

definition authenticate :: "smtp_flags \<Rightarrow> credentials \<Rightarrow> ehlo_response \<Rightarrow> smtp_conn \<Rightarrow>
    client_error option \<times> smtp_conn" where
  "authenticate f cred caps c =
     auth_try f cred (credential_mechanisms f cred AND auth_mechanisms caps) None False c"

section \<open>STARTTLS\<close>

datatype start_tls_result = TlsSuccess | TlsFailed client_error | TlsUnavailable "response option"

definition start_tls :: "client_error option \<Rightarrow> smtp_conn \<Rightarrow> client_error option \<times> smtp_conn" where
  "start_tls handshake c =
     (case smtp_cmd (''STARTTLS'' @ CRLF) c of
        (Inl e, c) \<Rightarrow> (Some e, c)
      | (Inr r, c) \<Rightarrow>
          (case assert_positive_completion r of Some e \<Rightarrow> (Some e, c) | None \<Rightarrow> (handshake, c)))"

text \<open>\<open>handshake\<close> is the error of the TLS handshake, if any.\<close>

definition try_start_tls :: "smtp_flags \<Rightarrow> client_error option \<Rightarrow> ehlo_response \<Rightarrow> smtp_conn \<Rightarrow>
    start_tls_result \<times> smtp_conn" where
  "try_start_tls f handshake caps c =
     (if has_capability f caps (EXT_START_TLS f) then
        (case smtp_cmd (''STARTTLS'' @ CRLF) c of
           (Inl e, c) \<Rightarrow> (TlsFailed e, c)
         | (Inr r, c) \<Rightarrow>
             if resp_code r = 220 then (case handshake of None \<Rightarrow> (TlsSuccess, c) | Some e \<Rightarrow> (TlsFailed e, c))
             else (TlsUnavailable (Some r), c))
      else (TlsUnavailable None, c))"

end
