(* ===== verification/Smtp_Session.thy ===== *)
theory Smtp_Session
  imports Smtp_Client
begin

text \<open>
  The delivery of a message over a connection to a host
  (\<^verbatim>\<open>crates/smtp/src/outbound/session.rs\<close>): the commands of the transaction and the
  results that the replies leave for the recipients. The client is \<open>Smtp_Client\<close>.
\<close>

section \<open>Commands\<close>

definition build_mail_from :: "smtp_flags \<Rightarrow> message \<Rightarrow> ehlo_response \<Rightarrow> string" where
  "build_mail_from f m caps =
     ''MAIL FROM:<'' @ return_path m @ ''>''
     @ (if has_capability f caps (EXT_SIZE f) then '' SIZE='' @ word_text (msg_size m) else [])
     @ (if has_bits (msg_flags m) (MAIL_REQUIRETLS f) \<and> has_capability f caps (EXT_REQUIRE_TLS f)
        then '' REQUIRETLS'' else [])
     @ (if has_bits (msg_flags m) (MAIL_SMTPUTF8 f) \<and> has_capability f caps (EXT_SMTP_UTF8 f)
        then '' SMTPUTF8'' else [])
     @ (if has_capability f caps (EXT_DSN f) then
          (if has_bits (msg_flags m) (MAIL_RET_FULL f) then '' RET=FULL''
           else if has_bits (msg_flags m) (MAIL_RET_HDRS f) then '' RET=HDRS'' else [])
          @ (case env_id m of Some i \<Rightarrow> '' ENVID='' @ i | None \<Rightarrow> [])
        else [])
     @ CRLF"

definition notify_parameter :: "notify_flags \<Rightarrow> recipient \<Rightarrow> string" where
  "notify_parameter nf r =
     (if has_flag r (notify_success nf OR notify_failure nf OR notify_delay nf) then
        '' NOTIFY='' @ join '','' ((if has_flag r (notify_success nf) then [''SUCCESS''] else [])
          @ (if has_flag r (notify_delay nf) then [''DELAY''] else [])
          @ (if has_flag r (notify_failure nf) then [''FAILURE''] else []))
      else if has_flag r (notify_never nf) then '' NOTIFY=NEVER'' else [])"

definition build_rcpt_to :: "smtp_flags \<Rightarrow> notify_flags \<Rightarrow> recipient \<Rightarrow> ehlo_response \<Rightarrow> string" where
  "build_rcpt_to f nf r caps =
     ''RCPT TO:<'' @ address r @ ''>''
     @ (if has_capability f caps (EXT_DSN f) then notify_parameter nf r else []) @ CRLF"

section \<open>The transaction\<close>

record session_params =
  sp_proto :: proto
  sp_flags :: smtp_flags
  sp_notify :: notify_flags
  sp_hostname :: string
  sp_local_hostname :: string
  sp_credentials :: "credentials option"
  sp_capabilities :: "ehlo_response option"
  sp_is_smtp :: bool
  sp_blob :: blob_result

text \<open>The greeting and the authentication: the capabilities, or the status of all recipients.\<close>

definition open_session :: "session_params \<Rightarrow> smtp_conn \<Rightarrow> (delivery_status + ehlo_response) \<times> smtp_conn" where
  "open_session sp c =
     (case (case sp_capabilities sp of
              Some caps \<Rightarrow> (Inr caps, c)
            | None \<Rightarrow> say_helo (sp_proto sp) (sp_hostname sp) (sp_is_smtp sp) (sp_local_hostname sp) c) of
        (Inl s, c) \<Rightarrow> (Inl s, c)
      | (Inr caps, c) \<Rightarrow>
          (case sp_credentials sp of
             None \<Rightarrow> (Inr caps, c)
           | Some cred \<Rightarrow>
               (case authenticate (sp_flags sp) cred caps c of
                  (Some e, c) \<Rightarrow> (Inl (from_smtp_error (sp_proto sp) (sp_hostname sp) ''AUTH ...'' e), c)
                | (None, c) \<Rightarrow> (Inr caps, c))))"

definition mail_from :: "session_params \<Rightarrow> message \<Rightarrow> ehlo_response \<Rightarrow> smtp_conn \<Rightarrow>
    delivery_status option \<times> smtp_conn" where
  "mail_from sp m caps c =
     (let cmd = build_mail_from (sp_flags sp) m caps in
      case smtp_cmd cmd c of
        (Inl e, c) \<Rightarrow> (Some (from_smtp_error (sp_proto sp) (sp_hostname sp) cmd e), c)
      | (Inr r, c) \<Rightarrow>
          (if is_positive_completion r then (None, c)
           else (Some (from_smtp_error (sp_proto sp) (sp_hostname sp) cmd (UnexpectedReply r)), c)))"

definition completed :: "string \<Rightarrow> response \<Rightarrow> delivery_status" where
  "completed host r = Completed \<lparr>hostname = host, host_resp = r\<rparr>"

text \<open>
  The recipients: those that are accepted with their status to be, the results of those that are
  refused, and the status that ends the loop, if any.
\<close>

fun rcpt_loop :: "session_params \<Rightarrow> message \<Rightarrow> ehlo_response \<Rightarrow> nat list \<Rightarrow> smtp_conn \<Rightarrow>
    ((nat \<times> delivery_status) list \<times> delivery_result list \<times> delivery_status option) \<times> smtp_conn" where
  "rcpt_loop sp m caps [] c = (([], [], None), c)"
| "rcpt_loop sp m caps (i # is) c =
     (let r = recipients m ! i; cmd = build_rcpt_to (sp_flags sp) (sp_notify sp) r caps in
      if finished r then rcpt_loop sp m caps is c
      else
        (case smtp_cmd cmd c of
           (Inl e, c) \<Rightarrow> (([], [], Some (from_smtp_error (sp_proto sp) (sp_hostname sp) [] e)), c)
         | (Inr reply, c) \<Rightarrow>
             (case rcpt_loop sp m caps is c of
                ((accepted, refused, failure), c) \<Rightarrow>
                  (if pr_severity (sp_proto sp) reply = PositiveCompletion
                   then (((i, completed (sp_hostname sp) reply) # accepted, refused, failure), c)
                   else ((accepted,
                     AccountResult (rejected (sp_proto sp) (sp_hostname sp) (pr_trim (sp_proto sp) cmd) reply) i
                       # refused, failure), c)))))"

text \<open>The answers to the message: one for all recipients, or one for each with LMTP.\<close>

definition data_results :: "session_params \<Rightarrow> string option \<Rightarrow> nat list \<Rightarrow> (nat \<times> delivery_status) list \<Rightarrow>
    smtp_conn \<Rightarrow> delivery_result list \<times> smtp_conn" where
  "data_results sp bdat idxs accepted c =
     (let p = sp_proto sp; host = sp_hostname sp in
      if sp_is_smtp sp then
        (case read_smtp_data_response p host bdat c of
           (Inl s, c) \<Rightarrow> ([DomainResult s idxs], c)
         | (Inr r, c) \<Rightarrow>
             (if resp_code r = 250 then (map (\<lambda>(i, s). AccountResult s i) accepted, c)
              else ([DomainResult (from_smtp_error p host (command_name bdat) (UnexpectedReply r)) idxs], c)))
      else
        (case read_lmtp_data_response p host (length accepted) c of
           (Inl s, c) \<Rightarrow> ([DomainResult s idxs], c)
         | (Inr rs, c) \<Rightarrow>
             (map2 (\<lambda>(i, _) r. AccountResult
                (if pr_severity p r = PositiveCompletion then completed host r
                 else rejected p host (command_name bdat) r) i) accepted rs, c)))"

definition deliver :: "session_params \<Rightarrow> message \<Rightarrow> nat list \<Rightarrow> smtp_conn \<Rightarrow>
    delivery_result list \<times> smtp_conn" where
  "deliver sp m idxs c =
     (case open_session sp c of
        (Inl s, c) \<Rightarrow> ([DomainResult s idxs], quit c)
      | (Inr caps, c) \<Rightarrow>
          (case mail_from sp m caps c of
             (Some s, c) \<Rightarrow> ([DomainResult s idxs], quit c)
           | (None, c) \<Rightarrow>
               (case rcpt_loop sp m caps idxs c of
                  ((accepted, refused, Some s), c) \<Rightarrow> (refused @ [DomainResult s idxs], quit c)
                | ((accepted, refused, None), c) \<Rightarrow>
                    (if accepted = [] then (refused, quit c)
                     else
                       (let bdat = (if has_capability (sp_flags sp) caps (EXT_CHUNKING (sp_flags sp))
                              then Some (''BDAT '' @ word_text (msg_size m) @ '' LAST'' @ CRLF) else None)
                        in case send_message (sp_proto sp) (sp_hostname sp) (sp_blob sp) bdat c of
                             (Some s, c) \<Rightarrow> (refused @ [DomainResult s idxs], quit c)
                           | (None, c) \<Rightarrow>
                               (case data_results sp bdat idxs accepted c of
                                  (rs, c) \<Rightarrow> (refused @ rs, quit c)))))))"

end
