(* ===== verification/Smtp_Transaction.thy ===== *)
theory Smtp_Transaction
  imports Smtp_Session
begin

text \<open>
  What a delivery over a connection does (\<open>Smtp_Session\<close>): how an operation moves the connection,
  that authentication ends, and which results the recipients are left with.
\<close>

section \<open>What an operation does to a connection\<close>

text \<open>It writes more, and reads some of the replies.\<close>

definition steps :: "smtp_conn \<Rightarrow> smtp_conn \<Rightarrow> bool" where
  "steps c c' \<longleftrightarrow> (\<exists>out read. sc_sent c' = sc_sent c @ out \<and> sc_replies c = read @ sc_replies c')"

lemma steps_refl [simp, intro]: "steps c c"
  by (simp add: steps_def)

lemma steps_trans [trans]: "steps a b \<Longrightarrow> steps b c \<Longrightarrow> steps a c"
  unfolding steps_def by (metis append.assoc)

lemma steps_replies: "steps c c' \<Longrightarrow> set (sc_replies c') \<subseteq> set (sc_replies c)"
  by (auto simp: steps_def)

lemma steps_write [simp, intro]: "steps c (conn_write bytes c)" "steps c (quit c)"
  by (simp_all add: steps_def conn_write_def quit_def)

lemma conn_read_cases:
  obtains (closed) "conn_read c = (ReadError UnparseableReply, c)"
    | (read) r c' where "conn_read c = (r, c')" and "r \<in> set (sc_replies c)" and "steps c c'"
      and "sc_sent c' = sc_sent c"
proof (cases "sc_replies c")
  case Nil
  then show ?thesis using closed by (simp add: conn_read_def)
next
  case (Cons r rs)
  then have "conn_read c = (r, c\<lparr>sc_replies := rs\<rparr>)" by (simp add: conn_read_def)
  then show ?thesis by (rule read) (simp_all add: Cons steps_def)
qed

lemma conn_read_steps: "conn_read c = (r, c') \<Longrightarrow> steps c c' \<and> sc_sent c' = sc_sent c"
  by (rule conn_read_cases [of c]) auto

lemma conn_read_reply: "conn_read c = (Reply r, c') \<Longrightarrow> Reply r \<in> set (sc_replies c)"
  by (rule conn_read_cases [of c]) auto

lemma read_reply_steps: "read_reply c = (r, c') \<Longrightarrow> steps c c'"
  by (auto simp: read_reply_def dest: conn_read_steps split: prod.splits read_result.splits)

lemma read_reply_reply: "read_reply c = (Inr r, c') \<Longrightarrow> Reply r \<in> set (sc_replies c)"
  by (auto simp: read_reply_def dest: conn_read_reply split: prod.splits read_result.splits)

lemma smtp_cmd_steps: "smtp_cmd bytes c = (r, c') \<Longrightarrow> steps c c'"
  unfolding smtp_cmd_def by (blast intro: steps_trans steps_write(1) read_reply_steps)

lemma smtp_cmd_reply: "smtp_cmd bytes c = (Inr r, c') \<Longrightarrow> Reply r \<in> set (sc_replies c)"
  unfolding smtp_cmd_def by (drule read_reply_reply) (simp add: conn_write_def)

lemma read_status_steps: "read_status p host stage cmd c = (r, c') \<Longrightarrow> steps c c' \<and> sc_sent c' = sc_sent c"
  by (auto simp: read_status_def dest: conn_read_steps split: prod.splits read_result.splits)

lemma read_status_reply: "read_status p host stage cmd c = (Inr r, c') \<Longrightarrow> Reply r \<in> set (sc_replies c)"
  by (auto simp: read_status_def dest: conn_read_reply split: prod.splits read_result.splits)

lemma lmtp_steps: "read_lmtp_data_response p host n c = (r, c') \<Longrightarrow> steps c c'"
proof (induction n arbitrary: c r)
  case (Suc n)
  then show ?case
    by (auto split: prod.splits sum.splits dest!: read_status_steps intro: steps_trans)
qed simp

lemma lmtp_replies:
  "read_lmtp_data_response p host n c = (Inr rs, c') \<Longrightarrow>
     length rs = n \<and> (\<forall>r\<in>set rs. Reply r \<in> set (sc_replies c))"
proof (induction n arbitrary: c rs)
  case (Suc n)
  from Suc.prems obtain r c1 rs' where 1: "read_status p host ''reading LMTP DATA responses'' [] c = (Inr r, c1)"
    "read_lmtp_data_response p host n c1 = (Inr rs', c')" "rs = r # rs'"
    by (auto split: prod.splits sum.splits)
  from Suc.IH [OF 1(2)] read_status_reply [OF 1(1)] steps_replies [of c c1] read_status_steps [OF 1(1)] 1(3)
  show ?case by auto
qed simp

lemma auth_loop_steps: "auth_loop n f mech cred reply c = (r, c') \<Longrightarrow> steps c c'"
  by (induction n arbitrary: reply c)
    (auto split: sum.splits prod.splits if_splits intro: steps_trans dest!: smtp_cmd_steps)

lemma auth_steps: "auth f mech cred c = (r, c') \<Longrightarrow> steps c c'"
  by (auto simp: auth_def split: sum.splits prod.splits intro: steps_trans
      dest!: smtp_cmd_steps auth_loop_steps)


section \<open>Authentication ends\<close>

lemma conn_read_length: "conn_read c = (r, c') \<Longrightarrow> length (sc_replies c) \<le> length (sc_replies c') + 1"
  by (auto simp: conn_read_def split: list.splits)

lemma smtp_cmd_length: "smtp_cmd bytes c = (r, c') \<Longrightarrow> length (sc_replies c) \<le> length (sc_replies c') + 1"
  by (auto simp: smtp_cmd_def read_reply_def conn_write_def dest!: conn_read_length
      split: prod.splits read_result.splits)

lemma auth_loop_length:
  "auth_loop n f mech cred reply c = (r, c') \<Longrightarrow> length (sc_replies c) \<le> length (sc_replies c') + n"
proof (induction n arbitrary: reply c)
  case (Suc n)
  show ?case
  proof (cases "\<exists>answer. resp_code reply = 334 \<and> encode_credentials f cred mech (resp_message reply) = Inr answer")
    case True
    then obtain answer where a: "resp_code reply = 334" "encode_credentials f cred mech (resp_message reply) = Inr answer"
      by blast
    obtain x c1 where x: "smtp_cmd (answer @ CRLF) c = (x, c1)" by fastforce
    from smtp_cmd_length [OF x] Suc.prems Suc.IH a x show ?thesis by (fastforce split: sum.splits)
  next
    case False
    with Suc.prems show ?thesis by (auto split: if_splits sum.splits)
  qed
qed simp

lemma auth_length: "auth f mech cred c = (r, c') \<Longrightarrow> length (sc_replies c) \<le> length (sc_replies c') + 4"
  by (auto simp: auth_def split: sum.splits prod.splits dest!: smtp_cmd_length auth_loop_length)

lemma auth_try_cases:
  assumes "auth_try f cred av he hf c = (r, c')"
  obtains (stop) "c' = c" and "r \<noteq> None" and "av = 0 \<or> hf"
    | (ends) mech where "av \<noteq> 0" and "auth f mech cred c = (r, c')" and "mech = bit_mask (of_nat (63 - leading_zeros av))"
    | (again) mech c1 e he' hf' where "av \<noteq> 0" and "mech = bit_mask (of_nat (63 - leading_zeros av))"
      and "auth f mech cred c = (e, c1)" and "auth_try f cred (av XOR mech) he' hf' c1 = (r, c')"
proof (cases "av \<noteq> 0 \<and> \<not> hf")
  case True
  let ?mech = "bit_mask (of_nat (63 - leading_zeros av))"
  obtain e c1 where e: "auth f ?mech cred c = (e, c1)" by fastforce
  show ?thesis
  proof (cases "\<exists>reply. e = Some (UnexpectedReply reply)")
    case True
    then obtain reply where er: "e = Some (UnexpectedReply reply)" by blast
    from assms have "auth_try f cred (av XOR ?mech) (Some reply) (resp_code reply = 535) c1 = (r, c')"
      using \<open>av \<noteq> 0 \<and> \<not> hf\<close> by (subst (asm) auth_try.simps) (simp add: Let_def e er)
    with again e \<open>av \<noteq> 0 \<and> \<not> hf\<close> show ?thesis by blast
  next
    case other: False
    show ?thesis
    proof (cases "e = Some UnsupportedAuthMechanism")
      case True
      from assms have "auth_try f cred (av XOR ?mech) he hf c1 = (r, c')"
        using \<open>av \<noteq> 0 \<and> \<not> hf\<close> by (subst (asm) auth_try.simps) (simp add: Let_def e True)
      with again e \<open>av \<noteq> 0 \<and> \<not> hf\<close> show ?thesis by blast
    next
      case False
      from assms have "(r, c') = (e, c1)"
        using \<open>av \<noteq> 0 \<and> \<not> hf\<close> other False
        by (subst (asm) auth_try.simps) (auto simp: Let_def e split: option.splits client_error.splits)
      with ends e \<open>av \<noteq> 0 \<and> \<not> hf\<close> show ?thesis by blast
    qed
  qed
next
  case False
  with assms show ?thesis by (intro stop; subst (asm) auth_try.simps) auto
qed

lemma auth_try_bound:
  "auth_try f cred av he hf c = (r, c') \<Longrightarrow>
     steps c c' \<and> length (sc_replies c) \<le> length (sc_replies c') + 4 * card {i. bit av i}"
proof (induction "card {i. bit av i}" arbitrary: av he hf c rule: less_induct)
  case less
  from less.prems show ?case
  proof (cases rule: auth_try_cases)
    case (ends mech)
    have "{i. bit av i} \<noteq> {}" using word_nonzero_bit [OF ends(1)] by auto
    then have "0 < card {i. bit av i}" by (simp add: card_gt_0_iff)
    with auth_length [OF ends(2)] auth_steps [OF ends(2)] show ?thesis by linarith
  next
    case (again mech c1 e he' hf')
    have less': "card {i. bit (av XOR mech) i} < card {i. bit av i}"
      unfolding again(2) by (rule bits_pop [OF again(1)])
    from less.hyps [OF less' again(4)] auth_length [OF again(3)] auth_steps [OF again(3)] less'
    show ?thesis by (auto intro: steps_trans)
  qed simp
qed

lemma authenticate_steps: "authenticate f cred caps c = (r, c') \<Longrightarrow> steps c c'"
  unfolding authenticate_def using auth_try_bound by blast


section \<open>The transaction\<close>

lemma say_helo_steps: "say_helo p host smtp lh c = (r, c') \<Longrightarrow> steps c c'"
  by (auto simp: say_helo_def Let_def split: option.splits sum.splits)

lemma open_session_steps: "open_session sp c = (r, c') \<Longrightarrow> steps c c'"
  by (auto simp: open_session_def split: option.splits prod.splits sum.splits
      dest!: say_helo_steps authenticate_steps intro: steps_trans)

lemma mail_from_steps: "mail_from sp m caps c = (r, c') \<Longrightarrow> steps c c'"
  by (auto simp: mail_from_def Let_def split: prod.splits sum.splits if_splits dest!: smtp_cmd_steps)

text \<open>One recipient: skipped, an error, accepted or refused.\<close>

lemma rcpt_loop_cases [consumes 1, case_names skip error accept refuse]:
  assumes "rcpt_loop sp m caps (i # is) c = ((acc, ref, fail), c')"
  obtains (skip) "finished (recipients m ! i)" and "rcpt_loop sp m caps is c = ((acc, ref, fail), c')"
    | (error) e where "acc = []" and "ref = []" and "fail = Some (from_smtp_error (sp_proto sp) (sp_hostname sp) [] e)"
      and "steps c c'"
    | (accept) acc' reply c1 where "steps c c1" and "Reply reply \<in> set (sc_replies c)"
      and "pr_severity (sp_proto sp) reply = PositiveCompletion"
      and "acc = (i, completed (sp_hostname sp) reply) # acc'"
      and "rcpt_loop sp m caps is c1 = ((acc', ref, fail), c')"
    | (refuse) ref' reply cmd c1 where "steps c c1"
      and "pr_severity (sp_proto sp) reply \<noteq> PositiveCompletion"
      and "ref = AccountResult (rejected (sp_proto sp) (sp_hostname sp) cmd reply) i # ref'"
      and "rcpt_loop sp m caps is c1 = ((acc, ref', fail), c')"
proof (cases "finished (recipients m ! i)")
  case True
  with assms skip show ?thesis by simp
next
  case False
  let ?cmd = "build_rcpt_to (sp_flags sp) (sp_notify sp) (recipients m ! i) caps"
  obtain x c1 where x: "smtp_cmd ?cmd c = (x, c1)" by fastforce
  show ?thesis
  proof (cases x)
    case (Inl e)
    with assms False x error [of e] smtp_cmd_steps [OF x] show ?thesis by simp
  next
    case (Inr reply)
    obtain acc' ref' fail' c2 where l: "rcpt_loop sp m caps is c1 = ((acc', ref', fail'), c2)"
      by (metis prod_cases3 surj_pair)
    with assms False x Inr accept [of c1 reply acc'] refuse smtp_cmd_steps [OF x] smtp_cmd_reply [of ?cmd c reply c1]
    show ?thesis by (auto simp: Let_def split: if_splits)
  qed
qed

lemma rcpt_loop_steps: "rcpt_loop sp m caps is c = ((acc, ref, fail), c') \<Longrightarrow> steps c c'"
proof (induction "is" arbitrary: c acc ref)
  case (Cons i "is")
  from Cons.prems show ?case
    by (cases rule: rcpt_loop_cases) (auto dest: Cons.IH intro: steps_trans)
qed simp

lemma rejected_not_completed [simp]:
  "rejected p host cmd r \<noteq> Completed h" "Completed h \<noteq> rejected p host cmd r"
  by (simp_all add: rejected_def permanent_def temporary_def)

lemma from_smtp_error_not_completed [simp]:
  "from_smtp_error p host cmd e \<noteq> Completed h" "Completed h \<noteq> from_smtp_error p host cmd e"
  by (cases e; simp add: from_smtp_error_def permanent_def temporary_def)+

lemma status_timeout_not_completed [simp]:
  "status_timeout host stage \<noteq> Completed h" "Completed h \<noteq> status_timeout host stage"
  by (simp_all add: status_timeout_def temporary_def)

lemma rcpt_loop_accepted:
  "rcpt_loop sp m caps is c = ((acc, ref, fail), c') \<Longrightarrow> (i, s) \<in> set acc \<Longrightarrow>
     i \<in> set is \<and> (\<exists>r. s = completed (sp_hostname sp) r \<and> Reply r \<in> set (sc_replies c)
       \<and> pr_severity (sp_proto sp) r = PositiveCompletion)"
proof (induction "is" arbitrary: c acc ref)
  case (Cons j "is")
  from Cons.prems(1) show ?case
  proof (cases rule: rcpt_loop_cases)
    case skip
    with Cons.IH [OF skip(2) Cons.prems(2)] show ?thesis by auto
  next
    case (accept acc' reply c1)
    with Cons.IH [OF accept(5)] Cons.prems(2) steps_replies [OF accept(1)] show ?thesis by auto
  next
    case (refuse ref' reply cmd c1)
    with Cons.IH [OF refuse(4) Cons.prems(2)] steps_replies [OF refuse(1)] show ?thesis by auto
  qed (use Cons.prems(2) in simp)
qed simp

lemma rcpt_loop_refused:
  "rcpt_loop sp m caps is c = ((acc, ref, fail), c') \<Longrightarrow> AccountResult s i \<in> set ref \<Longrightarrow> s \<noteq> Completed h"
proof (induction "is" arbitrary: c acc ref)
  case (Cons j "is")
  from Cons.prems(1) show ?case
    by (cases rule: rcpt_loop_cases) (use Cons.IH Cons.prems(2) in auto)
qed simp

text \<open>The results that name a recipient.\<close>

definition result_for :: "nat \<Rightarrow> delivery_result \<Rightarrow> bool" where
  "result_for i d = (case d of DomainResult s is \<Rightarrow> i \<in> set is | AccountResult s j \<Rightarrow> j = i
     | RateLimitedResult is t \<Rightarrow> i \<in> set is)"

lemma rcpt_loop_covers:
  "rcpt_loop sp m caps is c = ((acc, ref, None), c') \<Longrightarrow> i \<in> set is \<Longrightarrow> \<not> finished (recipients m ! i) \<Longrightarrow>
     i \<in> fst ` set acc \<or> (\<exists>d\<in>set ref. result_for i d)"
proof (induction "is" arbitrary: c acc ref)
  case (Cons j "is")
  from Cons.prems(1) show ?case
  proof (cases rule: rcpt_loop_cases)
    case skip
    with Cons.prems Cons.IH [OF skip(2)] show ?thesis by auto
  next
    case (accept acc' reply c1)
    with Cons.prems Cons.IH [OF accept(5)] show ?thesis by auto
  next
    case (refuse ref' reply cmd c1)
    with Cons.prems Cons.IH [OF refuse(4)] show ?thesis by (auto simp: result_for_def)
  qed simp
qed simp

lemma data_results_steps: "data_results sp bdat idxs acc c = (rs, c') \<Longrightarrow> steps c c'"
  by (auto simp: data_results_def read_smtp_data_response_def Let_def split: if_splits prod.splits sum.splits
      dest!: read_status_steps lmtp_steps)

lemma data_results_cover:
  assumes "data_results sp bdat idxs acc c = (rs, c')" and "fst ` set acc \<subseteq> set idxs" and "i \<in> fst ` set acc"
  shows "\<exists>d\<in>set rs. result_for i d"
proof -
  have "\<exists>d\<in>set (map2 (\<lambda>(i, _) r. AccountResult (f r) i) acc replies). result_for i d"
    if "length replies = length acc" for replies and f :: "response \<Rightarrow> delivery_status"
    using that assms(3)
  proof (induction acc replies rule: list_induct2')
    case (4 a as r rs)
    then show ?case by (cases a) (auto simp: result_for_def)
  qed auto
  note lmtp = this
  have "\<exists>d\<in>set (map (\<lambda>(i, s). AccountResult s i) acc). result_for i d"
    using assms(3) by (force simp: result_for_def)
  moreover have "result_for i (DomainResult s idxs)" for s
    using assms(2,3) by (auto simp: result_for_def)
  ultimately show ?thesis
    using assms(1) lmtp lmtp_replies
    by (auto simp: data_results_def Let_def simp del: set_map split: if_splits prod.splits sum.splits)
qed

lemma data_results_completed:
  assumes "data_results sp bdat idxs acc c = (rs, c')" and "AccountResult (Completed h) i \<in> set rs"
  shows "i \<in> fst ` set acc \<and> (\<exists>r. Reply r \<in> set (sc_replies c)
    \<and> (if sp_is_smtp sp then resp_code r = 250 else pr_severity (sp_proto sp) r = PositiveCompletion))"
proof (cases "sp_is_smtp sp")
  case True
  with assms show ?thesis
    by (force simp: data_results_def read_smtp_data_response_def Let_def dest: read_status_reply
        split: prod.splits sum.splits if_splits)
next
  case False
  with assms obtain replies where l: "read_lmtp_data_response (sp_proto sp) (sp_hostname sp) (length acc) c = (Inr replies, c')"
    and rs: "rs = map2 (\<lambda>(i, _) r. AccountResult
        (if pr_severity (sp_proto sp) r = PositiveCompletion then completed (sp_hostname sp) r
         else rejected (sp_proto sp) (sp_hostname sp) (command_name bdat) r) i) acc replies"
    by (auto simp: data_results_def Let_def split: prod.splits sum.splits)
  from assms(2) obtain j s r where "((j, s), r) \<in> set (zip acc replies)" "j = i"
    "pr_severity (sp_proto sp) r = PositiveCompletion"
    unfolding rs by (auto split: if_splits)
  then have "r \<in> set replies" "i \<in> fst ` set acc" "pr_severity (sp_proto sp) r = PositiveCompletion"
    by (auto dest: set_zip_rightD set_zip_leftD intro: rev_image_eqI)
  with lmtp_replies [OF l] False show ?thesis by auto
qed

text \<open>What of the message is written.\<close>

definition message_text :: "string option \<Rightarrow> string \<Rightarrow> string" where
  "message_text bdat raw =
     (case bdat of Some cmd \<Rightarrow> cmd @ raw | None \<Rightarrow> stuff_dots False raw @ CRLF @ ''.'' @ CRLF)"

lemma send_message_steps: "send_message p host blob bdat c = (r, c') \<Longrightarrow> steps c c'"
  unfolding send_message_def write_message_def
  by (auto split: blob_result.splits option.splits prod.splits read_result.splits
      dest!: conn_read_steps) (blast intro: steps_trans steps_write)+

lemma send_message_sent:
  assumes "send_message p host blob bdat c = (None, c')"
  obtains raw pre where "blob = BlobFound raw" and "sc_sent c' = pre @ message_text bdat raw"
  using assms
  by (auto simp: send_message_def write_message_def message_text_def conn_write_def
      split: blob_result.splits option.splits prod.splits read_result.splits)


section \<open>A delivery\<close>

text \<open>The ways a delivery goes: a status for all, no accepted recipient, or the answers to the message.\<close>

lemma open_session_failed: "open_session sp c = (Inl s, c') \<Longrightarrow> s \<noteq> Completed h"
  by (auto simp: open_session_def say_helo_def Let_def split: option.splits prod.splits sum.splits)

lemma mail_from_failed: "mail_from sp m caps c = (Some s, c') \<Longrightarrow> s \<noteq> Completed h"
  by (auto simp: mail_from_def Let_def split: prod.splits sum.splits if_splits)

lemma rcpt_loop_failed: "rcpt_loop sp m caps is c = ((acc, ref, Some s), c') \<Longrightarrow> s \<noteq> Completed h"
proof (induction "is" arbitrary: c acc ref)
  case (Cons j "is")
  from Cons.prems show ?case by (cases rule: rcpt_loop_cases) (use Cons.IH in auto)
qed simp

lemma send_message_failed: "send_message p host blob bdat c = (Some s, c') \<Longrightarrow> s \<noteq> Completed h"
  by (auto simp: send_message_def queue_system_error_def temporary_def
      split: blob_result.splits option.splits prod.splits read_result.splits)

lemma rcpt_loop_domain:
  "rcpt_loop sp m caps idxs c = ((acc, ref, fail), c') \<Longrightarrow> DomainResult s is \<notin> set ref"
proof (induction idxs arbitrary: c acc ref)
  case (Cons j idxs)
  from Cons.prems show ?case by (cases rule: rcpt_loop_cases) (use Cons.IH in auto)
qed simp

lemma lmtp_failed: "read_lmtp_data_response p host n c = (Inl s, c') \<Longrightarrow> s \<noteq> Completed h"
proof (induction n arbitrary: c)
  case (Suc n)
  then show ?case
    by (auto simp: read_status_def split: prod.splits sum.splits read_result.splits)
qed simp

lemma data_results_domain:
  "data_results sp bdat idxs acc c = (rs, c') \<Longrightarrow> DomainResult (Completed h) is \<notin> set rs"
  by (auto simp: data_results_def read_smtp_data_response_def Let_def read_status_def
      split: if_splits prod.splits sum.splits read_result.splits)
    (use lmtp_failed in blast)+

lemma deliver_cases [consumes 1, case_names failed refused answered]:
  assumes "deliver sp m idxs c = (rs, c')"
  obtains (failed) s ref where "rs = ref @ [DomainResult s idxs]"
      and "\<And>h. s \<noteq> Completed h" and "\<And>h i. AccountResult (Completed h) i \<notin> set ref"
      and "\<And>s is. DomainResult s is \<notin> set ref"
    | (refused) caps c1 c2 where "steps c c1" and "rcpt_loop sp m caps idxs c1 = (([], rs, None), c2)"
    | (answered) caps bdat acc ref as c1 c2 c3 c4 where "steps c c1"
      and "rcpt_loop sp m caps idxs c1 = ((acc, ref, None), c2)"
      and "send_message (sp_proto sp) (sp_hostname sp) (sp_blob sp) bdat c2 = (None, c3)"
      and "data_results sp bdat idxs acc c3 = (as, c4)" and "rs = ref @ as" and "c' = quit c4"
proof -
  note domain = rcpt_loop_domain
  obtain o1 c1 where o: "open_session sp c = (o1, c1)" by fastforce
  show ?thesis
  proof (cases o1)
    case (Inl s)
    with assms o failed [of "[]" s] open_session_failed [of sp c s] show ?thesis
      by (simp add: deliver_def)
  next
    case (Inr caps)
    obtain f c2 where f: "mail_from sp m caps c1 = (f, c2)" by fastforce
    have c2: "steps c c2" using open_session_steps [OF o] mail_from_steps [OF f] by (rule steps_trans)
    show ?thesis
    proof (cases f)
      case (Some s)
      with assms o f Inr failed [of "[]" s] mail_from_failed [of sp m caps c1 s] show ?thesis
        by (simp add: deliver_def)
    next
      case None
      obtain acc ref fail c3 where r: "rcpt_loop sp m caps idxs c2 = ((acc, ref, fail), c3)"
        by (metis prod_cases3 surj_pair)
      note ref = rcpt_loop_refused [OF r] domain [OF r]
      show ?thesis
      proof (cases fail)
        case (Some s)
        with assms o f Inr None r failed [of ref s] ref rcpt_loop_failed [of sp m caps idxs c2 acc ref s]
        show ?thesis by (simp add: deliver_def) blast
      next
        case no_fail: None
        show ?thesis
        proof (cases "acc = []")
          case True
          with assms o f Inr None r no_fail refused [OF c2] show ?thesis by (simp add: deliver_def)
        next
          case False
          define bdat where "bdat = (if has_capability (sp_flags sp) caps (EXT_CHUNKING (sp_flags sp))
            then Some (''BDAT '' @ word_text (msg_size m) @ '' LAST'' @ CRLF) else None)"
          obtain x c4 where x: "send_message (sp_proto sp) (sp_hostname sp) (sp_blob sp) bdat c3 = (x, c4)"
            by fastforce
          obtain as c5 where a: "data_results sp bdat idxs acc c4 = (as, c5)" by fastforce
          show ?thesis
          proof (cases x)
            case (Some s)
            with assms o f Inr None r no_fail False x failed [of ref s] ref
              send_message_failed [of "sp_proto sp" "sp_hostname sp" "sp_blob sp" bdat c3 s]
            show ?thesis by (simp add: deliver_def Let_def bdat_def) blast
          next
            case None
            with assms o f Inr \<open>f = None\<close> r no_fail False x a
            have "rs = ref @ as" "c' = quit c5" by (simp_all add: deliver_def Let_def bdat_def)
            with answered [OF c2] r no_fail x None a show ?thesis by blast
          qed
        qed
      qed
    qed
  qed
qed

lemma deliver_covers:
  assumes "deliver sp m idxs c = (rs, c')" and "i \<in> set idxs" and "\<not> finished (recipients m ! i)"
  shows "\<exists>d\<in>set rs. result_for i d"
  using assms(1)
proof (cases rule: deliver_cases)
  case (failed s ref)
  with assms(2) show ?thesis by (auto simp: result_for_def)
next
  case (refused caps c1 c2)
  from rcpt_loop_covers [OF refused(2) assms(2,3)] show ?thesis by simp
next
  case (answered caps bdat acc ref as c1 c2 c3 c4)
  have "fst ` set acc \<subseteq> set idxs" using rcpt_loop_accepted [OF answered(2)] by auto
  with rcpt_loop_covers [OF answered(2) assms(2,3)] data_results_cover [OF answered(4)] answered(5)
  show ?thesis by auto
qed

lemma deliver_completed:
  assumes "deliver sp m idxs c = (rs, c')" and "AccountResult (Completed h) i \<in> set rs"
  shows "i \<in> set idxs
    \<and> (\<exists>r. Reply r \<in> set (sc_replies c) \<and> pr_severity (sp_proto sp) r = PositiveCompletion)
    \<and> (\<exists>r. Reply r \<in> set (sc_replies c)
        \<and> (if sp_is_smtp sp then resp_code r = 250 else pr_severity (sp_proto sp) r = PositiveCompletion))
    \<and> (\<exists>raw pre post bdat. sp_blob sp = BlobFound raw \<and> sc_sent c' = pre @ message_text bdat raw @ post)"
  using assms(1)
proof (cases rule: deliver_cases)
  case (failed s ref)
  with assms(2) show ?thesis by auto
next
  case (refused caps c1 c2)
  from rcpt_loop_refused [OF refused(2) assms(2)] show ?thesis by blast
next
  case (answered caps bdat acc ref as c1 c2 c3 c4)
  from rcpt_loop_refused [OF answered(2)] assms(2) answered(5)
  have "AccountResult (Completed h) i \<in> set as" by auto
  from data_results_completed [OF answered(4) this] obtain s r where
    s: "(i, s) \<in> set acc" and r: "Reply r \<in> set (sc_replies c3)"
      "if sp_is_smtp sp then resp_code r = 250 else pr_severity (sp_proto sp) r = PositiveCompletion"
    by auto
  obtain raw pre where raw: "sp_blob sp = BlobFound raw" "sc_sent c3 = pre @ message_text bdat raw"
    by (rule send_message_sent [OF answered(3)])
  have "steps c3 c'" unfolding answered(6)
    by (rule steps_trans [OF data_results_steps [OF answered(4)] steps_write(2)])
  then obtain post where "sc_sent c' = sc_sent c3 @ post" by (auto simp: steps_def)
  with raw have sent: "\<exists>raw pre post bdat. sp_blob sp = BlobFound raw \<and> sc_sent c' = pre @ message_text bdat raw @ post"
    by auto
  have "steps c c3"
    using answered(1) rcpt_loop_steps [OF answered(2)] send_message_steps [OF answered(3)]
    by (blast intro: steps_trans)
  with r have "Reply r \<in> set (sc_replies c)" using steps_replies by blast
  moreover from rcpt_loop_accepted [OF answered(2) s] steps_replies [OF answered(1)]
  have "i \<in> set idxs" "\<exists>r. Reply r \<in> set (sc_replies c) \<and> pr_severity (sp_proto sp) r = PositiveCompletion"
    by auto
  ultimately show ?thesis using r(2) sent by blast
qed

lemma deliver_domain_completed:
  assumes "deliver sp m idxs c = (rs, c')"
  shows "DomainResult (Completed h) is \<notin> set rs"
  using assms
proof (cases rule: deliver_cases)
  case (failed s ref)
  then show ?thesis by auto
next
  case (refused caps c1 c2)
  from rcpt_loop_domain [OF refused(2)] show ?thesis .
next
  case (answered caps bdat acc ref as c1 c2 c3 c4)
  with rcpt_loop_domain [OF answered(2)] data_results_domain [OF answered(4)] show ?thesis by auto
qed

end
