(* ===== verification/Smtp_Dialogue.thy ===== *)
theory Smtp_Dialogue
  imports Smtp_Transaction
begin

text \<open>
  The dialogue of a delivery whose message is answered (\<open>Smtp_Session\<close>): which command each reply
  of the host belongs to, and what the recipients' results take from it.
\<close>

section \<open>Commands and replies\<close>

text \<open>The recipients that are named to the host, their commands, and those that it accepts.\<close>

definition todo :: "message \<Rightarrow> nat list \<Rightarrow> nat list" where
  "todo m idxs = filter (\<lambda>i. \<not> finished (recipients m ! i)) idxs"

definition rcpt_commands :: "session_params \<Rightarrow> message \<Rightarrow> ehlo_response \<Rightarrow> nat list \<Rightarrow> string" where
  "rcpt_commands sp m caps idxs =
     concat (map (\<lambda>i. build_rcpt_to (sp_flags sp) (sp_notify sp) (recipients m ! i) caps) (todo m idxs))"

definition positive :: "session_params \<Rightarrow> response \<Rightarrow> bool" where
  "positive sp r \<longleftrightarrow> pr_severity (sp_proto sp) r = PositiveCompletion"

definition accepted_rcpts :: "session_params \<Rightarrow> message \<Rightarrow> nat list \<Rightarrow> response list \<Rightarrow> (nat \<times> response) list" where
  "accepted_rcpts sp m idxs answers = filter (\<lambda>(i, r). positive sp r) (zip (todo m idxs) answers)"

text \<open>
  From \<open>c\<close>, after MAIL: a RCPT command for each recipient, each with its reply in \<open>answers\<close>;
  the message, after BDAT or after DATA and its 354; the replies to the message; QUIT.
\<close>

definition transaction :: "session_params \<Rightarrow> message \<Rightarrow> nat list \<Rightarrow> ehlo_response \<Rightarrow> smtp_conn \<Rightarrow>
    response list \<Rightarrow> response list \<Rightarrow> smtp_conn \<Rightarrow> bool" where
  "transaction sp m idxs caps c answers final c' \<longleftrightarrow>
     length answers = length (todo m idxs)
     \<and> length final = (if sp_is_smtp sp then 1 else length (accepted_rcpts sp m idxs answers))
     \<and> (\<exists>raw go post. sp_blob sp = BlobFound raw
          \<and> (if has_capability (sp_flags sp) caps (EXT_CHUNKING (sp_flags sp)) then
               sc_replies c = map Reply answers @ map Reply final @ post
               \<and> sc_sent c' = sc_sent c @ rcpt_commands sp m caps idxs
                   @ ''BDAT '' @ word_text (msg_size m) @ '' LAST'' @ CRLF @ raw @ ''QUIT'' @ CRLF
             else
               resp_code go = 354 \<and> sc_replies c = map Reply answers @ Reply go # map Reply final @ post
               \<and> sc_sent c' = sc_sent c @ rcpt_commands sp m caps idxs
                   @ ''DATA'' @ CRLF @ stuff_dots False raw @ CRLF @ ''.'' @ CRLF @ ''QUIT'' @ CRLF))"

lemma conn_read_replies: "conn_read c = (Reply r, c') \<Longrightarrow> sc_replies c = Reply r # sc_replies c' \<and> sc_sent c' = sc_sent c"
  by (auto simp: conn_read_def split: list.splits)

lemma smtp_cmd_dialogue: "smtp_cmd bytes c = (Inr r, c') \<Longrightarrow>
    sc_replies c = Reply r # sc_replies c' \<and> sc_sent c' = sc_sent c @ bytes"
  by (auto simp: smtp_cmd_def read_reply_def conn_write_def dest!: conn_read_replies split: prod.splits read_result.splits)

lemma read_status_dialogue: "read_status p host stage cmd c = (Inr r, c') \<Longrightarrow>
    sc_replies c = Reply r # sc_replies c' \<and> sc_sent c' = sc_sent c"
  by (auto simp: read_status_def dest!: conn_read_replies split: prod.splits read_result.splits)

lemma lmtp_dialogue: "read_lmtp_data_response p host n c = (Inr rs, c') \<Longrightarrow>
    length rs = n \<and> sc_replies c = map Reply rs @ sc_replies c' \<and> sc_sent c' = sc_sent c"
proof (induction n arbitrary: c rs)
  case (Suc n)
  from Suc.prems obtain r c1 rs' where 1: "read_status p host ''reading LMTP DATA responses'' [] c = (Inr r, c1)"
    "read_lmtp_data_response p host n c1 = (Inr rs', c')" "rs = r # rs'"
    by (auto split: prod.splits sum.splits)
  from Suc.IH [OF 1(2)] read_status_dialogue [OF 1(1)] 1(3) show ?case by simp
qed simp

lemma rcpt_loop_dialogue:
  "rcpt_loop sp m caps idxs c = ((acc, ref, None), c') \<Longrightarrow>
     \<exists>answers. length answers = length (todo m idxs) \<and> sc_replies c = map Reply answers @ sc_replies c'
       \<and> sc_sent c' = sc_sent c @ rcpt_commands sp m caps idxs
       \<and> acc = map (\<lambda>(i, r). (i, completed (sp_hostname sp) r)) (accepted_rcpts sp m idxs answers)"
proof (induction idxs arbitrary: c acc ref)
  case Nil
  then show ?case by (simp add: todo_def rcpt_commands_def accepted_rcpts_def)
next
  case (Cons i idxs)
  show ?case
  proof (cases "finished (recipients m ! i)")
    case True
    with Cons.prems Cons.IH [of c acc ref] show ?thesis
      by (simp add: todo_def rcpt_commands_def accepted_rcpts_def)
  next
    case False
    let ?cmd = "build_rcpt_to (sp_flags sp) (sp_notify sp) (recipients m ! i) caps"
    obtain x c1 where x: "smtp_cmd ?cmd c = (x, c1)" by fastforce
    with Cons.prems False obtain r where r: "x = Inr r" by (cases x) (auto simp: Let_def)
    obtain acc' ref' fail c2 where l: "rcpt_loop sp m caps idxs c1 = ((acc', ref', fail), c2)"
      by (metis prod_cases3 surj_pair)
    with Cons.prems False x r have l': "rcpt_loop sp m caps idxs c1 = ((acc', ref', None), c')"
      and acc: "acc = (if positive sp r then (i, completed (sp_hostname sp) r) # acc' else acc')"
      by (auto simp: Let_def positive_def split: if_splits)
    from Cons.IH [OF l'] obtain answers where a: "length answers = length (todo m idxs)"
      "sc_replies c1 = map Reply answers @ sc_replies c'"
      "sc_sent c' = sc_sent c1 @ rcpt_commands sp m caps idxs"
      "acc' = map (\<lambda>(i, r). (i, completed (sp_hostname sp) r)) (accepted_rcpts sp m idxs answers)" by blast
    from x r smtp_cmd_dialogue [of ?cmd c r c1] a acc False show ?thesis
      by (intro exI [of _ "r # answers"]) (simp add: todo_def rcpt_commands_def accepted_rcpts_def)
  qed
qed

lemma send_message_dialogue:
  assumes "send_message p host blob bdat c = (None, c')"
  shows "\<exists>raw. blob = BlobFound raw \<and>
    (case bdat of
       Some cmd \<Rightarrow> sc_replies c = sc_replies c' \<and> sc_sent c' = sc_sent c @ cmd @ raw
     | None \<Rightarrow> \<exists>go. resp_code go = 354 \<and> sc_replies c = Reply go # sc_replies c'
         \<and> sc_sent c' = sc_sent c @ ''DATA'' @ CRLF @ stuff_dots False raw @ CRLF @ ''.'' @ CRLF)"
  using assms
  by (auto simp: send_message_def write_message_def conn_write_def assert_code_def dest!: conn_read_replies
      split: blob_result.splits option.splits prod.splits read_result.splits if_splits)

text \<open>A completed recipient was accepted itself, and the answer is its own.\<close>

definition delivered_at :: "session_params \<Rightarrow> (nat \<times> response) list \<Rightarrow> response list \<Rightarrow> nat \<Rightarrow> response \<Rightarrow> nat \<Rightarrow> bool" where
  "delivered_at sp accepted final i r k \<longleftrightarrow> k < length accepted \<and> fst (accepted ! k) = i
     \<and> (if sp_is_smtp sp then resp_code (hd final) = 250 \<and> r = snd (accepted ! k)
        else positive sp (final ! k) \<and> r = final ! k)"

lemma data_results_dialogue:
  assumes "data_results sp bdat idxs (map (\<lambda>(i, r). (i, completed (sp_hostname sp) r)) accepted) c = (rs, c')"
    and "AccountResult (Completed h) i \<in> set rs"
  shows "\<exists>final k r. sc_replies c = map Reply final @ sc_replies c' \<and> sc_sent c' = sc_sent c
    \<and> length final = (if sp_is_smtp sp then 1 else length accepted)
    \<and> delivered_at sp accepted final i r k \<and> Completed h = completed (sp_hostname sp) r"
proof (cases "sp_is_smtp sp")
  case True
  from assms True obtain f where f: "read_smtp_data_response (sp_proto sp) (sp_hostname sp) bdat c = (Inr f, c')"
    "resp_code f = 250" "rs = map (\<lambda>(i, s). AccountResult s i) (map (\<lambda>(i, r). (i, completed (sp_hostname sp) r)) accepted)"
    by (auto simp: data_results_def Let_def split: prod.splits sum.splits if_splits)
  from assms(2) f(3) obtain r where "(i, r) \<in> set accepted" and h: "Completed h = completed (sp_hostname sp) r" by auto
  then obtain k where "k < length accepted" "accepted ! k = (i, r)" by (auto simp: in_set_conv_nth)
  with f(2) True have "delivered_at sp accepted [f] i r k" by (simp add: delivered_at_def)
  moreover from f(1) have "sc_replies c = map Reply [f] @ sc_replies c'" "sc_sent c' = sc_sent c"
    using read_status_dialogue by (auto simp: read_smtp_data_response_def)
  ultimately show ?thesis using True h by (intro exI [of _ "[f]"] exI [of _ k] exI [of _ r]) simp
next
  case False
  from assms False obtain final where l: "read_lmtp_data_response (sp_proto sp) (sp_hostname sp) (length accepted) c = (Inr final, c')"
    and rs: "rs = map2 (\<lambda>(i, _) r. AccountResult
        (if pr_severity (sp_proto sp) r = PositiveCompletion then completed (sp_hostname sp) r
         else rejected (sp_proto sp) (sp_hostname sp) (command_name bdat) r) i)
        (map (\<lambda>(i, r). (i, completed (sp_hostname sp) r)) accepted) final"
    by (auto simp: data_results_def Let_def split: prod.splits sum.splits)
  note d = lmtp_dialogue [OF l]
  from assms(2) obtain k where k: "k < length rs" "rs ! k = AccountResult (Completed h) i"
    by (auto simp: in_set_conv_nth)
  with d rs have "k < length accepted" "k < length final" by simp_all
  with k(2) rs d have "fst (accepted ! k) = i" "positive sp (final ! k)" "Completed h = completed (sp_hostname sp) (final ! k)"
    by (auto simp: positive_def split_beta split: if_splits)
  with \<open>k < length accepted\<close> False have "delivered_at sp accepted final i (final ! k) k"
    by (simp add: delivered_at_def)
  with d False \<open>Completed h = _\<close> show ?thesis by (intro exI [of _ final] exI [of _ k] exI [of _ "final ! k"]) simp
qed

text \<open>The way of a delivery that completes a recipient.\<close>

lemma deliver_answered:
  assumes "deliver sp m idxs c = (rs, c')" and "AccountResult (Completed h) i \<in> set rs"
  obtains caps c0 c1 acc ref c2 bdat c3 as c4 where "open_session sp c = (Inr caps, c0)"
    and "mail_from sp m caps c0 = (None, c1)" and "rcpt_loop sp m caps idxs c1 = ((acc, ref, None), c2)"
    and "bdat = (if has_capability (sp_flags sp) caps (EXT_CHUNKING (sp_flags sp))
            then Some (''BDAT '' @ word_text (msg_size m) @ '' LAST'' @ CRLF) else None)"
    and "send_message (sp_proto sp) (sp_hostname sp) (sp_blob sp) bdat c2 = (None, c3)"
    and "data_results sp bdat idxs acc c3 = (as, c4)" and "AccountResult (Completed h) i \<in> set as" and "c' = quit c4"
proof -
  obtain o1 c0 where o: "open_session sp c = (o1, c0)" by fastforce
  with assms obtain caps where caps: "o1 = Inr caps" by (cases o1) (auto simp: deliver_def)
  obtain f c1 where f: "mail_from sp m caps c0 = (f, c1)" by fastforce
  with assms o caps have f_None: "f = None" by (cases f) (auto simp: deliver_def)
  obtain acc ref fail c2 where r: "rcpt_loop sp m caps idxs c1 = ((acc, ref, fail), c2)"
    by (metis prod_cases3 surj_pair)
  have ref: "AccountResult (Completed h) i \<notin> set ref" using rcpt_loop_refused [OF r] by blast
  from assms o caps f f_None r ref have fail: "fail = None" by (cases fail) (auto simp: deliver_def)
  define bdat where "bdat = (if has_capability (sp_flags sp) caps (EXT_CHUNKING (sp_flags sp))
    then Some (''BDAT '' @ word_text (msg_size m) @ '' LAST'' @ CRLF) else None)"
  from assms o caps f f_None r ref fail have acc: "acc \<noteq> []" by (auto simp: deliver_def)
  obtain x c3 where x: "send_message (sp_proto sp) (sp_hostname sp) (sp_blob sp) bdat c2 = (x, c3)" by fastforce
  from assms o caps f f_None r ref fail acc x have x_None: "x = None"
    by (cases x) (auto simp: deliver_def bdat_def Let_def)
  obtain as c4 where a: "data_results sp bdat idxs acc c3 = (as, c4)" by fastforce
  from assms o caps f f_None r fail acc x x_None a have "rs = ref @ as" "c' = quit c4"
    by (auto simp: deliver_def bdat_def Let_def)
  with that [OF o [unfolded caps] f [unfolded f_None] r [unfolded fail] bdat_def x [unfolded x_None] a] assms(2) ref
  show ?thesis by auto
qed

lemma deliver_dialogue:
  assumes "deliver sp m idxs c = (rs, c')" and "AccountResult (Completed h) i \<in> set rs"
  shows "\<exists>caps c0 c1 answers final k r. open_session sp c = (Inr caps, c0) \<and> mail_from sp m caps c0 = (None, c1)
    \<and> transaction sp m idxs caps c1 answers final c'
    \<and> delivered_at sp (accepted_rcpts sp m idxs answers) final i r k \<and> Completed h = completed (sp_hostname sp) r"
proof -
  obtain caps c0 c1 acc ref c2 bdat c3 as c4 where o: "open_session sp c = (Inr caps, c0)"
    and f: "mail_from sp m caps c0 = (None, c1)" and l: "rcpt_loop sp m caps idxs c1 = ((acc, ref, None), c2)"
    and b: "bdat = (if has_capability (sp_flags sp) caps (EXT_CHUNKING (sp_flags sp))
            then Some (''BDAT '' @ word_text (msg_size m) @ '' LAST'' @ CRLF) else None)"
    and s: "send_message (sp_proto sp) (sp_hostname sp) (sp_blob sp) bdat c2 = (None, c3)"
    and a: "data_results sp bdat idxs acc c3 = (as, c4)" and d: "AccountResult (Completed h) i \<in> set as" and q: "c' = quit c4"
    by (rule deliver_answered [OF assms])
  from rcpt_loop_dialogue [OF l] obtain answers where answers: "length answers = length (todo m idxs)"
    "sc_replies c1 = map Reply answers @ sc_replies c2" "sc_sent c2 = sc_sent c1 @ rcpt_commands sp m caps idxs"
    "acc = map (\<lambda>(i, r). (i, completed (sp_hostname sp) r)) (accepted_rcpts sp m idxs answers)" by blast
  from data_results_dialogue [OF a [unfolded answers(4)] d] obtain final k r where
    final: "sc_replies c3 = map Reply final @ sc_replies c4" "sc_sent c4 = sc_sent c3"
      "length final = (if sp_is_smtp sp then 1 else length (accepted_rcpts sp m idxs answers))"
      "delivered_at sp (accepted_rcpts sp m idxs answers) final i r k" "Completed h = completed (sp_hostname sp) r" by blast
  have sent: "sc_sent c' = sc_sent c3 @ ''QUIT'' @ CRLF" by (simp add: q quit_def conn_write_def final(2))
  have "transaction sp m idxs caps c1 answers final c'"
  proof (cases "has_capability (sp_flags sp) caps (EXT_CHUNKING (sp_flags sp))")
    case True
    with send_message_dialogue [OF s] b obtain raw where "sp_blob sp = BlobFound raw" "sc_replies c2 = sc_replies c3"
      "sc_sent c3 = sc_sent c2 @ (''BDAT '' @ word_text (msg_size m) @ '' LAST'' @ CRLF) @ raw" by auto
    with True answers(1-3) final(1,3) sent show ?thesis by (simp add: transaction_def)
  next
    case False
    with send_message_dialogue [OF s] b obtain raw go where "sp_blob sp = BlobFound raw" "resp_code go = 354"
      "sc_replies c2 = Reply go # sc_replies c3"
      "sc_sent c3 = sc_sent c2 @ ''DATA'' @ CRLF @ stuff_dots False raw @ CRLF @ ''.'' @ CRLF" by auto
    with False answers(1-3) final(1,3) sent show ?thesis by (simp add: transaction_def)
  qed
  with o f final(4,5) show ?thesis by blast
qed

end
