(* ===== verification/Smtp_Properties.thy ===== *)
theory Smtp_Properties
  imports Smtp_Dialogue Queue_Properties
begin

text \<open>
  The properties of a delivery to an SMTP or LMTP host (\<open>Smtp_Session\<close>): the message that
  arrives, the recipients that count as delivered, and the credentials that are sent.
\<close>

section \<open>The receiving host\<close>

text \<open>
  What a host reads after \<open>DATA\<close> (RFC 5321, 4.5.2): lines that end with CRLF up to the one that
  is a single full stop, each without the full stop that it begins with, and the bytes after it.
\<close>

fun host_data :: "bool \<Rightarrow> char \<Rightarrow> string \<Rightarrow> (string \<times> string) option" where
  "host_data bol prev [] = None"
| "host_data bol prev (c # cs) =
     (if bol \<and> c = CHR ''.'' \<and> take 2 cs = CRLF then Some ([], drop 2 cs)
      else map_option (\<lambda>(m, rest). (if bol \<and> c = CHR ''.'' then m else c # m, rest))
             (host_data (prev = CR \<and> c = LF) c cs))"

text \<open>CR and LF occur only together.\<close>

fun only_crlf :: "char \<Rightarrow> string \<Rightarrow> bool" where
  "only_crlf prev [] = (prev \<noteq> CR)"
| "only_crlf prev (b # bs) = ((b = LF) = (prev = CR) \<and> only_crlf b bs)"

lemma host_data_stuffed:
  "only_crlf prev bs \<Longrightarrow>
     host_data (prev = LF) prev (stuff_dots (prev = LF \<or> prev = CR) bs @ CRLF @ ''.'' @ CRLF @ rest)
       = Some (bs @ CRLF, rest)"
proof (induction bs arbitrary: prev)
  case (Cons b bs)
  from Cons.IH [of b] Cons.prems show ?case by auto
qed auto

section \<open>OAuth\<close>

lemma oauth_bearer_segment:
  assumes "b = xs @ ''auth=Bearer '' @ tok @ SOH # ys" and "s = length xs" and "p = length xs + 12 + length tok"
    and "utf8_valid tok"
  shows "oauth_loop j b p s None = Some (tok, j tok)"
proof -
  have "slice_get b s (s + 12) = Some ''auth=Bearer ''"
    by (rule slice_get_mid [of _ xs _ "tok @ SOH # ys"]) (simp_all add: assms(1,2))
  moreover have "slice_get b (s + 12) p = Some tok"
    by (rule slice_get_mid [of _ "xs @ ''auth=Bearer ''" _ "SOH # ys"]) (simp_all add: assms(1-3))
  moreover have "b ! p = SOH \<and> p < length b"
    using nth_append_length [of "xs @ ''auth=Bearer '' @ tok" SOH ys] by (simp add: assms(1,3) eval_nat_numeral)
  ultimately show ?thesis
    using assms(4) by (subst oauth_loop.simps) (simp add: utf8_slice_def eq_ignore_ascii_case_def)
qed

lemma decode_xoauth2:
  assumes "CHR '','' \<notin> set u" and "SOH \<notin> set u" and "utf8_valid tok" and "CHR '','' \<notin> set tok"
    and "SOH \<notin> set tok"
  shows "decode_oauth j (''user='' @ u @ [SOH] @ ''auth=Bearer '' @ tok @ [SOH, SOH]) = Some (Bearer (j tok) tok)"
proof -
  let ?w = "''user='' @ u" and ?t = "''auth=Bearer '' @ tok"
  let ?b = "?w @ SOH # ?t @ [SOH, SOH]" and ?p = "length ?w"
  have "oauth_loop j ?b 0 0 None = oauth_loop j ?b ?p 0 None"
    by (rule oauth_skipI [of _ "[]" ?w "SOH # ?t @ [SOH, SOH]"]) (use assms in simp_all)
  also have "\<dots> = oauth_loop j ?b (?p + 1) (?p + 1) None"
    by (rule oauth_other_segment [of _ "[]" ?w "?t @ [SOH, SOH]"])
      (simp_all add: eq_ignore_ascii_case_def to_ascii_lowercase_def is_ascii_uppercase_def)
  also have "\<dots> = oauth_loop j ?b (?p + 1 + length ?t) (?p + 1) None"
    by (rule oauth_skipI [of _ "?w @ [SOH]" ?t "[SOH, SOH]"]) (use assms in simp_all)
  also have "\<dots> = Some (tok, j tok)"
    by (rule oauth_bearer_segment [of _ "?w @ [SOH]" tok "[SOH]"]) (use assms(3) in simp_all)
  finally show ?thesis by (simp add: decode_oauth_def extract_oauth_bearer_def)
qed

lemma decode_bare_token:
  assumes "CHR '','' \<notin> set tok" and "SOH \<notin> set tok" and "\<not> eq_ignore_ascii_case (take 12 tok) ''auth=Bearer ''"
  shows "decode_oauth j tok = None"
proof (cases tok rule: rev_cases)
  case Nil
  then show ?thesis by (simp add: decode_oauth_def extract_oauth_bearer_def oauth_loop.simps)
next
  case (snoc w x)
  let ?n = "length w"
  have "oauth_loop j tok 0 0 None = oauth_loop j tok ?n 0 None"
    by (rule oauth_skipI [of _ "[]" w "[x]"]) (use assms snoc in simp_all)
  also have "\<dots> = oauth_loop j tok (?n + 1) (?n + 1) None"
  proof -
    have "slice_get tok 0 12 \<in> {None, Some (take 12 tok)}" by (simp add: slice_get_def)
    then show ?thesis using assms snoc by (subst oauth_loop.simps) auto
  qed
  also have "\<dots> = None" using snoc by (subst oauth_loop.simps) simp
  finally show ?thesis by (simp add: decode_oauth_def extract_oauth_bearer_def)
qed

lemma decode_own_plain:
  assumes "NUL \<notin> set user \<union> set pass" and "utf8_valid user" and "utf8_valid pass" and "user \<noteq> []" and "pass \<noteq> []"
  shows "decode_plain (NUL # user @ NUL # pass) = Some (Basic user pass None)"
  using plain_loop_word [of user 1 "[]" "[]" "NUL # pass"] plain_loop_word [of pass 2 user "[]" "[]"] assms
  by (simp add: decode_plain_def numeral_2_eq_2)

section \<open>Statuses after an attempt\<close>

lemma set_rcpt_status_length [simp]: "length (recipients (set_rcpt_status cfg now s i m)) = length (recipients m)"
  by (simp add: set_rcpt_status_def Let_def)

lemma set_rcpt_status_at:
  "j < length (recipients m) \<Longrightarrow> rcpt_status (recipients (set_rcpt_status cfg now s i m) ! j)
     = (if j = i then s else rcpt_status (recipients m ! j))"
  by (simp add: set_rcpt_status_def Let_def nth_list_update)

lemma fold_set_rcpt_status:
  "j < length (recipients m) \<Longrightarrow> rcpt_status (recipients (fold (set_rcpt_status cfg now s) is m) ! j)
     = (if j \<in> set is then s else rcpt_status (recipients m ! j))"
proof (induction "is" arbitrary: m)
  case (Cons i "is")
  from Cons.IH [of "set_rcpt_status cfg now s i m"] Cons.prems show ?case by (simp add: set_rcpt_status_at)
qed simp

lemma fold_set_rcpt_status_length [simp]:
  "length (recipients (fold (set_rcpt_status cfg now s) is m)) = length (recipients m)"
  by (induction "is" arbitrary: m) simp_all

lemma fold_set_rcpt_rate_limit_length [simp]:
  "length (recipients (fold (set_rcpt_rate_limit t) is m)) = length (recipients m)"
  by (induction "is" arbitrary: m) (simp_all add: set_rcpt_rate_limit_def)

lemma apply_result_length [simp]: "length (recipients (apply_result cfg now d m)) = length (recipients m)"
  by (cases d) (simp_all add: apply_result_def)

lemma fold_apply_result_length [simp]:
  "length (recipients (fold (apply_result cfg now) ds m)) = length (recipients m)"
  by (induction ds arbitrary: m) simp_all

lemma data_results_shape:
  "data_results sp bdat idxs acc c = (rs, c') \<Longrightarrow>
     (\<exists>s. rs = [DomainResult s idxs]) \<or> (\<forall>s is. DomainResult s is \<notin> set rs)"
  by (auto simp: data_results_def Let_def split: if_splits prod.splits sum.splits)

lemma deliver_domain_last:
  assumes "deliver sp m idxs c = (rs, c')" and "DomainResult s is \<in> set rs"
  shows "is = idxs \<and> (\<exists>ref. rs = ref @ [DomainResult s idxs])"
  using assms(1)
proof (cases rule: deliver_cases)
  case (failed s' ref)
  with assms(2) show ?thesis by auto
next
  case (refused caps c1 c2)
  with rcpt_loop_domain [OF refused(2)] assms(2) show ?thesis by blast
next
  case (answered caps bdat acc ref as c1 c2 c3 c4)
  with assms(2) rcpt_loop_domain [OF answered(2)] have "DomainResult s is \<in> set as" by auto
  with data_results_shape [OF answered(4)] answered(5) show ?thesis by auto
qed

section \<open>A host\<close>

text \<open>A reply's severity is the first digit of its code.\<close>

definition plain_proto :: proto where
  "plain_proto = \<lparr>pr_severity = (\<lambda>r. if is_positive_completion r then PositiveCompletion
       else if 500 \<le> resp_code r then PermanentNegativeCompletion else TransientNegativeCompletion),
     pr_show = (\<lambda>_. []), pr_trim = (\<lambda>s. s)\<rparr>"

definition plain_flags :: smtp_flags where
  "plain_flags = \<lparr>EXT_SIZE = 1, EXT_REQUIRE_TLS = 2, EXT_SMTP_UTF8 = 4, EXT_DSN = 8, EXT_CHUNKING = 16,
     EXT_START_TLS = 32, MAIL_REQUIRETLS = 1, MAIL_SMTPUTF8 = 2, MAIL_RET_FULL = 4, MAIL_RET_HDRS = 8,
     AUTH_LOGIN = 1, AUTH_PLAIN = 2, AUTH_OAUTHBEARER = 4, AUTH_XOAUTH2 = 8, to_mechanism = (\<lambda>_. ''X''),
     b64_encode = (\<lambda>s. s), b64_decode = (\<lambda>s. Inr s),
     has_capability = (\<lambda>_ _. False)\<rparr>"

definition plain_session :: "bool \<Rightarrow> session_params" where
  "plain_session is_smtp = \<lparr>sp_proto = plain_proto, sp_flags = plain_flags,
     sp_notify = \<lparr>notify_success = 2, notify_failure = 4, notify_delay = 8, notify_never = 1\<rparr>,
     sp_hostname = ''mx'', sp_local_hostname = ''us'', sp_credentials = None,
     sp_capabilities = Some \<lparr>ehlo_capabilities = 0, auth_mechanisms = 3\<rparr>, sp_is_smtp = is_smtp,
     sp_blob = BlobFound ''hello''\<rparr>"

definition reply :: "u16 \<Rightarrow> response" where
  "reply n = \<lparr>resp_code = n, resp_esc = [], resp_message = []\<rparr>"

definition host_replies :: "u16 list \<Rightarrow> smtp_conn" where
  "host_replies codes = \<lparr>sc_sent = [], sc_replies = map (Reply \<circ> reply) codes, sc_ehlo = None\<rparr>"

lemmas session_defs = deliver_def open_session_def mail_from_def smtp_cmd_def read_reply_def conn_read_def
  conn_write_def send_message_def data_results_def read_smtp_data_response_def
  read_status_def write_message_def quit_def from_smtp_error_def rejected_def permanent_def temporary_def
  assert_code_def is_positive_completion_def completed_def plain_session_def plain_proto_def plain_flags_def
  reply_def host_replies_def finished_def has_bits_def

lemma plain_recipients:
  "recipients (message plain_message) = [plain_rcpt ''c@d.org'', plain_rcpt ''e@d.org'']"
  "\<not> finished (plain_rcpt a)"
  by (simp_all add: plain_message_def plain_rcpt_def recipient_new_def finished_def Let_def)

lemma plain_delivery:
  "fst (deliver (plain_session True) (message plain_message) [0, 1] (host_replies [250, 250, 550, 354, 250]))
     = [AccountResult (rejected plain_proto ''mx''
          (build_rcpt_to plain_flags (sp_notify (plain_session True)) (plain_rcpt ''e@d.org'')
             \<lparr>ehlo_capabilities = 0, auth_mechanisms = 3\<rparr>) (reply 550)) 1,
        AccountResult (completed ''mx'' (reply 250)) 0]"
  using plain_recipients
  by (simp add: session_defs Let_def)

section \<open>Properties\<close>

text \<open>
  C12: no recipient counts as delivered by mistake. A recipient that is marked so was one of those
  to deliver to, and the dialogue after MAIL is: a RCPT command for each unfinished recipient in
  order, with the host's reply to each; the message, found and written whole after BDAT, or
  after DATA and a 354, stuffed and ended by a full stop; the replies to the message. The reply to
  the recipient's own RCPT command is positive, and over SMTP the host answered the message with
  250; over LMTP, where the replies to the message are those for the accepted recipients in order,
  the recipient's own is positive, and it is the reply that is kept. No result marks the recipients of
  a domain at once.
\<close>

theorem smtp_no_false_delivery:
  assumes "deliver sp m idxs c = (rs, c')" and "AccountResult (Completed h) i \<in> set rs"
  shows "i \<in> set idxs
    \<and> (\<exists>caps c0 c1 answers final k r. open_session sp c = (Inr caps, c0) \<and> mail_from sp m caps c0 = (None, c1)
        \<and> transaction sp m idxs caps c1 answers final c'
        \<and> delivered_at sp (accepted_rcpts sp m idxs answers) final i r k
        \<and> h = \<lparr>hostname = sp_hostname sp, host_resp = r\<rparr>)
    \<and> DomainResult (Completed h') is \<notin> set rs"
proof -
  have "i \<in> set idxs" using deliver_completed [OF assms] by blast
  moreover from deliver_dialogue [OF assms] have "\<exists>caps c0 c1 answers final k r. open_session sp c = (Inr caps, c0)
    \<and> mail_from sp m caps c0 = (None, c1) \<and> transaction sp m idxs caps c1 answers final c'
    \<and> delivered_at sp (accepted_rcpts sp m idxs answers) final i r k
    \<and> h = \<lparr>hostname = sp_hostname sp, host_resp = r\<rparr>" by (fastforce simp: completed_def)
  ultimately show ?thesis using deliver_domain_completed [OF assms(1)] by blast
qed

theorem smtp_no_false_delivery_witness:
  "DomainResult (Completed \<lparr>hostname = ''mx'', host_resp = reply 250\<rparr>) [0, 1]
     \<notin> set (fst (deliver (plain_session True) (message plain_message) [0, 1] (host_replies [250, 250, 550, 354, 250])))"
proof -
  let ?d = "deliver (plain_session True) (message plain_message) [0, 1] (host_replies [250, 250, 550, 354, 250])"
  have "AccountResult (Completed \<lparr>hostname = ''mx'', host_resp = reply 250\<rparr>) 0 \<in> set (fst ?d)"
    unfolding plain_delivery by (simp add: completed_def)
  from smtp_no_false_delivery [OF prod.collapse [symmetric] this] show ?thesis by blast
qed

text \<open>
  C20: every recipient is answered. Each recipient to deliver to that is not finished is named by a
  result, whatever the host replies and wherever the connection fails. When a result is for the
  whole domain it is the last, and it decides the status of all recipients, also of those that the
  host had refused for good before.
\<close>

theorem smtp_recipients_answered:
  assumes "deliver sp m idxs c = (rs, c')" and "i \<in> set idxs"
  shows "(finished (recipients m ! i) \<or> (\<exists>d\<in>set rs. result_for i d))
    \<and> (DomainResult s is \<in> set rs \<longrightarrow> i < length (recipients m) \<longrightarrow>
         rcpt_status (recipients (fold (apply_result cfg now) rs m) ! i) = s)"
proof (intro conjI impI)
  show "finished (recipients m ! i) \<or> (\<exists>d\<in>set rs. result_for i d)"
    using deliver_covers [OF assms] by blast
  assume "DomainResult s is \<in> set rs" and i: "i < length (recipients m)"
  with deliver_domain_last [OF assms(1)] obtain ref where "rs = ref @ [DomainResult s idxs]" by blast
  then show "rcpt_status (recipients (fold (apply_result cfg now) rs m) ! i) = s"
    using i assms(2) by (simp add: apply_result_def fold_set_rcpt_status)
qed

theorem smtp_recipients_answered_witness:
  "\<exists>rs. fst (deliver (plain_session True) (message plain_message) [0, 1] (host_replies [250, 550, 250, 354, 451])) = rs
     \<and> (\<exists>e. AccountResult (PermanentFailure e) 0 \<in> set rs)
     \<and> status_pending (rcpt_status (recipients (fold (apply_result plain_config 1000) rs (message plain_message)) ! 0))"
proof -
  let ?m = "message plain_message"
  obtain rs c' where d: "deliver (plain_session True) ?m [0, 1] (host_replies [250, 550, 250, 354, 451]) = (rs, c')"
    by fastforce
  have rs: "\<exists>e. AccountResult (PermanentFailure e) 0 \<in> set rs"
    "\<exists>e. DomainResult (TemporaryFailure e) [0, 1] \<in> set rs"
    using d plain_recipients by (auto simp: session_defs Let_def)
  then obtain e where "DomainResult (TemporaryFailure e) [0, 1] \<in> set rs" by blast
  with smtp_recipients_answered [OF d, of 0 "TemporaryFailure e" "[0, 1]" plain_config 1000] plain_recipients(1)
  have "status_pending (rcpt_status (recipients (fold (apply_result plain_config 1000) rs ?m) ! 0))"
    by (simp add: status_pending_def)
  with rs(1) d show ?thesis by simp
qed

text \<open>
  C22: authentication ends. It reads at most four replies for each mechanism that the host offers
  and that the credentials fit, whatever the replies are; when there is none it sends nothing and
  fails for want of a mechanism.
\<close>

theorem smtp_authentication_ends:
  assumes "authenticate f cred caps c = (r, c')"
  shows "length (sc_replies c)
      \<le> length (sc_replies c') + 4 * card {i. bit (credential_mechanisms f cred AND auth_mechanisms caps) i}
    \<and> (\<exists>out read. sc_sent c' = sc_sent c @ out \<and> sc_replies c = read @ sc_replies c')
    \<and> (credential_mechanisms f cred AND auth_mechanisms caps = 0 \<longrightarrow>
         c' = c \<and> r = Some UnsupportedAuthMechanism)"
  using assms auth_try_bound [of f cred "credential_mechanisms f cred AND auth_mechanisms caps" None False c r c']
  by (auto simp: authenticate_def steps_def auth_try.simps)

theorem smtp_authentication_ends_witness:
  "authenticate plain_flags (Bearer None ''t'') \<lparr>ehlo_capabilities = 0, auth_mechanisms = 3\<rparr> (host_replies [235])
     = (Some UnsupportedAuthMechanism, host_replies [235])"
  using smtp_authentication_ends [of plain_flags "Bearer None ''t''"
    "\<lparr>ehlo_capabilities = 0, auth_mechanisms = 3\<rparr>" "host_replies [235]", OF prod.collapse [symmetric]]
  by (simp add: plain_flags_def credential_mechanisms_def prod_eq_iff)

text \<open>
  C21: what a host receives. A message in which CR and LF only occur together, and that does not
  begin with a full stop, is what a host that follows RFC 5321 reads, with the line end that the
  client adds; the message cannot end early, and the commands after it are not part of it.
\<close>

theorem smtp_message_transparency:
  assumes "only_crlf NUL m" and "take 1 m \<noteq> ''.''"
  shows "\<exists>sent. sc_sent (write_message m c) = sc_sent c @ sent
    \<and> host_data True NUL (sent @ rest) = Some (m @ CRLF, rest)"
proof -
  have "host_data True NUL (stuff_dots False m @ CRLF @ ''.'' @ CRLF @ rest) = Some (m @ CRLF, rest)"
  proof (cases m)
    case (Cons b bs)
    with host_data_stuffed [of b bs rest] assms show ?thesis by auto
  qed simp
  then show ?thesis by (simp add: write_message_def conn_write_def)
qed

theorem smtp_message_transparency_witness:
  "\<exists>sent. sc_sent (write_message (''a'' @ CRLF @ ''.'' @ CRLF @ ''b'') (host_replies [])) = sent
     \<and> host_data True NUL (sent @ ''QUIT'') = Some (''a'' @ CRLF @ ''.'' @ CRLF @ ''b'' @ CRLF, ''QUIT'')"
  using smtp_message_transparency [of "''a'' @ CRLF @ ''.'' @ CRLF @ ''b''" "host_replies []" "''QUIT''"]
  by (simp add: host_replies_def)

text \<open>
  C23: the credentials that are sent are understood by the server's own decoders for \<open>PLAIN\<close>, and
  for \<open>XOAUTH2\<close> by its OAuth decoder, which recovers the token but not the user name (the user is the
  one the token's claims \<open>j\<close> name); the bare token that is sent for \<open>OAUTHBEARER\<close> is not.  The two
  mechanism bits differ, user name and password are not empty, hold no NUL and are UTF-8, and the
  token is UTF-8, does not itself begin with \<open>auth=Bearer\<close> and, like its user, holds no comma and no
  SOH.
\<close>

theorem smtp_credentials_decoded:
  assumes b64: "\<And>s. b64_decode f (b64_encode f s) = Inr s" and "AUTH_OAUTHBEARER f \<noteq> AUTH_XOAUTH2 f"
    and "NUL \<notin> set user \<union> set pass" and "utf8_valid user" and "utf8_valid pass" and "user \<noteq> []" and "pass \<noteq> []"
    and "CHR '','' \<notin> set u \<union> set tok" and "SOH \<notin> set u \<union> set tok" and "utf8_valid tok"
    and "\<not> eq_ignore_ascii_case (take 12 tok) ''auth=Bearer ''"
  shows "(\<exists>e p. encode_credentials f (Basic user pass x) (AUTH_PLAIN f) ch = Inr e
      \<and> b64_decode f e = Inr p \<and> decode_plain p = Some (Basic user pass None))
    \<and> (\<exists>e p. encode_credentials f (Bearer (Some u) tok) (AUTH_XOAUTH2 f) ch = Inr e
      \<and> b64_decode f e = Inr p \<and> decode_oauth j p = Some (Bearer (j tok) tok))
    \<and> (\<exists>e p. encode_credentials f (Bearer (Some u) tok) (AUTH_OAUTHBEARER f) ch = Inr e
      \<and> b64_decode f e = Inr p \<and> decode_oauth j p = None)"
  using decode_own_plain [of user pass] decode_xoauth2 [of u tok j] decode_bare_token [of tok j] assms
  by (simp add: encode_credentials_def)

theorem smtp_credentials_decoded_witness:
  "\<exists>e. encode_credentials plain_flags (Bearer (Some ''u'') ''tok'') 4 [] = Inr e
     \<and> b64_decode plain_flags e = Inr ''tok'' \<and> decode_oauth (\<lambda>_. None) ''tok'' = None"
proof -
  have "utf8_valid ''tok''" "utf8_valid ''u''" by code_simp+
  then show ?thesis
    using smtp_credentials_decoded [of plain_flags "''u''" "''u''" "''u''" "''tok''" None "[]" "\<lambda>_. None"]
    by (simp add: plain_flags_def encode_credentials_def eq_ignore_ascii_case_def)
qed

end
