(* ===== verification/Smtp_Inbound.thy ===== *)
theory Smtp_Inbound
  imports Smtp_Client
begin

text \<open>
  The state of an SMTP or LMTP session (\<^verbatim>\<open>crates/smtp/src/core/mod.rs\<close>), what it takes of
  the rest of the server, the changes that scripts make to its envelope
  (\<^verbatim>\<open>scripts/envelope.rs\<close>) and its rate limits (\<^verbatim>\<open>core/throttle.rs\<close>).
\<close>

section \<open>Addresses\<close>

record session_address =
  sa_address :: string
  sa_address_lcase :: string
  sa_domain :: string
  sa_flags :: u64
  sa_dsn_info :: "string option"

definition session_address_new :: "(string \<Rightarrow> string) \<Rightarrow> string \<Rightarrow> session_address" where
  "session_address_new lower a =
     \<lparr>sa_address = a, sa_address_lcase = lower a, sa_domain = domain_part (lower a), sa_flags = 0,
      sa_dsn_info = None\<rparr>"

definition same_address :: "session_address \<Rightarrow> session_address \<Rightarrow> bool" where
  "same_address a b \<longleftrightarrow> sa_address_lcase a = sa_address_lcase b"

definition has_address :: "session_address list \<Rightarrow> session_address \<Rightarrow> bool" where
  "has_address l a \<longleftrightarrow> list_ex (same_address a) l"

definition address_cmp :: "session_address \<Rightarrow> session_address \<Rightarrow> ordering" where
  "address_cmp a b =
     (case string_cmp (sa_domain a) (sa_domain b) of
        Equal \<Rightarrow> string_cmp (sa_address_lcase a) (sa_address_lcase b) | order \<Rightarrow> order)"

section \<open>The session\<close>

datatype verify_strategy = Relaxed | Strict | Disable

definition verify :: "verify_strategy \<Rightarrow> bool" where
  "verify v = (case v of Disable \<Rightarrow> False | _ \<Rightarrow> True)"

definition is_strict :: "verify_strategy \<Rightarrow> bool" where
  "is_strict v = (case v of Strict \<Rightarrow> True | _ \<Rightarrow> False)"

datatype spf_result = SpfPass | SpfFail | SpfSoftFail | SpfNeutral | SpfNone | SpfTempError | SpfPermError

datatype iprev_result = IprevPass | IprevFail | IprevTempError | IprevPermError | IprevNone

datatype server_protocol = SmtpProtocol | LmtpProtocol

record account =
  acc_name :: string
  acc_addresses :: "string list"

record sasl_token =
  st_mechanism :: u64
  st_credentials :: credentials

text \<open>The receivers of a session; what they hold of unfinished input is the parser's own.\<close>

datatype receiver =
    RequestReceiver
  | BdatReceiver nat bool
  | DataReceiver
  | SaslReceiver sasl_token
  | DataTooLarge
  | RequestTooLarge

record session_parameters =
  ehlo_require :: bool
  ehlo_reject_non_fqdn :: bool
  auth_require :: bool
  auth_errors_max :: nat
  rcpt_errors_max :: nat
  rcpt_max :: nat
  rcpt_dsn :: bool
  can_expn :: bool
  can_vrfy :: bool
  max_message_size :: nat
  iprev_strategy :: verify_strategy
  spf_ehlo_strategy :: verify_strategy
  spf_mail_from_strategy :: verify_strategy

record session_data =
  sd_session_id :: u64
  sd_remote_ip :: ip_addr
  sd_local_port :: u16
  sd_helo_domain :: string
  sd_mail_from :: "session_address option"
  sd_rcpt_to :: "session_address list"
  sd_rcpt_errors :: nat
  sd_rcpt_oks :: nat
  sd_message :: string
  sd_authenticated_as :: "account option"
  sd_auth_errors :: nat
  sd_priority :: u16
  sd_delivery_by :: i64
  sd_future_release :: u64
  sd_bytes_left :: nat
  sd_messages_sent :: nat
  sd_iprev :: "iprev_result option"
  sd_spf_ehlo :: "spf_result option"
  sd_spf_mail_from :: "spf_result option"

text \<open>A session: its data, and the stream as what has been written to it, with the queue's store.\<close>

record session = session_data +
  ss_hostname :: string
  ss_protocol :: server_protocol
  ss_is_tls :: bool
  ss_acceptor_tls :: bool
  ss_state :: receiver
  ss_params :: session_parameters
  ss_replies :: "string list"
  ss_store :: queue_store

definition say :: "string \<Rightarrow> session \<Rightarrow> session" where
  "say text s = s\<lparr>ss_replies := ss_replies s @ [text]\<rparr>"

definition reset :: "session \<Rightarrow> session" where
  "reset s = s\<lparr>sd_mail_from := None, sd_spf_mail_from := None, sd_rcpt_to := [], sd_message := [],
     sd_priority := 0, sd_delivery_by := 0, sd_future_release := 0, sd_rcpt_oks := 0\<rparr>"

definition is_authenticated :: "session \<Rightarrow> bool" where
  "is_authenticated s \<longleftrightarrow> sd_authenticated_as s \<noteq> None"

definition authenticated_as :: "session \<Rightarrow> string option" where
  "authenticated_as s = map_option acc_name (sd_authenticated_as s)"

definition authenticated_emails :: "session \<Rightarrow> string list" where
  "authenticated_emails s = acc_addresses (the (sd_authenticated_as s))"

definition pop_rcpt :: "session \<Rightarrow> session" where
  "pop_rcpt s = s\<lparr>sd_rcpt_to := butlast (sd_rcpt_to s)\<rparr>"

definition push_rcpt :: "session_address \<Rightarrow> session \<Rightarrow> session" where
  "push_rcpt a s = s\<lparr>sd_rcpt_to := sd_rcpt_to s @ [a]\<rparr>"

section \<open>Changes of the envelope\<close>

datatype envelope =
    EnvFrom | EnvTo | EnvByMode | EnvByTrace | EnvNotify | EnvRet | EnvOrcpt | EnvEnvid
  | EnvByTimeAbsolute | EnvByTimeRelative

text \<open>The flags of \<open>smtp_proto\<close> that only the server reads.\<close>

record server_flags = smtp_flags +
  MAIL_BY_NOTIFY :: u64
  MAIL_BY_RETURN :: u64
  MAIL_BY_TRACE :: u64

definition split_commas :: "string \<Rightarrow> string list" where
  "split_commas s = foldr (\<lambda>c ws. if c = CHR '','' then [] # ws else (c # hd ws) # tl ws) s [[]]"

definition notify_flag :: "notify_flags \<Rightarrow> string \<Rightarrow> u64" where
  "notify_flag nf v =
     (if v = ''SUCCESS'' then notify_success nf
      else if v = ''FAILURE'' then notify_failure nf
      else if v = ''DELAY'' then notify_delay nf else 0)"

definition notify_of :: "(string \<Rightarrow> string) \<Rightarrow> notify_flags \<Rightarrow> string \<Rightarrow> u64" where
  "notify_of trim' nf v =
     (if v = ''NEVER'' then notify_never nf
      else fold (\<lambda>w fl. fl OR notify_flag nf (trim' w)) (split_commas v) 0)"

definition with_address :: "(string \<Rightarrow> string) \<Rightarrow> string \<Rightarrow> session_address \<Rightarrow> session_address" where
  "with_address lower v a =
     a\<lparr>sa_address := v, sa_address_lcase := lower v, sa_domain := domain_part (lower v)\<rparr>"

definition without_address :: "session_address \<Rightarrow> session_address" where
  "without_address a = a\<lparr>sa_address := [], sa_address_lcase := [], sa_domain := []\<rparr>"

definition map_mail_from :: "(session_address \<Rightarrow> session_address) \<Rightarrow> session \<Rightarrow> session" where
  "map_mail_from f s = s\<lparr>sd_mail_from := map_option f (sd_mail_from s)\<rparr>"

definition map_last_rcpt :: "(session_address \<Rightarrow> session_address) \<Rightarrow> session \<Rightarrow> session" where
  "map_last_rcpt f s =
     s\<lparr>sd_rcpt_to := (if sd_rcpt_to s = [] then [] else butlast (sd_rcpt_to s) @ [f (last (sd_rcpt_to s))])\<rparr>"

definition set_flags :: "u64 \<Rightarrow> u64 \<Rightarrow> session_address \<Rightarrow> session_address" where
  "set_flags clear add a = a\<lparr>sa_flags := (sa_flags a AND NOT clear) OR add\<rparr>"

definition apply_envelope_modification :: "(string \<Rightarrow> string) \<Rightarrow> (string \<Rightarrow> string) \<Rightarrow> server_flags \<Rightarrow>
    notify_flags \<Rightarrow> envelope \<Rightarrow> string \<Rightarrow> session \<Rightarrow> session" where
  "apply_envelope_modification lower trim' f nf ev v s =
     (case ev of
        EnvFrom \<Rightarrow>
          (if CHR ''@'' \<in> set v then
             s\<lparr>sd_mail_from := Some (with_address lower v
                 (case sd_mail_from s of Some a \<Rightarrow> a | None \<Rightarrow> session_address_new lower v))\<rparr>
           else if v = [] then
             s\<lparr>sd_mail_from := Some (without_address
                 (case sd_mail_from s of Some a \<Rightarrow> a | None \<Rightarrow> session_address_new lower []))\<rparr>
           else s)
      | EnvTo \<Rightarrow>
          (if CHR ''@'' \<in> set v then
             (if sd_rcpt_to s = [] then push_rcpt (session_address_new lower v) s
              else map_last_rcpt (with_address lower v) s)
           else s)
      | EnvByMode \<Rightarrow>
          map_mail_from (set_flags (MAIL_BY_NOTIFY f OR MAIL_BY_RETURN f)
            (if v = ''N'' then MAIL_BY_NOTIFY f else if v = ''R'' then MAIL_BY_RETURN f else 0)) s
      | EnvByTrace \<Rightarrow>
          map_mail_from (if v = ''T'' then set_flags 0 (MAIL_BY_TRACE f) else set_flags (MAIL_BY_TRACE f) 0) s
      | EnvNotify \<Rightarrow>
          map_last_rcpt (set_flags (notify_delay nf OR notify_failure nf OR notify_success nf OR notify_never nf)
            (notify_of trim' nf v)) s
      | EnvRet \<Rightarrow>
          map_mail_from (set_flags (MAIL_RET_FULL f OR MAIL_RET_HDRS f)
            (if v = ''FULL'' then MAIL_RET_FULL f else if v = ''HDRS'' then MAIL_RET_HDRS f else 0)) s
      | EnvOrcpt \<Rightarrow> map_last_rcpt (\<lambda>a. a\<lparr>sa_dsn_info := Some v\<rparr>) s
      | EnvEnvid \<Rightarrow> map_mail_from (\<lambda>a. a\<lparr>sa_dsn_info := Some v\<rparr>) s
      | _ \<Rightarrow> s)"

section \<open>The rest of the server\<close>

datatype script_modification = SetEnvelope envelope string | AddHeader string string

datatype script_result =
    ScriptAccept "script_modification list"
  | ScriptReplace string "script_modification list"
  | ScriptReject string
  | ScriptDiscard

record filter_response =
  fr_message :: string
  fr_disconnect :: bool

datatype stage = StageConnect | StageEhlo | StageMail | StageRcpt | StageData

text \<open>The settings that a session evaluates, by their place in the configuration.\<close>

datatype setting =
    MailIsAllowed | MailRewrite | AuthMustMatchSender | AuthMechanisms | AuthErrorsMax | AuthRequire
  | EhloRequire | EhloRejectNonFqdn
  | ExtRequireTls | ExtDeliverBy | ExtMtPriority | ExtFutureRelease | ExtDsn | ExtExpn | ExtVrfy
  | ExtPipelining | ExtChunking | ExtNoSoliciting
  | RcptRewrite | RcptRelay | RcptErrorsMax | RcptMaxRecipients
  | DataMaxMessageSize | DataMaxMessages | DataMaxReceivedHeaders | DataAddReceived | DataAddAuthResults
  | DataAddReceivedSpf | DataAddReturnPath | DataAddDate | DataAddMessageId | DataSpamFilter
  | TransferLimit | ConnectHostname | ConnectGreeting
  | SpfVerifyEhlo | SpfVerifyMailFrom | IprevVerify | DkimVerify | ArcVerify | DmarcVerify | DkimSign

record limiter =
  lm_matches :: "session \<Rightarrow> bool"
  lm_keys :: u16
  lm_exceeded :: "session \<Rightarrow> bool"

datatype resolution = Accepted | RewriteTo string | ExpandTo "string list" | UnknownRecipient | UnknownDomain

datatype auth_outcome =
    AuthSucceeded account
  | AuthFailed
  | AuthTokenExpired
  | AuthMfaRequired
  | AuthUnauthorized
  | AuthBanned
  | AuthUnavailable

text \<open>
  What a session takes of the server while it handles one input: settings as functions of the
  session, scripts, milters and hooks (\<open>None\<close>: they let it pass), DNS, the directory, the
  in-memory store, and the clock.
\<close>

record inbound_env =
  ie_now :: u64
  ie_lower :: "string \<Rightarrow> string"
  ie_trim :: "string \<Rightarrow> string"
  ie_flags :: server_flags
  ie_notify :: notify_flags
  ie_flag :: "setting \<Rightarrow> session \<Rightarrow> bool option"
  ie_number :: "setting \<Rightarrow> session \<Rightarrow> u64 option"
  ie_text :: "setting \<Rightarrow> session \<Rightarrow> string option"
  ie_strategy :: "setting \<Rightarrow> session \<Rightarrow> verify_strategy option"
  ie_script :: "stage \<Rightarrow> session \<Rightarrow> script_result option"
  ie_milters :: "stage \<Rightarrow> session \<Rightarrow> filter_response option"
  ie_hooks :: "stage \<Rightarrow> session \<Rightarrow> filter_response option"
  ie_rcpt_filters :: bool
  ie_limits_remote :: "limiter list"
  ie_limits_sender :: "limiter list"
  ie_limits_rcpt :: "limiter list"
  ie_valid_labels :: "string \<Rightarrow> bool"
  ie_iprev :: "session \<Rightarrow> iprev_result"
  ie_spf_ehlo :: "session \<Rightarrow> spf_result"
  ie_spf_mail_from :: "session \<Rightarrow> spf_result"
  ie_spf_text :: "spf_result \<Rightarrow> string"
  ie_ehlo_text :: "session \<Rightarrow> string"
  ie_resolve :: "string \<Rightarrow> resolution option"
  ie_grey_list_expiry :: "u64 option"
  ie_key_exists :: "string \<Rightarrow> bool option"
  ie_key_set :: "string \<Rightarrow> bool"
  ie_base64 :: "string \<Rightarrow> string option"
  ie_jwt_email :: "string \<Rightarrow> string option"
  ie_authenticate :: "credentials \<Rightarrow> auth_outcome"
  ie_is_fail2banned :: "bool option"

definition flag_or :: "bool \<Rightarrow> inbound_env \<Rightarrow> setting \<Rightarrow> session \<Rightarrow> bool" where
  "flag_or d e k s = (case ie_flag e k s of Some b \<Rightarrow> b | None \<Rightarrow> d)"

definition size_or :: "nat \<Rightarrow> inbound_env \<Rightarrow> setting \<Rightarrow> session \<Rightarrow> nat" where
  "size_or d e k s = (case ie_number e k s of Some n \<Rightarrow> unat n | None \<Rightarrow> d)"

definition strategy_or_relaxed :: "inbound_env \<Rightarrow> setting \<Rightarrow> session \<Rightarrow> verify_strategy" where
  "strategy_or_relaxed e k s = (case ie_strategy e k s of Some v \<Rightarrow> v | None \<Rightarrow> Relaxed)"

section \<open>Rate limits\<close>

definition only_of_domain :: "session \<Rightarrow> bool" where
  "only_of_domain s \<longleftrightarrow>
     (let d = (if sd_rcpt_to s = [] then [] else sa_domain (last (sd_rcpt_to s)))
      in length (filter (\<lambda>r. sa_domain r = d) (sd_rcpt_to s)) \<le> 1)"

fun limits_allow :: "limiter list \<Rightarrow> session \<Rightarrow> bool" where
  "limits_allow [] s = True"
| "limits_allow (t # ts) s =
     (if lm_matches t s \<and> (has_bits (lm_keys t) THROTTLE_RCPT_DOMAIN \<longrightarrow> only_of_domain s)
         \<and> lm_exceeded t s
      then False else limits_allow ts s)"

definition is_allowed :: "inbound_env \<Rightarrow> session \<Rightarrow> bool" where
  "is_allowed e s =
     limits_allow (if sd_rcpt_to s \<noteq> [] then ie_limits_rcpt e
       else if sd_mail_from s \<noteq> None then ie_limits_sender e else ie_limits_remote e) s"

section \<open>Parameters\<close>

definition eval_session_params :: "inbound_env \<Rightarrow> session \<Rightarrow> session" where
  "eval_session_params e s =
     (let s = s\<lparr>sd_bytes_left := size_or (250 * 1024 * 1024) e TransferLimit s\<rparr> in
      s\<lparr>ss_params := (ss_params s)
        \<lparr>spf_ehlo_strategy := strategy_or_relaxed e SpfVerifyEhlo s,
         spf_mail_from_strategy := strategy_or_relaxed e SpfVerifyMailFrom s,
         iprev_strategy := strategy_or_relaxed e IprevVerify s,
         ehlo_require := flag_or True e EhloRequire s,
         ehlo_reject_non_fqdn := flag_or True e EhloRejectNonFqdn s,
         auth_require := flag_or False e AuthRequire s,
         auth_errors_max := size_or 3 e AuthErrorsMax s,
         can_expn := flag_or False e ExtExpn s,
         can_vrfy := flag_or False e ExtVrfy s\<rparr>\<rparr>)"

definition eval_post_auth_params :: "inbound_env \<Rightarrow> session \<Rightarrow> session" where
  "eval_post_auth_params e s =
     s\<lparr>ss_params := (ss_params s)\<lparr>can_expn := flag_or False e ExtExpn s, can_vrfy := flag_or False e ExtVrfy s\<rparr>\<rparr>"

definition eval_rcpt_params :: "inbound_env \<Rightarrow> session \<Rightarrow> session" where
  "eval_rcpt_params e s =
     s\<lparr>ss_params := (ss_params s)
       \<lparr>rcpt_errors_max := size_or 10 e RcptErrorsMax s, rcpt_max := size_or 100 e RcptMaxRecipients s,
        rcpt_dsn := flag_or True e ExtDsn s,
        max_message_size := size_or (25 * 1024 * 1024) e DataMaxMessageSize s\<rparr>\<rparr>"

end
