(* ===== verification/Smtp_Commands.thy ===== *)
theory Smtp_Commands
  imports Smtp_Inbound
begin

text \<open>
  The commands of an SMTP session (\<^verbatim>\<open>crates/smtp/src/inbound\<close>: \<^verbatim>\<open>ehlo.rs\<close>,
  \<^verbatim>\<open>mail.rs\<close>, \<^verbatim>\<open>rcpt.rs\<close>, \<^verbatim>\<open>auth.rs\<close>, \<^verbatim>\<open>vrfy.rs\<close>). A
  handler returns the session and whether it goes on; writes to the stream succeed (a session ends
  with a write that does not).
\<close>

definition line :: "string \<Rightarrow> string" where
  "line text = text @ CRLF"

definition answer :: "string \<Rightarrow> session \<Rightarrow> session \<times> bool" where
  "answer text s = (say (line text) s, True)"

text \<open>A check that refuses says what to write.\<close>

type_synonym check = "session \<Rightarrow> session \<times> string option"

definition then_check :: "session \<times> string option \<Rightarrow> check \<Rightarrow> session \<times> string option" where
  "then_check r f = (case r of (s, None) \<Rightarrow> f s | (s, Some text) \<Rightarrow> (s, Some text))"

definition require :: "bool \<Rightarrow> string \<Rightarrow> check" where
  "require b text s = (s, if b then None else Some text)"

section \<open>EHLO\<close>

definition handle_spf :: "inbound_env \<Rightarrow> spf_result \<Rightarrow> bool \<Rightarrow> string option" where
  "handle_spf e r strict =
     (case r of
        SpfPass \<Rightarrow> None
      | SpfTempError \<Rightarrow>
          if strict then Some (line ''451 4.7.24 Temporary SPF validation error.'') else None
      | _ \<Rightarrow> if strict then Some (line (''550 5.7.23 SPF validation failed, status: '' @ ie_spf_text e r @ ''.''))
            else None)"

definition filter_check :: "inbound_env \<Rightarrow> stage \<Rightarrow> check" where
  "filter_check e stage s =
     (s, case ie_milters e stage s of
           Some r \<Rightarrow> Some (fr_message r) | None \<Rightarrow> map_option fr_message (ie_hooks e stage s))"

definition spf_ehlo_check :: "inbound_env \<Rightarrow> check" where
  "spf_ehlo_check e s =
     (if verify (spf_ehlo_strategy (ss_params s)) then
        (case handle_spf e (ie_spf_ehlo e s) (is_strict (spf_ehlo_strategy (ss_params s))) of
           None \<Rightarrow> (s\<lparr>sd_spf_ehlo := Some (ie_spf_ehlo e s)\<rparr>, None)
         | Some text \<Rightarrow> (s, Some text))
      else (s, None))"

definition script_check :: "inbound_env \<Rightarrow> stage \<Rightarrow> check" where
  "script_check e stage s =
     (s, case ie_script e stage s of Some (ScriptReject text) \<Rightarrow> Some text | _ \<Rightarrow> None)"

text \<open>
  A new domain is checked; a refusal puts the old one back and drops the sender, but not the
  recipients. After the SPF check a refusal drops its result too.
\<close>

definition ehlo_domain :: "inbound_env \<Rightarrow> string \<Rightarrow> session \<Rightarrow> session \<times> bool" where
  "ehlo_domain e domain s =
     (if domain = sd_helo_domain s then (s, True)
      else if ehlo_reject_non_fqdn (ss_params s) \<and> \<not> ie_valid_labels e domain then
        (say (line ''550 5.5.0 Invalid EHLO domain.'') s, False)
      else
        (let prev = sd_helo_domain s in
         case spf_ehlo_check e (s\<lparr>sd_helo_domain := domain\<rparr>) of
           (s, Some text) \<Rightarrow> (say text (s\<lparr>sd_mail_from := None, sd_helo_domain := prev\<rparr>), False)
         | (s, None) \<Rightarrow>
             (case then_check (script_check e StageEhlo s) (filter_check e StageEhlo) of
                (s, Some text) \<Rightarrow>
                  (say text (s\<lparr>sd_mail_from := None, sd_helo_domain := prev, sd_spf_ehlo := None\<rparr>), False)
              | (s, None) \<Rightarrow> (s, True))))"

definition handle_ehlo :: "inbound_env \<Rightarrow> string \<Rightarrow> bool \<Rightarrow> session \<Rightarrow> session \<times> bool" where
  "handle_ehlo e domain is_extended s =
     (case ehlo_domain e domain s of
        (s, False) \<Rightarrow> (s, True)
      | (s, True) \<Rightarrow>
          (let s = (if sd_mail_from s \<noteq> None then reset s else s) in
           if is_extended then (say (ie_ehlo_text e s) s, True)
           else answer (''250 '' @ ss_hostname s @ '' you had me at HELO'') s))"

section \<open>MAIL\<close>

record mail_from =
  mf_address :: string
  mf_flags :: u64
  mf_size :: nat
  mf_by :: i64
  mf_hold_for :: u64
  mf_hold_until :: u64
  mf_env_id :: "string option"
  mf_mt_priority :: "64 word"

definition mail_sequence :: "session \<Rightarrow> string option" where
  "mail_sequence s =
     (let p = ss_params s in
      if sd_helo_domain s = []
         \<and> (ehlo_require p \<or> verify (spf_ehlo_strategy p) \<or> verify (spf_mail_from_strategy p)) then
        Some (line ''503 5.5.1 Polite people say EHLO first.'')
      else if sd_mail_from s \<noteq> None then Some (line ''503 5.5.1 Multiple MAIL commands not allowed.'')
      else if auth_require p \<and> \<not> is_authenticated s then
        Some (line ''503 5.5.1 You must authenticate first.'')
      else None)"

definition mail_iprev :: "inbound_env \<Rightarrow> session \<Rightarrow> session" where
  "mail_iprev e s =
     (if sd_iprev s = None \<and> verify (iprev_strategy (ss_params s))
      then s\<lparr>sd_iprev := Some (ie_iprev e s)\<rparr> else s)"

definition iprev_refusal :: "session \<Rightarrow> string option" where
  "iprev_refusal s =
     (if is_strict (iprev_strategy (ss_params s)) \<and> sd_iprev s \<noteq> Some IprevPass then
        Some (line (if sd_iprev s = Some IprevTempError
          then ''451 4.7.25 Temporary error validating reverse DNS.''
          else ''550 5.7.25 Reverse DNS validation failed.''))
      else None)"

definition mail_sender :: "inbound_env \<Rightarrow> mail_from \<Rightarrow> session_address" where
  "mail_sender e mf =
     (if mf_address mf \<noteq> [] then session_address_new (ie_lower e) (mf_address mf)
      else without_address (session_address_new (ie_lower e) []))
     \<lparr>sa_flags := mf_flags mf, sa_dsn_info := mf_env_id mf\<rparr>"

definition modify_envelope :: "inbound_env \<Rightarrow> script_modification list \<Rightarrow> session \<Rightarrow> session" where
  "modify_envelope e mods s =
     fold (\<lambda>m s. case m of
             SetEnvelope name v \<Rightarrow>
               apply_envelope_modification (ie_lower e) (ie_trim e) (ie_flags e) (ie_notify e) name v s
           | AddHeader _ _ \<Rightarrow> s) mods s"

definition script_step :: "inbound_env \<Rightarrow> stage \<Rightarrow> check" where
  "script_step e stage s =
     (case ie_script e stage s of
        Some (ScriptAccept mods) \<Rightarrow> (modify_envelope e mods s, None)
      | Some (ScriptReject text) \<Rightarrow> (s, Some text)
      | _ \<Rightarrow> (s, None))"

definition mail_rewrite :: "inbound_env \<Rightarrow> check" where
  "mail_rewrite e s =
     (case ie_text e MailRewrite s of
        Some a \<Rightarrow>
          ((if CHR ''@'' \<in> set a then map_mail_from (with_address (ie_lower e) a) s
            else if a = [] then map_mail_from without_address s else s), None)
      | None \<Rightarrow> (s, None))"

definition may_send_as :: "inbound_env \<Rightarrow> session \<Rightarrow> bool" where
  "may_send_as e s =
     (case authenticated_as s of
        Some name \<Rightarrow>
          (if flag_or True e AuthMustMatchSender s then
             (let a = (case sd_mail_from s of Some m \<Rightarrow> sa_address_lcase m | None \<Rightarrow> [])
              in name = a \<or> a \<in> set (authenticated_emails s))
           else True)
      | None \<Rightarrow> True)"

definition by_seconds :: "i64 \<Rightarrow> u64" where
  "by_seconds by' = (if sint by' = - (2 ^ 63) then 0 else of_int \<bar>sint by'\<bar>)"

definition deliver_by_check :: "inbound_env \<Rightarrow> mail_from \<Rightarrow> check" where
  "deliver_by_check e mf s =
     (let f = ie_flags e in
      if has_bits (mf_flags mf) (MAIL_BY_NOTIFY f OR MAIL_BY_RETURN f) then
        (case ie_number e ExtDeliverBy s of
           Some d \<Rightarrow>
             (if by_seconds (mf_by mf) \<le> d \<and> (0 < sint (mf_by mf) \<or> has_bits (mf_flags mf) (MAIL_BY_NOTIFY f))
              then (s\<lparr>sd_delivery_by := mf_by mf\<rparr>, None)
              else (s, Some (line (''501 5.5.4 BY parameter exceeds maximum of '' @ word_text d @ '' seconds.''))))
         | None \<Rightarrow> (s, Some (line ''501 5.5.4 DELIVERBY extension has been disabled.'')))
      else (s, None))"

definition priority_check :: "inbound_env \<Rightarrow> mail_from \<Rightarrow> check" where
  "priority_check e mf s =
     (if mf_mt_priority mf \<noteq> 0 then
        (if ie_text e ExtMtPriority s \<noteq> None then
           (if -6 \<le> sint (mf_mt_priority mf) \<and> sint (mf_mt_priority mf) < 6
            then (s\<lparr>sd_priority := ucast (mf_mt_priority mf)\<rparr>, None)
            else (s, Some (line ''501 5.5.4 Invalid priority value.'')))
         else (s, Some (line ''501 5.5.4 MT-PRIORITY extension has been disabled.'')))
      else (s, None))"

definition size_check :: "inbound_env \<Rightarrow> mail_from \<Rightarrow> check" where
  "size_check e mf s =
     require (mf_size mf = 0 \<or> mf_size mf \<le> size_or (25 * 1024 * 1024) e DataMaxMessageSize s)
       (line ''552 5.3.4 Message too big for system.'') s"

definition hold_check :: "inbound_env \<Rightarrow> mail_from \<Rightarrow> check" where
  "hold_check e mf s =
     (if mf_hold_for mf \<noteq> 0 \<or> mf_hold_until mf \<noteq> 0 then
        (case ie_number e ExtFutureRelease s of
           Some max_hold \<Rightarrow>
             (let hold_for = (if mf_hold_for mf \<noteq> 0 then mf_hold_for mf
                else saturating_sub (mf_hold_until mf) (ie_now e)) in
              if hold_for \<le> max_hold then (s\<lparr>sd_future_release := hold_for\<rparr>, None)
              else (s, Some (line (''501 5.5.4 Requested hold time exceeds maximum of '' @ word_text max_hold
                @ '' seconds.''))))
         | None \<Rightarrow> (s, Some (line ''501 5.5.4 FUTURERELEASE extension has been disabled.'')))
      else (s, None))"

definition spf_mail_check :: "inbound_env \<Rightarrow> check" where
  "spf_mail_check e s =
     (if verify (spf_mail_from_strategy (ss_params s)) then
        (case handle_spf e (ie_spf_mail_from e s) (is_strict (spf_mail_from_strategy (ss_params s))) of
           None \<Rightarrow> (s\<lparr>sd_spf_mail_from := Some (ie_spf_mail_from e s)\<rparr>, None)
         | Some text \<Rightarrow> (s, Some text))
      else (s, None))"

text \<open>The checks once the sender is set, in their order.\<close>

definition mail_checks :: "inbound_env \<Rightarrow> mail_from \<Rightarrow> check list" where
  "mail_checks e mf =
     [\<lambda>s. require (flag_or True e MailIsAllowed s) (line ''550 5.7.1 Sender address not allowed.'') s,
      script_step e StageMail,
      filter_check e StageMail,
      mail_rewrite e,
      \<lambda>s. require (may_send_as e s) (line ''501 5.5.4 You are not allowed to send from this address.'') s,
      \<lambda>s. require (has_bits (mf_flags mf) (MAIL_REQUIRETLS (ie_flags e)) \<longrightarrow> flag_or False e ExtRequireTls s)
        (line ''501 5.5.4 REQUIRETLS has been disabled.'') s,
      deliver_by_check e mf,
      priority_check e mf,
      size_check e mf,
      hold_check e mf,
      \<lambda>s. require (mf_env_id mf \<noteq> None \<longrightarrow> flag_or False e ExtDsn s)
        (line ''501 5.5.4 DSN extension has been disabled.'') s,
      \<lambda>s. require (is_allowed e s) (line ''452 4.4.5 Rate limit exceeded, try again later.'') s,
      spf_mail_check e]"

definition run_checks :: "check list \<Rightarrow> check" where
  "run_checks checks s = fold (\<lambda>f r. then_check r f) checks (s, None)"

definition handle_mail_from :: "inbound_env \<Rightarrow> mail_from \<Rightarrow> session \<Rightarrow> session \<times> bool" where
  "handle_mail_from e mf s =
     (case mail_sequence s of
        Some text \<Rightarrow> (say text s, True)
      | None \<Rightarrow>
          (let s = mail_iprev e s in
           case iprev_refusal s of
             Some text \<Rightarrow> (say text s, True)
           | None \<Rightarrow>
               (case run_checks (mail_checks e mf) (s\<lparr>sd_mail_from := Some (mail_sender e mf)\<rparr>) of
                  (s, Some text) \<Rightarrow> (say text (s\<lparr>sd_mail_from := None\<rparr>), True)
                | (s, None) \<Rightarrow> answer ''250 2.1.0 OK'' (eval_rcpt_params e s))))"

section \<open>RCPT\<close>

record rcpt_to =
  rt_address :: string
  rt_flags :: u64
  rt_orcpt :: "string option"

text \<open>What becomes of a recipient that is not accepted: each takes it off the list.\<close>

datatype rcpt_refusal = RcptRefused string | RcptInvalid string | RcptDuplicate

definition rcpt_sequence :: "inbound_env \<Rightarrow> rcpt_to \<Rightarrow> session \<Rightarrow> string option" where
  "rcpt_sequence e rt s =
     (let p = ss_params s; nf = ie_notify e in
      if sd_mail_from s = None then Some (line ''503 5.5.1 MAIL is required first.'')
      else if rcpt_max p \<le> min (length (sd_rcpt_to s)) (sd_rcpt_oks s) then
        Some (line ''455 4.5.3 Too many recipients.'')
      else if (has_bits (rt_flags rt) (notify_delay nf OR notify_never nf OR notify_success nf OR notify_failure nf)
          \<or> rt_orcpt rt \<noteq> None) \<and> \<not> rcpt_dsn p then
        Some (line ''501 5.5.4 DSN extension has been disabled.'')
      else None)"

definition count_ok :: "session \<Rightarrow> session" where
  "count_ok s = s\<lparr>sd_rcpt_oks := sd_rcpt_oks s + 1\<rparr>"

definition last_rcpt :: "session \<Rightarrow> session_address" where
  "last_rcpt s = last (sd_rcpt_to s)"

text \<open>Scripts, filters and rewriting; then the recipient may be there already.\<close>

definition rcpt_filters :: "inbound_env \<Rightarrow> session \<Rightarrow> session \<times> rcpt_refusal option" where
  "rcpt_filters e s =
     (if ie_script e StageRcpt s \<noteq> None \<or> ie_rcpt_filters e then
        (case then_check (script_step e StageRcpt s) (filter_check e StageRcpt) of
           (s, Some text) \<Rightarrow> (s, Some (RcptRefused text))
         | (s, None) \<Rightarrow>
             (let s = (case ie_text e RcptRewrite s of
                  Some a \<Rightarrow> if CHR ''@'' \<in> set a then map_last_rcpt (with_address (ie_lower e) a) s else s
                | None \<Rightarrow> s)
              in (s, if 1 < length (filter (same_address (last_rcpt s)) (sd_rcpt_to s)) then Some RcptDuplicate
                     else None)))
      else (s, None))"

definition rewrite_rcpt :: "inbound_env \<Rightarrow> string \<Rightarrow> session \<Rightarrow> session \<times> rcpt_refusal option" where
  "rewrite_rcpt e a s =
     (let orig = last_rcpt s; new = session_address_new (ie_lower e) a in
      if has_address (butlast (sd_rcpt_to s)) new then (s, Some RcptDuplicate)
      else (push_rcpt (new\<lparr>sa_dsn_info := Some (''rfc822;'' @ sa_address_lcase orig), sa_flags := sa_flags orig\<rparr>)
              (pop_rcpt s), None))"

text \<open>The directory: refused, or accepted with the members of a list.\<close>

definition verify_rcpt :: "inbound_env \<Rightarrow> session \<Rightarrow> session \<times> (rcpt_refusal + string list option)" where
  "verify_rcpt e s =
     (case ie_resolve e (sa_address_lcase (last_rcpt s)) of
        Some Accepted \<Rightarrow> (s, Inr None)
      | Some (RewriteTo a) \<Rightarrow>
          (case rewrite_rcpt e a s of (s, Some r) \<Rightarrow> (s, Inl r) | (s, None) \<Rightarrow> (s, Inr None))
      | Some (ExpandTo members) \<Rightarrow> (s, Inr (Some members))
      | Some UnknownRecipient \<Rightarrow> (s, Inl (RcptInvalid (line ''550 5.1.2 Mailbox does not exist.'')))
      | Some UnknownDomain \<Rightarrow>
          (if flag_or False e RcptRelay s then (s, Inr None)
           else (s, Inl (RcptInvalid (line ''550 5.1.2 Relay not allowed.''))))
      | None \<Rightarrow> (s, Inl (RcptRefused (line ''451 4.4.3 Unable to verify address at this time.''))))"

definition greylisted :: "inbound_env \<Rightarrow> session \<Rightarrow> bool" where
  "greylisted e s =
     (if ie_grey_list_expiry e \<noteq> None \<and> \<not> is_authenticated s then
        (let key = (case sd_mail_from s of Some m \<Rightarrow> sa_address_lcase m | None \<Rightarrow> [])
               @ sa_address_lcase (last_rcpt s)
         in ie_key_exists e key = Some False \<and> ie_key_set e key)
      else False)"

definition limit_rcpt :: "inbound_env \<Rightarrow> session \<Rightarrow> rcpt_refusal option" where
  "limit_rcpt e s =
     (if is_allowed e s then
        (if greylisted e s then Some (RcptRefused (line ''452 4.2.2 Greylisted, please try again in a few moments.''))
         else None)
      else Some (RcptRefused (line ''452 4.4.5 Rate limit exceeded, try again later.'')))"

definition add_member :: "inbound_env \<Rightarrow> session_address \<Rightarrow> string \<Rightarrow> session \<Rightarrow> session" where
  "add_member e list member s =
     (let a = session_address_new (ie_lower e) member in
      if has_address (sd_rcpt_to s) a \<or> sa_address_lcase a = sa_address_lcase list then s
      else push_rcpt (a\<lparr>sa_dsn_info := Some (''rfc822;'' @ sa_address_lcase list), sa_flags := sa_flags list\<rparr>) s)"

definition expand_rcpt :: "inbound_env \<Rightarrow> string list option \<Rightarrow> session \<Rightarrow> session" where
  "expand_rcpt e members s =
     (case members of
        Some ms \<Rightarrow> fold (add_member e (last_rcpt s)) ms (pop_rcpt s) | None \<Rightarrow> s)"

definition rcpt_error :: "string \<Rightarrow> session \<Rightarrow> session \<times> bool" where
  "rcpt_error text s =
     (let s = s\<lparr>sd_rcpt_errors := sd_rcpt_errors s + 1\<rparr> in
      if sd_rcpt_errors s < rcpt_errors_max (ss_params s) then (say text s, True)
      else (say (line ''451 4.3.0 Too many errors, disconnecting.'') s, False))"

definition refuse_rcpt :: "rcpt_refusal \<Rightarrow> session \<Rightarrow> session \<times> bool" where
  "refuse_rcpt r s =
     (case r of
        RcptRefused text \<Rightarrow> (say text (pop_rcpt s), True)
      | RcptInvalid text \<Rightarrow> rcpt_error text (pop_rcpt s)
      | RcptDuplicate \<Rightarrow> answer ''250 2.1.5 OK'' (count_ok (pop_rcpt s)))"

definition rcpt_address :: "inbound_env \<Rightarrow> rcpt_to \<Rightarrow> session_address" where
  "rcpt_address e rt =
     (session_address_new (ie_lower e) (rt_address rt))\<lparr>sa_flags := rt_flags rt, sa_dsn_info := rt_orcpt rt\<rparr>"

text \<open>A recipient that has been put on the list: refused, or the session with it on.\<close>

definition check_rcpt :: "inbound_env \<Rightarrow> session \<Rightarrow> session \<times> rcpt_refusal option" where
  "check_rcpt e s =
     (case rcpt_filters e s of
        (s, Some r) \<Rightarrow> (s, Some r)
      | (s, None) \<Rightarrow>
          (case verify_rcpt e s of
             (s, Inl r) \<Rightarrow> (s, Some r)
           | (s, Inr members) \<Rightarrow>
               (case limit_rcpt e s of
                  Some r \<Rightarrow> (s, Some r) | None \<Rightarrow> (count_ok (expand_rcpt e members s), None))))"

definition handle_rcpt_to :: "inbound_env \<Rightarrow> rcpt_to \<Rightarrow> session \<Rightarrow> session \<times> bool" where
  "handle_rcpt_to e rt s =
     (case rcpt_sequence e rt s of
        Some text \<Rightarrow> (say text s, True)
      | None \<Rightarrow>
          (if has_address (sd_rcpt_to s) (rcpt_address e rt) then answer ''250 2.1.5 OK'' (count_ok s)
           else
             (case check_rcpt e (push_rcpt (rcpt_address e rt) s) of
                (s, Some r) \<Rightarrow> refuse_rcpt r s
              | (s, None) \<Rightarrow> answer ''250 2.1.5 OK'' s)))"

section \<open>AUTH\<close>

definition from_mechanism :: "server_flags \<Rightarrow> u64 \<Rightarrow> sasl_token option" where
  "from_mechanism f m =
     (if m = AUTH_PLAIN f \<or> m = AUTH_LOGIN f then
        Some \<lparr>st_mechanism = m, st_credentials = Basic [] [] None\<rparr>
      else if m = AUTH_OAUTHBEARER f \<or> m = AUTH_XOAUTH2 f then
        Some \<lparr>st_mechanism = m, st_credentials = Bearer None []\<rparr>
      else None)"

text \<open>An exchange goes on (\<open>Some True\<close>), is over, or ends the session (\<open>None\<close>).\<close>

definition auth_error :: "string \<Rightarrow> session \<Rightarrow> session \<times> bool option" where
  "auth_error text s =
     (let s = say text (s\<lparr>sd_auth_errors := sd_auth_errors s + 1\<rparr>) in
      if sd_auth_errors s < auth_errors_max (ss_params s) then (s, Some False)
      else (say (line ''455 4.3.0 Too many authentication errors, disconnecting.'') s, None))"

definition session_authenticate :: "inbound_env \<Rightarrow> credentials \<Rightarrow> session \<Rightarrow> session \<times> bool option" where
  "session_authenticate e cred s =
     (case ie_authenticate e cred of
        AuthSucceeded a \<Rightarrow>
          (say (line ''235 2.7.0 Authentication succeeded.'')
             (eval_post_auth_params e (s\<lparr>sd_authenticated_as := Some a\<rparr>)), Some False)
      | AuthFailed \<Rightarrow> auth_error (line ''535 5.7.8 Authentication credentials invalid.'') s
      | AuthTokenExpired \<Rightarrow> auth_error (line ''535 5.7.8 OAuth token expired.'') s
      | AuthMfaRequired \<Rightarrow> auth_error (line (''334 5.7.8 This account requires multi-factor authentication. ''
          @ ''Alternatively, you can use an app password if your account has one.'')) s
      | AuthUnauthorized \<Rightarrow>
          (say (line ''550 5.7.1 Your account is not authorized to use this service.'') s, Some False)
      | AuthBanned \<Rightarrow> (s, None)
      | AuthUnavailable \<Rightarrow> (say (line ''454 4.7.0 Temporary authentication failure'') s, Some False))"

definition challenge :: "string \<Rightarrow> sasl_token \<Rightarrow> session \<Rightarrow> session \<times> sasl_token \<times> bool option" where
  "challenge text tok s = (say (line text) s, tok, Some True)"

definition over :: "sasl_token \<Rightarrow> session \<times> bool option \<Rightarrow> session \<times> sasl_token \<times> bool option" where
  "over tok r = (fst r, tok, snd r)"

definition invalid_challenge :: "sasl_token \<Rightarrow> session \<Rightarrow> session \<times> sasl_token \<times> bool option" where
  "invalid_challenge tok s = over tok (auth_error (line ''500 5.5.6 Invalid challenge.'') s)"

definition decoded :: "inbound_env \<Rightarrow> credentials option \<Rightarrow> sasl_token \<Rightarrow> session \<Rightarrow>
    session \<times> sasl_token \<times> bool option" where
  "decoded e cred tok s =
     (case cred of Some c \<Rightarrow> over tok (session_authenticate e c s) | None \<Rightarrow> invalid_challenge tok s)"

definition login_response :: "inbound_env \<Rightarrow> string \<Rightarrow> sasl_token \<Rightarrow> session \<Rightarrow>
    session \<times> sasl_token \<times> bool option" where
  "login_response e text tok s =
     (case st_credentials tok of
        Basic user pass mfa \<Rightarrow>
          (if user = [] then
             challenge ''334 UGFzc3dvcmQ6'' (tok\<lparr>st_credentials := Basic text pass mfa\<rparr>) s
           else
             over (tok\<lparr>st_credentials := Basic [] [] None\<rparr>) (session_authenticate e (Basic user text mfa) s))
      | Bearer _ _ \<Rightarrow> invalid_challenge tok s)"

definition no_credentials :: "credentials \<Rightarrow> bool" where
  "no_credentials c = (case c of Basic user pass _ \<Rightarrow> user = [] \<and> pass = [] | Bearer _ _ \<Rightarrow> False)"

definition handle_sasl_response :: "inbound_env \<Rightarrow> sasl_token \<Rightarrow> string \<Rightarrow> session \<Rightarrow>
    session \<times> sasl_token \<times> bool option" where
  "handle_sasl_response e tok response s =
     (let f = ie_flags e; m = st_mechanism tok in
      if response = [] then
        (if m = AUTH_PLAIN f \<or> m = AUTH_XOAUTH2 f \<or> m = AUTH_OAUTHBEARER f then challenge ''334 '' tok s
         else if m = AUTH_LOGIN f \<and> no_credentials (st_credentials tok) then challenge ''334 VXNlcm5hbWU6'' tok s
         else invalid_challenge tok s)
      else
        (case ie_base64 e response of
           Some text \<Rightarrow>
             (if m = AUTH_PLAIN f then decoded e (decode_plain text) tok s
              else if m = AUTH_LOGIN f then login_response e text tok s
              else if m = AUTH_OAUTHBEARER f \<or> m = AUTH_XOAUTH2 f then
                decoded e (decode_oauth (ie_jwt_email e) text) tok s
              else invalid_challenge tok s)
         | None \<Rightarrow> invalid_challenge tok s))"

definition sasl_state :: "session \<times> sasl_token \<times> bool option \<Rightarrow> session \<times> bool" where
  "sasl_state r =
     (case r of
        (s, tok, Some True) \<Rightarrow> (s\<lparr>ss_state := SaslReceiver tok\<rparr>, True)
      | (s, tok, Some False) \<Rightarrow> (s\<lparr>ss_state := RequestReceiver\<rparr>, True)
      | (s, tok, None) \<Rightarrow> (s, False))"

definition handle_auth :: "inbound_env \<Rightarrow> u64 \<Rightarrow> string \<Rightarrow> session \<Rightarrow> session \<times> bool" where
  "handle_auth e mechanism initial s =
     (let allowed = (case ie_number e AuthMechanisms s of Some n \<Rightarrow> n | None \<Rightarrow> 0) in
      if allowed = 0 then answer ''503 5.5.1 AUTH not allowed.'' s
      else if is_authenticated s then answer ''503 5.5.1 Already authenticated.'' s
      else
        (case from_mechanism (ie_flags e) (mechanism AND allowed) of
           Some tok \<Rightarrow> sasl_state (handle_sasl_response e tok initial s)
         | None \<Rightarrow> answer ''554 5.7.8 Authentication mechanism not supported.'' s))"

section \<open>VRFY and EXPN\<close>

definition handle_vrfy :: "inbound_env \<Rightarrow> string \<Rightarrow> session \<Rightarrow> session \<times> bool" where
  "handle_vrfy e addr s =
     (if can_vrfy (ss_params s) then
        (case ie_resolve e (ie_lower e addr) of
           Some Accepted \<Rightarrow> answer (''250 '' @ addr) s
         | Some (RewriteTo _) \<Rightarrow> answer (''250 '' @ addr) s
         | Some _ \<Rightarrow> answer ''550 5.1.2 Address not found.'' s
         | None \<Rightarrow> answer ''252 2.4.3 Unable to verify address at this time.'' s)
      else answer ''252 2.5.1 VRFY is disabled.'' s)"

fun member_lines :: "string list \<Rightarrow> string" where
  "member_lines [] = []"
| "member_lines [m] = line (''250 '' @ m)"
| "member_lines (m # ms) = line (''250-'' @ m) @ member_lines ms"

definition handle_expn :: "inbound_env \<Rightarrow> string \<Rightarrow> session \<Rightarrow> session \<times> bool" where
  "handle_expn e addr s =
     (if can_expn (ss_params s) then
        (case ie_resolve e (ie_lower e addr) of
           Some (ExpandTo members) \<Rightarrow> (say (member_lines members) s, True)
         | Some _ \<Rightarrow> answer ''550 5.1.2 Mailing list not found.'' s
         | None \<Rightarrow> answer ''252 2.4.3 Unable to expand mailing list at this time.'' s)
      else answer ''252 2.5.1 EXPN is disabled.'' s)"

end
