(* ===== verification/Smtp_Data.thy ===== *)
theory Smtp_Data
  imports Smtp_Commands
begin

text \<open>
  What becomes of a message that an SMTP session has received
  (\<^verbatim>\<open>crates/smtp/src/inbound/data.rs\<close>): the checks, the changes that filters make
  (\<^verbatim>\<open>milter/message.rs\<close>), and the message that is queued (\<open>Queue_Spool\<close>).
\<close>

section \<open>Filters\<close>

datatype modification =
    ChangeFrom string string
  | AddRcpt string string
  | DeleteRcpt string
  | ReplaceBody string
  | MAddHeader string string
  | InsertHeader u32 string string
  | ChangeHeader u32 string string
  | Quarantine string

definition replaces_body :: "modification \<Rightarrow> bool" where
  "replaces_body m = (case m of ReplaceBody _ \<Rightarrow> True | _ \<Rightarrow> False)"

definition text_lines :: "string \<Rightarrow> string" where
  "text_lines text = (if text \<noteq> [] \<and> last text = LF then text else text @ CRLF)"

definition filter_accept :: filter_response where
  "filter_accept = \<lparr>fr_message = line ''250 2.0.0 Message queued for delivery.'', fr_disconnect = False\<rparr>"

definition filter_reject :: filter_response where
  "filter_reject = \<lparr>fr_message = line ''503 5.5.3 Message rejected.'', fr_disconnect = False\<rparr>"

definition temp_fail :: filter_response where
  "temp_fail = \<lparr>fr_message = line ''451 4.3.5 Unable to accept message at this time.'', fr_disconnect = False\<rparr>"

definition filter_shutdown :: filter_response where
  "filter_shutdown = \<lparr>fr_message = line ''421 4.3.0 Server shutting down.'', fr_disconnect = True\<rparr>"

definition connection_failure :: filter_response where
  "connection_failure = \<lparr>fr_message = [], fr_disconnect = True\<rparr>"

text \<open>What a milter answers: its changes, an action, or an error.\<close>

datatype milter_result =
    MilterAccept "modification list"
  | MilterDiscard
  | MilterReject
  | MilterTempFail
  | MilterReplyCode string string
  | MilterShutdown
  | MilterConnectionFailure
  | MilterError bool

text \<open>The changes of a filter after those of the filters before it: a body is replaced once.\<close>

definition add_modifications :: "modification list \<Rightarrow> modification list \<Rightarrow> modification list" where
  "add_modifications old new =
     (if list_ex replaces_body new then filter (\<lambda>m. \<not> replaces_body m) old else old) @ new"

definition milter_refusal :: "milter_result \<Rightarrow> filter_response option" where
  "milter_refusal r =
     (case r of
        MilterAccept _ \<Rightarrow> None
      | MilterDiscard \<Rightarrow> Some filter_accept
      | MilterReject \<Rightarrow> Some filter_reject
      | MilterTempFail \<Rightarrow> Some temp_fail
      | MilterReplyCode num txt \<Rightarrow>
          Some \<lparr>fr_message = num @ '' '' @ text_lines txt, fr_disconnect = False\<rparr>
      | MilterShutdown \<Rightarrow> Some filter_shutdown
      | MilterConnectionFailure \<Rightarrow> Some connection_failure
      | MilterError tempfail_on_error \<Rightarrow> if tempfail_on_error then Some temp_fail else None)"

fun run_milters :: "milter_result list \<Rightarrow> modification list \<Rightarrow> filter_response + modification list" where
  "run_milters [] mods = Inr mods"
| "run_milters (r # rs) mods =
     (case milter_refusal r of
        Some response \<Rightarrow> Inl response
      | None \<Rightarrow> run_milters rs
          (case r of MilterAccept new \<Rightarrow> add_modifications mods new | _ \<Rightarrow> mods))"

datatype hook_action = HookAccept | HookDiscard | HookReject | HookQuarantine

record hook_response =
  hr_action :: hook_action
  hr_modifications :: "modification list"
  hr_response :: "(string option \<times> bool) option"

text \<open>The reply of a hook: its own text (status, enhanced status, text) if it gives one.\<close>

definition hook_reply :: "hook_response \<Rightarrow> filter_response \<Rightarrow> filter_response" where
  "hook_reply h d =
     (case hr_response h of
        None \<Rightarrow> d
      | Some (text, disconnect) \<Rightarrow>
          \<lparr>fr_message = (case text of Some t \<Rightarrow> line t | None \<Rightarrow> fr_message d), fr_disconnect = disconnect\<rparr>)"

fun run_mta_hooks :: "(bool + hook_response) list \<Rightarrow> modification list \<Rightarrow> filter_response + modification list" where
  "run_mta_hooks [] mods = Inr mods"
| "run_mta_hooks (Inl tempfail_on_error # rs) mods =
     (if tempfail_on_error then Inl temp_fail else run_mta_hooks rs mods)"
| "run_mta_hooks (Inr h # rs) mods =
     (let mods = add_modifications mods (hr_modifications h) in
      case hr_action h of
        HookAccept \<Rightarrow> run_mta_hooks rs mods
      | HookDiscard \<Rightarrow> Inl (hook_reply h filter_accept)
      | HookReject \<Rightarrow> Inl (hook_reply h filter_reject)
      | HookQuarantine \<Rightarrow> Inl (hook_reply h filter_accept))"

section \<open>Checks of a message\<close>

datatype dkim_result =
  DkimPass | DkimNeutral | DkimFail | DkimPermError | DkimTempError | DkimNone

datatype dmarc_result = DmarcPass | DmarcFail | DmarcTempError | DmarcPermError | DmarcNone

record dmarc_output =
  dm_spf_result :: dmarc_result
  dm_dkim_result :: dmarc_result
  dm_policy_reject :: bool

datatype spam_action =
    SpamAllow string "(bool \<times> string) option" "bool list"
  | SpamDiscard
  | SpamReject
  | SpamDisabled

text \<open>What the handling of a message takes of the server.\<close>

record 'f data_env =
  da_env :: inbound_env
  da_parses :: "string \<Rightarrow> bool"
  da_received_headers :: "string \<Rightarrow> nat"
  da_dkim :: "string \<Rightarrow> dkim_result list"
  da_arc :: "string \<Rightarrow> dkim_result"
  da_dmarc :: "session \<Rightarrow> string \<Rightarrow> dmarc_output"
  da_is_report :: "session \<Rightarrow> bool"
  da_forward_reports :: bool
  da_new_id :: "queue_store \<Rightarrow> queue_id"
  da_trace_headers :: "session \<Rightarrow> queue_id \<Rightarrow> string \<Rightarrow> string"
  da_spam_enabled :: bool
  da_spam_classify :: "session \<Rightarrow> string \<Rightarrow> spam_action"
  da_milters :: "session \<Rightarrow> string \<Rightarrow> milter_result list"
  da_hooks :: "session \<Rightarrow> string \<Rightarrow> (bool + hook_response) list"
  da_mail_parameters :: "string \<Rightarrow> (u64 \<times> string option) option"
  da_rcpt_parameters :: "string \<Rightarrow> (u64 \<times> string option) option"
  da_edit :: "modification list \<Rightarrow> string \<Rightarrow> string option"
  da_script :: "session \<Rightarrow> string \<Rightarrow> string \<Rightarrow> script_result option"
  da_has_date :: "string \<Rightarrow> bool"
  da_has_message_id :: "string \<Rightarrow> bool"
  da_date :: string
  da_message_id :: string
  da_sign :: "string \<Rightarrow> string \<Rightarrow> string \<Rightarrow> string"
  da_quota_env :: "'f quota_env"
  da_show :: "response \<Rightarrow> string"
  da_quotas :: "'f queue_quotas"
  da_config :: queue_config
  da_io :: queue_io

definition dkim_refusal :: "'f data_env \<Rightarrow> string \<Rightarrow> session \<Rightarrow> string option" where
  "dkim_refusal d raw s =
     (let dkim = strategy_or_relaxed (da_env d) DkimVerify s; results = da_dkim d raw in
      if is_strict dkim \<and> DkimPass \<notin> set results then
        Some (line (if DkimTempError \<in> set results then ''451 4.7.20 No passing DKIM signatures found.''
          else ''550 5.7.20 No passing DKIM signatures found.''))
      else None)"

definition arc_refusal :: "'f data_env \<Rightarrow> string \<Rightarrow> session \<Rightarrow> string option" where
  "arc_refusal d raw s =
     (let r = da_arc d raw in
      if is_strict (strategy_or_relaxed (da_env d) ArcVerify s) \<and> r \<noteq> DkimPass \<and> r \<noteq> DkimNone then
        Some (line (if r = DkimTempError then ''451 4.7.29 ARC validation failed.''
          else ''550 5.7.29 ARC validation failed.''))
      else None)"

definition verifies_dmarc :: "'f data_env \<Rightarrow> session \<Rightarrow> bool" where
  "verifies_dmarc d s \<longleftrightarrow>
     sd_spf_mail_from s \<noteq> None \<and> verify (strategy_or_relaxed (da_env d) DmarcVerify s)"

definition dmarc_pass :: "'f data_env \<Rightarrow> string \<Rightarrow> session \<Rightarrow> bool" where
  "dmarc_pass d raw s \<longleftrightarrow> verifies_dmarc d s
     \<and> (dm_spf_result (da_dmarc d s raw) = DmarcPass \<or> dm_dkim_result (da_dmarc d s raw) = DmarcPass)"

definition dmarc_refusal :: "'f data_env \<Rightarrow> string \<Rightarrow> session \<Rightarrow> string option" where
  "dmarc_refusal d raw s =
     (let out = da_dmarc d s raw in
      if verifies_dmarc d s \<and> is_strict (strategy_or_relaxed (da_env d) DmarcVerify s)
         \<and> dm_policy_reject out \<and> \<not> dmarc_pass d raw s then
        Some (line (if dm_spf_result out = DmarcTempError \<or> dm_dkim_result out = DmarcTempError
          then ''451 4.7.1 Email temporarily rejected per DMARC policy.''
          else ''550 5.7.1 Email rejected per DMARC policy.''))
      else None)"

definition message_refusal :: "'f data_env \<Rightarrow> string \<Rightarrow> session \<Rightarrow> string option" where
  "message_refusal d raw s =
     (if \<not> da_parses d raw then Some (line ''550 5.7.7 Failed to parse message.'')
      else if size_or 50 (da_env d) DataMaxReceivedHeaders s < da_received_headers d raw then
        Some (line ''450 4.4.6 Too many Received headers. Possible loop detected.'')
      else case dkim_refusal d raw s of Some text \<Rightarrow> Some text | None \<Rightarrow> arc_refusal d raw s)"

section \<open>Changes of a message\<close>

definition strip_brackets :: "(string \<Rightarrow> string) \<Rightarrow> string \<Rightarrow> string" where
  "strip_brackets trim' addr =
     (case trim' addr of
        [] \<Rightarrow> []
      | c # a \<Rightarrow>
          (if c = CHR ''<'' then
             (case rsplit_once CHR ''>'' a of Some (b, _) \<Rightarrow> trim' b | None \<Rightarrow> trim' a)
           else c # a))"

definition milter_address :: "'f data_env \<Rightarrow> (string \<Rightarrow> (u64 \<times> string option) option) \<Rightarrow> string \<Rightarrow> string \<Rightarrow>
    session_address" where
  "milter_address d parse addr args =
     (let a = session_address_new (ie_lower (da_env d)) addr in
      if args = [] then a
      else case parse (args @ [LF]) of
             Some (flags, info) \<Rightarrow> a\<lparr>sa_flags := flags, sa_dsn_info := info\<rparr> | None \<Rightarrow> a)"

definition milter_envelope :: "'f data_env \<Rightarrow> modification \<Rightarrow> session \<Rightarrow> session" where
  "milter_envelope d m s =
     (case m of
        ChangeFrom sender args \<Rightarrow>
          s\<lparr>sd_mail_from := Some (milter_address d (da_mail_parameters d)
              (strip_brackets (ie_trim (da_env d)) sender) args)\<rparr>
      | AddRcpt rcpt args \<Rightarrow>
          (let addr = strip_brackets (ie_trim (da_env d)) rcpt;
               a = milter_address d (da_rcpt_parameters d) addr args
           in if CHR ''@'' \<in> set addr \<and> \<not> has_address (sd_rcpt_to s) a then push_rcpt a s else s)
      | DeleteRcpt rcpt \<Rightarrow>
          s\<lparr>sd_rcpt_to := filter (\<lambda>r. sa_address_lcase r \<noteq> strip_brackets (ie_trim (da_env d)) rcpt)
              (sd_rcpt_to s)\<rparr>
      | _ \<Rightarrow> s)"

definition apply_milter_modifications :: "'f data_env \<Rightarrow> modification list \<Rightarrow> string \<Rightarrow> session \<Rightarrow>
    session \<times> string option" where
  "apply_milter_modifications d mods raw s =
     (if mods = [] then (s, None) else (fold (milter_envelope d) mods s, da_edit d mods raw))"

definition data_filters :: "'f data_env \<Rightarrow> string \<Rightarrow> session \<Rightarrow> filter_response + modification list" where
  "data_filters d raw s =
     (case run_milters (da_milters d s raw) [] of
        Inl r \<Rightarrow> Inl r
      | Inr mods \<Rightarrow>
          (case run_mta_hooks (da_hooks d s raw) [] of
             Inl r \<Rightarrow> Inl r
           | Inr extra \<Rightarrow>
               Inr (if extra = [] then mods else filter (\<lambda>m. \<not> replaces_body m) mods @ extra)))"

definition script_headers :: "script_modification list \<Rightarrow> string" where
  "script_headers mods =
     concat (map (\<lambda>m. case m of AddHeader name v \<Rightarrow> name @ '': '' @ text_lines v | _ \<Rightarrow> []) mods)"

text \<open>The script of the data stage: a reply that ends it, or the headers and the message.\<close>

definition data_script :: "'f data_env \<Rightarrow> string \<Rightarrow> string \<Rightarrow> string option \<Rightarrow> session \<Rightarrow>
    session \<times> (string + string \<times> string option)" where
  "data_script d headers raw edited s =
     (case da_script d s headers raw of
        None \<Rightarrow> (s, Inr (headers, edited))
      | Some (ScriptAccept mods) \<Rightarrow>
          (modify_envelope (da_env d) mods s, Inr (headers @ script_headers mods, edited))
      | Some (ScriptReplace new mods) \<Rightarrow>
          (modify_envelope (da_env d) mods s, Inr (headers @ script_headers mods, Some new))
      | Some (ScriptReject text) \<Rightarrow> (s, Inl text)
      | Some ScriptDiscard \<Rightarrow> (s, Inl (line ''250 2.0.0 Message queued for delivery.'')))"

section \<open>The message that is queued\<close>

fun insert_address :: "session_address \<Rightarrow> session_address list \<Rightarrow> session_address list" where
  "insert_address a [] = [a]"
| "insert_address a (b # bs) = (if address_cmp b a = Less then b # insert_address a bs else a # b # bs)"

definition sort_addresses :: "session_address list \<Rightarrow> session_address list" where
  "sort_addresses as = foldr insert_address as []"

definition notify_defaults :: "notify_flags \<Rightarrow> u64 \<Rightarrow> u64" where
  "notify_defaults nf fl =
     (if has_bits fl (notify_delay nf OR notify_failure nf OR notify_success nf OR notify_never nf) then fl
      else fl OR notify_delay nf OR notify_failure nf)"

text \<open>When to notify and when to give up, for the \<open>BY\<close> parameter of the sender.\<close>

definition notify_and_expiry :: "server_flags \<Rightarrow> u64 \<Rightarrow> queue_strategy \<Rightarrow> u64 \<Rightarrow> i64 \<Rightarrow> u64 \<Rightarrow>
    schedule \<times> queue_expiry" where
  "notify_and_expiry f now st future by' flags =
     (let next = (case st_notify st of [] \<Rightarrow> 86400 | n # _ \<Rightarrow> n);
          intervals = max (length (st_notify st)) 1
      in if by' = 0 then
           (schedule_later now (future + next),
            case st_expiry st of Ttl t \<Rightarrow> Ttl (future + t) | Attempts n \<Rightarrow> Attempts n)
         else if has_bits flags (MAIL_BY_RETURN f) then (schedule_later now (future + next), Ttl by')
         else
           (let (notify, expires) =
                  (case st_expiry st of
                     Ttl t \<Rightarrow>
                       (if 0 < sint by' then (if by' < t then by' else next)
                        else if - by' < t then t - (- by') else next, Ttl t)
                   | Attempts _ \<Rightarrow> (next, Ttl (of_int \<bar>sint by'\<bar>)))
            in ((schedule_later now (future + notify))\<lparr>inner := of_nat (intervals - 1)\<rparr>, expires)))"

definition build_recipient :: "'f data_env \<Rightarrow> session \<Rightarrow> message \<Rightarrow> session_address \<Rightarrow> recipient" where
  "build_recipient d s m a =
     (let e = da_env d; now = ie_now e;
          r = with_orcpt (sa_dsn_info a) (with_flags (notify_defaults (ie_notify e) (sa_flags a))
                (recipient_new (ie_lower e) now (sa_address a)));
          st = strategy (da_config d) (m\<lparr>recipients := recipients m @ [r]\<rparr>) r;
          (notify, expires) =
            notify_and_expiry (ie_flags e) now st (sd_future_release s) (sd_delivery_by s) (msg_flags m)
      in r\<lparr>retry := (if sd_future_release s = 0 then schedule_now now
                     else schedule_later now (sd_future_release s)),
           notify := notify, expires := expires, queue := st_virtual_queue st\<rparr>)"

definition build_message :: "'f data_env \<Rightarrow> session \<Rightarrow> session_address \<Rightarrow> queue_id \<Rightarrow> message_wrapper" where
  "build_message d s sender i =
     (let e = da_env d;
          m = \<lparr>created = ie_now e, blob_hash = replicate 32 NUL,
            return_path = to_lowercase_domain (ie_lower e) (sa_address sender), recipients = [],
            received_from_ip = sd_remote_ip s, received_via_port = sd_local_port s,
            msg_flags = sa_flags sender, env_id = sa_dsn_info sender, priority = sd_priority s,
            msg_size = 0, quota_keys = []\<rparr>
      in \<lparr>queue_id = i, queue_name = DEFAULT_QUEUE_NAME, is_multi_queue = False,
          span_id = sd_session_id s,
          message = fold (\<lambda>a m. m\<lparr>recipients := recipients m @ [build_recipient d s m a]\<rparr>)
            (sort_addresses (sd_rcpt_to s)) m\<rparr>)"

definition final_headers :: "'f data_env \<Rightarrow> string \<Rightarrow> string \<Rightarrow> string \<Rightarrow> session \<Rightarrow> string" where
  "final_headers d raw path headers s =
     (let e = da_env d in
      headers
      @ (if flag_or True e DataAddReturnPath s then ''Return-Path: <'' @ path @ ''>'' @ CRLF else [])
      @ (if \<not> da_has_date d raw \<and> flag_or True e DataAddDate s then ''Date: '' @ da_date d @ CRLF else [])
      @ (if \<not> da_has_message_id d raw \<and> flag_or True e DataAddMessageId s
         then ''Message-ID: '' @ da_message_id d @ CRLF else []))"

definition sign_headers :: "'f data_env \<Rightarrow> string \<Rightarrow> string \<Rightarrow> session \<Rightarrow> string" where
  "sign_headers d headers raw s =
     (case ie_text (da_env d) DkimSign s of
        Some domain \<Rightarrow> da_sign d domain headers raw | None \<Rightarrow> headers)"

text \<open>Quotas, and the queue: the reply, and the session with the store.\<close>

definition queue_built :: "'f data_env \<Rightarrow> message_wrapper \<Rightarrow> string \<Rightarrow> string \<Rightarrow> message_source \<Rightarrow> session \<Rightarrow>
    session \<times> string" where
  "queue_built d w headers raw source s =
     (let w = w\<lparr>message := (message w)\<lparr>msg_size := of_nat (length raw + length headers)\<rparr>\<rparr> in
      case has_quota (da_quota_env d) \<lparr>rc_show = da_show d, rc_now = ie_now (da_env d)\<rparr> (da_quotas d)
             (st_counters (ss_store s)) w of
        Some w \<Rightarrow>
          (case queue_message (da_io d) (ie_now (da_env d)) (Some headers) raw source w (ss_store s) of
             (ok, st, _) \<Rightarrow>
               (let s = s\<lparr>ss_store := st\<rparr> in
                if ok then (s\<lparr>sd_messages_sent := sd_messages_sent s + 1\<rparr>,
                  line (''250 2.0.0 Message queued with id '' @ nat_to_hex (unat (queue_id w)) @ ''.''))
                else (s, line ''451 4.3.5 Unable to accept message at this time.'')))
      | None \<Rightarrow> (s, line ''452 4.3.1 Mail system full, try again later.''))"

text \<open>The filter for spam: a reply that ends it, or its headers, what to learn, and the flags.\<close>

definition mark_spam :: "bool list \<Rightarrow> session \<Rightarrow> session" where
  "mark_spam results s =
     s\<lparr>sd_rcpt_to := map2 (\<lambda>spam r. if spam then r\<lparr>sa_flags := sa_flags r OR RCPT_SPAM_PAYLOAD\<rparr> else r)
          results (take (length results) (sd_rcpt_to s)) @ drop (length results) (sd_rcpt_to s)\<rparr>"

definition spam_filter :: "'f data_env \<Rightarrow> string \<Rightarrow> session \<Rightarrow>
    session \<times> (string + string \<times> (bool \<times> string) option)" where
  "spam_filter d raw s =
     (if da_spam_enabled d \<and> flag_or True (da_env d) DataSpamFilter s \<and> \<not> is_authenticated s then
        (case da_spam_classify d s raw of
           SpamAllow headers train results \<Rightarrow> (mark_spam results s, Inr (headers, train))
         | SpamDiscard \<Rightarrow>
             (s\<lparr>sd_messages_sent := sd_messages_sent s + 1\<rparr>, Inl (line ''250 2.0.0 Message queued for delivery.''))
         | SpamReject \<Rightarrow>
             (s\<lparr>sd_messages_sent := sd_messages_sent s + 1\<rparr>,
              Inl (line ''550 5.7.1 Message rejected due to excessive spam score.''))
         | SpamDisabled \<Rightarrow> (s, Inr ([], None)))
      else (s, Inr ([], None)))"

definition finish_message :: "'f data_env \<Rightarrow> string \<Rightarrow> string \<Rightarrow> string option \<Rightarrow> queue_id \<Rightarrow> message_source \<Rightarrow>
    session_address \<Rightarrow> session \<Rightarrow> session \<times> string" where
  "finish_message d raw headers edited i source sender s =
     (let w = build_message d s sender i;
          s = s\<lparr>sd_rcpt_to := []\<rparr>;
          headers = final_headers d raw (return_path (message w)) headers s;
          text = (case edited of Some t \<Rightarrow> t | None \<Rightarrow> raw);
          headers = sign_headers d headers text s
      in queue_built d w headers text source s)"

text \<open>
  A message that passes the checks of its content: filters, the script, the queue. The sender is
  there.
\<close>

definition filter_message :: "'f data_env \<Rightarrow> string \<Rightarrow> string \<Rightarrow> queue_id \<Rightarrow> message_source \<Rightarrow> session \<Rightarrow>
    session \<times> string" where
  "filter_message d raw headers i source s =
     (case data_filters d raw s of
        Inl r \<Rightarrow> (s, fr_message r)
      | Inr mods \<Rightarrow>
          (case apply_milter_modifications d mods raw s of
             (s, edited) \<Rightarrow>
               (case data_script d headers raw edited s of
                  (s, Inl text) \<Rightarrow> (s, text)
                | (s, Inr (headers, edited)) \<Rightarrow>
                    finish_message d raw headers edited i source (the (sd_mail_from s)) s)))"

text \<open>The reply to a message; \<open>None\<close> is the panic of a message without a sender.\<close>

definition receive_message :: "'f data_env \<Rightarrow> session \<Rightarrow> session \<times> string option" where
  "receive_message d s =
     (let raw = sd_message s; s = s\<lparr>sd_message := []\<rparr> in
      case message_refusal d raw s of
        Some text \<Rightarrow> (s, Some text)
      | None \<Rightarrow>
          (if sd_mail_from s = None then (s, None)
           else
             (case dmarc_refusal d raw s of
                Some text \<Rightarrow> (s, Some text)
              | None \<Rightarrow>
                  (if \<not> is_authenticated s \<and> da_is_report d s \<and> \<not> da_forward_reports d then
                     (s\<lparr>sd_messages_sent := sd_messages_sent s + 1\<rparr>,
                      Some (line ''250 2.0.0 Message queued for delivery.''))
                   else
                     (let i = da_new_id d (ss_store s); dmarc = dmarc_pass d raw s;
                          headers = da_trace_headers d s i raw
                      in case spam_filter d raw s of
                           (s, Inl text) \<Rightarrow> (s, Some text)
                         | (s, Inr (extra, train)) \<Rightarrow>
                             (let source = (if is_authenticated s then Authenticated
                                else Unauthenticated dmarc train)
                              in case filter_message d raw (headers @ extra) i source s of
                                   (s, text) \<Rightarrow> (s, Some text)))))))"

definition can_send_data :: "inbound_env \<Rightarrow> session \<Rightarrow> session \<times> bool" where
  "can_send_data e s =
     (if sd_rcpt_to s = [] then (say (line ''503 5.5.1 RCPT is required first.'') s, False)
      else if sd_messages_sent s < size_or 10 e DataMaxMessages s then (s, True)
      else (say (line ''452 4.4.5 Maximum number of messages per session exceeded.'') s, False))"

end
