(* ===== verification/Smtp_Server.thy ===== *)
theory Smtp_Server
  imports Smtp_Data
begin

text \<open>
  An SMTP or LMTP session (\<^verbatim>\<open>crates/smtp/src/inbound/session.rs, spawn.rs\<close>): what each
  receiver does with what it has read, and the connection around them. The receivers are
  \<open>smtp_proto\<close>'s: an input is what the receiver of the current state returns.
\<close>

datatype request =
    CmdRcpt rcpt_to
  | CmdMail mail_from
  | CmdEhlo string
  | CmdHelo string
  | CmdLhlo string
  | CmdData
  | CmdBdat nat bool
  | CmdAuth u64 string
  | CmdNoop
  | CmdVrfy string
  | CmdExpn string
  | CmdStartTls
  | CmdRset
  | CmdQuit
  | CmdHelp
  | CmdNotImplemented

datatype protocol_error =
    UnknownCommand
  | InvalidSenderAddress
  | InvalidRecipientAddress
  | SyntaxError string
  | InvalidParameter string
  | UnsupportedParameter string
  | ResponseTooLong

text \<open>
  A request or an error of the parser; bytes of a message, and whether they end it; a line of a
  SASL exchange; bytes that are skipped, and whether they end what is skipped.
\<close>

datatype input =
    Request request
  | RequestError protocol_error
  | Chunk string bool
  | SaslLine string
  | Skipped bool

text \<open>What follows an input: the next, the end of the read, the upgrade, the end, or a panic.\<close>

datatype flow = GoOn | Wait | UpgradeTls | HangUp | Panic

definition on :: "session \<times> bool \<Rightarrow> session \<times> flow" where
  "on r = (fst r, if snd r then GoOn else HangUp)"

definition reply_to :: "string \<Rightarrow> session \<Rightarrow> session \<times> flow" where
  "reply_to text s = (say (line text) s, GoOn)"

section \<open>Requests\<close>

definition start_bdat :: "nat \<Rightarrow> bool \<Rightarrow> session \<Rightarrow> session" where
  "start_bdat chunk is_last s =
     s\<lparr>ss_state := (if (chunk + length (sd_message s)) mod 2 ^ 64 < max_message_size (ss_params s)
        then BdatReceiver chunk is_last else DataTooLarge)\<rparr>"

definition start_tls_server :: "session \<Rightarrow> session \<times> flow" where
  "start_tls_server s =
     (if ss_is_tls s then reply_to ''504 5.7.4 Already in TLS mode.'' s
      else if ss_acceptor_tls s then
        ((say (line ''220 2.0.0 Ready to start TLS.'') s)\<lparr>ss_state := RequestReceiver\<rparr>, UpgradeTls)
      else reply_to ''502 5.7.0 TLS not available.'' s)"

definition start_data :: "inbound_env \<Rightarrow> session \<Rightarrow> session \<times> flow" where
  "start_data e s =
     (case can_send_data e s of
        (s, True) \<Rightarrow>
          ((say (line ''354 Start mail input; end with <CRLF>.<CRLF>'') s)
             \<lparr>sd_message := [], ss_state := DataReceiver\<rparr>, GoOn)
      | (s, False) \<Rightarrow> (s, GoOn))"

definition handle_request :: "inbound_env \<Rightarrow> request \<Rightarrow> session \<Rightarrow> session \<times> flow" where
  "handle_request e r s =
     (case r of
        CmdRcpt rt \<Rightarrow> on (handle_rcpt_to e rt s)
      | CmdMail mf \<Rightarrow> on (handle_mail_from e mf s)
      | CmdEhlo host \<Rightarrow>
          (if ss_protocol s = SmtpProtocol then on (handle_ehlo e host True s)
           else reply_to ''500 5.5.1 Invalid command.'' s)
      | CmdHelo host \<Rightarrow>
          (if ss_protocol s = SmtpProtocol then on (handle_ehlo e host False s)
           else reply_to ''500 5.5.1 Invalid command: LHLO expected.'' s)
      | CmdLhlo host \<Rightarrow>
          (if ss_protocol s = LmtpProtocol then on (handle_ehlo e host True s)
           else reply_to ''502 5.5.1 Invalid command: EHLO expected.'' s)
      | CmdData \<Rightarrow> start_data e s
      | CmdBdat chunk is_last \<Rightarrow> (start_bdat chunk is_last s, GoOn)
      | CmdAuth mechanism initial \<Rightarrow> on (handle_auth e mechanism initial s)
      | CmdNoop \<Rightarrow> reply_to ''250 2.0.0 OK'' s
      | CmdVrfy value \<Rightarrow> on (handle_vrfy e value s)
      | CmdExpn value \<Rightarrow> on (handle_expn e value s)
      | CmdStartTls \<Rightarrow> start_tls_server s
      | CmdRset \<Rightarrow> reply_to ''250 2.0.0 OK'' (reset s)
      | CmdQuit \<Rightarrow> (say (line ''221 2.0.0 Bye.'') s, HangUp)
      | CmdHelp \<Rightarrow> reply_to ''250 2.0.0 Help can be found at https://stalw.art'' s
      | CmdNotImplemented \<Rightarrow> reply_to ''502 5.5.1 Command not implemented.'' s)"

text \<open>The parameters of the errors are as Rust's \<open>Debug\<close> prints them.\<close>

definition handle_request_error :: "inbound_env \<Rightarrow> protocol_error \<Rightarrow> session \<Rightarrow> session \<times> flow" where
  "handle_request_error e err s =
     (case err of
        UnknownCommand \<Rightarrow>
          (if \<not> is_authenticated s \<and> ie_is_fail2banned e = Some True then (s, HangUp)
           else reply_to ''500 5.5.1 Invalid command.'' s)
      | InvalidSenderAddress \<Rightarrow> reply_to (''501 5.1.8 Bad sender'' @ [CHR 0x27] @ ''s system address.'') s
      | InvalidRecipientAddress \<Rightarrow> reply_to ''501 5.1.3 Bad destination mailbox address syntax.'' s
      | SyntaxError expected \<Rightarrow>
          (if \<not> ehlo_reject_non_fqdn (ss_params s) \<and> take 5 expected = ''EHLO '' then
             on (handle_ehlo e ''null'' True s)
           else reply_to (''501 5.5.2 Syntax error, expected: '' @ expected) s)
      | InvalidParameter param \<Rightarrow> reply_to (''501 5.5.4 Invalid parameter '' @ param @ ''.'') s
      | UnsupportedParameter param \<Rightarrow> reply_to (''504 5.5.4 Unsupported parameter '' @ param @ ''.'') s
      | ResponseTooLong \<Rightarrow> (s\<lparr>ss_state := RequestTooLarge\<rparr>, GoOn))"

section \<open>Messages\<close>

definition num_responses :: "session \<Rightarrow> nat" where
  "num_responses s = (if ss_protocol s = SmtpProtocol then 1 else sd_rcpt_oks s)"

text \<open>A whole message: a reply for each recipient over LMTP, and the transaction is over.\<close>

definition end_message :: "'f data_env \<Rightarrow> session \<Rightarrow> session \<times> flow" where
  "end_message d s =
     (case receive_message d s of
        (s, None) \<Rightarrow> (s, Panic)
      | (s, Some text) \<Rightarrow>
          (if text = [] then (s, HangUp)
           else ((reset ((say text ^^ num_responses s) s))\<lparr>ss_state := RequestReceiver\<rparr>, GoOn)))"

definition add_bytes :: "string \<Rightarrow> session \<Rightarrow> session" where
  "add_bytes bytes s = s\<lparr>sd_message := sd_message s @ bytes\<rparr>"

definition end_chunk :: "'f data_env \<Rightarrow> bool \<Rightarrow> session \<Rightarrow> session \<times> flow" where
  "end_chunk d is_last s =
     (case can_send_data (da_env d) s of
        (s, True) \<Rightarrow>
          (if is_last then end_message d s
           else ((say (line ''250 2.6.0 Chunk accepted.'') s)\<lparr>ss_state := RequestReceiver\<rparr>, GoOn))
      | (s, False) \<Rightarrow> (s\<lparr>sd_message := [], ss_state := RequestReceiver\<rparr>, GoOn))"

definition end_skipped :: "session \<Rightarrow> session \<times> flow" where
  "end_skipped s =
     ((say (line ''552 5.3.4 Message too big for system.'') s)
        \<lparr>sd_message := [], ss_state := RequestReceiver\<rparr>, GoOn)"

definition handle_sasl_line :: "'f data_env \<Rightarrow> nat \<Rightarrow> sasl_token \<Rightarrow> string \<Rightarrow> session \<Rightarrow> session \<times> flow" where
  "handle_sasl_line d max_line tok text s =
     on (sasl_state
       (if length text < max_line then handle_sasl_response (da_env d) tok text s
        else over tok (auth_error (line ''500 5.5.6 Authentication Exchange line is too long.'') s)))"

section \<open>Inputs\<close>

text \<open>The receiver of a read of \<open>n\<close> bytes: a message is given up when the read may exceed its size.\<close>

definition data_receiver :: "nat \<Rightarrow> session \<Rightarrow> receiver" where
  "data_receiver n s =
     (if ss_state s = DataReceiver \<and> max_message_size (ss_params s) \<le> length (sd_message s) + n
      then DataTooLarge else ss_state s)"

text \<open>\<open>None\<close>: the receiver does not return such an input.\<close>

definition step :: "'f data_env \<Rightarrow> nat \<Rightarrow> nat \<Rightarrow> input \<Rightarrow> session \<Rightarrow> (session \<times> flow) option" where
  "step d max_line n inp s =
     (let s = s\<lparr>ss_state := data_receiver n s\<rparr> in
      case (ss_state s, inp) of
        (RequestReceiver, Request r) \<Rightarrow> Some (handle_request (da_env d) r s)
      | (RequestReceiver, RequestError err) \<Rightarrow> Some (handle_request_error (da_env d) err s)
      | (DataReceiver, Chunk bytes fin) \<Rightarrow>
          Some (if fin then end_message d (add_bytes bytes s) else (add_bytes bytes s, Wait))
      | (BdatReceiver chunk is_last, Chunk bytes fin) \<Rightarrow>
          Some (if fin then end_chunk d is_last (add_bytes bytes s) else (add_bytes bytes s, Wait))
      | (SaslReceiver tok, SaslLine text) \<Rightarrow> Some (handle_sasl_line d max_line tok text s)
      | (DataTooLarge, Skipped fin) \<Rightarrow> Some (if fin then end_skipped s else (s, Wait))
      | (RequestTooLarge, Skipped fin) \<Rightarrow>
          Some (if fin then (let (s, f) = reply_to ''554 5.3.4 Line is too long.'' s
            in (s\<lparr>ss_state := RequestReceiver\<rparr>, f)) else (s, Wait))
      | _ \<Rightarrow> None)"

text \<open>A read: its inputs in order, each with the server as it is then.\<close>

fun ingest :: "nat \<Rightarrow> nat \<Rightarrow> ('f data_env \<times> input) list \<Rightarrow> session \<Rightarrow> (session \<times> flow) option" where
  "ingest max_line n [] s = Some (s, GoOn)"
| "ingest max_line n ((d, inp) # inputs) s =
     (case step d max_line n inp s of
        Some (s, GoOn) \<Rightarrow> ingest max_line n inputs s
      | Some (s, Wait) \<Rightarrow> (if inputs = [] then Some (s, GoOn) else None)
      | r \<Rightarrow> r)"

section \<open>Connections\<close>

datatype 'f conn_event =
    ConnRead nat bool "('f data_env \<times> input) list"
  | ConnClosed
  | ConnIdle
  | ConnShutdown

text \<open>\<open>ConnRead n in_time inputs\<close>: \<open>n\<close> bytes, read before the session's time is up.\<close>

definition conn_step :: "nat \<Rightarrow> 'f conn_event \<Rightarrow> session \<Rightarrow> (session \<times> flow) option" where
  "conn_step max_line ev s =
     (case ev of
        ConnRead n in_time inputs \<Rightarrow>
          (if in_time \<and> n \<le> sd_bytes_left s then
             ingest max_line n inputs (s\<lparr>sd_bytes_left := sd_bytes_left s - n\<rparr>)
           else if sd_bytes_left s < n then
             Some (say (line (''452 4.7.28 '' @ ss_hostname s @ '' Session exceeded transfer quota.'')) s, HangUp)
           else
             Some (say (line (''421 4.3.2 '' @ ss_hostname s @ '' Session open for too long.'')) s, HangUp))
      | ConnClosed \<Rightarrow> Some (s, HangUp)
      | ConnIdle \<Rightarrow>
          Some (say (line (''221 2.0.0 '' @ ss_hostname s @ '' Disconnecting inactive client.'')) s, HangUp)
      | ConnShutdown \<Rightarrow>
          Some (say (line (''421 4.3.0 '' @ ss_hostname s @ '' Server shutting down.'')) s, HangUp))"

definition into_tls :: "session \<Rightarrow> session" where
  "into_tls s = s\<lparr>ss_is_tls := True\<rparr>"

text \<open>A new session, and the greeting.\<close>

definition session_new :: "u64 \<Rightarrow> ip_addr \<Rightarrow> u16 \<Rightarrow> server_protocol \<Rightarrow> bool \<Rightarrow> bool \<Rightarrow> queue_store \<Rightarrow> session" where
  "session_new i ip port proto is_tls acceptor_tls st =
     \<lparr>sd_session_id = i, sd_remote_ip = ip, sd_local_port = port, sd_helo_domain = [], sd_mail_from = None,
      sd_rcpt_to = [], sd_rcpt_errors = 0, sd_rcpt_oks = 0, sd_message = [], sd_authenticated_as = None,
      sd_auth_errors = 0, sd_priority = 0, sd_delivery_by = 0, sd_future_release = 0, sd_bytes_left = 0,
      sd_messages_sent = 0, sd_iprev = None, sd_spf_ehlo = None, sd_spf_mail_from = None,
      ss_hostname = [], ss_protocol = proto, ss_is_tls = is_tls, ss_acceptor_tls = acceptor_tls,
      ss_state = RequestReceiver,
      ss_params = \<lparr>ehlo_require = False, ehlo_reject_non_fqdn = False, auth_require = False,
        auth_errors_max = 0, rcpt_errors_max = 0, rcpt_max = 0, rcpt_dsn = False, can_expn = False,
        can_vrfy = False, max_message_size = 0, iprev_strategy = Relaxed, spf_ehlo_strategy = Relaxed,
        spf_mail_from_strategy = Relaxed\<rparr>,
      ss_replies = [], ss_store = st\<rparr>"

definition init_conn :: "inbound_env \<Rightarrow> session \<Rightarrow> session \<times> bool" where
  "init_conn e s =
     (case then_check (script_check e StageConnect (eval_session_params e s)) (filter_check e StageConnect) of
        (s, Some text) \<Rightarrow> (say text s, False)
      | (s, None) \<Rightarrow>
          (let host = (case ie_text e ConnectHostname s of Some h \<Rightarrow> h | None \<Rightarrow> []);
               s = s\<lparr>ss_hostname := (if host = [] then ''localhost'' else host)\<rparr>;
               greeting = (case ie_text e ConnectGreeting s of
                 Some g \<Rightarrow> if g = [] then ''220 Stalwart ESMTP at your service.'' else ''220 '' @ g
               | None \<Rightarrow> ''220 Stalwart ESMTP at your service.'')
           in answer greeting s))"

text \<open>A connection is throttled first; then its events come in order, over TLS after an upgrade.\<close>

definition accept_conn :: "inbound_env \<Rightarrow> session \<Rightarrow> session \<times> bool" where
  "accept_conn e s = (if is_allowed e s then init_conn e s else (s, False))"

fun run_conn :: "nat \<Rightarrow> 'f conn_event list \<Rightarrow> session \<Rightarrow> (session \<times> flow) option" where
  "run_conn max_line [] s = Some (s, GoOn)"
| "run_conn max_line (ev # evs) s =
     (case conn_step max_line ev s of
        Some (s, GoOn) \<Rightarrow> run_conn max_line evs s
      | Some (s, UpgradeTls) \<Rightarrow> run_conn max_line evs (into_tls s)
      | r \<Rightarrow> r)"

end
