(* ===== verification/Smtp_Frame.thy ===== *)
theory Smtp_Frame
  imports Smtp_Server Queue_Consistency
begin

text \<open>
  What the handlers of an SMTP session leave alone: the store, the domain, the account, the state
  and the replies of a session over the checks of MAIL and RCPT.
\<close>

section \<open>What a handler leaves alone\<close>

definition fixed :: "session_parameters \<Rightarrow> bool \<times> bool \<times> bool \<times> bool \<times> nat" where
  "fixed p = (ehlo_require p, auth_require p, verify (spf_ehlo_strategy p), verify (spf_mail_from_strategy p),
     auth_errors_max p)"

definition core :: "session \<Rightarrow> queue_store \<times> string \<times> account option \<times> nat \<times> (bool \<times> bool \<times> bool \<times> bool \<times> nat)
    \<times> server_protocol" where
  "core s = (ss_store s, sd_helo_domain s, sd_authenticated_as s, sd_auth_errors s, fixed (ss_params s), ss_protocol s)"

definition quiet_step :: "session \<Rightarrow> session \<Rightarrow> bool" where
  "quiet_step s s' \<longleftrightarrow> core s' = core s \<and> ss_state s' = ss_state s \<and> ss_replies s' = ss_replies s"

lemma quiet_refl [simp, intro]: "quiet_step s s"
  by (simp add: quiet_step_def)

lemma quiet_trans [trans]: "quiet_step a b \<Longrightarrow> quiet_step b c \<Longrightarrow> quiet_step a c"
  by (simp add: quiet_step_def)

lemma quiet_updates [simp]:
  "quiet_step s (s\<lparr>sd_mail_from := a\<rparr>)" "quiet_step s (s\<lparr>sd_rcpt_to := b\<rparr>)" "quiet_step s (s\<lparr>sd_rcpt_oks := c\<rparr>)"
  "quiet_step s (s\<lparr>sd_rcpt_errors := c\<rparr>)" "quiet_step s (s\<lparr>sd_delivery_by := d\<rparr>)" "quiet_step s (s\<lparr>sd_priority := i\<rparr>)"
  "quiet_step s (s\<lparr>sd_future_release := f\<rparr>)" "quiet_step s (s\<lparr>sd_iprev := g\<rparr>)" "quiet_step s (s\<lparr>sd_message := m\<rparr>)"
  "quiet_step s (s\<lparr>sd_spf_mail_from := h\<rparr>)" "quiet_step s (s\<lparr>sd_messages_sent := c\<rparr>)"
  "quiet_step s (pop_rcpt s)" "quiet_step s (push_rcpt r s)" "quiet_step s (count_ok s)" "quiet_step s (reset s)"
  "quiet_step s (map_mail_from u s)" "quiet_step s (map_last_rcpt u s)" "quiet_step s (eval_rcpt_params e s)"
  "quiet_step s (mail_iprev e s)"
  by (simp_all add: quiet_step_def core_def fixed_def pop_rcpt_def push_rcpt_def count_ok_def reset_def
      map_mail_from_def map_last_rcpt_def eval_rcpt_params_def mail_iprev_def)

lemma quiet_envelope [simp]: "quiet_step s (apply_envelope_modification lower tr f nf ev v s)"
  by (cases ev) (simp_all add: apply_envelope_modification_def)

lemma quiet_fold: "(\<And>x s. quiet_step s (f x s)) \<Longrightarrow> quiet_step s (fold f xs s)"
  by (induction xs arbitrary: s) (auto intro: quiet_trans)

lemma quiet_modify [simp]: "quiet_step s (modify_envelope e mods s)"
  unfolding modify_envelope_def by (rule quiet_fold) (simp split: script_modification.split)

text \<open>Whether there is a sender.\<close>

definition has_sender :: "session \<Rightarrow> bool" where
  "has_sender s \<longleftrightarrow> sd_mail_from s \<noteq> None"

lemma has_sender_simps [simp]:
  "has_sender (pop_rcpt s) = has_sender s" "has_sender (push_rcpt r s) = has_sender s"
  "has_sender (count_ok s) = has_sender s" "has_sender (map_mail_from u s) = has_sender s"
  "has_sender (map_last_rcpt u s) = has_sender s" "has_sender (say t s) = has_sender s"
  "has_sender (s\<lparr>sd_mail_from := Some a\<rparr>)" "\<not> has_sender (s\<lparr>sd_mail_from := None\<rparr>)" "\<not> has_sender (reset s)"
  "has_sender (eval_rcpt_params e s) = has_sender s" "has_sender (mail_iprev e s) = has_sender s"
  "has_sender (s\<lparr>sd_rcpt_errors := c\<rparr>) = has_sender s"
  by (simp_all add: has_sender_def pop_rcpt_def push_rcpt_def count_ok_def map_mail_from_def
      map_last_rcpt_def say_def reset_def eval_rcpt_params_def mail_iprev_def)

lemma has_sender_envelope: "has_sender s \<Longrightarrow> has_sender (apply_envelope_modification lower tr f nf ev v s)"
  by (cases ev) (auto simp: apply_envelope_modification_def)

lemma has_sender_modify: "has_sender s \<Longrightarrow> has_sender (modify_envelope e mods s)"
  unfolding modify_envelope_def
  by (induction mods arbitrary: s) (auto simp: has_sender_envelope split: script_modification.split)

text \<open>A check is quiet, and keeps the sender.\<close>

definition kept :: "session \<Rightarrow> session \<Rightarrow> bool" where
  "kept s s' \<longleftrightarrow> quiet_step s s' \<and> (has_sender s \<longrightarrow> has_sender s')"

lemma kept_refl [simp, intro]: "kept s s"
  by (simp add: kept_def)

lemma kept_trans: "kept a b \<Longrightarrow> kept b c \<Longrightarrow> kept a c"
  by (auto simp: kept_def intro: quiet_trans)

definition gentle :: "check \<Rightarrow> bool" where
  "gentle f \<longleftrightarrow> (\<forall>s. kept s (fst (f s)))"

lemma gentle_then: "gentle f \<Longrightarrow> kept s (fst r) \<Longrightarrow> kept s (fst (then_check r f))"
  by (cases r) (auto simp: then_check_def gentle_def split: option.splits intro: kept_trans)

lemma gentle_run: "list_all gentle fs \<Longrightarrow> gentle (run_checks fs)"
proof -
  assume fs: "list_all gentle fs"
  have "kept s (fst (fold (\<lambda>f r. then_check r f) fs r))" if "kept s (fst r)" for s r
    using fs that by (induction fs arbitrary: r) (simp_all add: gentle_then)
  then show ?thesis by (simp add: gentle_def run_checks_def)
qed

lemma gentle_simps:
  "gentle (\<lambda>s. require (b s) (t s) s)" "gentle (filter_check e stage)" "gentle (script_check e stage)"
  "gentle (script_step e stage)" "gentle (mail_rewrite e)" "gentle (size_check e mf)"
  by (simp_all add: gentle_def kept_def require_def filter_check_def script_check_def script_step_def
      mail_rewrite_def size_check_def has_sender_modify split: option.split script_result.split)

lemma has_sender_updates [simp]:
  "has_sender (s\<lparr>sd_delivery_by := d\<rparr>) = has_sender s" "has_sender (s\<lparr>sd_priority := i\<rparr>) = has_sender s"
  "has_sender (s\<lparr>sd_future_release := f\<rparr>) = has_sender s" "has_sender (s\<lparr>sd_spf_mail_from := h\<rparr>) = has_sender s"
  by (simp_all add: has_sender_def)

lemma gentle_deliver_by: "gentle (deliver_by_check e mf)"
  by (simp add: gentle_def kept_def deliver_by_check_def Let_def split: option.split)

lemma gentle_priority: "gentle (priority_check e mf)"
  by (simp add: gentle_def kept_def priority_check_def)

lemma gentle_hold: "gentle (hold_check e mf)"
  by (simp add: gentle_def kept_def hold_check_def Let_def split: option.split)

lemma gentle_spf: "gentle (spf_mail_check e)"
  by (simp add: gentle_def kept_def spf_mail_check_def split: option.split)

lemma gentle_mail_checks: "gentle (run_checks (mail_checks e mf))"
  by (rule gentle_run)
    (simp add: mail_checks_def gentle_simps gentle_deliver_by gentle_priority gentle_hold gentle_spf)

section \<open>MAIL, RCPT, EHLO\<close>

text \<open>One line is written, and nothing else but the transaction changes.\<close>

definition says_one :: "session \<Rightarrow> session \<Rightarrow> bool" where
  "says_one s s' \<longleftrightarrow> (\<exists>t. quiet_step (say t s) s')"

lemma core_say [simp]: "core (say t s) = core s"
  by (simp add: core_def say_def)

lemma says_one_say [intro]: "quiet_step s s' \<Longrightarrow> says_one s (say t s')"
  by (auto simp: says_one_def quiet_step_def say_def core_def)

lemma says_one_quiet: "quiet_step a b \<Longrightarrow> says_one b c \<Longrightarrow> says_one a c"
  by (auto simp: says_one_def quiet_step_def say_def core_def)

lemma says_one_answer: "quiet_step s s' \<Longrightarrow> says_one s (fst (answer t s'))"
  by (auto simp: answer_def)

lemma mail_from_cases:
  obtains (sequence) t where "handle_mail_from e mf s = (say t s, True)"
    | (iprev) t where "handle_mail_from e mf s = (say t (mail_iprev e s), True)"
    | (refused) t s1 where "quiet_step s s1" and "handle_mail_from e mf s = (say t (s1\<lparr>sd_mail_from := None\<rparr>), True)"
    | (accepted) s1 where "mail_sequence s = None" and "quiet_step s s1" and "has_sender s1"
      and "handle_mail_from e mf s = answer ''250 2.1.0 OK'' (eval_rcpt_params e s1)"
proof (cases "mail_sequence s")
  case (Some t)
  then show ?thesis using sequence [of t] by (simp add: handle_mail_from_def)
next
  case None
  let ?s = "mail_iprev e s"
  show ?thesis
  proof (cases "iprev_refusal ?s")
    case (Some t)
    then show ?thesis using None iprev [of t] by (simp add: handle_mail_from_def)
  next
    case no_iprev: None
    let ?b = "?s\<lparr>sd_mail_from := Some (mail_sender e mf)\<rparr>"
    obtain s1 r where r: "run_checks (mail_checks e mf) ?b = (s1, r)" by fastforce
    from gentle_mail_checks [of e mf] have "kept ?b s1" unfolding gentle_def using r by (metis fst_conv)
    then have q: "quiet_step s s1" "has_sender s1"
      by (auto simp: kept_def intro: quiet_trans [OF quiet_trans [OF quiet_updates(19) quiet_updates(1)]])
    show ?thesis
    proof (cases r)
      case None
      with accepted q r no_iprev \<open>mail_sequence s = None\<close> show ?thesis by (simp add: handle_mail_from_def)
    next
      case (Some t)
      with refused q r no_iprev \<open>mail_sequence s = None\<close> show ?thesis by (simp add: handle_mail_from_def)
    qed
  qed
qed

lemma mail_from_effect:
  assumes "handle_mail_from e mf s = (s', b)"
  shows "b \<and> says_one s s' \<and> (has_sender s' \<longrightarrow> has_sender s \<or> mail_sequence s = None)"
proof (cases rule: mail_from_cases [of e mf s])
  case (sequence t)
  with assms show ?thesis by auto
next
  case (iprev t)
  with assms show ?thesis by auto
next
  case (refused t s1)
  with assms show ?thesis by (auto intro!: says_one_say quiet_trans [OF refused(1)])
next
  case (accepted s1)
  with assms show ?thesis
    by (auto simp: answer_def intro!: says_one_say quiet_trans [OF accepted(2)])
qed

lemma rcpt_filters_kept: "rcpt_filters e s = (s', r) \<Longrightarrow> kept s s'"
proof -
  assume r: "rcpt_filters e s = (s', r)"
  have k: "kept s (fst (then_check (script_step e StageRcpt s) (filter_check e StageRcpt)))"
    by (rule gentle_then [OF gentle_simps(2)]) (metis gentle_def gentle_simps(4))
  with r show ?thesis
    by (auto simp: rcpt_filters_def Let_def kept_def split: if_splits prod.splits option.splits
        intro: quiet_trans)
qed

lemma verify_rcpt_kept: "verify_rcpt e s = (s', r) \<Longrightarrow> kept s s'"
  by (auto simp: verify_rcpt_def rewrite_rcpt_def Let_def kept_def split: option.splits resolution.splits if_splits
      prod.splits intro: quiet_trans [OF quiet_updates(12) quiet_updates(13)])

lemma add_member_kept: "kept s (add_member e l m s)"
  by (simp add: add_member_def Let_def kept_def)

lemma expand_kept: "kept s (expand_rcpt e ms s)"
proof -
  have "kept s (fold (add_member e l) xs s)" for s xs l
    by (induction xs arbitrary: s) (auto intro: kept_trans [OF add_member_kept])
  moreover have "kept s (pop_rcpt s)" by (simp add: kept_def)
  ultimately show ?thesis unfolding expand_rcpt_def by (auto split: option.split intro: kept_trans)
qed

lemma check_rcpt_kept: "check_rcpt e s = (s', r) \<Longrightarrow> kept s s'"
  by (auto simp: check_rcpt_def split: prod.splits option.splits sum.splits
      dest!: rcpt_filters_kept verify_rcpt_kept intro: kept_trans)
    (metis expand_kept has_sender_simps(3) kept_def kept_trans quiet_updates(14))+

end
