(* ===== verification/Smtp_Handlers.thy ===== *)
theory Smtp_Handlers
  imports Smtp_Frame Queue_Admission
begin

text \<open>
  What RCPT, EHLO and AUTH change in an SMTP session, and what they write.
\<close>

section \<open>RCPT\<close>

lemma no_sender_sequence: "\<not> has_sender s \<Longrightarrow> rcpt_sequence e rt s \<noteq> None"
  by (simp add: rcpt_sequence_def has_sender_def Let_def)

lemma rcpt_to_effect:
  assumes "handle_rcpt_to e rt s = (s', b)"
  shows "(b \<longrightarrow> says_one s s') \<and> core s' = core s \<and> ss_state s' = ss_state s \<and> (has_sender s' \<longrightarrow> has_sender s)"
proof (cases "rcpt_sequence e rt s")
  case (Some t)
  with assms show ?thesis by (auto simp: handle_rcpt_to_def says_one_def say_def core_def has_sender_def)
next
  case None
  with no_sender_sequence have sender: "has_sender s" by blast
  show ?thesis
  proof (cases "has_address (sd_rcpt_to s) (rcpt_address e rt)")
    case True
    have "quiet_step s (count_ok s)" by simp
    with True assms None sender show ?thesis
      by (auto simp: handle_rcpt_to_def answer_def quiet_step_def says_one_def say_def core_def)
  next
    case False
    obtain s1 r where c: "check_rcpt e (push_rcpt (rcpt_address e rt) s) = (s1, r)" by fastforce
    have q: "quiet_step s s1"
      using check_rcpt_kept [OF c] by (auto simp: kept_def intro: quiet_trans [OF quiet_updates(13)])
    show ?thesis
    proof (cases r)
      case None
      with assms c False \<open>rcpt_sequence e rt s = None\<close> q sender show ?thesis
        by (auto simp: handle_rcpt_to_def answer_def quiet_step_def says_one_def say_def core_def)
    next
      case (Some x)
      with assms c False None q sender show ?thesis
        by (cases x) (auto simp: handle_rcpt_to_def refuse_rcpt_def rcpt_error_def answer_def pop_rcpt_def
          count_ok_def quiet_step_def says_one_def say_def core_def Let_def split: if_splits)
    qed
  qed
qed

section \<open>EHLO\<close>

lemma spf_ehlo_frame: "spf_ehlo_check e s = (s', r) \<Longrightarrow> quiet_step s s'"
  by (auto simp: spf_ehlo_check_def quiet_step_def core_def split: if_splits option.splits)

lemma ehlo_domain_frame:
  assumes "ehlo_domain e dn s = (s', b)"
  shows "if b then quiet_step s (s'\<lparr>sd_helo_domain := sd_helo_domain s\<rparr>)
       else says_one s s' \<and> (has_sender s' \<longrightarrow> has_sender s)"
proof -
  let ?s = "s\<lparr>sd_helo_domain := dn\<rparr>"
  obtain s1 r1 where 1: "spf_ehlo_check e ?s = (s1, r1)" by fastforce
  have q1: "quiet_step ?s s1" by (rule spf_ehlo_frame [OF 1])
  have 2: "then_check (script_check e StageEhlo s1) (filter_check e StageEhlo) = (s1,
      snd (then_check (script_check e StageEhlo s1) (filter_check e StageEhlo)))"
    by (simp add: then_check_def script_check_def filter_check_def split: option.split)
  obtain r2 where 3: "then_check (script_check e StageEhlo s1) (filter_check e StageEhlo) = (s1, r2)"
    using 2 by blast
  show ?thesis
    using assms 1 3 q1
    by (cases r1; cases r2)
      (auto simp: ehlo_domain_def says_one_def say_def quiet_step_def core_def has_sender_def Let_def split: if_splits)
qed

lemma ehlo_effect:
  assumes "handle_ehlo e dn ext s = (s', b)"
  shows "b \<and> ss_state s' = ss_state s \<and> core (s'\<lparr>sd_helo_domain := sd_helo_domain s\<rparr>) = core s
    \<and> (\<exists>t. ss_replies s' = ss_replies s @ [t])
    \<and> (has_sender s' \<longrightarrow> has_sender s \<and> sd_helo_domain s' = sd_helo_domain s)"
proof -
  obtain s1 b1 where d: "ehlo_domain e dn s = (s1, b1)" by fastforce
  note f = ehlo_domain_frame [OF d]
  show ?thesis
  proof (cases b1)
    case True
    with f have "ss_state s1 = ss_state s" "core (s1\<lparr>sd_helo_domain := sd_helo_domain s\<rparr>) = core s"
      "ss_replies s1 = ss_replies s" by (auto simp: quiet_step_def core_def)
    with True assms d show ?thesis
      by (auto simp: handle_ehlo_def reset_def answer_def say_def core_def has_sender_def Let_def split: if_splits)
  next
    case False
    with f assms d show ?thesis
      by (auto simp: handle_ehlo_def says_one_def quiet_step_def say_def core_def)
  qed
qed

section \<open>AUTH\<close>

definition auth_step :: "session \<Rightarrow> session \<Rightarrow> bool" where
  "auth_step s s' \<longleftrightarrow>
     core (s'\<lparr>sd_authenticated_as := sd_authenticated_as s, sd_auth_errors := sd_auth_errors s\<rparr>) = core s
     \<and> sd_mail_from s' = sd_mail_from s \<and> sd_rcpt_to s' = sd_rcpt_to s \<and> ss_state s' = ss_state s
     \<and> (is_authenticated s \<longrightarrow> is_authenticated s')"

text \<open>The failed attempts of a session that goes on.\<close>

definition few_errors :: "session \<Rightarrow> bool" where
  "few_errors s \<longleftrightarrow> sd_auth_errors s = 0 \<or> sd_auth_errors s < auth_errors_max (ss_params s)"

definition one_reply :: "session \<Rightarrow> session \<Rightarrow> bool" where
  "one_reply s s' \<longleftrightarrow> (\<exists>t. ss_replies s' = ss_replies s @ [t])"

definition exchange :: "session \<Rightarrow> session \<Rightarrow> bool option \<Rightarrow> bool" where
  "exchange s s' b \<longleftrightarrow> auth_step s s' \<and> (b \<noteq> None \<longrightarrow> one_reply s s' \<and> (few_errors s \<longrightarrow> few_errors s'))"

lemma exchange_say: "exchange s (say t s) b"
  by (simp add: exchange_def auth_step_def one_reply_def say_def core_def is_authenticated_def few_errors_def)

lemma exchange_error: "auth_error t s = (s', b) \<Longrightarrow> exchange s s' b"
  by (auto simp: auth_error_def exchange_def auth_step_def one_reply_def say_def core_def is_authenticated_def
      few_errors_def Let_def split: if_splits)

lemma exchange_authenticate: "session_authenticate e c s = (s', b) \<Longrightarrow> exchange s s' b"
  by (cases "ie_authenticate e c")
    (auto simp: session_authenticate_def exchange_say dest!: exchange_error,
     auto simp: exchange_def auth_step_def one_reply_def say_def core_def is_authenticated_def few_errors_def
      eval_post_auth_params_def fixed_def)

lemma exchange_over: "over tok r = (s', tok', b) \<Longrightarrow> r = (s', b)"
  by (cases r) (simp add: over_def)

lemma exchange_invalid: "invalid_challenge tok s = (s', tok', b) \<Longrightarrow> exchange s s' b"
  unfolding invalid_challenge_def by (drule exchange_over) (rule exchange_error)

lemma exchange_challenge: "challenge t tok s = (s', tok', b) \<Longrightarrow> exchange s s' b"
  by (auto simp: challenge_def exchange_say)

lemma exchange_decoded: "decoded e c tok s = (s', tok', b) \<Longrightarrow> exchange s s' b"
  by (auto simp: decoded_def split: option.splits dest: exchange_invalid exchange_over exchange_authenticate)

lemma exchange_login: "login_response e t tok s = (s', tok', b) \<Longrightarrow> exchange s s' b"
  by (auto simp: login_response_def split: credentials.splits if_splits
      dest: exchange_invalid exchange_challenge exchange_over exchange_authenticate)

lemma exchange_response: "handle_sasl_response e tok r s = (s', tok', b) \<Longrightarrow> exchange s s' b"
  by (auto simp: handle_sasl_response_def Let_def split: if_splits option.splits
      dest: exchange_invalid exchange_challenge exchange_decoded exchange_login)

lemma sasl_state_effect:
  assumes "exchange s (fst r) (snd (snd r))" and "sasl_state r = (s', b)"
  shows "auth_step s (s'\<lparr>ss_state := ss_state s\<rparr>) \<and> (ss_state s' = DataReceiver \<longrightarrow> ss_state s = DataReceiver)
    \<and> (b \<longrightarrow> one_reply s s' \<and> (few_errors s \<longrightarrow> few_errors s'))"
  using assms
  by (auto simp: sasl_state_def exchange_def auth_step_def one_reply_def few_errors_def core_def is_authenticated_def
      split: prod.splits option.splits bool.splits)

lemma auth_effect:
  assumes "handle_auth e m i s = (s', b)"
  shows "auth_step s (s'\<lparr>ss_state := ss_state s\<rparr>) \<and> (ss_state s' = DataReceiver \<longrightarrow> ss_state s = DataReceiver)
    \<and> (b \<longrightarrow> one_reply s s' \<and> (few_errors s \<longrightarrow> few_errors s'))"
proof -
  have say: "auth_step s ((say t s)\<lparr>ss_state := ss_state s\<rparr>) \<and> one_reply s (say t s)
    \<and> (few_errors s \<longrightarrow> few_errors (say t s)) \<and> ss_state (say t s) = ss_state s" for t
    by (simp add: auth_step_def one_reply_def few_errors_def say_def core_def is_authenticated_def)
  obtain x where x: "(case ie_number e AuthMechanisms s of Some n \<Rightarrow> n | None \<Rightarrow> 0) = x" by simp
  show ?thesis
  proof (cases "x = 0 \<or> is_authenticated s \<or> from_mechanism (ie_flags e) (m AND x) = None")
    case True
    with assms x say show ?thesis
      by (auto simp: handle_auth_def Let_def answer_def split: if_splits option.splits)
  next
    case False
    then obtain tok where "from_mechanism (ie_flags e) (m AND x) = Some tok" by blast
    with False assms x have "sasl_state (handle_sasl_response e tok i s) = (s', b)"
      by (simp add: handle_auth_def Let_def)
    moreover have "exchange s (fst (handle_sasl_response e tok i s)) (snd (snd (handle_sasl_response e tok i s)))"
      by (rule exchange_response [of e tok i s _ "fst (snd (handle_sasl_response e tok i s))"]) simp
    ultimately show ?thesis by (intro sasl_state_effect)
  qed
qed

end
