(* ===== verification/Smtp_Receive.thy ===== *)
theory Smtp_Receive
  imports Smtp_Handlers
begin

text \<open>
  What the handling of a received message puts into the queue, and when it panics.
\<close>

section \<open>Messages\<close>

lemma quiet_mark_spam: "quiet_step s (mark_spam results s)"
  by (simp add: mark_spam_def)

lemma quiet_milter: "quiet_step s (milter_envelope d m s)"
  by (cases m) (simp_all add: milter_envelope_def Let_def)

lemma milter_frame: "apply_milter_modifications d mods raw s = (s', t) \<Longrightarrow> quiet_step s s'"
  by (auto simp: apply_milter_modifications_def quiet_milter split: if_splits intro: quiet_fold)

lemma script_frame: "data_script d h raw ed s = (s', r) \<Longrightarrow> quiet_step s s'"
  by (auto simp: data_script_def split: option.splits script_result.splits)

lemma spam_frame: "spam_filter d raw s = (s', r) \<Longrightarrow> quiet_step s s'"
  by (auto simp: spam_filter_def quiet_mark_spam split: if_splits spam_action.splits)

text \<open>What is put in the queue, if anything.\<close>

definition queues :: "'f data_env \<Rightarrow> queue_name \<Rightarrow> queue_id \<Rightarrow> session \<Rightarrow> session \<Rightarrow> bool" where
  "queues d q i s s' \<longleftrightarrow> quiet_step s (s'\<lparr>ss_store := ss_store s\<rparr>)
     \<and> (ss_store s' = ss_store s
        \<or> (\<exists>io now h raw src w. ss_store s' = fst (snd (queue_message io now h raw src w (ss_store s)))
            \<and> queue_id w = i \<and> (one_strategy q (da_config d) \<longrightarrow> in_one_queue q (message w))))"

lemma queues_quiet: "quiet_step s s' \<Longrightarrow> queues d q i s s'"
  by (auto simp: queues_def quiet_step_def core_def)

lemma queues_after: "quiet_step a b \<Longrightarrow> queues d q i b c \<Longrightarrow> queues d q i a c"
  by (auto simp: queues_def quiet_step_def core_def)

lemma build_recipient_queue: "one_strategy q (da_config d) \<Longrightarrow> queue (build_recipient d s m a) = q"
  by (simp add: build_recipient_def one_strategy_def Let_def split: prod.split)

lemma build_message_queue:
  assumes "one_strategy q (da_config d)"
  shows "in_one_queue q (message (build_message d s sender i))"
proof -
  have all: "in_one_queue q (fold (\<lambda>a m. m\<lparr>recipients := recipients m @ [build_recipient d s m a]\<rparr>) l m)"
    if "in_one_queue q m" for l m
    using that
  proof (induction l arbitrary: m)
    case (Cons a l)
    have "in_one_queue q (m\<lparr>recipients := recipients m @ [build_recipient d s m a]\<rparr>)"
      using Cons.prems build_recipient_queue [OF assms] by (simp add: in_one_queue_def)
    from Cons.IH [OF this] show ?case by simp
  qed simp
  show ?thesis
    by (simp add: build_message_def Let_def) (rule all, simp add: in_one_queue_def)
qed

lemma build_message_id [simp]: "queue_id (build_message d s sender i) = i"
  by (simp add: build_message_def Let_def)

lemma has_quota_frame: "has_quota env rc qs cnt w = Some w' \<Longrightarrow>
    queue_id w' = queue_id w \<and> recipients (message w') = recipients (message w)"
  by (auto simp: has_quota_admits)

lemma queue_built_queues:
  assumes "queue_built d w h raw src s = (s', t)" and "queue_id w = i"
    and "one_strategy q (da_config d) \<Longrightarrow> in_one_queue q (message w)"
  shows "queues d q i s s'"
proof -
  let ?w = "w\<lparr>message := (message w)\<lparr>msg_size := of_nat (length raw + length h)\<rparr>\<rparr>"
  show ?thesis
  proof (cases "has_quota (da_quota_env d) \<lparr>rc_show = da_show d, rc_now = ie_now (da_env d)\<rparr> (da_quotas d)
      (st_counters (ss_store s)) ?w")
    case None
    with assms(1) show ?thesis by (auto simp: queue_built_def Let_def intro: queues_quiet)
  next
    case (Some w')
    note frame = has_quota_frame [OF Some]
    let ?q = "queue_message (da_io d) (ie_now (da_env d)) (Some h) raw src w' (ss_store s)"
    have "ss_store s' = fst (snd ?q)" "quiet_step s (s'\<lparr>ss_store := ss_store s\<rparr>)"
      using assms(1) Some by (auto simp: queue_built_def Let_def quiet_step_def core_def split: prod.splits if_splits)
    moreover have "one_strategy q (da_config d) \<longrightarrow> in_one_queue q (message w')"
      using assms(3) frame by (auto simp: in_one_queue_def)
    moreover have "queue_id w' = i" using frame assms(2) by simp
    ultimately show ?thesis unfolding queues_def by blast
  qed
qed

lemma finish_queues: "finish_message d raw h ed i src sender s = (s', t) \<Longrightarrow> queues d q i s s'"
  unfolding finish_message_def Let_def
  by (rule queues_after [OF quiet_updates(2)], erule queue_built_queues)
    (simp_all add: build_message_queue)

lemma filter_message_queues:
  assumes "filter_message d raw h i src s = (s', t)"
  shows "queues d q i s s'"
proof (cases "data_filters d raw s")
  case (Inl r)
  with assms show ?thesis by (auto simp: filter_message_def intro: queues_quiet)
next
  case (Inr mods)
  obtain s1 ed where m: "apply_milter_modifications d mods raw s = (s1, ed)" by fastforce
  obtain s2 r where r: "data_script d h raw ed s1 = (s2, r)" by fastforce
  have q: "quiet_step s s2" using milter_frame [OF m] script_frame [OF r] by (rule quiet_trans)
  show ?thesis
  proof (cases r)
    case (Inl reply)
    with assms Inr m r q show ?thesis by (auto simp: filter_message_def intro: queues_quiet)
  next
    case other: (Inr x)
    with assms Inr m r have "finish_message d raw (fst x) (snd x) i src (the (sd_mail_from s2)) s2 = (s', t)"
      by (cases x) (simp add: filter_message_def)
    from queues_after [OF q finish_queues [OF this]] show ?thesis .
  qed
qed

text \<open>A message is only queued for a sender, and a session without one panics on a message that passes.\<close>

lemma receive_message_effect:
  assumes "receive_message d s = (s', r)"
  shows "queues d q (da_new_id d (ss_store s)) s s' \<and> (\<not> has_sender s \<longrightarrow> ss_store s' = ss_store s)
    \<and> (r = None \<longleftrightarrow> \<not> has_sender s \<and> message_refusal d (sd_message s) (s\<lparr>sd_message := []\<rparr>) = None)"
proof -
  let ?raw = "sd_message s" and ?s = "s\<lparr>sd_message := []\<rparr>"
  let ?i = "da_new_id d (ss_store s)"
  have q: "quiet_step s ?s" by simp
  show ?thesis
  proof (cases "message_refusal d ?raw ?s")
    case (Some t)
    with assms q show ?thesis by (auto simp: receive_message_def Let_def intro!: queues_quiet)
  next
    case None
    show ?thesis
    proof (cases "has_sender s")
      case False
      with assms None q show ?thesis
        by (auto simp: receive_message_def Let_def has_sender_def intro!: queues_quiet)
    next
      case sender: True
      consider (dmarc) t where "dmarc_refusal d ?raw ?s = Some t"
        | (report) "dmarc_refusal d ?raw ?s = None" "\<not> is_authenticated ?s \<and> da_is_report d ?s \<and> \<not> da_forward_reports d"
        | (filters) "dmarc_refusal d ?raw ?s = None" "\<not> (\<not> is_authenticated ?s \<and> da_is_report d ?s \<and> \<not> da_forward_reports d)"
        by (cases "dmarc_refusal d ?raw ?s") auto
      then show ?thesis
      proof cases
        case dmarc
        with assms None sender have "s' = ?s" "r = Some t"
          by (auto simp: receive_message_def Let_def has_sender_def)
        with sender q show ?thesis by (auto intro!: queues_quiet)
      next
        case report
        with assms None sender show ?thesis
          by (auto simp: receive_message_def Let_def has_sender_def intro!: queues_quiet
              quiet_trans [OF quiet_updates(9) quiet_updates(11)])
      next
        case filters
        obtain s1 f where f: "spam_filter d ?raw ?s = (s1, f)" by fastforce
        have q1: "quiet_step s s1" using q spam_frame [OF f] by (rule quiet_trans)
        show ?thesis
        proof (cases f)
          case (Inl t)
          with assms None sender filters f q1 show ?thesis
            by (auto simp: receive_message_def Let_def has_sender_def intro!: queues_quiet)
        next
          case (Inr x)
          obtain h src where "filter_message d ?raw h ?i src s1 = (s', the r) \<and> r \<noteq> None"
            using assms None sender filters f Inr
            by (cases x) (auto simp: receive_message_def Let_def has_sender_def split: prod.splits)
          with queues_after [OF q1 filter_message_queues] sender show ?thesis by blast
        qed
      qed
    qed
  qed
qed

end
