(* ===== verification/Smtp_Requests.thy ===== *)
theory Smtp_Requests
  imports Smtp_Receive
begin

text \<open>
  The invariant of an SMTP session, kept by each request and each error of the parser, and the
  replies that they write.
\<close>

section \<open>The invariant of a session\<close>

text \<open>A sender has been admitted: by a client that has said EHLO and is authenticated where that is required.\<close>

definition admitted :: "session \<Rightarrow> bool" where
  "admitted s \<longleftrightarrow> (has_sender s \<longrightarrow>
     (let p = ss_params s in
      (sd_helo_domain s \<noteq> []
        \<or> \<not> (ehlo_require p \<or> verify (spf_ehlo_strategy p) \<or> verify (spf_mail_from_strategy p)))
      \<and> (auth_require p \<longrightarrow> is_authenticated s)))"

definition session_ok :: "session \<Rightarrow> bool" where
  "session_ok s \<longleftrightarrow> admitted s \<and> few_errors s \<and> (ss_state s = DataReceiver \<longrightarrow> sd_rcpt_to s \<noteq> [])"

lemma admitted_core:
  assumes "core s' = core s" and "has_sender s' \<Longrightarrow> has_sender s \<or> mail_sequence s = None" and "admitted s"
  shows "admitted s'"
  using assms
  by (auto simp: admitted_def core_def fixed_def mail_sequence_def is_authenticated_def Let_def split: if_splits)

lemma session_ok_core:
  assumes "core s' = core s" and "has_sender s' \<Longrightarrow> has_sender s \<or> mail_sequence s = None"
    and "ss_state s' = DataReceiver \<Longrightarrow> sd_rcpt_to s' \<noteq> []" and "session_ok s"
  shows "session_ok s'"
proof -
  have "few_errors s'" using assms(1,4) by (auto simp: session_ok_def few_errors_def core_def fixed_def)
  with admitted_core [OF assms(1,2)] assms(3,4) show ?thesis by (simp add: session_ok_def)
qed

lemma session_ok_auth:
  assumes "auth_step s (s'\<lparr>ss_state := ss_state s\<rparr>)" and "few_errors s'" and "ss_state s' \<noteq> DataReceiver"
    and "session_ok s"
  shows "session_ok s'"
  using assms
  by (auto simp: session_ok_def auth_step_def admitted_def core_def fixed_def has_sender_def is_authenticated_def Let_def)

lemma says_one_core: "says_one s s' \<Longrightarrow> core s' = core s \<and> ss_state s' = ss_state s \<and> one_reply s s'"
  by (auto simp: says_one_def quiet_step_def one_reply_def say_def core_def)

lemma reply_to_effect: "reply_to t s = (s', f) \<Longrightarrow>
    core s' = core s \<and> ss_state s' = ss_state s \<and> one_reply s s' \<and> has_sender s' = has_sender s"
  by (auto simp: reply_to_def one_reply_def say_def core_def has_sender_def)

lemma vrfy_effect: "handle_vrfy e a s = (s', b) \<Longrightarrow>
    core s' = core s \<and> ss_state s' = ss_state s \<and> one_reply s s' \<and> has_sender s' = has_sender s"
  by (auto simp: handle_vrfy_def answer_def one_reply_def say_def core_def has_sender_def
      split: if_splits option.splits resolution.splits)

lemma expn_effect: "handle_expn e a s = (s', b) \<Longrightarrow>
    core s' = core s \<and> ss_state s' = ss_state s \<and> one_reply s s' \<and> has_sender s' = has_sender s"
  by (auto simp: handle_expn_def answer_def one_reply_def say_def core_def has_sender_def
      split: if_splits option.splits resolution.splits)

lemma start_data_effect: "start_data e s = (s', f) \<Longrightarrow>
    core s' = core s \<and> one_reply s s' \<and> has_sender s' = has_sender s
    \<and> (ss_state s' = ss_state s \<or> ss_state s' = DataReceiver \<and> sd_rcpt_to s' \<noteq> [])"
  by (auto simp: start_data_def can_send_data_def one_reply_def say_def core_def has_sender_def split: if_splits)

lemma start_tls_effect: "start_tls_server s = (s', f) \<Longrightarrow>
    core s' = core s \<and> one_reply s s' \<and> has_sender s' = has_sender s
    \<and> (ss_state s' = ss_state s \<or> ss_state s' = RequestReceiver)"
  by (auto simp: start_tls_server_def reply_to_def one_reply_def say_def core_def has_sender_def split: if_splits)

text \<open>The greeting of a client may change the domain: then there is no sender.\<close>

lemma ehlo_ok:
  assumes "handle_ehlo e h x s = (s', b)" and "ss_state s = RequestReceiver"
  shows "b \<and> one_reply s s' \<and> (session_ok s \<longrightarrow> session_ok s')
    \<and> fixed (ss_params s') = fixed (ss_params s) \<and> ss_store s' = ss_store s"
proof -
  note e = ehlo_effect [OF assms(1)]
  have "has_sender s' \<Longrightarrow> core s' = core s" using e by (auto simp: core_def)
  then have "session_ok s'" if "session_ok s"
    using e assms(2) that
    by (auto simp: session_ok_def admitted_def few_errors_def core_def fixed_def is_authenticated_def Let_def)
  with e show ?thesis by (auto simp: one_reply_def core_def)
qed

definition held_back :: "request \<Rightarrow> bool" where
  "held_back r = (case r of CmdBdat _ _ \<Rightarrow> True | _ \<Rightarrow> False)"

lemma core_store: "core s' = core s \<Longrightarrow> fixed (ss_params s') = fixed (ss_params s) \<and> ss_store s' = ss_store s"
  by (simp add: core_def)

lemma request_ok:
  assumes "handle_request e r s = (s', f)" and "f \<noteq> HangUp" and st: "ss_state s = RequestReceiver"
  shows "(session_ok s \<longrightarrow> session_ok s') \<and> fixed (ss_params s') = fixed (ss_params s) \<and> ss_store s' = ss_store s
    \<and> (if held_back r then ss_replies s' = ss_replies s else one_reply s s')"
proof -
  have simple: ?thesis if "core s' = core s" "one_reply s s'" "has_sender s' \<longrightarrow> has_sender s \<or> mail_sequence s = None"
      "ss_state s' = DataReceiver \<longrightarrow> sd_rcpt_to s' \<noteq> []" "\<not> held_back r"
    using session_ok_core [OF that(1)] that core_store [OF that(1)] by auto
  have reply: ?thesis if "reply_to t s = (s', f)" "\<not> held_back r" for t
    using reply_to_effect [OF that(1)] that(2) st by (intro simple) auto
  have ehlo: ?thesis if "on (handle_ehlo e h x s) = (s', f)" "\<not> held_back r" for h x
  proof -
    from that(1) obtain b where "handle_ehlo e h x s = (s', b)" by (auto simp: on_def prod_eq_iff)
    from ehlo_ok [OF this st] that(2) show ?thesis by simp
  qed
  show ?thesis
  proof (cases r)
    case (CmdRcpt rt)
    then obtain b where b: "handle_rcpt_to e rt s = (s', b)" and f: "f = (if b then GoOn else HangUp)"
      using assms(1) by (auto simp: handle_request_def on_def prod_eq_iff)
    with rcpt_to_effect [OF b] assms(2) says_one_core [of s s'] show ?thesis
      using st CmdRcpt by (intro simple) (auto simp: held_back_def split: if_splits)
  next
    case (CmdMail mf)
    then obtain b where b: "handle_mail_from e mf s = (s', b)"
      using assms(1) by (auto simp: handle_request_def on_def prod_eq_iff)
    with mail_from_effect [OF b] says_one_core [of s s'] show ?thesis
      using st CmdMail by (intro simple) (auto simp: held_back_def)
  next
    case (CmdAuth m i)
    then obtain b where b: "handle_auth e m i s = (s', b)" and f: "f = (if b then GoOn else HangUp)"
      using assms(1) by (auto simp: handle_request_def on_def prod_eq_iff)
    with auth_effect [OF b] assms(2) st have *: "auth_step s (s'\<lparr>ss_state := ss_state s\<rparr>)" "ss_state s' \<noteq> DataReceiver"
      "one_reply s s'" "few_errors s \<Longrightarrow> few_errors s'" by (auto split: if_splits)
    have "session_ok s'" if ok: "session_ok s"
      by (rule session_ok_auth [OF *(1) _ *(2) ok]) (rule *(4), use ok in \<open>simp add: session_ok_def\<close>)
    with * show ?thesis
      using CmdAuth by (auto simp: auth_step_def core_def held_back_def)
  next
    case (CmdBdat chunk l)
    with assms(1) have s': "s' = start_bdat chunk l s" by (simp add: handle_request_def)
    then have "core s' = core s" "has_sender s' = has_sender s" "ss_state s' \<noteq> DataReceiver"
      "ss_replies s' = ss_replies s" by (simp_all add: start_bdat_def core_def has_sender_def)
    with session_ok_core [OF this(1)] show ?thesis using CmdBdat by (auto simp: held_back_def core_def)
  next
    case (CmdEhlo h)
    show ?thesis
    proof (cases "ss_protocol s = SmtpProtocol")
      case True
      show ?thesis by (rule ehlo [of h True]) (use True CmdEhlo assms(1) in \<open>simp_all add: handle_request_def held_back_def\<close>)
    next
      case False
      show ?thesis by (rule reply [of "''500 5.5.1 Invalid command.''"])
          (use False CmdEhlo assms(1) in \<open>simp_all add: handle_request_def held_back_def\<close>)
    qed
  next
    case (CmdHelo h)
    show ?thesis
    proof (cases "ss_protocol s = SmtpProtocol")
      case True
      show ?thesis by (rule ehlo [of h False]) (use True CmdHelo assms(1) in \<open>simp_all add: handle_request_def held_back_def\<close>)
    next
      case False
      show ?thesis by (rule reply [of "''500 5.5.1 Invalid command: LHLO expected.''"])
          (use False CmdHelo assms(1) in \<open>simp_all add: handle_request_def held_back_def\<close>)
    qed
  next
    case (CmdLhlo h)
    show ?thesis
    proof (cases "ss_protocol s = LmtpProtocol")
      case True
      show ?thesis by (rule ehlo [of h True]) (use True CmdLhlo assms(1) in \<open>simp_all add: handle_request_def held_back_def\<close>)
    next
      case False
      show ?thesis by (rule reply [of "''502 5.5.1 Invalid command: EHLO expected.''"])
          (use False CmdLhlo assms(1) in \<open>simp_all add: handle_request_def held_back_def\<close>)
    qed
  next
    case CmdData
    with assms(1) have "start_data e s = (s', f)" by (simp add: handle_request_def)
    from start_data_effect [OF this] show ?thesis using st CmdData by (intro simple) (auto simp: held_back_def)
  next
    case CmdStartTls
    with assms(1) have "start_tls_server s = (s', f)" by (simp add: handle_request_def)
    from start_tls_effect [OF this] show ?thesis using st CmdStartTls by (intro simple) (auto simp: held_back_def)
  next
    case (CmdVrfy v)
    then obtain b where "handle_vrfy e v s = (s', b)"
      using assms(1) by (auto simp: handle_request_def on_def prod_eq_iff)
    from vrfy_effect [OF this] show ?thesis using st CmdVrfy by (intro simple) (auto simp: held_back_def)
  next
    case (CmdExpn v)
    then obtain b where "handle_expn e v s = (s', b)"
      using assms(1) by (auto simp: handle_request_def on_def prod_eq_iff)
    from expn_effect [OF this] show ?thesis using st CmdExpn by (intro simple) (auto simp: held_back_def)
  next
    case CmdRset
    with assms(1) have "reply_to ''250 2.0.0 OK'' (reset s) = (s', f)" by (simp add: handle_request_def)
    then have "core s' = core s" "one_reply s s'" "\<not> has_sender s'" "ss_state s' = ss_state s"
      by (auto simp: reply_to_def one_reply_def reset_def say_def core_def has_sender_def)
    then show ?thesis using st CmdRset by (intro simple) (auto simp: held_back_def)
  next
    case CmdQuit
    with assms(1,2) show ?thesis by (simp add: handle_request_def)
  next
    case CmdNoop
    show ?thesis by (rule reply) (use CmdNoop assms(1) in \<open>simp_all add: handle_request_def held_back_def\<close>)
  next
    case CmdHelp
    show ?thesis by (rule reply) (use CmdHelp assms(1) in \<open>simp_all add: handle_request_def held_back_def\<close>)
  next
    case CmdNotImplemented
    show ?thesis
      by (rule reply) (use CmdNotImplemented assms(1) in \<open>simp_all add: handle_request_def held_back_def\<close>)
  qed
qed

section \<open>Inputs\<close>

lemma on_cases: "on r = (s', f) \<Longrightarrow> \<exists>b. r = (s', b) \<and> f = (if b then GoOn else HangUp)"
  by (cases r) (auto simp: on_def)

lemma request_store: "handle_request e r s = (s', f) \<Longrightarrow> ss_store s' = ss_store s"
  by (cases r)
    (auto simp: handle_request_def reset_def start_bdat_def say_def split: if_splits
      dest!: on_cases reply_to_effect core_store rcpt_to_effect mail_from_effect ehlo_effect auth_effect vrfy_effect
        expn_effect start_data_effect start_tls_effect says_one_core,
      auto simp: auth_step_def core_def)

lemma error_ok:
  assumes "handle_request_error e err s = (s', f)" and "f \<noteq> HangUp" and st: "ss_state s = RequestReceiver"
  shows "(session_ok s \<longrightarrow> session_ok s') \<and> fixed (ss_params s') = fixed (ss_params s) \<and> ss_store s' = ss_store s
    \<and> (if err = ResponseTooLong then ss_replies s' = ss_replies s else one_reply s s')"
proof -
  have reply: ?thesis if "reply_to t s = (s', f)" "err \<noteq> ResponseTooLong" for t
    using reply_to_effect [OF that(1)] that(2) st session_ok_core [of s' s] by (auto simp: core_def)
  show ?thesis
  proof (cases err)
    case (SyntaxError expected)
    show ?thesis
    proof (cases "\<not> ehlo_reject_non_fqdn (ss_params s) \<and> take 5 expected = ''EHLO ''")
      case True
      with assms(1) SyntaxError have "on (handle_ehlo e ''null'' True s) = (s', f)"
        by (simp add: handle_request_error_def)
      then obtain b where "handle_ehlo e ''null'' True s = (s', b)" by (auto dest: on_cases)
      from ehlo_ok [OF this st] SyntaxError show ?thesis by simp
    next
      case False
      with assms(1) SyntaxError reply show ?thesis by (auto simp: handle_request_error_def)
    qed
  next
    case ResponseTooLong
    with assms show ?thesis
      by (auto simp: handle_request_error_def session_ok_def admitted_def few_errors_def has_sender_def is_authenticated_def)
  qed (use assms(1,2) reply in \<open>auto simp: handle_request_error_def split: if_splits\<close>)
qed

lemma error_store: "handle_request_error e err s = (s', f) \<Longrightarrow> ss_store s' = ss_store s"
  by (cases err)
    (auto simp: handle_request_error_def core_def split: if_splits dest!: on_cases reply_to_effect ehlo_effect)

end
