(* ===== verification/Smtp_Runs.thy ===== *)
theory Smtp_Runs
  imports Smtp_Requests
begin

text \<open>
  What an input, a read and a whole conversation do to an SMTP session: the invariant, the
  replies, and the messages that are queued.
\<close>

section \<open>Messages\<close>

text \<open>What a session can put into the store.\<close>

definition stored :: "'f data_env \<Rightarrow> queue_name \<Rightarrow> queue_store \<Rightarrow> queue_store \<Rightarrow> bool" where
  "stored d q st st' \<longleftrightarrow> st' = st
     \<or> (\<exists>io now h raw src w. st' = fst (snd (queue_message io now h raw src w st))
          \<and> queue_id w = da_new_id d st \<and> (one_strategy q (da_config d) \<longrightarrow> in_one_queue q (message w)))"

lemma say_pow: "(say t ^^ k) s = s\<lparr>ss_replies := ss_replies s @ replicate k t\<rparr>"
  by (induction k) (simp_all add: say_def replicate_append_same)

text \<open>The replies of a message: as many as recipients have been accepted.\<close>

lemma oks_simps [simp]:
  "sd_rcpt_oks (pop_rcpt s) = sd_rcpt_oks s" "sd_rcpt_oks (push_rcpt r s) = sd_rcpt_oks s"
  "sd_rcpt_oks (map_mail_from u s) = sd_rcpt_oks s" "sd_rcpt_oks (map_last_rcpt u s) = sd_rcpt_oks s"
  "sd_rcpt_oks (mark_spam l s) = sd_rcpt_oks s"
  by (simp_all add: pop_rcpt_def push_rcpt_def map_mail_from_def map_last_rcpt_def mark_spam_def)

lemma oks_envelope [simp]: "sd_rcpt_oks (apply_envelope_modification lower tr f nf ev v s) = sd_rcpt_oks s"
  by (cases ev) (simp_all add: apply_envelope_modification_def)

lemma oks_fold: "(\<And>x s. sd_rcpt_oks (f x s) = sd_rcpt_oks s) \<Longrightarrow> sd_rcpt_oks (fold f xs s) = sd_rcpt_oks s"
  by (induction xs arbitrary: s) simp_all

lemma oks_modify [simp]: "sd_rcpt_oks (modify_envelope e mods s) = sd_rcpt_oks s"
  unfolding modify_envelope_def by (rule oks_fold) (simp split: script_modification.split)

lemma oks_milter: "sd_rcpt_oks (milter_envelope d m s) = sd_rcpt_oks s"
  by (cases m) (simp_all add: milter_envelope_def Let_def)

lemma oks_filter: "filter_message d raw h i src s = (s', t) \<Longrightarrow> sd_rcpt_oks s' = sd_rcpt_oks s"
  by (auto simp: filter_message_def apply_milter_modifications_def data_script_def finish_message_def
      queue_built_def oks_fold oks_milter Let_def
      split: sum.splits prod.splits if_splits option.splits script_result.splits)

lemma oks_spam: "spam_filter d raw s = (s', r) \<Longrightarrow> sd_rcpt_oks s' = sd_rcpt_oks s"
  by (auto simp: spam_filter_def split: if_splits spam_action.splits)

lemma oks_receive: "receive_message d s = (s', r) \<Longrightarrow> sd_rcpt_oks s' = sd_rcpt_oks s"
  by (auto simp: receive_message_def Let_def split: option.splits if_splits prod.splits sum.splits
      dest!: oks_filter oks_spam)

lemma end_message_effect:
  assumes "end_message d s = (s', f)"
  shows "stored d q (ss_store s) (ss_store s') \<and> (ss_store s' \<noteq> ss_store s \<longrightarrow> has_sender s)
    \<and> (f = Panic \<longrightarrow> \<not> has_sender s)
    \<and> (f \<noteq> HangUp \<and> f \<noteq> Panic \<longrightarrow> f = GoOn \<and> \<not> has_sender s' \<and> ss_state s' = RequestReceiver
        \<and> core (s'\<lparr>ss_store := ss_store s\<rparr>) = core s
        \<and> (\<exists>t. ss_replies s' = ss_replies s @ replicate (num_responses s) t))"
proof -
  obtain s1 r where r: "receive_message d s = (s1, r)" by fastforce
  note e = receive_message_effect [OF r, of q]
  then have st: "stored d q (ss_store s) (ss_store s1)" "ss_store s1 \<noteq> ss_store s \<Longrightarrow> has_sender s"
    and k: "core (s1\<lparr>ss_store := ss_store s\<rparr>) = core s" "ss_replies s1 = ss_replies s"
    by (auto simp: queues_def stored_def quiet_step_def core_def)
  show ?thesis
  proof (cases r)
    case None
    with assms r e st show ?thesis by (auto simp: end_message_def)
  next
    case (Some t)
    show ?thesis
    proof (cases "t = []")
      case True
      with assms r Some st show ?thesis by (auto simp: end_message_def)
    next
      case False
      with assms r Some have s': "f = GoOn" "s' = (reset ((say t ^^ num_responses s1) s1))\<lparr>ss_state := RequestReceiver\<rparr>"
        by (auto simp: end_message_def)
      with st k oks_receive [OF r] show ?thesis
        by (simp add: say_pow reset_def has_sender_def core_def num_responses_def)
    qed
  qed
qed

section \<open>Inputs\<close>

text \<open>The replies to an input: one, or none before the end of what it belongs to, or those of a message.\<close>

definition accepts_data :: "inbound_env \<Rightarrow> session \<Rightarrow> bool" where
  "accepts_data e s \<longleftrightarrow> sd_rcpt_to s \<noteq> [] \<and> sd_messages_sent s < size_or 10 e DataMaxMessages s"

definition replies_due :: "'f data_env \<Rightarrow> nat \<Rightarrow> input \<Rightarrow> session \<Rightarrow> nat" where
  "replies_due d n inp s =
     (let per_message = (if ss_protocol s = LmtpProtocol then sd_rcpt_oks s else 1) in
      case inp of
        Request r \<Rightarrow> if held_back r then 0 else 1
      | RequestError err \<Rightarrow> if err = ResponseTooLong then 0 else 1
      | Chunk bytes fin \<Rightarrow>
          (if \<not> fin then 0
           else case ss_state s of
             BdatReceiver _ is_last \<Rightarrow>
               if is_last \<and> accepts_data (da_env d) (add_bytes bytes s) then per_message else 1
           | _ \<Rightarrow> per_message)
      | SaslLine _ \<Rightarrow> 1
      | Skipped fin \<Rightarrow> if fin then 1 else 0)"

lemma accepts_data_sends: "snd (can_send_data e s) = accepts_data e s"
  by (simp add: can_send_data_def accepts_data_def)

lemma num_responses_protocol: "num_responses s = (if ss_protocol s = LmtpProtocol then sd_rcpt_oks s else 1)"
  by (cases "ss_protocol s") (simp_all add: num_responses_def)

lemma replies_due_code:
  "replies_due d n inp s =
     (case inp of
        Request r \<Rightarrow> if held_back r then 0 else 1
      | RequestError err \<Rightarrow> if err = ResponseTooLong then 0 else 1
      | Chunk bytes fin \<Rightarrow>
          (if \<not> fin then 0
           else case ss_state s of
             BdatReceiver _ is_last \<Rightarrow>
               if is_last \<and> snd (can_send_data (da_env d) (add_bytes bytes s)) then num_responses s else 1
           | _ \<Rightarrow> num_responses s)
      | SaslLine _ \<Rightarrow> 1
      | Skipped fin \<Rightarrow> if fin then 1 else 0)"
  by (cases inp; cases "ss_state s")
    (simp_all add: replies_due_def num_responses_protocol accepts_data_sends Let_def)

lemma add_bytes_simps [simp]:
  "core (add_bytes b s) = core s" "has_sender (add_bytes b s) = has_sender s" "ss_state (add_bytes b s) = ss_state s"
  "ss_replies (add_bytes b s) = ss_replies s" "sd_rcpt_to (add_bytes b s) = sd_rcpt_to s"
  "num_responses (add_bytes b s) = num_responses s" "ss_store (add_bytes b s) = ss_store s"
  by (simp_all add: add_bytes_def core_def has_sender_def num_responses_def)

lemma sasl_line_effect:
  assumes "handle_sasl_line d ml tok t s = (s', f)" and "ss_state s \<noteq> DataReceiver"
  shows "auth_step s (s'\<lparr>ss_state := ss_state s\<rparr>) \<and> ss_state s' \<noteq> DataReceiver
    \<and> (f \<noteq> HangUp \<longrightarrow> one_reply s s' \<and> (few_errors s \<longrightarrow> few_errors s'))"
proof -
  let ?r = "if length t < ml then handle_sasl_response (da_env d) tok t s
    else over tok (auth_error (line ''500 5.5.6 Authentication Exchange line is too long.'') s)"
  from assms(1) obtain b where b: "sasl_state ?r = (s', b)" and f: "f = (if b then GoOn else HangUp)"
    by (auto simp: handle_sasl_line_def dest: on_cases)
  obtain s1 tok1 b1 where r: "?r = (s1, tok1, b1)" by (cases ?r) auto
  then have "exchange s s1 b1"
    by (auto split: if_splits dest: exchange_response exchange_over exchange_error)
  with sasl_state_effect [of s ?r s' b] b r f assms(2) show ?thesis by auto
qed


lemma one_reply_replicate: "one_reply s s' \<Longrightarrow> \<exists>t. ss_replies s' = ss_replies s @ replicate (Suc 0) t"
  by (auto simp: one_reply_def)

text \<open>What a step promises: the invariant, the parameters, the number of replies.\<close>

definition answers :: "nat \<Rightarrow> session \<Rightarrow> session \<Rightarrow> bool" where
  "answers k s s' \<longleftrightarrow> (session_ok s \<longrightarrow> session_ok s') \<and> fixed (ss_params s') = fixed (ss_params s)
     \<and> (\<exists>t. ss_replies s' = ss_replies s @ replicate k t)"

lemma answers_quiet:
  assumes "core s' = core s" and "has_sender s' \<Longrightarrow> has_sender s" and "ss_state s' = DataReceiver \<Longrightarrow> ss_state s = DataReceiver"
    and "sd_rcpt_to s' = sd_rcpt_to s" and "ss_replies s' = ss_replies s @ replicate k t"
  shows "answers k s s'"
  unfolding answers_def using session_ok_core [OF assms(1)] assms by (auto simp: core_def session_ok_def)

lemma end_message_answers:
  assumes "end_message d s = (s', f)" and "f \<noteq> HangUp" and "f \<noteq> Panic"
  shows "f = GoOn \<and> answers (num_responses s) s s'"
proof -
  from end_message_effect [OF assms(1)] assms(2,3)
  have e: "f = GoOn" "\<not> has_sender s'" "ss_state s' = RequestReceiver" "core (s'\<lparr>ss_store := ss_store s\<rparr>) = core s"
    "\<exists>t. ss_replies s' = ss_replies s @ replicate (num_responses s) t" by blast+
  then have "few_errors s' = few_errors s" "fixed (ss_params s') = fixed (ss_params s)"
    by (auto simp: few_errors_def core_def fixed_def)
  with e show ?thesis by (simp add: answers_def session_ok_def admitted_def)
qed

lemma end_chunk_answers:
  assumes "end_chunk d l s = (s', f)" and "f \<noteq> HangUp" and "f \<noteq> Panic"
  shows "f = GoOn \<and> answers (if l \<and> snd (can_send_data (da_env d) s) then num_responses s else 1) s s'"
proof (cases "snd (can_send_data (da_env d) s)")
  case True
  then have c: "can_send_data (da_env d) s = (s, True)" by (auto simp: can_send_data_def split: if_splits)
  show ?thesis
  proof (cases l)
    case True
    with c assms end_message_answers [of d s s' f] show ?thesis by (simp add: end_chunk_def)
  next
    case False
    with c assms(1) have s': "s' = (say (line ''250 2.6.0 Chunk accepted.'') s)\<lparr>ss_state := RequestReceiver\<rparr>" "f = GoOn"
      by (auto simp: end_chunk_def)
    have "answers 1 s s'" by (rule answers_quiet) (simp_all add: s' core_def has_sender_def say_def)
    with s' False show ?thesis by simp
  qed
next
  case False
  then obtain t where c: "can_send_data (da_env d) s = (say t s, False)"
    by (auto simp: can_send_data_def split: if_splits)
  with assms(1) have s': "s' = (say t s)\<lparr>sd_message := [], ss_state := RequestReceiver\<rparr>" "f = GoOn"
    by (auto simp: end_chunk_def)
  have "answers 1 s s'" by (rule answers_quiet) (simp_all add: s' core_def has_sender_def say_def)
  with s' False show ?thesis by simp
qed

text \<open>A step by the receiver that reads.\<close>

lemma step_in:
  "step d ml n inp s = (let s1 = s\<lparr>ss_state := data_receiver n s\<rparr> in case data_receiver n s of
     RequestReceiver \<Rightarrow> (case inp of Request r \<Rightarrow> Some (handle_request (da_env d) r s1)
       | RequestError err \<Rightarrow> Some (handle_request_error (da_env d) err s1) | _ \<Rightarrow> None)
   | DataReceiver \<Rightarrow> (case inp of Chunk b fin \<Rightarrow> Some (if fin then end_message d (add_bytes b s1) else (add_bytes b s1, Wait)) | _ \<Rightarrow> None)
   | BdatReceiver c l \<Rightarrow> (case inp of Chunk b fin \<Rightarrow> Some (if fin then end_chunk d l (add_bytes b s1) else (add_bytes b s1, Wait)) | _ \<Rightarrow> None)
   | SaslReceiver tok \<Rightarrow> (case inp of SaslLine t \<Rightarrow> Some (handle_sasl_line d ml tok t s1) | _ \<Rightarrow> None)
   | DataTooLarge \<Rightarrow> (case inp of Skipped fin \<Rightarrow> Some (if fin then end_skipped s1 else (s1, Wait)) | _ \<Rightarrow> None)
   | RequestTooLarge \<Rightarrow> (case inp of Skipped fin \<Rightarrow> Some (if fin then ((say (line ''554 5.3.4 Line is too long.'') s1)\<lparr>ss_state := RequestReceiver\<rparr>, GoOn) else (s1, Wait)) | _ \<Rightarrow> None))"
  by (cases inp; cases "data_receiver n s"; simp add: step_def Let_def reply_to_def)

lemma receiver_same:
  assumes "data_receiver n s \<noteq> DataTooLarge"
  shows "s\<lparr>ss_state := data_receiver n s\<rparr> = s" and "ss_state s = data_receiver n s"
proof -
  from assms have "data_receiver n s = ss_state s" by (simp add: data_receiver_def split: if_splits)
  then show "s\<lparr>ss_state := data_receiver n s\<rparr> = s" and "ss_state s = data_receiver n s" by simp_all
qed

lemma step_cases:
  assumes "step d ml n inp s = Some (s', f)"
  obtains (request) r where "inp = Request r" and "ss_state s = RequestReceiver" and "handle_request (da_env d) r s = (s', f)"
    | (request_error) e where "inp = RequestError e" and "ss_state s = RequestReceiver"
        and "handle_request_error (da_env d) e s = (s', f)"
    | (more_bytes) b where "inp = Chunk b False" and "s' = add_bytes b s" and "f = Wait"
    | (message) b where "inp = Chunk b True" and "ss_state s = DataReceiver" and "end_message d (add_bytes b s) = (s', f)"
    | (chunk) b c l where "inp = Chunk b True" and "ss_state s = BdatReceiver c l"
        and "end_chunk d l (add_bytes b s) = (s', f)"
    | (sasl) t tok where "inp = SaslLine t" and "ss_state s = SaslReceiver tok" and "handle_sasl_line d ml tok t s = (s', f)"
    | (skipped) st where "inp = Skipped False" and "s' = s\<lparr>ss_state := st\<rparr>" and "f = Wait" and "st \<noteq> DataReceiver"
    | (skipped_data) "inp = Skipped True" and "s' = (say (line ''552 5.3.4 Message too big for system.'') s)
        \<lparr>sd_message := [], ss_state := RequestReceiver\<rparr>" and "f = GoOn"
    | (skipped_line) "inp = Skipped True" and "s' = (say (line ''554 5.3.4 Line is too long.'') s)\<lparr>ss_state := RequestReceiver\<rparr>"
        and "f = GoOn"
proof -
  let ?s = "s\<lparr>ss_state := data_receiver n s\<rparr>"
  show thesis
  proof (cases "data_receiver n s")
    case RequestReceiver
    then have ne: "data_receiver n s \<noteq> DataTooLarge" by (rule ssubst) (rule receiver.distinct)
    note s = receiver_same(2) [OF ne, unfolded RequestReceiver]
    note st = assms [unfolded step_in Let_def receiver_same(1) [OF ne], unfolded RequestReceiver receiver.case]
    show ?thesis
    proof (cases inp)
      case (Request r)
      with st show ?thesis by (intro request [OF Request s]) simp
    next
      case (RequestError e)
      with st show ?thesis by (intro request_error [OF RequestError s]) simp
    qed (use st in simp_all)
  next
    case (BdatReceiver c l)
    then have ne: "data_receiver n s \<noteq> DataTooLarge" by (rule ssubst) (rule receiver.distinct)
    note s = receiver_same(2) [OF ne, unfolded BdatReceiver]
    note st = assms [unfolded step_in Let_def receiver_same(1) [OF ne], unfolded BdatReceiver receiver.case]
    from st obtain b fin where b: "inp = Chunk b fin" by (cases inp) simp_all
    show ?thesis
    proof (cases fin)
      case True
      with st b show ?thesis by (intro chunk [OF _ s]) simp_all
    next
      case False
      with st b show ?thesis by (intro more_bytes) auto
    qed
  next
    case DataReceiver
    then have ne: "data_receiver n s \<noteq> DataTooLarge" by (rule ssubst) (rule receiver.distinct)
    note s = receiver_same(2) [OF ne, unfolded DataReceiver]
    note st = assms [unfolded step_in Let_def receiver_same(1) [OF ne], unfolded DataReceiver receiver.case]
    from st obtain b fin where b: "inp = Chunk b fin" by (cases inp) simp_all
    show ?thesis
    proof (cases fin)
      case True
      with st b show ?thesis by (intro message [OF _ s]) simp_all
    next
      case False
      with st b show ?thesis by (intro more_bytes) auto
    qed
  next
    case (SaslReceiver tok)
    then have ne: "data_receiver n s \<noteq> DataTooLarge" by (rule ssubst) (rule receiver.distinct)
    note s = receiver_same(2) [OF ne, unfolded SaslReceiver]
    note st = assms [unfolded step_in Let_def receiver_same(1) [OF ne], unfolded SaslReceiver receiver.case]
    from st obtain t where b: "inp = SaslLine t" by (cases inp) simp_all
    with st show ?thesis by (intro sasl [OF b s]) simp
  next
    case DataTooLarge
    note st = assms [unfolded step_in Let_def DataTooLarge receiver.case]
    from st obtain fin where b: "inp = Skipped fin" by (cases inp) simp_all
    show ?thesis
    proof (cases fin)
      case True
      with st b show ?thesis by (intro skipped_data) (auto simp: end_skipped_def say_def)
    next
      case False
      with st b show ?thesis by (intro skipped [of DataTooLarge]) auto
    qed
  next
    case RequestTooLarge
    note st = assms [unfolded step_in Let_def RequestTooLarge receiver.case]
    from st obtain fin where b: "inp = Skipped fin" by (cases inp) simp_all
    show ?thesis
    proof (cases fin)
      case True
      with st b show ?thesis by (intro skipped_line) (auto simp: say_def)
    next
      case False
      with st b show ?thesis by (intro skipped [of RequestTooLarge]) auto
    qed
  qed
qed

lemma step_answers:
  assumes "step d ml n inp s = Some (s', f)" and "f \<noteq> HangUp" and "f \<noteq> Panic"
  shows "answers (replies_due d n inp s) s s'"
  using assms(1)
proof (cases rule: step_cases)
  case (request r)
  with request_ok [OF request(3) assms(2) request(2)] show ?thesis
    by (auto simp: answers_def replies_due_code one_reply_def)
next
  case (request_error e)
  with error_ok [OF request_error(3) assms(2) request_error(2)] show ?thesis
    by (auto simp: answers_def replies_due_code one_reply_def)
next
  case (more_bytes b)
  then show ?thesis by (intro answers_quiet) (simp_all add: replies_due_code)
next
  case (message b)
  have ok: "session_ok (add_bytes b s) = session_ok s"
    by (simp add: session_ok_def admitted_def few_errors_def is_authenticated_def has_sender_def add_bytes_def)
  have "ss_params (add_bytes b s) = ss_params s" by (simp add: add_bytes_def)
  with end_message_answers [OF message(3) assms(2,3)] message ok show ?thesis
    by (simp add: answers_def replies_due_code)
next
  case (chunk b c l)
  have ok: "session_ok (add_bytes b s) = session_ok s"
    by (simp add: session_ok_def admitted_def few_errors_def is_authenticated_def has_sender_def add_bytes_def)
  have "ss_params (add_bytes b s) = ss_params s" by (simp add: add_bytes_def)
  with end_chunk_answers [OF chunk(3) assms(2,3)] chunk ok show ?thesis
    by (auto simp: answers_def replies_due_code split: if_splits)
next
  case (sasl t tok)
  with sasl_line_effect [OF sasl(3)] assms(2)
  have e: "auth_step s (s'\<lparr>ss_state := ss_state s\<rparr>)" "ss_state s' \<noteq> DataReceiver" "one_reply s s'"
    "few_errors s \<Longrightarrow> few_errors s'" by auto
  have "session_ok s'" if ok: "session_ok s"
    by (rule session_ok_auth [OF e(1) _ e(2) ok]) (rule e(4), use ok in \<open>simp add: session_ok_def\<close>)
  with e sasl show ?thesis
    by (auto simp: answers_def replies_due_code auth_step_def core_def one_reply_def)
next
  case (skipped st)
  then show ?thesis by (intro answers_quiet) (simp_all add: replies_due_code core_def has_sender_def)
next
  case skipped_data
  then show ?thesis by (intro answers_quiet) (simp_all add: replies_due_code core_def has_sender_def say_def)
next
  case skipped_line
  then show ?thesis by (intro answers_quiet) (simp_all add: replies_due_code core_def has_sender_def say_def)
qed

lemma stored_refl [simp, intro]: "stored d q st st"
  by (simp add: stored_def)

lemma can_send_core: "can_send_data e s = (s', b) \<Longrightarrow> core s' = core s \<and> has_sender s' = has_sender s \<and> (b \<longrightarrow> s' = s)"
  by (auto simp: can_send_data_def split: if_splits)

text \<open>A message is queued when its last bytes have come, and then there is a sender.\<close>

lemma step_store:
  assumes "step d ml n inp s = Some (s', f)"
  shows "stored d q (ss_store s) (ss_store s')
    \<and> (ss_store s' \<noteq> ss_store s \<longrightarrow> has_sender s \<and> (\<exists>b. inp = Chunk b True))"
  using assms
proof (cases rule: step_cases)
  case (request r)
  from request_store [OF request(3)] show ?thesis by simp
next
  case (request_error e)
  from error_store [OF request_error(3)] show ?thesis by simp
next
  case (message b)
  with end_message_effect [OF message(3), of q] show ?thesis by auto
next
  case (chunk b c l)
  obtain s1 ok where c: "can_send_data (da_env d) (add_bytes b s) = (s1, ok)" by fastforce
  note k = can_send_core [OF c]
  show ?thesis
  proof (cases "ok \<and> l")
    case True
    with c k chunk have "end_message d (add_bytes b s) = (s', f)" by (simp add: end_chunk_def)
    from end_message_effect [OF this, of q] chunk show ?thesis by auto
  next
    case False
    with c k chunk have "ss_store s' = ss_store s" by (auto simp: end_chunk_def core_def say_def split: if_splits bool.splits)
    then show ?thesis by simp
  qed
next
  case (sasl t tok)
  with sasl_line_effect [OF sasl(3)] have "ss_store s' = ss_store s" by (auto simp: auth_step_def core_def)
  then show ?thesis by simp
qed (simp_all add: say_def)

text \<open>Only a message without a sender panics.\<close>

lemma step_panic:
  assumes "step d ml n inp s = Some (s', Panic)"
  shows "\<not> has_sender s \<and> (session_ok s \<longrightarrow> sd_rcpt_to s \<noteq> [])"
  using assms
proof (cases rule: step_cases)
  case (request r)
  then show ?thesis
    by (auto simp: handle_request_def on_def reply_to_def start_data_def can_send_data_def start_tls_server_def
        split: request.splits if_splits)
next
  case (request_error e)
  then show ?thesis
    by (auto simp: handle_request_error_def on_def reply_to_def split: protocol_error.splits if_splits)
next
  case (message b)
  with end_message_effect [OF message(3)] show ?thesis by (auto simp: session_ok_def)
next
  case (chunk b c l)
  then show ?thesis using end_message_effect [of d "add_bytes b s" s' Panic]
    by (auto simp: end_chunk_def can_send_data_def split: if_splits)
next
  case (sasl t tok)
  then show ?thesis unfolding handle_sasl_line_def on_def by (simp split: if_splits)
qed simp_all

section \<open>Conversations\<close>

text \<open>
  What each step keeps is kept by a conversation. \<open>P k\<close> is a property that leaves room for \<open>k\<close>
  more inputs; \<open>A\<close> holds the flows of the steps that keep it.
\<close>

lemma weaken:
  assumes "\<And>k s. P (Suc k) s \<Longrightarrow> P k s" and "P (j + k) s"
  shows "P k s"
  using assms(2) by (induction j) (auto intro: assms(1))

lemma ingest_rule:
  assumes "ingest ml n ds s = Some (s', f)" and "f \<in> A" and A: "GoOn \<in> A" "Wait \<in> A"
    and step: "\<And>d inp k s s' g. (d, inp) \<in> set ds \<Longrightarrow> step d ml n inp s = Some (s', g) \<Longrightarrow> g \<in> A
      \<Longrightarrow> P (Suc k) s \<Longrightarrow> P k s'"
    and weak: "\<And>k s. P (Suc k) s \<Longrightarrow> P k s" and "P (length ds + k) s"
  shows "P k s'"
  using assms(1,7) step
proof (induction ds arbitrary: s)
  case (Cons di ds)
  obtain d inp where di: "di = (d, inp)" by fastforce
  with Cons.prems(1) obtain s1 g where st: "step d ml n inp s = Some (s1, g)"
    by (cases "step d ml n inp s") auto
  have P: "P (length ds + k) s1" if "g \<in> A"
    by (rule Cons.prems(3) [OF _ st that]) (use di Cons.prems(2) in simp_all)
  show ?case
  proof (cases "g = GoOn")
    case True
    with Cons.prems(1) di st have "ingest ml n ds s1 = Some (s', f)" by simp
    then show ?thesis
      by (rule Cons.IH [OF _ P]) (use True A in simp, rule Cons.prems(3), auto)
  next
    case False
    then have "s' = s1 \<and> g \<in> A"
      using Cons.prems(1) di st A \<open>f \<in> A\<close> by (cases g) (auto split: if_splits)
    with weaken [of P, OF weak P] show ?thesis by blast
  qed
qed simp

definition inputs_of :: "'f conn_event \<Rightarrow> ('f data_env \<times> input) list" where
  "inputs_of ev = (case ev of ConnRead _ _ ds \<Rightarrow> ds | _ \<Rightarrow> [])"

lemma conn_rule:
  assumes "conn_step ml ev s = Some (s', f)" and "f \<in> A" and A: "GoOn \<in> A" "Wait \<in> A"
    and step: "\<And>d inp n k s s' g. (d, inp) \<in> set (inputs_of ev) \<Longrightarrow> step d ml n inp s = Some (s', g)
      \<Longrightarrow> g \<in> A \<Longrightarrow> P (Suc k) s \<Longrightarrow> P k s'"
    and weak: "\<And>k s. P (Suc k) s \<Longrightarrow> P k s"
    and left: "\<And>k s b. P k s \<Longrightarrow> P k (s\<lparr>sd_bytes_left := b\<rparr>)"
    and say: "\<And>k s t. HangUp \<in> A \<Longrightarrow> P k s \<Longrightarrow> P k (say t s)"
    and "P (length (inputs_of ev) + k) s"
  shows "P k s'"
proof (cases ev)
  case (ConnRead n in_time ds)
  note P = assms(9)
  show ?thesis
  proof (cases "in_time \<and> n \<le> sd_bytes_left s")
    case True
    with assms(1) ConnRead have "ingest ml n ds (s\<lparr>sd_bytes_left := sd_bytes_left s - n\<rparr>) = Some (s', f)"
      by (simp add: conn_step_def)
    from ingest_rule [of ml n ds _ s' f A P k, OF this \<open>f \<in> A\<close> A] step weak left [OF P] ConnRead
    show ?thesis by (auto simp: inputs_of_def)
  next
    case False
    with assms(1) ConnRead have "f = HangUp" "\<exists>t. s' = say t s" by (auto simp: conn_step_def split: if_splits)
    with weaken [of P, OF weak P] say \<open>f \<in> A\<close> show ?thesis by blast
  qed
next
  case ConnClosed
  with assms show ?thesis by (simp add: conn_step_def inputs_of_def)
qed (use assms in \<open>auto simp: conn_step_def inputs_of_def\<close>)

lemma run_conn_rule:
  assumes "run_conn ml evs s = Some (s', f)" and "f \<in> A" and A: "GoOn \<in> A" "Wait \<in> A" "UpgradeTls \<in> A"
    and step: "\<And>d inp n k s s' g. (d, inp) \<in> set (concat (map inputs_of evs)) \<Longrightarrow> step d ml n inp s = Some (s', g)
      \<Longrightarrow> g \<in> A \<Longrightarrow> P (Suc k) s \<Longrightarrow> P k s'"
    and weak: "\<And>k s. P (Suc k) s \<Longrightarrow> P k s"
    and left: "\<And>k s b. P k s \<Longrightarrow> P k (s\<lparr>sd_bytes_left := b\<rparr>)"
    and say: "\<And>k s t. HangUp \<in> A \<Longrightarrow> P k s \<Longrightarrow> P k (say t s)"
    and tls: "\<And>k s. P k s \<Longrightarrow> P k (into_tls s)"
    and "P (length (concat (map inputs_of evs)) + k) s"
  shows "P k s'"
  using assms(1,11) step
proof (induction evs arbitrary: s)
  case (Cons ev evs)
  let ?j = "length (concat (map inputs_of evs)) + k"
  from Cons.prems(1) obtain s1 g where st: "conn_step ml ev s = Some (s1, g)"
    by (cases "conn_step ml ev s") auto
  have P: "P ?j s1" if "g \<in> A"
    by (rule conn_rule [OF st that A(1,2) _ weak left say])
      (rule Cons.prems(3), use Cons.prems(2) in \<open>auto simp: add.assoc\<close>)
  show ?case
  proof (cases "g = GoOn \<or> g = UpgradeTls")
    case True
    then obtain s2 where c: "run_conn ml evs s2 = Some (s', f)" "P ?j s2"
      using Cons.prems(1) st P tls A by auto
    show ?thesis
    proof (rule Cons.IH [OF c])
      show "P k b'" if "(d, inp) \<in> set (concat (map inputs_of evs))" "step d ml n inp b = Some (b', g)" "g \<in> A"
        "P (Suc k) b" for d inp n k b b' g
        by (rule Cons.prems(3) [OF _ that(2-4)]) (use that(1) in simp)
    qed
  next
    case False
    then have "s' = s1 \<and> g \<in> A"
      using Cons.prems(1) st \<open>f \<in> A\<close> by (cases g) auto
    with weaken [of P, OF weak P] show ?thesis by blast
  qed
qed simp

text \<open>A session that goes on keeps its invariant and its parameters.\<close>

definition goes_on :: "flow set" where
  "goes_on = {GoOn, Wait, UpgradeTls}"

lemma run_conn_ok:
  assumes "run_conn ml evs s = Some (s', GoOn)" and "session_ok s"
  shows "session_ok s' \<and> fixed (ss_params s') = fixed (ss_params s)"
proof -
  let ?P = "\<lambda>_ s'. session_ok s' \<and> fixed (ss_params s') = fixed (ss_params s)"
  show ?thesis
  proof (rule run_conn_rule [OF assms(1), of goes_on ?P])
    show "session_ok s2 \<and> fixed (ss_params s2) = fixed (ss_params s)"
      if "step d ml n inp s1 = Some (s2, g)" "g \<in> goes_on" "session_ok s1 \<and> fixed (ss_params s1) = fixed (ss_params s)"
      for d :: "'a data_env" and inp n s1 s2 g
      using step_answers [OF that(1)] that(2,3) by (auto simp: goes_on_def answers_def)
  qed (use assms(2) in \<open>auto simp: goes_on_def session_ok_def admitted_def few_errors_def has_sender_def
      is_authenticated_def into_tls_def Let_def\<close>)
qed

lemma init_conn_ok:
  assumes "accept_conn e (session_new i ip port proto tls acc st) = (s, b)"
  shows "session_ok s \<and> ss_store s = st"
proof -
  let ?new = "session_new i ip port proto tls acc st"
  let ?s = "eval_session_params e ?new"
  have ok: "session_ok s" if "sd_mail_from s = None" "sd_auth_errors s = 0" "ss_state s = RequestReceiver" for s
    using that by (simp add: session_ok_def admitted_def few_errors_def has_sender_def)
  have s: "sd_mail_from ?s = None" "sd_auth_errors ?s = 0" "ss_state ?s = RequestReceiver" "ss_store ?s = st"
    by (simp_all add: eval_session_params_def session_new_def Let_def)
  have new: "session_ok ?new" "ss_store ?new = st" by (rule ok) (simp_all add: session_new_def)
  have "fst (then_check (script_check e StageConnect ?s) (filter_check e StageConnect)) = ?s"
    by (simp add: then_check_def script_check_def filter_check_def split: option.split)
  then obtain r where r: "then_check (script_check e StageConnect ?s) (filter_check e StageConnect) = (?s, r)"
    by (metis prod.collapse)
  have "sd_mail_from (fst (init_conn e ?new)) = None \<and> sd_auth_errors (fst (init_conn e ?new)) = 0
    \<and> ss_state (fst (init_conn e ?new)) = RequestReceiver \<and> ss_store (fst (init_conn e ?new)) = st"
    unfolding init_conn_def r Let_def using s by (cases r) (simp_all add: answer_def say_def)
  with assms ok new show ?thesis by (cases "is_allowed e ?new") (auto simp: accept_conn_def)
qed

section \<open>The queue\<close>

text \<open>The strategies of a session name one queue, and a new id is free while there is one.\<close>

definition sound_env :: "queue_name \<Rightarrow> 'f data_env \<Rightarrow> bool" where
  "sound_env q d \<longleftrightarrow> one_strategy q (da_config d)
     \<and> (\<forall>st. (\<exists>i. st_messages st i = None) \<longrightarrow> st_messages st (da_new_id d st) = None)"

lemma queue_message_dom:
  "dom (st_messages (fst (snd (queue_message io now h raw src w st)))) \<subseteq> insert (queue_id w) (dom (st_messages st))"
proof -
  obtain ok st' r where q: "queue_message io now h raw src w st = (ok, st', r)"
    by (cases "queue_message io now h raw src w st")
  from queue_message_effect [OF q] show ?thesis
    by (auto simp: q same_queue_def with_message_def split: if_splits)
qed

lemma stored_run:
  assumes "stored d q st st'" and "sound_env q d" and "queue_run E q n st"
    and "card (dom (st_messages st)) + Suc k < 2 ^ 64"
  shows "queue_run E q n st' \<and> card (dom (st_messages st')) + k < 2 ^ 64"
proof (cases "st' = st")
  case True
  with assms show ?thesis by simp
next
  case False
  with assms(1,2) obtain io now h raw src w
    where st': "st' = fst (snd (queue_message io now h raw src w st))"
      and w: "queue_id w = da_new_id d st" "in_one_queue q (message w)"
    by (auto simp: stored_def sound_env_def)
  have "card (dom (st_messages st)) < 2 ^ 64" using assms(4) by linarith
  from free_id [OF this] assms(2) w(1) have "st_messages st (queue_id w) = None"
    by (simp add: sound_env_def)
  from run_queue [OF assms(3) this w(2)] have "queue_run E q n st'" by (simp add: st')
  moreover have "card (dom (st_messages st')) \<le> card (insert (queue_id w) (dom (st_messages st)))"
    unfolding st' by (rule card_mono [OF _ queue_message_dom]) simp
  moreover have "card (insert (queue_id w) (dom (st_messages st))) \<le> Suc (card (dom (st_messages st)))"
    by (simp add: card_insert_if)
  ultimately show ?thesis using assms(4) by linarith
qed

lemma run_conn_queue_run:
  assumes "run_conn ml evs s = Some (s', f)" and "queue_run E q n (ss_store s)"
    and "list_all (sound_env q) (map fst (concat (map inputs_of evs)))"
    and "card (dom (st_messages (ss_store s))) + length (concat (map inputs_of evs)) < 2 ^ 64"
  shows "queue_run E q n (ss_store s')"
proof -
  let ?P = "\<lambda>k s. queue_run E q n (ss_store s) \<and> card (dom (st_messages (ss_store s))) + k < 2 ^ 64"
  have "?P 0 s'"
  proof (rule run_conn_rule [OF assms(1), of UNIV ?P])
    show "?P k s2" if "(d, inp) \<in> set (concat (map inputs_of evs))" "step d ml n inp s1 = Some (s2, g)" "?P (Suc k) s1"
      for d inp n k s1 s2 g
    proof -
      have "sound_env q d" using assms(3) that(1) by (force simp: list_all_iff)
      moreover have "stored d q (ss_store s1) (ss_store s2)" using step_store [OF that(2), of q] by blast
      ultimately show ?thesis using stored_run that(3) by blast
    qed
  qed (use assms in \<open>auto simp: into_tls_def say_def\<close>)
  then show ?thesis by simp
qed

end
