(* ===== verification/Smtp_Envelope.thy ===== *)
theory Smtp_Envelope
  imports Smtp_Runs "HOL-Library.Multiset"
begin

text \<open>
  The envelope of the message that an SMTP session queues: the sender and the recipients of the
  session, when no milter, hook or script changes them.
\<close>

definition unfiltered :: "'f data_env \<Rightarrow> bool" where
  "unfiltered d \<longleftrightarrow> (\<forall>s raw. da_milters d s raw = [] \<and> da_hooks d s raw = [])
     \<and> (\<forall>s headers raw. da_script d s headers raw = None)"

text \<open>Addresses are stored with their domain in lower case.\<close>

definition stored_address :: "'f data_env \<Rightarrow> session_address \<Rightarrow> string" where
  "stored_address d a = to_lowercase_domain (ie_lower (da_env d)) (sa_address a)"

definition carries :: "'f data_env \<Rightarrow> session \<Rightarrow> message \<Rightarrow> bool" where
  "carries d s m \<longleftrightarrow> map_option (stored_address d) (sd_mail_from s) = Some (return_path m)
     \<and> mset (map address (recipients m)) = mset (map (stored_address d) (sd_rcpt_to s))"

lemma insert_address_mset: "mset (insert_address a l) = add_mset a (mset l)"
  by (induction l) auto

lemma sort_addresses_mset: "mset (sort_addresses l) = mset l"
  by (induction l) (simp_all add: sort_addresses_def insert_address_mset)

lemma build_recipient_address [simp]: "address (build_recipient d s m a) = stored_address d a"
  by (simp add: build_recipient_def with_orcpt_def with_flags_def recipient_new_def stored_address_def Let_def
      split: prod.split)

lemma build_message_recipients:
  "map address (recipients (message (build_message d s sender i))) = map (stored_address d) (sort_addresses (sd_rcpt_to s))"
proof -
  have "map address (recipients (fold (\<lambda>a m. m\<lparr>recipients := recipients m @ [build_recipient d s m a]\<rparr>) l m))
    = map address (recipients m) @ map (stored_address d) l" for l m
    by (induction l arbitrary: m) simp_all
  then show ?thesis by (simp add: build_message_def Let_def)
qed

lemma build_message_path: "return_path (message (build_message d s sender i)) = stored_address d sender"
proof -
  have "return_path (fold (\<lambda>a m. m\<lparr>recipients := recipients m @ [build_recipient d s m a]\<rparr>) l m) = return_path m" for l m
    by (induction l arbitrary: m) simp_all
  then show ?thesis by (simp add: build_message_def stored_address_def Let_def)
qed

lemma map_sort_addresses: "mset (map f (sort_addresses l)) = mset (map f l)"
  using sort_addresses_mset [of l] by (simp only: mset_map)

lemma build_message_carries:
  "sd_mail_from s = Some sender \<Longrightarrow> recipients m = recipients (message (build_message d s sender i))
    \<Longrightarrow> return_path m = return_path (message (build_message d s sender i)) \<Longrightarrow> carries d s m"
  by (simp add: carries_def build_message_recipients build_message_path map_sort_addresses del: mset_map)

text \<open>What appears in the queue.\<close>

definition new_in :: "queue_store \<Rightarrow> queue_store \<Rightarrow> queue_id \<Rightarrow> message \<Rightarrow> bool" where
  "new_in st st' j m \<longleftrightarrow> st_messages st j = None \<and> st_messages st' j = Some m"

lemma queue_message_new:
  assumes "queue_message io now h raw src w st = (ok, st', r)" and "new_in st st' j m"
  shows "j = queue_id w \<and> recipients m = recipients (message w) \<and> return_path m = return_path (message w)"
  using queue_message_effect [OF assms(1)] assms(2)
  by (auto simp: new_in_def same_queue_def with_message_def split: if_splits)

lemma queue_built_new:
  assumes "queue_built d w h raw src s = (s', t)" and "new_in (ss_store s) (ss_store s') j m"
  shows "j = queue_id w \<and> recipients m = recipients (message w) \<and> return_path m = return_path (message w)"
proof -
  let ?w = "w\<lparr>message := (message w)\<lparr>msg_size := of_nat (length raw + length h)\<rparr>\<rparr>"
  let ?has = "has_quota (da_quota_env d) \<lparr>rc_show = da_show d, rc_now = ie_now (da_env d)\<rparr> (da_quotas d)
      (st_counters (ss_store s)) ?w"
  show ?thesis
  proof (cases ?has)
    case None
    with assms show ?thesis by (auto simp: queue_built_def new_in_def Let_def)
  next
    case (Some w')
    then obtain keys where w': "w' = ?w\<lparr>message := (message ?w)\<lparr>quota_keys := keys\<rparr>\<rparr>"
      by (auto simp: has_quota_admits)
    obtain ok st r where q: "queue_message (da_io d) (ie_now (da_env d)) (Some h) raw src w' (ss_store s) = (ok, st, r)"
      by (cases "queue_message (da_io d) (ie_now (da_env d)) (Some h) raw src w' (ss_store s)")
    with assms(1) Some have "ss_store s' = st" by (auto simp: queue_built_def Let_def split: if_splits)
    with queue_message_new [OF q] assms(2) w' show ?thesis by simp
  qed
qed

lemma finish_new:
  assumes "finish_message d raw h ed i src sender s = (s', t)" and "new_in (ss_store s) (ss_store s') j m"
    and "sd_mail_from s = Some sender"
  shows "j = i \<and> carries d s m"
proof -
  from assms(1) obtain h' body where "queue_built d (build_message d s sender i) h' body src (s\<lparr>sd_rcpt_to := []\<rparr>) = (s', t)"
    by (auto simp: finish_message_def Let_def)
  from queue_built_new [OF this] assms(2) have "j = i" "recipients m = recipients (message (build_message d s sender i))"
    "return_path m = return_path (message (build_message d s sender i))" by simp_all
  with build_message_carries [OF assms(3)] show ?thesis by blast
qed

lemma filter_message_new:
  assumes "unfiltered d" and "filter_message d raw h i src s = (s', t)" and "new_in (ss_store s) (ss_store s') j m"
    and "has_sender s"
  shows "j = i \<and> carries d s m"
proof -
  from assms(4) obtain a where a: "sd_mail_from s = Some a" by (auto simp: has_sender_def)
  from assms(1,2) have "finish_message d raw h None i src a s = (s', t)"
    by (simp add: filter_message_def unfiltered_def data_filters_def apply_milter_modifications_def data_script_def a)
  from finish_new [OF this assms(3) a] show ?thesis .
qed

text \<open>The filter for spam marks recipients, and changes no address.\<close>

lemma mark_spam_addresses: "map sa_address (sd_rcpt_to (mark_spam results s)) = map sa_address (sd_rcpt_to s)"
proof -
  have "map sa_address (map2 (\<lambda>spam r. if spam then r\<lparr>sa_flags := sa_flags r OR fl\<rparr> else r) rs (take (length rs) l)
      @ drop (length rs) l) = map sa_address l" for rs l and fl :: u64
  proof (induction rs arbitrary: l)
    case (Cons b rs)
    then show ?case by (cases l) simp_all
  qed simp
  then show ?thesis by (simp add: mark_spam_def)
qed

lemma spam_filter_envelope:
  assumes "spam_filter d raw s = (s', r)"
  shows "sd_mail_from s' = sd_mail_from s \<and> map sa_address (sd_rcpt_to s') = map sa_address (sd_rcpt_to s)
    \<and> ss_store s' = ss_store s"
proof -
  have "ss_store (mark_spam l s) = ss_store s" "sd_mail_from (mark_spam l s) = sd_mail_from s" for l
    by (simp_all add: mark_spam_def)
  with assms show ?thesis
    by (auto simp: spam_filter_def mark_spam_addresses split: if_splits spam_action.splits)
qed

lemma carries_cong:
  assumes "sd_mail_from s' = sd_mail_from s" and "map sa_address (sd_rcpt_to s') = map sa_address (sd_rcpt_to s)"
  shows "carries d s' m = carries d s m"
proof -
  have m: "map (stored_address d) l = map (to_lowercase_domain (ie_lower (da_env d))) (map sa_address l)" for l
    by (simp add: stored_address_def)
  show ?thesis unfolding carries_def m assms ..
qed

lemma receive_message_new:
  assumes "unfiltered d" and "receive_message d s = (s', r)" and "new_in (ss_store s) (ss_store s') j m"
  shows "j = da_new_id d (ss_store s) \<and> carries d s m"
proof -
  let ?raw = "sd_message s" and ?s = "s\<lparr>sd_message := []\<rparr>"
  let ?i = "da_new_id d (ss_store s)"
  have changed: "ss_store s' \<noteq> ss_store s" using assms(3) by (auto simp: new_in_def)
  obtain s1 f where f: "spam_filter d ?raw ?s = (s1, f)" by fastforce
  note env = spam_filter_envelope [OF f]
  obtain h src where m: "filter_message d ?raw h ?i src s1 = (s', the r)"
    using assms(2) changed f env
    by (cases f) (auto simp: receive_message_def Let_def split: option.splits if_splits prod.splits)
  have "has_sender s" using receive_message_effect [OF assms(2)] changed by blast
  with env have "has_sender s1" by (simp add: has_sender_def)
  from filter_message_new [OF assms(1) m _ this, of j m] assms(3) env
  have "j = ?i" "carries d s1 m" by simp_all
  moreover have "carries d s1 m = carries d s m" by (rule carries_cong) (use env in simp_all)
  ultimately show ?thesis by simp
qed

lemma end_message_new:
  assumes "unfiltered d" and "end_message d s = (s', f)" and "new_in (ss_store s) (ss_store s') j m"
  shows "j = da_new_id d (ss_store s) \<and> carries d s m"
proof -
  obtain s1 r where r: "receive_message d s = (s1, r)" by fastforce
  with assms(2) have "ss_store s' = ss_store s1"
    by (auto simp: end_message_def say_pow reset_def split: option.splits if_splits)
  with receive_message_new [OF assms(1) r] assms(3) show ?thesis by simp
qed

lemma add_bytes_carries [simp]: "carries d (add_bytes b s) m = carries d s m"
  by (rule carries_cong) (simp_all add: add_bytes_def)

text \<open>An input that changes the store ends a message that has recipients.\<close>

lemma step_message:
  assumes "step d ml n inp s = Some (s', f)" and "ss_store s' \<noteq> ss_store s"
  shows "\<exists>b. inp = Chunk b True \<and> end_message d (add_bytes b s) = (s', f)
    \<and> (session_ok s \<longrightarrow> sd_rcpt_to s \<noteq> [])"
  using assms(1)
proof (cases rule: step_cases)
  case (request r)
  with request_store assms(2) show ?thesis by blast
next
  case (request_error e)
  with error_store assms(2) show ?thesis by blast
next
  case (message b)
  then show ?thesis by (auto simp: session_ok_def)
next
  case (chunk b c l)
  obtain s1 ok where c: "can_send_data (da_env d) (add_bytes b s) = (s1, ok)" by fastforce
  note k = can_send_core [OF c]
  show ?thesis
  proof (cases "ok \<and> l")
    case True
    with c have "sd_rcpt_to s \<noteq> []" by (auto simp: can_send_data_def split: if_splits)
    with True c k chunk show ?thesis by (simp add: end_chunk_def)
  next
    case False
    with c k chunk have "ss_store s' = ss_store s"
      by (auto simp: end_chunk_def core_def say_def split: if_splits bool.splits)
    with assms(2) show ?thesis by simp
  qed
next
  case (sasl t tok)
  with sasl_line_effect [OF sasl(3)] have "ss_store s' = ss_store s" by (auto simp: auth_step_def core_def)
  with assms(2) show ?thesis by simp
qed (use assms(2) in \<open>simp_all add: say_def\<close>)

lemma step_new:
  assumes "unfiltered d" and "step d ml n inp s = Some (s', f)" and "new_in (ss_store s) (ss_store s') j m"
  shows "j = da_new_id d (ss_store s) \<and> carries d s m"
proof -
  have "ss_store s' \<noteq> ss_store s" using assms(3) by (auto simp: new_in_def)
  from step_message [OF assms(2) this] obtain b where "end_message d (add_bytes b s) = (s', f)" by blast
  from end_message_new [OF assms(1) this] assms(3) show ?thesis by simp
qed

text \<open>A transaction is over with its message.\<close>

lemma step_over:
  assumes "step d ml n inp s = Some (s', GoOn)" and "ss_store s' \<noteq> ss_store s"
  shows "sd_mail_from s' = None \<and> sd_rcpt_to s' = [] \<and> sd_message s' = [] \<and> sd_rcpt_oks s' = 0"
proof -
  from step_message [OF assms] obtain b where e: "end_message d (add_bytes b s) = (s', GoOn)" by blast
  obtain s1 r where r: "receive_message d (add_bytes b s) = (s1, r)" by fastforce
  from e r obtain s2 where "s' = (reset s2)\<lparr>ss_state := RequestReceiver\<rparr>"
    by (cases r) (auto simp: end_message_def split: if_splits)
  then show ?thesis by (simp add: reset_def)
qed

end
