(* ===== verification/Smtp_Server_Properties.thy ===== *)
theory Smtp_Server_Properties
  imports Smtp_Envelope Queue_Properties Smtp_Properties
begin

text \<open>
  The properties of the SMTP server's sessions: who may send, what is answered, what is queued
  (\<open>Smtp_Runs\<close>). The instance is a server that asks for a login and relays, and a client
  that greets it, logs in and sends a message.
\<close>

section \<open>A small server\<close>

definition plain_server_flags :: server_flags where
  "plain_server_flags = smtp_flags.extend plain_flags (server_flags.fields 16 32 64)"

definition plain_inbound :: inbound_env where
  "plain_inbound = \<lparr>ie_now = 1000, ie_lower = (\<lambda>s. s), ie_trim = (\<lambda>s. s), ie_flags = plain_server_flags,
     ie_notify = \<lparr>notify_success = 2, notify_failure = 4, notify_delay = 8, notify_never = 1\<rparr>,
     ie_flag = (\<lambda>k s. if k = AuthRequire then Some True else if k = RcptRelay then Some True else None),
     ie_number = (\<lambda>k s. if k = AuthMechanisms then Some 15 else None), ie_text = (\<lambda>_ _. None),
     ie_strategy = (\<lambda>_ _. None),
     ie_script = (\<lambda>k s. if k = StageEhlo \<and> sd_helo_domain s = ''bad'' then Some (ScriptReject ''550'') else None),
     ie_milters = (\<lambda>_ _. None), ie_hooks = (\<lambda>_ _. None), ie_rcpt_filters = False,
     ie_limits_remote = [], ie_limits_sender = [], ie_limits_rcpt = [], ie_valid_labels = (\<lambda>_. True),
     ie_iprev = (\<lambda>_. IprevPass), ie_spf_ehlo = (\<lambda>_. SpfPass), ie_spf_mail_from = (\<lambda>_. SpfPass),
     ie_spf_text = (\<lambda>_. []), ie_ehlo_text = (\<lambda>_. ''250 hello''), ie_resolve = (\<lambda>_. Some UnknownDomain),
     ie_grey_list_expiry = None, ie_key_exists = (\<lambda>_. None), ie_key_set = (\<lambda>_. True),
     ie_base64 = Some, ie_jwt_email = (\<lambda>_. None),
     ie_authenticate = (\<lambda>c. case c of Basic u p _ \<Rightarrow> if p = ''secret'' then AuthSucceeded \<lparr>acc_name = u, acc_addresses = []\<rparr> else AuthFailed | _ \<Rightarrow> AuthFailed),
     ie_is_fail2banned = None\<rparr>"

definition plain_data :: "unit data_env" where
  "plain_data = \<lparr>da_env = plain_inbound, da_parses = (\<lambda>_. True), da_received_headers = (\<lambda>_. 0),
     da_dkim = (\<lambda>_. []), da_arc = (\<lambda>_. DkimNone),
     da_dmarc = (\<lambda>_ _. \<lparr>dm_spf_result = DmarcNone, dm_dkim_result = DmarcNone, dm_policy_reject = False\<rparr>),
     da_is_report = (\<lambda>_. False), da_forward_reports = False, da_new_id = unused_id,
     da_trace_headers = (\<lambda>_ _ _. []), da_spam_enabled = False, da_spam_classify = (\<lambda>_ _. SpamDisabled),
     da_milters = (\<lambda>_ _. []), da_hooks = (\<lambda>_ _. []), da_mail_parameters = (\<lambda>_. None),
     da_rcpt_parameters = (\<lambda>_. None), da_edit = (\<lambda>_ _. None), da_script = (\<lambda>_ _ _. None),
     da_has_date = (\<lambda>_. True), da_has_message_id = (\<lambda>_. True), da_date = [], da_message_id = [],
     da_sign = (\<lambda>_ h _. h), da_quota_env = plain_quota_env, da_show = (\<lambda>_. []), da_quotas = no_quotas,
     da_config = plain_config, da_io = plain_io\<rparr>"

section \<open>A client\<close>

definition mail :: "string \<Rightarrow> mail_from" where
  "mail a = \<lparr>mf_address = a, mf_flags = 0, mf_size = 0, mf_by = 0, mf_hold_for = 0, mf_hold_until = 0,
     mf_env_id = None, mf_mt_priority = 0\<rparr>"

definition rcpt :: "string \<Rightarrow> rcpt_to" where
  "rcpt a = \<lparr>rt_address = a, rt_flags = 0, rt_orcpt = None\<rparr>"

definition requests :: "request list \<Rightarrow> unit conn_event" where
  "requests rs = ConnRead 100 True (map (\<lambda>r. (plain_data, Request r)) rs)"

lemmas env_simps = plain_inbound_def flag_or_def size_or_def strategy_or_relaxed_def

definition started :: "nat \<Rightarrow> session" where
  "started k = (session_new 1 (V4 [127, 0, 0, 1]) 25 SmtpProtocol False True empty_store)
     \<lparr>sd_bytes_left := k, ss_hostname := ''localhost'',
      ss_params := \<lparr>ehlo_require = True, ehlo_reject_non_fqdn = True, auth_require = True,
        auth_errors_max = 3, rcpt_errors_max = 0, rcpt_max = 0, rcpt_dsn = False, can_expn = False,
        can_vrfy = False, max_message_size = 0, iprev_strategy = Relaxed, spf_ehlo_strategy = Relaxed,
        spf_mail_from_strategy = Relaxed\<rparr>,
      ss_replies := [line ''220 Stalwart ESMTP at your service.'']\<rparr>"

lemma accepts: "accept_conn plain_inbound (session_new 1 (V4 [127, 0, 0, 1]) 25 SmtpProtocol False True empty_store)
  = (started 262144000, True)"
  by (simp add: accept_conn_def is_allowed_def session_new_def init_conn_def eval_session_params_def env_simps
    started_def then_check_def script_check_def filter_check_def answer_def say_def Let_def)



lemmas ehlo_simps = handle_ehlo_def ehlo_domain_def spf_ehlo_check_def verify_def handle_spf_def
  then_check_def script_check_def filter_check_def

lemmas auth_simps = handle_auth_def from_mechanism_def plain_server_flags_def smtp_flags.defs server_flags.defs plain_flags_def
  handle_sasl_response_def decoded_def over_def session_authenticate_def sasl_state_def eval_post_auth_params_def

lemmas mail_simps = handle_mail_from_def mail_sequence_def mail_iprev_def iprev_refusal_def mail_sender_def mail_checks_def
  run_checks_def require_def script_step_def mail_rewrite_def may_send_as_def deliver_by_check_def
  priority_check_def size_check_def hold_check_def spf_mail_check_def is_allowed_def eval_rcpt_params_def
  authenticated_as_def is_authenticated_def is_strict_def has_bits_def mail_def then_check_def filter_check_def verify_def
  handle_spf_def session_address_new_def

lemmas rcpt_simps = handle_rcpt_to_def rcpt_sequence_def rcpt_address_def has_address_def check_rcpt_def rcpt_filters_def
  verify_rcpt_def limit_rcpt_def greylisted_def expand_rcpt_def count_ok_def push_rcpt_def last_rcpt_def rcpt_def is_allowed_def
  is_authenticated_def session_address_new_def

lemmas request_simps = handle_request_def on_def reply_to_def answer_def say_def reset_def Let_def

definition greeted :: "nat \<Rightarrow> session" where
  "greeted k = (started k)\<lparr>sd_helo_domain := ''b.org'', sd_spf_ehlo := Some SpfPass,
     ss_replies := ss_replies (started k) @ [''250 hello'']\<rparr>"

definition logged_in :: "nat \<Rightarrow> session" where
  "logged_in k = (greeted k)\<lparr>sd_authenticated_as := Some \<lparr>acc_name = ''a@b.org'', acc_addresses = []\<rparr>,
     ss_replies := ss_replies (greeted k) @ [line ''235 2.7.0 Authentication succeeded.'']\<rparr>"

definition sender_given :: "nat \<Rightarrow> session" where
  "sender_given k = (logged_in k)\<lparr>sd_mail_from := Some (session_address_new (\<lambda>s. s) ''a@b.org''),
     sd_iprev := Some IprevPass, sd_spf_mail_from := Some SpfPass,
     ss_params := (ss_params (logged_in k))\<lparr>rcpt_errors_max := 10, rcpt_max := 100, rcpt_dsn := True, max_message_size := 26214400\<rparr>,
     ss_replies := ss_replies (logged_in k) @ [line ''250 2.1.0 OK'']\<rparr>"

definition rcpt_given :: "nat \<Rightarrow> session" where
  "rcpt_given k = (sender_given k)\<lparr>sd_rcpt_to := [session_address_new (\<lambda>s. s) ''c@d.org''], sd_rcpt_oks := 1,
     ss_replies := ss_replies (sender_given k) @ [line ''250 2.1.5 OK'']\<rparr>"

text \<open>Ready for a message.\<close>

definition ready :: "nat \<Rightarrow> session" where
  "ready k = (rcpt_given k)\<lparr>sd_message := [], ss_state := DataReceiver,
     ss_replies := ss_replies (rcpt_given k) @ [line ''354 Start mail input; end with <CRLF>.<CRLF>'']\<rparr>"

text \<open>A second EHLO that is refused, and then DATA.\<close>

definition rejected :: "nat \<Rightarrow> session" where
  "rejected k = (rcpt_given k)\<lparr>sd_mail_from := None, sd_spf_ehlo := None,
     ss_replies := ss_replies (rcpt_given k) @ [''550'']\<rparr>"

definition no_sender :: "nat \<Rightarrow> session" where
  "no_sender k = (rejected k)\<lparr>sd_message := [], ss_state := DataReceiver,
     ss_replies := ss_replies (rejected k) @ [line ''354 Start mail input; end with <CRLF>.<CRLF>'']\<rparr>"

lemmas state_simps = started_def session_new_def greeted_def logged_in_def sender_given_def rcpt_given_def ready_def rejected_def no_sender_def

lemma ehlo_step: "handle_request plain_inbound (CmdEhlo ''b.org'') (started k) = (greeted k, GoOn)"
  by (simp add: request_simps ehlo_simps state_simps env_simps)

lemma login_decoded: "decode_plain ([CHR 0x00] @ ''a@b.org'' @ [CHR 0x00] @ ''secret'') = Some (Basic ''a@b.org'' ''secret'' None)"
  by code_simp

definition login :: request where
  "login = CmdAuth 2 ([CHR 0x00] @ ''a@b.org'' @ [CHR 0x00] @ ''secret'')"

lemma login_step: "handle_request plain_inbound login (greeted k) = (logged_in k, GoOn)"
  by (simp add: login_def request_simps auth_simps state_simps env_simps is_authenticated_def login_decoded [simplified])

lemma mail_step: "handle_request plain_inbound (CmdMail (mail ''a@b.org'')) (logged_in k) = (sender_given k, GoOn)"
  by (simp add: request_simps mail_simps state_simps env_simps)

lemma rcpt_step: "handle_request plain_inbound (CmdRcpt (rcpt ''c@d.org'')) (sender_given k) = (rcpt_given k, GoOn)"
  by (simp add: request_simps rcpt_simps state_simps env_simps)

lemma data_step: "handle_request plain_inbound CmdData (rcpt_given k) = (ready k, GoOn)"
  by (simp add: request_simps start_data_def can_send_data_def state_simps env_simps)

lemma rejected_step: "handle_request plain_inbound (CmdEhlo ''bad'') (rcpt_given k) = (rejected k, GoOn)"
  by (simp add: request_simps ehlo_simps state_simps env_simps)

lemma no_sender_step: "handle_request plain_inbound CmdData (rejected k) = (no_sender k, GoOn)"
  by (simp add: request_simps start_data_def can_send_data_def state_simps env_simps)

lemma request_step:
  assumes "handle_request plain_inbound r s = (s', GoOn)" and "ss_state s = RequestReceiver"
  shows "step plain_data ml n (Request r) s = Some (s', GoOn)"
proof -
  have r: "data_receiver n s = RequestReceiver" using assms(2) by (simp add: data_receiver_def)
  then have "data_receiver n s \<noteq> DataTooLarge" by (rule ssubst) (rule receiver.distinct)
  note same = receiver_same(1) [OF this, unfolded r]
  have e: "da_env plain_data = plain_inbound" by (simp add: plain_data_def)
  show ?thesis by (simp only: step_in r same e Let_def receiver.case input.case assms(1))
qed

definition envelope_requests :: "request list" where
  "envelope_requests = [CmdEhlo ''b.org'', login, CmdMail (mail ''a@b.org''), CmdRcpt (rcpt ''c@d.org'')]"

lemma state_requests:
  "ss_state (started k) = RequestReceiver" "ss_state (greeted k) = RequestReceiver"
  "ss_state (logged_in k) = RequestReceiver" "ss_state (sender_given k) = RequestReceiver"
  "ss_state (rcpt_given k) = RequestReceiver" "ss_state (rejected k) = RequestReceiver"
  by (simp_all add: state_simps)

lemmas steps = request_step [OF ehlo_step] request_step [OF login_step] request_step [OF mail_step]
  request_step [OF rcpt_step] request_step [OF data_step] request_step [OF rejected_step] request_step [OF no_sender_step]

lemma started_read: "n \<le> k \<Longrightarrow> conn_step ml (ConnRead n True ds) (started k) = ingest ml n ds (started (k - n))"
proof -
  have "(started k)\<lparr>sd_bytes_left := k - n\<rparr> = started (k - n)" "sd_bytes_left (started k) = k"
    by (simp_all add: started_def)
  then show "n \<le> k \<Longrightarrow> ?thesis" by (simp add: conn_step_def)
qed

lemma ready_run: "run_conn 2048 [requests (envelope_requests @ [CmdData])] (started 262144000) = Some (ready 262143900, GoOn)"
  by (simp add: requests_def started_read envelope_requests_def steps state_requests)

lemma no_sender_run:
  "run_conn 2048 [requests (envelope_requests @ [CmdEhlo ''bad'', CmdData])] (started 262144000)
     = Some (no_sender 262143900, GoOn)"
  by (simp add: requests_def started_read envelope_requests_def steps state_requests)

lemma panic_step: "\<exists>s. step plain_data 2048 8 (Chunk ''hello'' True) (no_sender k) = Some (s, Panic)"
  by (simp add: step_in data_receiver_def state_simps end_message_def receive_message_def message_refusal_def
      dkim_refusal_def arc_refusal_def plain_data_def env_simps is_strict_def add_bytes_def Let_def)

text \<open>The message is queued.\<close>

lemma plain_queue:
  "\<exists>st' r. queue_message plain_io now h raw src w st = (True, st', r) \<and> st_messages st' (queue_id w) \<noteq> None"
proof -
  let ?m = "queue_prepare plain_io src (case h of Some h \<Rightarrow> h @ raw | None \<Rightarrow> raw) (message w)"
  let ?link = "[SetBlob (LinkTemporary (blob_hash ?m) (now + 120)) NoValue]"
  obtain st1 where st1: "apply_ops ?link st = Some st1"
    using apply_blob_ops [of ?link st] by (auto simp: is_blob_op_def)
  obtain st2 where st2: "apply_ops (queue_ops plain_io now src (queue_id w) ?m) st1 = Some st2"
    "same_queue (with_message (queue_id w) ?m st1) st2" using queue_ops_effect by blast
  have "queue_message plain_io now h raw src w st = (True, st2, True)"
    using store_write_accepted [OF st1] store_write_accepted [OF st2(1)]
    by (simp add: queue_message_def Let_def) (simp add: plain_io_def)
  moreover have "st_messages st2 (queue_id w) \<noteq> None" using st2(2) by (simp add: same_queue_def with_message_def)
  ultimately show ?thesis by blast
qed

lemma no_quotas_admit: "has_quota e rc no_quotas cnt w = Some (w\<lparr>message := (message w)\<lparr>quota_keys := []\<rparr>\<rparr>)"
  by (simp add: has_quota_def no_quotas_def)

lemma plain_built:
  assumes "da_quotas d = no_quotas" and "da_io d = plain_io"
  shows "\<exists>st t. queue_built d w h raw src s = (s\<lparr>ss_store := st, sd_messages_sent := sd_messages_sent s + 1\<rparr>, line t)
    \<and> st_messages st (queue_id w) \<noteq> None"
proof -
  let ?w = "w\<lparr>message := (message w)\<lparr>msg_size := of_nat (length raw + length h), quota_keys := []\<rparr>\<rparr>"
  obtain st r where q: "queue_message plain_io (ie_now (da_env d)) (Some h) raw src ?w (ss_store s) = (True, st, r)"
    "st_messages st (queue_id ?w) \<noteq> None" using plain_queue by blast
  let ?t = "''250 2.0.0 Message queued with id '' @ nat_to_hex (unat (queue_id w)) @ ''.''"
  from q have "queue_built d w h raw src s = (s\<lparr>ss_store := st, sd_messages_sent := sd_messages_sent s + 1\<rparr>, line ?t)"
    by (simp add: queue_built_def assms no_quotas_admit)
  with q(2) show ?thesis by auto
qed

lemma plain_data_simps [simp]:
  "da_env plain_data = plain_inbound" "da_parses plain_data raw" "da_received_headers plain_data raw = 0"
  "da_is_report plain_data s = False" "da_new_id plain_data = unused_id" "da_trace_headers plain_data s i raw = []"
  "da_spam_enabled plain_data = False" "da_milters plain_data s raw = []" "da_hooks plain_data s raw = []"
  "da_script plain_data s h raw = None" "da_quotas plain_data = no_quotas" "da_io plain_data = plain_io"
  by (simp_all add: plain_data_def)

lemma message_received:
  "\<exists>s t. receive_message plain_data (add_bytes ''hello'' (ready k)) = (s, Some (line t))
     \<and> st_messages (ss_store s) (unused_id empty_store) \<noteq> None"
proof -
  let ?a = "session_address_new (\<lambda>s. s) ''a@b.org''"
  let ?s = "(ready k)\<lparr>sd_message := []\<rparr>"
  let ?w = "build_message plain_data ?s ?a (unused_id empty_store)"
  let ?h = "sign_headers plain_data (final_headers plain_data ''hello'' (return_path (message ?w)) [] (?s\<lparr>sd_rcpt_to := []\<rparr>))
    ''hello'' (?s\<lparr>sd_rcpt_to := []\<rparr>)"
  obtain st t where b: "queue_built plain_data ?w ?h ''hello'' Authenticated (?s\<lparr>sd_rcpt_to := []\<rparr>)
      = (?s\<lparr>sd_rcpt_to := [], ss_store := st, sd_messages_sent := sd_messages_sent (?s\<lparr>sd_rcpt_to := []\<rparr>) + 1\<rparr>, line t)"
    "st_messages st (unused_id empty_store) \<noteq> None"
    using plain_built [of plain_data ?w ?h "''hello''" Authenticated "?s\<lparr>sd_rcpt_to := []\<rparr>"] by auto
  have s: "sd_mail_from (ready k) = Some ?a" "is_authenticated ?s" "ss_store (ready k) = empty_store"
    "sd_message (ready k) = []" "sd_spf_mail_from (ready k) = Some SpfPass"
    by (simp_all add: state_simps is_authenticated_def)
  have "message_refusal plain_data ''hello'' ?s = None" "dmarc_refusal plain_data ''hello'' ?s = None"
    by (simp_all add: message_refusal_def dkim_refusal_def arc_refusal_def dmarc_refusal_def env_simps is_strict_def Let_def)
  moreover have "filter_message plain_data ''hello'' [] (unused_id empty_store) Authenticated ?s
      = (?s\<lparr>sd_rcpt_to := [], ss_store := st, sd_messages_sent := sd_messages_sent (?s\<lparr>sd_rcpt_to := []\<rparr>) + 1\<rparr>, line t)"
    using b(1) s by (simp add: filter_message_def data_filters_def apply_milter_modifications_def data_script_def
        finish_message_def Let_def)
  ultimately have "receive_message plain_data (add_bytes ''hello'' (ready k))
      = (?s\<lparr>sd_rcpt_to := [], ss_store := st, sd_messages_sent := sd_messages_sent (?s\<lparr>sd_rcpt_to := []\<rparr>) + 1\<rparr>,
         Some (line t))"
    using s by (simp add: receive_message_def spam_filter_def add_bytes_def Let_def)
  with b(2) show ?thesis by (intro exI conjI) (assumption, simp)
qed

lemma message_step:
  "\<exists>s. step plain_data 2048 8 (Chunk ''hello'' True) (ready k) = Some (s, GoOn)
     \<and> st_messages (ss_store s) (unused_id empty_store) \<noteq> None"
proof -
  obtain s t where r: "receive_message plain_data (add_bytes ''hello'' (ready k)) = (s, Some (line t))"
    "st_messages (ss_store s) (unused_id empty_store) \<noteq> None" using message_received by blast
  have d: "data_receiver 8 (ready k) = DataReceiver" by (simp add: data_receiver_def state_simps)
  then have "data_receiver 8 (ready k) \<noteq> DataTooLarge" by (rule ssubst) (rule receiver.distinct)
  note same = receiver_same(1) [OF this, unfolded d]
  have "step plain_data 2048 8 (Chunk ''hello'' True) (ready k) = Some (end_message plain_data (add_bytes ''hello'' (ready k)))"
    by (simp only: step_in d same Let_def receiver.case input.case if_True)
  with r show ?thesis by (simp add: end_message_def line_def say_pow reset_def)
qed

section \<open>Who may send\<close>



section \<open>Replies\<close>

text \<open>
  Every input is answered, and with as many replies as it is due: a request or
  an error of the parser has one (BDAT has its reply after its bytes, a line that is too long after
  its end), a line of a SASL exchange one, what is skipped one at its end, and a message one over
  SMTP and one for each accepted recipient over LMTP.
\<close>

theorem smtp_replies_due:
  assumes "step d ml n inp s = Some (s', f)" and "f \<noteq> HangUp" and "f \<noteq> Panic"
  shows "\<exists>text. ss_replies s' = ss_replies s @ replicate (replies_due d n inp s) text"
  using step_answers [OF assms] by (simp add: answers_def)

definition lmtp_ready :: session where
  "lmtp_ready = (ready 1000)\<lparr>ss_protocol := LmtpProtocol, sd_rcpt_oks := 2\<rparr>"

definition no_parser :: "unit data_env" where
  "no_parser = plain_data\<lparr>da_parses := \<lambda>_. False\<rparr>"

theorem smtp_replies_due_witness:
  "\<exists>s t. step no_parser 2048 8 (Chunk ''hello'' True) lmtp_ready = Some (s, GoOn)
     \<and> ss_replies s = ss_replies lmtp_ready @ [t, t]"
proof -
  have "\<exists>s. step no_parser 2048 8 (Chunk ''hello'' True) lmtp_ready = Some (s, GoOn)"
    by (simp add: step_in data_receiver_def state_simps lmtp_ready_def no_parser_def end_message_def
        receive_message_def message_refusal_def add_bytes_def line_def Let_def)
  then obtain s where s: "step no_parser 2048 8 (Chunk ''hello'' True) lmtp_ready = Some (s, GoOn)" by blast
  have "replies_due no_parser 8 (Chunk ''hello'' True) lmtp_ready = 2"
    by (simp add: replies_due_def lmtp_ready_def ready_def num_responses_def)
  with smtp_replies_due [OF s] s show ?thesis by (auto simp: numeral_2_eq_2)
qed

section \<open>The queue\<close>



text \<open>
  C40: What a session puts in the queue is a run of the queue: from a store that a run of the
  queue has reached, any conversation leads to such a store (under one virtual queue, with fresh ids
  and room for a message per input), whether it ends with a reply, a hang-up or a panic. So
  accounting, events and delivery (\<open>Queue_Properties\<close>) hold for the messages that come in.
\<close>

theorem smtp_session_queues:
  assumes "run_conn ml evs s = Some (s', f)" and "queue_run E q n (ss_store s)"
    and "list_all (sound_env q) (map fst (concat (map inputs_of evs)))"
    and "card (dom (st_messages (ss_store s))) + length (concat (map inputs_of evs)) < 2 ^ 64"
  shows "queue_run E q n (ss_store s')"
  by (rule run_conn_queue_run [OF assms])

text \<open>The whole conversation, with the message.\<close>

definition whole :: "unit conn_event list" where
  "whole = [requests (envelope_requests @ [CmdData]), ConnRead 8 True [(plain_data, Chunk ''hello'' True)]]"

lemma ready_read: "n \<le> k \<Longrightarrow> conn_step ml (ConnRead n True ds) (ready k) = ingest ml n ds (ready (k - n))"
proof -
  have "(ready k)\<lparr>sd_bytes_left := k - n\<rparr> = ready (k - n)" "sd_bytes_left (ready k) = k"
    by (simp_all add: state_simps)
  then show "n \<le> k \<Longrightarrow> ?thesis" by (simp add: conn_step_def)
qed

lemma whole_run: "\<exists>s. run_conn 2048 whole (started 262144000) = Some (s, GoOn)
    \<and> st_messages (ss_store s) (unused_id empty_store) \<noteq> None"
proof -
  obtain s where "step plain_data 2048 8 (Chunk ''hello'' True) (ready 262143892) = Some (s, GoOn)"
    "st_messages (ss_store s) (unused_id empty_store) \<noteq> None" using message_step by blast
  then show ?thesis
    by (simp add: whole_def requests_def started_read ready_read envelope_requests_def steps state_requests)
qed

lemma plain_data_sound: "sound_env DEFAULT_QUEUE_NAME plain_data"
  by (simp add: sound_env_def plain_data_def unused_id_fresh one_strategy_def plain_config_def strategy_def
      get_queue_or_default_def default_schedule_def)

lemma empty_card [simp]: "card (dom (st_messages empty_store)) = 0"
  by (simp add: empty_store_def)

theorem smtp_session_queues_witness:
  "\<exists>s. run_conn 2048 whole (started 262144000) = Some (s, GoOn)
     \<and> st_messages (ss_store s) (unused_id empty_store) \<noteq> None
     \<and> queue_run {plain_env} DEFAULT_QUEUE_NAME 0 (ss_store s)"
proof -
  obtain s where s: "run_conn 2048 whole (started 262144000) = Some (s, GoOn)"
    "st_messages (ss_store s) (unused_id empty_store) \<noteq> None" using whole_run by blast
  have "ss_store (started 262144000) = empty_store" by (simp add: state_simps)
  then have "queue_run {plain_env} DEFAULT_QUEUE_NAME 0 (ss_store s)"
    using smtp_session_queues [OF s(1), of "{plain_env}" DEFAULT_QUEUE_NAME 0]
    by (simp add: run_empty whole_def requests_def envelope_requests_def inputs_of_def plain_data_sound)
  with s show ?thesis by blast
qed

text \<open>
  The only panic of a session is that of a message without a sender: when an input of a
  session panics, there are recipients but no sender. A client reaches this state with a second
  EHLO that is refused after RCPT: the refusal drops the sender and keeps the recipients, and DATA
  only asks for these.
\<close>

theorem smtp_panic_without_sender:
  assumes "accept_conn e (session_new i ip port proto tls acc st) = (s0, True)"
    and "run_conn ml evs s0 = Some (s1, GoOn)" and "step d ml n inp s1 = Some (s2, Panic)"
  shows "sd_mail_from s1 = None \<and> sd_rcpt_to s1 \<noteq> []"
  using init_conn_ok [OF assms(1)] run_conn_ok [OF assms(2)] step_panic [OF assms(3)]
  by (auto simp: has_sender_def)

theorem smtp_panic_without_sender_witness:
  "\<exists>s. run_conn 2048 [requests (envelope_requests @ [CmdEhlo ''bad'', CmdData])] (started 262144000)
       = Some (no_sender 262143900, GoOn)
     \<and> step plain_data 2048 8 (Chunk ''hello'' True) (no_sender 262143900) = Some (s, Panic)
     \<and> sd_mail_from (no_sender 262143900) = None \<and> sd_rcpt_to (no_sender 262143900) \<noteq> []"
proof -
  obtain s where s: "step plain_data 2048 8 (Chunk ''hello'' True) (no_sender 262143900) = Some (s, Panic)"
    using panic_step by blast
  from smtp_panic_without_sender [OF accepts no_sender_run s] s no_sender_run show ?thesis by blast
qed

end
