(* ===== verification/Spec2Isabelle.thy ===== *)
theory Spec2Isabelle
  imports Change_Log Keywords Semver Glob Snowflake Topological Pop3_Properties
    Imap_Limits Expr_Properties Queue_Properties Smtp_Properties
    Smtp_Server_Properties
begin

text \<open>
  A model of the mail server's own logic (the Rust workspace under \<^verbatim>\<open>src/crates\<close>) and
  the theorems that make it correct. This theory imports the others and holds no definitions.

  \<^bold>\<open>Parts and theories.\<close> Paths are below \<^verbatim>\<open>src/crates\<close>; a definition has the name of
  the function it translates, with a prefix where several types have a function of that name.

  \<^item> \<^verbatim>\<open>Prelude\<close>: bytes and text as the standard library has them (ASCII case,
    UTF-8, decimal numbers), checked machine arithmetic, and the locale \<open>byte_parser\<close>
    for parsers that are fed one byte at a time, with the lemma that the cutting of the
    input into buffers does not matter.
  \<^item> \<^verbatim>\<open>Bitmaps, Vec_Map, Leb128, Base32, Glob, Snowflake, Topological, Chained_Bytes\<close>:
    the utilities (\<^verbatim>\<open>utils/src\<close>): bit sets, ordered association lists, variable-length
    integers, the text form of blob ids, glob patterns, time-ordered ids, dependency order, and
    byte strings in two parts.
  \<^item> \<^verbatim>\<open>Ids, Semver, Data_Types, Keywords\<close>: the identifiers, versions, enums and
    message keywords of \<^verbatim>\<open>types/src\<close>, with the tables that number and name them.
  \<^item> \<^verbatim>\<open>Store_Keys, Change_Log\<close>: the keys of the store (\<^verbatim>\<open>store/src/write/key.rs\<close>)
    and the change log, written by \<^verbatim>\<open>store/src/write/log.rs\<close> and read back by
    \<^verbatim>\<open>store/src/query/log.rs\<close>, which rests on Leb128 and Store_Keys.
  \<^item> \<^verbatim>\<open>Sasl\<close>: the SASL challenges of \<^verbatim>\<open>directory/src/core/sasl.rs\<close>.
  \<^item> \<^verbatim>\<open>Pop3_Parser, Pop3_Client, Pop3_Response, Pop3_Session, Pop3_Correct,
    Pop3_Logins, Pop3_Properties\<close>: the POP3 server (\<^verbatim>\<open>pop3/src\<close>). The parser is the automaton of
    \<^verbatim>\<open>protocol/request.rs\<close>, the responses are \<^verbatim>\<open>protocol/response.rs\<close>, the session
    is \<^verbatim>\<open>client.rs\<close>, \<^verbatim>\<open>session.rs\<close>, \<^verbatim>\<open>mailbox.rs\<close> and \<^verbatim>\<open>op/\<close>: a record
    \<open>conn\<close> of the connection (parser, login state, marked messages, bytes sent) and one
    definition per handler. \<open>Pop3_Client\<close> is what a client sends, \<open>Pop3_Logins\<close> counts the
    failed logins of a connection.
  \<^item> \<^verbatim>\<open>Imap_Receiver, Imap_Commands, Imap_Client, Imap_Limits\<close>: the receiver of IMAP and
    ManageSieve requests (\<^verbatim>\<open>imap-proto/src/receiver.rs\<close>), an automaton over bytes generic
    in the table of commands, with the tables of both protocols; what a client sends and what the
    receiver makes of it; what the receiver holds at most.
  \<^item> \<^verbatim>\<open>Expr_Values, Expr_Parser, Expr_Tokenizer, Expr_Eval, Expr_Config\<close>: the language of the
    configuration's expressions (\<^verbatim>\<open>common/src/expr\<close>): values and operators
    (\<^verbatim>\<open>mod.rs, eval.rs\<close>), operator-precedence parser (\<^verbatim>\<open>parser.rs\<close>), tokenizer
    (\<^verbatim>\<open>tokenizer.rs\<close>), stack machine with short-circuit jumps (\<^verbatim>\<open>eval.rs\<close>),
    conditional blocks (\<^verbatim>\<open>if_block.rs\<close>). \<open>Expr_Syntax\<close> has the syntax trees with their
    tokens, code and meaning; \<open>Expr_Compile, Expr_Safety, Expr_Text, Expr_Names, Expr_Pipeline,
    Expr_Size\<close> prove that the parser compiles, that no input breaks its invariant, that the
    tokenizer reads back what is written, and how long the code is; \<open>Expr_Properties\<close> has the results.
  \<^item> \<^verbatim>\<open>Queue_Message, Queue_Dsn, Queue_Quota, Queue_Spool, Queue_Delivery,
    Queue_Manager\<close>: the queue of the SMTP server (\<^verbatim>\<open>smtp/src/queue\<close>,
    \<^verbatim>\<open>smtp/src/outbound\<close>): messages and the times they wait for (\<^verbatim>\<open>mod.rs\<close>),
    notifications (\<^verbatim>\<open>dsn.rs\<close>), quotas (\<^verbatim>\<open>quota.rs\<close>), the batches that queue, save and
    remove a message in the store (\<^verbatim>\<open>spool.rs\<close>, a record \<open>queue_store\<close> of messages, events,
    counters and blob links), an attempt (\<^verbatim>\<open>delivery.rs, local.rs\<close>) and the loop that starts
    the workers (\<^verbatim>\<open>manager.rs\<close>, a record \<open>queue_manager\<close>). \<open>Queue_Consistency\<close> has
    the invariant of the store and the step relation \<open>queue_run\<close>, \<open>Queue_Rounds\<close> the
    rounds of the manager and \<open>manager_run\<close>, \<open>Queue_Progress\<close> what ends up delivered
    or removed, \<open>Queue_Admission\<close> quotas and notifications, \<open>Queue_Properties\<close> the results.
  \<^item> \<^verbatim>\<open>Smtp_Client, Smtp_Session, Smtp_Transaction, Smtp_Properties\<close>: a delivery to a host
    over SMTP or LMTP (\<^verbatim>\<open>smtp/src/outbound/client.rs, session.rs\<close>). A record
    \<open>smtp_conn\<close> holds what has been written and what the reads will return; \<open>deliver\<close> gives the
    results that an attempt applies to the recipients. \<open>Smtp_Transaction\<close> has the lemmas,
    \<open>Smtp_Dialogue\<close> the dialogue with the host: which reply belongs to which command and recipient.
  \<^item> \<^verbatim>\<open>Smtp_Inbound, Smtp_Commands, Smtp_Data, Smtp_Server\<close>: the sessions of the SMTP and LMTP
    server (\<^verbatim>\<open>smtp/src/core, smtp/src/inbound\<close>): a record \<open>session\<close> of the envelope, the
    login, the parameters, the replies written and the queue's store; one definition per command
    (\<^verbatim>\<open>ehlo.rs, mail.rs, rcpt.rs, auth.rs, vrfy.rs\<close>); what becomes of a message
    (\<^verbatim>\<open>data.rs\<close>, with the envelope changes of \<^verbatim>\<open>milter/message.rs\<close> and the answers of
    milters and hooks), up to \<open>queue_message\<close> of \<open>Queue_Spool\<close>; the receivers of the session and the
    connection (\<^verbatim>\<open>session.rs, spawn.rs\<close>). \<open>step\<close> handles one input of the parser,
    \<open>ingest\<close> a read, \<open>run_conn\<close> a connection. \<open>Smtp_Frame, Smtp_Handlers, Smtp_Receive,
    Smtp_Requests, Smtp_Runs, Smtp_Envelope\<close> have what each keeps and changes, the invariant of a
    session, the replies that are due and the envelope that is queued; \<open>Smtp_Server_Properties\<close> has the
    results.

  \<^bold>\<open>State and effects.\<close> Mutable state is a record that the operations take and
  return; errors are \<open>Inl\<close> values or \<open>None\<close>; a byte string is a \<open>string\<close>;
  fixed-width integers are words that wrap where the code's release build does, and the code's
  checked and saturating operations are written out. What the sources take from elsewhere (the
  clock, Unicode case tables, the iteration order of a hash map, the directory, the network, the
  rest of the server) is an argument of the definitions that use it.

  \<^bold>\<open>What is shown.\<close> The round trips say that what one half of the program
  encodes the other half decodes (LEB128, base 32, ids, versions, keywords, change log entries,
  POP3 commands and responses, SASL challenges). The equivalences and refinements relate an
  implementation to what it is for: the backtracking matcher to the meaning of a glob pattern, the
  topological iterator to an order of the graph, the compiled code of an expression to the value
  of its syntax tree, VecMap to a map, bitmaps to sets, the change log to the changes that
  happened, the deletion marks of a POP3 session to those of RFC 1939. The invariants and safety
  properties bound logins, deletions and panics of POP3 sessions over every sequence of network
  reads, and give the conditions under which generated ids are unique and ordered. For the queue they
  say that counters, events and messages of the store agree after any sequence of attempts, that the
  manager starts no worker beyond the threads of its queue, also when the settings change, that a waiting
  message is started and that an expired one leaves, both under one virtual queue, and that a recipient's final
  notification is sent once; a delivery over SMTP marks no recipient as delivered but the one whose
  command and message the host has answered for, and forgets none. For the SMTP server they say that
  a message is queued only for a client that has greeted and logged in where it must, with the envelope
  that it gave, and that sessions feed the queue with runs of it. A property that
  shows where the code departs from its intention says so.

  \<^bold>\<open>Termination and fuel.\<close> Every recursion is structural or has a measure; nothing
  runs on fuel.

  \<^bold>\<open>Not modelled.\<close> Parts that are input and output around libraries (database
  drivers, HTTP, TLS, DNS, XML, JSON, mail and calendar parsers), generated tables (the
  registry schema, event names), floating-point statistics, trace events and metrics, start-up
  and migrations. Value keys of the store, the IMAP and ManageSieve handlers, the clients of
  milters and hooks, message authentication (DKIM, ARC, DMARC, SPF), the look-ups of remote hosts (MX, DANE, MTA-STS), the JMAP and DAV servers and the
  access-control core are listed in the manifest and not modelled.
\<close>

end
